(* ===== verification/Prelude.thy ===== *)
theory Prelude
  imports "HOL-Library.AList" "HOL-Library.Sublist" "HOL-Library.Char_ord" "HOL-Library.List_Lexorder"
begin

text \<open>
  The shared vocabulary of the development: the Python values that travel through the
  program as JSON documents, the string and dictionary operations of the Python standard
  library the sources call, and the generic lemmas the components share.

  A Python \<^verbatim>\<open>str\<close> is the list of the bytes of its UTF-8 encoding, so the order of
  \<^verbatim>\<open>sorted\<close> (by code point) is the lexicographic order of the lists. Case mapping and
  whitespace are those of ASCII. A \<^verbatim>\<open>dict\<close> is an association list in insertion order
  with distinct keys. Floating point numbers do not occur in the modelled documents.
\<close>

section \<open>Collections of rules\<close>

named_theorems dict_simps \<open>lookups in dictionaries after an update\<close>
named_theorems dict_intros \<open>well-formedness of dictionaries\<close>
named_theorems str_simps \<open>algebra of the string operations\<close>

section \<open>Strings\<close>

text \<open>ASCII whitespace as \<^verbatim>\<open>str.isspace\<close> has it.\<close>

definition is_space :: "char \<Rightarrow> bool" where
  "is_space c = (c \<in> {CHR 0x09, CHR 0x0A, CHR 0x0B, CHR 0x0C, CHR 0x0D,
                     CHR 0x1C, CHR 0x1D, CHR 0x1E, CHR 0x1F, CHR 0x20})"

definition strip :: "string \<Rightarrow> string" where
  "strip s = rev (dropWhile is_space (rev (dropWhile is_space s)))"

definition lower_char :: "char \<Rightarrow> char" where
  "lower_char c = (let n = of_char c :: nat in if 65 \<le> n \<and> n \<le> 90 then char_of (n + 32) else c)"

definition upper_char :: "char \<Rightarrow> char" where
  "upper_char c = (let n = of_char c :: nat in if 97 \<le> n \<and> n \<le> 122 then char_of (n - 32) else c)"

definition lower :: "string \<Rightarrow> string" where
  "lower s = map lower_char s"

definition upper :: "string \<Rightarrow> string" where
  "upper s = map upper_char s"

text \<open>Evaluation goes through \<^typ>\<open>int\<close>, whose numerals are binary.\<close>

lemma of_char_int: "(of_char c :: int) = int (of_char c)"
  by (metis of_nat_of_char)
lemma lower_char_code [code]: "lower_char c = (let n = of_char c :: int in if 65 \<le> n \<and> n \<le> 90 then char_of (n + 32) else c)"
proof -
  have "char_of (int (of_char c + 32)) = (char_of (of_char c + 32 :: nat) :: char)" by (rule char_of_nat)
  then show ?thesis by (simp add: lower_char_def of_char_int Let_def)
qed
lemma upper_char_code [code]: "upper_char c = (let n = of_char c :: int in if 97 \<le> n \<and> n \<le> 122 then char_of (n - 32) else c)"
proof (cases "97 \<le> (of_char c :: nat)")
  case True
  have "char_of (int (of_char c - 32)) = (char_of (of_char c - 32 :: nat) :: char)" by (rule char_of_nat)
  with True show ?thesis by (simp add: upper_char_def of_char_int Let_def of_nat_diff)
qed (simp add: upper_char_def of_char_int Let_def)

text \<open>\<^verbatim>\<open>sep.join(xs)\<close>.\<close>

fun join :: "string \<Rightarrow> string list \<Rightarrow> string" where
  "join sep [] = []"
| "join sep [x] = x"
| "join sep (x # y # zs) = x @ sep @ join sep (y # zs)"

text \<open>\<^verbatim>\<open>str(n)\<close> for an \<^verbatim>\<open>int\<close>.\<close>

fun show_nat :: "nat \<Rightarrow> string" where
  "show_nat n = (if n < 10 then [char_of (48 + n)] else show_nat (n div 10) @ [char_of (48 + n mod 10)])"

declare show_nat.simps [simp del]

definition show_int :: "int \<Rightarrow> string" where
  "show_int i = (if i < 0 then CHR ''-'' # show_nat (nat (- i)) else show_nat (nat i))"

text \<open>Printing a number loses nothing: reading the digits back gives it.\<close>

definition read_nat :: "string \<Rightarrow> nat" where
  "read_nat s = foldl (\<lambda>n c. n * 10 + (of_char c - 48)) 0 s"

lemma read_show_nat: "read_nat (show_nat n) = n"
proof (induction n rule: show_nat.induct)
  case (1 n)
  show ?case
  proof (cases "n < 10")
    case True
    then show ?thesis by (simp add: show_nat.simps read_nat_def)
  next
    case False
    then have "read_nat (show_nat n) = read_nat (show_nat (n div 10)) * 10 + n mod 10"
      by (simp add: show_nat.simps [of n] read_nat_def)
    with 1 False show ?thesis by simp
  qed
qed

lemma show_nat_inject [simp]: "show_nat m = show_nat n \<longleftrightarrow> m = n"
  by (metis read_show_nat)

text \<open>\<^verbatim>\<open>sorted(set(xs))\<close>.\<close>

definition sorted_set :: "string list \<Rightarrow> string list" where
  "sorted_set xs = sort (remdups xs)"

lemma set_sorted_set [simp]: "set (sorted_set xs) = set xs"
  by (simp add: sorted_set_def)

lemma sorted_sorted_set [simp]: "sorted (sorted_set xs)"
  by (simp add: sorted_set_def)

lemma distinct_sorted_set [simp]: "distinct (sorted_set xs)"
  by (simp add: sorted_set_def)

lemma sorted_set_cong: "set xs = set ys \<Longrightarrow> sorted_set xs = sorted_set ys"
  by (rule sorted_distinct_set_unique) simp_all

lemma sorted_set_eq_Nil [simp]: "sorted_set xs = [] \<longleftrightarrow> xs = []"
  by (metis set_empty set_sorted_set)

lemma dropWhile_idem [simp]: "dropWhile P (dropWhile P xs) = dropWhile P xs"
  by (induction xs) auto

lemma strip_Nil [str_simps]: "strip [] = []"
  by (simp add: strip_def)

lemma all_dropWhile: "(\<forall>x \<in> set (dropWhile P xs). P x) \<longleftrightarrow> (\<forall>x \<in> set xs. P x)"
  by (induction xs) auto

lemma strip_eq_Nil: "strip s = [] \<longleftrightarrow> (\<forall>c \<in> set s. is_space c)"
  by (simp add: strip_def dropWhile_eq_Nil_conv all_dropWhile)

lemma of_char_lt_256: "(of_char c :: nat) < 256"
  by simp

lemma lower_char_idem [simp]: "lower_char (lower_char c) = lower_char c"
  by (auto simp: lower_char_def Let_def)

lemma lower_idem [str_simps]: "lower (lower s) = lower s"
  by (simp add: lower_def)

lemma lower_eq_Nil [str_simps]: "lower s = [] \<longleftrightarrow> s = []"
  by (simp add: lower_def)

section \<open>Values\<close>

datatype pv =
    PNone
  | PBool bool
  | PInt int
  | PStr string
  | PList "pv list"
  | PDict "(string \<times> pv) list"

type_synonym 'v dict = "(string \<times> 'v) list"
type_synonym pdict = "pv dict"

text \<open>\<^verbatim>\<open>bool(v)\<close>.\<close>

fun truthy :: "pv \<Rightarrow> bool" where
  "truthy PNone = False"
| "truthy (PBool b) = b"
| "truthy (PInt i) = (i \<noteq> 0)"
| "truthy (PStr s) = (s \<noteq> [])"
| "truthy (PList xs) = (xs \<noteq> [])"
| "truthy (PDict d) = (d \<noteq> [])"

text \<open>\<^verbatim>\<open>d.get(k)\<close>: a missing key reads as \<^verbatim>\<open>None\<close>.\<close>

definition dget :: "pdict \<Rightarrow> string \<Rightarrow> pv" where
  "dget d k = (case map_of d k of None \<Rightarrow> PNone | Some v \<Rightarrow> v)"

text \<open>\<^verbatim>\<open>k in d\<close>.\<close>

definition dhas :: "'v dict \<Rightarrow> string \<Rightarrow> bool" where
  "dhas d k = (map_of d k \<noteq> None)"

text \<open>\<^verbatim>\<open>d[k] = v\<close>: an existing key keeps its position, a new key comes last.\<close>

abbreviation dput :: "string \<Rightarrow> 'v \<Rightarrow> 'v dict \<Rightarrow> 'v dict" where
  "dput \<equiv> AList.update"

definition dkeys :: "'v dict \<Rightarrow> string list" where
  "dkeys d = map fst d"

definition dvalues :: "'v dict \<Rightarrow> 'v list" where
  "dvalues d = map snd d"

text \<open>Every dictionary of the program has distinct keys, at every depth.\<close>

fun wf_pv :: "pv \<Rightarrow> bool" where
  "wf_pv (PList xs) = (\<forall>x \<in> set xs. wf_pv x)"
| "wf_pv (PDict d) = (distinct (map fst d) \<and> (\<forall>kv \<in> set d. wf_pv (snd kv)))"
| "wf_pv _ = True"

lemma dget_dput [dict_simps]: "dget (dput k v d) k' = (if k' = k then v else dget d k')"
  by (simp add: dget_def update_conv)

lemma dhas_dput [dict_simps]: "dhas (dput k v d) k' = (k' = k \<or> dhas d k')"
  by (simp add: dhas_def update_conv)

lemma map_of_dput [dict_simps]: "map_of (dput k v d) = (map_of d)(k \<mapsto> v)"
  by (rule update_conv')

lemma dkeys_dput [dict_simps]: "set (dkeys (dput k v d)) = insert k (set (dkeys d))"
  by (simp add: dkeys_def dom_update flip: dom_map_of_conv_image_fst) (auto simp: update_conv' dom_map_of_conv_image_fst)

lemma dhas_iff_dkeys: "dhas d k \<longleftrightarrow> k \<in> set (dkeys d)"
  by (simp add: dhas_def dkeys_def map_of_eq_None_iff)

lemma distinct_dput [dict_intros]: "distinct (dkeys d) \<Longrightarrow> distinct (dkeys (dput k v d))"
  by (simp add: dkeys_def distinct_update)

lemma set_update_subset: "set (AList.update k v d) \<subseteq> insert (k, v) (set d)"
  by (induction d) auto

lemma dget_empty [dict_simps]: "dget [] k = PNone"
  by (simp add: dget_def)

lemma wf_map_of: "wf_pv (PDict d) \<Longrightarrow> map_of d k = Some v \<Longrightarrow> wf_pv v"
  by (auto dest!: map_of_SomeD)

lemma wf_dget: "wf_pv (PDict d) \<Longrightarrow> wf_pv (dget d k)"
  by (auto simp: dget_def split: option.splits dest: wf_map_of)

text \<open>A value found in a dictionary is smaller than the dictionary: the termination
  argument of every recursion over documents.\<close>

lemma size_map_of: "map_of d k = Some v \<Longrightarrow> size v < size (PDict d)"
  by (induction d) (auto split: if_splits)

lemma map_of_dget: "dget d k = v \<Longrightarrow> v \<noteq> PNone \<Longrightarrow> map_of d k = Some v"
  by (auto simp: dget_def split: option.splits)

lemma size_dget_PList: "dget d k = PList xs \<Longrightarrow> size (PList xs) < size (PDict d)"
  by (blast dest: map_of_dget intro: size_map_of)

lemma size_dget: "d \<noteq> [] \<Longrightarrow> size (dget d k) < size (PDict d)"
  by (cases "map_of d k") (auto simp: dget_def dest: size_map_of)

lemma size_in_list: "x \<in> set xs \<Longrightarrow> size x < size (PList xs)"
  by (induction xs) auto

lemma size_in_dict: "kv \<in> set d \<Longrightarrow> size (snd kv) < size (PDict d)"
  by (induction d) (auto simp: less_Suc_eq)

section \<open>Lists of strings inside documents\<close>

text \<open>\<^verbatim>\<open>[item for item in xs if isinstance(item, str) and item]\<close>.\<close>

fun str_items :: "pv list \<Rightarrow> string list" where
  "str_items [] = []"
| "str_items (x # xs) = (case x of
      PStr s \<Rightarrow> if s = [] then str_items xs else s # str_items xs
    | _ \<Rightarrow> str_items xs)"

lemma set_str_items: "s \<in> set (str_items xs) \<longleftrightarrow> s \<noteq> [] \<and> PStr s \<in> set xs"
  by (induction xs) (auto split: pv.splits)

lemma str_items_nonempty: "s \<in> set (str_items xs) \<Longrightarrow> s \<noteq> []"
  by (simp add: set_str_items)

lemma str_items_map_PStr: "[] \<notin> set ss \<Longrightarrow> str_items (map PStr ss) = ss"
  by (induction ss) auto

lemma str_items_append: "str_items (xs @ ys) = str_items xs @ str_items ys"
  by (induction xs) (auto split: pv.splits)

section \<open>Tables\<close>

text \<open>A table is a list of rows addressed by a key that no write changes.\<close>

lemma find_write:
  assumes "\<And>x. key (f x) = key x"
  shows "find (\<lambda>x. key x = k) (map (\<lambda>x. if key x = j then f x else x) xs) =
    (if k = j then map_option f (find (\<lambda>x. key x = k) xs) else find (\<lambda>x. key x = k) xs)"
  by (induction xs) (auto simp: assms)

lemma count_write:
  assumes "distinct (map key xs)" "x \<in> set xs"
  shows "length (filter P (map (\<lambda>y. if key y = key x then f y else y) xs)) + (if P x then 1 else 0)
    = length (filter P xs) + (if P (f x) then 1 else 0)"
  using assms
proof (induction xs)
  case (Cons y ys)
  show ?case
  proof (cases "x = y")
    case True
    have "map (\<lambda>z. if key z = key x then f z else z) ys = ys"
      using Cons.prems(1) True by (intro map_idI) (auto simp: image_iff)
    with True show ?thesis by simp
  next
    case False
    with Cons show ?thesis by (auto simp: image_iff)
  qed
qed simp

lemma find_append: "find P (xs @ ys) = (case find P xs of None \<Rightarrow> find P ys | Some x \<Rightarrow> Some x)"
  by (induction xs) auto

lemma fold_invariant: "P s \<Longrightarrow> (\<And>x s. P s \<Longrightarrow> P (f x s)) \<Longrightarrow> P (fold f xs s)"
  by (induction xs arbitrary: s) auto

lemma find_map: "(\<And>x. P (f x) = P x) \<Longrightarrow> find P (map f xs) = map_option f (find P xs)"
  by (induction xs) auto

lemma find_filter: "(\<And>x. P x \<Longrightarrow> Q x) \<Longrightarrow> find P (filter Q xs) = find P xs"
  by (induction xs) auto

lemma find_disjoint: "(\<And>x. x \<in> set xs \<Longrightarrow> \<not> P x) \<Longrightarrow> find P xs = None"
  by (simp add: find_None_iff)

end
