(* ===== verification/Dsl_V4.thy ===== *)
theory Dsl_V4
  imports Prelude
begin

text \<open>
  The account classification language, version 4
  (\<^verbatim>\<open>app/utils/account_classification_dsl_v4.py\<close>): the structural validator
  \<^verbatim>\<open>collect_dsl_v4_validation_errors\<close>, the evaluator \<^verbatim>\<open>DslV4Evaluator\<close> with its
  list of recorded errors as explicit state, and a typed syntax with a denotation, which
  the two refine. The evaluator's log records are not modelled.
\<close>

section \<open>Constants and error messages\<close>

definition DSL_ERROR_UNKNOWN_FUNCTION :: string where
  "DSL_ERROR_UNKNOWN_FUNCTION = ''UNKNOWN_DSL_FUNCTION''"

definition DSL_ERROR_INVALID_ARGS :: string where
  "DSL_ERROR_INVALID_ARGS = ''INVALID_DSL_ARGS''"

definition DSL_ERROR_MISSING_ARGS :: string where
  "DSL_ERROR_MISSING_ARGS = ''MISSING_DSL_ARGS''"

definition DSL_V4_VERSION :: int where
  "DSL_V4_VERSION = 4"

text \<open>One constructor per message of the validator, with the path it names.\<close>

datatype dsl_issue =
    Rule_not_object
  | Version_mismatch
  | Expr_not_object
  | Node_not_object string
  | Op_not_string string
  | Op_unsupported string string
  | Args_not_array string
  | Not_arity string
  | Fn_not_string string
  | Fn_args_not_object string
  | Types_missing string
  | Types_invalid string
  | Name_invalid string
  | Scope_invalid string
  | Scope_unsupported string string
  | Database_invalid string
  | Unknown_function string string
  | Neither_op_nor_fn string

definition nonblank :: "string \<Rightarrow> bool" where
  "nonblank s = (strip s \<noteq> [])"

text \<open>\<^verbatim>\<open>isinstance(v, str) and v.strip()\<close>.\<close>

fun nonblank_str :: "pv \<Rightarrow> bool" where
  "nonblank_str (PStr s) = nonblank s"
| "nonblank_str _ = False"

section \<open>The validator\<close>

fun is_dsl_v4_expression :: "pv \<Rightarrow> bool" where
  "is_dsl_v4_expression (PDict d) =
     (dget d ''version'' = PInt DSL_V4_VERSION \<and> (case dget d ''expr'' of PDict _ \<Rightarrow> True | _ \<Rightarrow> False))"
| "is_dsl_v4_expression _ = False"

fun all_nonempty_strs :: "pv list \<Rightarrow> bool" where
  "all_nonempty_strs [] = True"
| "all_nonempty_strs (x # xs) = ((case x of PStr s \<Rightarrow> s \<noteq> [] | _ \<Rightarrow> False) \<and> all_nonempty_strs xs)"

definition scope_names :: "string set" where
  "scope_names = {''global'', ''server'', ''database'', ''tablespace''}"

text \<open>The \<^verbatim>\<open>args\<close> of a function node: absent and \<^verbatim>\<open>None\<close> both mean no arguments.\<close>

definition fn_args :: "pdict \<Rightarrow> pv" where
  "fn_args d = (case map_of d ''args'' of None \<Rightarrow> PDict [] | Some v \<Rightarrow> if v = PNone then PDict [] else v)"

definition validate_db_types :: "string \<Rightarrow> pdict \<Rightarrow> dsl_issue list" where
  "validate_db_types path raw_args = (case dget raw_args ''types'' of
      PNone \<Rightarrow> [Types_missing path]
    | PList xs \<Rightarrow> if all_nonempty_strs xs then [] else [Types_invalid path]
    | _ \<Rightarrow> [Types_invalid path])"

definition validate_name :: "string \<Rightarrow> pdict \<Rightarrow> dsl_issue list" where
  "validate_name path raw_args = (if nonblank_str (dget raw_args ''name'') then [] else [Name_invalid path])"

definition validate_scope :: "string \<Rightarrow> pdict \<Rightarrow> dsl_issue list" where
  "validate_scope path raw_args = (case dget raw_args ''scope'' of
      PStr s \<Rightarrow> if \<not> nonblank s then [Scope_invalid path]
               else if lower (strip s) \<notin> scope_names then [Scope_unsupported path s] else []
    | _ \<Rightarrow> [Scope_invalid path])"

definition validate_database :: "string \<Rightarrow> pdict \<Rightarrow> dsl_issue list" where
  "validate_database path raw_args = (let v = dget raw_args ''database'' in
     if v \<noteq> PNone \<and> \<not> nonblank_str v then [Database_invalid path] else [])"

definition validate_fn_args :: "string \<Rightarrow> string \<Rightarrow> pdict \<Rightarrow> dsl_issue list" where
  "validate_fn_args path fn_name raw_args =
     (if fn_name = ''db_type_in'' then validate_db_types path raw_args
      else if fn_name = ''is_superuser'' then []
      else if fn_name = ''has_capability'' \<or> fn_name = ''has_role'' then validate_name path raw_args
      else if fn_name = ''has_privilege'' then
        validate_name path raw_args @ validate_scope path raw_args @ validate_database path raw_args
      else [Unknown_function path fn_name])"

definition validate_fn :: "string \<Rightarrow> pdict \<Rightarrow> dsl_issue list" where
  "validate_fn path d = (case dget d ''fn'' of
      PStr fn \<Rightarrow>
        if \<not> nonblank fn then [Fn_not_string path]
        else (case fn_args d of
            PDict raw_args \<Rightarrow> validate_fn_args path (strip fn) raw_args
          | _ \<Rightarrow> [Fn_args_not_object path])
    | _ \<Rightarrow> [Fn_not_string path])"

definition arg_path :: "string \<Rightarrow> nat \<Rightarrow> string" where
  "arg_path path idx = path @ ''.args['' @ show_nat idx @ '']''"

text \<open>The recursion of \<^verbatim>\<open>_validate_node\<close> over the arguments of an operator, with the
  index \<^verbatim>\<open>enumerate\<close> gives each of them.\<close>

function (sequential) validate_node :: "string \<Rightarrow> pv \<Rightarrow> dsl_issue list"
  and validate_args :: "string \<Rightarrow> nat \<Rightarrow> pv list \<Rightarrow> dsl_issue list" where
  "validate_node path (PDict d) =
     (if dhas d ''op'' then
        (case dget d ''op'' of
            PStr op \<Rightarrow>
              if \<not> nonblank op then [Op_not_string path]
              else if upper (strip op) \<notin> {''AND'', ''OR'', ''NOT''} then [Op_unsupported path op]
              else (case dget d ''args'' of
                  PList args \<Rightarrow>
                    (if upper (strip op) = ''NOT'' \<and> length args \<noteq> 1 then [Not_arity path] else [])
                    @ validate_args path 0 args
                | _ \<Rightarrow> [Args_not_array path])
          | _ \<Rightarrow> [Op_not_string path])
      else if dhas d ''fn'' then validate_fn path d
      else [Neither_op_nor_fn path])"
| "validate_node path _ = [Node_not_object path]"
| "validate_args path idx [] = []"
| "validate_args path idx (item # items) =
     validate_node (arg_path path idx) item @ validate_args path (Suc idx) items"
  by pat_completeness auto
termination
  by (relation "measure (\<lambda>x. case x of Inl (p, v) \<Rightarrow> 2 * size v + 1 | Inr (p, i, xs) \<Rightarrow> 2 * size (PList xs))")
     (auto dest!: size_dget_PList)

definition collect_dsl_v4_validation_errors :: "pv \<Rightarrow> dsl_issue list" where
  "collect_dsl_v4_validation_errors expression = (case expression of
      PDict d \<Rightarrow>
        if dget d ''version'' \<noteq> PInt DSL_V4_VERSION then [Version_mismatch]
        else (case dget d ''expr'' of
            PDict e \<Rightarrow> validate_node ''rule_expression.expr'' (PDict e)
          | _ \<Rightarrow> [Expr_not_object])
    | _ \<Rightarrow> [Rule_not_object])"

section \<open>The evaluator\<close>

text \<open>\<^verbatim>\<open>DslV4Evaluator\<close> holds the facts and a list of recorded errors; every method
  below takes both and returns its result with the extended list.\<close>

type_synonym eval_result = "bool \<times> string list"

definition record_error :: "string \<Rightarrow> string list \<Rightarrow> eval_result" where
  "record_error error_type errs = (False, errs @ [error_type])"

definition ensure_str_list :: "pv \<Rightarrow> string list" where
  "ensure_str_list value = (case value of PList xs \<Rightarrow> str_items xs | _ \<Rightarrow> [])"

text \<open>\<^verbatim>\<open>[item.strip().lower() for item in raw_types if isinstance(item, str) and item.strip()]\<close>.\<close>

fun normalized_types :: "pv list \<Rightarrow> string list" where
  "normalized_types [] = []"
| "normalized_types (x # xs) = (case x of
      PStr s \<Rightarrow> if nonblank s then lower (strip s) # normalized_types xs else normalized_types xs
    | _ \<Rightarrow> normalized_types xs)"

definition facts_db_type :: "pdict \<Rightarrow> string" where
  "facts_db_type facts = (case dget facts ''db_type'' of PStr s \<Rightarrow> lower (strip s) | _ \<Rightarrow> [])"

definition fn_db_type_in :: "pdict \<Rightarrow> pdict \<Rightarrow> string list \<Rightarrow> eval_result" where
  "fn_db_type_in facts args errs = (case dget args ''types'' of
      PNone \<Rightarrow> record_error DSL_ERROR_MISSING_ARGS errs
    | PList raw_types \<Rightarrow>
        (let types = normalized_types raw_types in
         if types = [] then record_error DSL_ERROR_INVALID_ARGS errs
         else (facts_db_type facts \<in> set types, errs))
    | _ \<Rightarrow> record_error DSL_ERROR_INVALID_ARGS errs)"

definition fn_has_capability :: "pdict \<Rightarrow> pdict \<Rightarrow> string list \<Rightarrow> eval_result" where
  "fn_has_capability facts args errs = (case dget args ''name'' of
      PStr name \<Rightarrow>
        if nonblank name then (name \<in> set (ensure_str_list (dget facts ''capabilities'')), errs)
        else record_error DSL_ERROR_MISSING_ARGS errs
    | _ \<Rightarrow> record_error DSL_ERROR_MISSING_ARGS errs)"

definition fn_has_role :: "pdict \<Rightarrow> pdict \<Rightarrow> string list \<Rightarrow> eval_result" where
  "fn_has_role facts args errs = (case dget args ''name'' of
      PStr name \<Rightarrow>
        if nonblank name then (name \<in> set (ensure_str_list (dget facts ''roles'')), errs)
        else record_error DSL_ERROR_MISSING_ARGS errs
    | _ \<Rightarrow> record_error DSL_ERROR_MISSING_ARGS errs)"

text \<open>\<^verbatim>\<open>_mapping_has_privilege\<close>; the database is \<^verbatim>\<open>None\<close> or a nonblank string where it
  is called, and a falsy one means any database.\<close>

definition mapping_has_privilege :: "pv \<Rightarrow> string \<Rightarrow> string option \<Rightarrow> bool" where
  "mapping_has_privilege value name database = (case value of
      PDict m \<Rightarrow> (case database of
          Some db \<Rightarrow>
            if db \<noteq> [] then name \<in> set (ensure_str_list (dget m db))
            else list_ex (\<lambda>bucket. name \<in> set (ensure_str_list bucket)) (dvalues m)
        | None \<Rightarrow> list_ex (\<lambda>bucket. name \<in> set (ensure_str_list bucket)) (dvalues m))
    | _ \<Rightarrow> False)"

definition privilege_in_scope ::
  "pdict \<Rightarrow> string \<Rightarrow> string \<Rightarrow> string option \<Rightarrow> string list \<Rightarrow> eval_result" where
  "privilege_in_scope privileges scope name database errs =
     (if scope = ''global'' then (name \<in> set (ensure_str_list (dget privileges ''global'')), errs)
      else if scope = ''server'' then
        (name \<in> set (ensure_str_list (dget privileges ''server''))
               \<union> set (ensure_str_list (dget privileges ''system'')), errs)
      else if scope = ''tablespace'' then
        (mapping_has_privilege (dget privileges ''tablespace'') name database, errs)
      else if scope = ''database'' then
        (if mapping_has_privilege (dget privileges ''database'') name database then (True, errs)
         else if mapping_has_privilege (dget privileges ''database_permissions'') name database
           then (True, errs)
         else (mapping_has_privilege (dget privileges ''tablespace'') name database, errs))
      else record_error DSL_ERROR_INVALID_ARGS errs)"

fun str_opt :: "pv \<Rightarrow> string option" where
  "str_opt (PStr s) = Some s"
| "str_opt _ = None"

definition fn_has_privilege :: "pdict \<Rightarrow> pdict \<Rightarrow> string list \<Rightarrow> eval_result" where
  "fn_has_privilege facts args errs =
     (let name = dget args ''name''; scope_raw = dget args ''scope''; database = dget args ''database'' in
      if \<not> nonblank_str name then record_error DSL_ERROR_MISSING_ARGS errs
      else if \<not> nonblank_str scope_raw then record_error DSL_ERROR_MISSING_ARGS errs
      else if database \<noteq> PNone \<and> \<not> nonblank_str database then record_error DSL_ERROR_INVALID_ARGS errs
      else (case (name, scope_raw, dget facts ''privileges'') of
          (PStr n, PStr s, PDict privileges) \<Rightarrow>
            privilege_in_scope privileges (lower (strip s)) n (str_opt database) errs
        | _ \<Rightarrow> (False, errs)))"

definition eval_fn_args :: "pdict \<Rightarrow> string \<Rightarrow> pdict \<Rightarrow> string list \<Rightarrow> eval_result" where
  "eval_fn_args facts fn args errs =
     (if fn = ''db_type_in'' then fn_db_type_in facts args errs
      else if fn = ''is_superuser'' then
        (''SUPERUSER'' \<in> set (ensure_str_list (dget facts ''capabilities'')), errs)
      else if fn = ''has_capability'' then fn_has_capability facts args errs
      else if fn = ''has_role'' then fn_has_role facts args errs
      else if fn = ''has_privilege'' then fn_has_privilege facts args errs
      else record_error DSL_ERROR_UNKNOWN_FUNCTION errs)"

definition eval_fn :: "pdict \<Rightarrow> pdict \<Rightarrow> string list \<Rightarrow> eval_result" where
  "eval_fn facts node errs = (case dget node ''fn'' of
      PStr fn_raw \<Rightarrow>
        if \<not> nonblank fn_raw then record_error DSL_ERROR_INVALID_ARGS errs
        else (case fn_args node of
            PDict args \<Rightarrow> eval_fn_args facts (strip fn_raw) args errs
          | _ \<Rightarrow> record_error DSL_ERROR_INVALID_ARGS errs)
    | _ \<Rightarrow> record_error DSL_ERROR_INVALID_ARGS errs)"

text \<open>The \<^verbatim>\<open>args\<close> of an operator node, an empty list when absent.\<close>

definition op_args :: "pdict \<Rightarrow> pv" where
  "op_args node = (case map_of node ''args'' of None \<Rightarrow> PList [] | Some v \<Rightarrow> v)"

lemma size_op_args:
  assumes "dget node k = PStr s" and "op_args node = PList args"
  shows "size_list size args < size_list (size_prod (\<lambda>x. 0) size) node"
proof (cases "map_of node ''args''")
  case None
  moreover from assms(1) have "node \<noteq> []" by (auto simp: dget_empty)
  ultimately show ?thesis using assms(2) by (auto simp: op_args_def neq_Nil_conv)
next
  case (Some v)
  with assms(2) show ?thesis by (auto simp: op_args_def dest: size_map_of)
qed

text \<open>\<^verbatim>\<open>all(...)\<close> and \<^verbatim>\<open>any(...)\<close> over a generator stop at the first argument that
  decides them: the arguments after it are not evaluated and record no errors.\<close>

function (sequential) eval_node :: "pdict \<Rightarrow> pv \<Rightarrow> string list \<Rightarrow> eval_result"
  and eval_op :: "pdict \<Rightarrow> pdict \<Rightarrow> string list \<Rightarrow> eval_result"
  and eval_all :: "pdict \<Rightarrow> pv list \<Rightarrow> string list \<Rightarrow> eval_result"
  and eval_any :: "pdict \<Rightarrow> pv list \<Rightarrow> string list \<Rightarrow> eval_result" where
  "eval_node facts (PDict node) errs =
     (if dhas node ''op'' then eval_op facts node errs
      else if dhas node ''fn'' then eval_fn facts node errs
      else record_error DSL_ERROR_INVALID_ARGS errs)"
| "eval_node facts _ errs = record_error DSL_ERROR_INVALID_ARGS errs"
| "eval_op facts node errs =
     (case dget node ''op'' of
        PStr op_raw \<Rightarrow>
          if \<not> nonblank op_raw then record_error DSL_ERROR_INVALID_ARGS errs
          else (case op_args node of
              PList xs \<Rightarrow>
                (let op = upper (strip op_raw) in
                 if op = ''NOT'' then
                   (case xs of
                      [x] \<Rightarrow> (case eval_node facts x errs of (b, errs') \<Rightarrow> (\<not> b, errs'))
                    | _ \<Rightarrow> record_error DSL_ERROR_INVALID_ARGS errs)
                 else if op = ''AND'' then eval_all facts xs errs
                 else if op = ''OR'' then eval_any facts xs errs
                 else record_error DSL_ERROR_INVALID_ARGS errs)
            | _ \<Rightarrow> record_error DSL_ERROR_INVALID_ARGS errs)
      | _ \<Rightarrow> record_error DSL_ERROR_INVALID_ARGS errs)"
| "eval_all facts [] errs = (True, errs)"
| "eval_all facts (x # xs) errs = (case eval_node facts x errs of
      (b, errs') \<Rightarrow> if b then eval_all facts xs errs' else (False, errs'))"
| "eval_any facts [] errs = (False, errs)"
| "eval_any facts (x # xs) errs = (case eval_node facts x errs of
      (b, errs') \<Rightarrow> if b then (True, errs') else eval_any facts xs errs')"
  by pat_completeness auto
termination
  by (relation "measure (\<lambda>x. case x of
      Inl (Inl (f, v, e)) \<Rightarrow> 2 * size v + 1
    | Inl (Inr (f, d, e)) \<Rightarrow> 2 * size (PDict d)
    | Inr (Inl (f, xs, e)) \<Rightarrow> 2 * size (PList xs)
    | Inr (Inr (f, xs, e)) \<Rightarrow> 2 * size (PList xs))")
     (auto dest: size_op_args)

record dsl_outcome =
  matched :: bool
  dsl_errors :: "string list"

text \<open>\<^verbatim>\<open>evaluate\<close> on a fresh evaluator.\<close>

definition evaluate :: "pdict \<Rightarrow> pv \<Rightarrow> dsl_outcome" where
  "evaluate facts expression =
     (case (if is_dsl_v4_expression expression
            then eval_node facts (case expression of PDict d \<Rightarrow> dget d ''expr'' | _ \<Rightarrow> PNone) []
            else record_error DSL_ERROR_INVALID_ARGS []) of
        (b, errs) \<Rightarrow> \<lparr>matched = b, dsl_errors = errs\<rparr>)"

section \<open>Typed syntax and denotation\<close>

datatype scope = Sc_global | Sc_server | Sc_database | Sc_tablespace

datatype expr =
    E_and "expr list"
  | E_or "expr list"
  | E_not expr
  | E_db_type_in "string list"
  | E_is_superuser
  | E_has_capability string
  | E_has_role string
  | E_has_privilege string scope "string option"

text \<open>What a rule asks of the facts: which names are granted where.\<close>

definition has_cap :: "pdict \<Rightarrow> string \<Rightarrow> bool" where
  "has_cap facts name \<longleftrightarrow> (\<exists>xs. dget facts ''capabilities'' = PList xs \<and> PStr name \<in> set xs)"

definition has_role :: "pdict \<Rightarrow> string \<Rightarrow> bool" where
  "has_role facts name \<longleftrightarrow> (\<exists>xs. dget facts ''roles'' = PList xs \<and> PStr name \<in> set xs)"

definition granted :: "pdict \<Rightarrow> string \<Rightarrow> string \<Rightarrow> bool" where
  "granted privs bucket name \<longleftrightarrow> (\<exists>xs. dget privs bucket = PList xs \<and> PStr name \<in> set xs)"

definition granted_on :: "pdict \<Rightarrow> string \<Rightarrow> string option \<Rightarrow> string \<Rightarrow> bool" where
  "granted_on privs bucket db name \<longleftrightarrow> (\<exists>m. dget privs bucket = PDict m \<and>
     (case db of
        Some k \<Rightarrow> \<exists>xs. dget m k = PList xs \<and> PStr name \<in> set xs
      | None \<Rightarrow> \<exists>kv \<in> set m. \<exists>xs. snd kv = PList xs \<and> PStr name \<in> set xs))"

fun has_priv :: "pdict \<Rightarrow> string \<Rightarrow> scope \<Rightarrow> string option \<Rightarrow> bool" where
  "has_priv privs name Sc_global db = granted privs ''global'' name"
| "has_priv privs name Sc_server db = (granted privs ''server'' name \<or> granted privs ''system'' name)"
| "has_priv privs name Sc_tablespace db = granted_on privs ''tablespace'' db name"
| "has_priv privs name Sc_database db =
     (granted_on privs ''database'' db name \<or> granted_on privs ''database_permissions'' db name
      \<or> granted_on privs ''tablespace'' db name)"

fun sem :: "pdict \<Rightarrow> expr \<Rightarrow> bool" where
  "sem facts (E_and es) = (\<forall>e \<in> set es. sem facts e)"
| "sem facts (E_or es) = (\<exists>e \<in> set es. sem facts e)"
| "sem facts (E_not e) = (\<not> sem facts e)"
| "sem facts (E_db_type_in ts) = (facts_db_type facts \<in> (\<lambda>t. lower (strip t)) ` {t \<in> set ts. nonblank t})"
| "sem facts E_is_superuser = has_cap facts ''SUPERUSER''"
| "sem facts (E_has_capability n) = has_cap facts n"
| "sem facts (E_has_role n) = has_role facts n"
| "sem facts (E_has_privilege n sc db) =
     (\<exists>privs. dget facts ''privileges'' = PDict privs \<and> has_priv privs n sc db)"

section \<open>From documents to typed syntax\<close>

definition parse_scope :: "string \<Rightarrow> scope option" where
  "parse_scope s = (let t = lower (strip s) in
     if t = ''global'' then Some Sc_global else if t = ''server'' then Some Sc_server
     else if t = ''database'' then Some Sc_database else if t = ''tablespace'' then Some Sc_tablespace
     else None)"

definition parse_name :: "pdict \<Rightarrow> string option" where
  "parse_name args = (case dget args ''name'' of PStr s \<Rightarrow> if nonblank s then Some s else None | _ \<Rightarrow> None)"

definition parse_database :: "pdict \<Rightarrow> string option option" where
  "parse_database args = (case dget args ''database'' of
      PNone \<Rightarrow> Some None
    | PStr s \<Rightarrow> if nonblank s then Some (Some s) else None
    | _ \<Rightarrow> None)"

definition parse_types :: "pdict \<Rightarrow> string list option" where
  "parse_types args = (case dget args ''types'' of
      PList xs \<Rightarrow> if all_nonempty_strs xs then Some (str_items xs) else None
    | _ \<Rightarrow> None)"

definition parse_privilege :: "pdict \<Rightarrow> expr option" where
  "parse_privilege args = (case (parse_name args, dget args ''scope'', parse_database args) of
      (Some n, PStr s, Some db) \<Rightarrow>
        if nonblank s then map_option (\<lambda>sc. E_has_privilege n sc db) (parse_scope s) else None
    | _ \<Rightarrow> None)"

definition parse_fn :: "pdict \<Rightarrow> expr option" where
  "parse_fn d = (case (dget d ''fn'', fn_args d) of
      (PStr fn, PDict args) \<Rightarrow>
        if strip fn = ''db_type_in'' then map_option E_db_type_in (parse_types args)
        else if strip fn = ''is_superuser'' then Some E_is_superuser
        else if strip fn = ''has_capability'' then map_option E_has_capability (parse_name args)
        else if strip fn = ''has_role'' then map_option E_has_role (parse_name args)
        else if strip fn = ''has_privilege'' then parse_privilege args
        else None
    | _ \<Rightarrow> None)"

function (sequential) parse_node :: "pv \<Rightarrow> expr option"
  and parse_list :: "pv list \<Rightarrow> expr list option" where
  "parse_node (PDict d) =
     (if dhas d ''op'' then
        (case dget d ''op'' of
            PStr op \<Rightarrow> (case dget d ''args'' of
                PList args \<Rightarrow>
                  if upper (strip op) = ''AND'' then map_option E_and (parse_list args)
                  else if upper (strip op) = ''OR'' then map_option E_or (parse_list args)
                  else if upper (strip op) = ''NOT'' then
                    (case args of [x] \<Rightarrow> map_option E_not (parse_node x) | _ \<Rightarrow> None)
                  else None
              | _ \<Rightarrow> None)
          | _ \<Rightarrow> None)
      else if dhas d ''fn'' then parse_fn d else None)"
| "parse_node _ = None"
| "parse_list [] = Some []"
| "parse_list (x # xs) = (case (parse_node x, parse_list xs) of
      (Some e, Some es) \<Rightarrow> Some (e # es) | _ \<Rightarrow> None)"
  by pat_completeness auto
termination
  by (relation "measure (\<lambda>x. case x of Inl v \<Rightarrow> 2 * size v + 1 | Inr xs \<Rightarrow> 2 * size (PList xs))")
     (auto dest!: size_dget_PList)

definition parse_rule :: "pv \<Rightarrow> expr option" where
  "parse_rule expression = (case expression of
      PDict d \<Rightarrow> if dget d ''version'' = PInt DSL_V4_VERSION then parse_node (dget d ''expr'') else None
    | _ \<Rightarrow> None)"

section \<open>The validator accepts exactly the parseable rules\<close>

lemma validate_name_iff: "validate_name p a = [] \<longleftrightarrow> parse_name a \<noteq> None"
  by (auto simp: validate_name_def parse_name_def split: pv.splits)

lemma validate_db_types_iff: "validate_db_types p a = [] \<longleftrightarrow> parse_types a \<noteq> None"
  by (auto simp: validate_db_types_def parse_types_def split: pv.splits)

lemma validate_database_iff: "validate_database p a = [] \<longleftrightarrow> parse_database a \<noteq> None"
  by (auto simp: validate_database_def parse_database_def Let_def split: pv.splits)

lemma parse_scope_iff: "parse_scope s \<noteq> None \<longleftrightarrow> lower (strip s) \<in> scope_names"
  by (simp add: parse_scope_def scope_names_def Let_def)

lemma validate_scope_iff:
  "validate_scope p a = [] \<longleftrightarrow> (\<exists>s. dget a ''scope'' = PStr s \<and> nonblank s \<and> parse_scope s \<noteq> None)"
  unfolding parse_scope_iff by (auto simp: validate_scope_def split: pv.splits)

lemma parse_privilege_iff:
  "parse_privilege a \<noteq> None \<longleftrightarrow>
     parse_name a \<noteq> None \<and> (\<exists>s. dget a ''scope'' = PStr s \<and> nonblank s \<and> parse_scope s \<noteq> None)
     \<and> parse_database a \<noteq> None"
  by (auto simp: parse_privilege_def split: pv.splits option.splits)

lemma validate_fn_iff: "validate_fn p d = [] \<longleftrightarrow> parse_fn d \<noteq> None"
proof (cases "\<exists>fn args. dget d ''fn'' = PStr fn \<and> fn_args d = PDict args")
  case True
  then obtain fn args where d: "dget d ''fn'' = PStr fn" "fn_args d = PDict args" by blast
  show ?thesis
    by (simp add: d validate_fn_def parse_fn_def validate_fn_args_def validate_name_iff
        validate_db_types_iff validate_scope_iff validate_database_iff parse_privilege_iff
        nonblank_def del: not_None_eq)
next
  case False
  then show ?thesis
    by (auto simp: validate_fn_def parse_fn_def split: pv.splits)
qed

lemma validate_node_iff:
  "validate_node p v = [] \<longleftrightarrow> parse_node v \<noteq> None"
  "validate_args p i xs = [] \<longleftrightarrow> parse_list xs \<noteq> None"
proof (induction p v and p i xs rule: validate_node_validate_args.induct)
  case (1 path d)
  show ?case
  proof (cases "dhas d ''op''")
    case False
    then show ?thesis by (simp add: validate_fn_iff)
  next
    case True
    show ?thesis
    proof (cases "\<exists>op args. dget d ''op'' = PStr op \<and> dget d ''args'' = PList args")
      case True': True
      then obtain op args where d: "dget d ''op'' = PStr op" "dget d ''args'' = PList args" by blast
      show ?thesis
      proof (cases "upper (strip op) \<in> {''AND'', ''OR'', ''NOT''}")
        case op: True
        then have nb: "nonblank op" by (auto simp: nonblank_def upper_def)
        have IH: "validate_args path 0 args = [] \<longleftrightarrow> parse_list args \<noteq> None"
          using "1.IH" True op nb by (simp add: d)
        show ?thesis
          using True op nb IH by (cases args rule: remdups_adj.cases) (auto simp: d split: option.splits)
      qed (use True in \<open>auto simp: d\<close>)
    next
      case False
      with True show ?thesis by (auto split: pv.splits)
    qed
  qed
qed (auto split: option.splits)


section \<open>The evaluator refines the denotation\<close>

text \<open>The evaluator never records an error for a rule whose \<^verbatim>\<open>db_type_in\<close> lists all hold
  a nonblank name. The validator asks only for nonempty strings.\<close>

lemma set_normalized_types:
  "set (normalized_types xs) = (\<lambda>t. lower (strip t)) ` {t. nonblank t \<and> PStr t \<in> set xs}"
  by (induction xs) (auto split: pv.splits)

lemma in_bucket_iff:
  "nonblank n \<Longrightarrow> n \<in> set (ensure_str_list v) \<longleftrightarrow> (\<exists>xs. v = PList xs \<and> PStr n \<in> set xs)"
  by (auto simp: ensure_str_list_def set_str_items nonblank_def strip_Nil split: pv.splits)

lemma bucket_iffs:
  assumes "nonblank n"
  shows "n \<in> set (ensure_str_list (dget f ''capabilities'')) \<longleftrightarrow> has_cap f n"
    and "n \<in> set (ensure_str_list (dget f ''roles'')) \<longleftrightarrow> has_role f n"
    and "n \<in> set (ensure_str_list (dget f b)) \<longleftrightarrow> granted f b n"
  using assms by (simp_all add: in_bucket_iff has_cap_def has_role_def granted_def)

lemma mapping_has_privilege_iff:
  assumes "nonblank n" and "db \<noteq> Some []"
  shows "mapping_has_privilege (dget p b) n db \<longleftrightarrow> granted_on p b db n"
  using assms
  by (auto simp: mapping_has_privilege_def granted_on_def in_bucket_iff list_ex_iff dvalues_def
      split: pv.splits option.splits)

lemma privilege_in_scope_sem:
  assumes "parse_scope s = Some sc" and "nonblank n" and "db \<noteq> Some []"
  shows "privilege_in_scope privs (lower (strip s)) n db errs = (has_priv privs n sc db, errs)"
  using assms
  by (auto simp: parse_scope_def Let_def privilege_in_scope_def bucket_iffs(3) mapping_has_privilege_iff
      split: if_splits)

fun types_nonblank :: "expr \<Rightarrow> bool" where
  "types_nonblank (E_and es) = (\<forall>e \<in> set es. types_nonblank e)"
| "types_nonblank (E_or es) = (\<forall>e \<in> set es. types_nonblank e)"
| "types_nonblank (E_not e) = types_nonblank e"
| "types_nonblank (E_db_type_in ts) = (\<exists>t \<in> set ts. nonblank t)"
| "types_nonblank _ = True"

definition refines :: "pdict \<Rightarrow> expr \<Rightarrow> string list \<Rightarrow> eval_result \<Rightarrow> bool" where
  "refines facts e errs r \<longleftrightarrow> fst r = sem facts e \<and> (types_nonblank e \<longrightarrow> snd r = errs)"

lemma fn_db_type_in_refines:
  "parse_types args = Some ts \<Longrightarrow> refines facts (E_db_type_in ts) errs (fn_db_type_in facts args errs)"
proof -
  assume "parse_types args = Some ts"
  then obtain xs where xs: "dget args ''types'' = PList xs" "ts = str_items xs"
    by (auto simp: parse_types_def split: pv.splits if_splits)
  have eq: "{t \<in> set ts. nonblank t} = {t. nonblank t \<and> PStr t \<in> set xs}"
    by (auto simp: xs set_str_items nonblank_def strip_Nil)
  then have "set (normalized_types xs) = (\<lambda>t. lower (strip t)) ` {t \<in> set ts. nonblank t}"
    by (simp add: set_normalized_types)
  then show ?thesis
    by (cases "normalized_types xs")
       (auto simp: refines_def fn_db_type_in_def xs(1) record_error_def)
qed

lemma fn_has_privilege_refines:
  assumes "parse_privilege args = Some e"
  shows "refines facts e errs (fn_has_privilege facts args errs)"
proof -
  obtain n s db sc where
    "dget args ''name'' = PStr n" "nonblank n" "dget args ''scope'' = PStr s" "nonblank s"
    and db: "parse_database args = Some db" and sc: "parse_scope s = Some sc"
    and e: "e = E_has_privilege n sc db"
    using assms by (auto simp: parse_privilege_def parse_name_def split: pv.splits option.splits if_splits)
  moreover have "db = str_opt (dget args ''database'') \<and> db \<noteq> Some [] \<and>
      (dget args ''database'' = PNone \<or> nonblank_str (dget args ''database''))"
    using db by (auto simp: parse_database_def nonblank_def strip_Nil split: pv.splits if_splits)
  ultimately show ?thesis
    by (auto simp: refines_def fn_has_privilege_def Let_def privilege_in_scope_sem split: pv.splits)
qed

lemma nonblank_const:
  "nonblank ''SUPERUSER''" "strip fn = ''db_type_in'' \<Longrightarrow> nonblank fn"
  "strip fn = ''is_superuser'' \<Longrightarrow> nonblank fn" "strip fn = ''has_capability'' \<Longrightarrow> nonblank fn"
  "strip fn = ''has_role'' \<Longrightarrow> nonblank fn" "strip fn = ''has_privilege'' \<Longrightarrow> nonblank fn"
  by (auto simp: nonblank_def strip_def is_space_def)

lemma eval_fn_refines: "parse_fn d = Some e \<Longrightarrow> refines facts e errs (eval_fn facts d errs)"
  by (auto simp: parse_fn_def eval_fn_def eval_fn_args_def nonblank_const fn_db_type_in_refines
      fn_has_privilege_refines split: pv.splits if_splits)
     (auto simp: refines_def parse_name_def fn_has_capability_def fn_has_role_def bucket_iffs(1) bucket_iffs(2)
      nonblank_const split: pv.splits if_splits)


lemma refines_not: "refines facts e errs r \<Longrightarrow> refines facts (E_not e) errs (\<not> fst r, snd r)"
  by (simp add: refines_def)

lemma eval_refines:
  "parse_node v = Some e \<Longrightarrow> refines facts e errs (eval_node facts v errs)"
  "dhas d ''op'' \<Longrightarrow> parse_node (PDict d) = Some e' \<Longrightarrow> refines facts e' errs (eval_op facts d errs)"
  "parse_list xs = Some es \<Longrightarrow> refines facts (E_and es) errs (eval_all facts xs errs)"
  "parse_list ys = Some es' \<Longrightarrow> refines facts (E_or es') errs (eval_any facts ys errs)"
proof (induction facts v errs and facts d errs and facts xs errs and facts ys errs
    arbitrary: e and e' and es and es' rule: eval_node_eval_op_eval_all_eval_any.induct)
  case (1 facts node errs)
  then show ?case by (cases "dhas node ''op''") (auto simp: eval_fn_refines split: if_splits)
next
  case (3 facts node errs)
  from "3.prems" obtain op args where d: "dget node ''op'' = PStr op" "dget node ''args'' = PList args"
    by (auto split: pv.splits)
  then have args: "op_args node = PList args"
    by (auto simp: op_args_def dest: map_of_dget)
  have op: "upper (strip op) \<in> {''AND'', ''OR'', ''NOT''}"
    using "3.prems" by (auto simp: d split: if_splits)
  then have nb: "nonblank op" by (auto simp: nonblank_def upper_def)
  consider (And) es where "upper (strip op) = ''AND''" "parse_list args = Some es" "e' = E_and es"
    | (Or) es where "upper (strip op) = ''OR''" "parse_list args = Some es" "e' = E_or es"
    | (Not) x e where "upper (strip op) = ''NOT''" "args = [x]" "parse_node x = Some e" "e' = E_not e"
    using "3.prems" op by (cases args rule: remdups_adj.cases) (auto simp: d simp del: parse_list.simps)
  then show ?case
  proof cases
    case And
    then show ?thesis using "3.IH"(2)[OF d(1) _ args] nb by (simp add: d args)
  next
    case Or
    then show ?thesis using "3.IH"(3)[OF d(1) _ args] nb by (simp add: d args)
  next
    case Not
    have "refines facts e errs (eval_node facts x errs)"
      by (rule "3.IH"(1)[OF d(1) _ args refl Not(1,2) refl Not(3)]) (simp add: nb)
    moreover have "eval_op facts node errs = (\<not> fst (eval_node facts x errs), snd (eval_node facts x errs))"
      by (simp only: eval_op.simps d args nb Not(1,2) case_prod_beta pv.case Let_def) simp
    ultimately show ?thesis by (simp add: Not(4) refines_not)
  qed
next
  case (5 facts x xs errs)
  then obtain e es' where e: "parse_node x = Some e" "parse_list xs = Some es'" "es = e # es'"
    by (auto split: option.splits)
  obtain b errs' where r: "eval_node facts x errs = (b, errs')" by fastforce
  show ?case
    using "5.IH"(1)[OF e(1)] "5.IH"(2)[OF r[symmetric] _ e(2)]
    by (cases b) (auto simp: r e(3) refines_def)
next
  case (7 facts x xs errs)
  then obtain e es where e: "parse_node x = Some e" "parse_list xs = Some es" "es' = e # es"
    by (auto split: option.splits)
  obtain b errs' where r: "eval_node facts x errs = (b, errs')" by fastforce
  show ?case
    using "7.IH"(1)[OF e(1)] "7.IH"(2)[OF r[symmetric] _ e(2)]
    by (cases b) (auto simp: r e(3) refines_def)
qed (auto simp: refines_def)

lemma collect_iff: "collect_dsl_v4_validation_errors r = [] \<longleftrightarrow> parse_rule r \<noteq> None"
  by (auto simp: collect_dsl_v4_validation_errors_def parse_rule_def validate_node_iff simp del: validate_node.simps split: pv.splits)

lemma parse_rule_is_v4: "parse_rule r = Some e \<Longrightarrow> is_dsl_v4_expression r"
  by (auto simp: parse_rule_def split: pv.splits if_splits)

lemma evaluate_parsed:
  assumes "parse_rule r = Some e"
  shows "matched (evaluate facts r) = sem facts e"
    and "types_nonblank e \<Longrightarrow> dsl_errors (evaluate facts r) = []"
proof -
  obtain d where d: "r = PDict d" "parse_node (dget d ''expr'') = Some e"
    using assms by (auto simp: parse_rule_def split: pv.splits if_splits)
  have "refines facts e [] (eval_node facts (dget d ''expr'') [])"
    by (rule eval_refines(1)[OF d(2)])
  then show "matched (evaluate facts r) = sem facts e"
    and "types_nonblank e \<Longrightarrow> dsl_errors (evaluate facts r) = []"
    using parse_rule_is_v4[OF assms] by (auto simp: evaluate_def d(1) refines_def split: prod.splits)
qed


section \<open>What an error does to the result\<close>

lemma record_error_simps: "fst (record_error c errs) = False" "snd (record_error c errs) = errs @ [c]"
  by (simp_all add: record_error_def)

text \<open>A function node either decides and records nothing, or records one error and is false.\<close>

definition fail_closed :: "string list \<Rightarrow> eval_result \<Rightarrow> bool" where
  "fail_closed errs r \<longleftrightarrow> snd r = errs \<or> (\<not> fst r \<and> (\<exists>c. snd r = errs @ [c]))"

lemma fail_closed_record [simp]: "fail_closed errs (record_error c errs)"
  by (simp add: fail_closed_def record_error_simps)

lemma fail_closed_pure [simp]: "fail_closed errs (b, errs)"
  by (simp add: fail_closed_def)

lemma eval_fn_fail_closed: "fail_closed errs (eval_fn facts node errs)"
  by (simp add: eval_fn_def eval_fn_args_def fn_db_type_in_def fn_has_capability_def fn_has_role_def
      fn_has_privilege_def privilege_in_scope_def Let_def split: pv.split)

lemma eval_op_cases:
  obtains (And) op xs where "dget node ''op'' = PStr op" "nonblank op" "op_args node = PList xs"
      "upper (strip op) = ''AND''" "eval_op facts node errs = eval_all facts xs errs"
    | (Or) op xs where "dget node ''op'' = PStr op" "nonblank op" "op_args node = PList xs"
      "upper (strip op) = ''OR''" "eval_op facts node errs = eval_any facts xs errs"
    | (Not) op x where "dget node ''op'' = PStr op" "nonblank op" "op_args node = PList [x]"
      "upper (strip op) = ''NOT''"
      "eval_op facts node errs = (\<not> fst (eval_node facts x errs), snd (eval_node facts x errs))"
    | (Error) "eval_op facts node errs = record_error DSL_ERROR_INVALID_ARGS errs"
proof (cases "\<exists>op xs. dget node ''op'' = PStr op \<and> nonblank op \<and> op_args node = PList xs")
  case True
  then obtain op xs where d: "dget node ''op'' = PStr op" "nonblank op" "op_args node = PList xs"
    by blast
  show thesis
  proof (cases "upper (strip op) \<in> {''AND'', ''OR'', ''NOT''}")
    case False
    with d show thesis by (intro Error) simp
  next
    case op: True
    show thesis
    proof (cases "upper (strip op) = ''NOT''")
      case False
      with op d show thesis by (auto intro: And Or)
    next
      case True
      then show thesis
        by (cases xs rule: remdups_adj.cases) (use d in \<open>auto intro: Not Error simp: case_prod_beta\<close>)
    qed
  qed
next
  case False
  then show thesis by (intro Error) (auto split: pv.split)
qed

lemma eval_extends_errors:
  "prefix errs (snd (eval_node facts v errs))"
  "prefix errs (snd (eval_op facts d errs))"
  "prefix errs (snd (eval_all facts xs errs))"
  "prefix errs (snd (eval_any facts ys errs))"
proof (induction facts v errs and facts d errs and facts xs errs and facts ys errs
    rule: eval_node_eval_op_eval_all_eval_any.induct)
  case (1 facts node errs)
  then show ?case
    using eval_fn_fail_closed[of errs facts node] by (auto simp: fail_closed_def record_error_simps)
next
  case (3 facts node errs)
  show ?case
  proof (cases rule: eval_op_cases[of node facts errs])
    case (And op xs)
    then show ?thesis using "3.IH"(2)[OF And(1) _ And(3) refl] by simp
  next
    case (Or op xs)
    then show ?thesis using "3.IH"(3)[OF Or(1) _ Or(3) refl] by simp
  next
    case (Not op x)
    then show ?thesis using "3.IH"(1)[OF Not(1) _ Not(3) refl _ refl refl] by simp
  qed (simp add: record_error_simps)
next
  case (5 facts x xs errs)
  then show ?case by (auto split: prod.splits intro: prefix_order.trans)
next
  case (7 facts x xs errs)
  then show ?case by (auto split: prod.splits intro: prefix_order.trans)
qed (auto simp: record_error_simps)

definition unknown_fn_rule :: pv where
  "unknown_fn_rule = PDict [(''version'', PInt 4), (''expr'', PDict [(''op'', PStr ''NOT''),
     (''args'', PList [PDict [(''fn'', PStr ''is_root'')]])])]"

section \<open>Granting more\<close>

text \<open>The facts \<open>g\<close> grant at least what the facts \<open>f\<close> grant, for the same database type.\<close>

definition grants_more :: "pdict \<Rightarrow> pdict \<Rightarrow> bool" where
  "grants_more f g \<longleftrightarrow> facts_db_type f = facts_db_type g
     \<and> (\<forall>n. has_cap f n \<longrightarrow> has_cap g n) \<and> (\<forall>n. has_role f n \<longrightarrow> has_role g n)
     \<and> (\<forall>n sc db. sem f (E_has_privilege n sc db) \<longrightarrow> sem g (E_has_privilege n sc db))"

fun positive :: "expr \<Rightarrow> bool" where
  "positive (E_and es) = (\<forall>e \<in> set es. positive e)"
| "positive (E_or es) = (\<forall>e \<in> set es. positive e)"
| "positive (E_not e) = False"
| "positive _ = True"

lemma sem_mono: "grants_more f g \<Longrightarrow> positive e \<Longrightarrow> sem f e \<Longrightarrow> sem g e"
proof (induction e rule: positive.induct)
  case (1 es)
  then show ?case by simp
next
  case (2 es)
  then show ?case by (simp, blast)
qed (auto simp: grants_more_def)

section \<open>Properties\<close>

text \<open>C3: the validator reports no error for a rule exactly when the rule parses into the typed
  syntax: every operator, function, argument and scope it accepts has a meaning, and every
  rule with a meaning is accepted.\<close>

theorem validator_accepts_iff_parses:
  "collect_dsl_v4_validation_errors r = [] \<longleftrightarrow> (\<exists>e. parse_rule r = Some e)"
  by (simp add: collect_iff)

text \<open>C2: on a rule the validator accepts, the evaluator's verdict is the denotation of the
  parsed rule, and it records no error when every \<^verbatim>\<open>db_type_in\<close> list names a type.\<close>

theorem evaluator_refines_denotation:
  assumes "collect_dsl_v4_validation_errors r = []"
  shows "\<exists>e. parse_rule r = Some e \<and> matched (evaluate facts r) = sem facts e
    \<and> (types_nonblank e \<longrightarrow> dsl_errors (evaluate facts r) = [])"
proof -
  from assms obtain e where "parse_rule r = Some e" by (auto simp: collect_iff)
  with evaluate_parsed[OF this] show ?thesis by blast
qed

definition dba_rule :: pv where
  "dba_rule = PDict [(''version'', PInt 4), (''expr'', PDict [(''op'', PStr '' or ''), (''args'', PList [
     PDict [(''fn'', PStr ''has_role''), (''args'', PDict [(''name'', PStr ''sysadmin'')])],
     PDict [(''fn'', PStr ''has_privilege''), (''args'', PDict [(''name'', PStr ''ALL''), (''scope'', PStr ''Server'')])]])])]"

theorem evaluator_refines_denotation_witness:
  "collect_dsl_v4_validation_errors dba_rule = []
   \<and> (\<exists>e. parse_rule dba_rule = Some e \<and> matched (evaluate [(''roles'', PList [PStr ''sysadmin''])] dba_rule)
        = sem [(''roles'', PList [PStr ''sysadmin''])] e
      \<and> (types_nonblank e \<longrightarrow> dsl_errors (evaluate [(''roles'', PList [PStr ''sysadmin''])] dba_rule) = []))"
proof -
  have "collect_dsl_v4_validation_errors dba_rule = []" by code_simp
  with evaluator_refines_denotation[OF this] show ?thesis by blast
qed

text \<open>a function node fails closed: it records nothing and decides, or records exactly one
  error and is false. Errors recorded earlier are kept, also by whole expressions.\<close>

theorem function_nodes_fail_closed:
  "(snd (eval_fn facts node errs) = errs
    \<or> (fst (eval_fn facts node errs) = False \<and> (\<exists>c. snd (eval_fn facts node errs) = errs @ [c])))
   \<and> prefix errs (snd (eval_node facts v errs))"
  using eval_fn_fail_closed[of errs facts node] eval_extends_errors(1)[of errs facts v]
  by (auto simp: fail_closed_def)

text \<open>whole expressions do not fail closed. The negation of a call of an unknown function
  matches whatever the facts are, with the error recorded beside the match; it is the validator
  that keeps such a rule out.\<close>

theorem negated_error_matches:
  "matched (evaluate facts unknown_fn_rule)
   \<and> dsl_errors (evaluate facts unknown_fn_rule) = [DSL_ERROR_UNKNOWN_FUNCTION]
   \<and> collect_dsl_v4_validation_errors unknown_fn_rule \<noteq> []"
proof -
  have "collect_dsl_v4_validation_errors unknown_fn_rule \<noteq> []" by code_simp
  moreover have "matched (evaluate facts unknown_fn_rule)
      \<and> dsl_errors (evaluate facts unknown_fn_rule) = [DSL_ERROR_UNKNOWN_FUNCTION]"
    by (simp add: evaluate_def unknown_fn_rule_def dget_def dhas_def DSL_V4_VERSION_def nonblank_def
        op_args_def eval_fn_def fn_args_def eval_fn_args_def record_error_def strip_def is_space_def
        upper_def upper_char_def)
  ultimately show ?thesis by blast
qed

text \<open>an accepted rule without negation is monotone: an account that matches it still
  matches when it is granted more.\<close>

theorem positive_rules_monotone:
  assumes "parse_rule r = Some e" and "positive e" and "grants_more f g" and "matched (evaluate f r)"
  shows "matched (evaluate g r)"
  using assms sem_mono by (simp add: evaluate_parsed(1))

theorem positive_rules_monotone_witness:
  "matched (evaluate [(''roles'', PList [PStr ''sysadmin'', PStr ''backup''])] dba_rule)"
proof -
  let ?f = "[(''roles'', PList [PStr ''sysadmin''])]"
  let ?g = "[(''roles'', PList [PStr ''sysadmin'', PStr ''backup''])]"
  let ?e = "E_or [E_has_role ''sysadmin'', E_has_privilege ''ALL'' Sc_server None]"
  have "parse_rule dba_rule = Some ?e" by code_simp
  moreover have "positive ?e" by simp
  moreover have "grants_more ?f ?g"
    by (auto simp: grants_more_def has_cap_def has_role_def facts_db_type_def dget_def)
  moreover have "matched (evaluate ?f dba_rule)" by code_simp
  ultimately show ?thesis by (rule positive_rules_monotone)
qed

end
