(* ===== verification/Core_Constants.thy ===== *)
theory Core_Constants
  imports Prelude
begin

text \<open>
  The status and type vocabulary of the program
  (\<^verbatim>\<open>app/core/constants/database_types.py\<close> and \<^verbatim>\<open>status_types.py\<close>). The code
  stores these words in database columns as strings; they are strings here too.
\<close>

section \<open>Database types\<close>

definition MYSQL :: string where "MYSQL = ''mysql''"
definition POSTGRESQL :: string where "POSTGRESQL = ''postgresql''"
definition SQLSERVER :: string where "SQLSERVER = ''sqlserver''"
definition ORACLE :: string where "ORACLE = ''oracle''"
definition SQLITE :: string where "SQLITE = ''sqlite''"

lemmas db_type_defs = MYSQL_def POSTGRESQL_def SQLSERVER_def ORACLE_def SQLITE_def

lemma db_types_distinct [simp]:
  "distinct [MYSQL, POSTGRESQL, SQLSERVER, ORACLE, SQLITE]"
  "MYSQL \<noteq> POSTGRESQL" "MYSQL \<noteq> SQLSERVER" "MYSQL \<noteq> ORACLE" "POSTGRESQL \<noteq> MYSQL"
  "POSTGRESQL \<noteq> SQLSERVER" "POSTGRESQL \<noteq> ORACLE" "SQLSERVER \<noteq> MYSQL" "SQLSERVER \<noteq> POSTGRESQL"
  "SQLSERVER \<noteq> ORACLE" "ORACLE \<noteq> MYSQL" "ORACLE \<noteq> POSTGRESQL" "ORACLE \<noteq> SQLSERVER"
  by (simp_all add: db_type_defs)

section \<open>Statuses\<close>

definition PENDING :: string where "PENDING = ''pending''"
definition RUNNING :: string where "RUNNING = ''running''"
definition COMPLETED :: string where "COMPLETED = ''completed''"
definition COMPLETED_WITH_ERRORS :: string where "COMPLETED_WITH_ERRORS = ''completed_with_errors''"
definition FAILED :: string where "FAILED = ''failed''"
definition CANCELLED :: string where "CANCELLED = ''cancelled''"

lemmas status_defs =
  PENDING_def RUNNING_def COMPLETED_def COMPLETED_WITH_ERRORS_def FAILED_def CANCELLED_def

definition sync_status_all :: "string list" where
  "sync_status_all = [PENDING, RUNNING, COMPLETED, FAILED, CANCELLED]"

definition sync_status_active :: "string list" where
  "sync_status_active = [PENDING, RUNNING]"

definition session_status_all :: "string list" where
  "session_status_all = [RUNNING, COMPLETED, FAILED, CANCELLED]"

definition session_status_terminal :: "string list" where
  "session_status_terminal = [COMPLETED, FAILED, CANCELLED]"

definition task_status_all :: "string list" where
  "task_status_all = [PENDING, RUNNING, COMPLETED, COMPLETED_WITH_ERRORS, FAILED, CANCELLED]"

definition task_status_terminal :: "string list" where
  "task_status_terminal = [COMPLETED, COMPLETED_WITH_ERRORS, FAILED, CANCELLED]"

definition task_status_in_progress :: "string list" where
  "task_status_in_progress = sync_status_active"

text \<open>\<^verbatim>\<open>is_valid_sync_session_status\<close>.\<close>

definition is_valid_sync_session_status :: "string \<Rightarrow> bool" where
  "is_valid_sync_session_status status = (status \<in> set session_status_all)"

lemmas status_set_defs = sync_status_all_def sync_status_active_def session_status_all_def
  session_status_terminal_def task_status_all_def task_status_terminal_def task_status_in_progress_def

lemma statuses_distinct: "distinct task_status_all"
  by (simp add: status_set_defs status_defs)

lemma status_neq [simp]:
  "PENDING \<noteq> RUNNING" "PENDING \<noteq> COMPLETED" "PENDING \<noteq> FAILED" "PENDING \<noteq> CANCELLED"
  "PENDING \<noteq> COMPLETED_WITH_ERRORS" "RUNNING \<noteq> PENDING" "RUNNING \<noteq> COMPLETED" "RUNNING \<noteq> FAILED"
  "RUNNING \<noteq> CANCELLED" "RUNNING \<noteq> COMPLETED_WITH_ERRORS" "COMPLETED \<noteq> PENDING"
  "COMPLETED \<noteq> RUNNING" "COMPLETED \<noteq> FAILED" "COMPLETED \<noteq> CANCELLED"
  "COMPLETED \<noteq> COMPLETED_WITH_ERRORS" "COMPLETED_WITH_ERRORS \<noteq> COMPLETED" "FAILED \<noteq> PENDING"
  "COMPLETED_WITH_ERRORS \<noteq> FAILED" "COMPLETED_WITH_ERRORS \<noteq> CANCELLED"
  "COMPLETED_WITH_ERRORS \<noteq> PENDING" "COMPLETED_WITH_ERRORS \<noteq> RUNNING" "FAILED \<noteq> RUNNING"
  "FAILED \<noteq> COMPLETED" "FAILED \<noteq> CANCELLED" "FAILED \<noteq> COMPLETED_WITH_ERRORS"
  "CANCELLED \<noteq> PENDING" "CANCELLED \<noteq> RUNNING" "CANCELLED \<noteq> COMPLETED" "CANCELLED \<noteq> FAILED"
  "CANCELLED \<noteq> COMPLETED_WITH_ERRORS"
  by (simp_all add: status_defs)

lemma terminal_or_in_progress:
  "status \<in> set task_status_all \<longleftrightarrow> status \<in> set task_status_terminal \<or> status \<in> set task_status_in_progress"
  "set task_status_terminal \<inter> set task_status_in_progress = {}"
  by (auto simp: status_set_defs)

end
