(* ===== verification/Safe_Query.thy ===== *)
theory Safe_Query
  imports Core_Constants
begin

text \<open>
  The SQL filter builder of the account adapters
  (\<^verbatim>\<open>app/utils/safe_query_builder.py\<close>). A builder is a record; every method returns the
  updated builder, as the chained calls of the code do. MySQL, PostgreSQL and SQL Server
  bind parameters by position (\<^verbatim>\<open>%s\<close>), Oracle by name (\<^verbatim>\<open>:param_N\<close>).
\<close>

section \<open>The builder\<close>

datatype sql_params = Positional "pv list" | Named pdict

record sql_builder =
  sb_db_type :: string
  sb_conditions :: "string list"
  sb_parameters :: sql_params
  sb_counter :: nat

definition new_builder :: "string \<Rightarrow> sql_builder" where
  "new_builder db_type = \<lparr>sb_db_type = lower db_type, sb_conditions = [],
     sb_parameters = (if lower db_type = ORACLE then Named [] else Positional []), sb_counter = 0\<rparr>"

text \<open>The two \<^verbatim>\<open>cast\<close>s of the code; the invariant below says each is applied to its own kind.\<close>

fun positional_of :: "sql_params \<Rightarrow> pv list" where
  "positional_of (Positional xs) = xs"
| "positional_of (Named d) = []"

fun named_of :: "sql_params \<Rightarrow> pdict" where
  "named_of (Named d) = d"
| "named_of (Positional xs) = []"

definition param_name :: "nat \<Rightarrow> string" where
  "param_name n = ''param_'' @ show_nat n"

text \<open>\<^verbatim>\<open>s.replace(old, new, 1)\<close> for a nonempty \<^verbatim>\<open>old\<close>.\<close>

fun replace_first :: "string \<Rightarrow> string \<Rightarrow> string \<Rightarrow> string" where
  "replace_first old new [] = []"
| "replace_first old new (c # cs) =
     (if prefix old (c # cs) then new @ drop (length old) (c # cs) else c # replace_first old new cs)"

text \<open>The loop over the parameters of one Oracle condition.\<close>

fun bind_named :: "pv list \<Rightarrow> string \<Rightarrow> pdict \<Rightarrow> nat \<Rightarrow> string \<times> pdict \<times> nat" where
  "bind_named [] cond d n = (cond, d, n)"
| "bind_named (p # ps) cond d n =
     bind_named ps (replace_first ''%s'' (CHR '':'' # param_name n) cond) (dput (param_name n) p d) (Suc n)"

definition add_condition :: "string \<Rightarrow> pv list \<Rightarrow> sql_builder \<Rightarrow> sql_builder" where
  "add_condition condition params b =
     (if sb_db_type b = ORACLE then
        (case bind_named params condition (named_of (sb_parameters b)) (sb_counter b) of
           (cond, d, n) \<Rightarrow> b\<lparr>sb_conditions := sb_conditions b @ [cond], sb_parameters := Named d, sb_counter := n\<rparr>)
      else b\<lparr>sb_conditions := sb_conditions b @ [condition],
             sb_parameters := Positional (positional_of (sb_parameters b) @ params)\<rparr>)"

text \<open>The loop over the values of an Oracle \<^verbatim>\<open>NOT IN\<close>.\<close>

fun bind_values :: "string list \<Rightarrow> string list \<Rightarrow> pdict \<Rightarrow> nat \<Rightarrow> string list \<times> pdict \<times> nat" where
  "bind_values [] ph d n = (ph, d, n)"
| "bind_values (v # vs) ph d n =
     bind_values vs (ph @ [CHR '':'' # param_name n]) (dput (param_name n) (PStr v) d) (Suc n)"

definition not_in_clause :: "string \<Rightarrow> string list \<Rightarrow> string" where
  "not_in_clause field placeholders = field @ '' NOT IN ('' @ join '', '' placeholders @ '')''"

definition add_not_in_condition :: "string \<Rightarrow> string list \<Rightarrow> sql_builder \<Rightarrow> sql_builder" where
  "add_not_in_condition field values b =
     (if values = [] then b
      else if sb_db_type b = ORACLE then
        (case bind_values values [] (named_of (sb_parameters b)) (sb_counter b) of
           (ph, d, n) \<Rightarrow> b\<lparr>sb_conditions := sb_conditions b @ [not_in_clause field ph],
                            sb_parameters := Named d, sb_counter := n\<rparr>)
      else b\<lparr>sb_conditions := sb_conditions b @ [not_in_clause field (replicate (length values) ''%s'')],
             sb_parameters := Positional (positional_of (sb_parameters b) @ map PStr values)\<rparr>)"

definition add_not_like_condition :: "string \<Rightarrow> string \<Rightarrow> sql_builder \<Rightarrow> sql_builder" where
  "add_not_like_condition field pattern b =
     (if sb_db_type b = ORACLE then
        b\<lparr>sb_conditions := sb_conditions b @ [field @ '' NOT LIKE :'' @ param_name (sb_counter b)],
          sb_parameters := Named (dput (param_name (sb_counter b)) (PStr pattern) (named_of (sb_parameters b))),
          sb_counter := Suc (sb_counter b)\<rparr>
      else b\<lparr>sb_conditions := sb_conditions b @ [field @ '' NOT LIKE %s''],
             sb_parameters := Positional (positional_of (sb_parameters b) @ [PStr pattern])\<rparr>)"

definition build_where_clause :: "sql_builder \<Rightarrow> string \<times> sql_params" where
  "build_where_clause b =
     (if sb_conditions b = [] then (''1=1'', if sb_db_type b = ORACLE then Named [] else Positional [])
      else (join '' AND '' (sb_conditions b), sb_parameters b))"

definition specific_values :: "string \<Rightarrow> string list \<Rightarrow> sql_builder \<Rightarrow> sql_builder" where
  "specific_values field values b =
     (if values = [] then b
      else if sb_db_type b = POSTGRESQL \<and> ''postgres'' \<in> set values then
        (let filtered_values = filter (\<lambda>v. v \<noteq> ''postgres'') values in
         if filtered_values \<noteq> [] then add_not_in_condition field filtered_values b else b)
      else add_not_in_condition field values b)"

definition specific_pattern :: "string \<Rightarrow> string \<Rightarrow> sql_builder \<Rightarrow> sql_builder" where
  "specific_pattern field pattern b =
     (if sb_db_type b = POSTGRESQL \<and> pattern = ''pg_%'' then
        add_condition (''('' @ field @ '' NOT LIKE %s OR '' @ field @ '' = %s)'') [PStr pattern, PStr ''postgres''] b
      else add_not_like_condition field pattern b)"

definition add_database_specific_condition ::
  "string \<Rightarrow> string list \<Rightarrow> string list \<Rightarrow> sql_builder \<Rightarrow> sql_builder" where
  "add_database_specific_condition field values patterns b =
     fold (specific_pattern field) patterns (specific_values field values b)"

definition reset :: "sql_builder \<Rightarrow> sql_builder" where
  "reset b = (if sb_db_type b = ORACLE
     then b\<lparr>sb_conditions := [], sb_parameters := Named [], sb_counter := 0\<rparr>
     else b\<lparr>sb_conditions := [], sb_parameters := Positional []\<rparr>)"

text \<open>A program over a builder: a chain of calls.\<close>

datatype sql_op =
    Op_condition string "pv list"
  | Op_not_in string "string list"
  | Op_not_like string string
  | Op_specific string "string list" "string list"
  | Op_reset

fun sql_step :: "sql_op \<Rightarrow> sql_builder \<Rightarrow> sql_builder" where
  "sql_step (Op_condition c ps) b = add_condition c ps b"
| "sql_step (Op_not_in f vs) b = add_not_in_condition f vs b"
| "sql_step (Op_not_like f p) b = add_not_like_condition f p b"
| "sql_step (Op_specific f vs ps) b = add_database_specific_condition f vs ps b"
| "sql_step Op_reset b = reset b"

definition sql_run :: "string \<Rightarrow> sql_op list \<Rightarrow> sql_builder" where
  "sql_run db_type ops = fold sql_step ops (new_builder db_type)"

section \<open>Parameter names\<close>

lemma param_name_inject [simp]: "param_name m = param_name n \<longleftrightarrow> m = n"
  by (simp add: param_name_def)

definition named_upto :: "pdict \<Rightarrow> nat \<Rightarrow> bool" where
  "named_upto d n \<longleftrightarrow> dkeys d = map param_name [0..<n]"

lemma dkeys_dput_fresh: "k \<notin> set (dkeys d) \<Longrightarrow> dkeys (dput k v d) = dkeys d @ [k]"
  by (simp add: dkeys_def update_keys)

lemma named_upto_dput [dict_intros]:
  assumes "named_upto d n"
  shows "named_upto (dput (param_name n) v d) (Suc n)"
proof -
  have "param_name n \<notin> set (dkeys d)"
    using assms by (auto simp: named_upto_def)
  with assms show ?thesis by (simp add: named_upto_def dkeys_dput_fresh)
qed

lemma surjective_pairing3: "p = (fst p, fst (snd p), snd (snd p))"
  by simp

lemma bind_named_upto:
  "bind_named ps cond d n = (cond', d', n') \<Longrightarrow> named_upto d n \<Longrightarrow> named_upto d' n' \<and> n' = n + length ps"
  by (induction ps cond d n rule: bind_named.induct) (auto dest: named_upto_dput)

lemma bind_values_upto:
  "bind_values vs ph d n = (ph', d', n') \<Longrightarrow> named_upto d n \<Longrightarrow> named_upto d' n' \<and> n' = n + length vs"
  by (induction vs ph d n rule: bind_values.induct) (auto dest: named_upto_dput)

section \<open>The representation invariant\<close>

definition sb_wf :: "sql_builder \<Rightarrow> bool" where
  "sb_wf b \<longleftrightarrow> (if sb_db_type b = ORACLE
     then \<exists>d. sb_parameters b = Named d \<and> named_upto d (sb_counter b)
     else \<exists>xs. sb_parameters b = Positional xs)"

lemma sb_wf_new: "sb_wf (new_builder t)"
  by (simp add: sb_wf_def new_builder_def named_upto_def dkeys_def)

lemma sb_wf_add_condition: "sb_wf b \<Longrightarrow> sb_wf (add_condition c ps b)"
  using bind_named_upto [of ps c _ "sb_counter b", OF surjective_pairing3, THEN conjunct1]
  by (auto simp: sb_wf_def add_condition_def case_prod_beta)

lemma sb_wf_add_not_in: "sb_wf b \<Longrightarrow> sb_wf (add_not_in_condition f vs b)"
  using bind_values_upto [of vs "[]" _ "sb_counter b", OF surjective_pairing3, THEN conjunct1]
  by (auto simp: sb_wf_def add_not_in_condition_def case_prod_beta)

lemma sb_wf_add_not_like: "sb_wf b \<Longrightarrow> sb_wf (add_not_like_condition f p b)"
  by (auto simp: sb_wf_def add_not_like_condition_def named_upto_dput)

lemma sb_wf_reset: "sb_wf (reset b)"
  by (auto simp: sb_wf_def reset_def named_upto_def dkeys_def)

lemmas sb_wf_intros = sb_wf_add_condition sb_wf_add_not_in sb_wf_add_not_like sb_wf_reset

lemma sb_wf_specific: "sb_wf b \<Longrightarrow> sb_wf (add_database_specific_condition f vs ps b)"
  unfolding add_database_specific_condition_def
  by (rule fold_invariant)
     (simp_all add: specific_values_def specific_pattern_def Let_def sb_wf_intros)

lemma sb_wf_step: "sb_wf b \<Longrightarrow> sb_wf (sql_step op b)"
  by (cases op) (simp_all add: sb_wf_intros sb_wf_specific)

lemma sb_wf_run: "sb_wf (sql_run t ops)"
  unfolding sql_run_def by (rule fold_invariant) (simp_all add: sb_wf_new sb_wf_step)

lemma db_type_step [simp]: "sb_db_type (sql_step op b) = sb_db_type b"
proof (cases op)
  case (Op_specific f vs ps)
  have "sb_db_type (fold (specific_pattern f) ps b') = sb_db_type b'" for b'
    by (induction ps arbitrary: b')
       (simp_all add: specific_pattern_def add_condition_def add_not_like_condition_def split: prod.splits)
  with Op_specific show ?thesis
    by (simp add: add_database_specific_condition_def specific_values_def add_not_in_condition_def
        Let_def split: prod.splits)
qed (simp_all add: add_condition_def add_not_in_condition_def add_not_like_condition_def reset_def
      split: prod.splits)

lemma db_type_run [simp]: "sb_db_type (sql_run t ops) = lower t"
  unfolding sql_run_def by (rule fold_invariant) (simp_all add: new_builder_def)

section \<open>Placeholders\<close>

fun count_ph :: "string \<Rightarrow> nat" where
  "count_ph (c # d # cs) = (if c = CHR ''%'' \<and> d = CHR ''s'' then Suc (count_ph cs) else count_ph (d # cs))"
| "count_ph _ = 0"

lemma count_ph_Cons: "c \<noteq> CHR ''%'' \<Longrightarrow> count_ph (c # cs) = count_ph cs"
  by (cases cs) auto

lemma count_ph_append:
  "ys = [] \<or> hd ys \<noteq> CHR ''s'' \<Longrightarrow> count_ph (xs @ ys) = count_ph xs + count_ph ys"
  by (induction xs rule: count_ph.induct) (auto, cases ys, auto)

lemma count_ph_no_percent: "CHR ''%'' \<notin> set f \<Longrightarrow> count_ph (f @ ys) = count_ph ys"
  by (induction f) (auto simp: count_ph_Cons)

lemma count_ph_join_and: "count_ph (join '' AND '' cs) = (\<Sum>c\<leftarrow>cs. count_ph c)"
  by (induction "'' AND ''" cs rule: join.induct) (simp_all add: count_ph_append count_ph_Cons)

lemma count_ph_replicate: "count_ph (join '', '' (replicate n ''%s'') @ '')'') = n"
proof (induction n rule: induct_nat_012)
  case (ge2 n)
  then show ?case by (simp add: count_ph_Cons)
qed simp_all

lemma count_ph_not_in:
  "CHR ''%'' \<notin> set f \<Longrightarrow> count_ph (not_in_clause f (replicate n ''%s'')) = n"
  by (simp add: not_in_clause_def count_ph_no_percent count_ph_Cons count_ph_replicate)

lemma count_ph_not_like: "CHR ''%'' \<notin> set f \<Longrightarrow> count_ph (f @ '' NOT LIKE %s'') = 1"
  by (simp add: count_ph_no_percent)

text \<open>A call whose template has one \<^verbatim>\<open>%s\<close> for each value.\<close>

fun op_balanced :: "sql_op \<Rightarrow> bool" where
  "op_balanced (Op_condition c ps) = (count_ph c = length ps)"
| "op_balanced (Op_not_in f vs) = (CHR ''%'' \<notin> set f)"
| "op_balanced (Op_not_like f p) = (CHR ''%'' \<notin> set f)"
| "op_balanced (Op_specific f vs ps) = (CHR ''%'' \<notin> set f)"
| "op_balanced Op_reset = True"

definition balanced :: "sql_builder \<Rightarrow> bool" where
  "balanced b \<longleftrightarrow> (\<Sum>c\<leftarrow>sb_conditions b. count_ph c) = length (positional_of (sb_parameters b))"

lemma balanced_condition:
  "balanced b \<Longrightarrow> sb_db_type b \<noteq> ORACLE \<Longrightarrow> count_ph c = length ps \<Longrightarrow> balanced (add_condition c ps b)"
  by (simp add: balanced_def add_condition_def)

lemma balanced_not_in:
  "balanced b \<Longrightarrow> sb_db_type b \<noteq> ORACLE \<Longrightarrow> CHR ''%'' \<notin> set f \<Longrightarrow> balanced (add_not_in_condition f vs b)"
  by (simp add: balanced_def add_not_in_condition_def count_ph_not_in)

lemma balanced_not_like:
  "balanced b \<Longrightarrow> sb_db_type b \<noteq> ORACLE \<Longrightarrow> CHR ''%'' \<notin> set f \<Longrightarrow> balanced (add_not_like_condition f p b)"
  by (simp add: balanced_def add_not_like_condition_def count_ph_not_like)

lemmas balanced_intros = balanced_condition balanced_not_in balanced_not_like

lemma count_ph_keep_postgres:
  "CHR ''%'' \<notin> set f \<Longrightarrow> count_ph (''('' @ f @ '' NOT LIKE %s OR '' @ f @ '' = %s)'') = 2"
  by (simp add: count_ph_Cons count_ph_no_percent)

lemma db_type_pattern [simp]: "sb_db_type (specific_pattern f p b) = sb_db_type b"
  by (simp add: specific_pattern_def add_condition_def add_not_like_condition_def split: prod.splits)

lemma balanced_specific:
  assumes "balanced b" "sb_db_type b \<noteq> ORACLE" "CHR ''%'' \<notin> set f"
  shows "balanced (add_database_specific_condition f vs ps b)"
proof -
  let ?P = "\<lambda>b. balanced b \<and> sb_db_type b \<noteq> ORACLE"
  have vals: "?P (specific_values f vs b)"
    using assms by (simp add: specific_values_def Let_def balanced_not_in) (simp add: add_not_in_condition_def)
  have step: "?P b' \<Longrightarrow> ?P (specific_pattern f p b')" for p b'
  proof -
    assume b': "?P b'"
    then have "balanced (add_condition (''('' @ f @ '' NOT LIKE %s OR '' @ f @ '' = %s)'')
        [PStr p, PStr ''postgres''] b')"
      by (intro balanced_condition, simp, simp, simp only: count_ph_keep_postgres [OF assms(3)], simp)
    with b' assms(3) balanced_not_like [of b' f p] show ?thesis
      by (simp only: db_type_pattern) (simp only: specific_pattern_def split: if_splits, simp)
  qed
  show ?thesis unfolding add_database_specific_condition_def
    using fold_invariant [of ?P _ "specific_pattern f", OF vals step] by blast
qed

lemma balanced_step: "balanced b \<Longrightarrow> sb_db_type b \<noteq> ORACLE \<Longrightarrow> op_balanced op \<Longrightarrow> balanced (sql_step op b)"
  by (cases op) (simp_all add: balanced_intros balanced_specific, simp add: balanced_def reset_def)

lemma balanced_run:
  assumes "lower t \<noteq> ORACLE" "\<forall>op \<in> set ops. op_balanced op"
  shows "balanced (sql_run t ops)"
proof -
  have "balanced b \<Longrightarrow> sb_db_type b = lower t \<Longrightarrow> balanced (fold sql_step ops b)" for b
    using assms by (induction ops arbitrary: b) (simp_all add: balanced_step)
  then show ?thesis using assms(1)
    unfolding sql_run_def by (simp add: new_builder_def balanced_def)
qed


section \<open>The text never depends on the values\<close>

text \<open>Two builders that differ only in the values bound.\<close>

definition same_text :: "sql_builder \<Rightarrow> sql_builder \<Rightarrow> bool" where
  "same_text b b' \<longleftrightarrow> sb_db_type b = sb_db_type b' \<and> sb_conditions b = sb_conditions b' \<and> sb_counter b = sb_counter b'"

text \<open>Two calls of the same method with as many values; PostgreSQL's branches on the
  literals \<^verbatim>\<open>postgres\<close> and \<^verbatim>\<open>pg_%\<close> taken alike.\<close>

fun same_shape :: "string \<Rightarrow> sql_op \<Rightarrow> sql_op \<Rightarrow> bool" where
  "same_shape t (Op_condition c ps) (Op_condition c' ps') = (c = c' \<and> length ps = length ps')"
| "same_shape t (Op_not_in f vs) (Op_not_in f' vs') = (f = f' \<and> length vs = length vs')"
| "same_shape t (Op_not_like f p) (Op_not_like f' p') = (f = f')"
| "same_shape t (Op_specific f vs ps) (Op_specific f' vs' ps') =
     (f = f' \<and> length vs = length vs'
      \<and> (t = POSTGRESQL \<longrightarrow> length (filter (\<lambda>v. v \<noteq> ''postgres'') vs) = length (filter (\<lambda>v. v \<noteq> ''postgres'') vs'))
      \<and> list_all2 (\<lambda>p p'. t = POSTGRESQL \<longrightarrow> (p = ''pg_%'') = (p' = ''pg_%'')) ps ps')"
| "same_shape t Op_reset Op_reset = True"
| "same_shape t _ _ = False"

lemma bind_named_text:
  "length ps = length ps' \<Longrightarrow>
   fst (bind_named ps c d n) = fst (bind_named ps' c d' n)
   \<and> snd (snd (bind_named ps c d n)) = snd (snd (bind_named ps' c d' n))"
  by (induction ps ps' arbitrary: c d d' n rule: list_induct2) simp_all

lemma bind_values_text:
  "length vs = length vs' \<Longrightarrow>
   fst (bind_values vs ph d n) = fst (bind_values vs' ph d' n)
   \<and> snd (snd (bind_values vs ph d n)) = snd (snd (bind_values vs' ph d' n))"
  by (induction vs vs' arbitrary: ph d d' n rule: list_induct2) simp_all

lemma same_text_condition:
  "same_text b b' \<Longrightarrow> length ps = length ps' \<Longrightarrow> same_text (add_condition c ps b) (add_condition c ps' b')"
  using bind_named_text [of ps ps' c "named_of (sb_parameters b)" "sb_counter b'" "named_of (sb_parameters b')"]
  by (simp add: same_text_def add_condition_def case_prod_beta)

lemma same_text_not_in:
  assumes "same_text b b'" "length vs = length vs'"
  shows "same_text (add_not_in_condition f vs b) (add_not_in_condition f vs' b')"
proof -
  have "vs = [] \<longleftrightarrow> vs' = []" using assms(2) by auto
  then show ?thesis
    using assms bind_values_text [OF assms(2), of "[]" "named_of (sb_parameters b)" "sb_counter b'"
        "named_of (sb_parameters b')"]
    by (simp add: same_text_def add_not_in_condition_def case_prod_beta)
qed

lemma same_text_not_like:
  "same_text b b' \<Longrightarrow> same_text (add_not_like_condition f p b) (add_not_like_condition f p' b')"
  by (simp add: same_text_def add_not_like_condition_def)

lemma keeps_all_iff:
  "''postgres'' \<in> set ws \<longleftrightarrow> length (filter (\<lambda>v. v \<noteq> ''postgres'') ws) \<noteq> length ws"
proof
  assume "''postgres'' \<in> set ws"
  then show "length (filter (\<lambda>v. v \<noteq> ''postgres'') ws) \<noteq> length ws"
    using length_filter_less [of "''postgres''" ws "\<lambda>v. v \<noteq> ''postgres''"] by simp
next
  show "''postgres'' \<in> set ws" if "length (filter (\<lambda>v. v \<noteq> ''postgres'') ws) \<noteq> length ws"
    using that by (rule contrapos_np) (subst filter_True, auto)
qed

lemma same_text_values:
  assumes "same_text b b'" "length vs = length vs'"
    and "sb_db_type b = POSTGRESQL \<longrightarrow>
      length (filter (\<lambda>v. v \<noteq> ''postgres'') vs) = length (filter (\<lambda>v. v \<noteq> ''postgres'') vs')"
  shows "same_text (specific_values f vs b) (specific_values f vs' b')"
proof (cases "sb_db_type b = POSTGRESQL")
  case True
  let ?F = "filter (\<lambda>v. v \<noteq> ''postgres'')"
  have "vs = [] \<longleftrightarrow> vs' = []" and "''postgres'' \<in> set vs \<longleftrightarrow> ''postgres'' \<in> set vs'"
    and "?F vs = [] \<longleftrightarrow> ?F vs' = []"
    using assms True keeps_all_iff [of vs] keeps_all_iff [of vs']
    by (simp_all flip: length_0_conv)
  then show ?thesis
    using assms True same_text_not_in [OF assms(1), of "?F vs" "?F vs'"] same_text_not_in [OF assms(1,2)]
    by (simp add: specific_values_def Let_def same_text_def [of b b'])
next
  case False
  with assms have "sb_db_type b' \<noteq> POSTGRESQL" "vs = [] \<longleftrightarrow> vs' = []"
    by (auto simp: same_text_def)
  with False show ?thesis
    using assms same_text_not_in [OF assms(1,2)] by (simp add: specific_values_def)
qed

lemma same_text_pattern:
  assumes "same_text b b'" "sb_db_type b = POSTGRESQL \<longrightarrow> (p = ''pg_%'') = (p' = ''pg_%'')"
  shows "same_text (specific_pattern f p b) (specific_pattern f p' b')"
  using assms same_text_not_like [OF assms(1)]
    same_text_condition [OF assms(1), of "[PStr p, PStr ''postgres'']" "[PStr p', PStr ''postgres'']"]
  by (auto simp: specific_pattern_def same_text_def [of b b'])

lemma same_text_patterns:
  "list_all2 (\<lambda>p p'. t = POSTGRESQL \<longrightarrow> (p = ''pg_%'') = (p' = ''pg_%'')) ps ps' \<Longrightarrow>
   same_text b b' \<Longrightarrow> sb_db_type b = t \<Longrightarrow>
   same_text (fold (specific_pattern f) ps b) (fold (specific_pattern f) ps' b')"
  by (induction ps ps' arbitrary: b b' rule: list_all2_induct) (simp_all add: same_text_pattern)

lemma same_text_step:
  assumes "same_text b b'" "same_shape (sb_db_type b) op op'"
  shows "same_text (sql_step op b) (sql_step op' b')"
proof (cases "\<exists>f vs ps. op = Op_specific f vs ps")
  case True
  then obtain f vs ps where op: "op = Op_specific f vs ps" by blast
  with assms(2) obtain vs' ps' where op': "op' = Op_specific f vs' ps'"
    by (cases op') auto
  have "sb_db_type (specific_values f vs b) = sb_db_type b"
    by (simp add: specific_values_def add_not_in_condition_def Let_def split: prod.splits)
  then show ?thesis
    using assms same_text_values [OF assms(1), of vs vs' f] op op'
    by (auto simp: add_database_specific_condition_def intro!: same_text_patterns)
next
  case False
  with assms show ?thesis
    by (cases op; cases op')
       (auto simp: same_text_condition same_text_not_in same_text_not_like reset_def same_text_def [of "_\<lparr>sb_conditions := _\<rparr>"],
        auto simp: same_text_def)
qed

lemma same_text_run:
  assumes "list_all2 (same_shape (lower t)) ops ops'"
  shows "same_text (sql_run t ops) (sql_run t ops')"
proof -
  have "same_text b b' \<Longrightarrow> sb_db_type b = lower t \<Longrightarrow>
      same_text (fold sql_step ops b) (fold sql_step ops' b')" for b b'
    using assms by (induction ops ops' arbitrary: b b' rule: list_all2_induct) (simp_all add: same_text_step)
  from this [of "new_builder t" "new_builder t"] show ?thesis
    by (simp add: sql_run_def same_text_def new_builder_def)
qed


section \<open>What the generated filter means\<close>

text \<open>One conjunct of the generated clause, with its meaning for a row value under a
  \<^verbatim>\<open>LIKE\<close> relation that stands for the database's.\<close>

datatype row_filter = Not_in "string list" | Not_like string | Not_like_or_eq string string

fun passes :: "(string \<Rightarrow> string \<Rightarrow> bool) \<Rightarrow> string \<Rightarrow> row_filter \<Rightarrow> bool" where
  "passes like v (Not_in vs) = (v \<notin> set vs)"
| "passes like v (Not_like p) = (\<not> like p v)"
| "passes like v (Not_like_or_eq p k) = (\<not> like p v \<or> v = k)"

fun filter_text :: "string \<Rightarrow> row_filter \<Rightarrow> string" where
  "filter_text f (Not_in vs) = f @ '' NOT IN ('' @ join '', '' (replicate (length vs) ''%s'') @ '')''"
| "filter_text f (Not_like p) = f @ '' NOT LIKE %s''"
| "filter_text f (Not_like_or_eq p k) = ''('' @ f @ '' NOT LIKE %s OR '' @ f @ '' = %s)''"

fun filter_params :: "row_filter \<Rightarrow> pv list" where
  "filter_params (Not_in vs) = map PStr vs"
| "filter_params (Not_like p) = [PStr p]"
| "filter_params (Not_like_or_eq p k) = [PStr p, PStr k]"

text \<open>The conjuncts meant: on PostgreSQL the account \<^verbatim>\<open>postgres\<close> is not excluded by name, nor
  by the pattern \<^verbatim>\<open>pg_%\<close>.\<close>

definition value_filters :: "string \<Rightarrow> string list \<Rightarrow> row_filter list" where
  "value_filters t vs = (let ws = (if t = POSTGRESQL then filter (\<lambda>v. v \<noteq> ''postgres'') vs else vs)
     in if ws = [] then [] else [Not_in ws])"

definition pattern_filter :: "string \<Rightarrow> string \<Rightarrow> row_filter" where
  "pattern_filter t p = (if t = POSTGRESQL \<and> p = ''pg_%'' then Not_like_or_eq p ''postgres'' else Not_like p)"

definition emit :: "string \<Rightarrow> row_filter list \<Rightarrow> sql_builder \<Rightarrow> sql_builder" where
  "emit f rfs b = b\<lparr>sb_conditions := sb_conditions b @ map (filter_text f) rfs,
     sb_parameters := Positional (positional_of (sb_parameters b) @ concat (map filter_params rfs))\<rparr>"

lemma emit_append: "emit f (xs @ ys) b = emit f ys (emit f xs b)"
  by (simp add: emit_def)

lemma db_type_emit [simp]: "sb_db_type (emit f xs b) = sb_db_type b"
  by (simp add: emit_def)

lemma emit_Nil: "sb_parameters b = Positional xs \<Longrightarrow> emit f [] b = b"
  by (cases b) (simp add: emit_def)

lemma add_not_in_emit:
  "sb_db_type b \<noteq> ORACLE \<Longrightarrow> vs \<noteq> [] \<Longrightarrow> add_not_in_condition f vs b = emit f [Not_in vs] b"
  by (simp add: emit_def add_not_in_condition_def not_in_clause_def)

lemma specific_values_emit:
  assumes "sb_db_type b \<noteq> ORACLE" "sb_parameters b = Positional xs"
  shows "specific_values f vs b = emit f (value_filters (sb_db_type b) vs) b"
proof (cases "sb_db_type b = POSTGRESQL \<and> ''postgres'' \<in> set vs")
  case True
  then have "vs \<noteq> []" by auto
  with True assms show ?thesis
    by (simp add: specific_values_def value_filters_def Let_def emit_Nil [OF assms(2)] add_not_in_emit)
next
  case False
  have "filter (\<lambda>v. v \<noteq> ''postgres'') vs = vs" if "''postgres'' \<notin> set vs"
    using that by (intro filter_True) auto
  with False have "(if sb_db_type b = POSTGRESQL then filter (\<lambda>v. v \<noteq> ''postgres'') vs else vs) = vs"
    by simp
  with False assms show ?thesis
    by (simp only: specific_values_def value_filters_def Let_def)
       (simp add: emit_Nil [OF assms(2)] add_not_in_emit)
qed

lemma specific_pattern_emit:
  "sb_db_type b \<noteq> ORACLE \<Longrightarrow> specific_pattern f p b = emit f [pattern_filter (sb_db_type b) p] b"
  by (simp add: specific_pattern_def pattern_filter_def emit_def add_condition_def add_not_like_condition_def)

lemma specific_patterns_emit:
  "sb_db_type b \<noteq> ORACLE \<Longrightarrow> sb_parameters b = Positional xs \<Longrightarrow>
   fold (specific_pattern f) ps b = emit f (map (pattern_filter (sb_db_type b)) ps) b"
proof (induction ps arbitrary: b xs)
  case Nil
  then show ?case by (simp add: emit_Nil)
next
  case (Cons p ps)
  let ?rf = "pattern_filter (sb_db_type b) p"
  have "sb_parameters (emit f [?rf] b) = Positional (xs @ filter_params ?rf)"
    using Cons.prems by (simp add: emit_def)
  with Cons show ?case
    using emit_append [of f "[?rf]" "map (pattern_filter (sb_db_type b)) ps" b]
    by (simp add: specific_pattern_emit)
qed

definition specific_filters :: "string \<Rightarrow> string list \<Rightarrow> string list \<Rightarrow> row_filter list" where
  "specific_filters t vs ps = value_filters t vs @ map (pattern_filter t) ps"

lemma specific_emit:
  assumes "sb_db_type b \<noteq> ORACLE" "sb_parameters b = Positional xs"
  shows "add_database_specific_condition f vs ps b = emit f (specific_filters (sb_db_type b) vs ps) b"
proof -
  let ?b = "emit f (value_filters (sb_db_type b) vs) b"
  have "sb_parameters ?b = Positional (xs @ concat (map filter_params (value_filters (sb_db_type b) vs)))"
    using assms by (simp add: emit_def)
  with assms show ?thesis
    by (simp add: add_database_specific_condition_def specific_values_emit specific_patterns_emit
        specific_filters_def emit_append)
qed

lemma passes_pattern:
  "passes like v (pattern_filter t p) \<longleftrightarrow> (like p v \<longrightarrow> t = POSTGRESQL \<and> p = ''pg_%'' \<and> v = ''postgres'')"
  by (auto simp: pattern_filter_def)

lemma passes_values:
  "(\<forall>rf \<in> set (value_filters t vs). passes like v rf) \<longleftrightarrow> (v \<in> set vs \<longrightarrow> t = POSTGRESQL \<and> v = ''postgres'')"
  by (auto simp: value_filters_def Let_def filter_empty_conv)

lemma passes_specific:
  "(\<forall>rf \<in> set (specific_filters t vs ps). passes like v rf) \<longleftrightarrow>
   (v \<in> set vs \<longrightarrow> t = POSTGRESQL \<and> v = ''postgres'')
   \<and> (\<forall>p \<in> set ps. like p v \<longrightarrow> t = POSTGRESQL \<and> p = ''pg_%'' \<and> v = ''postgres'')"
  by (simp add: specific_filters_def ball_Un passes_values passes_pattern)

section \<open>Properties\<close>

text \<open>C37: whatever methods are called in whatever order, an Oracle builder holds exactly the
  parameters \<^verbatim>\<open>param_0 .. param_(n-1)\<close> for its counter n, in order and without collision
  (also after a \<^verbatim>\<open>reset\<close>), and every other builder holds a list of positional parameters;
  so the two \<^verbatim>\<open>cast\<close>s of the code never see the wrong kind.\<close>

theorem builder_parameters_consistent:
  "if lower t = ORACLE
   then \<exists>d. sb_parameters (sql_run t ops) = Named d
        \<and> dkeys d = map param_name [0..<sb_counter (sql_run t ops)] \<and> distinct (dkeys d)
   else \<exists>xs. sb_parameters (sql_run t ops) = Positional xs"
  using sb_wf_run [of t ops] by (auto simp: sb_wf_def named_upto_def distinct_map inj_on_def)

text \<open>C38: on the positional databases the clause built has exactly as many \<^verbatim>\<open>%s\<close> placeholders as
  parameters are returned with it, for every chain of calls whose own templates are
  balanced and whose field names hold no percent sign.\<close>

theorem placeholders_match_parameters:
  assumes "lower t \<noteq> ORACLE" and "\<forall>op \<in> set ops. op_balanced op"
    and "build_where_clause (sql_run t ops) = (clause, params)"
  shows "count_ph clause = length (positional_of params)"
proof -
  have "count_ph ''1=1'' = 0" by simp
  with assms(3) balanced_run [OF assms(1,2)] assms(1) show ?thesis
    by (auto simp: build_where_clause_def balanced_def count_ph_join_and split: if_splits)
qed

theorem placeholders_match_parameters_witness:
  "\<exists>clause params. build_where_clause (sql_run ''MySQL''
      [Op_specific ''User'' [''root'', ''mysql.sys''] [''test_%''], Op_condition ''Host = %s'' [PStr ''a%sb'']])
      = (clause, params) \<and> count_ph clause = length (positional_of params) \<and> count_ph clause = 4"
proof -
  let ?ops = "[Op_specific ''User'' [''root'', ''mysql.sys''] [''test_%''], Op_condition ''Host = %s'' [PStr ''a%sb'']]"
  obtain clause params where r: "build_where_clause (sql_run ''MySQL'' ?ops) = (clause, params)" by fastforce
  have "length (positional_of (snd (build_where_clause (sql_run ''MySQL'' ?ops)))) = 4" by code_simp
  with r have "length (positional_of params) = 4" by simp
  moreover have "count_ph clause = length (positional_of params)"
    by (rule placeholders_match_parameters [OF _ _ r]) (simp_all add: lower_def lower_char_def db_type_defs)
  ultimately show ?thesis using r by auto
qed

text \<open>the SQL text never depends on the values: two chains of calls that differ only in the
  values passed (as many of them, PostgreSQL's literal exceptions taken alike) give the
  same clause. A value can therefore not inject SQL.\<close>

theorem clause_independent_of_values:
  assumes "list_all2 (same_shape (lower t)) ops ops'"
  shows "fst (build_where_clause (sql_run t ops)) = fst (build_where_clause (sql_run t ops'))"
  using same_text_run [OF assms] by (simp add: same_text_def build_where_clause_def)

theorem clause_independent_of_values_witness:
  "fst (build_where_clause (sql_run ''oracle'' [Op_not_in ''NAME'' [''SYS''], Op_not_like ''NAME'' ''C##%'']))
   = fst (build_where_clause (sql_run ''oracle'' [Op_not_in ''NAME'' ['') OR 1=1 --''], Op_not_like ''NAME'' ''%s'']))"
  by (rule clause_independent_of_values) simp

text \<open>on the positional databases \<^verbatim>\<open>add_database_specific_condition\<close> adds to the clause exactly
  the texts and parameters of a list of filters which a row value passes iff it is
  neither listed nor matched, except that PostgreSQL keeps \<^verbatim>\<open>postgres\<close> although it is listed
  or matches \<^verbatim>\<open>pg_%\<close>.\<close>

theorem specific_condition_excludes:
  assumes "lower t \<noteq> ORACLE"
  shows "build_where_clause (sql_run t [Op_specific f vs ps]) =
      (let rfs = specific_filters (lower t) vs ps
       in (if rfs = [] then ''1=1'' else join '' AND '' (map (filter_text f) rfs),
           Positional (concat (map filter_params rfs))))
    \<and> ((\<forall>rf \<in> set (specific_filters (lower t) vs ps). passes like v rf) \<longleftrightarrow>
        (v \<in> set vs \<longrightarrow> lower t = POSTGRESQL \<and> v = ''postgres'')
        \<and> (\<forall>p \<in> set ps. like p v \<longrightarrow> lower t = POSTGRESQL \<and> p = ''pg_%'' \<and> v = ''postgres''))"
proof -
  have "sql_run t [Op_specific f vs ps] = emit f (specific_filters (lower t) vs ps) (new_builder t)"
    using assms by (simp add: sql_run_def specific_emit new_builder_def)
  then show ?thesis
    using assms passes_specific [of "lower t"]
    by (simp add: build_where_clause_def emit_def new_builder_def Let_def)
qed

theorem specific_condition_excludes_witness:
  "build_where_clause (sql_run ''PostgreSQL'' [Op_specific ''rolname'' [''postgres'', ''bob''] [''pg_%'']]) =
      (''rolname NOT IN (%s) AND (rolname NOT LIKE %s OR rolname = %s)'',
       Positional [PStr ''bob'', PStr ''pg_%'', PStr ''postgres''])"
proof -
  let ?t = "''PostgreSQL''"
  have "lower ?t \<noteq> ORACLE" by code_simp
  note r = specific_condition_excludes [OF this, of "''rolname''" "[''postgres'', ''bob'']" "[''pg_%'']", THEN conjunct1]
  have "specific_filters (lower ?t) [''postgres'', ''bob''] [''pg_%''] = [Not_in [''bob''], Not_like_or_eq ''pg_%'' ''postgres'']"
    by code_simp
  with r show ?thesis by simp
qed

end
