(* ===== verification/Py_Objects.thy ===== *)
theory Py_Objects
  imports Prelude
begin

text \<open>
  Python objects on their way into a JSON column, richer than JSON itself: dates, tuples, sets
  and dictionaries with keys that are not strings. The two conversions of the services are
  \<^verbatim>\<open>clean_value\<close> (\<^verbatim>\<open>SyncSessionService._clean_sync_details\<close>) and
  \<^verbatim>\<open>ensure_json_serializable\<close> (\<^verbatim>\<open>TaskRunsWriteService._ensure_json_serializable\<close>).
  A \<^verbatim>\<open>date\<close> or \<^verbatim>\<open>datetime\<close> carries the text its \<^verbatim>\<open>isoformat()\<close> gives.
\<close>

section \<open>Objects\<close>

datatype pkey = K_str string | K_int int | K_bool bool | K_none

datatype pyobj =
    O_none
  | O_bool bool
  | O_int int
  | O_str string
  | O_date string
  | O_list "pyobj list"
  | O_tuple "pyobj list"
  | O_set "pyobj list"
  | O_dict "(pkey \<times> pyobj) list"

type_synonym odict = "(pkey \<times> pyobj) list"

text \<open>\<^verbatim>\<open>str(key)\<close>.\<close>

fun key_str :: "pkey \<Rightarrow> string" where
  "key_str (K_str s) = s"
| "key_str (K_int i) = show_int i"
| "key_str (K_bool b) = (if b then ''True'' else ''False'')"
| "key_str K_none = ''None''"

text \<open>A dictionary built by inserting pairs one after the other.\<close>

definition dict_of :: "('k \<times> 'v) list \<Rightarrow> ('k \<times> 'v) list" where
  "dict_of kvs = fold (\<lambda>kv. AList.update (fst kv) (snd kv)) kvs []"

lemma size_in_olist: "x \<in> set xs \<Longrightarrow> size x < Suc (size_list size xs)"
  by (induction xs) auto

lemma size_in_odict:
  "kv \<in> set d \<Longrightarrow> size (snd kv) < Suc (size_list (size_prod (\<lambda>_. 0) size) d)"
  by (induction d) auto

section \<open>The conversions\<close>

function clean_value :: "pyobj \<Rightarrow> pyobj" where
  "clean_value (O_date s) = O_str s"
| "clean_value (O_dict d) = O_dict (map (\<lambda>kv. (fst kv, clean_value (snd kv))) d)"
| "clean_value (O_list xs) = O_list (map clean_value xs)"
| "clean_value (O_tuple xs) = O_tuple xs"
| "clean_value (O_set xs) = O_set xs"
| "clean_value O_none = O_none"
| "clean_value (O_bool b) = O_bool b"
| "clean_value (O_int i) = O_int i"
| "clean_value (O_str s) = O_str s"
  by pat_completeness auto
termination by (relation "measure size") (auto dest: size_in_olist size_in_odict)

function ensure_json_serializable :: "pyobj \<Rightarrow> pyobj" where
  "ensure_json_serializable (O_date s) = O_str s"
| "ensure_json_serializable (O_dict d) =
     O_dict (dict_of (map (\<lambda>kv. (K_str (key_str (fst kv)), ensure_json_serializable (snd kv))) d))"
| "ensure_json_serializable (O_list xs) = O_list (map ensure_json_serializable xs)"
| "ensure_json_serializable (O_tuple xs) = O_list (map ensure_json_serializable xs)"
| "ensure_json_serializable (O_set xs) = O_list (map ensure_json_serializable xs)"
| "ensure_json_serializable O_none = O_none"
| "ensure_json_serializable (O_bool b) = O_bool b"
| "ensure_json_serializable (O_int i) = O_int i"
| "ensure_json_serializable (O_str s) = O_str s"
  by pat_completeness auto
termination by (relation "measure size") (auto dest: size_in_olist size_in_odict)

fun is_str_key :: "pkey \<Rightarrow> bool" where
  "is_str_key (K_str s) = True"
| "is_str_key _ = False"

lemma str_key [simp]: "is_str_key k \<Longrightarrow> K_str (key_str k) = k"
  by (cases k) simp_all

text \<open>What a JSON column accepts as it is.\<close>

function is_json :: "pyobj \<Rightarrow> bool" where
  "is_json (O_date s) = False"
| "is_json (O_dict d) = (distinct (map fst d) \<and> (\<forall>kv \<in> set d. is_str_key (fst kv) \<and> is_json (snd kv)))"
| "is_json (O_list xs) = (\<forall>x \<in> set xs. is_json x)"
| "is_json (O_tuple xs) = False"
| "is_json (O_set xs) = False"
| "is_json O_none = True"
| "is_json (O_bool b) = True"
| "is_json (O_int i) = True"
| "is_json (O_str s) = True"
  by pat_completeness auto
termination by (relation "measure size") (auto dest: size_in_olist size_in_odict)

section \<open>Dictionaries from pairs\<close>

lemma dict_of_keys_distinct:
  "distinct (map fst acc) \<Longrightarrow> distinct (map fst (fold (\<lambda>kv. AList.update (fst kv) (snd kv)) kvs acc))"
  by (induction kvs arbitrary: acc) (simp_all add: distinct_update)

lemma distinct_dict_of [simp]: "distinct (map fst (dict_of kvs))"
  by (simp add: dict_of_def dict_of_keys_distinct)

lemma set_dict_of_subset: "set (dict_of kvs) \<subseteq> set kvs"
proof -
  have "set (fold (\<lambda>kv. AList.update (fst kv) (snd kv)) kvs acc) \<subseteq> set acc \<union> set kvs" for acc
  proof (induction kvs arbitrary: acc)
    case (Cons kv kvs)
    show ?case
      using Cons.IH [of "AList.update (fst kv) (snd kv) acc"] set_update_subset [of "fst kv" "snd kv" acc]
      by auto
  qed simp
  from this [of "[]"] show ?thesis by (simp add: dict_of_def)
qed

lemma update_new: "k \<notin> fst ` set d \<Longrightarrow> AList.update k v d = d @ [(k, v)]"
  by (induction d) auto

lemma dict_of_id: "distinct (map fst kvs) \<Longrightarrow> dict_of kvs = kvs"
proof -
  have "distinct (map fst (acc @ kvs)) \<Longrightarrow>
      fold (\<lambda>kv. AList.update (fst kv) (snd kv)) kvs acc = acc @ kvs" for acc
  proof (induction kvs arbitrary: acc)
    case (Cons kv kvs)
    then have "AList.update (fst kv) (snd kv) acc = acc @ [kv]"
      by (simp add: update_new image_iff)
    with Cons show ?case by simp
  qed simp
  from this [of "[]"] show "distinct (map fst kvs) \<Longrightarrow> ?thesis" by (simp add: dict_of_def)
qed

lemma map_of_dict_of: "map_of (dict_of kvs) = map_of (rev kvs)"
proof -
  have "map_of (fold (\<lambda>kv. AList.update (fst kv) (snd kv)) kvs acc) = map_of acc ++ map_of (rev kvs)" for acc
    by (induction kvs arbitrary: acc) (simp_all add: update_conv')
  from this [of "[]"] show ?thesis by (simp add: dict_of_def)
qed

section \<open>The conversions give JSON\<close>

lemma ensure_json_is_json: "is_json (ensure_json_serializable v)"
proof (induction v rule: ensure_json_serializable.induct)
  case (2 d)
  let ?kvs = "map (\<lambda>kv. (K_str (key_str (fst kv)), ensure_json_serializable (snd kv))) d"
  have "is_json (snd kv) \<and> is_str_key (fst kv)" if "kv \<in> set (dict_of ?kvs)" for kv
    using subsetD [OF set_dict_of_subset that] 2 by auto
  then show ?case by simp
qed simp_all

lemma ensure_json_id: "is_json v \<Longrightarrow> ensure_json_serializable v = v"
proof (induction v rule: is_json.induct)
  case (2 d)
  have "map (\<lambda>kv. (K_str (key_str (fst kv)), ensure_json_serializable (snd kv))) d = d"
    using 2 by (intro map_idI) auto
  with 2 show ?case by (simp add: dict_of_id)
qed (simp_all add: map_idI)

text \<open>Objects in which dates occur only under dictionaries with string keys and lists.\<close>

function list_shaped :: "pyobj \<Rightarrow> bool" where
  "list_shaped (O_dict d) = (distinct (map fst d) \<and> (\<forall>kv \<in> set d. is_str_key (fst kv) \<and> list_shaped (snd kv)))"
| "list_shaped (O_list xs) = (\<forall>x \<in> set xs. list_shaped x)"
| "list_shaped (O_tuple xs) = False"
| "list_shaped (O_set xs) = False"
| "list_shaped (O_date s) = True"
| "list_shaped O_none = True"
| "list_shaped (O_bool b) = True"
| "list_shaped (O_int i) = True"
| "list_shaped (O_str s) = True"
  by pat_completeness auto
termination by (relation "measure size") (auto dest: size_in_olist size_in_odict)

lemma clean_value_json_iff: "is_json (clean_value v) \<longleftrightarrow> list_shaped v"
  by (induction v rule: clean_value.induct) (auto simp: o_def)

lemma clean_value_agrees: "list_shaped v \<Longrightarrow> clean_value v = ensure_json_serializable v"
proof (induction v rule: list_shaped.induct)
  case (1 d)
  have eq: "map (\<lambda>kv. (K_str (key_str (fst kv)), ensure_json_serializable (snd kv))) d
      = map (\<lambda>kv. (fst kv, clean_value (snd kv))) d"
    using 1 by (intro map_cong) auto
  have "distinct (map fst (map (\<lambda>kv. (fst kv, clean_value (snd kv))) d))"
    using 1 by (simp add: o_def)
  then show ?case by (simp only: clean_value.simps ensure_json_serializable.simps eq dict_of_id)
qed simp_all

end
