(* ===== verification/Status_Machine.thy ===== *)
theory Status_Machine
  imports Core_Constants
begin

text \<open>
  The contract the status columns of the program share: rows carry a status, a step of a
  service may change the status of a row, and some statuses are final. What a client may
  conclude about any run of the service is proved once here (the status may be read together with other columns); the theories of the
  services interpret the locale on their own step relations.
\<close>

locale status_machine =
  fixes step :: "'s \<Rightarrow> 's \<Rightarrow> bool"
    and status_of :: "'s \<Rightarrow> 'k \<Rightarrow> 'x option"
    and moves :: "'x \<Rightarrow> 'x \<Rightarrow> bool"
  assumes step_moves: "step s s' \<Longrightarrow> status_of s k = Some x \<Longrightarrow> \<exists>y. status_of s' k = Some y \<and> (y = x \<or> moves x y)"
begin

text \<open>A row never disappears, and its status follows the permitted moves.\<close>

lemma run_moves:
  assumes "step\<^sup>*\<^sup>* s s'" "status_of s k = Some x"
  shows "\<exists>y. status_of s' k = Some y \<and> moves\<^sup>*\<^sup>* x y"
  using assms
proof (induction rule: rtranclp_induct)
  case (step s1 s2)
  then obtain y where "status_of s1 k = Some y" "moves\<^sup>*\<^sup>* x y" by blast
  with step_moves [OF step.hyps(2)] show ?case
    by (metis rtranclp.rtrancl_into_rtrancl)
qed auto

text \<open>A status without moves is final.\<close>

definition final :: "'x \<Rightarrow> bool" where
  "final x \<longleftrightarrow> (\<forall>y. \<not> moves x y)"

lemma final_stays:
  assumes "step\<^sup>*\<^sup>* s s'" "status_of s k = Some x" "final x"
  shows "status_of s' k = Some x"
proof -
  obtain y where y: "status_of s' k = Some y" "moves\<^sup>*\<^sup>* x y"
    using run_moves [OF assms(1,2)] by blast
  from y(2) have "y = x" using assms(3) by (cases rule: converse_rtranclpE) (auto simp: final_def)
  with y(1) show ?thesis by simp
qed

text \<open>A predicate on statuses closed under the moves holds from then on.\<close>

lemma closed_stays:
  assumes "step\<^sup>*\<^sup>* s s'" "status_of s k = Some x" "P x"
    and "\<And>x y. P x \<Longrightarrow> moves x y \<Longrightarrow> P y"
  shows "\<exists>y. status_of s' k = Some y \<and> P y"
proof -
  obtain y where y: "status_of s' k = Some y" "moves\<^sup>*\<^sup>* x y"
    using run_moves [OF assms(1,2)] by blast
  from y(2) assms(3) have "P y" by (induction rule: rtranclp_induct) (auto intro: assms(4))
  with y(1) show ?thesis by blast
qed

end

end
