(* ===== verification/Sync_Session.thy ===== *)
theory Sync_Session
  imports Py_Objects Status_Machine
begin

text \<open>
  The synchronisation sessions: \<^verbatim>\<open>app/services/sync_session_service.py\<close> over
  \<^verbatim>\<open>app/models/sync_session.py\<close>, \<^verbatim>\<open>app/models/sync_instance_record.py\<close> and
  \<^verbatim>\<open>app/repositories/sync_sessions_repository.py\<close>. The two tables are lists of rows in
  insertion order, with the instances table as names by id. Every operation runs in a
  savepoint (\<^verbatim>\<open>begin_nested\<close>): an operation that raises leaves the tables as they were,
  which a result \<^verbatim>\<open>Inl\<close> without a state says. \<^verbatim>\<open>now\<close> is the reading of the clock
  during the operation; the bookkeeping column \<^verbatim>\<open>created_at\<close> and the ORM's own refresh of
  \<^verbatim>\<open>updated_at\<close> are left out.
\<close>

section \<open>Rows and tables\<close>

record sync_session =
  ss_id :: string
  ss_type :: string
  ss_category :: string
  ss_status :: string
  ss_started_at :: int
  ss_completed_at :: "int option"
  ss_total :: nat
  ss_successful :: nat
  ss_failed :: nat
  ss_created_by :: "int option"
  ss_updated_at :: "int option"

record sync_record =
  sr_id :: nat
  sr_session :: string
  sr_instance :: int
  sr_name :: string
  sr_category :: string
  sr_status :: string
  sr_started_at :: "int option"
  sr_completed_at :: "int option"
  sr_synced :: int
  sr_created :: int
  sr_updated :: int
  sr_deleted :: int
  sr_error :: "string option"
  sr_details :: pyobj

record sync_db =
  sdb_instances :: "(int \<times> string) list"
  sdb_sessions :: "sync_session list"
  sdb_records :: "sync_record list"
  sdb_next :: nat

record sync_stats =
  st_synced :: int
  st_created :: int
  st_updated :: int
  st_deleted :: int

datatype sync_error =
    Record_not_found nat
  | Invalid_instances "int list"
  | Session_missing
  | Duplicate_session
  | Details_type
  | Details_version

section \<open>The models\<close>

definition new_session :: "string \<Rightarrow> string \<Rightarrow> string \<Rightarrow> int option \<Rightarrow> int \<Rightarrow> sync_session" where
  "new_session sid sync_type category created_by now =
     \<lparr>ss_id = sid, ss_type = sync_type, ss_category = category, ss_status = RUNNING, ss_started_at = now,
      ss_completed_at = None, ss_total = 0, ss_successful = 0, ss_failed = 0,
      ss_created_by = created_by, ss_updated_at = None\<rparr>"

definition update_statistics :: "nat \<Rightarrow> nat \<Rightarrow> int \<Rightarrow> sync_session \<Rightarrow> sync_session" where
  "update_statistics succeeded failed now s =
     (let s' = s\<lparr>ss_successful := succeeded, ss_failed := failed\<rparr>
      in if ss_status s' \<in> set session_status_terminal then s'
         else if ss_successful s' + ss_failed s' = ss_total s'
         then s'\<lparr>ss_status := (if 0 < ss_failed s' then FAILED else COMPLETED), ss_completed_at := Some now\<rparr>
         else s')"

definition new_record :: "nat \<Rightarrow> string \<Rightarrow> int \<Rightarrow> string \<Rightarrow> string \<Rightarrow> sync_record" where
  "new_record rid sid instance_id name category =
     \<lparr>sr_id = rid, sr_session = sid, sr_instance = instance_id, sr_name = name, sr_category = category,
      sr_status = PENDING, sr_started_at = None, sr_completed_at = None, sr_synced = 0, sr_created = 0,
      sr_updated = 0, sr_deleted = 0, sr_error = None, sr_details = O_none\<rparr>"

definition start_sync :: "int \<Rightarrow> sync_record \<Rightarrow> sync_record" where
  "start_sync now r = r\<lparr>sr_status := RUNNING, sr_started_at := Some now\<rparr>"

definition complete_sync :: "sync_stats \<Rightarrow> pyobj \<Rightarrow> int \<Rightarrow> sync_record \<Rightarrow> sync_record" where
  "complete_sync stats details now r =
     r\<lparr>sr_status := COMPLETED, sr_completed_at := Some now, sr_synced := st_synced stats,
       sr_created := st_created stats, sr_updated := st_updated stats, sr_deleted := st_deleted stats,
       sr_details := details\<rparr>"

definition fail_sync :: "string \<Rightarrow> pyobj \<Rightarrow> int \<Rightarrow> sync_record \<Rightarrow> sync_record" where
  "fail_sync msg details now r =
     r\<lparr>sr_status := FAILED, sr_completed_at := Some now, sr_error := Some msg, sr_details := details\<rparr>"

section \<open>The repository\<close>

definition get_record_by_id :: "nat \<Rightarrow> sync_db \<Rightarrow> sync_record option" where
  "get_record_by_id rid db = find (\<lambda>r. sr_id r = rid) (sdb_records db)"

definition get_session_by_session_id :: "string \<Rightarrow> sync_db \<Rightarrow> sync_session option" where
  "get_session_by_session_id sid db = find (\<lambda>s. ss_id s = sid) (sdb_sessions db)"

definition list_records_by_session :: "string \<Rightarrow> sync_db \<Rightarrow> sync_record list" where
  "list_records_by_session sid db = filter (\<lambda>r. sr_session r = sid) (sdb_records db)"

definition count_records_by_status :: "string \<Rightarrow> string \<Rightarrow> sync_db \<Rightarrow> nat" where
  "count_records_by_status sid st db =
     length (filter (\<lambda>r. sr_session r = sid \<and> sr_status r = st) (sdb_records db))"

text \<open>Writing back a changed object.\<close>

definition write_record :: "nat \<Rightarrow> (sync_record \<Rightarrow> sync_record) \<Rightarrow> sync_db \<Rightarrow> sync_db" where
  "write_record rid f db = db\<lparr>sdb_records := map (\<lambda>r. if sr_id r = rid then f r else r) (sdb_records db)\<rparr>"

definition write_session :: "string \<Rightarrow> (sync_session \<Rightarrow> sync_session) \<Rightarrow> sync_db \<Rightarrow> sync_db" where
  "write_session sid f db = db\<lparr>sdb_sessions := map (\<lambda>s. if ss_id s = sid then f s else s) (sdb_sessions db)\<rparr>"

section \<open>The details document\<close>

definition odict_get :: "odict \<Rightarrow> string \<Rightarrow> pyobj" where
  "odict_get d k = (case map_of d (K_str k) of None \<Rightarrow> O_none | Some v \<Rightarrow> v)"

definition SYNC_DETAILS_VERSION_V1 :: int where "SYNC_DETAILS_VERSION_V1 = 1"

fun normalize_sync_details_v1 :: "pyobj \<Rightarrow> sync_error + pyobj" where
  "normalize_sync_details_v1 O_none = Inr O_none"
| "normalize_sync_details_v1 (O_dict d) = (case odict_get d ''version'' of
      O_none \<Rightarrow> Inl Details_version
    | O_int i \<Rightarrow> if i = SYNC_DETAILS_VERSION_V1 then Inr (O_dict d) else Inl Details_version
    | _ \<Rightarrow> Inl Details_type)"
| "normalize_sync_details_v1 _ = Inl Details_type"

definition clean_sync_details :: "pyobj \<Rightarrow> sync_error + pyobj" where
  "clean_sync_details details = (case normalize_sync_details_v1 details of
      Inl e \<Rightarrow> Inl e
    | Inr v \<Rightarrow> Inr (clean_value v))"

section \<open>The service\<close>

text \<open>The session id is the UUID drawn; the column is unique.\<close>

definition create_session ::
  "string \<Rightarrow> string \<Rightarrow> string \<Rightarrow> int option \<Rightarrow> int \<Rightarrow> sync_db \<Rightarrow> sync_error + sync_db" where
  "create_session sid sync_type category created_by now db =
     (if get_session_by_session_id sid db \<noteq> None then Inl Duplicate_session
      else Inr (db\<lparr>sdb_sessions := sdb_sessions db @ [new_session sid sync_type category created_by now]\<rparr>))"

definition missing_instances :: "int list \<Rightarrow> sync_db \<Rightarrow> int list" where
  "missing_instances ids db = sort (remdups (filter (\<lambda>i. map_of (sdb_instances db) i = None) ids))"

fun build_records :: "string \<Rightarrow> string \<Rightarrow> sync_db \<Rightarrow> nat \<Rightarrow> int list \<Rightarrow> sync_record list" where
  "build_records sid category db n [] = []"
| "build_records sid category db n (i # is) =
     new_record n sid i (the (map_of (sdb_instances db) i)) category # build_records sid category db (Suc n) is"

text \<open>The foreign key to the session is checked when rows are inserted.\<close>

definition add_instance_records ::
  "string \<Rightarrow> int list \<Rightarrow> string \<Rightarrow> sync_db \<Rightarrow> sync_error + (sync_record list \<times> sync_db)" where
  "add_instance_records sid ids category db =
     (if missing_instances ids db \<noteq> [] then Inl (Invalid_instances (missing_instances ids db))
      else if ids = [] then Inr ([], db)
      else if get_session_by_session_id sid db = None then Inl Session_missing
      else let rs = build_records sid category db (sdb_next db) ids
           in Inr (rs, db\<lparr>sdb_records := sdb_records db @ rs, sdb_next := sdb_next db + length ids\<rparr>))"

definition start_instance_sync :: "nat \<Rightarrow> int \<Rightarrow> sync_db \<Rightarrow> sync_error + sync_db" where
  "start_instance_sync rid now db = (case get_record_by_id rid db of
      None \<Rightarrow> Inl (Record_not_found rid)
    | Some r \<Rightarrow> Inr (write_record rid (start_sync now) db))"

definition update_session_statistics :: "string \<Rightarrow> int \<Rightarrow> sync_db \<Rightarrow> sync_error + sync_db" where
  "update_session_statistics sid now db = (case get_session_by_session_id sid db of
      None \<Rightarrow> Inl Session_missing
    | Some s \<Rightarrow> Inr (write_session sid
        (update_statistics (count_records_by_status sid COMPLETED db) (count_records_by_status sid FAILED db) now) db))"

definition complete_instance_sync ::
  "nat \<Rightarrow> sync_stats \<Rightarrow> pyobj \<Rightarrow> int \<Rightarrow> sync_db \<Rightarrow> sync_error + sync_db" where
  "complete_instance_sync rid stats details now db = (case get_record_by_id rid db of
      None \<Rightarrow> Inl (Record_not_found rid)
    | Some r \<Rightarrow> (case clean_sync_details details of
        Inl e \<Rightarrow> Inl e
      | Inr d \<Rightarrow> update_session_statistics (sr_session r) now (write_record rid (complete_sync stats d now) db)))"

definition fail_instance_sync ::
  "nat \<Rightarrow> string \<Rightarrow> pyobj \<Rightarrow> int \<Rightarrow> sync_db \<Rightarrow> sync_error + sync_db" where
  "fail_instance_sync rid msg details now db = (case get_record_by_id rid db of
      None \<Rightarrow> Inl (Record_not_found rid)
    | Some r \<Rightarrow> (case clean_sync_details details of
        Inl e \<Rightarrow> Inl e
      | Inr d \<Rightarrow> update_session_statistics (sr_session r) now (write_record rid (fail_sync msg d now) db)))"

definition cancel_session :: "string \<Rightarrow> int \<Rightarrow> sync_db \<Rightarrow> bool \<times> sync_db" where
  "cancel_session sid now db = (case get_session_by_session_id sid db of
      None \<Rightarrow> (False, db)
    | Some s \<Rightarrow> if ss_status s \<noteq> RUNNING then (False, db)
        else (True, write_session sid
          (\<lambda>s. s\<lparr>ss_status := CANCELLED, ss_completed_at := Some now, ss_updated_at := Some now\<rparr>) db))"

section \<open>The callers\<close>

text \<open>\<^verbatim>\<open>_create_records\<close> of the account synchronisation task: the records of a batch, then the
  total.\<close>

definition create_records ::
  "string \<Rightarrow> int list \<Rightarrow> string \<Rightarrow> sync_db \<Rightarrow> sync_error + (sync_record list \<times> sync_db)" where
  "create_records sid ids category db = (case add_instance_records sid ids category db of
      Inl e \<Rightarrow> Inl e
    | Inr (rs, db') \<Rightarrow> Inr (rs, write_session sid (\<lambda>s. s\<lparr>ss_total := length ids\<rparr>) db'))"

text \<open>What the synchronisation proper of one instance ended with: statistics and details, a
  failure result, or an exception of the processing of its result.\<close>

datatype account_result = Result_ok sync_stats odict | Result_failed string pyobj | Raised string

definition versioned :: "odict \<Rightarrow> pyobj" where
  "versioned d = O_dict (dict_of ((K_str ''version'', O_int 1) # d))"

fun error_payload :: "(pyobj \<Rightarrow> string) \<Rightarrow> pyobj \<Rightarrow> pyobj" where
  "error_payload str (O_dict d) = versioned d"
| "error_payload str O_none = O_none"
| "error_payload str v = O_dict [(K_str ''version'', O_int 1), (K_str ''raw_details'', O_str (str v))]"

text \<open>\<^verbatim>\<open>AccountSyncService._sync_with_session\<close>: a session of its own for one instance.
  \<^verbatim>\<open>err\<close> and \<^verbatim>\<open>str\<close> are the texts of an exception and of an object.\<close>

definition record_failure :: "nat \<Rightarrow> string \<Rightarrow> int \<Rightarrow> sync_db \<Rightarrow> sync_db" where
  "record_failure rid msg now db = (case fail_instance_sync rid msg O_none now db of
      Inl _ \<Rightarrow> db
    | Inr db' \<Rightarrow> db')"

definition sync_with_session ::
  "(sync_error \<Rightarrow> string) \<Rightarrow> (pyobj \<Rightarrow> string) \<Rightarrow> string \<Rightarrow> int \<Rightarrow> string \<Rightarrow> int option \<Rightarrow> account_result \<Rightarrow> int
     \<Rightarrow> sync_db \<Rightarrow> sync_db" where
  "sync_with_session err str sid instance_id sync_type created_by result now db =
     (case create_session sid sync_type ''account'' created_by now db of
        Inl _ \<Rightarrow> db
      | Inr db1 \<Rightarrow> (case add_instance_records sid [instance_id] ''account'' db1 of
          Inl _ \<Rightarrow> db1
        | Inr (rs, db2) \<Rightarrow>
            let rid = sr_id (hd rs)
            in case start_instance_sync rid now db2 of
                 Inl e \<Rightarrow> record_failure rid (err e) now db2
               | Inr db3 \<Rightarrow> (case result of
                   Result_ok stats d \<Rightarrow> (case complete_instance_sync rid stats (versioned d) now db3 of
                       Inl e \<Rightarrow> record_failure rid (err e) now db3
                     | Inr db4 \<Rightarrow> db4)
                 | Result_failed msg d \<Rightarrow> (case fail_instance_sync rid msg (error_payload str d) now db3 of
                       Inl e \<Rightarrow> record_failure rid (err e) now db3
                     | Inr db4 \<Rightarrow> db4)
                 | Raised msg \<Rightarrow> record_failure rid msg now db3)))"

section \<open>Rows after a write\<close>

lemma get_session_write [simp]:
  "(\<And>s. ss_id (f s) = ss_id s) \<Longrightarrow>
   get_session_by_session_id k (write_session sid f db) =
    (if k = sid then map_option f (get_session_by_session_id k db) else get_session_by_session_id k db)"
  by (simp add: get_session_by_session_id_def write_session_def find_write)

lemma get_session_write_record [simp]:
  "get_session_by_session_id k (write_record rid f db) = get_session_by_session_id k db"
  by (simp add: get_session_by_session_id_def write_record_def)

lemma get_record_write [simp]:
  "(\<And>r. sr_id (f r) = sr_id r) \<Longrightarrow>
   get_record_by_id k (write_record rid f db) =
    (if k = rid then map_option f (get_record_by_id k db) else get_record_by_id k db)"
  by (simp add: get_record_by_id_def write_record_def find_write)

lemma get_record_write_session [simp]:
  "get_record_by_id k (write_session sid f db) = get_record_by_id k db"
  by (simp add: get_record_by_id_def write_session_def)

lemma count_write_session [simp]:
  "count_records_by_status sid st (write_session k f db) = count_records_by_status sid st db"
  by (simp add: count_records_by_status_def write_session_def)

lemma ss_id_updates [simp]: "ss_id (update_statistics a b now s) = ss_id s"
  by (simp add: update_statistics_def Let_def)

lemma sr_updates [simp]:
  "sr_id (start_sync now r) = sr_id r" "sr_session (start_sync now r) = sr_session r"
  "sr_id (complete_sync st d now r) = sr_id r" "sr_session (complete_sync st d now r) = sr_session r"
  "sr_id (fail_sync m d now r) = sr_id r" "sr_session (fail_sync m d now r) = sr_session r"
  "sr_status (start_sync now r) = RUNNING" "sr_status (complete_sync st d now r) = COMPLETED"
  "sr_status (fail_sync m d now r) = FAILED"
  by (simp_all add: start_sync_def complete_sync_def fail_sync_def)

lemma get_record_Some: "get_record_by_id rid db = Some r \<Longrightarrow> r \<in> set (sdb_records db) \<and> sr_id r = rid"
  by (auto simp: get_record_by_id_def find_Some_iff)

lemma get_session_Some: "get_session_by_session_id sid db = Some s \<Longrightarrow> s \<in> set (sdb_sessions db) \<and> ss_id s = sid"
  by (auto simp: get_session_by_session_id_def find_Some_iff)

section \<open>The step relation\<close>

inductive session_step :: "sync_db \<Rightarrow> sync_db \<Rightarrow> bool" where
  create: "create_session sid t c by now db = Inr db' \<Longrightarrow> session_step db db'"
| add: "create_records sid ids c db = Inr (rs, db') \<Longrightarrow> session_step db db'"
| start: "start_instance_sync rid now db = Inr db' \<Longrightarrow> session_step db db'"
| complete: "complete_instance_sync rid stats d now db = Inr db' \<Longrightarrow> session_step db db'"
| fail: "fail_instance_sync rid msg d now db = Inr db' \<Longrightarrow> session_step db db'"
| cancel: "cancel_session sid now db = (b, db') \<Longrightarrow> session_step db db'"

inductive_cases session_stepE: "session_step db db'"

section \<open>Statuses move once\<close>

text \<open>Status and completion time of a session row, and how they move.\<close>

definition session_status :: "sync_db \<Rightarrow> string \<Rightarrow> (string \<times> int option) option" where
  "session_status db sid = map_option (\<lambda>s. (ss_status s, ss_completed_at s)) (get_session_by_session_id sid db)"

fun session_moves :: "string \<times> int option \<Rightarrow> string \<times> int option \<Rightarrow> bool" where
  "session_moves (x, t) (y, t') \<longleftrightarrow>
     x \<notin> set session_status_terminal \<and> y \<in> set session_status_terminal \<and> t' \<noteq> None"

lemma terminal_mem [simp]:
  "RUNNING \<notin> set session_status_terminal" "COMPLETED \<in> set session_status_terminal"
  "FAILED \<in> set session_status_terminal" "CANCELLED \<in> set session_status_terminal"
  by (simp_all add: session_status_terminal_def)

lemma update_statistics_moves:
  "(ss_status (update_statistics a b now s), ss_completed_at (update_statistics a b now s))
     = (ss_status s, ss_completed_at s)
   \<or> session_moves (ss_status s, ss_completed_at s)
       (ss_status (update_statistics a b now s), ss_completed_at (update_statistics a b now s))"
  by (simp add: update_statistics_def Let_def)

lemma create_session_get:
  "create_session k t c by now db = Inr db' \<Longrightarrow> get_session_by_session_id sid db = Some s \<Longrightarrow>
   get_session_by_session_id sid db' = Some s"
  by (auto simp: create_session_def get_session_by_session_id_def find_append split: if_splits)

lemma add_records_get:
  "add_instance_records k ids c db = Inr (rs, db') \<Longrightarrow>
   get_session_by_session_id sid db' = get_session_by_session_id sid db"
  by (auto simp: add_instance_records_def get_session_by_session_id_def Let_def split: if_splits)

lemma update_session_statistics_get:
  "update_session_statistics k now db = Inr db' \<Longrightarrow> get_session_by_session_id sid db = Some s \<Longrightarrow>
   get_session_by_session_id sid db' = Some s \<or>
   (\<exists>a b. get_session_by_session_id sid db' = Some (update_statistics a b now s))"
  by (cases "sid = k") (auto simp: update_session_statistics_def split: option.splits, blast?)

lemma complete_get:
  assumes "complete_instance_sync rid st d now db = Inr db'" "get_session_by_session_id sid db = Some s"
  shows "get_session_by_session_id sid db' = Some s \<or>
    (\<exists>a b. get_session_by_session_id sid db' = Some (update_statistics a b now s))"
proof -
  obtain r :: sync_record and d' where "update_session_statistics (sr_session r) now (write_record rid (complete_sync st d' now) db) = Inr db'"
    using assms(1) by (auto simp: complete_instance_sync_def split: option.splits sum.splits)
  from update_session_statistics_get [OF this] assms(2) show ?thesis by simp
qed

lemma fail_get:
  assumes "fail_instance_sync rid m d now db = Inr db'" "get_session_by_session_id sid db = Some s"
  shows "get_session_by_session_id sid db' = Some s \<or>
    (\<exists>a b. get_session_by_session_id sid db' = Some (update_statistics a b now s))"
proof -
  obtain r :: sync_record and d' where "update_session_statistics (sr_session r) now (write_record rid (fail_sync m d' now) db) = Inr db'"
    using assms(1) by (auto simp: fail_instance_sync_def split: option.splits sum.splits)
  from update_session_statistics_get [OF this] assms(2) show ?thesis by simp
qed

definition row_status :: "sync_session \<Rightarrow> string \<times> int option" where
  "row_status s = (ss_status s, ss_completed_at s)"

lemma session_status_row: "session_status db sid = map_option row_status (get_session_by_session_id sid db)"
  by (simp add: session_status_def row_status_def [abs_def])

lemma row_status_statistics:
  "row_status (update_statistics a b now s) = row_status s \<or>
   session_moves (row_status s) (row_status (update_statistics a b now s))"
  using update_statistics_moves by (simp add: row_status_def)

text \<open>The row after a step: the same but for its total, updated statistics, or cancelled.\<close>

lemma session_step_get:
  assumes "session_step db db'" "get_session_by_session_id sid db = Some s"
  shows "\<exists>s'. get_session_by_session_id sid db' = Some s' \<and>
    (row_status s' = row_status s \<or> session_moves (row_status s) (row_status s'))"
  using assms(1)
proof (cases rule: session_step.cases)
  case (create k t c u now)
  from create_session_get [OF this assms(2)] show ?thesis by simp
next
  case (add k ids c rs)
  then obtain db1 where db1: "add_instance_records k ids c db = Inr (rs, db1)"
    "db' = write_session k (\<lambda>s. s\<lparr>ss_total := length ids\<rparr>) db1"
    by (auto simp: create_records_def split: sum.splits)
  have "get_session_by_session_id sid db1 = Some s"
    using add_records_get [OF db1(1)] assms(2) by simp
  then show ?thesis by (cases "sid = k") (simp_all add: db1(2) row_status_def)
next
  case (start rid now)
  then show ?thesis using assms(2) by (auto simp: start_instance_sync_def split: option.splits)
next
  case (complete rid stats d now)
  from complete_get [OF this assms(2)] show ?thesis using row_status_statistics by auto
next
  case (fail rid msg d now)
  from fail_get [OF this assms(2)] show ?thesis using row_status_statistics by auto
next
  case (cancel k now b)
  show ?thesis
  proof (cases "db' = db")
    case False
    with cancel obtain s1 where "get_session_by_session_id k db = Some s1" "ss_status s1 = RUNNING"
      "db' = write_session k (\<lambda>s. s\<lparr>ss_status := CANCELLED, ss_completed_at := Some now, ss_updated_at := Some now\<rparr>) db"
      by (auto simp: cancel_session_def split: option.splits if_splits)
    with assms(2) show ?thesis by (cases "sid = k") (simp_all add: row_status_def)
  qed (simp add: assms(2))
qed

interpretation sessions: status_machine session_step session_status session_moves
proof
  fix db db' sid x
  assume step: "session_step db db'" and "session_status db sid = Some x"
  then obtain s where s: "get_session_by_session_id sid db = Some s" "x = row_status s"
    by (auto simp: session_status_row)
  from session_step_get [OF step s(1)] obtain s' where "get_session_by_session_id sid db' = Some s'"
    "row_status s' = row_status s \<or> session_moves (row_status s) (row_status s')" by blast
  with s(2) show "\<exists>y. session_status db' sid = Some y \<and> (y = x \<or> session_moves x y)"
    by (simp add: session_status_row)
qed


section \<open>The tables stay well formed\<close>

definition valid_db :: "sync_db \<Rightarrow> bool" where
  "valid_db db \<longleftrightarrow> distinct (map ss_id (sdb_sessions db))
     \<and> (\<forall>s \<in> set (sdb_sessions db). ss_status s \<in> set session_status_all)
     \<and> distinct (map sr_id (sdb_records db))
     \<and> (\<forall>r \<in> set (sdb_records db). sr_id r < sdb_next db \<and> sr_session r \<in> ss_id ` set (sdb_sessions db)
          \<and> sr_status r \<in> set sync_status_all)"

lemma valid_write_record:
  assumes "valid_db db" "\<And>r. sr_id (f r) = sr_id r" "\<And>r. sr_session (f r) = sr_session r"
    "\<And>r. sr_status (f r) \<in> set sync_status_all"
  shows "valid_db (write_record rid f db)"
proof -
  have "map sr_id (map (\<lambda>r. if sr_id r = rid then f r else r) (sdb_records db)) = map sr_id (sdb_records db)"
    using assms(2) by simp
  with assms show ?thesis by (auto simp: valid_db_def write_record_def simp del: map_map)
qed

lemma valid_write_session:
  assumes "valid_db db" "\<And>s. ss_id (f s) = ss_id s"
    "\<And>s. ss_status s \<in> set session_status_all \<Longrightarrow> ss_status (f s) \<in> set session_status_all"
  shows "valid_db (write_session sid f db)"
proof -
  let ?ss = "map (\<lambda>s. if ss_id s = sid then f s else s) (sdb_sessions db)"
  have ids: "map ss_id ?ss = map ss_id (sdb_sessions db)"
    using assms(2) by simp
  then have "ss_id ` set ?ss = ss_id ` set (sdb_sessions db)"
    by (metis list.set_map)
  moreover have "\<forall>s \<in> set ?ss. ss_status s \<in> set session_status_all"
    using assms by (auto simp: valid_db_def)
  ultimately show ?thesis
    using assms(1) ids by (simp add: valid_db_def write_session_def del: map_map set_map)
qed

lemma valid_statistics: "ss_status s \<in> set session_status_all \<Longrightarrow> ss_status (update_statistics a b now s) \<in> set session_status_all"
  by (simp add: update_statistics_def Let_def session_status_all_def)

lemma valid_update_session_statistics:
  "update_session_statistics sid now db = Inr db' \<Longrightarrow> valid_db db \<Longrightarrow> valid_db db'"
  by (auto simp: update_session_statistics_def valid_statistics intro!: valid_write_session split: option.splits)

lemma mem_sync_status_all [simp]:
  "RUNNING \<in> set sync_status_all" "COMPLETED \<in> set sync_status_all" "FAILED \<in> set sync_status_all"
  "PENDING \<in> set sync_status_all"
  by (simp_all add: sync_status_all_def)

lemma valid_create: "create_session sid t c u now db = Inr db' \<Longrightarrow> valid_db db \<Longrightarrow> valid_db db'"
  by (auto simp: create_session_def valid_db_def new_session_def session_status_all_def get_session_by_session_id_def
      find_None_iff split: if_splits)

lemma build_records_ids: "map sr_id (build_records sid c db n ids) = [n..<n + length ids]"
  by (induction ids arbitrary: n) (simp_all add: new_record_def upt_conv_Cons del: upt_Suc)

lemma build_records_row:
  "r \<in> set (build_records sid c db n ids) \<Longrightarrow>
   sr_session r = sid \<and> sr_status r = PENDING \<and> n \<le> sr_id r \<and> sr_id r < n + length ids"
proof (induction ids arbitrary: n)
  case (Cons i ids)
  then show ?case using Cons.IH [of "Suc n"] by (fastforce simp: new_record_def)
qed simp

lemma valid_add:
  assumes "add_instance_records sid ids c db = Inr (rs, db')" "valid_db db"
  shows "valid_db db'"
proof (cases "ids = []")
  case False
  let ?rs = "build_records sid c db (sdb_next db) ids"
  have db': "get_session_by_session_id sid db \<noteq> None" "db' = db\<lparr>sdb_records := sdb_records db @ ?rs, sdb_next := sdb_next db + length ids\<rparr>"
    using assms(1) False by (auto simp: add_instance_records_def Let_def split: if_splits)
  from db'(1) have "sid \<in> ss_id ` set (sdb_sessions db)"
    by (auto dest!: get_session_Some)
  then have "\<forall>r \<in> set ?rs. sr_id r < sdb_next db + length ids \<and> sr_session r \<in> ss_id ` set (sdb_sessions db)
      \<and> sr_status r \<in> set sync_status_all"
    using build_records_row by fastforce
  moreover have "sr_id ` set (sdb_records db) \<inter> sr_id ` set ?rs = {}"
    using assms(2) build_records_row by (fastforce simp: valid_db_def)
  moreover have "distinct (map sr_id ?rs)" by (simp add: build_records_ids)
  ultimately show ?thesis using assms(2) by (auto simp: valid_db_def db'(2))
qed (use assms in \<open>auto simp: add_instance_records_def split: if_splits\<close>)

lemma valid_complete: "complete_instance_sync rid st d now db = Inr db' \<Longrightarrow> valid_db db \<Longrightarrow> valid_db db'"
  by (auto simp: complete_instance_sync_def elim!: valid_update_session_statistics intro!: valid_write_record
      split: option.splits sum.splits)

lemma valid_fail: "fail_instance_sync rid m d now db = Inr db' \<Longrightarrow> valid_db db \<Longrightarrow> valid_db db'"
  by (auto simp: fail_instance_sync_def elim!: valid_update_session_statistics intro!: valid_write_record
      split: option.splits sum.splits)

lemma valid_start: "start_instance_sync rid now db = Inr db' \<Longrightarrow> valid_db db \<Longrightarrow> valid_db db'"
  by (auto simp: start_instance_sync_def intro: valid_write_record split: option.splits)

lemma valid_cancel: "cancel_session sid now db = (b, db') \<Longrightarrow> valid_db db \<Longrightarrow> valid_db db'"
  by (auto simp: cancel_session_def session_status_all_def intro!: valid_write_session split: option.splits if_splits)

lemma valid_create_records: "create_records sid ids c db = Inr (rs, db') \<Longrightarrow> valid_db db \<Longrightarrow> valid_db db'"
  by (auto simp: create_records_def intro!: valid_write_session dest: valid_add split: sum.splits)

lemmas valid_intros = valid_create valid_create_records valid_start valid_complete valid_fail valid_cancel

lemma valid_step: "session_step db db' \<Longrightarrow> valid_db db \<Longrightarrow> valid_db db'"
  by (induction rule: session_step.induct) (blast intro: valid_intros)+

section \<open>A batch\<close>

text \<open>One instance of a batch: started, then completed or failed.\<close>

type_synonym instance_outcome = "nat \<times> ((sync_stats \<times> pyobj) + (string \<times> pyobj))"

definition outcome_ok :: "instance_outcome \<Rightarrow> bool" where
  "outcome_ok oc = (case snd oc of Inl _ \<Rightarrow> True | Inr _ \<Rightarrow> False)"

definition outcome_details :: "instance_outcome \<Rightarrow> pyobj" where
  "outcome_details oc = (case snd oc of Inl (st, d) \<Rightarrow> d | Inr (m, d) \<Rightarrow> d)"

definition process_instance :: "instance_outcome \<Rightarrow> int \<Rightarrow> sync_db \<Rightarrow> sync_error + sync_db" where
  "process_instance oc now db = (case start_instance_sync (fst oc) now db of
      Inl e \<Rightarrow> Inl e
    | Inr db1 \<Rightarrow> (case snd oc of
        Inl (st, d) \<Rightarrow> complete_instance_sync (fst oc) st d now db1
      | Inr (m, d) \<Rightarrow> fail_instance_sync (fst oc) m d now db1))"

fun process_batch :: "instance_outcome list \<Rightarrow> int \<Rightarrow> sync_db \<Rightarrow> sync_error + sync_db" where
  "process_batch [] now db = Inr db"
| "process_batch (oc # ocs) now db = (case process_instance oc now db of
      Inl e \<Rightarrow> Inl e
    | Inr db' \<Rightarrow> process_batch ocs (now + 1) db')"

lemma count_write_record:
  assumes "valid_db db" "get_record_by_id rid db = Some r" "sr_session (f r) = sr_session r"
  shows "count_records_by_status sid st (write_record rid f db) + (if sr_session r = sid \<and> sr_status r = st then 1 else 0)
    = count_records_by_status sid st db + (if sr_session r = sid \<and> sr_status (f r) = st then 1 else 0)"
proof -
  have "r \<in> set (sdb_records db)" "sr_id r = rid" using get_record_Some [OF assms(2)] by auto
  moreover have "distinct (map sr_id (sdb_records db))" using assms(1) by (simp add: valid_db_def)
  ultimately show ?thesis
    using count_write [of sr_id "sdb_records db" r "\<lambda>r. sr_session r = sid \<and> sr_status r = st" f] assms(3)
    by (auto simp: count_records_by_status_def write_record_def split: if_splits)
qed


lemma count_start:
  assumes "valid_db db" "get_record_by_id rid db = Some r" "sr_status r \<notin> {COMPLETED, FAILED}" "st \<in> {COMPLETED, FAILED}"
  shows "count_records_by_status sid st (write_record rid (start_sync now) db) = count_records_by_status sid st db"
  using count_write_record [OF assms(1,2), of "start_sync now" sid st] assms(3,4) by auto

text \<open>Finishing a record that had not finished counts it once.\<close>

lemma finish_counts:
  assumes "valid_db db" "get_record_by_id rid db = Some r" "sr_status r \<notin> {COMPLETED, FAILED}"
    "sr_session r = sid" "sr_session (f r) = sr_session r" "sr_status (f r) = fin" "fin \<in> {COMPLETED, FAILED}"
    "st \<in> {COMPLETED, FAILED}"
  shows "count_records_by_status sid st (write_record rid f db) =
    count_records_by_status sid st db + (if fin = st then 1 else 0)"
  using count_write_record [OF assms(1,2), of f sid st] assms(3-) by auto

lemma process_step:
  assumes v: "valid_db db" and r: "get_record_by_id (fst oc) db = Some r" "sr_session r = sid"
    and open_r: "sr_status r \<notin> {COMPLETED, FAILED}"
    and s: "get_session_by_session_id sid db = Some s"
    and d: "clean_sync_details (outcome_details oc) = Inr d"
  defines "a \<equiv> count_records_by_status sid COMPLETED db + (if outcome_ok oc then 1 else 0)"
    and "b \<equiv> count_records_by_status sid FAILED db + (if outcome_ok oc then 0 else 1)"
  obtains db' where "process_instance oc now db = Inr db'" "valid_db db'"
    "get_session_by_session_id sid db' = Some (update_statistics a b now s)"
    "count_records_by_status sid COMPLETED db' = a" "count_records_by_status sid FAILED db' = b"
    "\<And>k. k \<noteq> fst oc \<Longrightarrow> get_record_by_id k db' = get_record_by_id k db"
proof -
  let ?db1 = "write_record (fst oc) (start_sync now) db"
  have start: "start_instance_sync (fst oc) now db = Inr ?db1"
    by (simp add: start_instance_sync_def r)
  have v1: "valid_db ?db1" by (rule valid_start [OF start v])
  have r1: "get_record_by_id (fst oc) ?db1 = Some (start_sync now r)" by (simp add: r)
  define f where "f = (case snd oc of Inl (st, _) \<Rightarrow> complete_sync st d now | Inr (m, _) \<Rightarrow> fail_sync m d now)"
  let ?fin = "if outcome_ok oc then COMPLETED else FAILED"
  have f: "sr_status (f x) = ?fin" "sr_session (f x) = sr_session x" "sr_id (f x) = sr_id x" for x
    by (auto simp: f_def outcome_ok_def split: sum.splits prod.splits)
  let ?db2 = "write_record (fst oc) f ?db1"
  have counts: "count_records_by_status sid COMPLETED ?db2 = a" "count_records_by_status sid FAILED ?db2 = b"
    using finish_counts [OF v1 r1, of sid f ?fin] f count_start [OF v r(1) open_r]
    by (simp_all add: r(2) a_def b_def)
  have "process_instance oc now db = update_session_statistics sid now ?db2"
    using d by (cases "snd oc"; cases "the_inv Inl (snd oc)")
      (auto simp: process_instance_def start complete_instance_sync_def fail_instance_sync_def r1 r(2) f_def
        outcome_details_def split: sum.splits prod.splits)
  also have "\<dots> = Inr (write_session sid (update_statistics a b now) ?db2)"
    by (simp add: update_session_statistics_def s counts)
  finally have p: "process_instance oc now db = Inr (write_session sid (update_statistics a b now) ?db2)" .
  show ?thesis
  proof (rule that [OF p])
    show "valid_db (write_session sid (update_statistics a b now) ?db2)"
      using f by (intro valid_write_session valid_write_record [OF v1] valid_statistics) auto
  qed (simp_all add: s counts f(3))
qed


lemma process_batch_counts:
  assumes "valid_db db" "get_session_by_session_id sid db = Some s" "ss_status s = RUNNING"
    and "distinct (map fst ocs)"
    and "\<And>oc. oc \<in> set ocs \<Longrightarrow> \<exists>r. get_record_by_id (fst oc) db = Some r \<and> sr_session r = sid
           \<and> sr_status r \<notin> {COMPLETED, FAILED}"
    and "\<And>oc. oc \<in> set ocs \<Longrightarrow> \<exists>d. clean_sync_details (outcome_details oc) = Inr d"
    and "count_records_by_status sid COMPLETED db + count_records_by_status sid FAILED db + length ocs \<le> ss_total s"
    and "ocs \<noteq> []"
  shows "\<exists>db' s'. process_batch ocs now db = Inr db' \<and> get_session_by_session_id sid db' = Some s'
    \<and> ss_successful s' = count_records_by_status sid COMPLETED db + length (filter outcome_ok ocs)
    \<and> ss_failed s' = count_records_by_status sid FAILED db + length (filter (Not \<circ> outcome_ok) ocs)
    \<and> ss_status s' = (if ss_successful s' + ss_failed s' < ss_total s then RUNNING
         else if 0 < ss_failed s' then FAILED else COMPLETED)"
  using assms
proof (induction ocs arbitrary: db s now)
  case (Cons oc ocs)
  let ?C = "count_records_by_status sid COMPLETED" and ?F = "count_records_by_status sid FAILED"
  let ?a = "?C db + (if outcome_ok oc then 1 else 0)" and ?b = "?F db + (if outcome_ok oc then 0 else 1)"
  obtain r where r: "get_record_by_id (fst oc) db = Some r" "sr_session r = sid" "sr_status r \<notin> {COMPLETED, FAILED}"
    using Cons.prems(5) [of oc] by auto
  obtain d where d: "clean_sync_details (outcome_details oc) = Inr d"
    using Cons.prems(6) [of oc] by auto
  obtain db1 where p: "process_instance oc now db = Inr db1" and v1: "valid_db db1"
    and s1: "get_session_by_session_id sid db1 = Some (update_statistics ?a ?b now s)"
    and c1: "?C db1 = ?a" "?F db1 = ?b"
    and other: "\<And>k. k \<noteq> fst oc \<Longrightarrow> get_record_by_id k db1 = get_record_by_id k db"
    by (rule process_step [where now = now, OF Cons.prems(1) r Cons.prems(2) d]) (rule that; assumption)
  let ?s1 = "update_statistics ?a ?b now s"
  have sum: "?a + ?b = ?C db + ?F db + 1" by simp
  show ?case
  proof (cases "ocs = []")
    case True
    with p s1 Cons.prems(3,7) show ?thesis
      by (auto simp: update_statistics_def Let_def)
  next
    case False
    have "?a + ?b \<noteq> ss_total s" using Cons.prems(7) False sum by (cases ocs) auto
    then have run: "ss_status ?s1 = RUNNING" "ss_total ?s1 = ss_total s"
      using Cons.prems(3) by (simp_all add: update_statistics_def Let_def)
    have recs: "\<exists>r. get_record_by_id (fst oc') db1 = Some r \<and> sr_session r = sid \<and> sr_status r \<notin> {COMPLETED, FAILED}"
      if "oc' \<in> set ocs" for oc'
    proof -
      have "fst oc' \<noteq> fst oc" using that Cons.prems(4) by (simp add: image_iff) metis
      with other Cons.prems(5) that show ?thesis by simp
    qed
    obtain db' s' where q: "process_batch ocs (now + 1) db1 = Inr db'" "get_session_by_session_id sid db' = Some s'"
      "ss_successful s' = ?C db1 + length (filter outcome_ok ocs)"
      "ss_failed s' = ?F db1 + length (filter (Not \<circ> outcome_ok) ocs)"
      "ss_status s' = (if ss_successful s' + ss_failed s' < ss_total ?s1 then RUNNING
           else if 0 < ss_failed s' then FAILED else COMPLETED)"
      using Cons.IH [OF v1 s1 run(1) _ recs, of "now + 1"] Cons.prems(4,6,7) False c1 sum run(2) by fastforce
    have "process_batch (oc # ocs) now db = Inr db'" using p q(1) by simp
    moreover have "ss_successful s' = ?C db + length (filter outcome_ok (oc # ocs))"
      using q(3) c1(1) by simp
    moreover have "ss_failed s' = ?F db + length (filter (Not \<circ> outcome_ok) (oc # ocs))"
      using q(4) c1(2) by simp
    ultimately show ?thesis using q(2) q(5) [unfolded run(2)] by blast
  qed
qed simp

section \<open>A session without a total\<close>

text \<open>A session row that still waits, and its record that has ended.\<close>

definition left_running :: "string \<Rightarrow> nat \<Rightarrow> sync_db \<Rightarrow> bool" where
  "left_running sid rid db \<longleftrightarrow>
     (\<exists>s r. get_session_by_session_id sid db = Some s \<and> ss_status s = RUNNING \<and> ss_completed_at s = None
        \<and> get_record_by_id rid db = Some r \<and> sr_session r = sid \<and> sr_status r \<in> {COMPLETED, FAILED})"

lemma finish_left_running:
  assumes "valid_db db" "get_session_by_session_id sid db = Some s"
    and "ss_status s = RUNNING" "ss_completed_at s = None" "ss_total s = 0"
    and "get_record_by_id rid db = Some r" "sr_session r = sid" "sr_status r \<notin> {COMPLETED, FAILED}"
    and f: "\<And>x. sr_status (f x) = fin" "\<And>x. sr_session (f x) = sr_session x" "\<And>x. sr_id (f x) = sr_id x"
    and fin: "fin \<in> {COMPLETED, FAILED}"
    and u: "update_session_statistics sid now (write_record rid f db) = Inr db'"
  shows "left_running sid rid db'"
proof -
  let ?db = "write_record rid f db"
  let ?C = "count_records_by_status sid COMPLETED ?db" and ?F = "count_records_by_status sid FAILED ?db"
  have "?C + ?F \<noteq> 0"
    using finish_counts [OF assms(1,6), of sid f fin COMPLETED] finish_counts [OF assms(1,6), of sid f fin FAILED]
      assms(7,8) f fin by auto
  then have "row_status (update_statistics ?C ?F now s) = row_status s"
    using assms(3-5) by (simp add: row_status_def update_statistics_def Let_def)
  moreover have "db' = write_session sid (update_statistics ?C ?F now) ?db"
    using u by (simp add: update_session_statistics_def assms(2))
  ultimately show ?thesis
    using assms(2-8) f fin by (auto simp: left_running_def row_status_def)
qed

lemma sync_with_session_left_running:
  assumes v: "valid_db db" and fresh: "get_session_by_session_id sid db = None"
    and inst: "map_of (sdb_instances db) i = Some name"
  shows "left_running sid (sdb_next db) (sync_with_session err str sid i t u res now db)"
proof -
  let ?n = "sdb_next db"
  let ?s = "new_session sid t ''account'' u now" and ?r = "new_record ?n sid i name ''account''"
  let ?db1 = "db\<lparr>sdb_sessions := sdb_sessions db @ [?s]\<rparr>"
  let ?db2 = "?db1\<lparr>sdb_records := sdb_records db @ [?r], sdb_next := Suc ?n\<rparr>"
  have c: "create_session sid t ''account'' u now db = Inr ?db1"
    by (simp add: create_session_def fresh)
  have s1: "get_session_by_session_id sid ?db1 = Some ?s"
    using fresh by (simp add: get_session_by_session_id_def find_append new_session_def)
  have a: "add_instance_records sid [i] ''account'' ?db1 = Inr ([?r], ?db2)"
    by (simp add: add_instance_records_def missing_instances_def inst s1 Let_def)
  have v2: "valid_db ?db2" by (rule valid_add [OF a valid_create [OF c v]])
  have s2: "get_session_by_session_id sid ?db2 = Some ?s"
    using s1 by (simp add: get_session_by_session_id_def)
  have r2: "get_record_by_id ?n ?db2 = Some ?r"
  proof -
    have "find (\<lambda>r. sr_id r = ?n) (sdb_records db) = None"
      using v by (auto simp: find_None_iff valid_db_def)
    then show ?thesis by (simp add: get_record_by_id_def find_append new_record_def)
  qed
  let ?db3 = "write_record ?n (start_sync now) ?db2"
  have st: "start_instance_sync ?n now ?db2 = Inr ?db3"
    by (simp add: start_instance_sync_def r2)
  have v3: "valid_db ?db3" by (rule valid_start [OF st v2])
  have s3: "get_session_by_session_id sid ?db3 = Some ?s" by (simp add: s2)
  have r3: "get_record_by_id ?n ?db3 = Some (start_sync now ?r)" by (simp add: r2)
  have sr: "sr_session (start_sync now ?r) = sid" "sr_status (start_sync now ?r) \<notin> {COMPLETED, FAILED}"
    by (simp_all add: new_record_def)
  have ss: "ss_status ?s = RUNNING" "ss_completed_at ?s = None" "ss_total ?s = 0"
    by (simp_all add: new_session_def)
  note ends = finish_left_running [OF v3 s3 ss r3 sr]
  have complete: "left_running sid ?n db'" if "complete_instance_sync ?n stats d now ?db3 = Inr db'" for stats d db'
    using that r3 sr(1) ends [of "complete_sync stats d' now" COMPLETED for d'] 
    by (auto simp: complete_instance_sync_def split: sum.splits)
  have failing: "left_running sid ?n db'" if "fail_instance_sync ?n m d now ?db3 = Inr db'" for m d db'
    using that r3 sr(1) ends [of "fail_sync m d' now" FAILED for d']
    by (auto simp: fail_instance_sync_def split: sum.splits)
  have rec: "left_running sid ?n (record_failure ?n m now ?db3)" for m
  proof -
    have "\<exists>db'. fail_instance_sync ?n m O_none now ?db3 = Inr db'"
      using sr(1) by (simp add: fail_instance_sync_def r2 clean_sync_details_def update_session_statistics_def s2)
    then show ?thesis using failing by (auto simp: record_failure_def)
  qed
  have "sr_id (hd [?r]) = ?n" by (simp add: new_record_def)
  then show ?thesis
    using complete failing rec
    by (simp only: sync_with_session_def c a st sum.case prod.case Let_def)
       (cases res; simp split: sum.split)
qed


section \<open>Properties\<close>

text \<open>C34: whatever the service does, from any tables, a session row that is completed, failed or
  cancelled keeps its status and its completion time; it never disappears.\<close>

theorem terminal_session_is_final:
  assumes "session_step\<^sup>*\<^sup>* db db'" and "session_status db sid = Some (st, t)"
    and "st \<in> set session_status_terminal"
  shows "session_status db' sid = Some (st, t)"
  using assms(1,2) by (rule sessions.final_stays) (simp add: sessions.final_def assms(3))

definition empty_db :: "(int \<times> string) list \<Rightarrow> sync_db" where
  "empty_db instances = \<lparr>sdb_instances = instances, sdb_sessions = [], sdb_records = [], sdb_next = 0\<rparr>"

lemma valid_empty: "valid_db (empty_db instances)"
  by (simp add: valid_db_def empty_db_def)

theorem terminal_session_is_final_witness:
  "\<exists>db. session_status db ''s'' = Some (CANCELLED, Some 5)
    \<and> session_status (snd (cancel_session ''s'' 9 db)) ''s'' = Some (CANCELLED, Some 5)"
proof -
  let ?db = "(empty_db [])\<lparr>sdb_sessions := [(new_session ''s'' ''manual_task'' ''account'' None 1)
     \<lparr>ss_status := CANCELLED, ss_completed_at := Some 5\<rparr>]\<rparr>"
  have now: "session_status ?db ''s'' = Some (CANCELLED, Some 5)"
    by (simp add: session_status_def get_session_by_session_id_def new_session_def)
  have "session_step ?db (snd (cancel_session ''s'' 9 ?db))"
    by (rule session_step.cancel [OF surjective_pairing])
  then have "session_status (snd (cancel_session ''s'' 9 ?db)) ''s'' = Some (CANCELLED, Some 5)"
    by (intro terminal_session_is_final [OF r_into_rtranclp now]) simp_all
  with now show ?thesis by blast
qed

text \<open>C35: in every state the service reaches from empty tables, session ids and record ids are
  unique, every record belongs to a session, and every status is one the schema allows.\<close>

theorem session_tables_valid:
  assumes "session_step\<^sup>*\<^sup>* (empty_db instances) db"
  shows "valid_db db"
  using assms by (induction rule: rtranclp_induct) (simp_all add: valid_empty valid_step)

theorem session_tables_valid_witness:
  "valid_db (case create_session ''s'' ''manual_task'' ''account'' None 0 (empty_db []) of Inr db \<Rightarrow> db | Inl _ \<Rightarrow> undefined)"
proof -
  let ?db = "(empty_db [])\<lparr>sdb_sessions := [new_session ''s'' ''manual_task'' ''account'' None 0]\<rparr>"
  have c: "create_session ''s'' ''manual_task'' ''account'' None 0 (empty_db []) = Inr ?db"
    by (simp add: create_session_def get_session_by_session_id_def empty_db_def)
  have "valid_db ?db"
    by (rule session_tables_valid [OF r_into_rtranclp [of session_step, OF session_step.create [OF c]]])
  then show ?thesis by (simp add: c)
qed

text \<open>C33: processing a batch. When the distinct records of a running session, none of them ended
  yet, are started and then completed or failed in any order, every call succeeds; the
  session counts exactly the completed and the failed ones; it stays running as long as
  fewer than its total have ended, and with the last one it becomes failed if any failed
  and completed otherwise.\<close>

theorem batch_ends_session:
  assumes "valid_db db" and "get_session_by_session_id sid db = Some s" and "ss_status s = RUNNING"
    and "distinct (map fst ocs)" and "ocs \<noteq> []" and "length ocs \<le> ss_total s"
    and "\<forall>r \<in> set (list_records_by_session sid db). sr_status r \<notin> {COMPLETED, FAILED}"
    and "\<forall>oc \<in> set ocs. (\<exists>r. get_record_by_id (fst oc) db = Some r \<and> sr_session r = sid)
           \<and> (\<exists>d. clean_sync_details (outcome_details oc) = Inr d)"
  shows "\<exists>db' s'. process_batch ocs now db = Inr db' \<and> get_session_by_session_id sid db' = Some s'
    \<and> ss_successful s' = length (filter outcome_ok ocs)
    \<and> ss_failed s' = length (filter (Not \<circ> outcome_ok) ocs)
    \<and> ss_status s' = (if length ocs < ss_total s then RUNNING
         else if \<exists>oc \<in> set ocs. \<not> outcome_ok oc then FAILED else COMPLETED)"
proof -
  have open_r: "sr_status r \<notin> {COMPLETED, FAILED}" if "r \<in> set (sdb_records db)" "sr_session r = sid" for r
    using assms(7) that by (simp add: list_records_by_session_def)
  then have none: "count_records_by_status sid COMPLETED db = 0" "count_records_by_status sid FAILED db = 0"
    by (auto simp: count_records_by_status_def filter_empty_conv)
  have recs: "\<exists>r. get_record_by_id (fst oc) db = Some r \<and> sr_session r = sid \<and> sr_status r \<notin> {COMPLETED, FAILED}"
    if "oc \<in> set ocs" for oc
    using assms(8) that open_r by (fastforce dest: get_record_Some)
  have det: "\<exists>d. clean_sync_details (outcome_details oc) = Inr d" if "oc \<in> set ocs" for oc
    using assms(8) that by blast
  have sum: "length (filter outcome_ok ocs) + length (filter (Not \<circ> outcome_ok) ocs) = length ocs"
    using sum_length_filter_compl [of outcome_ok ocs] by (simp add: o_def)
  have some: "0 < length (filter (Not \<circ> outcome_ok) ocs) \<longleftrightarrow> (\<exists>oc \<in> set ocs. \<not> outcome_ok oc)"
    by (auto simp: filter_empty_conv)
  obtain db' s' where p: "process_batch ocs now db = Inr db'" "get_session_by_session_id sid db' = Some s'"
      "ss_successful s' = length (filter outcome_ok ocs)" "ss_failed s' = length (filter (Not \<circ> outcome_ok) ocs)"
      "ss_status s' = (if ss_successful s' + ss_failed s' < ss_total s then RUNNING
         else if 0 < ss_failed s' then FAILED else COMPLETED)"
    using process_batch_counts [OF assms(1-4) recs det _ assms(5), of now] assms(6) none by auto
  have "ss_status s' = (if length ocs < ss_total s then RUNNING
         else if \<exists>oc \<in> set ocs. \<not> outcome_ok oc then FAILED else COMPLETED)"
    unfolding p(5) p(3) p(4) sum some ..
  with p(1-4) show ?thesis by blast
qed

definition two_instances :: sync_db where
  "two_instances = (case create_session ''s'' ''manual_task'' ''account'' None 0 (empty_db [(7, ''a''), (8, ''b'')]) of
     Inr db \<Rightarrow> (case create_records ''s'' [7, 8] ''account'' db of Inr (rs, db') \<Rightarrow> db' | Inl _ \<Rightarrow> db)
   | Inl _ \<Rightarrow> empty_db [])"

theorem batch_ends_session_witness:
  "\<exists>db' s'. process_batch [(1, Inl (\<lparr>st_synced = 3, st_created = 0, st_updated = 0, st_deleted = 0\<rparr>, O_none)),
       (0, Inr (''timeout'', O_none))] 10 two_instances = Inr db'
     \<and> get_session_by_session_id ''s'' db' = Some s' \<and> ss_successful s' = 1 \<and> ss_failed s' = 1 \<and> ss_status s' = FAILED"
proof -
  let ?ocs = "[(1, Inl (\<lparr>st_synced = 3, st_created = 0, st_updated = 0, st_deleted = 0\<rparr>, O_none)), (0, Inr (''timeout'', O_none))] :: instance_outcome list"
  have eval: "two_instances = \<lparr>sdb_instances = [(7, ''a''), (8, ''b'')],
      sdb_sessions = [(new_session ''s'' ''manual_task'' ''account'' None 0)\<lparr>ss_total := 2\<rparr>],
      sdb_records = [new_record 0 ''s'' 7 ''a'' ''account'', new_record 1 ''s'' 8 ''b'' ''account''], sdb_next = 2\<rparr>"
    by (simp add: two_instances_def create_session_def create_records_def add_instance_records_def
        missing_instances_def empty_db_def get_session_by_session_id_def write_session_def new_session_def Let_def
        numeral_2_eq_2)
  have "valid_db two_instances"
    by (simp add: eval valid_db_def new_session_def new_record_def session_status_all_def)
  moreover have "get_session_by_session_id ''s'' two_instances = Some ((new_session ''s'' ''manual_task'' ''account'' None 0)\<lparr>ss_total := 2\<rparr>)"
    by (simp add: eval get_session_by_session_id_def new_session_def)
  moreover note batch_ends_session [of two_instances "''s''" _ ?ocs 10]
  ultimately show ?thesis
    by (simp add: eval new_session_def new_record_def list_records_by_session_def get_record_by_id_def
        clean_sync_details_def outcome_details_def outcome_ok_def)
qed

text \<open>the session \<^verbatim>\<open>_sync_with_session\<close> opens for one instance never gets a total, so it stays
  running for ever: whatever the synchronisation of the instance ended with, its only
  record has ended while the session is still running without a completion time.\<close>

theorem private_session_never_ends:
  assumes "valid_db db" and "get_session_by_session_id sid db = None"
    and "map_of (sdb_instances db) i = Some name"
  shows "\<exists>s r. get_session_by_session_id sid (sync_with_session err str sid i t u res now db) = Some s
     \<and> ss_status s = RUNNING \<and> ss_completed_at s = None
     \<and> get_record_by_id (sdb_next db) (sync_with_session err str sid i t u res now db) = Some r
     \<and> sr_session r = sid \<and> sr_status r \<in> {COMPLETED, FAILED}"
  using sync_with_session_left_running [OF assms] by (simp add: left_running_def)

theorem private_session_never_ends_witness:
  "\<exists>s r. get_session_by_session_id ''s'' (sync_with_session (\<lambda>_. []) (\<lambda>_. []) ''s'' 7 ''scheduled_task'' None
        (Result_ok \<lparr>st_synced = 3, st_created = 0, st_updated = 0, st_deleted = 0\<rparr> []) 1 (empty_db [(7, ''a'')])) = Some s
     \<and> ss_status s = RUNNING \<and> ss_completed_at s = None
     \<and> get_record_by_id (sdb_next (empty_db [(7, ''a'')])) (sync_with_session (\<lambda>_. []) (\<lambda>_. []) ''s'' 7 ''scheduled_task'' None
        (Result_ok \<lparr>st_synced = 3, st_created = 0, st_updated = 0, st_deleted = 0\<rparr> []) 1 (empty_db [(7, ''a'')])) = Some r
     \<and> sr_session r = ''s'' \<and> sr_status r \<in> {COMPLETED, FAILED}"
  by (rule private_session_never_ends [OF valid_empty])
     (simp_all add: empty_db_def get_session_by_session_id_def)

text \<open>details written to the database are JSON exactly when the document uses only string keys
  and lists: dates at any depth are converted, but a tuple or a set is left as it is, with
  any date inside it.\<close>

theorem cleaned_details_json_iff:
  assumes "clean_sync_details details = Inr v"
  shows "is_json v \<longleftrightarrow> list_shaped details"
proof -
  have "v = clean_value details"
    using assms by (cases details rule: normalize_sync_details_v1.cases)
      (auto simp: clean_sync_details_def split: pyobj.splits if_splits)
  then show ?thesis by (simp add: clean_value_json_iff)
qed

theorem cleaned_details_json_iff_witness:
  "\<exists>v. clean_sync_details (O_dict [(K_str ''version'', O_int 1), (K_str ''at'', O_tuple [O_date ''2024-01-01''])]) = Inr v
     \<and> \<not> is_json v"
proof -
  let ?d = "O_dict [(K_str ''version'', O_int 1), (K_str ''at'', O_tuple [O_date ''2024-01-01''])]"
  obtain v where v: "clean_sync_details ?d = Inr v"
    by (simp add: clean_sync_details_def odict_get_def SYNC_DETAILS_VERSION_V1_def)
  then have "\<not> is_json v" by (subst cleaned_details_json_iff [OF v]) simp
  with v show ?thesis by blast
qed

end
