(* ===== verification/Task_Runs.thy ===== *)
theory Task_Runs
  imports Py_Objects Status_Machine
begin

text \<open>
  The task run centre: \<^verbatim>\<open>app/services/task_runs/task_runs_write_service.py\<close> over
  \<^verbatim>\<open>app/models/task_run.py\<close>, \<^verbatim>\<open>app/models/task_run_item.py\<close> and
  \<^verbatim>\<open>app/repositories/task_runs_repository.py\<close>. The two tables are lists of rows in
  insertion order. An operation that raises gives \<^verbatim>\<open>Inl\<close>: the service leaves commit and
  rollback to its caller. \<^verbatim>\<open>now\<close> is the reading of the clock during the operation.

  The validation of a summary is pydantic's: \<^verbatim>\<open>summary_model json v\<close> stands for
  \<^verbatim>\<open>TaskRunSummaryV1.model_validate(v)\<close> followed by \<^verbatim>\<open>model_dump\<close> (\<^verbatim>\<open>json\<close> tells the
  dump mode) and gives the \<^verbatim>\<open>ext.type\<close> of the model and the dumped document, or \<^verbatim>\<open>None\<close>
  when the document is refused.
\<close>

section \<open>Rows and tables\<close>

record task_run =
  tr_id :: string
  tr_task_key :: string
  tr_task_name :: string
  tr_category :: string
  tr_trigger :: string
  tr_status :: string
  tr_started_at :: int
  tr_completed_at :: "int option"
  tr_created_by :: "int option"
  tr_total :: nat
  tr_completed :: nat
  tr_failed :: nat
  tr_summary :: pyobj
  tr_result_url :: "string option"
  tr_error :: "string option"

record task_item =
  ti_run :: string
  ti_type :: string
  ti_key :: string
  ti_name :: "string option"
  ti_instance :: "int option"
  ti_status :: string
  ti_started_at :: "int option"
  ti_completed_at :: "int option"
  ti_metrics :: pyobj
  ti_details :: pyobj
  ti_error :: "string option"

record item_init =
  ii_type :: string
  ii_key :: string
  ii_name :: "string option"
  ii_instance :: "int option"

record run_db =
  rdb_runs :: "task_run list"
  rdb_items :: "task_item list"

datatype run_error = Run_not_found | Item_not_found | Unknown_run_id string | Summary_invalid | Summary_type
  | Duplicate_run | Duplicate_item

type_synonym summary_model = "bool \<Rightarrow> pyobj \<Rightarrow> (string \<times> pyobj) option"

section \<open>The repository\<close>

definition find_run :: "string \<Rightarrow> run_db \<Rightarrow> task_run option" where
  "find_run rid db = find (\<lambda>r. tr_id r = rid) (rdb_runs db)"

definition get_run :: "string \<Rightarrow> run_db \<Rightarrow> run_error + task_run" where
  "get_run rid db = (case find_run rid db of None \<Rightarrow> Inl Run_not_found | Some r \<Rightarrow> Inr r)"

definition item_id :: "task_item \<Rightarrow> string \<times> string \<times> string" where
  "item_id it = (ti_run it, ti_type it, ti_key it)"

definition find_item :: "string \<times> string \<times> string \<Rightarrow> run_db \<Rightarrow> task_item option" where
  "find_item k db = find (\<lambda>it. item_id it = k) (rdb_items db)"

definition get_item :: "string \<Rightarrow> string \<Rightarrow> string \<Rightarrow> run_db \<Rightarrow> run_error + task_item" where
  "get_item rid t k db = (case find_item (rid, t, k) db of None \<Rightarrow> Inl Item_not_found | Some it \<Rightarrow> Inr it)"

definition list_run_items :: "string \<Rightarrow> run_db \<Rightarrow> task_item list" where
  "list_run_items rid db = filter (\<lambda>it. ti_run it = rid) (rdb_items db)"

text \<open>Writing back changed objects.\<close>

definition write_run :: "string \<Rightarrow> (task_run \<Rightarrow> task_run) \<Rightarrow> run_db \<Rightarrow> run_db" where
  "write_run rid f db = db\<lparr>rdb_runs := map (\<lambda>r. if tr_id r = rid then f r else r) (rdb_runs db)\<rparr>"

definition write_item :: "string \<times> string \<times> string \<Rightarrow> (task_item \<Rightarrow> task_item) \<Rightarrow> run_db \<Rightarrow> run_db" where
  "write_item k f db = db\<lparr>rdb_items := map (\<lambda>it. if item_id it = k then f it else it) (rdb_items db)\<rparr>"

definition write_open_items :: "string \<Rightarrow> (task_item \<Rightarrow> task_item) \<Rightarrow> run_db \<Rightarrow> run_db" where
  "write_open_items rid f db = db\<lparr>rdb_items :=
     map (\<lambda>it. if ti_run it = rid \<and> ti_status it \<in> set task_status_in_progress then f it else it) (rdb_items db)\<rparr>"

section \<open>Summaries\<close>

definition summary_payload :: "string \<Rightarrow> pyobj" where
  "summary_payload task_key = O_dict
     [(K_str ''version'', O_int 1),
      (K_str ''common'', O_dict
        [(K_str ''inputs'', O_dict []), (K_str ''scope'', O_dict []), (K_str ''metrics'', O_list []),
         (K_str ''highlights'', O_list []), (K_str ''flags'', O_dict [])]),
      (K_str ''ext'', O_dict [(K_str ''type'', O_str task_key), (K_str ''version'', O_int 1), (K_str ''data'', O_dict [])])]"

definition summary_base :: "summary_model \<Rightarrow> string \<Rightarrow> run_error + pyobj" where
  "summary_base M task_key = (case M True (summary_payload task_key) of
      None \<Rightarrow> Inl Summary_invalid
    | Some (t, v) \<Rightarrow> Inr v)"

definition validated_summary :: "summary_model \<Rightarrow> string \<Rightarrow> pyobj \<Rightarrow> run_error + pyobj" where
  "validated_summary M task_key summary = (case M False summary of
      None \<Rightarrow> Inl Summary_invalid
    | Some (t, v) \<Rightarrow> if t \<noteq> task_key then Inl Summary_type else Inr v)"

section \<open>The service\<close>

definition start_run ::
  "summary_model \<Rightarrow> string \<Rightarrow> string \<Rightarrow> string \<Rightarrow> string \<Rightarrow> string \<Rightarrow> int option \<Rightarrow> pyobj option \<Rightarrow> string option
     \<Rightarrow> int \<Rightarrow> run_db \<Rightarrow> run_error + run_db" where
  "start_run M run_id task_key task_name category trigger created_by summary url now db =
     (case (case summary of None \<Rightarrow> summary_base M task_key | Some v \<Rightarrow> validated_summary M task_key v) of
        Inl e \<Rightarrow> Inl e
      | Inr v \<Rightarrow>
          if find_run run_id db \<noteq> None then Inl Duplicate_run
          else Inr (db\<lparr>rdb_runs := rdb_runs db @
            [\<lparr>tr_id = run_id, tr_task_key = task_key, tr_task_name = task_name, tr_category = category,
              tr_trigger = trigger, tr_status = RUNNING, tr_started_at = now, tr_completed_at = None,
              tr_created_by = created_by, tr_total = 0, tr_completed = 0, tr_failed = 0,
              tr_summary = ensure_json_serializable v, tr_result_url = url, tr_error = None\<rparr>]\<rparr>))"

text \<open>\<^verbatim>\<open>fresh\<close> is the UUID drawn when a run is started.\<close>

definition resolve_or_start_run ::
  "summary_model \<Rightarrow> string option \<Rightarrow> string \<Rightarrow> string \<Rightarrow> string \<Rightarrow> string \<Rightarrow> string \<Rightarrow> int option \<Rightarrow> pyobj option
     \<Rightarrow> string option \<Rightarrow> int \<Rightarrow> run_db \<Rightarrow> run_error + (string \<times> run_db)" where
  "resolve_or_start_run M run_id fresh task_key task_name category trigger created_by summary url now db =
     (if run_id \<noteq> None \<and> run_id \<noteq> Some [] then
        (case find_run (the run_id) db of
           None \<Rightarrow> Inl (Unknown_run_id (the run_id))
         | Some r \<Rightarrow> Inr (the run_id, db))
      else (case start_run M fresh task_key task_name category trigger created_by summary url now db of
          Inl e \<Rightarrow> Inl e
        | Inr db' \<Rightarrow> Inr (fresh, db')))"

definition new_item :: "string \<Rightarrow> item_init \<Rightarrow> task_item" where
  "new_item rid i = \<lparr>ti_run = rid, ti_type = ii_type i, ti_key = ii_key i, ti_name = ii_name i,
     ti_instance = ii_instance i, ti_status = PENDING, ti_started_at = None, ti_completed_at = None,
     ti_metrics = O_none, ti_details = O_none, ti_error = None\<rparr>"

text \<open>The unique constraint on run, type and key is checked when rows are inserted.\<close>

definition init_items :: "string \<Rightarrow> item_init list \<Rightarrow> run_db \<Rightarrow> run_error + run_db" where
  "init_items rid items db = (case get_run rid db of
      Inl e \<Rightarrow> Inl e
    | Inr r \<Rightarrow>
        let to_create = map (new_item rid) items
        in if distinct (map item_id (rdb_items db @ to_create))
           then Inr (write_run rid (\<lambda>r. r\<lparr>tr_total := length to_create\<rparr>)
                  (db\<lparr>rdb_items := rdb_items db @ to_create\<rparr>))
           else Inl Duplicate_item)"

text \<open>The common frame of the four operations on an item: the run and the item must exist; a
  guard may refuse the change.\<close>

definition change_item ::
  "string \<Rightarrow> string \<Rightarrow> string \<Rightarrow> (task_item \<Rightarrow> bool) \<Rightarrow> (task_item \<Rightarrow> task_item) \<Rightarrow> run_db \<Rightarrow> run_error + run_db" where
  "change_item rid t k refuses f db = (case get_run rid db of
      Inl e \<Rightarrow> Inl e
    | Inr r \<Rightarrow> (case get_item rid t k db of
        Inl e \<Rightarrow> Inl e
      | Inr it \<Rightarrow> if refuses it then Inr db else Inr (write_item (rid, t, k) f db)))"

definition start_item :: "string \<Rightarrow> string \<Rightarrow> string \<Rightarrow> int \<Rightarrow> run_db \<Rightarrow> run_error + run_db" where
  "start_item rid t k now = change_item rid t k
     (\<lambda>it. ti_status it \<in> set task_status_terminal)
     (\<lambda>it. it\<lparr>ti_status := RUNNING,
              ti_started_at := (case ti_started_at it of None \<Rightarrow> Some now | Some x \<Rightarrow> Some x)\<rparr>)"

definition json_or :: "pyobj option \<Rightarrow> pyobj \<Rightarrow> pyobj" where
  "json_or new old = (case new of None \<Rightarrow> old | Some v \<Rightarrow> ensure_json_serializable v)"

definition complete_item ::
  "string \<Rightarrow> string \<Rightarrow> string \<Rightarrow> pyobj option \<Rightarrow> pyobj option \<Rightarrow> int \<Rightarrow> run_db \<Rightarrow> run_error + run_db" where
  "complete_item rid t k metrics details now = change_item rid t k
     (\<lambda>it. ti_status it \<in> {FAILED, CANCELLED})
     (\<lambda>it. it\<lparr>ti_status := COMPLETED, ti_completed_at := Some now,
              ti_metrics := json_or metrics (ti_metrics it), ti_details := json_or details (ti_details it)\<rparr>)"

definition fail_item ::
  "string \<Rightarrow> string \<Rightarrow> string \<Rightarrow> string \<Rightarrow> pyobj option \<Rightarrow> int \<Rightarrow> run_db \<Rightarrow> run_error + run_db" where
  "fail_item rid t k msg details now = change_item rid t k
     (\<lambda>it. ti_status it = CANCELLED)
     (\<lambda>it. it\<lparr>ti_status := FAILED, ti_completed_at := Some now, ti_error := Some msg,
              ti_details := json_or details (ti_details it)\<rparr>)"

definition cancel_item :: "string \<Rightarrow> string \<Rightarrow> string \<Rightarrow> pyobj option \<Rightarrow> int \<Rightarrow> run_db \<Rightarrow> run_error + run_db" where
  "cancel_item rid t k details now = change_item rid t k
     (\<lambda>it. ti_status it \<in> set task_status_terminal)
     (\<lambda>it. it\<lparr>ti_status := CANCELLED, ti_completed_at := Some now, ti_details := json_or details (ti_details it)\<rparr>)"

definition finalize_update :: "task_item list \<Rightarrow> int \<Rightarrow> task_run \<Rightarrow> task_run" where
  "finalize_update items now r =
     (let completed = length (filter (\<lambda>it. ti_status it = COMPLETED) items);
          failed = length (filter (\<lambda>it. ti_status it \<in> {FAILED, CANCELLED}) items)
      in r\<lparr>tr_total := length items, tr_completed := completed, tr_failed := failed,
           tr_status := (if tr_status r \<notin> {CANCELLED, FAILED}
             then (if 0 < failed then FAILED else COMPLETED) else tr_status r),
           tr_completed_at := Some now\<rparr>)"

definition finalize_run :: "string \<Rightarrow> int \<Rightarrow> run_db \<Rightarrow> run_error + run_db" where
  "finalize_run rid now db = (case get_run rid db of
      Inl e \<Rightarrow> Inl e
    | Inr r \<Rightarrow> Inr (write_run rid (finalize_update (list_run_items rid db) now) db))"

definition is_cancelled :: "string \<Rightarrow> run_db \<Rightarrow> run_error + bool" where
  "is_cancelled rid db = (case get_run rid db of Inl e \<Rightarrow> Inl e | Inr r \<Rightarrow> Inr (tr_status r = CANCELLED))"

definition write_summary :: "summary_model \<Rightarrow> string \<Rightarrow> pyobj \<Rightarrow> run_db \<Rightarrow> run_error + (bool \<times> run_db)" where
  "write_summary M rid summary db = (case get_run rid db of
      Inl e \<Rightarrow> Inl e
    | Inr r \<Rightarrow>
        if tr_status r = CANCELLED then Inr (False, db)
        else (case validated_summary M (tr_task_key r) summary of
            Inl e \<Rightarrow> Inl e
          | Inr v \<Rightarrow> Inr (True, write_run rid (\<lambda>r. r\<lparr>tr_summary := ensure_json_serializable v\<rparr>) db)))"

definition write_summary_opt :: "summary_model \<Rightarrow> string \<Rightarrow> pyobj option \<Rightarrow> run_db \<Rightarrow> run_error + run_db" where
  "write_summary_opt M rid summary db = (case summary of
      None \<Rightarrow> Inr db
    | Some v \<Rightarrow> (case write_summary M rid v db of Inl e \<Rightarrow> Inl e | Inr (_, db') \<Rightarrow> Inr db'))"

definition mark_run_failed :: "summary_model \<Rightarrow> string \<Rightarrow> string \<Rightarrow> pyobj option \<Rightarrow> int \<Rightarrow> run_db \<Rightarrow> run_error + run_db" where
  "mark_run_failed M rid msg summary now db = (case get_run rid db of
      Inl e \<Rightarrow> Inl e
    | Inr r \<Rightarrow>
        if tr_status r = CANCELLED then Inr db
        else (case write_summary_opt M rid summary
                (write_open_items rid (\<lambda>it. it\<lparr>ti_status := FAILED, ti_completed_at := Some now, ti_error := Some msg\<rparr>) db) of
            Inl e \<Rightarrow> Inl e
          | Inr db1 \<Rightarrow> finalize_run rid now (write_run rid (\<lambda>r. r\<lparr>tr_status := FAILED, tr_error := Some msg\<rparr>) db1)))"

definition finalize_run_with_summary ::
  "summary_model \<Rightarrow> string \<Rightarrow> pyobj option \<Rightarrow> string option \<Rightarrow> string option \<Rightarrow> bool \<Rightarrow> int \<Rightarrow> run_db \<Rightarrow> run_error + run_db" where
  "finalize_run_with_summary M rid summary status_override msg clear_error now db = (case get_run rid db of
      Inl e \<Rightarrow> Inl e
    | Inr r \<Rightarrow>
        if tr_status r = CANCELLED then Inr db
        else (case write_summary_opt M rid summary db of
            Inl e \<Rightarrow> Inl e
          | Inr db1 \<Rightarrow> (case finalize_run rid now db1 of
              Inl e \<Rightarrow> Inl e
            | Inr db2 \<Rightarrow> Inr (write_run rid (\<lambda>r. r\<lparr>
                tr_status := (case status_override of None \<Rightarrow> tr_status r | Some st \<Rightarrow> st),
                tr_error := (case msg of Some m \<Rightarrow> Some m | None \<Rightarrow> if clear_error then None else tr_error r)\<rparr>) db2))))"

definition cancel_run :: "string \<Rightarrow> int \<Rightarrow> run_db \<Rightarrow> run_error + (bool \<times> run_db)" where
  "cancel_run rid now db = (case get_run rid db of
      Inl e \<Rightarrow> Inl e
    | Inr r \<Rightarrow>
        if tr_status r \<noteq> RUNNING then Inr (False, db)
        else Inr (True, write_open_items rid (\<lambda>it. it\<lparr>ti_status := CANCELLED, ti_completed_at := Some now\<rparr>)
               (write_run rid (\<lambda>r. r\<lparr>tr_status := CANCELLED, tr_completed_at := Some now\<rparr>) db)))"

section \<open>Rows after a write\<close>

lemma find_run_write [simp]:
  "(\<And>r. tr_id (f r) = tr_id r) \<Longrightarrow>
   find_run k (write_run rid f db) = (if k = rid then map_option f (find_run k db) else find_run k db)"
  by (simp add: find_run_def write_run_def find_write)

lemma find_item_write [simp]:
  "(\<And>it. item_id (f it) = item_id it) \<Longrightarrow>
   find_item k (write_item j f db) = (if k = j then map_option f (find_item k db) else find_item k db)"
  by (simp add: find_item_def write_item_def find_write)

lemma find_item_write_open [simp]:
  "(\<And>it. item_id (f it) = item_id it) \<Longrightarrow>
   find_item k (write_open_items rid f db) =
     map_option (\<lambda>it. if ti_run it = rid \<and> ti_status it \<in> set task_status_in_progress then f it else it) (find_item k db)"
  by (simp add: find_item_def write_open_items_def find_map)

lemma frame [simp]:
  "find_run k (write_item j g db) = find_run k db" "find_run k (write_open_items rid g db) = find_run k db"
  "find_item j (write_run rid f db) = find_item j db" "rdb_items (write_run rid f db) = rdb_items db"
  "rdb_runs (write_item j g db) = rdb_runs db" "rdb_runs (write_open_items rid g db) = rdb_runs db"
  "list_run_items k (write_run rid f db) = list_run_items k db"
  by (simp_all add: find_run_def find_item_def write_item_def write_open_items_def write_run_def list_run_items_def)

lemma finalize_update_id [simp]: "tr_id (finalize_update items now r) = tr_id r"
  by (simp add: finalize_update_def Let_def)

lemma get_run_simps [simp]: "get_run rid db = Inr r \<longleftrightarrow> find_run rid db = Some r"
  by (simp add: get_run_def split: option.splits)

section \<open>The step relation\<close>

inductive run_step :: "summary_model \<Rightarrow> run_db \<Rightarrow> run_db \<Rightarrow> bool" for M where
  start: "start_run M rid tk nm c tg u sm url now db = Inr db' \<Longrightarrow> run_step M db db'"
| resolve: "resolve_or_start_run M rid fresh tk nm c tg u sm url now db = Inr (k, db') \<Longrightarrow> run_step M db db'"
| init: "init_items rid is db = Inr db' \<Longrightarrow> run_step M db db'"
| start_it: "start_item rid t k now db = Inr db' \<Longrightarrow> run_step M db db'"
| complete_it: "complete_item rid t k m d now db = Inr db' \<Longrightarrow> run_step M db db'"
| fail_it: "fail_item rid t k msg d now db = Inr db' \<Longrightarrow> run_step M db db'"
| cancel_it: "cancel_item rid t k d now db = Inr db' \<Longrightarrow> run_step M db db'"
| finalize: "finalize_run rid now db = Inr db' \<Longrightarrow> run_step M db db'"
| summary: "write_summary M rid v db = Inr (b, db') \<Longrightarrow> run_step M db db'"
| mark_failed: "mark_run_failed M rid msg v now db = Inr db' \<Longrightarrow> run_step M db db'"
| finalize_summary: "finalize_run_with_summary M rid v ov msg c now db = Inr db' \<Longrightarrow> run_step M db db'"
| cancel: "cancel_run rid now db = Inr (b, db') \<Longrightarrow> run_step M db db'"

section \<open>Runs and items move along their machines\<close>

definition run_status :: "run_db \<Rightarrow> string \<Rightarrow> string option" where
  "run_status db rid = map_option tr_status (find_run rid db)"

definition run_moves :: "string \<Rightarrow> string \<Rightarrow> bool" where
  "run_moves x y \<longleftrightarrow> x \<noteq> CANCELLED"

definition item_status :: "run_db \<Rightarrow> string \<times> string \<times> string \<Rightarrow> string option" where
  "item_status db k = map_option ti_status (find_item k db)"

definition item_moves :: "string \<Rightarrow> string \<Rightarrow> bool" where
  "item_moves x y \<longleftrightarrow>
     (y = RUNNING \<and> x \<notin> set task_status_terminal) \<or> (y = COMPLETED \<and> x \<notin> {FAILED, CANCELLED})
     \<or> (y = FAILED \<and> x \<noteq> CANCELLED) \<or> (y = CANCELLED \<and> x \<notin> set task_status_terminal)"

text \<open>A change of the tables that respects both machines.\<close>

definition lawful :: "run_db \<Rightarrow> run_db \<Rightarrow> bool" where
  "lawful db db' \<longleftrightarrow>
     (\<forall>rid x. run_status db rid = Some x \<longrightarrow> (\<exists>y. run_status db' rid = Some y \<and> (y = x \<or> run_moves x y)))
     \<and> (\<forall>k x. item_status db k = Some x \<longrightarrow> (\<exists>y. item_status db' k = Some y \<and> (y = x \<or> item_moves x y)))"

lemma lawful_refl [simp]: "lawful db db"
  by (simp add: lawful_def)

lemma lawful_runs:
  assumes "\<And>k. find_item k db' = find_item k db"
    and "\<And>k r. find_run k db = Some r \<Longrightarrow> \<exists>r'. find_run k db' = Some r' \<and> (tr_status r' = tr_status r \<or> tr_status r \<noteq> CANCELLED)"
  shows "lawful db db'"
  using assms by (fastforce simp: lawful_def run_status_def item_status_def run_moves_def)

lemma lawful_items:
  assumes "\<And>k. find_run k db' = find_run k db"
    and "\<And>k it. find_item k db = Some it \<Longrightarrow>
       \<exists>it'. find_item k db' = Some it' \<and> (ti_status it' = ti_status it \<or> item_moves (ti_status it) (ti_status it'))"
  shows "lawful db db'"
  using assms by (fastforce simp: lawful_def run_status_def item_status_def)

lemma lawful_start: "start_run M rid tk nm c tg u sm url now db = Inr db' \<Longrightarrow> lawful db db'"
  by (rule lawful_runs)
     (auto simp: start_run_def find_item_def find_run_def find_append split: sum.splits if_splits option.splits)

lemma lawful_resolve:
  "resolve_or_start_run M rid fresh tk nm c tg u sm url now db = Inr (k, db') \<Longrightarrow> lawful db db'"
  by (auto simp: resolve_or_start_run_def intro: lawful_start split: sum.splits if_splits option.splits)

lemma lawful_change:
  assumes "change_item rid t k refuses f db = Inr db'" "\<And>it. item_id (f it) = item_id it"
    and "\<And>it. \<not> refuses it \<Longrightarrow> item_moves (ti_status it) (ti_status (f it))"
  shows "lawful db db'"
proof (cases "db' = db")
  case False
  with assms(1) obtain it where it: "find_item (rid, t, k) db = Some it" "\<not> refuses it"
    "db' = write_item (rid, t, k) f db"
    by (auto simp: change_item_def get_item_def split: sum.splits option.splits if_splits)
  show ?thesis
  proof (rule lawful_items)
    fix j it' assume "find_item j db = Some it'"
    then show "\<exists>it''. find_item j db' = Some it'' \<and> (ti_status it'' = ti_status it' \<or> item_moves (ti_status it') (ti_status it''))"
      using it assms(2,3) by (cases "j = (rid, t, k)") auto
  qed (simp add: it(3))
qed simp

lemma lawful_item_ops:
  "start_item rid t k now db = Inr db' \<Longrightarrow> lawful db db'"
  "complete_item rid t k m d now db = Inr db' \<Longrightarrow> lawful db db'"
  "fail_item rid t k msg d now db = Inr db' \<Longrightarrow> lawful db db'"
  "cancel_item rid t k d now db = Inr db' \<Longrightarrow> lawful db db'"
  unfolding start_item_def complete_item_def fail_item_def cancel_item_def
  by (erule lawful_change; auto simp: item_moves_def item_id_def)+

lemma run_moves_trans: "y = x \<or> run_moves x y \<Longrightarrow> z = y \<or> run_moves y z \<Longrightarrow> z = x \<or> run_moves x z"
  by (auto simp: run_moves_def)

lemma item_moves_trans: "y = x \<or> item_moves x y \<Longrightarrow> z = y \<or> item_moves y z \<Longrightarrow> z = x \<or> item_moves x z"
  by (auto simp: item_moves_def task_status_terminal_def)

lemma lawful_trans:
  assumes "lawful db db1" "lawful db1 db2"
  shows "lawful db db2"
  unfolding lawful_def
proof (intro conjI allI impI)
  fix rid x assume "run_status db rid = Some x"
  then obtain y z where "run_status db2 rid = Some z" "y = x \<or> run_moves x y" "z = y \<or> run_moves y z"
    using assms unfolding lawful_def by meson
  then show "\<exists>y. run_status db2 rid = Some y \<and> (y = x \<or> run_moves x y)"
    using run_moves_trans by blast
next
  fix k x assume "item_status db k = Some x"
  then obtain y z where "item_status db2 k = Some z" "y = x \<or> item_moves x y" "z = y \<or> item_moves y z"
    using assms unfolding lawful_def by meson
  then show "\<exists>y. item_status db2 k = Some y \<and> (y = x \<or> item_moves x y)"
    using item_moves_trans by blast
qed

lemma lawful_write_run:
  assumes "\<And>r. tr_id (f r) = tr_id r"
    and "\<And>r. find_run rid db = Some r \<Longrightarrow> tr_status (f r) = tr_status r \<or> tr_status r \<noteq> CANCELLED"
  shows "lawful db (write_run rid f db)"
proof (rule lawful_runs)
  fix k r assume "find_run k db = Some r"
  then show "\<exists>r'. find_run k (write_run rid f db) = Some r' \<and> (tr_status r' = tr_status r \<or> tr_status r \<noteq> CANCELLED)"
    using assms by (cases "k = rid") auto
qed simp

lemma lawful_write_open:
  assumes "\<And>it. item_id (f it) = item_id it" "\<And>it. ti_status (f it) \<in> {FAILED, CANCELLED}"
  shows "lawful db (write_open_items rid f db)"
proof (rule lawful_items)
  fix k it assume "find_item k db = Some it"
  then show "\<exists>it'. find_item k (write_open_items rid f db) = Some it'
      \<and> (ti_status it' = ti_status it \<or> item_moves (ti_status it) (ti_status it'))"
    using assms(1) assms(2) [of it]
    by (auto simp: item_moves_def task_status_in_progress_def sync_status_active_def task_status_terminal_def)
qed simp

lemma lawful_init: "init_items rid is db = Inr db' \<Longrightarrow> lawful db db'"
proof -
  assume i: "init_items rid is db = Inr db'"
  let ?db = "db\<lparr>rdb_items := rdb_items db @ map (new_item rid) is\<rparr>"
  have "lawful db ?db"
    by (rule lawful_items) (auto simp: find_run_def find_item_def find_append)
  moreover have "lawful ?db db'"
    using i by (auto simp: init_items_def Let_def intro: lawful_write_run split: sum.splits if_splits)
  ultimately show ?thesis by (rule lawful_trans)
qed

lemma finalize_keeps_cancelled: "tr_status r = CANCELLED \<Longrightarrow> tr_status (finalize_update items now r) = CANCELLED"
  by (simp add: finalize_update_def Let_def)

lemma lawful_finalize: "finalize_run rid now db = Inr db' \<Longrightarrow> lawful db db'"
  by (auto simp: finalize_run_def finalize_keeps_cancelled intro!: lawful_write_run split: sum.splits)

lemma lawful_summary: "write_summary M rid v db = Inr (b, db') \<Longrightarrow> lawful db db'"
  by (auto simp: write_summary_def intro!: lawful_write_run split: sum.splits if_splits)

lemma lawful_summary_opt: "write_summary_opt M rid v db = Inr db' \<Longrightarrow> lawful db db'"
  by (auto simp: write_summary_opt_def dest: lawful_summary split: option.splits sum.splits)

text \<open>A summary does not change statuses at all.\<close>

lemma summary_opt_status:
  "write_summary_opt M rid v db = Inr db' \<Longrightarrow> run_status db' k = run_status db k \<and> rdb_items db' = rdb_items db"
  by (auto simp: write_summary_opt_def write_summary_def run_status_def option.map_comp o_def split: option.splits sum.splits if_splits)

lemma lawful_mark_failed: 
  assumes "mark_run_failed M rid msg v now db = Inr db'"
  shows "lawful db db'"
proof (cases "db' = db")
  case False
  let ?f = "\<lambda>it. it\<lparr>ti_status := FAILED, ti_completed_at := Some now, ti_error := Some msg\<rparr>"
  let ?g = "\<lambda>r. r\<lparr>tr_status := FAILED, tr_error := Some msg\<rparr>"
  obtain r db1 where r: "find_run rid db = Some r" "tr_status r \<noteq> CANCELLED"
    and w: "write_summary_opt M rid v (write_open_items rid ?f db) = Inr db1"
    and fin: "finalize_run rid now (write_run rid ?g db1) = Inr db'"
    using assms False by (auto simp: mark_run_failed_def split: sum.splits if_splits)
  have "run_status db1 rid = Some (tr_status r)"
    using summary_opt_status [OF w] r by (simp add: run_status_def)
  then have "lawful db1 (write_run rid ?g db1)"
    using r(2) by (intro lawful_write_run) (auto simp: run_status_def)
  moreover have "lawful db (write_open_items rid ?f db)"
    by (rule lawful_write_open) (simp_all add: item_id_def)
  ultimately show ?thesis
    using lawful_trans lawful_summary_opt [OF w] lawful_finalize [OF fin] by meson
qed simp

lemma lawful_finalize_summary:
  assumes "finalize_run_with_summary M rid v ov msg c now db = Inr db'"
  shows "lawful db db'"
proof (cases "db' = db")
  case False
  let ?g = "\<lambda>r. r\<lparr>tr_status := (case ov of None \<Rightarrow> tr_status r | Some st \<Rightarrow> st),
     tr_error := (case msg of Some m \<Rightarrow> Some m | None \<Rightarrow> if c then None else tr_error r)\<rparr>"
  obtain r db1 db2 where r: "find_run rid db = Some r" "tr_status r \<noteq> CANCELLED"
    and w: "write_summary_opt M rid v db = Inr db1"
    and fin: "finalize_run rid now db1 = Inr db2" and db': "db' = write_run rid ?g db2"
    using assms False by (auto simp: finalize_run_with_summary_def split: sum.splits if_splits)
  have "run_status db1 rid = Some (tr_status r)"
    using summary_opt_status [OF w] r by (simp add: run_status_def)
  then have "\<exists>y. run_status db2 rid = Some y \<and> y \<noteq> CANCELLED"
    using fin r(2) by (auto simp: finalize_run_def run_status_def finalize_update_def Let_def split: sum.splits)
  then have "lawful db2 db'"
    unfolding db' by (intro lawful_write_run) (auto simp: run_status_def)
  then show ?thesis
    using lawful_trans lawful_summary_opt [OF w] lawful_finalize [OF fin] by meson
qed simp

lemma lawful_cancel:
  assumes "cancel_run rid now db = Inr (b, db')"
  shows "lawful db db'"
proof (cases "db' = db")
  case False
  let ?g = "\<lambda>r. r\<lparr>tr_status := CANCELLED, tr_completed_at := Some now\<rparr>"
  obtain r where r: "find_run rid db = Some r" "tr_status r = RUNNING"
    and db': "db' = write_open_items rid (\<lambda>it. it\<lparr>ti_status := CANCELLED, ti_completed_at := Some now\<rparr>) (write_run rid ?g db)"
    using assms False by (auto simp: cancel_run_def split: sum.splits if_splits)
  have "lawful db (write_run rid ?g db)"
    using r by (intro lawful_write_run) auto
  then show ?thesis unfolding db'
    by (rule lawful_trans) (rule lawful_write_open, simp_all add: item_id_def)
qed simp

lemmas lawful_ops = lawful_start lawful_resolve lawful_init lawful_item_ops lawful_finalize lawful_summary
  lawful_mark_failed lawful_finalize_summary lawful_cancel

lemma run_step_lawful: "run_step M db db' \<Longrightarrow> lawful db db'"
  by (induction rule: run_step.induct) (blast intro: lawful_ops)+

interpretation runs: status_machine "run_step M" run_status run_moves for M
  using run_step_lawful by unfold_locales (fastforce simp: lawful_def)

interpretation items: status_machine "run_step M" item_status item_moves for M
  using run_step_lawful by unfold_locales (fastforce simp: lawful_def)


section \<open>JSON columns\<close>

definition json_rows :: "run_db \<Rightarrow> bool" where
  "json_rows db \<longleftrightarrow> (\<forall>r \<in> set (rdb_runs db). is_json (tr_summary r))
     \<and> (\<forall>it \<in> set (rdb_items db). is_json (ti_metrics it) \<and> is_json (ti_details it))"

lemma json_or [simp]: "is_json old \<Longrightarrow> is_json (json_or new old)"
  by (simp add: json_or_def ensure_json_is_json split: option.splits)

lemma json_write_run: "json_rows db \<Longrightarrow> (\<And>r. is_json (tr_summary r) \<Longrightarrow> is_json (tr_summary (f r))) \<Longrightarrow> json_rows (write_run rid f db)"
  by (auto simp: json_rows_def write_run_def)

lemma json_write_open:
  "json_rows db \<Longrightarrow> (\<And>it. ti_metrics (f it) = ti_metrics it) \<Longrightarrow> (\<And>it. ti_details (f it) = ti_details it) \<Longrightarrow>
   json_rows (write_open_items rid f db)"
  by (auto simp: json_rows_def write_open_items_def)

lemma json_change_item:
  "change_item rid t k refuses f db = Inr db' \<Longrightarrow> json_rows db \<Longrightarrow>
   (\<And>it. is_json (ti_metrics it) \<Longrightarrow> is_json (ti_details it) \<Longrightarrow> is_json (ti_metrics (f it)) \<and> is_json (ti_details (f it))) \<Longrightarrow>
   json_rows db'"
  by (auto simp: change_item_def json_rows_def write_item_def split: sum.splits if_splits)

lemma json_item_ops:
  "start_item rid t k now db = Inr db' \<Longrightarrow> json_rows db \<Longrightarrow> json_rows db'"
  "complete_item rid t k m d now db = Inr db' \<Longrightarrow> json_rows db \<Longrightarrow> json_rows db'"
  "fail_item rid t k msg d now db = Inr db' \<Longrightarrow> json_rows db \<Longrightarrow> json_rows db'"
  "cancel_item rid t k d now db = Inr db' \<Longrightarrow> json_rows db \<Longrightarrow> json_rows db'"
  unfolding start_item_def complete_item_def fail_item_def cancel_item_def
  by (erule json_change_item; simp)+

lemma json_start: "start_run M rid tk nm c tg u sm url now db = Inr db' \<Longrightarrow> json_rows db \<Longrightarrow> json_rows db'"
  by (auto simp: start_run_def json_rows_def ensure_json_is_json split: sum.splits if_splits)

lemma json_resolve: "resolve_or_start_run M rid fr tk nm c tg u sm url now db = Inr (k, db') \<Longrightarrow> json_rows db \<Longrightarrow> json_rows db'"
  by (auto simp: resolve_or_start_run_def intro: json_start split: sum.splits if_splits option.splits)

lemma json_init: "init_items rid is db = Inr db' \<Longrightarrow> json_rows db \<Longrightarrow> json_rows db'"
  by (auto simp: init_items_def Let_def json_rows_def write_run_def new_item_def split: sum.splits if_splits)

lemma json_finalize: "finalize_run rid now db = Inr db' \<Longrightarrow> json_rows db \<Longrightarrow> json_rows db'"
  by (auto simp: finalize_run_def finalize_update_def Let_def intro!: json_write_run split: sum.splits)

lemma json_summary: "write_summary M rid v db = Inr (b, db') \<Longrightarrow> json_rows db \<Longrightarrow> json_rows db'"
  by (auto simp: write_summary_def ensure_json_is_json intro!: json_write_run split: sum.splits if_splits)

lemma json_summary_opt: "write_summary_opt M rid v db = Inr db' \<Longrightarrow> json_rows db \<Longrightarrow> json_rows db'"
  by (auto simp: write_summary_opt_def dest: json_summary split: option.splits sum.splits)

lemma json_mark_failed: "mark_run_failed M rid msg v now db = Inr db' \<Longrightarrow> json_rows db \<Longrightarrow> json_rows db'"
  by (auto simp: mark_run_failed_def elim!: json_finalize json_summary_opt intro!: json_write_run json_write_open
      split: sum.splits if_splits)

lemma json_finalize_summary:
  "finalize_run_with_summary M rid v ov msg c now db = Inr db' \<Longrightarrow> json_rows db \<Longrightarrow> json_rows db'"
  by (auto simp: finalize_run_with_summary_def elim!: json_finalize json_summary_opt intro!: json_write_run
      split: sum.splits if_splits)

lemma json_cancel: "cancel_run rid now db = Inr (b, db') \<Longrightarrow> json_rows db \<Longrightarrow> json_rows db'"
  by (auto simp: cancel_run_def intro!: json_write_run json_write_open split: sum.splits if_splits)

lemmas json_intros = json_start json_resolve json_init json_item_ops json_finalize json_summary
  json_mark_failed json_finalize_summary json_cancel

lemma json_step: "run_step M db db' \<Longrightarrow> json_rows db \<Longrightarrow> json_rows db'"
  by (induction rule: run_step.induct) (blast intro: json_intros)+

section \<open>Counting\<close>

lemma ended_count:
  "length (filter (\<lambda>it. ti_status it = COMPLETED) items) + length (filter (\<lambda>it. ti_status it \<in> {FAILED, CANCELLED}) items)
     \<le> length items"
  "length (filter (\<lambda>it. ti_status it = COMPLETED) items) + length (filter (\<lambda>it. ti_status it \<in> {FAILED, CANCELLED}) items)
     = length items \<longleftrightarrow> (\<forall>it \<in> set items. ti_status it \<in> {COMPLETED, FAILED, CANCELLED})"
proof (induction items)
  case (Cons it items)
  { case 1 show ?case using Cons(1) by auto }
  { case 2 show ?case using Cons by auto }
qed simp_all

lemma list_items_write_open:
  "list_run_items rid (write_open_items rid f db) =
     map (\<lambda>it. if ti_status it \<in> set task_status_in_progress then f it else it) (list_run_items rid db)"
  if "\<And>it. ti_run (f it) = ti_run it"
proof -
  have "filter (\<lambda>it. ti_run it = rid) (map (\<lambda>it. if ti_run it = rid \<and> P it then f it else it) xs) =
      map (\<lambda>it. if P it then f it else it) (filter (\<lambda>it. ti_run it = rid) xs)" for P xs
    using that by (induction xs) auto
  then show ?thesis by (simp add: list_run_items_def write_open_items_def)
qed

lemma summary_opt_items: "write_summary_opt M rid v db = Inr db' \<Longrightarrow> list_run_items k db' = list_run_items k db"
  by (auto simp: list_run_items_def dest: summary_opt_status)

section \<open>Properties\<close>

lemma in_progress_iff [simp]: "x \<in> set task_status_in_progress \<longleftrightarrow> x = PENDING \<or> x = RUNNING"
  by (auto simp: task_status_in_progress_def sync_status_active_def)

definition sample_runs :: run_db where
  "sample_runs = \<lparr>rdb_runs = [\<lparr>tr_id = ''r'', tr_task_key = ''k'', tr_task_name = ''n'', tr_category = ''c'',
       tr_trigger = ''manual'', tr_status = RUNNING, tr_started_at = 0, tr_completed_at = None, tr_created_by = None,
       tr_total = 2, tr_completed = 0, tr_failed = 0, tr_summary = O_none, tr_result_url = None, tr_error = None\<rparr>],
     rdb_items = [(new_item ''r'' \<lparr>ii_type = ''instance'', ii_key = ''1'', ii_name = None, ii_instance = None\<rparr>)
         \<lparr>ti_status := COMPLETED\<rparr>,
       new_item ''r'' \<lparr>ii_type = ''instance'', ii_key = ''2'', ii_name = None, ii_instance = None\<rparr>]\<rparr>"

lemma sample_runs_rows:
  "run_status sample_runs ''r'' = Some RUNNING"
  "item_status sample_runs (''r'', ''instance'', ''1'') = Some COMPLETED"
  "item_status sample_runs (''r'', ''instance'', ''2'') = Some PENDING"
  "\<exists>r. find_run ''r'' sample_runs = Some r \<and> tr_status r = RUNNING"
  by (simp_all add: run_status_def item_status_def find_run_def find_item_def sample_runs_def item_id_def new_item_def)

text \<open>the status of an item is final once it is failed or cancelled, and a completed item can
  only become failed, whatever operations of the service follow; an item never
  disappears.\<close>

theorem ended_items_stay:
  assumes "(run_step M)\<^sup>*\<^sup>* db db'" and "item_status db k = Some x"
  shows "(x \<in> {FAILED, CANCELLED} \<longrightarrow> item_status db' k = Some x)
    \<and> (x = COMPLETED \<longrightarrow> (\<exists>y \<in> {COMPLETED, FAILED}. item_status db' k = Some y))"
proof (intro conjI impI)
  assume x: "x \<in> {FAILED, CANCELLED}"
  then have "\<exists>y. item_status db' k = Some y \<and> y = x"
    by (intro items.closed_stays [OF assms]) (auto simp: item_moves_def task_status_terminal_def)
  then show "item_status db' k = Some x" by simp
next
  assume x: "x = COMPLETED"
  then have "\<exists>y. item_status db' k = Some y \<and> y \<in> {COMPLETED, FAILED}"
    by (intro items.closed_stays [OF assms]) (auto simp: item_moves_def task_status_terminal_def)
  then show "\<exists>y \<in> {COMPLETED, FAILED}. item_status db' k = Some y" by auto
qed

lemma sample_fail: "\<exists>db. fail_item ''r'' ''instance'' ''1'' ''late'' None 3 sample_runs = Inr db
    \<and> item_status db (''r'', ''instance'', ''1'') = Some FAILED"
  by (simp add: fail_item_def change_item_def get_item_def get_run_def find_run_def sample_runs_def find_item_def
      item_id_def new_item_def item_status_def write_item_def)

theorem ended_items_stay_witness:
  "\<exists>db. fail_item ''r'' ''instance'' ''1'' ''late'' None 3 sample_runs = Inr db
     \<and> item_status db (''r'', ''instance'', ''1'') = Some FAILED
     \<and> (\<forall>db'. start_item ''r'' ''instance'' ''1'' 4 db = Inr db' \<longrightarrow> item_status db' (''r'', ''instance'', ''1'') = Some FAILED)"
proof -
  obtain db where db: "fail_item ''r'' ''instance'' ''1'' ''late'' None 3 sample_runs = Inr db"
    "item_status db (''r'', ''instance'', ''1'') = Some FAILED" using sample_fail by blast
  have "item_status db' (''r'', ''instance'', ''1'') = Some FAILED" if "start_item ''r'' ''instance'' ''1'' 4 db = Inr db'" for db'
    using ended_items_stay [OF r_into_rtranclp [of "run_step (\<lambda>_ _. None)", OF run_step.start_it [OF that]] db(2)] by simp
  with db show ?thesis by blast
qed

text \<open>C9: cancelling. A run that was cancelled stays cancelled whatever operations follow, and so does
  every item of it that had not ended when it was cancelled; the items that had ended keep
  their status at the cancellation.\<close>

theorem cancelled_run_stays:
  assumes "cancel_run rid now db = Inr (True, db1)" and "(run_step M)\<^sup>*\<^sup>* db1 db2"
    and "item_status db (rid, t, k) = Some x"
  shows "run_status db2 rid = Some CANCELLED
    \<and> (if x \<in> {PENDING, RUNNING} then item_status db2 (rid, t, k) = Some CANCELLED
       else item_status db1 (rid, t, k) = Some x)"
proof -
  obtain r where r: "find_run rid db = Some r"
    and db1: "db1 = write_open_items rid (\<lambda>it. it\<lparr>ti_status := CANCELLED, ti_completed_at := Some now\<rparr>)
       (write_run rid (\<lambda>r. r\<lparr>tr_status := CANCELLED, tr_completed_at := Some now\<rparr>) db)"
    using assms(1) by (auto simp: cancel_run_def split: sum.splits if_splits)
  obtain it where it: "find_item (rid, t, k) db = Some it" "ti_status it = x"
    using assms(3) by (auto simp: item_status_def)
  then have "ti_run it = rid" by (auto simp: find_item_def find_Some_iff item_id_def)
  with it have item1: "item_status db1 (rid, t, k) = Some (if x \<in> {PENDING, RUNNING} then CANCELLED else x)"
    by (simp add: db1 item_status_def item_id_def)
  have "run_status db1 rid = Some CANCELLED" by (simp add: db1 run_status_def r)
  then have "run_status db2 rid = Some CANCELLED"
    by (intro runs.final_stays [OF assms(2)]) (simp_all add: runs.final_def run_moves_def)
  moreover have "item_status db2 (rid, t, k) = Some CANCELLED" if "x \<in> {PENDING, RUNNING}"
    using item1 that by (intro items.final_stays [OF assms(2)]) (auto simp: items.final_def item_moves_def task_status_terminal_def)
  ultimately show ?thesis using item1 by simp
qed

theorem cancelled_run_stays_witness:
  "\<exists>db1. cancel_run ''r'' 5 sample_runs = Inr (True, db1)
     \<and> (\<forall>db2. finalize_run ''r'' 6 db1 = Inr db2 \<longrightarrow> run_status db2 ''r'' = Some CANCELLED
          \<and> item_status db2 (''r'', ''instance'', ''2'') = Some CANCELLED)"
proof -
  obtain db1 where c: "cancel_run ''r'' 5 sample_runs = Inr (True, db1)"
    using sample_runs_rows(4) by (auto simp: cancel_run_def get_run_def)
  have "run_status db2 ''r'' = Some CANCELLED \<and> item_status db2 (''r'', ''instance'', ''2'') = Some CANCELLED"
    if "finalize_run ''r'' 6 db1 = Inr db2" for db2
    using cancelled_run_stays [OF c r_into_rtranclp [of "run_step (\<lambda>_ _. None)", OF run_step.finalize [OF that]] sample_runs_rows(3)]
    by simp
  with c show ?thesis by blast
qed

text \<open>C11: \<^verbatim>\<open>mark_run_failed\<close> on a run that is not cancelled: the run is failed with the message, no item
  of it is left in progress, each item that was is failed with the message, and the
  progress counts are those of the items.\<close>

theorem mark_run_failed_closes:
  assumes "mark_run_failed M rid msg summary now db = Inr db'"
    and "run_status db rid = Some x" and "x \<noteq> CANCELLED"
  shows "\<exists>r. find_run rid db' = Some r \<and> tr_status r = FAILED \<and> tr_error r = Some msg \<and> tr_completed_at r = Some now
    \<and> list_run_items rid db' = map (\<lambda>it. if ti_status it \<in> {PENDING, RUNNING}
         then it\<lparr>ti_status := FAILED, ti_completed_at := Some now, ti_error := Some msg\<rparr> else it) (list_run_items rid db)
    \<and> tr_total r = length (list_run_items rid db')
    \<and> tr_completed r = length (filter (\<lambda>it. ti_status it = COMPLETED) (list_run_items rid db'))
    \<and> tr_failed r = length (filter (\<lambda>it. ti_status it \<in> {FAILED, CANCELLED}) (list_run_items rid db'))"
proof -
  let ?f = "\<lambda>it. it\<lparr>ti_status := FAILED, ti_completed_at := Some now, ti_error := Some msg\<rparr>"
  let ?g = "\<lambda>r. r\<lparr>tr_status := FAILED, tr_error := Some msg\<rparr>"
  obtain r db1 where r: "find_run rid db = Some r"
    and w: "write_summary_opt M rid summary (write_open_items rid ?f db) = Inr db1"
    and fin: "finalize_run rid now (write_run rid ?g db1) = Inr db'"
    using assms by (auto simp: mark_run_failed_def run_status_def split: sum.splits if_splits)
  have its: "list_run_items rid db1 = map (\<lambda>it. if ti_status it \<in> {PENDING, RUNNING} then ?f it else it) (list_run_items rid db)"
    using summary_opt_items [OF w] by (simp add: list_items_write_open)
  obtain r1 where r1: "find_run rid db1 = Some r1"
    using summary_opt_status [OF w, of rid] r by (auto simp: run_status_def)
  have db': "db' = write_run rid (finalize_update (list_run_items rid db1) now) (write_run rid ?g db1)"
    using fin r1 by (auto simp: finalize_run_def split: sum.splits)
  then have its': "list_run_items rid db' = list_run_items rid db1" by simp
  show ?thesis
    unfolding its' by (rule exI [of _ "finalize_update (list_run_items rid db1) now (?g r1)"])
      (simp add: db' r1, simp add: finalize_update_def Let_def its)
qed

theorem mark_run_failed_closes_witness:
  "\<exists>db'. mark_run_failed (\<lambda>_ _. None) ''r'' ''boom'' None 9 sample_runs = Inr db'
     \<and> (\<exists>r. find_run ''r'' db' = Some r \<and> tr_status r = FAILED \<and> tr_error r = Some ''boom'' \<and> tr_completed_at r = Some 9)"
proof -
  obtain db' where m: "mark_run_failed (\<lambda>_ _. None) ''r'' ''boom'' None 9 sample_runs = Inr db'"
    using sample_runs_rows(4) by (auto simp: mark_run_failed_def write_summary_opt_def finalize_run_def get_run_def)
  from mark_run_failed_closes [OF m sample_runs_rows(1)] m show ?thesis by auto
qed

lemma count_partition:
  "length (filter (\<lambda>it. ti_status it = COMPLETED) items) + length (filter (\<lambda>it. ti_status it \<in> {FAILED, CANCELLED}) items)
     + length (filter (\<lambda>it. ti_status it \<notin> {COMPLETED, FAILED, CANCELLED}) items) = length items"
  by (induction items) (auto simp: COMPLETED_def FAILED_def CANCELLED_def)

text \<open>C10: \<^verbatim>\<open>finalize_run\<close> counts exactly: the completed items, the failed or cancelled ones, and in the
  total also those that have not ended; a run that is neither cancelled nor failed becomes failed iff an
  item is failed or cancelled, and completed otherwise. It sets the time, changes no item, no other run
  and neither the error nor the summary, and finalising again changes nothing but the time.\<close>

theorem finalize_counts:
  assumes "finalize_run rid now db = Inr db'" and "find_run rid db = Some r"
  shows "\<exists>r'. find_run rid db' = Some r' \<and> rdb_items db' = rdb_items db \<and> (\<forall>k. k \<noteq> rid \<longrightarrow> find_run k db' = find_run k db)
    \<and> tr_completed r' = length (filter (\<lambda>it. ti_status it = COMPLETED) (list_run_items rid db))
    \<and> tr_failed r' = length (filter (\<lambda>it. ti_status it \<in> {FAILED, CANCELLED}) (list_run_items rid db))
    \<and> tr_total r' = tr_completed r' + tr_failed r'
         + length (filter (\<lambda>it. ti_status it \<notin> {COMPLETED, FAILED, CANCELLED}) (list_run_items rid db))
    \<and> tr_status r' = (if tr_status r \<in> {CANCELLED, FAILED} then tr_status r
         else if \<exists>it \<in> set (list_run_items rid db). ti_status it \<in> {FAILED, CANCELLED} then FAILED else COMPLETED)
    \<and> tr_completed_at r' = Some now \<and> tr_error r' = tr_error r \<and> tr_summary r' = tr_summary r
    \<and> (\<forall>later. \<exists>db''. finalize_run rid later db' = Inr db'' \<and> find_run rid db'' = Some (r'\<lparr>tr_completed_at := Some later\<rparr>))"
proof -
  let ?items = "list_run_items rid db"
  have db': "db' = write_run rid (finalize_update ?items now) db"
    using assms by (auto simp: finalize_run_def split: sum.splits)
  let ?r = "finalize_update ?items now r"
  have counts: "tr_total ?r = length ?items"
    "tr_completed ?r = length (filter (\<lambda>it. ti_status it = COMPLETED) ?items)"
    "tr_failed ?r = length (filter (\<lambda>it. ti_status it \<in> {FAILED, CANCELLED}) ?items)"
    by (simp_all add: finalize_update_def Let_def)
  have total: "tr_total ?r = tr_completed ?r + tr_failed ?r + length (filter (\<lambda>it. ti_status it \<notin> {COMPLETED, FAILED, CANCELLED}) ?items)"
    unfolding counts count_partition ..
  have status: "tr_status ?r = (if tr_status r \<in> {CANCELLED, FAILED} then tr_status r
      else if \<exists>it \<in> set ?items. ti_status it \<in> {FAILED, CANCELLED} then FAILED else COMPLETED)"
    by (auto simp: finalize_update_def Let_def filter_empty_conv)
  have rest: "tr_completed_at ?r = Some now" "tr_error ?r = tr_error r" "tr_summary ?r = tr_summary r"
    by (simp_all add: finalize_update_def Let_def)
  have run: "find_run rid db' = Some ?r" by (simp add: db' assms(2))
  have same: "rdb_items db' = rdb_items db" by (simp add: db' write_run_def)
  have others: "\<forall>k. k \<noteq> rid \<longrightarrow> find_run k db' = find_run k db" by (simp add: db')
  have again: "\<exists>db''. finalize_run rid later db' = Inr db'' \<and> find_run rid db'' = Some (?r\<lparr>tr_completed_at := Some later\<rparr>)" for later
  proof -
    have "list_run_items rid db' = ?items" by (simp add: list_run_items_def same)
    moreover have "finalize_update ?items later ?r = ?r\<lparr>tr_completed_at := Some later\<rparr>"
      by (simp add: finalize_update_def Let_def)
    ultimately show ?thesis using run by (simp add: finalize_run_def get_run_def)
  qed
  show ?thesis
    by (intro exI [of _ ?r] conjI) (fact run same others counts(2,3) total status rest allI [OF again])+
qed

theorem finalize_counts_witness:
  "\<exists>db' r'. finalize_run ''r'' 9 sample_runs = Inr db' \<and> find_run ''r'' db' = Some r' \<and> tr_total r' = 2
     \<and> tr_completed r' = 1 \<and> tr_failed r' = 0 \<and> tr_status r' = COMPLETED"
proof -
  obtain r where r: "find_run ''r'' sample_runs = Some r" "tr_status r = RUNNING" using sample_runs_rows(4) by blast
  then obtain db' where f: "finalize_run ''r'' 9 sample_runs = Inr db'" by (simp add: finalize_run_def get_run_def)
  obtain it1 it2 where items: "list_run_items ''r'' sample_runs = [it1, it2]" "ti_status it1 = COMPLETED" "ti_status it2 = PENDING"
    by (simp add: list_run_items_def sample_runs_def new_item_def)
  have "COMPLETED \<notin> {FAILED, CANCELLED}" "PENDING \<notin> {COMPLETED, FAILED, CANCELLED}" "RUNNING \<notin> {CANCELLED, FAILED}" by code_simp+
  with finalize_counts [OF f r(1)] items r(2) have "\<exists>r'. find_run ''r'' db' = Some r' \<and> tr_total r' = 2
     \<and> tr_completed r' = 1 \<and> tr_failed r' = 0 \<and> tr_status r' = COMPLETED" by auto
  with f show ?thesis by blast
qed

text \<open>the JSON columns of runs and items hold JSON in every state reached from empty tables,
  whatever objects the callers pass (dates, tuples, sets, keys that are not strings).\<close>

theorem json_columns_are_json:
  assumes "(run_step M)\<^sup>*\<^sup>* \<lparr>rdb_runs = [], rdb_items = []\<rparr> db"
  shows "json_rows db"
  using assms by (induction rule: rtranclp_induct) (simp add: json_rows_def, rule json_step)

theorem json_columns_are_json_witness:
  "\<exists>db. start_run (\<lambda>_ v. Some (''k'', O_tuple [O_date ''2024-01-01''])) ''r'' ''k'' ''n'' ''c'' ''manual'' None None None 0
      \<lparr>rdb_runs = [], rdb_items = []\<rparr> = Inr db \<and> json_rows db"
proof -
  let ?M = "\<lambda>_ v. Some (''k'', O_tuple [O_date ''2024-01-01''])"
  obtain db where s: "start_run ?M ''r'' ''k'' ''n'' ''c'' ''manual'' None None None 0 \<lparr>rdb_runs = [], rdb_items = []\<rparr> = Inr db"
    by (simp add: start_run_def summary_base_def find_run_def)
  have "json_rows db"
    by (rule json_columns_are_json [OF r_into_rtranclp [of "run_step ?M", OF run_step.start [OF s]]])
  with s show ?thesis by blast
qed

end
