(* ===== verification/Reconcile.thy ===== *)
theory Reconcile
  imports Prelude
begin

text \<open>
  The contract of the two inventories, of databases and of accounts: a run brings the activity
  flags of a table into line with what a remote server reports. A row is addressed by a
  key; \<^verbatim>\<open>reported\<close> are the keys the server names, \<^verbatim>\<open>live\<close> those it names as active, and
  \<^verbatim>\<open>scope\<close> those the run answers for. What follows for repeated and successive runs is
  proved here once; the inventories interpret the locale on their own \<^verbatim>\<open>synchronize\<close>.
\<close>

text \<open>Successive runs, the first failure ending them.\<close>

fun run_all :: "('r \<Rightarrow> 's \<Rightarrow> 's option) \<Rightarrow> 'r list \<Rightarrow> 's \<Rightarrow> 's option" where
  "run_all run [] s = Some s"
| "run_all run (r # rs) s = (case run r s of None \<Rightarrow> None | Some s' \<Rightarrow> run_all run rs s')"

lemma run_all_snoc:
  "run_all run (rs @ [r]) s = (case run_all run rs s of None \<Rightarrow> None | Some s' \<Rightarrow> run r s')"
  by (induction rs arbitrary: s) (auto split: option.splits)

locale reconcile =
  fixes run :: "'r \<Rightarrow> 's \<Rightarrow> 's option"
    and active :: "'s \<Rightarrow> 'k \<Rightarrow> bool option"
    and scope :: "'r \<Rightarrow> 'k \<Rightarrow> bool"
    and reported :: "'r \<Rightarrow> 'k \<Rightarrow> bool"
    and live :: "'r \<Rightarrow> 'k \<Rightarrow> bool"
  assumes live_reported: "live r k \<Longrightarrow> reported r k"
    and reported_scope: "reported r k \<Longrightarrow> scope r k"
    and live_active: "run r s = Some s' \<Longrightarrow> live r k \<Longrightarrow> active s' k = Some True"
    and reported_kept: "run r s = Some s' \<Longrightarrow> reported r k \<Longrightarrow> active s' k \<noteq> None"
    and missing: "run r s = Some s' \<Longrightarrow> scope r k \<Longrightarrow> \<not> reported r k \<Longrightarrow> active s' k = map_option (\<lambda>_. False) (active s k)"
    and other: "run r s = Some s' \<Longrightarrow> \<not> scope r k \<Longrightarrow> active s' k = active s k"
begin

text \<open>Rows are never removed.\<close>

lemma row_kept: "run r s = Some s' \<Longrightarrow> active s k \<noteq> None \<Longrightarrow> active s' k \<noteq> None"
  by (cases "reported r k"; cases "scope r k") (auto simp: missing other dest: reported_kept)

lemma rows_kept: "run_all run rs s = Some s' \<Longrightarrow> active s k \<noteq> None \<Longrightarrow> active s' k \<noteq> None"
  by (induction rs arbitrary: s) (auto split: option.splits dest: row_kept)

text \<open>After a run the active rows of its scope are the live ones, as far as what is reported is
  live.\<close>

lemma exact:
  assumes "run r s = Some s'" "scope r k" "reported r k \<Longrightarrow> live r k"
  shows "active s' k = Some True \<longleftrightarrow> live r k"
  using assms by (cases "reported r k") (auto simp: missing live_active dest: live_reported)

text \<open>A second run with the same report changes no flag.\<close>

lemma repeat:
  assumes "run r s = Some s'" "run r s' = Some s''" "reported r k \<Longrightarrow> live r k"
  shows "active s'' k = active s' k"
proof (cases "scope r k")
  case True
  show ?thesis
  proof (cases "reported r k")
    case True
    with assms show ?thesis by (simp add: live_active)
  next
    case False
    with assms True show ?thesis by (simp add: missing option.map_comp o_def)
  qed
next
  case False
  with assms show ?thesis by (simp add: other)
qed

text \<open>The last run decides, whatever came before.\<close>

lemma last_run_decides:
  assumes "run_all run (rs @ [r]) s = Some s'" "scope r k" "reported r k \<Longrightarrow> live r k"
  shows "active s' k = Some True \<longleftrightarrow> live r k"
  using assms by (auto simp: run_all_snoc exact split: option.splits)

end

end
