(* ===== verification/Database_Inventory.thy ===== *)
theory Database_Inventory
  imports Reconcile Core_Constants
begin

text \<open>
  The inventory of the databases of an instance: the name filters
  (\<^verbatim>\<open>app/services/database_sync/database_filters.py\<close>) and the synchronisation of the
  table \<^verbatim>\<open>instance_databases\<close> (\<^verbatim>\<open>app/services/database_sync/inventory_manager.py\<close>).
  Reading and validating the YAML file is left out: the model starts from the validated
  lists. Names are ASCII, so that the \<^verbatim>\<open>.\<close> of a regular expression stands for one
  character of the list.
\<close>

section \<open>The name filters\<close>

text \<open>A compiled pattern: the pieces of the regular expression between \<^verbatim>\<open>^\<close> and \<^verbatim>\<open>$\<close>.\<close>

datatype rx = Dot_star | Dot | Lit char

fun compile_char :: "char \<Rightarrow> rx" where
  "compile_char c = (if c = CHR ''%'' then Dot_star else if c = CHR ''_'' then Dot else Lit c)"

definition compile_pattern :: "string \<Rightarrow> rx list" where
  "compile_pattern pattern = map compile_char pattern"

text \<open>\<^verbatim>\<open>re.match\<close> ignoring case: a dot is any character but a newline, and \<^verbatim>\<open>$\<close> also matches
  before a newline that ends the text.\<close>

definition newline :: char where "newline = CHR 0x0A"

function rx_match :: "rx list \<Rightarrow> string \<Rightarrow> bool" where
  "rx_match [] s = (s = [] \<or> s = [newline])"
| "rx_match (Lit c # r) [] = False"
| "rx_match (Lit c # r) (d # s) = (lower_char c = lower_char d \<and> rx_match r s)"
| "rx_match (Dot # r) [] = False"
| "rx_match (Dot # r) (d # s) = (d \<noteq> newline \<and> rx_match r s)"
| "rx_match (Dot_star # r) [] = rx_match r []"
| "rx_match (Dot_star # r) (d # s) = (rx_match r (d # s) \<or> (d \<noteq> newline \<and> rx_match (Dot_star # r) s))"
  by pat_completeness auto
termination by (relation "measure (\<lambda>(r, s). length r + length s)") auto

record filter_rule =
  fr_exclude :: "string list"
  fr_patterns :: "(string \<times> rx list) list"

text \<open>The loop of \<^verbatim>\<open>reload\<close> over the validated configuration.\<close>

definition normalize_rules :: "(string \<times> string list \<times> string list) list \<Rightarrow> (string \<times> filter_rule) list" where
  "normalize_rules filters = map (\<lambda>(db_type, names, patterns).
     (db_type, \<lparr>fr_exclude = map lower names, fr_patterns = map (\<lambda>p. (p, compile_pattern p)) patterns\<rparr>)) filters"

fun first_match :: "(string \<times> rx list) list \<Rightarrow> string \<Rightarrow> string option" where
  "first_match [] name = None"
| "first_match (c # cs) name = (if rx_match (snd c) name then Some (''exclude_pattern:'' @ fst c) else first_match cs name)"

text \<open>The type of the instance is \<^verbatim>\<open>None\<close> when it has none.\<close>

definition should_exclude_database ::
  "(string \<times> filter_rule) list \<Rightarrow> string option \<Rightarrow> string option \<Rightarrow> bool \<times> string option" where
  "should_exclude_database rules db_type database_name =
     (case database_name of
        None \<Rightarrow> (False, None)
      | Some name \<Rightarrow>
          if name = [] then (False, None)
          else let t = (case db_type of None \<Rightarrow> [] | Some x \<Rightarrow> lower x)
               in if t = [] then (False, None)
                  else (case map_of rules t of
                      None \<Rightarrow> (False, None)
                    | Some rule \<Rightarrow>
                        if lower name \<in> set (fr_exclude rule) then (True, Some ''exclude_database'')
                        else (case first_match (fr_patterns rule) name of
                            Some reason \<Rightarrow> (True, Some reason)
                          | None \<Rightarrow> (False, None))))"

fun filter_database_names ::
  "(string \<times> filter_rule) list \<Rightarrow> string option \<Rightarrow> string list \<Rightarrow> string list \<times> string list" where
  "filter_database_names rules db_type [] = ([], [])"
| "filter_database_names rules db_type (name # names) =
     (case filter_database_names rules db_type names of (allowed, excluded) \<Rightarrow>
        if fst (should_exclude_database rules db_type (Some name)) then (allowed, name # excluded)
        else (name # allowed, excluded))"

text \<open>Capacity rows with the text of their database name.\<close>

fun filter_capacity_payload ::
  "(string \<times> filter_rule) list \<Rightarrow> string option \<Rightarrow> (string option \<times> 'row) list \<Rightarrow> (string option \<times> 'row) list \<times> string list" where
  "filter_capacity_payload rules db_type [] = ([], [])"
| "filter_capacity_payload rules db_type (row # rows) =
     (case filter_capacity_payload rules db_type rows of (kept, excluded) \<Rightarrow>
        if fst (should_exclude_database rules db_type (fst row))
        then (kept, (case fst row of Some n \<Rightarrow> n | None \<Rightarrow> []) # excluded)
        else (row # kept, excluded))"

section \<open>The table\<close>

record database_row =
  dr_instance :: int
  dr_name :: string
  dr_active :: bool
  dr_first_seen :: int
  dr_last_seen :: int
  dr_deleted_at :: "int option"
  dr_created_at :: int
  dr_updated_at :: int

record db_instance =
  in_id :: int
  in_db_type :: "string option"

text \<open>What a metadata row says: the text of its \<^verbatim>\<open>database_name\<close>, unless missing, and the truth
  of its \<^verbatim>\<open>is_system\<close>.\<close>

record db_item =
  di_name :: "string option"
  di_is_system :: bool

record db_stats =
  ds_created :: nat
  ds_refreshed :: nat
  ds_reactivated :: nat
  ds_deactivated :: nat

text \<open>The state of the loop: the rows of the instance that existed (objects the loop changes in
  place), the rows added, the names seen and excluded, and the counters.\<close>

record db_loop =
  dl_existing :: "database_row list"
  dl_added :: "database_row list"
  dl_seen :: "string list"
  dl_excluded :: "string list"
  dl_stats :: db_stats

definition normalize_database_name :: "db_item \<Rightarrow> string option" where
  "normalize_database_name item = (case di_name item of
      None \<Rightarrow> None
    | Some raw \<Rightarrow> if strip raw = [] then None else Some (strip raw))"

definition should_skip_system_database :: "db_instance \<Rightarrow> db_item \<Rightarrow> bool" where
  "should_skip_system_database inst item =
     (if \<not> di_is_system item then False
      else (case in_db_type inst of None \<Rightarrow> [] | Some t \<Rightarrow> lower t) \<noteq> MYSQL)"

definition refresh_existing_record :: "int \<Rightarrow> int \<Rightarrow> database_row \<Rightarrow> database_row" where
  "refresh_existing_record today now r =
     (let r' = r\<lparr>dr_last_seen := today, dr_updated_at := now\<rparr>
      in if \<not> dr_active r' then r'\<lparr>dr_active := True, dr_deleted_at := None\<rparr> else r')"

definition create_new_record :: "int \<Rightarrow> string \<Rightarrow> int \<Rightarrow> int \<Rightarrow> database_row" where
  "create_new_record instance_id name today now =
     \<lparr>dr_instance = instance_id, dr_name = name, dr_active = True, dr_first_seen = today, dr_last_seen = today,
      dr_deleted_at = None, dr_created_at = now, dr_updated_at = now\<rparr>"

definition db_sync_item ::
  "(string \<times> filter_rule) list \<Rightarrow> db_instance \<Rightarrow> int \<Rightarrow> int \<Rightarrow> db_item \<Rightarrow> db_loop \<Rightarrow> db_loop" where
  "db_sync_item rules inst today now item st = (case normalize_database_name item of
      None \<Rightarrow> st
    | Some name \<Rightarrow>
        if should_skip_system_database inst item then st
        else if fst (should_exclude_database rules (in_db_type inst) (Some name))
        then st\<lparr>dl_excluded := dl_excluded st @ [name]\<rparr>
        else let st' = st\<lparr>dl_seen := name # dl_seen st\<rparr>
             in (case find (\<lambda>r. dr_name r = name) (dl_existing st') of
                   Some r \<Rightarrow> st'\<lparr>dl_existing := map (\<lambda>r. if dr_name r = name then refresh_existing_record today now r else r) (dl_existing st'),
                       dl_stats := (if \<not> dr_active r
                         then (dl_stats st')\<lparr>ds_reactivated := ds_reactivated (dl_stats st') + 1\<rparr>
                         else (dl_stats st')\<lparr>ds_refreshed := ds_refreshed (dl_stats st') + 1\<rparr>)\<rparr>
                 | None \<Rightarrow> st'\<lparr>dl_added := dl_added st' @ [create_new_record (in_id inst) name today now],
                       dl_stats := (dl_stats st')\<lparr>ds_created := ds_created (dl_stats st') + 1\<rparr>\<rparr>))"

definition missing_active :: "string list \<Rightarrow> database_row \<Rightarrow> bool" where
  "missing_active seen r \<longleftrightarrow> dr_name r \<notin> set seen \<and> dr_active r"

definition deactivate_missing_records :: "string list \<Rightarrow> int \<Rightarrow> database_row list \<Rightarrow> database_row list \<times> nat" where
  "deactivate_missing_records seen now rows =
     (map (\<lambda>r. if missing_active seen r
               then r\<lparr>dr_active := False, dr_deleted_at := Some now, dr_updated_at := now\<rparr> else r) rows,
      length (filter (missing_active seen) rows))"

record db_summary =
  sum_stats :: db_stats
  sum_active :: "string list"
  sum_filtered :: "string list"

definition to_summary :: "string list \<Rightarrow> string list \<Rightarrow> db_stats \<Rightarrow> db_summary" where
  "to_summary seen excluded stats = \<lparr>sum_stats = stats, sum_active = sorted_set seen, sum_filtered = sort excluded\<rparr>"

text \<open>The unique constraint of the table, checked by the flush.\<close>

definition unique_rows :: "database_row list \<Rightarrow> bool" where
  "unique_rows rows \<longleftrightarrow> distinct (map (\<lambda>r. (dr_instance r, dr_name r)) rows)"

definition db_loop_init :: "db_instance \<Rightarrow> database_row list \<Rightarrow> db_loop" where
  "db_loop_init inst table = \<lparr>dl_existing = filter (\<lambda>r. dr_instance r = in_id inst) table, dl_added = [],
     dl_seen = [], dl_excluded = [], dl_stats = \<lparr>ds_created = 0, ds_refreshed = 0, ds_reactivated = 0, ds_deactivated = 0\<rparr>\<rparr>"

definition db_sync_loop ::
  "(string \<times> filter_rule) list \<Rightarrow> db_instance \<Rightarrow> int \<Rightarrow> int \<Rightarrow> db_item list \<Rightarrow> database_row list \<Rightarrow> db_loop" where
  "db_sync_loop rules inst today now items table = fold (db_sync_item rules inst today now) items (db_loop_init inst table)"

text \<open>The table after a run: the rows of other instances, the rows of this one as the loop and the
  deactivation left them, and the rows added; \<^verbatim>\<open>None\<close> when the flush raises.\<close>

definition synchronize_databases ::
  "(string \<times> filter_rule) list \<Rightarrow> db_instance \<Rightarrow> int \<Rightarrow> int \<Rightarrow> db_item list \<Rightarrow> database_row list
     \<Rightarrow> (db_summary \<times> database_row list) option" where
  "synchronize_databases rules inst today now items table =
     (let st = db_sync_loop rules inst today now items table;
          (rows, n) = deactivate_missing_records (dl_seen st) now (dl_existing st);
          table' = filter (\<lambda>r. dr_instance r \<noteq> in_id inst) table @ rows @ dl_added st
      in if unique_rows table'
         then Some (to_summary (dl_seen st) (dl_excluded st) ((dl_stats st)\<lparr>ds_deactivated := n\<rparr>), table')
         else None)"

section \<open>LIKE patterns\<close>

text \<open>The meaning of a pattern, by its pieces: a percent sign is any text, an underscore any one
  character, any other character itself in either case.\<close>

inductive like :: "string \<Rightarrow> string \<Rightarrow> bool" where
  like_nil: "like [] []"
| like_percent: "like p s \<Longrightarrow> like (CHR ''%'' # p) (t @ s)"
| like_underscore: "like p s \<Longrightarrow> like (CHR ''_'' # p) (d # s)"
| like_char: "c \<noteq> CHR ''%'' \<Longrightarrow> c \<noteq> CHR ''_'' \<Longrightarrow> lower_char c = lower_char d \<Longrightarrow> like p s \<Longrightarrow> like (c # p) (d # s)"

inductive_simps like_simps:
  "like [] s" "like (CHR ''%'' # p) s" "like (CHR ''_'' # p) s"

inductive_cases like_charE: "like (c # p) s"

lemma rx_match_star: "newline \<notin> set s \<Longrightarrow> rx_match (Dot_star # r) s \<longleftrightarrow> (\<exists>t u. s = t @ u \<and> rx_match r u)"
proof (induction s)
  case (Cons d s)
  have "(\<exists>t u. d # s = t @ u \<and> rx_match r u) \<longleftrightarrow> rx_match r (d # s) \<or> (\<exists>t u. s = t @ u \<and> rx_match r u)"
    by (simp add: Cons_eq_append_conv) blast
  with Cons show ?case by auto
qed simp

lemma like_char_iff:
  assumes "c \<noteq> CHR ''%''" "c \<noteq> CHR ''_''"
  shows "like (c # p) s \<longleftrightarrow> (\<exists>d s'. s = d # s' \<and> lower_char c = lower_char d \<and> like p s')"
  using assms by (auto elim: like_charE intro: like_char)

lemma compile_match: "newline \<notin> set s \<Longrightarrow> rx_match (compile_pattern p) s \<longleftrightarrow> like p s"
proof (induction p arbitrary: s)
  case Nil
  then show ?case by (auto simp: compile_pattern_def like_simps)
next
  case (Cons c p)
  show ?case
  proof (cases "c = CHR ''%''")
    case True
    have "rx_match (compile_pattern (c # p)) s \<longleftrightarrow> (\<exists>t u. s = t @ u \<and> rx_match (compile_pattern p) u)"
      using Cons.prems True by (simp add: compile_pattern_def rx_match_star)
    also have "\<dots> \<longleftrightarrow> (\<exists>t u. s = t @ u \<and> like p u)"
    proof -
      have "rx_match (compile_pattern p) u \<longleftrightarrow> like p u" if "s = t @ u" for t u
        using that Cons by simp
      then show ?thesis by blast
    qed
    finally show ?thesis using True by (auto simp: like_simps)
  next
    case False
    show ?thesis
    proof (cases s)
      case Nil
      with False show ?thesis
        by (cases "c = CHR ''_''") (simp_all add: compile_pattern_def like_simps like_char_iff)
    next
      case s: (Cons d s')
      then have "rx_match (compile_pattern p) s' \<longleftrightarrow> like p s'" "d \<noteq> newline"
        using Cons.prems Cons.IH by auto
      with s False show ?thesis
        by (cases "c = CHR ''_''") (simp_all add: compile_pattern_def like_simps like_char_iff)
    qed
  qed
qed

section \<open>The loop\<close>

definition accepted_name ::
  "(string \<times> filter_rule) list \<Rightarrow> db_instance \<Rightarrow> db_item \<Rightarrow> string option" where
  "accepted_name rules inst item = (case normalize_database_name item of
      None \<Rightarrow> None
    | Some name \<Rightarrow> if should_skip_system_database inst item
        \<or> fst (should_exclude_database rules (in_db_type inst) (Some name)) then None else Some name)"

definition accepted :: "(string \<times> filter_rule) list \<Rightarrow> db_instance \<Rightarrow> db_item list \<Rightarrow> string list" where
  "accepted rules inst items = List.map_filter (accepted_name rules inst) items"

lemma accepted_snoc: "accepted rules inst (items @ [item]) =
    accepted rules inst items @ (case accepted_name rules inst item of None \<Rightarrow> [] | Some n \<Rightarrow> [n])"
  by (simp add: accepted_def List.map_filter_def split: option.splits)

lemma refresh_props [simp]:
  "dr_name (refresh_existing_record today now r) = dr_name r"
  "dr_instance (refresh_existing_record today now r) = dr_instance r"
  "dr_active (refresh_existing_record today now r)"
  "refresh_existing_record today now (refresh_existing_record today now r) = refresh_existing_record today now r"
  by (simp_all add: refresh_existing_record_def Let_def)

text \<open>The loop state after the accepted names of a prefix.\<close>

definition loop_inv :: "db_instance \<Rightarrow> int \<Rightarrow> int \<Rightarrow> database_row list \<Rightarrow> string list \<Rightarrow> db_loop \<Rightarrow> bool" where
  "loop_inv inst today now rows names st \<longleftrightarrow>
     dl_existing st = map (\<lambda>r. if dr_name r \<in> set names then refresh_existing_record today now r else r) rows
     \<and> dl_added st = map (\<lambda>n. create_new_record (in_id inst) n today now) (filter (\<lambda>n. n \<notin> dr_name ` set rows) names)
     \<and> set (dl_seen st) = set names
     \<and> ds_created (dl_stats st) + ds_refreshed (dl_stats st) + ds_reactivated (dl_stats st) = length names"

lemma loop_inv_step:
  assumes "loop_inv inst today now rows names st"
  shows "loop_inv inst today now rows
    (names @ (case accepted_name rules inst item of None \<Rightarrow> [] | Some n \<Rightarrow> [n])) (db_sync_item rules inst today now item st)"
proof (cases "accepted_name rules inst item")
  case None
  then show ?thesis using assms
    by (auto simp: accepted_name_def db_sync_item_def loop_inv_def split: option.splits if_splits)
next
  case (Some n)
  then have n: "normalize_database_name item = Some n" "\<not> should_skip_system_database inst item"
    "\<not> fst (should_exclude_database rules (in_db_type inst) (Some n))"
    by (auto simp: accepted_name_def split: option.splits if_splits)
  let ?ex = "map (\<lambda>r. if dr_name r \<in> set names then refresh_existing_record today now r else r) rows"
  have ex: "dl_existing st = ?ex" using assms by (simp add: loop_inv_def)
  have ren: "map (\<lambda>r. if dr_name r = n then refresh_existing_record today now r else r) ?ex =
      map (\<lambda>r. if dr_name r \<in> set (names @ [n]) then refresh_existing_record today now r else r) rows"
    by simp
  show ?thesis
  proof (cases "find (\<lambda>r. dr_name r = n) ?ex")
    case None
    have names: "map dr_name ?ex = map dr_name rows" by simp
    have "n \<notin> dr_name ` set ?ex" using None unfolding find_None_iff by blast
    then have new: "n \<notin> dr_name ` set rows" using names by (metis list.set_map)
    then have "map (\<lambda>r. if dr_name r \<in> set (names @ [n]) then refresh_existing_record today now r else r) rows = ?ex"
      by (intro map_cong) auto
    then show ?thesis using assms n Some new None
      by (simp add: db_sync_item_def Let_def loop_inv_def)
  next
    case (Some r)
    then have "n \<in> dr_name ` set rows" by (auto simp: find_Some_iff split: if_splits)
    then show ?thesis using assms n \<open>accepted_name rules inst item = Some n\<close> Some ren
      by (simp add: db_sync_item_def Let_def loop_inv_def)
  qed
qed

lemma loop_inv_loop:
  "loop_inv inst today now (filter (\<lambda>r. dr_instance r = in_id inst) table) (accepted rules inst items)
     (db_sync_loop rules inst today now items table)"
proof (induction items rule: rev_induct)
  case Nil
  then show ?case by (simp add: db_sync_loop_def db_loop_init_def loop_inv_def accepted_def List.map_filter_def)
next
  case (snoc item items)
  then show ?case using loop_inv_step [OF snoc] by (simp add: db_sync_loop_def accepted_snoc)
qed


section \<open>The table after a run\<close>

definition db_active :: "database_row list \<Rightarrow> int \<times> string \<Rightarrow> bool option" where
  "db_active table k = map_option dr_active (find (\<lambda>r. (dr_instance r, dr_name r) = k) table)"

lemma db_sync_table:
  assumes "synchronize_databases rules inst today now items table = Some (smry, table')"
  defines "A \<equiv> accepted rules inst items"
    and "rows \<equiv> filter (\<lambda>r. dr_instance r = in_id inst) table"
  shows "table' = filter (\<lambda>r. dr_instance r \<noteq> in_id inst) table
      @ map (\<lambda>r. if dr_name r \<in> set A then refresh_existing_record today now r
                 else if dr_active r then r\<lparr>dr_active := False, dr_deleted_at := Some now, dr_updated_at := now\<rparr> else r) rows
      @ map (\<lambda>n. create_new_record (in_id inst) n today now) (filter (\<lambda>n. n \<notin> dr_name ` set rows) A)"
    and "sum_active smry = sorted_set A" and "unique_rows table'"
    and "ds_created (sum_stats smry) + ds_refreshed (sum_stats smry) + ds_reactivated (sum_stats smry) = length A"
    and "ds_deactivated (sum_stats smry) = length (filter (\<lambda>r. dr_active r \<and> dr_name r \<notin> set A) rows)"
proof -
  let ?st = "db_sync_loop rules inst today now items table"
  have inv: "loop_inv inst today now rows A ?st" unfolding A_def rows_def by (rule loop_inv_loop)
  obtain rows' n where d: "deactivate_missing_records (dl_seen ?st) now (dl_existing ?st) = (rows', n)" by fastforce
  then have res: "table' = filter (\<lambda>r. dr_instance r \<noteq> in_id inst) table @ rows' @ dl_added ?st"
      "smry = to_summary (dl_seen ?st) (dl_excluded ?st) ((dl_stats ?st)\<lparr>ds_deactivated := n\<rparr>)" "unique_rows table'"
    using assms(1) by (simp_all add: synchronize_databases_def Let_def split: if_splits)
  define h where "h = (\<lambda>r. if dr_name r \<in> set A then refresh_existing_record today now r else r)"
  have ex: "dl_existing ?st = map h rows" and seen: "set (dl_seen ?st) = set A"
    using inv by (simp_all add: loop_inv_def h_def)
  have m: "missing_active (dl_seen ?st) (h r) \<longleftrightarrow> dr_active r \<and> dr_name r \<notin> set A" for r
    by (auto simp: missing_active_def seen h_def)
  have rows': "rows' = map (\<lambda>r. if dr_name r \<in> set A then refresh_existing_record today now r
      else if dr_active r then r\<lparr>dr_active := False, dr_deleted_at := Some now, dr_updated_at := now\<rparr> else r) rows"
    and n: "n = length (filter (\<lambda>r. dr_active r \<and> dr_name r \<notin> set A) rows)"
    using d by (auto simp: deactivate_missing_records_def ex filter_map o_def m, simp_all add: h_def)
  then show "table' = filter (\<lambda>r. dr_instance r \<noteq> in_id inst) table
      @ map (\<lambda>r. if dr_name r \<in> set A then refresh_existing_record today now r
                 else if dr_active r then r\<lparr>dr_active := False, dr_deleted_at := Some now, dr_updated_at := now\<rparr> else r) rows
      @ map (\<lambda>n. create_new_record (in_id inst) n today now) (filter (\<lambda>n. n \<notin> dr_name ` set rows) A)"
    using res(1) inv by (simp add: loop_inv_def)
  show "sum_active smry = sorted_set A"
    using res(2) inv by (auto simp: to_summary_def loop_inv_def intro: sorted_set_cong)
  show "ds_created (sum_stats smry) + ds_refreshed (sum_stats smry) + ds_reactivated (sum_stats smry) = length A"
    using res(2) inv by (simp add: to_summary_def loop_inv_def)
  show "ds_deactivated (sum_stats smry) = length (filter (\<lambda>r. dr_active r \<and> dr_name r \<notin> set A) rows)"
    using res(2) n by (simp add: to_summary_def)
  show "unique_rows table'" by (rule res(3))
qed

lemma find_added: "find (\<lambda>r. (dr_instance r, dr_name r) = (i, m)) (map (\<lambda>n. create_new_record i n today now) ns) =
    (if m \<in> set ns then Some (create_new_record i m today now) else None)"
  by (induction ns) (auto simp: create_new_record_def)

lemma db_sync_active:
  assumes "synchronize_databases rules inst today now items table = Some (smry, table')"
  shows "db_active table' (i, n) =
    (if i \<noteq> in_id inst then db_active table (i, n)
     else if n \<in> set (accepted rules inst items) then Some True
     else map_option (\<lambda>_. False) (db_active table (i, n)))"
proof -
  let ?A = "accepted rules inst items" and ?rows = "filter (\<lambda>r. dr_instance r = in_id inst) table"
  let ?P = "\<lambda>r. (dr_instance r, dr_name r) = (i, n)"
  define g where "g = (\<lambda>r. if dr_name r \<in> set ?A then refresh_existing_record today now r
      else if dr_active r then r\<lparr>dr_active := False, dr_deleted_at := Some now, dr_updated_at := now\<rparr> else r)"
  let ?new = "map (\<lambda>n. create_new_record (in_id inst) n today now) (filter (\<lambda>n. n \<notin> dr_name ` set ?rows) ?A)"
  have t: "table' = filter (\<lambda>r. dr_instance r \<noteq> in_id inst) table @ map g ?rows @ ?new"
    unfolding g_def by (rule db_sync_table(1) [OF assms])
  have gs: "dr_instance (g r) = dr_instance r" "dr_name (g r) = dr_name r" for r by (simp_all add: g_def)
  then have g: "?P (g r) = ?P r" for r by simp
  show ?thesis
  proof (cases "i = in_id inst")
    case False
    have "find ?P (map g ?rows @ ?new) = None"
      using False gs by (intro find_disjoint) (auto simp: create_new_record_def)
    moreover have "find ?P (filter (\<lambda>r. dr_instance r \<noteq> in_id inst) table) = find ?P table"
      using False by (intro find_filter) auto
    ultimately show ?thesis using False by (simp add: db_active_def t find_append split: option.splits)
  next
    case True
    have others: "find ?P (filter (\<lambda>r. dr_instance r \<noteq> in_id inst) table) = None"
      using True by (intro find_disjoint) auto
    have own: "find ?P (map g ?rows) = map_option g (find ?P table)"
      using True find_filter [of ?P "\<lambda>r. dr_instance r = in_id inst" table] find_map [of ?P g ?rows, OF g] by simp
    show ?thesis
    proof (cases "find ?P table")
      case None
      then have "n \<notin> dr_name ` set ?rows" using True by (auto simp: find_None_iff)
      then have "find ?P ?new = (if n \<in> set ?A then Some (create_new_record i n today now) else None)"
        using True find_added [of i n today now "filter (\<lambda>n. n \<notin> dr_name ` set ?rows) ?A"] by simp
      with None show ?thesis using True others own
        by (simp add: db_active_def t find_append create_new_record_def)
    next
      case (Some r)
      then have "dr_name r = n" by (simp add: find_Some_iff) blast
      with Some show ?thesis using True others own
        by (simp add: db_active_def t find_append g_def)
    qed
  qed
qed

lemma db_sync_fails_iff:
  fixes inst :: db_instance
  assumes "unique_rows table"
  defines "rows \<equiv> filter (\<lambda>r. dr_instance r = in_id inst) table"
  shows "synchronize_databases rules inst today now items table = None
    \<longleftrightarrow> \<not> distinct (filter (\<lambda>n. n \<notin> dr_name ` set rows) (accepted rules inst items))"
proof -
  let ?st = "db_sync_loop rules inst today now items table" and ?A = "accepted rules inst items"
  let ?others = "filter (\<lambda>r. dr_instance r \<noteq> in_id inst) table" and ?key = "\<lambda>r. (dr_instance r, dr_name r)"
  have inv: "loop_inv inst today now rows ?A ?st" unfolding rows_def by (rule loop_inv_loop)
  have keys: "map ?key (fst (deactivate_missing_records (dl_seen ?st) now (dl_existing ?st))) = map ?key rows"
    using inv by (auto simp: deactivate_missing_records_def loop_inv_def)
  have "distinct (map ?key (?others @ rows))"
  proof -
    have "inj_on ?key (set table)" "distinct table"
      using assms(1) by (simp_all add: unique_rows_def distinct_map)
    then show ?thesis by (auto simp: rows_def distinct_map inj_on_def)
  qed
  moreover have "?key ` set (?others @ rows) \<inter> (\<lambda>n. (in_id inst, n)) ` {n. n \<notin> dr_name ` set rows} = {}"
    by (auto simp: rows_def)
  moreover have "map ?key (dl_added ?st) = map (\<lambda>n. (in_id inst, n)) (filter (\<lambda>n. n \<notin> dr_name ` set rows) ?A)"
    using inv by (simp add: loop_inv_def create_new_record_def)
  ultimately have "distinct (map ?key (?others @ fst (deactivate_missing_records (dl_seen ?st) now (dl_existing ?st)) @ dl_added ?st))
      \<longleftrightarrow> distinct (filter (\<lambda>n. n \<notin> dr_name ` set rows) ?A)"
    unfolding map_append keys by (auto simp: distinct_map inj_on_def)
  then show ?thesis
    by (simp add: synchronize_databases_def unique_rows_def Let_def case_prod_beta)
qed


section \<open>The inventory keeps the contract\<close>

text \<open>A report: the filters, the instance, the clock readings and the metadata.\<close>

type_synonym db_report = "(string \<times> filter_rule) list \<times> db_instance \<times> int \<times> int \<times> db_item list"

definition db_run :: "db_report \<Rightarrow> database_row list \<Rightarrow> database_row list option" where
  "db_run r table = (case r of (rules, inst, today, now, items) \<Rightarrow>
     map_option snd (synchronize_databases rules inst today now items table))"

definition db_scope :: "db_report \<Rightarrow> int \<times> string \<Rightarrow> bool" where
  "db_scope r k = (case r of (rules, inst, today, now, items) \<Rightarrow> fst k = in_id inst)"

definition db_live :: "db_report \<Rightarrow> int \<times> string \<Rightarrow> bool" where
  "db_live r k = (case r of (rules, inst, today, now, items) \<Rightarrow>
     fst k = in_id inst \<and> snd k \<in> set (accepted rules inst items))"

lemmas db_report_defs = db_run_def db_scope_def db_live_def

interpretation databases: reconcile db_run db_active db_scope db_live db_live
proof
  fix r :: db_report and s s' and k :: "int \<times> string"
  obtain rules inst today now items where r: "r = (rules, inst, today, now, items)" by (cases r)
  obtain i n where k: "k = (i, n)" by (cases k)
  show "db_live r k \<Longrightarrow> db_scope r k" by (auto simp: db_report_defs r)
  assume run: "db_run r s = Some s'"
  then obtain smry where "synchronize_databases rules inst today now items s = Some (smry, s')"
    by (auto simp: db_report_defs r)
  note act = db_sync_active [OF this, of i n]
  show "db_live r k \<Longrightarrow> db_active s' k = Some True"
    and "db_live r k \<Longrightarrow> db_active s' k \<noteq> None"
    and "db_scope r k \<Longrightarrow> \<not> db_live r k \<Longrightarrow> db_active s' k = map_option (\<lambda>_. False) (db_active s k)"
    and "\<not> db_scope r k \<Longrightarrow> db_active s' k = db_active s k"
    using act by (auto simp: db_report_defs r k)
qed

section \<open>Properties\<close>

text \<open>C6: after a successful run the active databases of the instance are exactly the accepted names:
  those that are not blank, not a system database (MySQL keeps its own) and not excluded
  by the filters. The rows of other instances do not change, no row is lost, the summary
  lists the accepted names, and its counters account for every accepted entry and every
  row deactivated.\<close>

theorem database_inventory_exact:
  assumes "synchronize_databases rules inst today now items table = Some (smry, table')"
  shows "(db_active table' (in_id inst, n) = Some True \<longleftrightarrow> n \<in> set (accepted rules inst items))
    \<and> (i \<noteq> in_id inst \<longrightarrow> db_active table' (i, n) = db_active table (i, n))
    \<and> (db_active table (i, n) \<noteq> None \<longrightarrow> db_active table' (i, n) \<noteq> None)
    \<and> sum_active smry = sorted_set (accepted rules inst items)
    \<and> ds_created (sum_stats smry) + ds_refreshed (sum_stats smry) + ds_reactivated (sum_stats smry)
      = length (accepted rules inst items)
    \<and> ds_deactivated (sum_stats smry) = length (filter (\<lambda>r. dr_active r \<and> dr_name r \<notin> set (accepted rules inst items))
        (filter (\<lambda>r. dr_instance r = in_id inst) table))"
  using db_sync_active [OF assms(1)] db_sync_table(2,4,5) [OF assms(1)] by auto

definition mysql_instance :: db_instance where
  "mysql_instance = \<lparr>in_id = 1, in_db_type = Some ''mysql''\<rparr>"

lemma mysql_instance_id [simp]: "in_id mysql_instance = 1"
  by (simp add: mysql_instance_def)

definition mysql_rules :: "(string \<times> filter_rule) list" where
  "mysql_rules = normalize_rules [(''mysql'', [''sys''], [''tmp_%''])]"

definition mysql_items :: "db_item list" where
  "mysql_items = [\<lparr>di_name = Some '' app '', di_is_system = False\<rparr>, \<lparr>di_name = Some ''SYS'', di_is_system = True\<rparr>,
     \<lparr>di_name = Some ''TMP_1'', di_is_system = False\<rparr>, \<lparr>di_name = None, di_is_system = False\<rparr>]"

lemma mysql_accepted: "accepted mysql_rules mysql_instance mysql_items = [''app'']"
  by code_simp

lemma mysql_run:
  obtains smry table' where "synchronize_databases mysql_rules mysql_instance 7 9 mysql_items [create_new_record 1 ''old'' 1 1] = Some (smry, table')"
proof -
  let ?t = "[create_new_record 1 ''old'' 1 1]"
  have "unique_rows ?t" by (simp add: unique_rows_def)
  then have "synchronize_databases mysql_rules mysql_instance 7 9 mysql_items ?t \<noteq> None"
    by (subst db_sync_fails_iff) (simp_all add: mysql_accepted del: filter.simps)
  with that show ?thesis by auto
qed

theorem database_inventory_exact_witness:
  "\<exists>smry table'. synchronize_databases mysql_rules mysql_instance 7 9 mysql_items [create_new_record 1 ''old'' 1 1] = Some (smry, table')
     \<and> db_active table' (1, ''app'') = Some True \<and> db_active table' (1, ''old'') \<noteq> Some True \<and> sum_active smry = [''app'']"
proof -
  obtain smry table' where r: "synchronize_databases mysql_rules mysql_instance 7 9 mysql_items [create_new_record 1 ''old'' 1 1] = Some (smry, table')"
    by (rule mysql_run)
  have "sorted_set [''app''] = [''app'']" by (simp add: sorted_set_def)
  with database_inventory_exact [OF r, of "''app''"] database_inventory_exact [OF r, of "''old''"] r
  show ?thesis by (simp add: mysql_accepted)
qed

text \<open>a run fails, leaving the table as it was, exactly when the report names a database that is
  new to the instance more than once: the loop adds a row for each mention, because the
  map of existing rows is not updated, and the unique constraint refuses the second.\<close>

theorem database_inventory_fails_on_duplicates:
  fixes inst :: db_instance
  assumes "unique_rows table"
  shows "synchronize_databases rules inst today now items table = None
    \<longleftrightarrow> \<not> distinct (filter (\<lambda>n. n \<notin> dr_name ` set (filter (\<lambda>r. dr_instance r = in_id inst) table))
          (accepted rules inst items))"
  by (rule db_sync_fails_iff [OF assms])

theorem database_inventory_fails_on_duplicates_witness:
  "synchronize_databases [] mysql_instance 7 9
     [\<lparr>di_name = Some ''app'', di_is_system = False\<rparr>, \<lparr>di_name = Some ''app '', di_is_system = False\<rparr>] [] = None"
proof -
  have "accepted [] mysql_instance [\<lparr>di_name = Some ''app'', di_is_system = False\<rparr>, \<lparr>di_name = Some ''app '', di_is_system = False\<rparr>]
      = [''app'', ''app'']" by code_simp
  then show ?thesis
    by (subst database_inventory_fails_on_duplicates) (simp_all add: unique_rows_def)
qed

text \<open>the last run decides. After any sequence of successful runs, over any instances and reports,
  the active databases of the instance of the last run are exactly those its report
  accepts.\<close>

theorem last_database_report_decides:
  assumes "run_all db_run (reports @ [(rules, inst, today, now, items)]) table = Some table'"
  shows "db_active table' (in_id inst, n) = Some True \<longleftrightarrow> n \<in> set (accepted rules inst items)"
  using databases.last_run_decides [OF assms, of "(in_id inst, n)"] by (simp add: db_scope_def db_live_def)

theorem last_database_report_decides_witness:
  "\<exists>table'. run_all db_run ([] @ [(mysql_rules, mysql_instance, 7, 9, mysql_items)]) [create_new_record 1 ''old'' 1 1] = Some table'
     \<and> db_active table' (1, ''app'') = Some True"
proof -
  obtain smry table' where "synchronize_databases mysql_rules mysql_instance 7 9 mysql_items [create_new_record 1 ''old'' 1 1] = Some (smry, table')"
    by (rule mysql_run)
  then have r: "run_all db_run ([] @ [(mysql_rules, mysql_instance, 7, 9, mysql_items)]) [create_new_record 1 ''old'' 1 1] = Some table'"
    by (simp add: db_run_def)
  from last_database_report_decides [OF r, of "''app''"] r show ?thesis
    by (simp add: mysql_accepted)
qed

text \<open>the filters exclude a name exactly when it is listed for the type of the instance, in any
  case, or matches one of its LIKE patterns.\<close>

theorem filters_exclude_like:
  assumes "newline \<notin> set name" and "distinct (map fst filters)"
  shows "fst (should_exclude_database (normalize_rules filters) (Some t) (Some name)) \<longleftrightarrow>
    name \<noteq> [] \<and> t \<noteq> [] \<and> (\<exists>names patterns. (lower t, names, patterns) \<in> set filters
      \<and> (lower name \<in> lower ` set names \<or> (\<exists>p \<in> set patterns. like p name)))"
proof -
  have first: "first_match (map (\<lambda>p. (p, compile_pattern p)) ps) name \<noteq> None \<longleftrightarrow> (\<exists>p \<in> set ps. like p name)" for ps
    by (induction ps) (auto simp: compile_match [OF assms(1)])
  have look: "map_of (normalize_rules filters) t = map_option (\<lambda>(names, patterns).
      \<lparr>fr_exclude = map lower names, fr_patterns = map (\<lambda>p. (p, compile_pattern p)) patterns\<rparr>) (map_of filters t)" for t
    by (induction filters) (auto simp: normalize_rules_def)
  have excl: "fst (should_exclude_database (normalize_rules filters) (Some t) (Some name)) \<longleftrightarrow>
      name \<noteq> [] \<and> t \<noteq> [] \<and> (\<exists>names patterns. map_of filters (lower t) = Some (names, patterns)
        \<and> (lower name \<in> lower ` set names \<or> (\<exists>p \<in> set patterns. like p name)))"
  proof (cases "map_of filters (lower t)")
    case (Some x)
    then show ?thesis
      using first [of "snd x"]
      by (cases x) (auto simp: should_exclude_database_def look Let_def lower_eq_Nil split: option.splits)
  qed (simp add: should_exclude_database_def look Let_def lower_eq_Nil)
  also have "(\<exists>names patterns. map_of filters (lower t) = Some (names, patterns)
        \<and> (lower name \<in> lower ` set names \<or> (\<exists>p \<in> set patterns. like p name)))
      \<longleftrightarrow> (\<exists>names patterns. (lower t, names, patterns) \<in> set filters
        \<and> (lower name \<in> lower ` set names \<or> (\<exists>p \<in> set patterns. like p name)))"
    using assms(2) by (metis map_of_SomeD map_of_is_SomeI)
  finally show ?thesis .
qed

theorem filters_exclude_like_witness:
  "fst (should_exclude_database mysql_rules (Some ''MySQL'') (Some ''Tmp_x''))"
proof -
  have "lower_char (CHR ''t'') = lower_char (CHR ''T'')" by code_simp
  then have "like ''tmp_%'' ''Tmp_x''"
    using like_percent [OF like_nil, of "''x''"] by (auto intro!: like_char like_underscore)
  moreover have "lower ''MySQL'' = ''mysql''" by code_simp
  ultimately show ?thesis unfolding mysql_rules_def
    by (subst filters_exclude_like) (auto simp: newline_def)
qed

end
