(* ===== verification/Account_Inventory.thy ===== *)
theory Account_Inventory
  imports Reconcile
begin

text \<open>
  The inventory of the accounts of an instance:
  \<^verbatim>\<open>app/services/accounts_sync/inventory_manager.py\<close> over the table \<^verbatim>\<open>instance_accounts\<close>.
  An account is owned by its instance or, on SQL Server, by an availability group; the
  owner, the database type and the user name are its key. A row object is addressed by its
  id; the objects the code changes in place are the rows of the table, and the dictionary
  \<^verbatim>\<open>existing_map\<close> maps keys to ids. \<^verbatim>\<open>now\<close> is the reading of the clock.
\<close>

section \<open>Rows and reports\<close>

record account_row =
  ar_id :: nat
  ar_instance :: int
  ar_username :: string
  ar_db_type :: string
  ar_owner_type :: string
  ar_owner_id :: "int option"
  ar_cluster :: "int option"
  ar_group :: "int option"
  ar_active :: bool
  ar_deleted_at :: "int option"
  ar_updated_at :: int

record account_instance =
  ai_id :: int
  ai_db_type :: string

text \<open>A remote account: \<^verbatim>\<open>None\<close> is a key that is missing or \<^verbatim>\<open>None\<close>; a missing
  \<^verbatim>\<open>is_active\<close> reads as true.\<close>

record remote_account =
  ra_username :: string
  ra_db_type :: "string option"
  ra_is_active :: "bool option"
  ra_owner_type :: "string option"
  ra_owner_id :: "int option"
  ra_cluster :: "int option"
  ra_group :: "int option"

type_synonym owner_key = "string \<times> int \<times> string \<times> string"
type_synonym owner_scope = "string \<times> int \<times> string"

record account_table =
  at_rows :: "account_row list"
  at_next :: nat

definition owner_fields_from_remote ::
  "account_instance \<Rightarrow> remote_account \<Rightarrow> string \<times> int \<times> int option \<times> int option" where
  "owner_fields_from_remote inst item =
     (let raw = (case ra_owner_type item of None \<Rightarrow> ''instance'' | Some t \<Rightarrow> if t = [] then ''instance'' else t);
          owner_type = (if strip raw = [] then ''instance'' else strip raw);
          owner_id = (case ra_owner_id item of Some i \<Rightarrow> i | None \<Rightarrow> ai_id inst)
      in if owner_type = ''instance'' then (owner_type, owner_id, None, None)
         else (owner_type, owner_id, ra_cluster item, ra_group item))"

definition remote_db_type :: "account_instance \<Rightarrow> remote_account \<Rightarrow> string" where
  "remote_db_type inst item =
     lower (case ra_db_type item of None \<Rightarrow> ai_db_type inst | Some t \<Rightarrow> if t = [] then ai_db_type inst else t)"

definition remote_is_active :: "remote_account \<Rightarrow> bool" where
  "remote_is_active item = (case ra_is_active item of None \<Rightarrow> True | Some b \<Rightarrow> b)"

definition owner_fields_from_record ::
  "account_instance \<Rightarrow> account_row \<Rightarrow> string \<times> int \<times> int option \<times> int option" where
  "owner_fields_from_record inst r =
     (let owner_type = (if ar_owner_type r = [] then ''instance'' else ar_owner_type r);
          owner_id = (case ar_owner_id r of Some i \<Rightarrow> i | None \<Rightarrow> ai_id inst)
      in if owner_type = ''instance'' then (owner_type, owner_id, None, None)
         else (owner_type, owner_id, ar_cluster r, ar_group r))"

definition owner_key_from_record :: "account_instance \<Rightarrow> account_row \<Rightarrow> owner_key" where
  "owner_key_from_record inst r = (case owner_fields_from_record inst r of
     (owner_type, owner_id, _, _) \<Rightarrow> (owner_type, owner_id, lower (ar_db_type r), ar_username r))"

definition owner_scope_from_record :: "account_instance \<Rightarrow> account_row \<Rightarrow> owner_scope" where
  "owner_scope_from_record inst r = (case owner_fields_from_record inst r of
     (owner_type, owner_id, _, _) \<Rightarrow> (owner_type, owner_id, lower (ar_db_type r)))"

definition remote_scope :: "account_instance \<Rightarrow> remote_account \<Rightarrow> owner_scope" where
  "remote_scope inst item = (case owner_fields_from_remote inst item of
     (owner_type, owner_id, _, _) \<Rightarrow> (owner_type, owner_id, remote_db_type inst item))"

definition remote_key :: "account_instance \<Rightarrow> remote_account \<Rightarrow> owner_key" where
  "remote_key inst item = (case owner_fields_from_remote inst item of
     (owner_type, owner_id, _, _) \<Rightarrow> (owner_type, owner_id, remote_db_type inst item, strip (ra_username item)))"

definition owner_scopes_from_remote_accounts :: "account_instance \<Rightarrow> remote_account list \<Rightarrow> owner_scope list" where
  "owner_scopes_from_remote_accounts inst items =
     remdups (map (remote_scope inst) (filter (\<lambda>item. strip (ra_username item) \<noteq> []) items))"

section \<open>The rows the run works on\<close>

definition list_instance_accounts :: "int \<Rightarrow> account_table \<Rightarrow> account_row list" where
  "list_instance_accounts instance_id t = filter (\<lambda>r. ar_instance r = instance_id) (at_rows t)"

definition list_instance_accounts_by_owner :: "string \<Rightarrow> int \<Rightarrow> account_table \<Rightarrow> account_row list" where
  "list_instance_accounts_by_owner owner_type owner_id t =
     filter (\<lambda>r. ar_owner_type r = owner_type \<and> ar_owner_id r = Some owner_id) (at_rows t)"

fun add_unseen :: "account_row list \<Rightarrow> account_row list \<Rightarrow> account_row list" where
  "add_unseen [] existing = existing"
| "add_unseen (r # rs) existing =
     add_unseen rs (if ar_id r \<in> ar_id ` set existing then existing else existing @ [r])"

definition add_scope_accounts :: "account_table \<Rightarrow> owner_scope \<Rightarrow> account_row list \<Rightarrow> account_row list" where
  "add_scope_accounts t scope existing = (case scope of (owner_type, owner_id, _) \<Rightarrow>
     if owner_type = ''instance'' then existing
     else add_unseen (list_instance_accounts_by_owner owner_type owner_id t) existing)"

definition list_existing_accounts_for_sync ::
  "account_instance \<Rightarrow> owner_scope list \<Rightarrow> account_table \<Rightarrow> account_row list" where
  "list_existing_accounts_for_sync inst scopes t =
     fold (add_scope_accounts t) scopes (list_instance_accounts (ai_id inst) t)"

section \<open>The synchronisation\<close>

record account_loop =
  al_table :: account_table
  al_map :: "(owner_key \<times> nat) list"
  al_seen :: "owner_key list"
  al_scopes :: "owner_scope list"
  al_created :: nat
  al_refreshed :: nat
  al_reactivated :: nat
  al_created_names :: "string list"
  al_reactivated_names :: "string list"
  al_active :: "nat list"

definition get_row :: "nat \<Rightarrow> account_table \<Rightarrow> account_row option" where
  "get_row rid t = find (\<lambda>r. ar_id r = rid) (at_rows t)"

definition write_row :: "nat \<Rightarrow> (account_row \<Rightarrow> account_row) \<Rightarrow> account_table \<Rightarrow> account_table" where
  "write_row rid f t = t\<lparr>at_rows := map (\<lambda>r. if ar_id r = rid then f r else r) (at_rows t)\<rparr>"

definition refresh_account :: "account_instance \<Rightarrow> int \<Rightarrow> remote_account \<Rightarrow> account_row \<Rightarrow> account_row" where
  "refresh_account inst now item r = (case owner_fields_from_remote inst item of
     (owner_type, owner_id, cluster, grp) \<Rightarrow>
       (let r' = r\<lparr>ar_updated_at := now, ar_db_type := remote_db_type inst item, ar_owner_type := owner_type,
                   ar_owner_id := Some owner_id, ar_cluster := cluster, ar_group := grp\<rparr>
        in if \<not> ar_active r' \<and> remote_is_active item then r'\<lparr>ar_active := True, ar_deleted_at := None\<rparr> else r'))"

definition new_account :: "account_instance \<Rightarrow> int \<Rightarrow> nat \<Rightarrow> remote_account \<Rightarrow> account_row" where
  "new_account inst now rid item = (case owner_fields_from_remote inst item of
     (owner_type, owner_id, cluster, grp) \<Rightarrow>
       \<lparr>ar_id = rid, ar_instance = ai_id inst, ar_username = strip (ra_username item),
        ar_db_type = remote_db_type inst item, ar_owner_type = owner_type, ar_owner_id = Some owner_id,
        ar_cluster = cluster, ar_group = grp, ar_active = remote_is_active item, ar_deleted_at = None,
        ar_updated_at = now\<rparr>)"

definition sync_account :: "account_instance \<Rightarrow> int \<Rightarrow> remote_account \<Rightarrow> account_loop \<Rightarrow> account_loop" where
  "sync_account inst now item st =
     (let username = strip (ra_username item);
          key = remote_key inst item
      in if username = [] then st
         else let st1 = st\<lparr>al_seen := key # al_seen st, al_scopes := remote_scope inst item # al_scopes st\<rparr>
              in case map_of (al_map st1) key of
                   Some rid \<Rightarrow>
                     (let reactivates = (case get_row rid (al_table st1) of
                            Some r \<Rightarrow> \<not> ar_active r \<and> remote_is_active item | None \<Rightarrow> False);
                          st2 = st1\<lparr>al_table := write_row rid (refresh_account inst now item) (al_table st1)\<rparr>;
                          st3 = (if reactivates
                            then st2\<lparr>al_reactivated := al_reactivated st2 + 1,
                                     al_reactivated_names := al_reactivated_names st2 @ [username]\<rparr>
                            else st2\<lparr>al_refreshed := al_refreshed st2 + 1\<rparr>)
                      in if remote_is_active item then st3\<lparr>al_active := al_active st3 @ [rid]\<rparr> else st3)
                 | None \<Rightarrow>
                     (let rid = at_next (al_table st1);
                          st2 = st1\<lparr>al_table := \<lparr>at_rows = at_rows (al_table st1) @ [new_account inst now rid item], at_next = Suc rid\<rparr>,
                                    al_map := (key, rid) # al_map st1, al_created := al_created st1 + 1,
                                    al_created_names := al_created_names st1 @ [username]\<rparr>
                      in if remote_is_active item then st2\<lparr>al_active := al_active st2 @ [rid]\<rparr> else st2))"

definition account_loop_init :: "account_instance \<Rightarrow> account_row list \<Rightarrow> account_table \<Rightarrow> account_loop" where
  "account_loop_init inst existing t = \<lparr>al_table = t,
     al_map = rev (map (\<lambda>r. (owner_key_from_record inst r, ar_id r)) existing), al_seen = [], al_scopes = [],
     al_created = 0, al_refreshed = 0, al_reactivated = 0, al_created_names = [], al_reactivated_names = [], al_active = []\<rparr>"

definition deactivates :: "account_instance \<Rightarrow> nat list \<Rightarrow> owner_scope list \<Rightarrow> owner_key list \<Rightarrow> account_row \<Rightarrow> bool" where
  "deactivates inst existing_ids scopes seen r \<longleftrightarrow>
     ar_id r \<in> set existing_ids \<and> owner_scope_from_record inst r \<in> set scopes
     \<and> owner_key_from_record inst r \<notin> set seen \<and> ar_active r"

definition deactivate_account :: "int \<Rightarrow> account_row \<Rightarrow> account_row" where
  "deactivate_account now r = r\<lparr>ar_active := False, ar_deleted_at := Some now, ar_updated_at := now\<rparr>"

record account_summary =
  as_created :: nat
  as_refreshed :: nat
  as_reactivated :: nat
  as_deactivated :: nat
  as_active_count :: nat
  as_total_remote :: nat
  as_processed :: nat
  as_created_accounts :: "string list"
  as_reactivated_accounts :: "string list"

text \<open>The unique constraint of the table; rows without an owner id do not clash.\<close>

definition unique_accounts :: "account_table \<Rightarrow> bool" where
  "unique_accounts t \<longleftrightarrow> distinct (map (\<lambda>r. (ar_owner_type r, ar_owner_id r, ar_db_type r, ar_username r))
     (filter (\<lambda>r. ar_owner_id r \<noteq> None) (at_rows t)))"

definition run_account_loop ::
  "account_instance \<Rightarrow> int \<Rightarrow> remote_account list \<Rightarrow> account_table \<Rightarrow> account_loop" where
  "run_account_loop inst now items t =
     fold (sync_account inst now) items
       (account_loop_init inst (list_existing_accounts_for_sync inst (owner_scopes_from_remote_accounts inst items) t) t)"

definition sync_scopes :: "account_instance \<Rightarrow> account_loop \<Rightarrow> owner_scope list" where
  "sync_scopes inst st = (if al_scopes st = [] then [(''instance'', ai_id inst, lower (ai_db_type inst))] else al_scopes st)"

definition synchronize_accounts ::
  "account_instance \<Rightarrow> int \<Rightarrow> remote_account list \<Rightarrow> account_table
     \<Rightarrow> (account_summary \<times> account_row option list \<times> account_table) option" where
  "synchronize_accounts inst now items t =
     (let existing = list_existing_accounts_for_sync inst (owner_scopes_from_remote_accounts inst items) t;
          st = run_account_loop inst now items t;
          leaves = deactivates inst (map ar_id existing) (sync_scopes inst st) (al_seen st);
          t' = (al_table st)\<lparr>at_rows := map (\<lambda>r. if leaves r then deactivate_account now r else r) (at_rows (al_table st))\<rparr>
      in if unique_accounts t'
         then Some (\<lparr>as_created = al_created st, as_refreshed = al_refreshed st, as_reactivated = al_reactivated st,
                as_deactivated = length (filter leaves (at_rows (al_table st))),
                as_active_count = length (al_active st), as_total_remote = length items,
                as_processed = al_created st + al_refreshed st + al_reactivated st,
                as_created_accounts = al_created_names st, as_reactivated_accounts = al_reactivated_names st\<rparr>,
              map (\<lambda>i. get_row i t') (al_active st), t')
         else None)"

section \<open>Well-formed tables and reports\<close>

definition row_key :: "account_row \<Rightarrow> owner_key" where
  "row_key r = (ar_owner_type r, the (ar_owner_id r), ar_db_type r, ar_username r)"

definition row_scope :: "account_row \<Rightarrow> owner_scope" where
  "row_scope r = (ar_owner_type r, the (ar_owner_id r), ar_db_type r)"

text \<open>A row as the code writes it: an owner, a lower-case type, and an account owned by an
  instance belongs to that instance.\<close>

definition row_wf :: "account_row \<Rightarrow> bool" where
  "row_wf r \<longleftrightarrow> ar_owner_id r \<noteq> None \<and> ar_owner_type r \<noteq> [] \<and> lower (ar_db_type r) = ar_db_type r
     \<and> (ar_owner_type r = ''instance'' \<longrightarrow> ar_owner_id r = Some (ar_instance r))"

definition table_wf :: "account_table \<Rightarrow> bool" where
  "table_wf t \<longleftrightarrow> distinct (map ar_id (at_rows t)) \<and> (\<forall>r \<in> set (at_rows t). ar_id r < at_next t \<and> row_wf r)
     \<and> distinct (map row_key (at_rows t))"

definition named :: "remote_account list \<Rightarrow> remote_account list" where
  "named items = filter (\<lambda>item. strip (ra_username item) \<noteq> []) items"

text \<open>A report names no other instance as the owner of an account.\<close>

definition report_wf :: "account_instance \<Rightarrow> remote_account list \<Rightarrow> bool" where
  "report_wf inst items \<longleftrightarrow> (\<forall>item \<in> set (named items).
     fst (remote_scope inst item) = ''instance'' \<longrightarrow> fst (snd (remote_scope inst item)) = ai_id inst)"

definition key_scope :: "owner_key \<Rightarrow> owner_scope" where
  "key_scope k = (fst k, fst (snd k), fst (snd (snd k)))"

lemma key_scope_row [simp]: "key_scope (row_key r) = row_scope r"
  by (simp add: key_scope_def row_key_def row_scope_def)

lemma key_scope_remote [simp]: "key_scope (remote_key inst item) = remote_scope inst item"
  by (simp add: key_scope_def remote_key_def remote_scope_def split: prod.splits)

lemma record_keys:
  "row_wf r \<Longrightarrow> owner_key_from_record inst r = row_key r"
  "row_wf r \<Longrightarrow> owner_scope_from_record inst r = row_scope r"
  by (auto simp: row_wf_def owner_key_from_record_def owner_scope_from_record_def owner_fields_from_record_def
      row_key_def row_scope_def Let_def)

text \<open>The activity flag under a key.\<close>

definition account_active :: "account_table \<Rightarrow> owner_key \<Rightarrow> bool option" where
  "account_active t = map_of (map (\<lambda>r. (row_key r, ar_active r)) (at_rows t))"

lemma account_active_Some:
  "table_wf t \<Longrightarrow> account_active t k = Some b \<longleftrightarrow> (\<exists>r \<in> set (at_rows t). row_key r = k \<and> ar_active r = b)"
  by (subst account_active_def, subst map_of_eq_Some_iff) (auto simp: table_wf_def o_def)

lemma account_active_None: "account_active t k = None \<longleftrightarrow> k \<notin> row_key ` set (at_rows t)"
  by (simp add: account_active_def map_of_eq_None_iff image_image)

section \<open>The existing rows\<close>

lemma set_add_unseen:
  assumes "inj_on ar_id (set rs \<union> set existing)"
  shows "set (add_unseen rs existing) = set rs \<union> set existing"
  using assms
proof (induction rs existing rule: add_unseen.induct)
  case (2 r rs existing)
  show ?case
  proof (cases "ar_id r \<in> ar_id ` set existing")
    case True
    then obtain r' where "r' \<in> set existing" "ar_id r' = ar_id r" by auto
    then have "r \<in> set existing" using inj_onD [OF "2.prems", of r' r] by simp
    with 2 True show ?thesis by (simp add: insert_absorb)
  next
    case False
    with 2 show ?thesis by simp
  qed
qed simp

lemma set_existing:
  assumes "table_wf t"
  shows "set (list_existing_accounts_for_sync inst scopes t) = {r \<in> set (at_rows t). ar_instance r = ai_id inst
     \<or> (\<exists>sc \<in> set scopes. fst sc \<noteq> ''instance'' \<and> ar_owner_type r = fst sc \<and> ar_owner_id r = Some (fst (snd sc)))}"
proof -
  have inj: "inj_on ar_id (set (at_rows t))" using assms by (simp add: table_wf_def distinct_map)
  have "set existing \<subseteq> set (at_rows t) \<Longrightarrow> set (fold (add_scope_accounts t) scopes existing) = set existing \<union> {r \<in> set (at_rows t).
      \<exists>sc \<in> set scopes. fst sc \<noteq> ''instance'' \<and> ar_owner_type r = fst sc \<and> ar_owner_id r = Some (fst (snd sc))}" for existing
  proof (induction scopes arbitrary: existing)
    case (Cons sc scopes)
    obtain ot oi dt where sc: "sc = (ot, oi, dt)" by (cases sc)
    have "set (add_scope_accounts t sc existing) = set existing \<union> {r \<in> set (at_rows t).
        fst sc \<noteq> ''instance'' \<and> ar_owner_type r = fst sc \<and> ar_owner_id r = Some (fst (snd sc))}"
    proof (cases "ot = ''instance''")
      case False
      have "inj_on ar_id (set (list_instance_accounts_by_owner ot oi t) \<union> set existing)"
        using Cons.prems by (intro inj_on_subset [OF inj]) (auto simp: list_instance_accounts_by_owner_def)
      from set_add_unseen [OF this] False show ?thesis
        by (auto simp: sc add_scope_accounts_def list_instance_accounts_by_owner_def)
    qed (simp add: sc add_scope_accounts_def)
    with Cons.IH [of "add_scope_accounts t sc existing"] Cons.prems show ?case by auto
  qed auto
  from this [of "list_instance_accounts (ai_id inst) t"] show ?thesis
    by (auto simp: list_existing_accounts_for_sync_def list_instance_accounts_def)
qed

text \<open>A row in a scope the report answers for is among the existing rows.\<close>

lemma scope_existing:
  assumes "table_wf t" "report_wf inst items" "r \<in> set (at_rows t)"
    and "row_scope r \<in> set (owner_scopes_from_remote_accounts inst items) \<or> row_scope r = (''instance'', ai_id inst, dt)"
  shows "r \<in> set (list_existing_accounts_for_sync inst (owner_scopes_from_remote_accounts inst items) t)"
proof -
  have wf: "row_wf r" using assms(1,3) by (simp add: table_wf_def)
  show ?thesis
  proof (cases "ar_owner_type r = ''instance''")
    case True
    have "fst (snd (row_scope r)) = ai_id inst"
    proof (cases "row_scope r \<in> set (owner_scopes_from_remote_accounts inst items)")
      case scope: True
      then obtain item where item: "item \<in> set (named items)" "remote_scope inst item = row_scope r"
        unfolding owner_scopes_from_remote_accounts_def named_def set_remdups set_map by (elim imageE) simp
      have "fst (remote_scope inst item) = ''instance'' \<longrightarrow> fst (snd (remote_scope inst item)) = ai_id inst"
        using assms(2) item(1) by (simp add: report_wf_def)
      with True item(2) show ?thesis by (simp add: row_scope_def)
    next
      case False
      with assms(4) have "row_scope r = (''instance'', ai_id inst, dt)" by blast
      then show ?thesis by simp
    qed
    with wf True have "ar_instance r = ai_id inst" by (auto simp: row_wf_def row_scope_def)
    with assms(1,3) show ?thesis by (simp add: set_existing)
  next
    case False
    then have "row_scope r \<in> set (owner_scopes_from_remote_accounts inst items)"
      using assms(4) by (auto simp: row_scope_def)
    moreover obtain oi where "ar_owner_id r = Some oi" using wf by (auto simp: row_wf_def)
    ultimately show ?thesis
      unfolding set_existing [OF assms(1)] using assms(3) False
      by (intro CollectI conjI disjI2 bexI [of _ "row_scope r"]) (simp_all add: row_scope_def)
  qed
qed

section \<open>The loop\<close>

text \<open>The flag under a key after the items of a prefix.\<close>

definition flag_after :: "account_instance \<Rightarrow> remote_account list \<Rightarrow> bool option \<Rightarrow> owner_key \<Rightarrow> bool option" where
  "flag_after inst items old k =
     (if k \<in> remote_key inst ` set items
      then Some ((\<exists>item \<in> set items. remote_key inst item = k \<and> remote_is_active item) \<or> old = Some True)
      else old)"

definition acc_inv :: "account_instance \<Rightarrow> owner_scope list \<Rightarrow> account_table \<Rightarrow> remote_account list \<Rightarrow> account_loop \<Rightarrow> bool" where
  "acc_inv inst scopes t done st \<longleftrightarrow> table_wf (al_table st)
     \<and> (\<forall>k rid. map_of (al_map st) k = Some rid \<longrightarrow> (\<exists>r \<in> set (at_rows (al_table st)). ar_id r = rid \<and> row_key r = k))
     \<and> (\<forall>r \<in> set (at_rows (al_table st)). row_scope r \<in> set scopes \<longrightarrow> map_of (al_map st) (row_key r) = Some (ar_id r))
     \<and> (\<forall>k. account_active (al_table st) k = flag_after inst done (account_active t k) k)
     \<and> set (al_seen st) = remote_key inst ` set done \<and> set (al_scopes st) = remote_scope inst ` set done
     \<and> (\<forall>r \<in> set (at_rows (al_table st)). row_key r \<notin> remote_key inst ` set done \<longrightarrow> r \<in> set (at_rows t))
     \<and> al_created st + al_refreshed st + al_reactivated st = length done"

lemma acc_invD:
  assumes "acc_inv inst scopes t done st"
  shows "table_wf (al_table st)"
    and "map_of (al_map st) k = Some rid \<Longrightarrow> \<exists>r \<in> set (at_rows (al_table st)). ar_id r = rid \<and> row_key r = k"
    and "r \<in> set (at_rows (al_table st)) \<Longrightarrow> row_scope r \<in> set scopes \<Longrightarrow> map_of (al_map st) (row_key r) = Some (ar_id r)"
    and "account_active (al_table st) k = flag_after inst done (account_active t k) k"
    and "set (al_seen st) = remote_key inst ` set done" and "set (al_scopes st) = remote_scope inst ` set done"
    and "r \<in> set (at_rows (al_table st)) \<Longrightarrow> row_key r \<notin> remote_key inst ` set done \<Longrightarrow> r \<in> set (at_rows t)"
    and "al_created st + al_refreshed st + al_reactivated st = length done"
proof -
  note I = assms [unfolded acc_inv_def]
  show "table_wf (al_table st)"
    by (rule I [THEN conjunct1, rule_format])
  show "map_of (al_map st) k = Some rid \<Longrightarrow> \<exists>r \<in> set (at_rows (al_table st)). ar_id r = rid \<and> row_key r = k"
    by (rule I [THEN conjunct2, THEN conjunct1, rule_format])
  show "r \<in> set (at_rows (al_table st)) \<Longrightarrow> row_scope r \<in> set scopes \<Longrightarrow> map_of (al_map st) (row_key r) = Some (ar_id r)"
    by (rule I [THEN conjunct2, THEN conjunct2, THEN conjunct1, rule_format])
  show "account_active (al_table st) k = flag_after inst done (account_active t k) k"
    by (rule I [THEN conjunct2, THEN conjunct2, THEN conjunct2, THEN conjunct1, rule_format])
  show "set (al_seen st) = remote_key inst ` set done"
    by (rule I [THEN conjunct2, THEN conjunct2, THEN conjunct2, THEN conjunct2, THEN conjunct1, rule_format])
  show "set (al_scopes st) = remote_scope inst ` set done"
    by (rule I [THEN conjunct2, THEN conjunct2, THEN conjunct2, THEN conjunct2, THEN conjunct2, THEN conjunct1, rule_format])
  show "r \<in> set (at_rows (al_table st)) \<Longrightarrow> row_key r \<notin> remote_key inst ` set done \<Longrightarrow> r \<in> set (at_rows t)"
    by (rule I [THEN conjunct2, THEN conjunct2, THEN conjunct2, THEN conjunct2, THEN conjunct2, THEN conjunct2, THEN conjunct1, rule_format])
  show "al_created st + al_refreshed st + al_reactivated st = length done"
    by (rule I [THEN conjunct2, THEN conjunct2, THEN conjunct2, THEN conjunct2, THEN conjunct2, THEN conjunct2, THEN conjunct2, rule_format])
qed

lemma acc_invI:
  assumes "table_wf (al_table st)"
    and "\<And>k rid. map_of (al_map st) k = Some rid \<Longrightarrow> \<exists>r \<in> set (at_rows (al_table st)). ar_id r = rid \<and> row_key r = k"
    and "\<And>r. r \<in> set (at_rows (al_table st)) \<Longrightarrow> row_scope r \<in> set scopes \<Longrightarrow> map_of (al_map st) (row_key r) = Some (ar_id r)"
    and "\<And>k. account_active (al_table st) k = flag_after inst done (account_active t k) k"
    and "set (al_seen st) = remote_key inst ` set done" and "set (al_scopes st) = remote_scope inst ` set done"
    and "\<And>r. r \<in> set (at_rows (al_table st)) \<Longrightarrow> row_key r \<notin> remote_key inst ` set done \<Longrightarrow> r \<in> set (at_rows t)"
    and "al_created st + al_refreshed st + al_reactivated st = length done"
  shows "acc_inv inst scopes t done st"
  unfolding acc_inv_def using assms by (intro conjI allI ballI impI)

lemma remote_key_parts:
  assumes "owner_fields_from_remote inst item = (ot, oi, c, g)"
  shows "remote_key inst item = (ot, oi, remote_db_type inst item, strip (ra_username item))"
    and "remote_scope inst item = (ot, oi, remote_db_type inst item)"
    and "ot \<noteq> []" and "lower (remote_db_type inst item) = remote_db_type inst item"
  using assms by (auto simp: remote_key_def remote_scope_def owner_fields_from_remote_def Let_def remote_db_type_def
      str_simps split: if_splits)

lemma refresh_account_props:
  assumes "row_wf r" "row_key r = remote_key inst item"
  shows "row_key (refresh_account inst now item r) = row_key r" "ar_id (refresh_account inst now item r) = ar_id r"
    "row_wf (refresh_account inst now item r)"
    "ar_active (refresh_account inst now item r) \<longleftrightarrow> ar_active r \<or> remote_is_active item"
proof -
  obtain ot oi c g where f: "owner_fields_from_remote inst item = (ot, oi, c, g)" by (cases "owner_fields_from_remote inst item")
  note parts = remote_key_parts [OF f]
  from assms(2) have "ar_owner_type r = ot" "the (ar_owner_id r) = oi" "ar_db_type r = remote_db_type inst item"
    "ar_username r = strip (ra_username item)"
    by (simp_all add: parts(1) row_key_def)
  with assms(1) parts show "row_key (refresh_account inst now item r) = row_key r"
    "ar_id (refresh_account inst now item r) = ar_id r" "row_wf (refresh_account inst now item r)"
    "ar_active (refresh_account inst now item r) \<longleftrightarrow> ar_active r \<or> remote_is_active item"
    by (auto simp: refresh_account_def f Let_def row_key_def row_wf_def)
qed

lemma new_account_props:
  "row_key (new_account inst now rid item) = remote_key inst item"
  "ar_id (new_account inst now rid item) = rid"
  "ar_active (new_account inst now rid item) = remote_is_active item"
  "(fst (remote_scope inst item) = ''instance'' \<longrightarrow> fst (snd (remote_scope inst item)) = ai_id inst) \<Longrightarrow>
    row_wf (new_account inst now rid item)"
proof -
  obtain ot oi c g where f: "owner_fields_from_remote inst item = (ot, oi, c, g)" by (cases "owner_fields_from_remote inst item")
  note parts = remote_key_parts [OF f]
  show "row_key (new_account inst now rid item) = remote_key inst item"
    "ar_id (new_account inst now rid item) = rid"
    "ar_active (new_account inst now rid item) = remote_is_active item"
    "(fst (remote_scope inst item) = ''instance'' \<longrightarrow> fst (snd (remote_scope inst item)) = ai_id inst) \<Longrightarrow>
      row_wf (new_account inst now rid item)"
    using parts by (auto simp: new_account_def f row_key_def row_wf_def)
qed

text \<open>Rewriting one row of a well-formed table.\<close>

lemma table_wf_write:
  assumes "table_wf t" "r \<in> set (at_rows t)" "ar_id (f r) = ar_id r" "row_key (f r) = row_key r" "row_wf (f r)"
  shows "table_wf (write_row (ar_id r) f t)"
    and "set (at_rows (write_row (ar_id r) f t)) = insert (f r) (set (at_rows t) - {r})"
    and "account_active (write_row (ar_id r) f t) = (account_active t)(row_key r \<mapsto> ar_active (f r))"
proof -
  have same: "x = r" if "x \<in> set (at_rows t)" "ar_id x = ar_id r" for x
    using assms(1,2) that by (auto simp: table_wf_def distinct_map dest: inj_onD)
  have key: "x = r" if "x \<in> set (at_rows t)" "row_key x = row_key r" for x
    using assms(1,2) that by (auto simp: table_wf_def distinct_map dest: inj_onD)
  let ?rows = "map (\<lambda>x. if ar_id x = ar_id r then f x else x) (at_rows t)"
  have ids: "map ar_id ?rows = map ar_id (at_rows t)" and keys: "map row_key ?rows = map row_key (at_rows t)"
    using same assms(3,4) by auto
  have "set ?rows = (\<lambda>x. if x = r then f r else x) ` set (at_rows t)"
    unfolding set_map by (rule image_cong) (auto dest: same)
  then show set: "set (at_rows (write_row (ar_id r) f t)) = insert (f r) (set (at_rows t) - {r})"
    using assms(2) by (auto simp: write_row_def)
  show wf: "table_wf (write_row (ar_id r) f t)"
    using assms(1,5) set ids keys assms(2) assms(3) unfolding table_wf_def
    by (simp add: write_row_def del: map_map set_map)
  have "row_key ` (set (at_rows t) - {r}) \<union> {row_key r} = row_key ` set (at_rows t)"
    using assms(2) by auto
  then have none: "account_active (write_row (ar_id r) f t) k = None \<longleftrightarrow> account_active t k = None" for k
    unfolding account_active_None set by (simp add: assms(4))
  show "account_active (write_row (ar_id r) f t) = (account_active t)(row_key r \<mapsto> ar_active (f r))"
  proof
    fix k
    show "account_active (write_row (ar_id r) f t) k = ((account_active t)(row_key r \<mapsto> ar_active (f r))) k"
    proof (cases "k = row_key r")
      case True
      have "account_active (write_row (ar_id r) f t) k = Some (ar_active (f r))"
        using account_active_Some [OF wf] set True assms(4) by auto
      with True show ?thesis by simp
    next
      case False
      have "account_active (write_row (ar_id r) f t) k = account_active t k"
      proof (rule option.expand)
        show "(account_active (write_row (ar_id r) f t) k = None) = (account_active t k = None)"
          by (rule none)
      next
        assume "account_active (write_row (ar_id r) f t) k \<noteq> None" "account_active t k \<noteq> None"
        then obtain b where "account_active t k = Some b" by auto
        moreover from this have "account_active (write_row (ar_id r) f t) k = Some b"
          using False set assms(4) key unfolding account_active_Some [OF wf] account_active_Some [OF assms(1)] by auto
        ultimately show "the (account_active (write_row (ar_id r) f t) k) = the (account_active t k)" by simp
      qed
      with False show ?thesis by simp
    qed
  qed
qed

lemma table_wf_add:
  assumes "table_wf t" "ar_id r = at_next t" "row_wf r" "row_key r \<notin> row_key ` set (at_rows t)"
  defines "t' \<equiv> \<lparr>at_rows = at_rows t @ [r], at_next = Suc (at_next t)\<rparr>"
  shows "table_wf t'" and "account_active t' = (account_active t)(row_key r \<mapsto> ar_active r)"
proof -
  show "table_wf t'" using assms(1-4) by (auto simp: table_wf_def t'_def less_Suc_eq)
  have "account_active t (row_key r) = None" using assms(4) by (simp add: account_active_None)
  then show "account_active t' = (account_active t)(row_key r \<mapsto> ar_active r)"
    unfolding account_active_def t'_def by (rule_tac ext) (simp add: map_add_def split: option.split)
qed


lemma flag_after_snoc:
  "flag_after inst (done @ [item]) old k =
    (if k = remote_key inst item
     then Some (flag_after inst done old k = Some True \<or> remote_is_active item) else flag_after inst done old k)"
  by (auto simp: flag_after_def image_iff)

lemma acc_inv_step:
  assumes inv: "acc_inv inst scopes t done st" and nb: "strip (ra_username item) \<noteq> []"
    and sc: "remote_scope inst item \<in> set scopes"
    and own: "fst (remote_scope inst item) = ''instance'' \<longrightarrow> fst (snd (remote_scope inst item)) = ai_id inst"
  shows "acc_inv inst scopes t (done @ [item]) (sync_account inst now item st)"
proof -
  let ?k = "remote_key inst item" and ?t = "al_table st" and ?st = "sync_account inst now item st"
  note D = acc_invD [OF inv]
  note wf = D(1)
  have st': "al_seen ?st = ?k # al_seen st" "al_scopes ?st = remote_scope inst item # al_scopes st"
    "al_created ?st + al_refreshed ?st + al_reactivated ?st = Suc (al_created st + al_refreshed st + al_reactivated st)"
    using nb by (simp_all add: sync_account_def Let_def split: option.split)
  have "set (al_seen ?st) = remote_key inst ` set (done @ [item])"
    "set (al_scopes ?st) = remote_scope inst ` set (done @ [item])"
    "al_created ?st + al_refreshed ?st + al_reactivated ?st = length (done @ [item])"
    by (simp_all add: st' D(5,6,8))
  note common = this
  show ?thesis
  proof (cases "map_of (al_map st) ?k")
    case (Some rid)
    obtain r where r: "r \<in> set (at_rows ?t)" "ar_id r = rid" "row_key r = ?k"
      using D(2) [OF Some] by blast
    have rwf: "row_wf r" using wf r(1) by (simp add: table_wf_def)
    note f = refresh_account_props [OF rwf r(3), of now]
    let ?f = "refresh_account inst now item" and ?t' = "write_row rid (refresh_account inst now item) ?t"
    have w: "table_wf ?t'" "set (at_rows ?t') = insert (?f r) (set (at_rows ?t) - {r})"
      "account_active ?t' = (account_active ?t)(?k \<mapsto> ar_active (?f r))"
      using table_wf_write [where f = ?f, OF wf r(1) f(2,1,3)] unfolding r(2,3) .
    have tab: "al_table ?st = ?t'" "al_map ?st = al_map st"
      using nb Some by (simp_all add: sync_account_def Let_def)
    have old: "account_active ?t ?k = Some (ar_active r)" using account_active_Some [OF wf] r by blast
    show ?thesis
    proof (rule acc_invI, unfold tab)
      fix k
      show "account_active ?t' k = flag_after inst (done @ [item]) (account_active t k) k"
        unfolding flag_after_snoc D(4) [symmetric] by (simp add: w(3) f(4) old)
      show "\<exists>x \<in> set (at_rows ?t'). ar_id x = i \<and> row_key x = k" if m: "map_of (al_map st) k = Some i" for i
      proof -
        obtain x where "x \<in> set (at_rows ?t)" "ar_id x = i" "row_key x = k" using D(2) [OF m] by blast
        then show ?thesis using w(2) f(1,2) by (cases "x = r") auto
      qed
    next
      fix x assume x: "x \<in> set (at_rows ?t')"
      show "map_of (al_map st) (row_key x) = Some (ar_id x)" if "row_scope x \<in> set scopes"
        using x that w(2) Some r(2,3) f(1,2) D(3) by (cases "x = ?f r") auto
      show "x \<in> set (at_rows t)" if "row_key x \<notin> remote_key inst ` set (done @ [item])"
        using x that w(2) f(1) r(3) D(7) by auto
    qed (simp_all only: w(1) common)
  next
    case None
    let ?rid = "at_next ?t"
    let ?r = "new_account inst now ?rid item"
    let ?t' = "\<lparr>at_rows = at_rows ?t @ [?r], at_next = Suc ?rid\<rparr>"
    note f = new_account_props(1-3) [of inst now ?rid item] new_account_props(4) [OF own, of now ?rid]
    have fresh: "?k \<notin> row_key ` set (at_rows ?t)"
    proof
      assume "?k \<in> row_key ` set (at_rows ?t)"
      then obtain x where x: "x \<in> set (at_rows ?t)" "row_key x = ?k" by (elim imageE) simp
      then have "row_scope x \<in> set scopes" using sc by (metis key_scope_row key_scope_remote)
      from D(3) [OF x(1) this] None x(2) show False by simp
    qed
    have w: "table_wf ?t'" "account_active ?t' = (account_active ?t)(?k \<mapsto> remote_is_active item)"
      using table_wf_add [OF wf f(2,4)] fresh unfolding f(1,3) by blast+
    have tab: "al_table ?st = ?t'" "al_map ?st = (?k, ?rid) # al_map st"
      using nb None by (simp_all add: sync_account_def Let_def)
    have none: "account_active ?t ?k = None" using fresh by (simp add: account_active_None)
    have rows: "set (at_rows ?t') = insert ?r (set (at_rows ?t))" by simp
    show ?thesis
    proof (rule acc_invI, unfold tab rows)
      fix k
      show "account_active ?t' k = flag_after inst (done @ [item]) (account_active t k) k"
        unfolding flag_after_snoc D(4) [symmetric] by (simp add: w(2) none)
      show "\<exists>x \<in> insert ?r (set (at_rows ?t)). ar_id x = i \<and> row_key x = k"
        if "map_of ((?k, ?rid) # al_map st) k = Some i" for i
        using that f(1,2) D(2) [of k i] by (auto split: if_splits)
    next
      fix x assume x: "x \<in> insert ?r (set (at_rows ?t))"
      show "map_of ((?k, ?rid) # al_map st) (row_key x) = Some (ar_id x)" if "row_scope x \<in> set scopes"
        using x that fresh f(1,2) D(3) by (cases "x = ?r") (auto simp: image_iff)
      show "x \<in> set (at_rows t)" if "row_key x \<notin> remote_key inst ` set (done @ [item])"
        using x that f(1) D(7) by auto
    qed (simp_all only: w(1) common)
  qed
qed


lemma acc_inv_init:
  assumes wf: "table_wf t" and rep: "report_wf inst items"
  defines "scopes \<equiv> owner_scopes_from_remote_accounts inst items"
  shows "acc_inv inst scopes t [] (account_loop_init inst (list_existing_accounts_for_sync inst scopes t) t)"
proof -
  let ?ex = "list_existing_accounts_for_sync inst scopes t"
  let ?m = "rev (map (\<lambda>r. (owner_key_from_record inst r, ar_id r)) ?ex)"
  have sub: "set ?ex \<subseteq> set (at_rows t)" using wf by (auto simp: set_existing)
  have keys: "owner_key_from_record inst r = row_key r" if "r \<in> set ?ex" for r
    using that sub wf by (auto simp: table_wf_def intro!: record_keys(1))
  have look: "map_of ?m k = Some i \<Longrightarrow> \<exists>r \<in> set ?ex. row_key r = k \<and> ar_id r = i" for k i
    using keys by (auto dest!: map_of_SomeD)
  have uniq: "r = r'" if "r \<in> set (at_rows t)" "r' \<in> set (at_rows t)" "row_key r = row_key r'" for r r'
    using wf that by (auto simp: table_wf_def distinct_map dest: inj_onD)
  have init: "al_table (account_loop_init inst ?ex t) = t" "al_map (account_loop_init inst ?ex t) = ?m"
    "al_seen (account_loop_init inst ?ex t) = []" "al_scopes (account_loop_init inst ?ex t) = []"
    by (simp_all add: account_loop_init_def)
  show ?thesis
  proof (rule acc_invI, unfold init)
    fix r assume r: "r \<in> set (at_rows t)" "row_scope r \<in> set scopes"
    then have ex: "r \<in> set ?ex" unfolding scopes_def by (intro scope_existing [OF wf rep]) simp_all
    then have "map_of ?m (row_key r) \<noteq> None"
      unfolding map_of_eq_None_iff using keys by (force simp: image_iff)
    then obtain i where i: "map_of ?m (row_key r) = Some i" by blast
    from look [OF this] obtain r' where "r' \<in> set ?ex" "row_key r' = row_key r" "ar_id r' = i" by blast
    with uniq [of r r'] r(1) sub i show "map_of ?m (row_key r) = Some (ar_id r)" by auto
  next
    fix k i assume "map_of ?m k = Some i"
    from look [OF this] sub show "\<exists>r \<in> set (at_rows t). ar_id r = i \<and> row_key r = k" by blast
  qed (simp_all add: wf flag_after_def account_loop_init_def)
qed

lemma sync_blank: "strip (ra_username item) = [] \<Longrightarrow> sync_account inst now item st = st"
  by (simp add: sync_account_def Let_def)

lemma acc_inv_run:
  assumes wf: "table_wf t" and rep: "report_wf inst items"
  shows "acc_inv inst (owner_scopes_from_remote_accounts inst items) t (named items) (run_account_loop inst now items t)"
proof -
  let ?scopes = "owner_scopes_from_remote_accounts inst items"
  have own: "remote_scope inst item \<in> set ?scopes \<and>
      (fst (remote_scope inst item) = ''instance'' \<longrightarrow> fst (snd (remote_scope inst item)) = ai_id inst)"
    if "item \<in> set items" "strip (ra_username item) \<noteq> []" for item
    using that rep by (simp add: owner_scopes_from_remote_accounts_def report_wf_def named_def)
  have "acc_inv inst ?scopes t (done @ named xs) (fold (sync_account inst now) xs st)"
    if "acc_inv inst ?scopes t done st" "set xs \<subseteq> set items" for "done" st xs
    using that
  proof (induction xs arbitrary: "done" st)
    case (Cons x xs)
    show ?case
    proof (cases "strip (ra_username x) = []")
      case True
      then show ?thesis using Cons by (simp add: sync_blank named_def)
    next
      case False
      have "acc_inv inst ?scopes t (done @ [x]) (sync_account inst now x st)"
        using Cons.prems own [of x] False by (intro acc_inv_step) auto
      from Cons.IH [OF this] Cons.prems(2) False show ?thesis by (simp add: named_def)
    qed
  qed (simp add: named_def)
  from this [OF acc_inv_init [OF wf rep] subset_refl] show ?thesis
    by (simp add: run_account_loop_def)
qed

section \<open>The table after a run\<close>

text \<open>The scopes a run answers for.\<close>

definition answered_scopes :: "account_instance \<Rightarrow> remote_account list \<Rightarrow> owner_scope set" where
  "answered_scopes inst items =
     (if named items = [] then {(''instance'', ai_id inst, lower (ai_db_type inst))} else remote_scope inst ` set (named items))"

text \<open>The flag under a key after the whole run.\<close>

definition final_flag :: "account_instance \<Rightarrow> remote_account list \<Rightarrow> bool option \<Rightarrow> owner_key \<Rightarrow> bool option" where
  "final_flag inst items old k =
     (if k \<in> remote_key inst ` set (named items)
      then Some ((\<exists>item \<in> set (named items). remote_key inst item = k \<and> remote_is_active item) \<or> old = Some True)
      else if key_scope k \<in> answered_scopes inst items then map_option (\<lambda>_. False) old
      else old)"

lemma deactivate_account_props [simp]:
  "row_key (deactivate_account now r) = row_key r" "ar_id (deactivate_account now r) = ar_id r"
  "row_wf (deactivate_account now r) = row_wf r" "\<not> ar_active (deactivate_account now r)"
  by (simp_all add: deactivate_account_def row_key_def row_wf_def)

lemma synchronize_accounts_correct:
  assumes wf: "table_wf t" and rep: "report_wf inst items"
  obtains smry active t' where "synchronize_accounts inst now items t = Some (smry, active, t')"
    "table_wf t'" "\<And>k. account_active t' k = final_flag inst items (account_active t k) k"
    "as_created smry + as_refreshed smry + as_reactivated smry = length (named items)"
    "as_processed smry = length (named items)" "as_total_remote smry = length items"
proof -
  let ?scopes = "owner_scopes_from_remote_accounts inst items"
  let ?ex = "list_existing_accounts_for_sync inst ?scopes t" and ?st = "run_account_loop inst now items t"
  let ?leaves = "deactivates inst (map ar_id ?ex) (sync_scopes inst ?st) (al_seen ?st)"
  note D = acc_invD [OF acc_inv_run [OF wf rep, of now]]
  define f where "f = (\<lambda>r. if ?leaves r then deactivate_account now r else r)"
  let ?t' = "(al_table ?st)\<lparr>at_rows := map f (at_rows (al_table ?st))\<rparr>"
  have fs: "row_key (f r) = row_key r" "ar_id (f r) = ar_id r" "row_wf (f r) = row_wf r" for r
    by (simp_all add: f_def)
  have keys: "map row_key (map f rows) = map row_key rows" "map ar_id (map f rows) = map ar_id rows" for rows
    by (simp_all add: fs)
  have wf': "table_wf ?t'"
    using D(1) keys fs by (simp add: table_wf_def del: map_map)
  have sc: "set (sync_scopes inst ?st) = answered_scopes inst items"
    using D(6) by (auto simp: sync_scopes_def answered_scopes_def)
  have scopes: "set ?scopes = remote_scope inst ` set (named items)"
    by (simp add: owner_scopes_from_remote_accounts_def named_def)
  have leaves: "?leaves r \<longleftrightarrow> row_scope r \<in> answered_scopes inst items
      \<and> row_key r \<notin> remote_key inst ` set (named items) \<and> ar_active r" if r: "r \<in> set (at_rows (al_table ?st))" for r
  proof -
    have rw: "row_wf r" using D(1) r by (simp add: table_wf_def)
    have "ar_id r \<in> set (map ar_id ?ex)"
      if s: "row_scope r \<in> answered_scopes inst items" "row_key r \<notin> remote_key inst ` set (named items)"
    proof -
      have "r \<in> set (at_rows t)" using D(7) [OF r s(2)] .
      moreover have "row_scope r \<in> set ?scopes \<or> row_scope r = (''instance'', ai_id inst, lower (ai_db_type inst))"
        using s(1) scopes by (auto simp: answered_scopes_def split: if_splits)
      ultimately have "r \<in> set ?ex" by (intro scope_existing [OF wf rep])
      then show ?thesis by simp
    qed
    then show ?thesis using record_keys [OF rw, of inst] sc D(5) by (auto simp: deactivates_def)
  qed
  have flags: "account_active ?t' k = final_flag inst items (account_active t k) k" for k
  proof -
    have old: "account_active (al_table ?st) k = flag_after inst (named items) (account_active t k) k" by (rule D(4))
    show ?thesis
    proof (cases "account_active (al_table ?st) k")
      case None
      then have "account_active ?t' k = None" by (simp add: account_active_None image_image fs)
      with None old show ?thesis by (auto simp: flag_after_def final_flag_def split: if_splits)
    next
      case (Some b)
      then obtain r where r: "r \<in> set (at_rows (al_table ?st))" "row_key r = k" "ar_active r = b"
        using account_active_Some [OF D(1)] by blast
      have "account_active ?t' k = Some (ar_active (f r))"
        unfolding account_active_Some [OF wf'] using r fs by auto
      moreover have "ar_active (f r) \<longleftrightarrow> b \<and> \<not> (key_scope k \<in> answered_scopes inst items \<and> k \<notin> remote_key inst ` set (named items))"
        using leaves [OF r(1)] r(2,3) by (auto simp: f_def)
      ultimately show ?thesis using Some old
        by (auto simp: flag_after_def final_flag_def split: if_splits)
    qed
  qed
  have "unique_accounts ?t'"
  proof -
    have inj: "distinct (map row_key (at_rows ?t'))" and rws: "\<forall>r \<in> set (at_rows ?t'). row_wf r"
      using wf' by (simp_all add: table_wf_def)
    then have "distinct (map row_key (filter (\<lambda>r. ar_owner_id r \<noteq> None) (at_rows ?t')))"
      by (rule_tac distinct_map_filter)
    then show ?thesis using rws
      unfolding unique_accounts_def distinct_map
      by (auto simp: inj_on_def row_key_def)
  qed
  then have "\<exists>smry active. synchronize_accounts inst now items t = Some (smry, active, ?t')
      \<and> as_created smry + as_refreshed smry + as_reactivated smry = length (named items)
      \<and> as_processed smry = length (named items) \<and> as_total_remote smry = length items"
    using D(8) by (simp add: synchronize_accounts_def Let_def f_def)
  with wf' flags show ?thesis using that by blast
qed


section \<open>The inventory keeps the contract\<close>

type_synonym account_report = "account_instance \<times> int \<times> remote_account list"

definition account_run :: "account_report \<Rightarrow> account_table \<Rightarrow> account_table option" where
  "account_run r t = (case r of (inst, now, items) \<Rightarrow>
     if table_wf t \<and> report_wf inst items then map_option (\<lambda>x. snd (snd x)) (synchronize_accounts inst now items t) else None)"

definition account_scope :: "account_report \<Rightarrow> owner_key \<Rightarrow> bool" where
  "account_scope r k = (case r of (inst, now, items) \<Rightarrow> key_scope k \<in> answered_scopes inst items)"

definition account_reported :: "account_report \<Rightarrow> owner_key \<Rightarrow> bool" where
  "account_reported r k = (case r of (inst, now, items) \<Rightarrow> k \<in> remote_key inst ` set (named items))"

definition account_live :: "account_report \<Rightarrow> owner_key \<Rightarrow> bool" where
  "account_live r k = (case r of (inst, now, items) \<Rightarrow>
     \<exists>item \<in> set (named items). remote_key inst item = k \<and> remote_is_active item)"

lemmas account_report_defs = account_scope_def account_reported_def account_live_def

lemma account_run_flags:
  assumes "account_run (inst, now, items) t = Some t'"
  shows "table_wf t' \<and> account_active t' k = final_flag inst items (account_active t k) k"
proof -
  have wf: "table_wf t" "report_wf inst items" using assms by (auto simp: account_run_def split: if_splits)
  obtain smry active t1 where "synchronize_accounts inst now items t = Some (smry, active, t1)" "table_wf t1"
    "\<And>k. account_active t1 k = final_flag inst items (account_active t k) k"
    by (rule synchronize_accounts_correct [OF wf, of now]) (rule that; assumption)
  with assms wf show ?thesis by (simp add: account_run_def)
qed

interpretation accounts: reconcile account_run account_active account_scope account_reported account_live
proof
  fix r :: account_report and s s' and k :: owner_key
  obtain inst now items where r: "r = (inst, now, items)" by (cases r)
  show "account_live r k \<Longrightarrow> account_reported r k" by (auto simp: account_report_defs r)
  show "account_reported r k \<Longrightarrow> account_scope r k"
    by (auto simp: account_report_defs r answered_scopes_def)
  assume "account_run r s = Some s'"
  then have flag: "account_active s' k = final_flag inst items (account_active s k) k"
    using account_run_flags [of inst now items] by (simp add: r)
  show "account_live r k \<Longrightarrow> account_active s' k = Some True"
    and "account_reported r k \<Longrightarrow> account_active s' k \<noteq> None"
    and "account_scope r k \<Longrightarrow> \<not> account_reported r k \<Longrightarrow> account_active s' k = map_option (\<lambda>_. False) (account_active s k)"
    using flag by (auto simp: account_report_defs r final_flag_def)
  show "\<not> account_scope r k \<Longrightarrow> account_active s' k = account_active s k"
    using flag by (auto simp: account_report_defs r final_flag_def answered_scopes_def split: if_splits)
qed

section \<open>Properties\<close>

text \<open>C5: on a well-formed table a run always succeeds and leaves the table well formed: the owner keys
  stay unique. An account the report names as active is active afterwards, one it names
  otherwise keeps its flag (a new one is inactive), one it does not name is deactivated in
  the scopes the report answers for and untouched elsewhere, and the counters account for
  every entry with a user name.\<close>

theorem account_inventory_exact:
  assumes "table_wf t" and "report_wf inst items"
  shows "\<exists>smry active t'. synchronize_accounts inst now items t = Some (smry, active, t') \<and> table_wf t'
    \<and> (\<forall>k. account_active t' k =
         (if k \<in> remote_key inst ` set (named items)
          then Some ((\<exists>item \<in> set (named items). remote_key inst item = k \<and> remote_is_active item) \<or> account_active t k = Some True)
          else if key_scope k \<in> answered_scopes inst items then map_option (\<lambda>_. False) (account_active t k)
          else account_active t k))
    \<and> as_created smry + as_refreshed smry + as_reactivated smry = length (named items)
    \<and> as_processed smry = length (named items)"
proof -
  obtain smry active t' where "synchronize_accounts inst now items t = Some (smry, active, t')" "table_wf t'"
    "\<And>k. account_active t' k = final_flag inst items (account_active t k) k"
    "as_created smry + as_refreshed smry + as_reactivated smry = length (named items)"
    "as_processed smry = length (named items)"
    by (rule synchronize_accounts_correct [OF assms, of now]) (rule that; assumption)
  then show ?thesis unfolding final_flag_def by blast
qed

definition mysql_host :: account_instance where
  "mysql_host = \<lparr>ai_id = 1, ai_db_type = ''MySQL''\<rparr>"

definition plain_account :: "string \<Rightarrow> bool \<Rightarrow> remote_account" where
  "plain_account name active = \<lparr>ra_username = name, ra_db_type = None, ra_is_active = Some active, ra_owner_type = None,
     ra_owner_id = None, ra_cluster = None, ra_group = None\<rparr>"

lemma plain_remote_key: "remote_key mysql_host (plain_account name b) = (''instance'', 1, ''mysql'', strip name)"
proof -
  have "lower ''MySQL'' = ''mysql''" and "strip ''instance'' = ''instance''" by code_simp+
  then show ?thesis
    by (simp add: remote_key_def owner_fields_from_remote_def plain_account_def mysql_host_def remote_db_type_def Let_def)
qed

lemma empty_table_wf: "table_wf \<lparr>at_rows = [], at_next = 0\<rparr>"
  by (simp add: table_wf_def)

lemma plain_report_wf: "set items \<subseteq> range (\<lambda>(n, b). plain_account n b) \<Longrightarrow> report_wf mysql_host items"
proof -
  assume sub: "set items \<subseteq> range (\<lambda>(n, b). plain_account n b)"
  have "fst (snd (remote_scope mysql_host (plain_account n b))) = ai_id mysql_host" for n b
    unfolding key_scope_remote [symmetric] plain_remote_key by (simp add: key_scope_def mysql_host_def)
  with sub show ?thesis unfolding report_wf_def named_def by auto
qed

lemma strip_ab: "strip ''a '' = ''a''" "strip ''b'' = ''b''"
  by code_simp+

theorem account_inventory_exact_witness:
  "\<exists>smry active t'. synchronize_accounts mysql_host 5 [plain_account ''a '' True, plain_account ''b'' False] \<lparr>at_rows = [], at_next = 0\<rparr>
      = Some (smry, active, t') \<and> account_active t' (''instance'', 1, ''mysql'', ''a'') = Some True
     \<and> account_active t' (''instance'', 1, ''mysql'', ''b'') = Some False \<and> as_processed smry = 2"
proof -
  let ?items = "[plain_account ''a '' True, plain_account ''b'' False]" and ?t = "\<lparr>at_rows = [], at_next = 0\<rparr>"
  have rep: "report_wf mysql_host ?items" by (rule plain_report_wf) auto
  have names: "named ?items = ?items"
    by (simp add: named_def plain_account_def strip_ab)
  have none: "account_active ?t k = None" for k by (simp add: account_active_None)
  have acts: "remote_is_active (plain_account n b) = b" for n b by (simp add: remote_is_active_def plain_account_def)
  from account_inventory_exact [OF empty_table_wf rep, of 5] obtain smry active t' where
    r: "synchronize_accounts mysql_host 5 ?items ?t = Some (smry, active, t')" "as_processed smry = length ?items"
    and fl: "\<And>k. account_active t' k = (if k \<in> remote_key mysql_host ` set ?items
          then Some ((\<exists>item \<in> set ?items. remote_key mysql_host item = k \<and> remote_is_active item) \<or> account_active ?t k = Some True)
          else if key_scope k \<in> answered_scopes mysql_host ?items then map_option (\<lambda>_. False) (account_active ?t k)
          else account_active ?t k)"
    unfolding names by blast
  have "account_active t' (''instance'', 1, ''mysql'', ''a'') = Some True"
    and "account_active t' (''instance'', 1, ''mysql'', ''b'') = Some False"
    unfolding fl none by (simp_all add: plain_remote_key strip_ab acts)
  with r show ?thesis by (intro exI conjI) (assumption | simp)+
qed

text \<open>the last report decides. After any sequence of runs, the accounts that are active in the
  scopes a final report answers for are exactly those it names, when it names active
  accounts only.\<close>

theorem last_account_report_decides:
  assumes "run_all account_run (reports @ [(inst, now, items)]) t = Some t'"
    and "\<forall>item \<in> set (named items). remote_is_active item" and "key_scope k \<in> answered_scopes inst items"
  shows "account_active t' k = Some True \<longleftrightarrow> k \<in> remote_key inst ` set (named items)"
proof -
  have "account_live (inst, now, items) k \<longleftrightarrow> k \<in> remote_key inst ` set (named items)"
    using assms(2) by (auto simp: account_live_def)
  then show ?thesis
    using accounts.last_run_decides [OF assms(1), of k] assms(3) by (simp add: account_scope_def account_reported_def)
qed

theorem last_account_report_decides_witness:
  "\<exists>t'. run_all account_run ([(mysql_host, 1, [plain_account ''b'' True])] @ [(mysql_host, 5, [plain_account ''a '' True])])
      \<lparr>at_rows = [], at_next = 0\<rparr> = Some t' \<and> account_active t' (''instance'', 1, ''mysql'', ''b'') \<noteq> Some True"
proof -
  let ?r1 = "(mysql_host, 1, [plain_account ''b'' True])" and ?r2 = "(mysql_host, 5, [plain_account ''a '' True])"
  have rep: "report_wf mysql_host [plain_account n b]" for n b by (rule plain_report_wf) auto
  have run: "\<exists>t'. account_run (mysql_host, w, [plain_account n b]) t = Some t' \<and> table_wf t'" if "table_wf t" for w n b t
    using account_inventory_exact [OF that rep, of w n b] that rep [of n b] by (auto simp: account_run_def)
  obtain t1 where t1: "account_run ?r1 \<lparr>at_rows = [], at_next = 0\<rparr> = Some t1" "table_wf t1" using run [OF empty_table_wf] by blast
  obtain t2 where t2: "account_run ?r2 t1 = Some t2" using run [OF t1(2)] by blast
  have all: "run_all account_run ([?r1] @ [?r2]) \<lparr>at_rows = [], at_next = 0\<rparr> = Some t2" using t1(1) t2 by simp
  have names: "named [plain_account ''a '' True] = [plain_account ''a '' True]"
    by (simp add: named_def plain_account_def strip_ab)
  let ?k = "(''instance'', 1, ''mysql'', ''b'') :: owner_key"
  have "key_scope ?k = remote_scope mysql_host (plain_account ''a '' True)"
    using key_scope_remote [of mysql_host "plain_account ''a '' True"] by (simp add: plain_remote_key key_scope_def)
  then have "key_scope ?k \<in> answered_scopes mysql_host [plain_account ''a '' True]"
    unfolding answered_scopes_def names by simp
  with last_account_report_decides [OF all _ this] have "account_active t2 ?k \<noteq> Some True"
    unfolding names by (simp add: remote_is_active_def plain_account_def plain_remote_key [unfolded plain_account_def] strip_ab)
  with all show ?thesis by blast
qed

end
