(* ===== verification/Calendar.thy ===== *)
theory Calendar
  imports Prelude
begin

text \<open>
  The dates of Python's \<^verbatim>\<open>datetime\<close> and \<^verbatim>\<open>calendar\<close> modules, as far as the sources use them:
  the proleptic Gregorian calendar, \<^verbatim>\<open>monthrange\<close>, \<^verbatim>\<open>weekday\<close>, the ordinal of a date and
  the addition of days. A \<^verbatim>\<open>date\<close> of the program always satisfies \<^verbatim>\<open>valid_date\<close> and lies
  between the years 1 and 9999; constructing another one raises \<^verbatim>\<open>ValueError\<close>, computing one
  raises \<^verbatim>\<open>OverflowError\<close>. Adding days steps from each date to its neighbour, and the ordinals
  say that this is the arithmetic of the module.
\<close>

section \<open>Dates\<close>

datatype date = Date (d_year: int) (d_month: int) (d_day: int)

definition is_leap :: "int \<Rightarrow> bool" where
  "is_leap y = (y mod 4 = 0 \<and> (y mod 100 \<noteq> 0 \<or> y mod 400 = 0))"

text \<open>\<^verbatim>\<open>monthrange(y, m)[1]\<close>.\<close>

definition month_len :: "int \<Rightarrow> int \<Rightarrow> int" where
  "month_len y m = (if m = 2 then (if is_leap y then 29 else 28)
     else if m \<in> {4, 6, 9, 11} then 30 else 31)"

definition valid_date :: "date \<Rightarrow> bool" where
  "valid_date d = (1 \<le> d_month d \<and> d_month d \<le> 12 \<and> 1 \<le> d_day d \<and> d_day d \<le> month_len (d_year d) (d_month d))"

instantiation date :: linorder
begin

definition less_eq_date :: "date \<Rightarrow> date \<Rightarrow> bool" where
  "less_eq_date a b = (d_year a < d_year b \<or> d_year a = d_year b \<and>
     (d_month a < d_month b \<or> d_month a = d_month b \<and> d_day a \<le> d_day b))"

definition less_date :: "date \<Rightarrow> date \<Rightarrow> bool" where
  "less_date a b = (d_year a < d_year b \<or> d_year a = d_year b \<and>
     (d_month a < d_month b \<or> d_month a = d_month b \<and> d_day a < d_day b))"

instance
  by standard (auto simp: less_eq_date_def less_date_def intro: date.expand)

end

definition next_day :: "date \<Rightarrow> date" where
  "next_day d = (case d of Date y m k \<Rightarrow>
     if k < month_len y m then Date y m (k + 1)
     else if m < 12 then Date y (m + 1) 1
     else Date (y + 1) 1 1)"

definition prev_day :: "date \<Rightarrow> date" where
  "prev_day d = (case d of Date y m k \<Rightarrow>
     if 1 < k then Date y m (k - 1)
     else if 1 < m then Date y (m - 1) (month_len y (m - 1))
     else Date (y - 1) 12 31)"

text \<open>The date \<^verbatim>\<open>n\<close> days away.\<close>

definition shift_days :: "date \<Rightarrow> int \<Rightarrow> date" where
  "shift_days d n = (if 0 \<le> n then (next_day ^^ nat n) d else (prev_day ^^ nat (- n)) d)"

text \<open>\<^verbatim>\<open>d.toordinal()\<close>.\<close>

definition days_before_year :: "int \<Rightarrow> int" where
  "days_before_year y = (y - 1) * 365 + (y - 1) div 4 - (y - 1) div 100 + (y - 1) div 400"

definition days_before_month :: "int \<Rightarrow> int \<Rightarrow> int" where
  "days_before_month y m = (if m \<le> 1 then 0 else if m = 2 then 31 else
     (if is_leap y then 1 else 0) +
     (if m = 3 then 59 else if m = 4 then 90 else if m = 5 then 120 else if m = 6 then 151
      else if m = 7 then 181 else if m = 8 then 212 else if m = 9 then 243 else if m = 10 then 273
      else if m = 11 then 304 else 334))"

definition ordinal :: "date \<Rightarrow> int" where
  "ordinal d = days_before_year (d_year d) + days_before_month (d_year d) (d_month d) + d_day d"

text \<open>\<^verbatim>\<open>d.weekday()\<close>: Monday is 0.\<close>

definition weekday :: "date \<Rightarrow> int" where
  "weekday d = (ordinal d + 6) mod 7"

section \<open>Partial operations\<close>

datatype date_error = Value_error | Overflow_error

text \<open>\<^verbatim>\<open>date(y, m, d)\<close>.\<close>

definition mk_date :: "int \<Rightarrow> int \<Rightarrow> int \<Rightarrow> date_error + date" where
  "mk_date y m k = (if 1 \<le> y \<and> y \<le> 9999 \<and> valid_date (Date y m k) then Inr (Date y m k) else Inl Value_error)"

text \<open>\<^verbatim>\<open>d + timedelta(days=n)\<close>.\<close>

definition add_days :: "date \<Rightarrow> int \<Rightarrow> date_error + date" where
  "add_days d n = (let r = shift_days d n in
     if 1 \<le> d_year r \<and> d_year r \<le> 9999 then Inr r else Inl Overflow_error)"

text \<open>\<^verbatim>\<open>(b - a).days\<close>.\<close>

definition days_between :: "date \<Rightarrow> date \<Rightarrow> int" where
  "days_between a b = ordinal b - ordinal a"

text \<open>A raised exception skips the rest.\<close>

definition bind_err :: "'e + 'a \<Rightarrow> ('a \<Rightarrow> 'e + 'b) \<Rightarrow> 'e + 'b" where
  "bind_err m f = (case m of Inl e \<Rightarrow> Inl e | Inr x \<Rightarrow> f x)"

lemma bind_err_simps [simp]:
  "bind_err (Inl e) f = Inl e"
  "bind_err (Inr x) f = f x"
  by (simp_all add: bind_err_def)

lemma bind_err_eq_Inr: "bind_err m f = Inr y \<longleftrightarrow> (\<exists>x. m = Inr x \<and> f x = Inr y)"
  by (cases m) simp_all

text \<open>\<^verbatim>\<open>isoformat\<close> of a date.\<close>

definition digits_of :: "nat \<Rightarrow> int \<Rightarrow> string" where
  "digits_of w n = (let s = show_int n in replicate (w - length s) (CHR ''0'') @ s)"

definition iso_date :: "date \<Rightarrow> string" where
  "iso_date d = digits_of 4 (d_year d) @ ''-'' @ digits_of 2 (d_month d) @ ''-'' @ digits_of 2 (d_day d)"

section \<open>The calendar is the ordinals\<close>

named_theorems calendar \<open>the definitions of the calendar\<close>

declare month_len_def [calendar] valid_date_def [calendar] days_before_month_def [calendar] ordinal_def [calendar]

text \<open>The twelve months.\<close>

lemma month_cases [consumes 2]:
  fixes m :: int
  assumes "1 \<le> m" "m \<le> 12"
  obtains "m = 1" | "m = 2" | "m = 3" | "m = 4" | "m = 5" | "m = 6" | "m = 7" | "m = 8" | "m = 9"
    | "m = 10" | "m = 11" | "m = 12"
proof -
  have "m = 1 \<or> m = 2 \<or> m = 3 \<or> m = 4 \<or> m = 5 \<or> m = 6 \<or> m = 7 \<or> m = 8 \<or> m = 9 \<or> m = 10
    \<or> m = 11 \<or> m = 12"
    using assms by arith
  with that show thesis by blast
qed

lemma month_len_bounds: "28 \<le> month_len y m \<and> month_len y m \<le> 31"
  by (simp add: month_len_def)

lemma valid_ends [simp]:
  "valid_date (Date y m 1) \<longleftrightarrow> 1 \<le> m \<and> m \<le> 12"
  "valid_date (Date y m (month_len y m)) \<longleftrightarrow> 1 \<le> m \<and> m \<le> 12"
  using month_len_bounds [of y m] by (auto simp: valid_date_def)

lemma month_len_pos [simp]: "1 \<le> month_len y m" "0 < month_len y m"
  using month_len_bounds [of y m] by simp_all

lemma div_step:
  fixes y n :: int
  assumes "1 < n"
  shows "y div n = (y - 1) div n + (if y mod n = 0 then 1 else 0)"
proof (cases "y mod n = 0")
  case True
  then obtain q where "y = n * q" by (auto simp: mod_eq_0_iff_dvd dvd_def)
  moreover have "(n * q - 1) div n = q - 1"
    using assms by (intro int_div_pos_eq [where r = "n - 1"]) (simp_all add: right_diff_distrib)
  ultimately show ?thesis using assms by simp
next
  case False
  have "(y - 1) div n = y div n"
  proof (rule int_div_pos_eq [where r = "y mod n - 1"])
    show "y - 1 = n * (y div n) + (y mod n - 1)" by simp
    show "0 \<le> y mod n - 1" using False assms pos_mod_sign [of n y] by linarith
    show "y mod n - 1 < n" using assms pos_mod_bound [of n y] by linarith
  qed
  with False show ?thesis by simp
qed

lemma leap_divisors:
  fixes y :: int
  shows "y mod 100 = 0 \<Longrightarrow> y mod 4 = 0" "y mod 400 = 0 \<Longrightarrow> y mod 100 = 0"
proof -
  have "(4::int) dvd 100" "(100::int) dvd 400" by simp_all
  then show "y mod 100 = 0 \<Longrightarrow> y mod 4 = 0" "y mod 400 = 0 \<Longrightarrow> y mod 100 = 0"
    unfolding mod_eq_0_iff_dvd by (blast intro: dvd_trans)+
qed

lemma year_len: "days_before_year (y + 1) = days_before_year y + (if is_leap y then 366 else 365)"
proof -
  have add: "a = a' + i \<Longrightarrow> b = b' + j \<Longrightarrow> c = c' + k \<Longrightarrow>
      y * 365 + a - b + c = (y - 1) * 365 + a' - b' + c' + (365 + i - j + k)" for a a' b b' c c' i j k :: int
    by simp
  have days: "(Q \<Longrightarrow> P) \<Longrightarrow> (R \<Longrightarrow> Q) \<Longrightarrow> 365 + (if P then 1 else 0) - (if Q then 1 else 0)
      + (if R then 1 else 0) = (if P \<and> (\<not> Q \<or> R) then 366 else 365 :: int)" for P Q R
    by (cases P; cases Q; cases R) simp_all
  have "days_before_year (y + 1) = days_before_year y + (365 + (if y mod 4 = 0 then 1 else 0)
      - (if y mod 100 = 0 then 1 else 0) + (if y mod 400 = 0 then 1 else 0))"
    unfolding days_before_year_def add_diff_cancel_right' by (rule add; rule div_step; simp)
  also have "365 + (if y mod 4 = 0 then 1 else 0) - (if y mod 100 = 0 then 1 else 0)
      + (if y mod 400 = 0 then 1 else 0) = (if is_leap y then 366 else 365 :: int)"
    unfolding is_leap_def by (rule days; rule leap_divisors)
  finally show ?thesis .
qed

lemma days_before_month_Suc:
  assumes "1 \<le> m" "m < 12"
  shows "days_before_month y (m + 1) = days_before_month y m + month_len y m"
proof -
  have "m \<le> 12" using assms by simp
  with assms(1) show ?thesis
    using assms(2) by (cases m rule: month_cases) (simp_all add: calendar)
qed

lemma december: "days_before_month y 12 + 31 = (if is_leap y then 366 else 365)"
  by (simp add: calendar)

lemma next_day_valid: "valid_date d \<Longrightarrow> valid_date (next_day d) \<and> ordinal (next_day d) = ordinal d + 1"
proof (cases d)
  case (Date y m k)
  assume valid: "valid_date d"
  consider "k < month_len y m" | "k = month_len y m" "m < 12" | "k = 31" "m = 12"
    using valid Date by (fastforce simp: valid_date_def month_len_def split: if_splits)
  then show ?thesis
  proof cases
    case 1
    with valid Date show ?thesis by (simp add: next_day_def valid_date_def ordinal_def)
  next
    case 2
    with valid Date show ?thesis
      by (simp add: next_day_def valid_date_def ordinal_def days_before_month_Suc)
  next
    case 3
    with valid Date december [of y] show ?thesis
      by (simp add: next_day_def valid_date_def ordinal_def year_len month_len_def days_before_month_def)
  qed
qed

lemma prev_day_valid: "valid_date d \<Longrightarrow> valid_date (prev_day d) \<and> ordinal (prev_day d) = ordinal d - 1"
proof (cases d)
  case (Date y m k)
  assume valid: "valid_date d"
  consider "1 < k" | "k = 1" "1 < m" | "k = 1" "m = 1"
    using valid Date by (fastforce simp: valid_date_def)
  then show ?thesis
  proof cases
    case 1
    with valid Date show ?thesis by (simp add: prev_day_def valid_date_def ordinal_def)
  next
    case 2
    with valid Date days_before_month_Suc [of "m - 1" y] show ?thesis
      by (simp add: prev_day_def valid_date_def ordinal_def)
  next
    case 3
    with valid Date december [of "y - 1"] year_len [of "y - 1"] show ?thesis
      by (simp add: prev_day_def valid_date_def ordinal_def month_len_def days_before_month_def)
  qed
qed

lemma shift_days_valid: "valid_date d \<Longrightarrow> valid_date (shift_days d n) \<and> ordinal (shift_days d n) = ordinal d + n"
proof -
  assume valid: "valid_date d"
  have "valid_date ((next_day ^^ k) d) \<and> ordinal ((next_day ^^ k) d) = ordinal d + int k" for k
    using valid by (induction k) (auto simp: next_day_valid)
  moreover have "valid_date ((prev_day ^^ k) d) \<and> ordinal ((prev_day ^^ k) d) = ordinal d - int k" for k
    using valid by (induction k) (auto simp: prev_day_valid)
  ultimately show ?thesis by (simp add: shift_days_def)
qed

lemmas valid_shift [simp] = shift_days_valid [THEN conjunct1]
lemmas ordinal_shift [simp] = shift_days_valid [THEN conjunct2]

text \<open>The ordinals order the dates.\<close>

lemma days_before_month_mono:
  assumes "1 \<le> m" "m < m'" "m' \<le> 12"
  shows "days_before_month y m + month_len y m \<le> days_before_month y m'"
proof -
  have "days_before_month y (m + 1) \<le> days_before_month y m'"
    using assms(2,3)
  proof (induction m' rule: int_gr_induct)
    case (step i)
    then have "days_before_month y (m + 1) \<le> days_before_month y i" by simp
    also have "\<dots> \<le> days_before_month y (i + 1)"
      using days_before_month_Suc [of i y] step assms(1) month_len_pos(2) [of y i] by linarith
    finally show ?case .
  qed simp
  with assms show ?thesis by (simp add: days_before_month_Suc)
qed

lemma days_before_year_mono: "y \<le> y' \<Longrightarrow> days_before_year y \<le> days_before_year y'"
proof (induction y' rule: int_ge_induct)
  case (step i)
  then show ?case by (simp add: year_len)
qed simp

lemma day_of_year: "valid_date d \<Longrightarrow> d_day d \<ge> 1 \<and>
    days_before_month (d_year d) (d_month d) + d_day d \<le> (if is_leap (d_year d) then 366 else 365)
    \<and> 0 \<le> days_before_month (d_year d) (d_month d)"
  using december [of "d_year d"] days_before_month_mono [of "d_month d" 12 "d_year d"]
  by (cases "d_month d = 12") (auto simp: valid_date_def month_len_def days_before_month_def)

lemma ordinal_less:
  assumes "valid_date a" "valid_date b" "a < b"
  shows "ordinal a < ordinal b"
proof -
  consider "d_year a < d_year b" | "d_year a = d_year b" "d_month a < d_month b"
    | "d_year a = d_year b" "d_month a = d_month b" "d_day a < d_day b"
    using assms(3) by (auto simp: less_date_def)
  then show ?thesis
  proof cases
    case 1
    then have "days_before_year (d_year a + 1) \<le> days_before_year (d_year b)"
      by (intro days_before_year_mono) simp
    with day_of_year [OF assms(1)] day_of_year [OF assms(2)] show ?thesis
      by (simp add: ordinal_def year_len)
  next
    case 2
    with assms days_before_month_mono [of "d_month a" "d_month b" "d_year a"] show ?thesis
      by (simp add: ordinal_def valid_date_def)
  next
    case 3
    then show ?thesis by (simp add: ordinal_def)
  qed
qed

lemma ordinal_less_iff: "valid_date a \<Longrightarrow> valid_date b \<Longrightarrow> ordinal a < ordinal b \<longleftrightarrow> a < b"
  by (metis linorder_less_linear ordinal_less order_less_asym order_less_irrefl)

lemma ordinal_le_iff: "valid_date a \<Longrightarrow> valid_date b \<Longrightarrow> ordinal a \<le> ordinal b \<longleftrightarrow> a \<le> b"
  by (simp add: ordinal_less_iff flip: linorder_not_less)

lemma ordinal_inject: "valid_date a \<Longrightarrow> valid_date b \<Longrightarrow> ordinal a = ordinal b \<Longrightarrow> a = b"
  by (metis antisym order_refl ordinal_le_iff)

text \<open>Dates are equal, and ordered, as their ordinals are.\<close>

lemma shift_eqI: "valid_date d \<Longrightarrow> valid_date r \<Longrightarrow> ordinal r = ordinal d + n \<Longrightarrow> shift_days d n = r"
  by (rule ordinal_inject) simp_all

lemma shift_shift [simp]: "valid_date d \<Longrightarrow> shift_days (shift_days d m) n = shift_days d (m + n)"
  by (rule shift_eqI) simp_all

lemma shift_0 [simp]: "shift_days d 0 = d"
  by (simp add: shift_days_def)

lemma shift_le [simp]: "valid_date d \<Longrightarrow> shift_days d m \<le> shift_days d n \<longleftrightarrow> m \<le> n"
  by (simp flip: ordinal_le_iff)

lemma shift_le_self [simp]: "valid_date d \<Longrightarrow> shift_days d m \<le> d \<longleftrightarrow> m \<le> 0"
  using shift_le [of d m 0] by simp

lemma self_le_shift [simp]: "valid_date d \<Longrightarrow> d \<le> shift_days d n \<longleftrightarrow> 0 \<le> n"
  using shift_le [of d 0 n] by simp

lemma shift_less [simp]: "valid_date d \<Longrightarrow> shift_days d m < shift_days d n \<longleftrightarrow> m < n"
  by (simp flip: ordinal_less_iff)

lemma shift_less_self [simp]: "valid_date d \<Longrightarrow> shift_days d m < d \<longleftrightarrow> m < 0"
  using shift_less [of d m 0] by simp

lemma shift_day: "shift_days (Date y m k) n = Date y m (k + n)"
  if "valid_date (Date y m k)" "1 \<le> k + n" "k + n \<le> month_len y m"
  by (rule shift_eqI) (use that in \<open>auto simp: valid_date_def ordinal_def\<close>)

lemma before_first:
  assumes "1 < m" "m \<le> 12"
  shows "shift_days (Date y m 1) (- 1) = Date y (m - 1) (month_len y (m - 1))"
  by (rule shift_eqI) (use assms days_before_month_Suc [of "m - 1" y] in \<open>auto simp: valid_date_def ordinal_def\<close>)

lemma before_new_year: "shift_days (Date y 1 1) (- 1) = Date (y - 1) 12 31"
  by (rule shift_eqI) (use december [of "y - 1"] year_len [of "y - 1"]
    in \<open>auto simp: valid_date_def ordinal_def month_len_def days_before_month_def\<close>)

text \<open>A date is in the years its ordinal is in.\<close>

lemma year_le: "a \<le> b \<Longrightarrow> d_year a \<le> d_year (b :: date)"
  by (auto simp: less_eq_date_def)

lemma year_shift_back:
  assumes "valid_date d" "0 \<le> n" "n \<le> 365"
  shows "d_year d - 1 \<le> d_year (shift_days d (- n)) \<and> d_year (shift_days d (- n)) \<le> d_year d"
proof
  let ?start = "Date (d_year d - 1) 1 1"
  have start: "valid_date ?start" by (simp add: valid_date_def)
  have "ordinal ?start \<le> ordinal d - 365"
    using year_len [of "d_year d - 1"] day_of_year [OF assms(1)]
    by (simp add: ordinal_def days_before_month_def split: if_splits)
  with assms have "?start \<le> shift_days d (- n)"
    by (simp add: start flip: ordinal_le_iff)
  then show "d_year d - 1 \<le> d_year (shift_days d (- n))" using year_le by fastforce
  show "d_year (shift_days d (- n)) \<le> d_year d"
    using assms by (intro year_le) simp
qed

lemma year_shift_forth:
  assumes "valid_date d" "0 \<le> n" "n \<le> 365"
  shows "d_year d \<le> d_year (shift_days d n) \<and> d_year (shift_days d n) \<le> d_year d + 1"
  using year_shift_back [of "shift_days d n" n] assms
  by (auto intro: year_le)

end
