(* ===== verification/Period_Calculator.thy ===== *)
theory Period_Calculator
  imports Calendar
begin

text \<open>
  \<^verbatim>\<open>PeriodCalculator\<close> of \<^verbatim>\<open>app/services/aggregation/calculator.py\<close>: the current, the last and
  the previous statistics period. The locale \<^verbatim>\<open>period_tiling\<close> is what the statistics expect of a
  kind of period, that it tiles the calendar; it is interpreted on the days, weeks, months
  and quarters the calculator means, and the methods of the code are compared with those.
\<close>

section \<open>The calculator\<close>

definition valid_periods :: "string list" where
  "valid_periods = [''daily'', ''weekly'', ''monthly'', ''quarterly'']"

definition normalize :: "string \<Rightarrow> date_error + string" where
  "normalize period_type = (let normalized = lower period_type in
     if normalized \<notin> set valid_periods then Inl Value_error else Inr normalized)"

definition get_last_period :: "date \<Rightarrow> string \<Rightarrow> date_error + (date \<times> date)" where
  "get_last_period today period_type = bind_err (normalize period_type) (\<lambda>normalized.
     if normalized = ''daily'' then
       bind_err (add_days today (- 1)) (\<lambda>previous_day. Inr (previous_day, previous_day))
     else if normalized = ''weekly'' then
       let days_since_monday = weekday today in
       bind_err (add_days today (- (days_since_monday + 7))) (\<lambda>start_date.
       bind_err (add_days start_date 6) (\<lambda>end_date. Inr (start_date, end_date)))
     else if normalized = ''monthly'' then
       if d_month today = 1 then
         bind_err (mk_date (d_year today - 1) 12 1) (\<lambda>start_date.
         bind_err (mk_date (d_year today - 1) 12 31) (\<lambda>end_date. Inr (start_date, end_date)))
       else
         bind_err (mk_date (d_year today) (d_month today - 1) 1) (\<lambda>start_date.
         let end_day = month_len (d_year today) (d_month today - 1) in
         bind_err (mk_date (d_year today) (d_month today - 1) end_day) (\<lambda>end_date. Inr (start_date, end_date)))
     else
       let current_quarter = (d_month today - 1) div 3 + 1 in
       if current_quarter = 1 then
         bind_err (mk_date (d_year today - 1) 10 1) (\<lambda>start_date.
         bind_err (mk_date (d_year today - 1) 12 31) (\<lambda>end_date. Inr (start_date, end_date)))
       else
         let quarter_start_month = (current_quarter - 2) * 3 + 1 in
         bind_err (mk_date (d_year today) quarter_start_month 1) (\<lambda>start_date.
         let end_month = quarter_start_month + 2; end_day = month_len (d_year today) end_month in
         bind_err (mk_date (d_year today) end_month end_day) (\<lambda>end_date. Inr (start_date, end_date))))"

definition get_current_period :: "date \<Rightarrow> string \<Rightarrow> date_error + (date \<times> date)" where
  "get_current_period today period_type = bind_err (normalize period_type) (\<lambda>normalized.
     if normalized = ''daily'' then Inr (today, today)
     else if normalized = ''weekly'' then
       bind_err (add_days today (- weekday today)) (\<lambda>start_date.
       bind_err (add_days start_date 6) (\<lambda>end_date. Inr (start_date, end_date)))
     else if normalized = ''monthly'' then
       bind_err (mk_date (d_year today) (d_month today) 1) (\<lambda>start_date.
       let end_day = month_len (d_year today) (d_month today) in
       bind_err (mk_date (d_year today) (d_month today) end_day) (\<lambda>end_date. Inr (start_date, end_date)))
     else
       let quarter_start_month = ((d_month today - 1) div 3) * 3 + 1 in
       bind_err (mk_date (d_year today) quarter_start_month 1) (\<lambda>start_date.
       let end_month = quarter_start_month + 2; end_day = month_len (d_year today) end_month in
       bind_err (mk_date (d_year today) end_month end_day) (\<lambda>end_date. Inr (start_date, end_date))))"

definition get_previous_period :: "string \<Rightarrow> date \<Rightarrow> date \<Rightarrow> date_error + (date \<times> date)" where
  "get_previous_period period_type start_date end_date = bind_err (normalize period_type) (\<lambda>normalized.
     if normalized = ''daily'' \<and> start_date = end_date then
       bind_err (add_days start_date (- 1)) (\<lambda>prev_end. Inr (prev_end, prev_end))
     else if normalized = ''daily'' \<or> normalized = ''weekly'' then
       let duration = days_between start_date end_date in
       bind_err (add_days start_date (- 1)) (\<lambda>prev_end.
       bind_err (add_days prev_end (- duration)) (\<lambda>prev_start. Inr (prev_start, prev_end)))
     else if normalized = ''monthly'' then
       if d_month start_date = 1 then
         bind_err (mk_date (d_year start_date - 1) 12 1) (\<lambda>prev_start.
         bind_err (mk_date (d_year start_date - 1) 12 31) (\<lambda>prev_end. Inr (prev_start, prev_end)))
       else
         bind_err (mk_date (d_year start_date) (d_month start_date - 1) 1) (\<lambda>prev_start.
         bind_err (bind_err (mk_date (d_year start_date) (d_month start_date) 1) (\<lambda>first. add_days first (- 1)))
           (\<lambda>prev_end. Inr (prev_start, prev_end)))
     else if normalized = ''quarterly'' then
       let quarter = (d_month start_date - 1) div 3 + 1 in
       if quarter = 1 then
         bind_err (mk_date (d_year start_date - 1) 10 1) (\<lambda>prev_start.
         bind_err (mk_date (d_year start_date - 1) 12 31) (\<lambda>prev_end. Inr (prev_start, prev_end)))
       else
         let prev_quarter_start_month = (quarter - 2) * 3 + 1 in
         bind_err (mk_date (d_year start_date) prev_quarter_start_month 1) (\<lambda>prev_start.
         bind_err (bind_err (mk_date (d_year start_date) (prev_quarter_start_month + 2) 1) (\<lambda>first. add_days first (- 1)))
           (\<lambda>prev_end. Inr (prev_start, prev_end)))
     else Inl Value_error)"

section \<open>The periods the calculator means\<close>

text \<open>A kind of period tiles the calendar: every date lies in its period, which is the period
  of all its dates.\<close>

locale period_tiling =
  fixes period :: "date \<Rightarrow> date \<times> date"
  assumes bracket: "valid_date d \<Longrightarrow> period d = (s, e) \<Longrightarrow> valid_date s \<and> valid_date e \<and> s \<le> d \<and> d \<le> e"
    and inside: "valid_date d \<Longrightarrow> period d = (s, e) \<Longrightarrow> valid_date d' \<Longrightarrow> s \<le> d' \<Longrightarrow> d' \<le> e \<Longrightarrow> period d' = (s, e)"
begin

lemma period_start: "valid_date d \<Longrightarrow> period d = (s, e) \<Longrightarrow> period s = (s, e)"
  using bracket inside by (meson order_refl order_trans)

text \<open>Consecutive periods meet without gap or overlap.\<close>

lemma consecutive:
  assumes valid: "valid_date d" and this_p: "period d = (s, e)"
    and last_p: "period (shift_days s (- 1)) = (s', e')"
  shows "e' = shift_days s (- 1) \<and> s' \<le> e' \<and> valid_date s'"
proof -
  have s: "valid_date s" and self: "period s = (s, e)"
    using bracket [OF valid this_p] period_start [OF valid this_p] by simp_all
  let ?y = "shift_days s (- 1)"
  have last_b: "valid_date s'" "valid_date e'" "s' \<le> ?y" "?y \<le> e'"
    using bracket [OF _ last_p] s by simp_all
  have "\<not> s \<le> e'"
  proof
    assume "s \<le> e'"
    moreover have "s' \<le> s" using last_b(3) s by (meson order_trans shift_le_self le_minus_one_simps(1))
    ultimately have "period s = (s', e')" using inside [OF _ last_p s] s by simp
    with self last_b(3) s show False by simp
  qed
  then have "ordinal e' < ordinal s" using last_b(2) s by (simp add: ordinal_less_iff)
  moreover have "ordinal ?y \<le> ordinal e'" using last_b s by (simp add: ordinal_le_iff del: ordinal_shift)
  ultimately have "ordinal e' = ordinal ?y" using s by simp
  with last_b s show ?thesis by (simp add: ordinal_inject del: ordinal_shift)
qed

lemma last_before: "valid_date d \<Longrightarrow> period d = (s, e) \<Longrightarrow> period (shift_days s (- 1)) = (s', e') \<Longrightarrow> s' < s"
  using consecutive [of d s e s' e'] bracket [of d s e] by (auto intro: le_less_trans)

end

definition day_period :: "date \<Rightarrow> date \<times> date" where
  "day_period d = (d, d)"

definition week_period :: "date \<Rightarrow> date \<times> date" where
  "week_period d = (shift_days d (- weekday d), shift_days d (6 - weekday d))"

definition month_period :: "date \<Rightarrow> date \<times> date" where
  "month_period d = (Date (d_year d) (d_month d) 1, Date (d_year d) (d_month d) (month_len (d_year d) (d_month d)))"

definition quarter_start :: "int \<Rightarrow> int" where
  "quarter_start m = ((m - 1) div 3) * 3 + 1"

definition quarter_period :: "date \<Rightarrow> date \<times> date" where
  "quarter_period d = (let q = quarter_start (d_month d) in
     (Date (d_year d) q 1, Date (d_year d) (q + 2) (month_len (d_year d) (q + 2))))"

lemma weekday_bounds [simp]: "0 \<le> weekday d" "weekday d < 7" "weekday d \<le> 6"
  by (simp_all add: weekday_def)

lemma same_block:
  fixes m n k :: int
  assumes "0 < k" "m - m mod k \<le> n" "n < m - m mod k + k"
  shows "n - n mod k = m - m mod k"
proof -
  have "n = k * (m div k) + (n - (m - m mod k))" by (simp add: minus_mod_eq_mult_div)
  then have "n div k = m div k"
    by (rule int_div_pos_eq) (use assms in linarith)+
  then show ?thesis by (simp add: minus_mod_eq_mult_div)
qed

lemma same_week:
  assumes "valid_date d" "valid_date d'" "shift_days d (- weekday d) \<le> d'" "d' \<le> shift_days d (6 - weekday d)"
  shows "ordinal d' - weekday d' = ordinal d - weekday d"
proof -
  have bounds: "ordinal d - weekday d \<le> ordinal d'" "ordinal d' \<le> ordinal d - weekday d + 6"
    using assms(3,4) assms(1,2) by (simp_all flip: ordinal_le_iff)
  have "ordinal d' + 6 - weekday d' = ordinal d + 6 - weekday d"
    using bounds same_block [of 7 "ordinal d + 6" "ordinal d' + 6", folded weekday_def] by simp
  then show ?thesis by simp
qed

interpretation days: period_tiling day_period
  by standard (simp_all add: day_period_def)

interpretation weeks: period_tiling week_period
proof
  fix d s e
  assume valid: "valid_date d" and period: "week_period d = (s, e)"
  then show "valid_date s \<and> valid_date e \<and> s \<le> d \<and> d \<le> e"
    by (auto simp: week_period_def)
  fix d'
  assume d': "valid_date d'" "s \<le> d'" "d' \<le> e"
  then have "ordinal d' - weekday d' = ordinal d - weekday d"
    using same_week [OF valid] period by (simp add: week_period_def)
  then have "shift_days d' (n - weekday d') = shift_days d (n - weekday d)" for n
    using valid d'(1) by (intro shift_eqI) simp_all
  from this [of 0] this [of 6] period show "week_period d' = (s, e)"
    by (simp add: week_period_def)
qed

interpretation months: period_tiling month_period
  by standard (auto simp: month_period_def valid_date_def less_eq_date_def)

lemma quarter_start_bounds:
  assumes "1 \<le> m" "m \<le> 12"
  shows "1 \<le> quarter_start m" "quarter_start m \<le> m" "m \<le> quarter_start m + 2" "quarter_start m \<le> 10"
  using assms unfolding quarter_start_def by presburger+

lemma quarter_start_same: "quarter_start m \<le> m' \<Longrightarrow> m' \<le> quarter_start m + 2 \<Longrightarrow> quarter_start m' = quarter_start m"
  unfolding quarter_start_def by presburger

interpretation quarters: period_tiling quarter_period
proof
  fix d s e
  assume valid: "valid_date d" and period: "quarter_period d = (s, e)"
  then have m: "1 \<le> d_month d" "d_month d \<le> 12" by (simp_all add: valid_date_def)
  show "valid_date s \<and> valid_date e \<and> s \<le> d \<and> d \<le> e"
    using valid period quarter_start_bounds [OF m]
    by (auto simp: quarter_period_def Let_def valid_date_def less_eq_date_def)
  fix d'
  assume d': "valid_date d'" "s \<le> d'" "d' \<le> e"
  then have "d_year d' = d_year d" "quarter_start (d_month d) \<le> d_month d'" "d_month d' \<le> quarter_start (d_month d) + 2"
    using period by (auto simp: quarter_period_def Let_def less_eq_date_def)
  with period quarter_start_same [of "d_month d" "d_month d'"] show "quarter_period d' = (s, e)"
    unfolding quarter_period_def by simp
qed

text \<open>The period of a date, by the name of the kind.\<close>

definition period_of :: "string \<Rightarrow> date \<Rightarrow> date \<times> date" where
  "period_of p = (if p = ''daily'' then day_period else if p = ''weekly'' then week_period
     else if p = ''monthly'' then month_period else quarter_period)"

interpretation named: period_tiling "period_of p"
  unfolding period_of_def
  using days.period_tiling_axioms weeks.period_tiling_axioms months.period_tiling_axioms quarters.period_tiling_axioms by simp

text \<open>A period has at most 93 days, so it stays near the years of its dates.\<close>

lemma period_short: "valid_date d \<Longrightarrow> period_of p d = (s, e) \<Longrightarrow> ordinal e - ordinal s \<le> 92"
proof -
  assume valid: "valid_date d" and period: "period_of p d = (s, e)"
  have m: "1 \<le> d_month d" "d_month d \<le> 12" using valid by (simp_all add: valid_date_def)
  define y q where "y = d_year d" and "q = quarter_start (d_month d)"
  then have "ordinal (snd (quarter_period d)) - ordinal (fst (quarter_period d)) =
      month_len y q + month_len y (q + 1) + month_len y (q + 1 + 1) - 1"
    using quarter_start_bounds [OF m] days_before_month_Suc [of q y] days_before_month_Suc [of "q + 1" y]
    by (simp add: quarter_period_def ordinal_def Let_def ac_simps)
  also have "\<dots> \<le> 92"
    using month_len_bounds [of y q] month_len_bounds [of y "q + 1"] month_len_bounds [of y "q + 1 + 1"] by linarith
  finally have "ordinal (snd (quarter_period d)) - ordinal (fst (quarter_period d)) \<le> 92" .
  moreover have "ordinal (snd (month_period d)) - ordinal (fst (month_period d)) \<le> 92"
    using month_len_bounds [of "d_year d" "d_month d"] by (simp add: month_period_def ordinal_def)
  ultimately show ?thesis
    using period valid by (auto simp: period_of_def day_period_def week_period_def split: if_splits)
qed

lemma as_shift: "valid_date a \<Longrightarrow> valid_date b \<Longrightarrow> b = shift_days a (ordinal b - ordinal a)"
  by (rule shift_eqI [symmetric]) simp_all

lemma period_years:
  assumes valid: "valid_date d" and this_p: "period_of p d = (s, e)" and last_p: "period_of p (shift_days s (- 1)) = (s', e')"
  shows "d_year d - 1 \<le> d_year s'" "d_year e \<le> d_year d + 1"
proof -
  note b = named.bracket [OF valid this_p] and c = named.consecutive [OF valid this_p last_p]
  have s: "valid_date s" using b by simp
  have "ordinal s \<le> ordinal d" "ordinal d \<le> ordinal e" "ordinal e' = ordinal s - 1"
    using b c valid by (simp_all add: ordinal_le_iff)
  moreover have "ordinal s' \<le> ordinal e'" using c valid_shift [OF s] by (subst ordinal_le_iff) auto
  moreover have "ordinal e - ordinal s \<le> 92" "ordinal e' - ordinal s' \<le> 92"
    using period_short [OF valid this_p] period_short [OF _ last_p] s by simp_all
  ultimately have "ordinal d - ordinal s' \<le> 365" "0 \<le> ordinal d - ordinal s'" "ordinal e - ordinal d \<le> 365" "0 \<le> ordinal e - ordinal d"
    by linarith+
  then show "d_year d - 1 \<le> d_year s'" "d_year e \<le> d_year d + 1"
    using year_shift_back [OF valid, of "ordinal d - ordinal s'"] year_shift_forth [OF valid, of "ordinal e - ordinal d"]
      as_shift [OF valid, of s'] as_shift [OF valid, of e] b c by simp_all
qed

section \<open>The methods compute these periods\<close>

lemma normalize_Inr: "normalize p = Inr q \<longleftrightarrow> q = lower p \<and> lower p \<in> set valid_periods"
  by (auto simp: normalize_def Let_def)

lemma add_days_Inr: "1 \<le> d_year (shift_days d n) \<Longrightarrow> d_year (shift_days d n) \<le> 9999 \<Longrightarrow> add_days d n = Inr (shift_days d n)"
  by (simp add: add_days_def Let_def)

lemma mk_date_Inr: "1 \<le> y \<Longrightarrow> y \<le> 9999 \<Longrightarrow> valid_date (Date y m k) \<Longrightarrow> mk_date y m k = Inr (Date y m k)"
  by (simp add: mk_date_def)

lemma current_period_of:
  assumes "valid_date today" "2 \<le> d_year today" "d_year today \<le> 9998" "lower p \<in> set valid_periods"
  shows "get_current_period today p = Inr (period_of (lower p) today)"
proof -
  have m: "1 \<le> d_month today" "d_month today \<le> 12" using assms by (simp_all add: valid_date_def)
  have norm: "normalize p = Inr (lower p)" using assms by (simp add: normalize_Inr)
  have week: "1 \<le> d_year (shift_days today n) \<and> d_year (shift_days today n) \<le> 9999" if "\<bar>n\<bar> \<le> 6" for n
    using year_shift_back [of today "- n"] year_shift_forth [of today n] that assms
    by (cases "0 \<le> n") auto
  have "add_days today (- weekday today) = Inr (shift_days today (- weekday today))"
    "add_days (shift_days today (- weekday today)) 6 = Inr (shift_days today (6 - weekday today))"
    using week [of "- weekday today"] week [of "6 - weekday today"] assms(1)
    by (simp_all add: add_days_Inr)
  moreover have "mk_date (d_year today) (d_month today) 1 = Inr (Date (d_year today) (d_month today) 1)"
    "mk_date (d_year today) (d_month today) (month_len (d_year today) (d_month today)) = Inr (snd (month_period today))"
    using assms m by (simp_all add: mk_date_Inr month_period_def)
  moreover have "mk_date (d_year today) q 1 = Inr (Date (d_year today) q 1)"
    "mk_date (d_year today) (q + 2) (month_len (d_year today) (q + 2)) = Inr (Date (d_year today) (q + 2) (month_len (d_year today) (q + 2)))"
    if "q = quarter_start (d_month today)" for q
    using assms quarter_start_bounds [OF m] that by (simp_all add: mk_date_Inr)
  ultimately show ?thesis
    using norm unfolding get_current_period_def quarter_start_def [symmetric]
    by (simp add: Let_def period_of_def day_period_def week_period_def month_period_def quarter_period_def)
qed

text \<open>The period before one, by its first day.\<close>

lemma weekday_shift: "valid_date d \<Longrightarrow> weekday (shift_days d (n - weekday d)) = n mod 7"
proof -
  assume "valid_date d"
  then have "weekday (shift_days d (n - weekday d)) = ((ordinal d + 6) - (ordinal d + 6) mod 7 + n) mod 7"
    by (simp add: weekday_def algebra_simps)
  also have "\<dots> = n mod 7"
    unfolding minus_mod_eq_mult_div by (rule mod_mult_self4)
  finally show ?thesis .
qed

lemma week_before: "valid_date d \<Longrightarrow>
    week_period (shift_days (fst (week_period d)) (- 1)) = (shift_days d (- weekday d - 7), shift_days d (- weekday d - 1))"
proof -
  assume valid: "valid_date d"
  have "- 1 - weekday d = - weekday d - 1" by simp
  with weekday_shift [OF valid, of "- 1"] have "weekday (shift_days d (- weekday d - 1)) = 6"
    by (simp only:) simp
  with valid show ?thesis by (simp add: week_period_def minus_diff_commute)
qed

lemma month_before:
  assumes "1 \<le> m" "m \<le> 12"
  shows "month_period (shift_days (Date y m 1) (- 1)) = (if m = 1 then (Date (y - 1) 12 1, Date (y - 1) 12 31)
    else (Date y (m - 1) 1, Date y (m - 1) (month_len y (m - 1))))"
  using assms by (simp add: month_period_def before_new_year before_first month_len_def)

lemma quarter_before:
  assumes "q = quarter_start m" "1 \<le> m" "m \<le> 12"
  shows "quarter_period (shift_days (Date y q 1) (- 1)) = (if q = 1 then (Date (y - 1) 10 1, Date (y - 1) 12 31)
    else (Date y (q - 3) 1, Date y (q - 1) (month_len y (q - 1))))"
proof (cases "q = 1")
  case True
  then show ?thesis by (simp add: quarter_period_def before_new_year quarter_start_def month_len_def)
next
  case False
  have "quarter_start (q - 1) = q - 3"
  proof -
    have "(k * 3 + 1 - 1 - 1) div 3 * 3 + 1 = k * 3 + 1 - 3" for k :: int by presburger
    then show ?thesis unfolding assms(1) quarter_start_def .
  qed
  with False assms quarter_start_bounds [of m] show ?thesis
    by (simp add: quarter_period_def before_first Let_def)
qed

text \<open>The years around a date.\<close>

lemma near_years:
  assumes "valid_date d" "2 \<le> d_year d" "d_year d \<le> 9998" "- 365 \<le> n" "n \<le> 365"
  shows "1 \<le> d_year (shift_days d n) \<and> d_year (shift_days d n) \<le> 9999"
proof (cases "0 \<le> n")
  case True
  with year_shift_forth [of d n] assms show ?thesis by simp
next
  case False
  with year_shift_back [of d "- n"] assms show ?thesis by simp
qed

lemma add_days_near:
  assumes "valid_date d" "2 \<le> d_year d" "d_year d \<le> 9998" "- 365 \<le> n" "n \<le> 365"
  shows "add_days d n = Inr (shift_days d n)"
  using near_years [OF assms] by (simp add: add_days_Inr)

lemma add_days_near2:
  assumes "valid_date d" "2 \<le> d_year d" "d_year d \<le> 9998" "- 365 \<le> m + n" "m + n \<le> 365"
  shows "add_days (shift_days d m) n = Inr (shift_days d (m + n))"
  using near_years [OF assms] assms(1) by (simp add: add_days_Inr)

lemma last_period_of:
  assumes "valid_date today" "2 \<le> d_year today" "d_year today \<le> 9998" "lower p \<in> set valid_periods"
  shows "get_last_period today p = Inr (period_of (lower p) (shift_days (fst (period_of (lower p) today)) (- 1)))"
proof -
  let ?y = "d_year today" and ?m = "d_month today" and ?w = "weekday today"
  let ?q = "quarter_start (d_month today)"
  have m: "1 \<le> ?m" "?m \<le> 12" using assms by (simp_all add: valid_date_def)
  note q = quarter_start_bounds [OF m]
  have norm: "normalize p = Inr (lower p)" using assms by (simp add: normalize_Inr)
  have "add_days today (- 1) = Inr (shift_days today (- 1))"
    "add_days today (- (?w + 7)) = Inr (shift_days today (- ?w - 7))"
    "add_days (shift_days today (- ?w - 7)) 6 = Inr (shift_days today (- ?w - 1))"
    using add_days_near [OF assms(1-3), of "- 1"] add_days_near [OF assms(1-3), of "- (?w + 7)"]
      add_days_near2 [OF assms(1-3), of "- ?w - 7" 6] weekday_bounds [of today] by (simp_all add: minus_diff_commute)
  moreover have "mk_date (?y - 1) 12 31 = Inr (Date (?y - 1) 12 31)" "mk_date (?y - 1) 12 1 = Inr (Date (?y - 1) 12 1)"
    "mk_date (?y - 1) 10 1 = Inr (Date (?y - 1) 10 1)"
    using assms by (simp_all add: mk_date_def valid_date_def month_len_def)
  moreover have "?m \<noteq> 1 \<longrightarrow> mk_date ?y (?m - 1) 1 = Inr (Date ?y (?m - 1) 1) \<and>
      mk_date ?y (?m - 1) (month_len ?y (?m - 1)) = Inr (Date ?y (?m - 1) (month_len ?y (?m - 1)))"
    using assms m by (simp add: mk_date_Inr)
  moreover obtain k where k: "(?m - 1) div 3 = k" "?q = k * 3 + 1" by (simp add: quarter_start_def)
  moreover have "k \<noteq> 0 \<longrightarrow> mk_date ?y (k * 3 - 2) 1 = Inr (Date ?y (k * 3 - 2) 1) \<and>
      mk_date ?y (k * 3) (month_len ?y (k * 3)) = Inr (Date ?y (k * 3) (month_len ?y (k * 3)))"
    using assms q k by (simp add: mk_date_Inr)
  ultimately show ?thesis
    using norm m assms(1) quarter_before [OF k(2) [symmetric] m, of ?y]
    by (simp add: get_last_period_def Let_def period_of_def week_before day_period_def month_period_def [of today]
      quarter_period_def [of today] month_before)
qed

lemma previous_period_of:
  assumes valid: "valid_date d" and this_p: "period_of (lower p) d = (s, e)"
    and years: "2 \<le> d_year s" "d_year s \<le> 9998"
    and kind: "lower p \<in> {''daily'', ''weekly'', ''monthly''}"
  shows "get_previous_period p s e = Inr (period_of (lower p) (shift_days s (- 1)))"
proof -
  have s: "valid_date s" "period_of (lower p) s = (s, e)"
    using named.bracket [OF valid this_p] named.period_start [OF valid this_p] by simp_all
  have norm: "normalize p = Inr (lower p)" using kind by (auto simp: normalize_Inr valid_periods_def)
  note near = add_days_near [OF s(1) years] add_days_near2 [OF s(1) years]
  consider "lower p = ''daily''" | "lower p = ''weekly''" | "lower p = ''monthly''"
    using kind by auto
  then show ?thesis
  proof cases
    case 1
    then have "e = s" using s by (simp add: period_of_def day_period_def)
    with 1 norm near(1) [of "- 1"] show ?thesis
      by (simp add: get_previous_period_def period_of_def day_period_def)
  next
    case 2
    then have week: "week_period s = (s, e)" using s by (simp add: period_of_def)
    then have e6: "e = shift_days s (6 - weekday s)" and "shift_days s (- weekday s) = s"
      by (simp_all add: week_period_def)
    then have "weekday s = 0" using ordinal_shift [OF s(1), of "- weekday s"] by simp
    with e6 have e: "e = shift_days s 6" by simp
    note \<open>weekday s = 0\<close>
    with week_before [OF s(1)] week have "week_period (shift_days s (- 1)) = (shift_days s (- 7), shift_days s (- 1))"
      by simp
    moreover have "days_between s e = 6" unfolding e using s(1) by (simp add: days_between_def)
    ultimately show ?thesis
      using 2 norm near(1) [of "- 1"] near(2) [of "- 1" "- 6"]
      by (simp add: get_previous_period_def period_of_def)
  next
    case 3
    then have "month_period s = (s, e)" using s by (simp add: period_of_def)
    then obtain y m where sd: "s = Date y m 1" by (metis month_period_def prod.inject)
    have m: "1 \<le> m" "m \<le> 12" using s(1) sd by simp_all
    have "mk_date (y - 1) 12 1 = Inr (Date (y - 1) 12 1)" "mk_date (y - 1) 12 31 = Inr (Date (y - 1) 12 31)"
      using years sd by (simp_all add: mk_date_def valid_date_def month_len_def)
    moreover have "m \<noteq> 1 \<longrightarrow> mk_date y (m - 1) 1 = Inr (Date y (m - 1) 1)" "mk_date y m 1 = Inr s"
      using years sd m by (simp_all add: mk_date_Inr)
    moreover have "m \<noteq> 1 \<longrightarrow> shift_days s (- 1) = Date y (m - 1) (month_len y (m - 1))"
      using m by (simp add: sd before_first)
    ultimately show ?thesis
      using 3 norm m near(1) [of "- 1"] month_before [OF m, of y]
      by (simp add: get_previous_period_def period_of_def sd)
  qed
qed

lemma previous_quarter_of:
  assumes valid: "valid_date d" and this_p: "quarter_period d = (s, e)"
    and years: "2 \<le> d_year s" "d_year s \<le> 9998" and kind: "lower p = ''quarterly''"
    and last_p: "quarter_period (shift_days s (- 1)) = (s', e')"
  shows "get_previous_period p s e = Inr (s', if d_month s = 1 then e'
    else shift_days e' (- month_len (d_year e') (d_month e')))"
proof -
  let ?y = "d_year s" and ?m = "d_month d"
  have m: "1 \<le> ?m" "?m \<le> 12" using valid by (simp_all add: valid_date_def)
  note q = quarter_start_bounds [OF m]
  obtain k where k: "quarter_start ?m = k * 3 + 1" by (simp add: quarter_start_def)
  then have sd: "s = Date ?y (k * 3 + 1) 1" using this_p by (auto simp: quarter_period_def Let_def)
  then have ms: "d_month s = k * 3 + 1" by (metis date.sel(2))
  have norm: "normalize p = Inr (lower p)" using kind by (auto simp: normalize_Inr valid_periods_def)
  have last_q: "quarter_period (shift_days s (- 1)) = (if k = 0 then (Date (?y - 1) 10 1, Date (?y - 1) 12 31)
      else (Date ?y (k * 3 - 2) 1, Date ?y (k * 3) (month_len ?y (k * 3))))"
    using quarter_before [OF k [symmetric] m, of ?y] sd by simp
  show ?thesis
  proof (cases "k = 0")
    case True
    have "mk_date (?y - 1) 10 1 = Inr (Date (?y - 1) 10 1)" "mk_date (?y - 1) 12 31 = Inr (Date (?y - 1) 12 31)"
      using years by (simp_all add: mk_date_def valid_date_def month_len_def)
    with True norm kind last_p last_q ms show ?thesis by (simp add: get_previous_period_def)
  next
    case False
    have k3: "1 \<le> k" "k \<le> 3" using False q k by simp_all
    let ?e = "Date ?y (k * 3) (month_len ?y (k * 3))" and ?f = "Date ?y (k * 3) 1"
    have f: "mk_date ?y (k * 3) 1 = Inr ?f" "mk_date ?y (k * 3 - 2) 1 = Inr (Date ?y (k * 3 - 2) 1)"
      using years k3 by (simp_all add: mk_date_Inr)
    have "?f = shift_days ?e (1 - month_len ?y (k * 3))"
      using k3 month_len_pos [of ?y "k * 3"] by (subst shift_day) simp_all
    then have "shift_days ?f (- 1) = shift_days ?e (- month_len ?y (k * 3))"
      using k3 by simp
    moreover have "add_days ?f (- 1) = Inr (shift_days ?f (- 1))"
      using years k3 by (intro add_days_near) simp_all
    moreover have "s' = Date ?y (k * 3 - 2) 1" "e' = ?e" using last_p last_q False by simp_all
    ultimately show ?thesis
      using False norm kind ms f by (simp add: get_previous_period_def)
  qed
qed

section \<open>Properties\<close>

text \<open>C32: The periods tile the calendar. For every date away from the ends of the calendar and
  every supported kind, the current period contains the date and is the current period of each
  of its days; the last period ends the day before and is the current period of each of its
  own days.\<close>

theorem periods_tile_calendar:
  assumes valid: "valid_date today" and years: "3 \<le> d_year today" "d_year today \<le> 9997"
    and kind: "lower p \<in> set valid_periods"
  shows "\<exists>s e s' e'. get_current_period today p = Inr (s, e) \<and> get_last_period today p = Inr (s', e')
    \<and> s \<le> today \<and> today \<le> e \<and> s' \<le> e' \<and> e' = shift_days s (- 1)
    \<and> (\<forall>d. valid_date d \<and> s \<le> d \<and> d \<le> e \<longrightarrow> get_current_period d p = Inr (s, e))
    \<and> (\<forall>d. valid_date d \<and> s' \<le> d \<and> d \<le> e' \<longrightarrow> get_current_period d p = Inr (s', e'))"
proof -
  obtain s e where this_p: "period_of (lower p) today = (s, e)" by fastforce
  obtain s' e' where last_p: "period_of (lower p) (shift_days s (- 1)) = (s', e')" by fastforce
  note b = named.bracket [OF valid this_p] and c = named.consecutive [OF valid this_p last_p]
  have near: "d_year today - 1 \<le> d_year s'" "d_year e \<le> d_year today + 1"
    using period_years [OF valid this_p last_p] by simp_all
  have "e' \<le> s" using b c by simp
  then have "s' \<le> s" "e' \<le> e" using b c by (meson order_trans)+
  then have current: "get_current_period d p = Inr (period_of (lower p) d)" if "valid_date d" "s' \<le> d" "d \<le> e" for d
    using that near years kind year_le [of s' d] year_le [of d e] by (intro current_period_of) simp_all
  have "get_current_period d p = Inr (s, e)" if "valid_date d" "s \<le> d" "d \<le> e" for d
    using named.inside [OF valid this_p that] current that \<open>s' \<le> s\<close> by auto
  moreover have "get_current_period d p = Inr (s', e')" if "valid_date d" "s' \<le> d" "d \<le> e'" for d
    using named.inside [OF _ last_p that] current that b \<open>e' \<le> e\<close> by auto
  moreover have "get_last_period today p = Inr (s', e')"
    using last_period_of [OF valid] years kind this_p last_p by simp
  ultimately show ?thesis using b c valid by blast
qed

lemma periods_tile_calendar_witness:
  "\<exists>s e s' e'. get_current_period (Date 2024 2 29) ''Weekly'' = Inr (s, e) \<and>
    get_last_period (Date 2024 2 29) ''Weekly'' = Inr (s', e') \<and> e' = shift_days s (- 1)"
proof -
  have "valid_date (Date 2024 2 29)" "(3::int) \<le> 2024" "(2024::int) \<le> 9997" "lower ''Weekly'' \<in> set valid_periods"
    by code_simp+
  then have at_date: "valid_date (Date 2024 2 29)" "3 \<le> d_year (Date 2024 2 29)" "d_year (Date 2024 2 29) \<le> 9997"
    "lower ''Weekly'' \<in> set valid_periods"
    by simp_all
  show ?thesis using periods_tile_calendar [OF at_date] by blast
qed

text \<open>\<^verbatim>\<open>get_previous_period\<close> of the current period is the last period for days, weeks, months
  and the first quarter of a year. For the other quarters it starts where the last quarter
  starts and ends a whole month too early.\<close>

theorem previous_period_of_current:
  assumes valid: "valid_date today" and years: "3 \<le> d_year today" "d_year today \<le> 9997"
    and kind: "lower p \<in> set valid_periods"
    and current: "get_current_period today p = Inr (s, e)" and last_e: "get_last_period today p = Inr (s', e')"
  shows "get_previous_period p s e =
    Inr (s', if lower p = ''quarterly'' \<and> d_month s \<noteq> 1 then shift_days e' (- month_len (d_year e') (d_month e')) else e')"
proof -
  have this_p: "period_of (lower p) today = (s, e)" and last_p: "period_of (lower p) (shift_days s (- 1)) = (s', e')"
    using current last_e current_period_of [OF valid _ _ kind] last_period_of [OF valid _ _ kind] years by simp_all
  note b = named.bracket [OF valid this_p]
  have "d_year today - 1 \<le> d_year s'" "s' \<le> s" "s \<le> today"
    using period_years [OF valid this_p last_p] named.last_before [OF valid this_p last_p] b by simp_all
  then have s_years: "2 \<le> d_year s" "d_year s \<le> 9998"
    using years year_le [of s' s] year_le [of s today] by simp_all
  show ?thesis
  proof (cases "lower p = ''quarterly''")
    case True
    with this_p last_p have "quarter_period today = (s, e)" "quarter_period (shift_days s (- 1)) = (s', e')"
      by (simp_all add: period_of_def)
    from previous_quarter_of [OF valid this(1) s_years True this(2)] True show ?thesis by simp
  next
    case False
    with kind have "lower p \<in> {''daily'', ''weekly'', ''monthly''}" by (simp add: valid_periods_def)
    from previous_period_of [OF valid this_p s_years this] False last_p show ?thesis by simp
  qed
qed

lemma previous_period_of_current_witness:
  "get_previous_period ''quarterly'' (Date 2024 4 1) (Date 2024 6 30) = Inr (Date 2024 1 1, Date 2024 2 29) \<and>
   get_last_period (Date 2024 5 15) ''quarterly'' = Inr (Date 2024 1 1, Date 2024 3 31)"
proof -
  have at_date: "valid_date (Date 2024 5 15)" "3 \<le> d_year (Date 2024 5 15)" "d_year (Date 2024 5 15) \<le> 9997"
    "lower ''quarterly'' \<in> set valid_periods"
    "get_current_period (Date 2024 5 15) ''quarterly'' = Inr (Date 2024 4 1, Date 2024 6 30)"
    and last_p: "get_last_period (Date 2024 5 15) ''quarterly'' = Inr (Date 2024 1 1, Date 2024 3 31)"
    by code_simp+
  have month: "lower ''quarterly'' = ''quarterly'' \<and> shift_days (Date 2024 3 31) (- month_len 2024 3) = Date 2024 2 29"
    by code_simp
  from previous_period_of_current [OF at_date last_p] month last_p show ?thesis by simp
qed

end
