(* ===== verification/Account_Scope.thy ===== *)
theory Account_Scope
  imports Prelude
begin

text \<open>
  \<^verbatim>\<open>parse_account_scope\<close> of \<^verbatim>\<open>app/core/types/account_scope.py\<close>: the owner an account
  statistic is restricted to, as the front end sends it. \<^verbatim>\<open>py_int\<close> is Python's
  \<^verbatim>\<open>int\<close> on strings of ASCII: surrounding whitespace, a sign, digits with single
  underscores between them.
\<close>

section \<open>Reading integers\<close>

definition is_digit :: "char \<Rightarrow> bool" where
  "is_digit c = (48 \<le> (of_char c :: nat) \<and> (of_char c :: nat) \<le> 57)"

lemma is_digit_code [code]: "is_digit c = (let n = of_char c :: int in 48 \<le> n \<and> n \<le> 57)"
  by (simp add: is_digit_def of_char_int Let_def)

fun digit_groups :: "string \<Rightarrow> bool" where
  "digit_groups [] = False"
| "digit_groups [c] = is_digit c"
| "digit_groups (c # d # cs) = (is_digit c \<and> (if d = CHR ''_'' then digit_groups cs else digit_groups (d # cs)))"

fun py_unsigned :: "string \<Rightarrow> int option" where
  "py_unsigned cs = (if digit_groups cs then Some (int (read_nat (filter (\<lambda>c. c \<noteq> CHR ''_'') cs))) else None)"

definition py_int :: "string \<Rightarrow> int option" where
  "py_int s = (case strip s of
     [] \<Rightarrow> None
   | c # cs \<Rightarrow> if c = CHR ''-'' then map_option uminus (py_unsigned cs)
      else if c = CHR ''+'' then py_unsigned cs
      else py_unsigned (c # cs))"

section \<open>Account scopes\<close>

record account_scope =
  asc_owner_type :: string
  asc_owner_id :: int

datatype scope_error = Scope_not_string | Scope_format | Scope_owner_type | Scope_owner_id_type | Scope_owner_id_range

definition supported_owner_types :: "string list" where
  "supported_owner_types = [''instance'', ''sqlserver_ag'']"

definition scope_value :: "account_scope \<Rightarrow> string" where
  "scope_value sc = asc_owner_type sc @ '':'' @ show_int (asc_owner_id sc)"

text \<open>\<^verbatim>\<open>s.partition(":")\<close>: what precedes the first separator, whether there is one, the rest.\<close>

definition partition_colon :: "string \<Rightarrow> string \<times> bool \<times> string" where
  "partition_colon s = (takeWhile (\<lambda>c. c \<noteq> CHR '':'') s, CHR '':'' \<in> set s, drop 1 (dropWhile (\<lambda>c. c \<noteq> CHR '':'') s))"

definition parse_account_scope :: "pv \<Rightarrow> scope_error + account_scope option" where
  "parse_account_scope raw_value = (case raw_value of
     PNone \<Rightarrow> Inr None
   | PStr s \<Rightarrow>
      let normalized_value = strip s in
      if normalized_value = [] then Inr None
      else (case partition_colon normalized_value of (owner_type, sep, owner_id_raw) \<Rightarrow>
        if \<not> sep then Inl Scope_format
        else let normalized_owner_type = lower (strip owner_type) in
        if normalized_owner_type \<notin> set supported_owner_types then Inl Scope_owner_type
        else (case py_int owner_id_raw of
            None \<Rightarrow> Inl Scope_owner_id_type
          | Some owner_id \<Rightarrow>
              if owner_id \<le> 0 then Inl Scope_owner_id_range
              else Inr (Some \<lparr>asc_owner_type = normalized_owner_type, asc_owner_id = owner_id\<rparr>)))
   | _ \<Rightarrow> Inl Scope_not_string)"

section \<open>Printing and reading\<close>

lemma digit_char: "n < 10 \<Longrightarrow> is_digit (char_of (48 + n :: nat))"
  by (simp add: is_digit_def)

lemma set_show_nat: "c \<in> set (show_nat n) \<Longrightarrow> is_digit c"
proof (induction n rule: show_nat.induct)
  case (1 n)
  then show ?case
    by (cases "n < 10") (auto simp: show_nat.simps [of n] digit_char)
qed

lemma show_nat_nonempty [simp]: "show_nat n \<noteq> []"
  by (simp add: show_nat.simps [of n])

lemma not_digit [simp]: "\<not> is_digit CHR '':''" "\<not> is_digit CHR ''_''" "\<not> is_digit CHR ''-''" "\<not> is_digit CHR ''+''"
  by code_simp+

lemma show_int_inject [simp]: "show_int m = show_int n \<longleftrightarrow> m = n"
proof -
  have "CHR ''-'' \<notin> set (show_nat k)" for k
    using set_show_nat [of "CHR ''-''" k] by (auto simp: is_digit_def)
  then have "CHR ''-'' # xs \<noteq> show_nat k" "show_nat k \<noteq> CHR ''-'' # xs" for k xs by (metis list.set_intros(1))+
  then show ?thesis by (auto simp: show_int_def)
qed

lemma digit_not_space: "is_digit c \<Longrightarrow> \<not> is_space c"
  by (auto simp: is_digit_def is_space_def)

lemma digit_groups_digits: "cs \<noteq> [] \<Longrightarrow> \<forall>c \<in> set cs. is_digit c \<Longrightarrow> digit_groups cs"
  by (induction cs rule: digit_groups.induct) (auto split: if_splits)

lemma strip_no_space: "\<forall>c \<in> set s. \<not> is_space c \<Longrightarrow> strip s = s"
  by (auto simp: strip_def dropWhile_eq_self_iff hd_in_set) (metis dropWhile_eq_self_iff hd_in_set list.set_intros(1) rev_rev_ident set_rev)

lemma py_int_show_nat: "py_int (show_nat n) = Some (int n)"
proof -
  have digits: "\<forall>c \<in> set (show_nat n). is_digit c" by (blast intro: set_show_nat)
  then have "strip (show_nat n) = show_nat n" by (auto intro!: strip_no_space dest: digit_not_space)
  moreover have "filter (\<lambda>c. c \<noteq> CHR ''_'') (show_nat n) = show_nat n"
    using digits by (auto intro!: filter_True)
  moreover obtain c cs where "show_nat n = c # cs" by (cases "show_nat n") simp_all
  moreover from this digits have "c \<noteq> CHR ''-''" "c \<noteq> CHR ''+''" by auto
  ultimately show ?thesis
    using digit_groups_digits [OF _ digits] read_show_nat [of n] by (simp add: py_int_def)
qed

lemma parsed_scope:
  assumes "parse_account_scope raw = Inr (Some sc)"
  shows "asc_owner_type sc \<in> set supported_owner_types" "0 < asc_owner_id sc"
proof -
  obtain s where raw: "raw = PStr s" using assms by (cases raw) (simp_all add: parse_account_scope_def)
  obtain t sep u where part: "partition_colon (strip s) = (t, sep, u)" by (cases "partition_colon (strip s)") blast
  from assms raw part have "asc_owner_type sc \<in> set supported_owner_types \<and> 0 < asc_owner_id sc"
    by (cases "py_int u") (auto simp: parse_account_scope_def Let_def split: if_splits)
  then show "asc_owner_type sc \<in> set supported_owner_types" "0 < asc_owner_id sc" by simp_all
qed

text \<open>C39: A scope survives the trip through its filter value: reading what \<^verbatim>\<open>value\<close> prints
  gives the scope back, for every supported kind of owner and positive identifier; and every
  scope the parser returns is of that form.\<close>

theorem account_scope_roundtrip:
  fixes sc :: account_scope
  shows "(parse_account_scope (PStr (scope_value sc)) = Inr (Some sc) \<longleftrightarrow>
      asc_owner_type sc \<in> set supported_owner_types \<and> 0 < asc_owner_id sc) \<and>
    ((\<exists>raw. parse_account_scope raw = Inr (Some sc)) \<longleftrightarrow> parse_account_scope (PStr (scope_value sc)) = Inr (Some sc))"
proof -
  have "parse_account_scope (PStr (scope_value sc)) = Inr (Some sc)"
    if kind: "asc_owner_type sc \<in> set supported_owner_types" and pos: "0 < asc_owner_id sc"
  proof -
    let ?n = "show_nat (nat (asc_owner_id sc))"
    have digits: "\<forall>c \<in> set ?n. is_digit c" by (blast intro: set_show_nat)
    have "list_all (\<lambda>t. list_all (\<lambda>c. \<not> is_space c \<and> c \<noteq> CHR '':'') t \<and> lower t = t) supported_owner_types"
      by code_simp
    with kind have clean: "(\<forall>c \<in> set (asc_owner_type sc). \<not> is_space c \<and> c \<noteq> CHR '':'')
        \<and> lower (asc_owner_type sc) = asc_owner_type sc"
      by (auto simp: list_all_iff)
    have value_eq: "scope_value sc = asc_owner_type sc @ CHR '':'' # ?n"
      using pos by (simp add: scope_value_def show_int_def)
    have "\<not> is_space CHR '':''" by code_simp
    then have "strip (scope_value sc) = scope_value sc"
      using clean digits unfolding value_eq by (intro strip_no_space) (auto dest: digit_not_space)
    moreover have "partition_colon (scope_value sc) = (asc_owner_type sc, True, ?n)"
      using clean unfolding value_eq by (simp add: partition_colon_def)
    moreover have "strip (asc_owner_type sc) = asc_owner_type sc"
      using clean by (intro strip_no_space) simp
    ultimately show ?thesis
      using clean kind pos by (simp add: parse_account_scope_def value_eq py_int_show_nat)
  qed
  then show ?thesis using parsed_scope by blast
qed

end
