(* ===== verification/Trend_Stats.thy ===== *)
theory Trend_Stats
  imports Period_Calculator Account_Scope "HOL-Library.Product_Lexorder"
begin

text \<open>
  The reading side of the daily classification statistics:
  \<^verbatim>\<open>AccountClassificationDailyStatsReadRepository\<close> over the two tables of daily counts, and
  \<^verbatim>\<open>AccountClassificationDailyStatsReadService\<close>, which cuts the last periods into buckets and
  sums the days of each.

  Averages are Python floats, so what computes them is a parameter: \<^verbatim>\<open>avg1 a b\<close> stands for
  \<^verbatim>\<open>round(a / b, 1)\<close>. A query that groups without an order returns its groups in the
  order of their first rows; the columns it reads are \<^verbatim>\<open>nullable=False\<close>.
\<close>

section \<open>The tables\<close>

record class_stat =
  cs_date :: date
  cs_classification :: int
  cs_db_type :: string
  cs_owner_type :: string
  cs_owner_id :: int
  cs_count :: int

record rule_stat =
  rs_date :: date
  rs_rule :: int
  rs_classification :: int
  rs_db_type :: string
  rs_owner_type :: string
  rs_owner_id :: int
  rs_count :: int

text \<open>What every query can be restricted to.\<close>

record stat_filter =
  sf_db_type :: "string option"
  sf_instance :: "int option"
  sf_scope :: "account_scope option"

definition resolved_scope :: "stat_filter \<Rightarrow> account_scope option" where
  "resolved_scope f = (case sf_scope f of
     Some sc \<Rightarrow> Some sc
   | None \<Rightarrow> (case sf_instance f of
        Some i \<Rightarrow> Some \<lparr>asc_owner_type = ''instance'', asc_owner_id = i\<rparr>
      | None \<Rightarrow> None))"

definition apply_rule_scope_filter :: "stat_filter \<Rightarrow> rule_stat list \<Rightarrow> rule_stat list" where
  "apply_rule_scope_filter f query = (case resolved_scope f of
     None \<Rightarrow> query
   | Some sc \<Rightarrow> filter (\<lambda>r. rs_owner_type r = asc_owner_type sc \<and> rs_owner_id r = asc_owner_id sc) query)"

definition apply_classification_scope_filter :: "stat_filter \<Rightarrow> class_stat list \<Rightarrow> class_stat list" where
  "apply_classification_scope_filter f query = (case resolved_scope f of
     None \<Rightarrow> query
   | Some sc \<Rightarrow> filter (\<lambda>r. cs_owner_type r = asc_owner_type sc \<and> cs_owner_id r = asc_owner_id sc) query)"

text \<open>\<^verbatim>\<open>if db_type: query = query.filter(db_type == db_type)\<close>.\<close>

definition db_type_filter :: "('r \<Rightarrow> string) \<Rightarrow> stat_filter \<Rightarrow> 'r list \<Rightarrow> 'r list" where
  "db_type_filter col f query = (case sf_db_type f of
     None \<Rightarrow> query
   | Some t \<Rightarrow> if t = [] then query else filter (\<lambda>r. col r = t) query)"

text \<open>\<^verbatim>\<open>select key, sum(val) ... group by key\<close>.\<close>

definition group_sum :: "('r \<Rightarrow> 'k) \<Rightarrow> ('r \<Rightarrow> int) \<Rightarrow> 'r list \<Rightarrow> ('k \<times> int) list" where
  "group_sum key val rows = map (\<lambda>k. (k, sum_list (map val (filter (\<lambda>r. key r = k) rows)))) (remdups (map key rows))"

section \<open>The queries\<close>

definition fetch_classification_daily_totals ::
  "class_stat list \<Rightarrow> int \<Rightarrow> date \<Rightarrow> date \<Rightarrow> stat_filter \<Rightarrow> (date \<times> int) list" where
  "fetch_classification_daily_totals tbl classification_id start_date end_date f =
    (let query = filter (\<lambda>r. cs_classification r = classification_id \<and> start_date \<le> cs_date r \<and> cs_date r \<le> end_date) tbl;
         query = db_type_filter cs_db_type f query;
         query = apply_classification_scope_filter f query
     in sort_key fst (group_sum cs_date cs_count query))"

text \<open>\<^verbatim>\<open>data.setdefault(id, {})[stat_date] = day_total\<close>.\<close>

definition put_total :: "(int \<times> date) \<times> int \<Rightarrow> (int \<times> (date \<times> int) list) list \<Rightarrow> (int \<times> (date \<times> int) list) list" where
  "put_total row data = (case row of ((classification_id, stat_date), day_total) \<Rightarrow>
     AList.update classification_id
       (AList.update stat_date day_total (case map_of data classification_id of None \<Rightarrow> [] | Some d \<Rightarrow> d)) data)"

definition fetch_all_classifications_daily_totals ::
  "class_stat list \<Rightarrow> date \<Rightarrow> date \<Rightarrow> stat_filter \<Rightarrow> (int \<times> (date \<times> int) list) list" where
  "fetch_all_classifications_daily_totals tbl start_date end_date f =
    (let query = filter (\<lambda>r. start_date \<le> cs_date r \<and> cs_date r \<le> end_date) tbl;
         query = db_type_filter cs_db_type f query;
         query = apply_classification_scope_filter f query;
         rows = sort_key (\<lambda>row. snd (fst row)) (group_sum (\<lambda>r. (cs_classification r, cs_date r)) cs_count query)
     in fold put_total rows [])"

definition fetch_rule_daily_totals ::
  "rule_stat list \<Rightarrow> int \<Rightarrow> date \<Rightarrow> date \<Rightarrow> stat_filter \<Rightarrow> (date \<times> int) list" where
  "fetch_rule_daily_totals tbl rule_id start_date end_date f =
    (let query = filter (\<lambda>r. rs_rule r = rule_id \<and> start_date \<le> rs_date r \<and> rs_date r \<le> end_date) tbl;
         query = db_type_filter rs_db_type f query;
         query = apply_rule_scope_filter f query
     in sort_key fst (group_sum rs_date rs_count query))"

text \<open>The rows of a classification in a window, which the three queries by rule share.\<close>

definition rule_window :: "rule_stat list \<Rightarrow> int \<Rightarrow> date \<Rightarrow> date \<Rightarrow> stat_filter \<Rightarrow> rule_stat list" where
  "rule_window tbl classification_id start_date end_date f =
    (let query = filter (\<lambda>r. rs_classification r = classification_id \<and> start_date \<le> rs_date r \<and> rs_date r \<le> end_date) tbl;
         query = db_type_filter rs_db_type f query
     in apply_rule_scope_filter f query)"

definition fetch_rule_totals_by_rule_id :: "rule_stat list \<Rightarrow> int \<Rightarrow> date \<Rightarrow> date \<Rightarrow> stat_filter \<Rightarrow> (int \<times> int) list" where
  "fetch_rule_totals_by_rule_id tbl cid s e f = group_sum rs_rule rs_count (rule_window tbl cid s e f)"

definition fetch_rule_coverage_days_by_rule_id :: "rule_stat list \<Rightarrow> int \<Rightarrow> date \<Rightarrow> date \<Rightarrow> stat_filter \<Rightarrow> (int \<times> int) list" where
  "fetch_rule_coverage_days_by_rule_id tbl cid s e f = (let rows = rule_window tbl cid s e f in
     map (\<lambda>k. (k, int (length (remdups (map rs_date (filter (\<lambda>r. rs_rule r = k) rows)))))) (remdups (map rs_rule rows)))"

definition fetch_rule_stat_dates :: "rule_stat list \<Rightarrow> int \<Rightarrow> date \<Rightarrow> date \<Rightarrow> stat_filter \<Rightarrow> date list" where
  "fetch_rule_stat_dates tbl cid s e f = remdups (map rs_date (rule_window tbl cid s e f))"

section \<open>The service\<close>

datatype trend_error = Yearly_unsupported | Period_unsupported | Periods_not_integer | Periods_not_positive
  | Status_unsupported | Date_failed date_error

definition date_failed :: "date_error + 'a \<Rightarrow> trend_error + 'a" where
  "date_failed m = (case m of Inl e \<Rightarrow> Inl (Date_failed e) | Inr x \<Rightarrow> Inr x)"

definition normalize_period_type :: "string \<Rightarrow> trend_error + string" where
  "normalize_period_type raw_value = (let normalized = lower (strip (if raw_value = [] then ''daily'' else raw_value)) in
     if normalized = ''yearly'' then Inl Yearly_unsupported
     else if normalized \<notin> set valid_periods then Inl Period_unsupported
     else Inr normalized)"

definition normalize_periods :: "pv \<Rightarrow> trend_error + int" where
  "normalize_periods raw_value =
    (let clamp = \<lambda>resolved. Inr (max 1 (min resolved 365)) in
     case raw_value of
       PNone \<Rightarrow> clamp 7
     | PInt n \<Rightarrow> clamp n
     | PBool b \<Rightarrow> clamp (if b then 1 else 0)
     | PStr s \<Rightarrow> if s = [] then clamp 7 else (case py_int s of None \<Rightarrow> Inl Periods_not_integer | Some n \<Rightarrow> clamp n)
     | _ \<Rightarrow> Inl Periods_not_integer)"

record period_bucket =
  pb_start :: date
  pb_end :: date

definition expected_days :: "period_bucket \<Rightarrow> int" where
  "expected_days b = days_between (pb_start b) (pb_end b) + 1"

text \<open>The loop of \<^verbatim>\<open>_build_period_buckets\<close>: \<^verbatim>\<open>n\<close> rounds remain.\<close>

fun bucket_loop :: "nat \<Rightarrow> string \<Rightarrow> date \<Rightarrow> date \<Rightarrow> period_bucket list \<Rightarrow> date_error + period_bucket list" where
  "bucket_loop 0 period_type start_date end_date buckets = Inr buckets"
| "bucket_loop (Suc n) period_type start_date end_date buckets =
    bind_err (get_previous_period period_type start_date end_date) (\<lambda>(start_date', end_date').
      bucket_loop n period_type start_date' end_date' (buckets @ [\<lparr>pb_start = start_date, pb_end = end_date\<rparr>]))"

definition build_period_buckets :: "date \<Rightarrow> string \<Rightarrow> int \<Rightarrow> trend_error + period_bucket list" where
  "build_period_buckets today period_type periods =
    (if periods \<le> 0 then Inl Periods_not_positive
     else date_failed (bind_err (get_current_period today period_type) (\<lambda>(current_start, current_end).
       bind_err (bucket_loop (nat periods) period_type current_start current_end []) (\<lambda>buckets. Inr (rev buckets)))))"

text \<open>One day of the loop of \<^verbatim>\<open>_rollup_to_buckets\<close>, until the last day of the bucket.\<close>

lemma add_days_1: "add_days d 1 = Inr d' \<Longrightarrow> d' = next_day d"
  by (simp add: add_days_def shift_days_def Let_def split: if_splits)

function rollup_days :: "(date \<times> int) list \<Rightarrow> date \<Rightarrow> date \<Rightarrow> int \<Rightarrow> int \<Rightarrow> date_error + (int \<times> int)" where
  "rollup_days daily_totals current period_end coverage_days value_sum =
    (if current \<le> period_end then
       let hit = map_of daily_totals current;
           coverage_days' = (if hit \<noteq> None then coverage_days + 1 else coverage_days);
           value_sum' = (case hit of None \<Rightarrow> value_sum | Some v \<Rightarrow> value_sum + v)
       in (case add_days current 1 of
            Inl err \<Rightarrow> Inl err
          | Inr next_date \<Rightarrow> rollup_days daily_totals next_date period_end coverage_days' value_sum')
     else Inr (coverage_days, value_sum))"
  by pat_completeness auto

termination
proof (relation "measures [\<lambda>(_, c, l, _, _). nat (d_year l + 1 - d_year c), \<lambda>(_, c, _, _, _). nat (12 - d_month c),
    \<lambda>(_, c, _, _, _). nat (31 - d_day c)]", goal_cases)
  case (2 daily_totals current period_end coverage_days value_sum x xa xb next_date)
  then have "next_date = next_day current" "d_year current \<le> d_year period_end"
    by (auto dest: add_days_1 simp: year_le)
  then show ?case
    using month_len_bounds [of "d_year current" "d_month current"]
    by (cases current) (auto simp: next_day_def)
qed simp

declare rollup_days.simps [simp del]

definition pad_zero :: "nat \<Rightarrow> string \<Rightarrow> string" where
  "pad_zero n s = replicate (n - length s) CHR ''0'' @ s"

definition isoformat :: "date \<Rightarrow> string" where
  "isoformat d = pad_zero 4 (show_int (d_year d)) @ ''-'' @ pad_zero 2 (show_int (d_month d)) @ ''-'' @ pad_zero 2 (show_int (d_day d))"

text \<open>A point of a trend; an average is the whole count of a day or a float.\<close>

record 'f trend_point =
  tp_start :: string
  tp_end :: string
  tp_avg :: "int + 'f"
  tp_sum :: int
  tp_coverage :: int
  tp_expected :: int

definition mean :: "(int \<Rightarrow> int \<Rightarrow> 'f) \<Rightarrow> int \<Rightarrow> int \<Rightarrow> 'f" where
  "mean avg1 day_total days = (if days \<noteq> 0 then avg1 day_total days else avg1 0 1)"

definition rollup_bucket :: "(int \<Rightarrow> int \<Rightarrow> 'f) \<Rightarrow> (date \<times> int) list \<Rightarrow> period_bucket \<Rightarrow> date_error + 'f trend_point" where
  "rollup_bucket avg1 daily_totals b =
    bind_err (rollup_days daily_totals (pb_start b) (pb_end b) 0 0) (\<lambda>(coverage_days, value_sum).
      Inr \<lparr>tp_start = isoformat (pb_start b), tp_end = isoformat (pb_end b),
        tp_avg = (if expected_days b \<noteq> 1 then Inr (mean avg1 value_sum coverage_days) else Inl value_sum),
        tp_sum = value_sum, tp_coverage = coverage_days, tp_expected = expected_days b\<rparr>)"

fun rollup_to_buckets :: "(int \<Rightarrow> int \<Rightarrow> 'f) \<Rightarrow> (date \<times> int) list \<Rightarrow> period_bucket list \<Rightarrow> date_error + 'f trend_point list" where
  "rollup_to_buckets avg1 daily_totals [] = Inr []"
| "rollup_to_buckets avg1 daily_totals (b # bs) =
    bind_err (rollup_bucket avg1 daily_totals b) (\<lambda>p.
    bind_err (rollup_to_buckets avg1 daily_totals bs) (\<lambda>ps. Inr (p # ps)))"

text \<open>The arguments every trend starts with, and the buckets they select.\<close>

definition trend_window :: "date \<Rightarrow> string \<Rightarrow> pv \<Rightarrow> trend_error + (string \<times> int \<times> period_bucket list)" where
  "trend_window today period_type periods =
    bind_err (normalize_period_type period_type) (\<lambda>normalized_period_type.
    bind_err (normalize_periods periods) (\<lambda>normalized_periods.
    bind_err (build_period_buckets today normalized_period_type normalized_periods) (\<lambda>buckets.
      Inr (normalized_period_type, normalized_periods, buckets))))"

definition get_classification_trend ::
  "(int \<Rightarrow> int \<Rightarrow> 'f) \<Rightarrow> class_stat list \<Rightarrow> date \<Rightarrow> int \<Rightarrow> string \<Rightarrow> pv \<Rightarrow> stat_filter \<Rightarrow> trend_error + 'f trend_point list" where
  "get_classification_trend avg1 tbl today classification_id period_type periods f =
    bind_err (trend_window today period_type periods) (\<lambda>(_, _, buckets).
      date_failed (rollup_to_buckets avg1
        (fetch_classification_daily_totals tbl classification_id (pb_start (hd buckets)) (pb_end (last buckets)) f) buckets))"

definition get_rule_trend ::
  "(int \<Rightarrow> int \<Rightarrow> 'f) \<Rightarrow> rule_stat list \<Rightarrow> date \<Rightarrow> int \<Rightarrow> string \<Rightarrow> pv \<Rightarrow> stat_filter \<Rightarrow> trend_error + 'f trend_point list" where
  "get_rule_trend avg1 tbl today rule_id period_type periods f =
    bind_err (trend_window today period_type periods) (\<lambda>(_, _, buckets).
      date_failed (rollup_to_buckets avg1
        (fetch_rule_daily_totals tbl rule_id (pb_start (hd buckets)) (pb_end (last buckets)) f) buckets))"

text \<open>The classifications and rules the reports name.\<close>

record classification_ref =
  cr_id :: int
  cr_display_name :: "string option"
  cr_code :: "string option"
  cr_priority :: int
  cr_created_at :: int
  cr_active :: bool

record rule_ref =
  rr_id :: int
  rr_name :: string
  rr_classification :: int
  rr_db_type :: string
  rr_version :: int
  rr_created_at :: int
  rr_active :: bool

text \<open>\<^verbatim>\<open>xs.sort(key=..., reverse=True)\<close>: equal keys keep their order.\<close>

definition sort_desc :: "('a \<Rightarrow> 'k :: linorder) \<Rightarrow> 'a list \<Rightarrow> 'a list" where
  "sort_desc key xs = rev (sort_key key (rev xs))"

definition fetch_active_classifications :: "classification_ref list \<Rightarrow> classification_ref list" where
  "fetch_active_classifications tbl =
     sort_desc (\<lambda>c. (cr_priority c, cr_created_at c)) (filter cr_active tbl)"

definition fetch_rules_by_ids :: "rule_ref list \<Rightarrow> int list \<Rightarrow> rule_ref list" where
  "fetch_rules_by_ids tbl rule_ids = (if rule_ids = [] then [] else filter (\<lambda>r. rr_id r \<in> set rule_ids) tbl)"

definition fetch_rules_for_overview :: "rule_ref list \<Rightarrow> int \<Rightarrow> string option \<Rightarrow> bool option \<Rightarrow> rule_ref list" where
  "fetch_rules_for_overview tbl classification_id db_type is_active =
    (let query = filter (\<lambda>r. rr_classification r = classification_id) tbl;
         query = (case db_type of None \<Rightarrow> query | Some t \<Rightarrow> if t = [] then query else filter (\<lambda>r. rr_db_type r = t) query);
         query = (case is_active of Some True \<Rightarrow> filter rr_active query
           | Some False \<Rightarrow> filter (\<lambda>r. \<not> rr_active r) query | None \<Rightarrow> query)
     in sort_desc rr_created_at query)"

record 'f class_series =
  se_id :: int
  se_name :: string
  se_points :: "'f trend_point list"

record 'f all_trends =
  alt_period_type :: string
  alt_periods :: int
  alt_buckets :: "(string \<times> string \<times> int) list"
  alt_series :: "'f class_series list"

text \<open>\<^verbatim>\<open>display_name or code or ""\<close>.\<close>

definition series_name :: "classification_ref \<Rightarrow> string" where
  "series_name c = (case cr_display_name c of
     Some (x # xs) \<Rightarrow> x # xs
   | _ \<Rightarrow> (case cr_code c of Some s \<Rightarrow> s | None \<Rightarrow> []))"

fun all_series :: "(int \<Rightarrow> int \<Rightarrow> 'f) \<Rightarrow> (int \<times> (date \<times> int) list) list \<Rightarrow> period_bucket list \<Rightarrow>
    classification_ref list \<Rightarrow> date_error + 'f class_series list" where
  "all_series avg1 totals_map buckets [] = Inr []"
| "all_series avg1 totals_map buckets (c # cs) =
    bind_err (rollup_to_buckets avg1 (case map_of totals_map (cr_id c) of None \<Rightarrow> [] | Some d \<Rightarrow> d) buckets) (\<lambda>points.
    bind_err (all_series avg1 totals_map buckets cs) (\<lambda>rest.
      Inr (\<lparr>se_id = cr_id c, se_name = series_name c, se_points = points\<rparr> # rest)))"

definition get_all_classifications_trends ::
  "(int \<Rightarrow> int \<Rightarrow> 'f) \<Rightarrow> class_stat list \<Rightarrow> classification_ref list \<Rightarrow> date \<Rightarrow> string \<Rightarrow> pv \<Rightarrow> stat_filter \<Rightarrow>
    trend_error + 'f all_trends" where
  "get_all_classifications_trends avg1 tbl classifications today period_type periods f =
    bind_err (trend_window today period_type periods) (\<lambda>(normalized_period_type, normalized_periods, buckets).
    let totals_map = fetch_all_classifications_daily_totals tbl (pb_start (hd buckets)) (pb_end (last buckets)) f in
    bind_err (date_failed (all_series avg1 totals_map buckets (fetch_active_classifications classifications))) (\<lambda>series.
      Inr \<lparr>alt_period_type = normalized_period_type, alt_periods = normalized_periods,
        alt_buckets = map (\<lambda>b. (isoformat (pb_start b), isoformat (pb_end b), expected_days b)) buckets,
        alt_series = series\<rparr>))"

record 'f contribution =
  co_rule_id :: int
  co_rule_name :: string
  co_db_type :: "string option"
  co_version :: "int option"
  co_active :: "bool option"
  co_avg :: "int + 'f"
  co_sum :: int
  co_coverage :: int
  co_expected :: int

record 'f contributions =
  cb_start :: string
  cb_end :: string
  cb_coverage :: int
  cb_expected :: int
  cb_items :: "'f contribution list"

text \<open>The name of a rule that no longer exists, in UTF-8.\<close>

definition missing_rule_name :: "int \<Rightarrow> string" where
  "missing_rule_name i = [CHR 0xE8, CHR 0xA7, CHR 0x84, CHR 0xE5, CHR 0x88, CHR 0x99, CHR ''#''] @ show_int i"

definition contribution_item ::
  "(int \<Rightarrow> int \<Rightarrow> 'f) \<Rightarrow> rule_ref list \<Rightarrow> string \<Rightarrow> int \<Rightarrow> int \<Rightarrow> int \<times> int \<Rightarrow> 'f contribution" where
  "contribution_item avg1 rules period_type coverage_days expected rt = (case rt of (rule_id, value_sum) \<Rightarrow>
    let rule = find (\<lambda>r. rr_id r = rule_id) (rev rules) in
    \<lparr>co_rule_id = rule_id,
     co_rule_name = (case rule of Some r \<Rightarrow> rr_name r | None \<Rightarrow> missing_rule_name rule_id),
     co_db_type = map_option rr_db_type rule, co_version = map_option rr_version rule,
     co_active = map_option rr_active rule,
     co_avg = (if period_type \<noteq> ''daily'' then Inr (mean avg1 value_sum coverage_days) else Inl value_sum),
     co_sum = value_sum, co_coverage = coverage_days, co_expected = expected\<rparr>)"

definition contribution_limit :: "int \<Rightarrow> int" where
  "contribution_limit limit = max 1 (min (if limit = 0 then 10 else limit) 50)"

definition get_rule_contributions ::
  "(int \<Rightarrow> int \<Rightarrow> 'f) \<Rightarrow> rule_stat list \<Rightarrow> rule_ref list \<Rightarrow> date \<Rightarrow> int \<Rightarrow> string \<Rightarrow> stat_filter \<Rightarrow> int \<Rightarrow>
    trend_error + 'f contributions" where
  "get_rule_contributions avg1 tbl rules_tbl today classification_id period_type f limit =
    bind_err (normalize_period_type period_type) (\<lambda>normalized_period_type.
    bind_err (date_failed (get_current_period today normalized_period_type)) (\<lambda>(current_start, current_end).
    let totals = fetch_rule_totals_by_rule_id tbl classification_id current_start current_end f;
        stat_dates = fetch_rule_stat_dates tbl classification_id current_start current_end f;
        coverage_days = int (length stat_dates);
        expected = days_between current_start current_end + 1;
        rules = fetch_rules_by_ids rules_tbl (map fst totals);
        items = sort_desc co_sum (map (contribution_item avg1 rules normalized_period_type coverage_days expected) totals)
    in Inr \<lparr>cb_start = isoformat current_start, cb_end = isoformat current_end, cb_coverage = coverage_days,
         cb_expected = expected, cb_items = take (nat (contribution_limit limit)) items\<rparr>))"

definition normalize_rule_status :: "string \<Rightarrow> trend_error + string" where
  "normalize_rule_status raw_value = (let normalized = lower (strip (if raw_value = [] then ''active'' else raw_value)) in
     if normalized \<notin> set [''active'', ''archived'', ''all''] then Inl Status_unsupported else Inr normalized)"

definition status_active :: "string \<Rightarrow> bool option" where
  "status_active status = (if status = ''active'' then Some True else if status = ''archived'' then Some False else None)"

record 'f overview_item =
  oi_rule_id :: int
  oi_rule_name :: string
  oi_db_type :: string
  oi_version :: int
  oi_active :: bool
  oi_latest_avg :: "int + 'f"
  oi_latest_sum :: int
  oi_coverage :: int
  oi_expected :: int
  oi_window_sum :: int

record 'f rules_overview =
  ov_window_start :: string
  ov_window_end :: string
  ov_latest_start :: string
  ov_latest_end :: string
  ov_coverage :: int
  ov_expected :: int
  ov_rules :: "'f overview_item list"

definition overview_item ::
  "(int \<Rightarrow> int \<Rightarrow> 'f) \<Rightarrow> string \<Rightarrow> (int \<times> int) list \<Rightarrow> (int \<times> int) list \<Rightarrow> (int \<times> int) list \<Rightarrow> int \<Rightarrow> rule_ref \<Rightarrow> 'f overview_item" where
  "overview_item avg1 period_type totals latest_totals latest_coverages expected rule =
    (let lookup = \<lambda>m. (case map_of m (rr_id rule) of None \<Rightarrow> 0 | Some v \<Rightarrow> v);
         window_sum = lookup totals; latest_sum = lookup latest_totals; rule_coverage_days = lookup latest_coverages
     in \<lparr>oi_rule_id = rr_id rule, oi_rule_name = rr_name rule, oi_db_type = rr_db_type rule,
       oi_version = rr_version rule, oi_active = rr_active rule,
       oi_latest_avg = (if period_type = ''daily'' then Inl latest_sum else Inr (mean avg1 latest_sum rule_coverage_days)),
       oi_latest_sum = latest_sum, oi_coverage = rule_coverage_days, oi_expected = expected, oi_window_sum = window_sum\<rparr>)"

text \<open>\<^verbatim>\<open>(float(item["latest_value_avg"]), int(item["window_value_sum"]))\<close>; \<^verbatim>\<open>to_float\<close> is \<^verbatim>\<open>float\<close> on integers.\<close>

definition overview_key :: "(int \<Rightarrow> 'f) \<Rightarrow> 'f overview_item \<Rightarrow> 'f \<times> int" where
  "overview_key to_float i = (case oi_latest_avg i of Inl n \<Rightarrow> to_float n | Inr x \<Rightarrow> x, oi_window_sum i)"

definition list_rules_overview ::
  "(int \<Rightarrow> int \<Rightarrow> 'f :: linorder) \<Rightarrow> (int \<Rightarrow> 'f) \<Rightarrow> rule_stat list \<Rightarrow> rule_ref list \<Rightarrow> date \<Rightarrow> int \<Rightarrow> string \<Rightarrow> pv \<Rightarrow>
    stat_filter \<Rightarrow> string \<Rightarrow> trend_error + 'f rules_overview" where
  "list_rules_overview avg1 to_float tbl rules_tbl today classification_id period_type periods f status =
    bind_err (normalize_period_type period_type) (\<lambda>normalized_period_type.
    bind_err (normalize_periods periods) (\<lambda>normalized_periods.
    bind_err (normalize_rule_status status) (\<lambda>status.
    bind_err (build_period_buckets today normalized_period_type normalized_periods) (\<lambda>buckets.
    bind_err (date_failed (get_current_period today normalized_period_type)) (\<lambda>(latest_start, latest_end).
    let start_date = pb_start (hd buckets); end_date = pb_end (last buckets);
        latest_expected_days = days_between latest_start latest_end + 1;
        totals = fetch_rule_totals_by_rule_id tbl classification_id start_date end_date f;
        latest_totals = fetch_rule_totals_by_rule_id tbl classification_id latest_start latest_end f;
        latest_coverages = fetch_rule_coverage_days_by_rule_id tbl classification_id latest_start latest_end f;
        latest_coverage_days = int (length (fetch_rule_stat_dates tbl classification_id latest_start latest_end f));
        rules = fetch_rules_for_overview rules_tbl classification_id (sf_db_type f) (status_active status);
        items = map (overview_item avg1 normalized_period_type totals latest_totals latest_coverages latest_expected_days) rules
    in Inr \<lparr>ov_window_start = isoformat start_date, ov_window_end = isoformat end_date,
         ov_latest_start = isoformat latest_start, ov_latest_end = isoformat latest_end,
         ov_coverage = latest_coverage_days, ov_expected = latest_expected_days,
         ov_rules = sort_desc (overview_key to_float) items\<rparr>)))))"

end
