(* ===== verification/Trend_Facts.thy ===== *)
theory Trend_Facts
  imports Trend_Stats "HOL-Library.Multiset"
begin

text \<open>
  What the trends of the daily statistics count: the lemmas about grouping, about the loop
  over the days of a bucket and about the buckets themselves, and the properties that follow
  for the reports.
\<close>

section \<open>Grouped sums\<close>

lemma keys_group_sum [simp]: "map fst (group_sum key val rows) = remdups (map key rows)"
  by (simp add: group_sum_def o_def)

lemma keys_of_group_sum: "fst ` set (group_sum key val rows) = key ` set rows"
  by (metis keys_group_sum set_map set_remdups)

lemma map_of_group_sum: "map_of (group_sum key val rows) k =
    (if k \<in> key ` set rows then Some (sum_list (map val (filter (\<lambda>r. key r = k) rows))) else None)"
  by (simp add: group_sum_def map_of_map_restrict restrict_map_def)

lemma sum_filter: "sum_list (map val (filter P rows)) = (\<Sum>r\<leftarrow>rows. if P r then val r else (0 :: int))"
  by (induction rows) simp_all

lemma sum_over_keys:
  assumes "finite K" "key ` set rows \<subseteq> K"
  shows "(\<Sum>k \<in> K. if P k then (\<Sum>r\<leftarrow>rows. if key r = k then val r else (0 :: int)) else 0)
    = (\<Sum>r\<leftarrow>rows. if P (key r) then val r else 0)"
  using assms(2)
proof (induction rows)
  case Nil
  show ?case by (simp add: sum.neutral)
next
  case (Cons r rows)
  have "(\<Sum>k \<in> K. if P k then (\<Sum>x\<leftarrow>r # rows. if key x = k then val x else 0) else 0)
    = (\<Sum>k \<in> K. (if key r = k then if P k then val r else 0 else 0) + (if P k then (\<Sum>x\<leftarrow>rows. if key x = k then val x else 0) else 0))"
    by (rule sum.cong) auto
  also have "\<dots> = (if P (key r) then val r else 0) + (\<Sum>x\<leftarrow>rows. if P (key x) then val x else 0)"
    using Cons assms(1) by (simp add: sum.distrib)
  finally show ?case by simp
qed

lemma sum_group_sum:
  "(\<Sum>(k, v)\<leftarrow>group_sum key val rows. if P k then v else 0) = (\<Sum>r\<leftarrow>rows. if P (key r) then val r else 0)"
proof -
  have "(\<Sum>(k, v)\<leftarrow>group_sum key val rows. if P k then v else 0)
    = (\<Sum>k\<leftarrow>remdups (map key rows). if P k then (\<Sum>r\<leftarrow>rows. if key r = k then val r else 0) else 0)"
    by (simp add: group_sum_def o_def sum_filter)
  also have "\<dots> = (\<Sum>k \<in> key ` set rows. if P k then (\<Sum>r\<leftarrow>rows. if key r = k then val r else 0) else 0)"
    by (subst sum_list_distinct_conv_sum_set) simp_all
  also have "\<dots> = (\<Sum>r\<leftarrow>rows. if P (key r) then val r else 0)"
    by (rule sum_over_keys) simp_all
  finally show ?thesis .
qed

lemma sum_sort_key [simp]: "sum_list (map f (sort_key g xs)) = (sum_list (map f xs) :: int)"
  by (metis mset_map mset_sort sum_mset_sum_list)

lemma distinct_sort_key [simp]: "distinct (map fst (sort_key g xs)) \<longleftrightarrow> distinct (map fst xs)"
proof -
  have "mset (map fst (sort_key g xs)) = mset (map fst xs)" unfolding mset_map by simp
  then show ?thesis by (rule mset_eq_imp_distinct_iff)
qed

lemma map_of_sort_key: "distinct (map fst xs) \<Longrightarrow> map_of (sort_key g xs) = map_of xs"
  by (rule map_of_inject_set [THEN iffD2]) simp_all

section \<open>The days of a bucket\<close>

definition window_sum :: "(date \<times> int) list \<Rightarrow> date \<Rightarrow> date \<Rightarrow> int" where
  "window_sum totals s e = (\<Sum>(d, v)\<leftarrow>totals. if s \<le> d \<and> d \<le> e then v else 0)"

definition window_days :: "(date \<times> int) list \<Rightarrow> date \<Rightarrow> date \<Rightarrow> int" where
  "window_days totals s e = (\<Sum>(d, v)\<leftarrow>totals. if s \<le> d \<and> d \<le> e then 1 else 0)"

lemma next_day_le: "valid_date c \<Longrightarrow> valid_date d \<Longrightarrow> next_day c \<le> d \<longleftrightarrow> c < d"
  using next_day_valid [of c] by (auto simp flip: ordinal_le_iff ordinal_less_iff)

lemma window_step:
  assumes "valid_date c" "c \<le> e" "distinct (map fst totals)" "\<forall>d \<in> fst ` set totals. valid_date d"
  shows "window_sum totals c e = (case map_of totals c of None \<Rightarrow> 0 | Some v \<Rightarrow> v) + window_sum totals (next_day c) e
    \<and> window_days totals c e = (case map_of totals c of None \<Rightarrow> 0 | Some v \<Rightarrow> 1) + window_days totals (next_day c) e"
  using assms(3,4)
proof (induction totals)
  case Nil
  then show ?case by (simp add: window_sum_def window_days_def)
next
  case (Cons dv totals)
  obtain d v where dv: "dv = (d, v)" by fastforce
  have key: "map_of totals c = None" if "d = c" using Cons.prems dv that by (auto simp: map_of_eq_None_iff)
  have le: "next_day c \<le> d \<longleftrightarrow> c < d" using assms(1) Cons.prems dv by (simp add: next_day_le)
  from Cons have IH: "window_sum totals c e = (case map_of totals c of None \<Rightarrow> 0 | Some v \<Rightarrow> v) + window_sum totals (next_day c) e"
    "window_days totals c e = (case map_of totals c of None \<Rightarrow> 0 | Some v \<Rightarrow> 1) + window_days totals (next_day c) e"
    by simp_all
  have cons: "window_sum (dv # totals) a e = (if a \<le> d \<and> d \<le> e then v else 0) + window_sum totals a e"
    "window_days (dv # totals) a e = (if a \<le> d \<and> d \<le> e then 1 else 0) + window_days totals a e" for a
    by (simp_all add: window_sum_def window_days_def dv)
  consider "d = c" | "d < c" | "c < d" by fastforce
  then show ?case
  proof cases
    case 1
    with key assms(2) le IH show ?thesis unfolding cons by (simp add: dv)
  next
    case 2
    then have "d \<noteq> c" "\<not> c \<le> d" "\<not> next_day c \<le> d" using le by auto
    with IH show ?thesis unfolding cons by (simp add: dv)
  next
    case 3
    then have "d \<noteq> c" "c \<le> d" "next_day c \<le> d" using le by auto
    with IH show ?thesis unfolding cons by (simp add: dv)
  qed
qed

lemma window_empty: "e < s \<Longrightarrow> window_sum totals s e = 0 \<and> window_days totals s e = 0"
proof -
  assume "e < s"
  then have "(s \<le> d \<and> d \<le> e) = False" for d by auto
  then show ?thesis
    unfolding window_sum_def window_days_def by (simp only: if_False) (simp add: case_prod_unfold)
qed

text \<open>The totals of a table of valid dates.\<close>

definition daily :: "(date \<times> int) list \<Rightarrow> bool" where
  "daily totals = (distinct (map fst totals) \<and> (\<forall>d \<in> fst ` set totals. valid_date d))"

lemma rollup_days_window:
  assumes "daily totals" "valid_date c" "valid_date e" "1 \<le> d_year c" "d_year e \<le> 9998"
  shows "rollup_days totals c e cov val = Inr (cov + window_days totals c e, val + window_sum totals c e)"
  using assms(2,4)
proof (induction "nat (ordinal e + 1 - ordinal c)" arbitrary: c cov val)
  case 0
  then have "\<not> c \<le> e" using assms(3) by (simp flip: ordinal_le_iff)
  then show ?case by (simp add: rollup_days.simps window_empty)
next
  case (Suc n)
  then have ce: "c \<le> e" using assms(3) by (simp flip: ordinal_le_iff)
  have years: "d_year c \<le> d_year e" "d_year c \<le> d_year (next_day c)" "d_year (next_day c) \<le> d_year c + 1"
    using year_le [OF ce] by (auto simp: next_day_def split: date.splits)
  have "add_days c 1 = Inr (next_day c)"
    using Suc years assms by (simp add: add_days_def shift_days_def Let_def)
  moreover have "rollup_days totals (next_day c) e cov' val' = Inr (cov' + window_days totals (next_day c) e, val' + window_sum totals (next_day c) e)" for cov' val'
    using Suc years next_day_valid [of c] by (intro Suc) simp_all
  ultimately show ?case
    using ce window_step [OF Suc.prems(1) ce] assms(1)
    by (subst rollup_days.simps) (auto simp: daily_def Let_def split: option.splits)
qed

lemma window_split:
  assumes "valid_date s" "s' \<le> shift_days s (- 1)" "s \<le> e" "\<forall>d \<in> fst ` set totals. valid_date d"
  shows "window_sum totals s' (shift_days s (- 1)) + window_sum totals s e = window_sum totals s' e"
    and "window_days totals s' (shift_days s (- 1)) + window_days totals s e = window_days totals s' e"
proof -
  have split: "(s' \<le> d \<and> d \<le> e) = ((s' \<le> d \<and> d \<le> shift_days s (- 1)) \<or> (s \<le> d \<and> d \<le> e))"
    "\<not> ((s' \<le> d \<and> d \<le> shift_days s (- 1)) \<and> (s \<le> d \<and> d \<le> e))" if "valid_date d" for d
  proof -
    have "d \<le> shift_days s (- 1) \<longleftrightarrow> d < s"
      using that assms(1) by (auto simp flip: ordinal_le_iff ordinal_less_iff)
    moreover have "s' \<le> s" using assms(1,2) by (meson order_trans shift_le_self le_minus_one_simps(1))
    ultimately show "(s' \<le> d \<and> d \<le> e) = ((s' \<le> d \<and> d \<le> shift_days s (- 1)) \<or> (s \<le> d \<and> d \<le> e))"
      "\<not> ((s' \<le> d \<and> d \<le> shift_days s (- 1)) \<and> (s \<le> d \<and> d \<le> e))"
      using assms(3) by (auto intro: order_trans)
  qed
  show "window_sum totals s' (shift_days s (- 1)) + window_sum totals s e = window_sum totals s' e"
    using assms(4)
  proof (induction totals)
    case (Cons dv totals)
    with split [of "fst dv"] show ?case by (cases dv) (auto simp: window_sum_def)
  qed (simp add: window_sum_def)
  show "window_days totals s' (shift_days s (- 1)) + window_days totals s e = window_days totals s' e"
    using assms(4)
  proof (induction totals)
    case (Cons dv totals)
    with split [of "fst dv"] show ?case by (cases dv) (auto simp: window_days_def)
  qed (simp add: window_days_def)
qed

section \<open>The buckets\<close>

text \<open>What the loop keeps of its two dates: the start is that of a period, and except for
  quarters the end is its end.\<close>

definition at_period :: "string \<Rightarrow> date \<Rightarrow> date \<Rightarrow> bool" where
  "at_period p s e = (\<exists>d e0. valid_date d \<and> period_of p d = (s, e0) \<and> (p = ''quarterly'' \<or> e = e0)
     \<and> valid_date s \<and> valid_date e \<and> s \<le> e \<and> e \<le> e0)"

text \<open>How a bucket and the one before it meet.\<close>

definition meets :: "string \<Rightarrow> date \<Rightarrow> date \<Rightarrow> bool" where
  "meets p e' s = (e' < s \<and> (p \<noteq> ''quarterly'' \<longrightarrow> e' = shift_days s (- 1))
     \<and> (p = ''quarterly'' \<and> d_month s \<noteq> 1 \<longrightarrow> e' < Date (d_year s) (d_month s - 1) 1))"

lemma at_period_self: "valid_date d \<Longrightarrow> period_of p d = (s, e) \<Longrightarrow> at_period p s e"
  using named.bracket [of d p s e] unfolding at_period_def by (blast intro: order_trans)

lemma previous_quarter_start: "lower p = ''quarterly'' \<Longrightarrow> get_previous_period p s e = get_previous_period p s e'"
  by (simp add: get_previous_period_def normalize_def valid_periods_def)

lemma month_back:
  assumes "valid_date e" "d_day e = month_len (d_year e) (d_month e)"
  shows "shift_days e (- month_len (d_year e) (d_month e)) < Date (d_year e) (d_month e) 1"
proof -
  have "ordinal e = ordinal (Date (d_year e) (d_month e) 1) + month_len (d_year e) (d_month e) - 1"
    using assms(2) by (simp add: ordinal_def)
  moreover have "valid_date (Date (d_year e) (d_month e) 1)" using assms(1) by (simp add: valid_date_def)
  ultimately show ?thesis using assms(1) by (simp flip: ordinal_less_iff)
qed

lemma quarter_ends: "quarter_period d = (s, e) \<Longrightarrow> d_day e = month_len (d_year e) (d_month e)
    \<and> d_year s = d_year e \<and> d_month e = d_month s + 2 \<and> d_day s = 1"
  by (auto simp: quarter_period_def Let_def)

lemma at_period_step:
  assumes at: "at_period p s e" and years: "2 \<le> d_year s" "d_year s \<le> 9998"
    and kind: "p \<in> set valid_periods" "lower p = p"
  shows "\<exists>s' e'. get_previous_period p s e = Inr (s', e') \<and> at_period p s' e' \<and> meets p e' s \<and> d_year s - 1 \<le> d_year s'"
proof -
  obtain d e0 where d: "valid_date d" "period_of p d = (s, e0)" "p = ''quarterly'' \<or> e = e0" and s: "valid_date s"
    using at by (auto simp: at_period_def)
  obtain s' e1 where prev: "period_of p (shift_days s (- 1)) = (s', e1)" by fastforce
  note c = named.consecutive [OF d(1,2) prev]
  have e1: "valid_date e1" using named.bracket [OF _ prev] s by simp
  have year: "d_year s - 1 \<le> d_year s'"
    using period_years(1) [OF s named.period_start [OF d(1,2)] prev] .
  show ?thesis
  proof (cases "p = ''quarterly''")
    case False
    then have "get_previous_period p s e = Inr (s', e1)"
      using previous_period_of [of d p s e] d kind years prev by (simp add: valid_periods_def)
    moreover have "at_period p s' e1" using at_period_self [OF _ prev] s by simp
    moreover have "meets p e1 s" using False c s by (simp add: meets_def)
    ultimately show ?thesis using year by blast
  next
    case True
    let ?e = "if d_month s = 1 then e1 else shift_days e1 (- month_len (d_year e1) (d_month e1))"
    have q: "quarter_period d = (s, e0)" "quarter_period (shift_days s (- 1)) = (s', e1)"
      using d prev True by (simp_all add: period_of_def)
    have prev_e: "get_previous_period p s e = Inr (s', ?e)"
      using previous_quarter_of [OF d(1) q(1) years _ q(2)] previous_quarter_start [of p s e e0] True kind by simp
    note ends = quarter_ends [OF q(2)]
    have "e1 = Date (d_year s) (d_month s - 1) (month_len (d_year s) (d_month s - 1))" if "d_month s \<noteq> 1"
    proof -
      have "s = Date (d_year s) (d_month s) 1" using quarter_ends [OF q(1)] by (simp add: date.expand)
      then show ?thesis using c s that before_first [of "d_month s" "d_year s"] by (simp add: valid_date_def)
    qed
    then have earlier: "d_month s \<noteq> 1 \<Longrightarrow> ?e < Date (d_year s) (d_month s - 1) 1"
      using month_back [OF e1] ends by fastforce
    have "s' \<le> ?e"
    proof -
      have "ordinal s' \<le> ordinal e1 - month_len (d_year e1) (d_month e1)"
      proof -
        have "ordinal s' = days_before_year (d_year e1) + days_before_month (d_year e1) (d_month s') + 1"
          "ordinal e1 = days_before_year (d_year e1) + days_before_month (d_year e1) (d_month e1) + month_len (d_year e1) (d_month e1)"
          using ends by (simp_all add: ordinal_def)
        moreover have "1 \<le> d_month s'" "d_month s' < d_month e1" "d_month e1 \<le> 12"
          using ends c e1 by (auto simp: valid_date_def)
        ultimately show ?thesis
          using days_before_month_mono [of "d_month s'" "d_month e1" "d_year e1"] month_len_pos(1) [of "d_year e1" "d_month s'"]
          by linarith
      qed
      moreover from this have "ordinal s' \<le> ordinal e1"
        using month_len_pos(1) [of "d_year e1" "d_month e1"] by linarith
      ultimately have "ordinal s' \<le> ordinal ?e"
        using e1 by (simp add: less_imp_le)
      moreover have "valid_date ?e" using e1 by simp
      ultimately show ?thesis using c by (simp only: ordinal_le_iff)
    qed
    moreover have "?e \<le> e1" using e1 by (simp add: less_imp_le)
    moreover have "e1 < s" using c s by simp
    moreover have "valid_date ?e" using e1 by simp
    ultimately have "valid_date ?e \<and> s' \<le> ?e \<and> ?e \<le> e1" "?e < s" by (blast intro: le_less_trans)+
    then have "at_period p s' ?e" "meets p ?e s"
      unfolding at_period_def meets_def using prev True c valid_shift [OF s, of "- 1"] earlier by blast+
    with prev_e year show ?thesis by blast
  qed
qed

fun linked :: "string \<Rightarrow> period_bucket list \<Rightarrow> bool" where
  "linked p (b # b' # bs) = (meets p (pb_end b') (pb_start b) \<and> linked p (b' # bs))"
| "linked p _ = True"

definition sound_bucket :: "period_bucket \<Rightarrow> bool" where
  "sound_bucket b = (valid_date (pb_start b) \<and> valid_date (pb_end b) \<and> pb_start b \<le> pb_end b
     \<and> 1 \<le> d_year (pb_start b) \<and> d_year (pb_end b) \<le> 9998)"

lemma bucket_loop_linked:
  assumes "at_period p s e" "int n + 1 \<le> d_year s" "d_year e \<le> 9998" "p \<in> set valid_periods" "lower p = p"
  shows "\<exists>bs. bucket_loop n p s e acc = Inr (acc @ bs) \<and> length bs = n \<and> linked p bs \<and> list_all sound_bucket bs
    \<and> (n \<noteq> 0 \<longrightarrow> hd bs = \<lparr>pb_start = s, pb_end = e\<rparr>)"
  using assms(1-3)
proof (induction n arbitrary: s e acc)
  case (Suc n)
  let ?b = "\<lparr>pb_start = s, pb_end = e\<rparr>"
  have se: "valid_date s" "valid_date e" "s \<le> e" using Suc.prems by (auto simp: at_period_def)
  then have s_year: "2 \<le> d_year s" "d_year s \<le> 9998" using Suc.prems year_le [of s e] by simp_all
  obtain s' e' where step: "get_previous_period p s e = Inr (s', e')" "at_period p s' e'" "meets p e' s" "d_year s - 1 \<le> d_year s'"
    using at_period_step [OF Suc.prems(1) s_year assms(4,5)] by blast
  have "d_year e' \<le> 9998" using step(3) s_year year_le [of e' s] less_imp_le [of e' s] unfolding meets_def by linarith
  with Suc step obtain bs where bs: "bucket_loop n p s' e' (acc @ [?b]) = Inr ((acc @ [?b]) @ bs)" "length bs = n"
    "linked p bs" "list_all sound_bucket bs" "n \<noteq> 0 \<longrightarrow> hd bs = \<lparr>pb_start = s', pb_end = e'\<rparr>"
    using Suc.IH [of s' e' "acc @ [?b]"] by auto
  have "linked p (?b # bs)" using bs step(3) by (cases bs) auto
  moreover have "sound_bucket ?b" using se s_year Suc.prems by (simp add: sound_bucket_def)
  ultimately show ?case using bs step(1) by (intro exI [of _ "?b # bs"]) simp
qed simp

lemma linked_before:
  assumes "linked p (b # bs)" "list_all sound_bucket bs" "b' \<in> set bs"
  shows "pb_end b' < pb_start b"
  using assms
proof (induction bs arbitrary: b)
  case (Cons c cs)
  have meets: "pb_end c < pb_start b" using Cons.prems by (simp add: meets_def)
  show ?case
  proof (cases "b' = c")
    case False
    then have "pb_end b' < pb_start c" using Cons by simp
    also have "pb_start c \<le> pb_end c" using Cons.prems by (simp add: sound_bucket_def)
    finally show ?thesis using meets by simp
  qed (use meets in simp)
qed simp

lemma linked_window:
  assumes "linked p bs" "p \<noteq> ''quarterly''" "list_all sound_bucket bs" "bs \<noteq> []" "daily totals"
  shows "sum_list (map (\<lambda>b. window_sum totals (pb_start b) (pb_end b)) bs) = window_sum totals (pb_start (last bs)) (pb_end (hd bs))
    \<and> pb_start (last bs) \<le> pb_start (hd bs)"
  using assms(1-4)
proof (induction p bs rule: linked.induct)
  case (1 p b b' bs)
  let ?s = "pb_start (last (b' # bs))"
  have IH: "sum_list (map (\<lambda>b. window_sum totals (pb_start b) (pb_end b)) (b' # bs)) = window_sum totals ?s (pb_end b')"
    "?s \<le> pb_start b'" using 1 by auto
  have b: "valid_date (pb_start b)" "pb_start b \<le> pb_end b" and b': "pb_start b' \<le> pb_end b'"
    and eq: "pb_end b' = shift_days (pb_start b) (- 1)"
    using 1 by (auto simp: sound_bucket_def meets_def)
  have le: "?s \<le> shift_days (pb_start b) (- 1)" using IH(2) b' eq by simp
  have "window_sum totals ?s (pb_end b') + window_sum totals (pb_start b) (pb_end b) = window_sum totals ?s (pb_end b)"
    unfolding eq using window_split(1) [OF b(1) le b(2)] assms(5) by (simp add: daily_def)
  moreover have "?s \<le> pb_start b" using order_trans [OF le, of "pb_start b"] b(1) by simp
  ultimately show ?case using IH(1) by simp
qed simp_all

section \<open>The points of a trend\<close>

definition point_of :: "(int \<Rightarrow> int \<Rightarrow> 'f) \<Rightarrow> (date \<times> int) list \<Rightarrow> period_bucket \<Rightarrow> 'f trend_point" where
  "point_of avg1 totals b = (let total_sum = window_sum totals (pb_start b) (pb_end b);
     days = window_days totals (pb_start b) (pb_end b) in
     \<lparr>tp_start = isoformat (pb_start b), tp_end = isoformat (pb_end b),
      tp_avg = (if expected_days b \<noteq> 1 then Inr (mean avg1 total_sum days) else Inl total_sum),
      tp_sum = total_sum, tp_coverage = days, tp_expected = expected_days b\<rparr>)"

lemma rollup_points:
  assumes "daily totals" "list_all sound_bucket bs"
  shows "rollup_to_buckets avg1 totals bs = Inr (map (point_of avg1 totals) bs)"
  using assms(2)
proof (induction bs)
  case (Cons b bs)
  then have "rollup_days totals (pb_start b) (pb_end b) 0 0 =
      Inr (window_days totals (pb_start b) (pb_end b), window_sum totals (pb_start b) (pb_end b))"
    using rollup_days_window [OF assms(1), of "pb_start b" "pb_end b" 0 0] by (simp add: sound_bucket_def)
  with Cons show ?case by (simp add: rollup_bucket_def point_of_def Let_def)
qed simp

lemma trend_window_buckets:
  assumes valid: "valid_date today" and years: "400 \<le> d_year today" "d_year today \<le> 9997"
    and kind: "normalize_period_type period_type = Inr p" and n: "normalize_periods periods = Inr n"
  shows "\<exists>bs s e. trend_window today period_type periods = Inr (p, n, rev bs) \<and> length bs = nat n \<and> linked p bs
    \<and> list_all sound_bucket bs \<and> bs \<noteq> [] \<and> get_current_period today p = Inr (s, e) \<and> hd bs = \<lparr>pb_start = s, pb_end = e\<rparr>"
proof -
  have p: "p \<in> set valid_periods" "lower p = p"
    using kind by (auto simp: normalize_period_type_def Let_def str_simps split: if_splits)
  have n_bounds: "1 \<le> n" "n \<le> 365"
    using n by (auto simp: normalize_periods_def Let_def split: pv.splits if_splits option.splits)
  obtain s e where se: "period_of p today = (s, e)" by fastforce
  obtain s' e' where prev: "period_of p (shift_days s (- 1)) = (s', e')" by fastforce
  have current: "get_current_period today p = Inr (s, e)"
    using current_period_of [OF valid, of p] years p se by simp
  note b = named.bracket [OF valid se]
  have "d_year today - 1 \<le> d_year s'" "d_year e \<le> d_year today + 1" "s' < s"
    using period_years [OF valid se prev] named.last_before [OF valid se prev] by simp_all
  then have "int (nat n) + 1 \<le> d_year s" "d_year e \<le> 9998" using n_bounds years year_le [OF less_imp_le, of s' s] by simp_all
  from bucket_loop_linked [OF at_period_self [OF valid se] this p, of "[]"]
  obtain bs where bs: "bucket_loop (nat n) p s e [] = Inr bs" "length bs = nat n" "linked p bs" "list_all sound_bucket bs"
    "nat n \<noteq> 0 \<longrightarrow> hd bs = \<lparr>pb_start = s, pb_end = e\<rparr>" by auto
  then have "trend_window today period_type periods = Inr (p, n, rev bs)" "bs \<noteq> []"
    using kind n n_bounds current by (auto simp: trend_window_def build_period_buckets_def date_failed_def)
  with bs current n_bounds show ?thesis by auto
qed

section \<open>The rows a query selects\<close>

definition in_filter :: "stat_filter \<Rightarrow> string \<Rightarrow> string \<Rightarrow> int \<Rightarrow> bool" where
  "in_filter f db_type owner_type owner_id =
    ((case sf_db_type f of None \<Rightarrow> True | Some t \<Rightarrow> t = [] \<or> db_type = t) \<and>
     (case resolved_scope f of None \<Rightarrow> True | Some sc \<Rightarrow> owner_type = asc_owner_type sc \<and> owner_id = asc_owner_id sc))"

definition class_selected :: "stat_filter \<Rightarrow> int \<Rightarrow> date \<Rightarrow> date \<Rightarrow> class_stat \<Rightarrow> bool" where
  "class_selected f cid s e r = (cs_classification r = cid \<and> s \<le> cs_date r \<and> cs_date r \<le> e
     \<and> in_filter f (cs_db_type r) (cs_owner_type r) (cs_owner_id r))"

definition rule_selected :: "stat_filter \<Rightarrow> int \<Rightarrow> date \<Rightarrow> date \<Rightarrow> rule_stat \<Rightarrow> bool" where
  "rule_selected f cid s e r = (rs_classification r = cid \<and> s \<le> rs_date r \<and> rs_date r \<le> e
     \<and> in_filter f (rs_db_type r) (rs_owner_type r) (rs_owner_id r))"

lemma fetch_selected: "fetch_classification_daily_totals tbl cid s e f =
    sort_key fst (group_sum cs_date cs_count (filter (class_selected f cid s e) tbl))"
  by (auto simp: fetch_classification_daily_totals_def Let_def db_type_filter_def apply_classification_scope_filter_def
    class_selected_def in_filter_def split: option.splits intro!: arg_cong [where f = "sort_key fst"]
    arg_cong [where f = "group_sum cs_date cs_count"] filter_cong)

lemma rule_window_selected: "rule_window tbl cid s e f = filter (rule_selected f cid s e) tbl"
  by (auto simp: rule_window_def Let_def db_type_filter_def apply_rule_scope_filter_def
    rule_selected_def in_filter_def split: option.splits intro!: filter_cong)

lemma daily_fetch:
  assumes "\<forall>r \<in> set tbl. valid_date (cs_date r)"
  shows "daily (fetch_classification_daily_totals tbl cid s e f)"
proof -
  let ?g = "group_sum cs_date cs_count (filter (class_selected f cid s e) tbl)"
  have "fst ` set ?g \<subseteq> cs_date ` set tbl"
    unfolding keys_of_group_sum by auto
  with assms show ?thesis unfolding daily_def fetch_selected by auto
qed

lemma window_sum_fetch: "window_sum (fetch_classification_daily_totals tbl cid s e f) a b =
    (\<Sum>r\<leftarrow>tbl. if class_selected f cid s e r \<and> a \<le> cs_date r \<and> cs_date r \<le> b then cs_count r else 0)"
proof -
  have "window_sum (fetch_classification_daily_totals tbl cid s e f) a b =
      (\<Sum>r\<leftarrow>filter (class_selected f cid s e) tbl. if a \<le> cs_date r \<and> cs_date r \<le> b then cs_count r else 0)"
    using sum_group_sum [of "\<lambda>d. a \<le> d \<and> d \<le> b" cs_date cs_count "filter (class_selected f cid s e) tbl"]
    by (simp add: window_sum_def fetch_selected)
  also have "\<dots> = (\<Sum>r\<leftarrow>tbl. if class_selected f cid s e r \<and> a \<le> cs_date r \<and> cs_date r \<le> b then cs_count r else 0)"
    by (induction tbl) auto
  finally show ?thesis .
qed

lemma window_days_keys: "distinct (map fst totals) \<Longrightarrow>
    window_days totals a b = int (card {d \<in> fst ` set totals. a \<le> d \<and> d \<le> b})"
proof (induction totals)
  case (Cons dv totals)
  let ?S = "{d \<in> fst ` set totals. a \<le> d \<and> d \<le> b}"
  have "{d \<in> fst ` set (dv # totals). a \<le> d \<and> d \<le> b} =
      (if a \<le> fst dv \<and> fst dv \<le> b then insert (fst dv) ?S else ?S)" by auto
  moreover have "fst dv \<notin> ?S" using Cons.prems by auto
  ultimately show ?case using Cons by (cases dv) (simp add: window_days_def)
qed (simp add: window_days_def)

lemma window_days_fetch: "window_days (fetch_classification_daily_totals tbl cid s e f) a b =
    int (card (cs_date ` {r \<in> set tbl. class_selected f cid s e r \<and> a \<le> cs_date r \<and> cs_date r \<le> b}))"
proof -
  let ?t = "fetch_classification_daily_totals tbl cid s e f"
  have "fst ` set ?t = cs_date ` {r \<in> set tbl. class_selected f cid s e r}"
    unfolding fetch_selected set_sort keys_of_group_sum by auto
  then have "{d \<in> fst ` set ?t. a \<le> d \<and> d \<le> b} =
      cs_date ` {r \<in> set tbl. class_selected f cid s e r \<and> a \<le> cs_date r \<and> cs_date r \<le> b}" by auto
  moreover have "distinct (map fst ?t)" by (simp add: fetch_selected)
  ultimately show ?thesis by (simp add: window_days_keys)
qed

section \<open>Properties\<close>

text \<open>C30: A classification trend by days, weeks or months accounts for every count. For every
  table, filter and number of periods the request succeeds with one point per bucket, the
  last bucket being the current period, and the sums of the points add up to the counts of the
  selected rows in the window.\<close>

theorem classification_trend_conserves:
  assumes valid: "valid_date today" and years: "400 \<le> d_year today" "d_year today \<le> 9997"
    and kind: "normalize_period_type period_type = Inr p" "p \<noteq> ''quarterly''" and n: "normalize_periods periods = Inr n"
    and rows: "\<forall>r \<in> set tbl. valid_date (cs_date r)"
  shows "\<exists>buckets points. trend_window today period_type periods = Inr (p, n, buckets) \<and> length buckets = nat n
    \<and> get_current_period today p = Inr (pb_start (last buckets), pb_end (last buckets))
    \<and> get_classification_trend avg1 tbl today cid period_type periods f = Inr points \<and> length points = nat n
    \<and> sum_list (map tp_sum points) =
      (\<Sum>r\<leftarrow>tbl. if class_selected f cid (pb_start (hd buckets)) (pb_end (last buckets)) r then cs_count r else 0)"
proof -
  obtain bs s e where bs: "trend_window today period_type periods = Inr (p, n, rev bs)" "length bs = nat n" "linked p bs"
    "list_all sound_bucket bs" "bs \<noteq> []" "get_current_period today p = Inr (s, e)" "hd bs = \<lparr>pb_start = s, pb_end = e\<rparr>"
    using trend_window_buckets [OF valid years kind(1) n] by blast
  let ?t = "fetch_classification_daily_totals tbl cid (pb_start (last bs)) e f"
  let ?points = "map (point_of avg1 ?t) (rev bs)"
  have trend: "get_classification_trend avg1 tbl today cid period_type periods f = Inr ?points"
    using rollup_points [OF daily_fetch [OF rows], of "rev bs" avg1] bs
    by (simp add: get_classification_trend_def hd_rev last_rev date_failed_def)
  have "sum_list (map tp_sum ?points) = sum_list (map (\<lambda>b. window_sum ?t (pb_start b) (pb_end b)) bs)"
    by (simp add: point_of_def Let_def o_def rev_map [symmetric])
  also have "\<dots> = window_sum ?t (pb_start (last bs)) e"
    using linked_window [OF bs(3) kind(2) bs(4,5) daily_fetch [OF rows]] bs(7) by simp
  also have "\<dots> = (\<Sum>r\<leftarrow>tbl. if class_selected f cid (pb_start (last bs)) e r then cs_count r else 0)"
    unfolding window_sum_fetch by (rule arg_cong [where f = sum_list], rule map_cong) (auto simp: class_selected_def)
  finally show ?thesis
    using trend bs by (intro exI [of _ "rev bs"] exI [of _ ?points]) (simp add: hd_rev last_rev)
qed

text \<open>A quarterly trend omits a month before every later quarter. Unless the current
  quarter is the first of its year, a row dated in the month before it changes nothing in a
  trend of two or more quarters, although the month lies in the window that is queried.\<close>

theorem quarterly_trend_omits_month:
  assumes valid: "valid_date today" and years: "400 \<le> d_year today" "d_year today \<le> 9997"
    and kind: "normalize_period_type period_type = Inr ''quarterly''" and n: "normalize_periods periods = Inr n" "2 \<le> n"
    and rows: "\<forall>r \<in> set tbl. valid_date (cs_date r)"
    and current: "get_current_period today ''quarterly'' = Inr (s, e)" "d_month s \<noteq> 1"
    and row: "valid_date (cs_date r)" "Date (d_year s) (d_month s - 1) 1 \<le> cs_date r" "cs_date r < s"
  shows "get_classification_trend avg1 (r # tbl) today cid period_type periods f =
      get_classification_trend avg1 tbl today cid period_type periods f
    \<and> (\<exists>buckets. trend_window today period_type periods = Inr (''quarterly'', n, buckets)
        \<and> pb_start (hd buckets) \<le> cs_date r \<and> cs_date r \<le> pb_end (last buckets))"
proof -
  let ?b = "\<lparr>pb_start = s, pb_end = e\<rparr>"
  obtain bs where bs: "trend_window today period_type periods = Inr (''quarterly'', n, rev bs)" "length bs = nat n"
    "linked ''quarterly'' bs" "list_all sound_bucket bs" "bs \<noteq> []" "hd bs = ?b"
    using trend_window_buckets [OF valid years kind n(1)] current by force
  then obtain b1 rest where bs_eq: "bs = ?b # b1 # rest"
    using n(2) by (cases bs; cases "tl bs") auto
  have b1: "pb_end b1 < cs_date r"
    using bs(3) current(2) row(2) by (auto simp: bs_eq meets_def)
  have outside: "\<not> (pb_start b \<le> cs_date r \<and> cs_date r \<le> pb_end b)" if b: "b \<in> set bs" for b
  proof -
    consider "b = ?b" | "b = b1" | "b \<in> set rest" using b bs_eq by auto
    then show ?thesis
    proof cases
      case 3
      then have "pb_end b < pb_start b1" using linked_before [of "''quarterly''" b1 rest b] bs bs_eq by simp
      then show ?thesis using b1 bs bs_eq by (auto simp: sound_bucket_def)
    qed (use row b1 in auto)
  qed
  let ?t = "\<lambda>tbl. fetch_classification_daily_totals tbl cid (pb_start (last bs)) e f"
  have "point_of avg1 (?t (r # tbl)) b = point_of avg1 (?t tbl) b" if "b \<in> set bs" for b
  proof -
    have "{x \<in> set (r # tbl). class_selected f cid (pb_start (last bs)) e x \<and> pb_start b \<le> cs_date x \<and> cs_date x \<le> pb_end b}
      = {x \<in> set tbl. class_selected f cid (pb_start (last bs)) e x \<and> pb_start b \<le> cs_date x \<and> cs_date x \<le> pb_end b}"
      using outside [OF that] by auto
    then have "window_days (?t (r # tbl)) (pb_start b) (pb_end b) = window_days (?t tbl) (pb_start b) (pb_end b)"
      by (simp only: window_days_fetch)
    moreover have "window_sum (?t (r # tbl)) (pb_start b) (pb_end b) = window_sum (?t tbl) (pb_start b) (pb_end b)"
      using outside [OF that] by (auto simp: window_sum_fetch)
    ultimately show ?thesis by (simp add: point_of_def)
  qed
  moreover have "get_classification_trend avg1 tbl' today cid period_type periods f = Inr (map (point_of avg1 (?t tbl')) (rev bs))"
    if "\<forall>r \<in> set tbl'. valid_date (cs_date r)" for tbl'
    using rollup_points [OF daily_fetch [OF that], of "rev bs" avg1] bs
    by (simp add: get_classification_trend_def hd_rev last_rev date_failed_def)
  ultimately have "get_classification_trend avg1 (r # tbl) today cid period_type periods f =
      get_classification_trend avg1 tbl today cid period_type periods f"
    using rows row(1) by simp
  moreover have "pb_start (last bs) \<le> cs_date r"
  proof (cases rest rule: rev_cases)
    case Nil
    then show ?thesis using bs bs_eq b1 by (auto simp: sound_bucket_def)
  next
    case (snoc rest' b)
    then have "pb_end b < pb_start b1" "pb_start b \<le> pb_end b"
      using linked_before [of "''quarterly''" b1 rest b] bs bs_eq by (simp_all add: sound_bucket_def)
    then show ?thesis using snoc bs_eq b1 bs by (auto simp: sound_bucket_def)
  qed
  moreover have "cs_date r \<le> e" using row(3) bs bs_eq by (auto simp: sound_bucket_def)
  ultimately show ?thesis
    using bs(1) bs_eq by (auto simp: hd_rev last_rev simp del: rev.simps)
qed

text \<open>Two instances: the second quarter of 2024, with a count on its first day and one in March.\<close>

definition sample_stat :: "date \<Rightarrow> int \<Rightarrow> class_stat" where
  "sample_stat d n = \<lparr>cs_date = d, cs_classification = 7, cs_db_type = ''mysql'', cs_owner_type = ''instance'',
     cs_owner_id = 1, cs_count = n\<rparr>"

lemma classification_trend_conserves_witness:
  "\<exists>points. get_classification_trend (\<lambda>a b. a div b) [sample_stat (Date 2024 4 1) 5, sample_stat (Date 2024 3 31) 3]
      (Date 2024 5 15) 7 ''Monthly'' (PInt 3) \<lparr>sf_db_type = None, sf_instance = Some 1, sf_scope = None\<rparr> = Inr points
    \<and> length points = 3"
proof -
  let ?tbl = "[sample_stat (Date 2024 4 1) 5, sample_stat (Date 2024 3 31) 3]"
  have "\<forall>r \<in> set ?tbl. valid_date (cs_date r)" by code_simp
  moreover have "normalize_period_type ''Monthly'' = Inr ''monthly''" "normalize_periods (PInt 3) = Inr 3"
    "valid_date (Date 2024 5 15)" by code_simp+
  ultimately show ?thesis
    using classification_trend_conserves [of "Date 2024 5 15" "''Monthly''" "''monthly''" "PInt 3" 3 ?tbl
      "\<lambda>a b. a div b" 7 "\<lparr>sf_db_type = None, sf_instance = Some 1, sf_scope = None\<rparr>"]
    by auto
qed

lemma quarterly_trend_omits_month_witness:
  "get_classification_trend (\<lambda>a b. a div b) [sample_stat (Date 2024 3 31) 3] (Date 2024 5 15) 7 ''quarterly'' (PInt 2)
      \<lparr>sf_db_type = None, sf_instance = None, sf_scope = None\<rparr> =
    get_classification_trend (\<lambda>a b. a div b) [] (Date 2024 5 15) 7 ''quarterly'' (PInt 2)
      \<lparr>sf_db_type = None, sf_instance = None, sf_scope = None\<rparr>"
proof -
  have "normalize_period_type ''quarterly'' = Inr ''quarterly''" "normalize_periods (PInt 2) = Inr 2"
    "get_current_period (Date 2024 5 15) ''quarterly'' = Inr (Date 2024 4 1, Date 2024 6 30)"
    "valid_date (Date 2024 5 15)" "valid_date (cs_date (sample_stat (Date 2024 3 31) 3))"
    "Date 2024 3 1 \<le> cs_date (sample_stat (Date 2024 3 31) 3)" "cs_date (sample_stat (Date 2024 3 31) 3) < Date 2024 4 1"
    by code_simp+
  then show ?thesis
    using quarterly_trend_omits_month [of "Date 2024 5 15" "''quarterly''" "PInt 2" 2 "[]" "Date 2024 4 1" "Date 2024 6 30"
      "sample_stat (Date 2024 3 31) 3" "\<lambda>a b. a div b" 7 "\<lparr>sf_db_type = None, sf_instance = None, sf_scope = None\<rparr>"]
    by simp
qed

text \<open>The points depend on the totals only as a mapping.\<close>

lemma rollup_days_cong: "map_of t = map_of t' \<Longrightarrow> rollup_days t c e cov v = rollup_days t' c e cov v"
proof (induction t c e cov v rule: rollup_days.induct)
  case (1 t c e cov v)
  then show ?case
    by (subst (1 2) rollup_days.simps) (auto simp: Let_def split: sum.splits option.splits)
qed

lemma rollup_cong: "map_of t = map_of t' \<Longrightarrow> rollup_to_buckets avg1 t bs = rollup_to_buckets avg1 t' bs"
  by (induction bs) (simp_all add: rollup_bucket_def rollup_days_cong [of t t'])

abbreviation totals_of :: "(int \<times> (date \<times> int) list) list \<Rightarrow> int \<Rightarrow> (date \<times> int) list" where
  "totals_of data c \<equiv> (case map_of data c of None \<Rightarrow> [] | Some d \<Rightarrow> d)"

lemma fold_put_total:
  assumes "distinct (map fst rows)"
  shows "map_of (totals_of (fold put_total rows data) c) d =
    (case map_of rows (c, d) of Some v \<Rightarrow> Some v | None \<Rightarrow> map_of (totals_of data c) d)"
  using assms
proof (induction rows arbitrary: data)
  case (Cons row rows)
  obtain c' d' v where row: "row = ((c', d'), v)" by (cases row) auto
  have "map_of rows (c', d') = None" using Cons.prems row by (auto simp: map_of_eq_None_iff)
  moreover have "map_of (totals_of (put_total row data) c) d =
      (if (c, d) = (c', d') then Some v else map_of (totals_of data c) d)"
    by (auto simp: put_total_def row update_conv')
  ultimately show ?case using Cons row by (auto split: option.splits)
qed simp

lemma fetch_all_selected: "map_of (totals_of (fetch_all_classifications_daily_totals tbl s e f) c) =
    map_of (fetch_classification_daily_totals tbl c s e f)"
proof
  fix d
  let ?all = "filter (\<lambda>r. s \<le> cs_date r \<and> cs_date r \<le> e \<and> in_filter f (cs_db_type r) (cs_owner_type r) (cs_owner_id r)) tbl"
  let ?g = "group_sum (\<lambda>r. (cs_classification r, cs_date r)) cs_count ?all"
  have "fetch_all_classifications_daily_totals tbl s e f = fold put_total (sort_key (\<lambda>row. snd (fst row)) ?g) []"
    by (auto simp: fetch_all_classifications_daily_totals_def Let_def db_type_filter_def apply_classification_scope_filter_def
      in_filter_def split: option.splits intro!: arg_cong [where f = "\<lambda>rows. fold put_total rows []"]
      arg_cong [where f = "sort_key (\<lambda>row. snd (fst row))"] arg_cong [where f = "group_sum _ cs_count"] filter_cong)
  then have "map_of (totals_of (fetch_all_classifications_daily_totals tbl s e f) c) d = map_of ?g (c, d)"
    by (simp add: fold_put_total map_of_sort_key split: option.splits)
  also have "\<dots> = map_of (group_sum cs_date cs_count (filter (class_selected f c s e) tbl)) d"
    unfolding map_of_group_sum
    by (auto simp: class_selected_def image_iff conj_ac intro!: arg_cong [where f = sum_list] arg_cong [where f = "map cs_count"] filter_cong)
  finally show "map_of (totals_of (fetch_all_classifications_daily_totals tbl s e f) c) d =
      map_of (fetch_classification_daily_totals tbl c s e f) d"
    by (simp add: fetch_selected map_of_sort_key)
qed

lemma date_failed_Inr [simp]: "date_failed m = Inr x \<longleftrightarrow> m = Inr x"
  by (cases m) (simp_all add: date_failed_def)

lemma all_series_agree:
  "all_series avg1 m buckets cs = Inr series \<Longrightarrow> map se_id series = map cr_id cs \<and>
    (\<forall>se \<in> set series. rollup_to_buckets avg1 (totals_of m (se_id se)) buckets = Inr (se_points se))"
  by (induction cs arbitrary: series) (auto simp: bind_err_eq_Inr)

text \<open>C31: The overview of all classifications shows the same trends as the classifications one by
  one: it has a series for each active classification in the order of the list, and its points
  are those of the classification's own trend.\<close>

theorem all_trends_agree:
  assumes "get_all_classifications_trends avg1 tbl classifications today period_type periods f = Inr all"
  shows "map se_id (alt_series all) = map cr_id (fetch_active_classifications classifications) \<and>
    (\<forall>se \<in> set (alt_series all).
       get_classification_trend avg1 tbl today (se_id se) period_type periods f = Inr (se_points se))"
proof -
  obtain p n buckets series where window: "trend_window today period_type periods = Inr (p, n, buckets)"
    and series: "all_series avg1 (fetch_all_classifications_daily_totals tbl (pb_start (hd buckets)) (pb_end (last buckets)) f)
      buckets (fetch_active_classifications classifications) = Inr series" and all_eq: "alt_series all = series"
    using assms
    by (auto simp: get_all_classifications_trends_def bind_err_eq_Inr Let_def)
  have "get_classification_trend avg1 tbl today (se_id se) period_type periods f = Inr (se_points se)" if "se \<in> set series" for se
  proof -
    have "rollup_to_buckets avg1 (totals_of (fetch_all_classifications_daily_totals tbl (pb_start (hd buckets))
        (pb_end (last buckets)) f) (se_id se)) buckets = Inr (se_points se)"
      using all_series_agree [OF series] that by blast
    then show ?thesis
      using rollup_cong [OF fetch_all_selected, of avg1] by (simp add: get_classification_trend_def window date_failed_def)
  qed
  with all_series_agree [OF series] all_eq show ?thesis by simp
qed

lemma all_trends_agree_witness:
  "\<exists>all. get_all_classifications_trends (\<lambda>a b. a div b) [sample_stat (Date 2024 5 14) 5]
      [\<lparr>cr_id = 7, cr_display_name = Some ''DBA'', cr_code = None, cr_priority = 1, cr_created_at = 0, cr_active = True\<rparr>]
      (Date 2024 5 15) ''daily'' (PInt 2) \<lparr>sf_db_type = None, sf_instance = None, sf_scope = None\<rparr> = Inr all \<and>
    (\<exists>points. map se_points (alt_series all) = [points] \<and>
      get_classification_trend (\<lambda>a b. a div b) [sample_stat (Date 2024 5 14) 5] (Date 2024 5 15) 7 ''daily'' (PInt 2)
        \<lparr>sf_db_type = None, sf_instance = None, sf_scope = None\<rparr> = Inr points)"
proof -
  let ?tbl = "[sample_stat (Date 2024 5 14) 5]" and ?avg = "\<lambda>a b. a div b :: int"
    and ?c = "[\<lparr>cr_id = 7, cr_display_name = Some ''DBA'', cr_code = None, cr_priority = 1, cr_created_at = 0, cr_active = True\<rparr>]"
    and ?f = "\<lparr>sf_db_type = None, sf_instance = None, sf_scope = None\<rparr>"
    and ?bs = "[\<lparr>pb_start = Date 2024 5 14, pb_end = Date 2024 5 14\<rparr>, \<lparr>pb_start = Date 2024 5 15, pb_end = Date 2024 5 15\<rparr>]"
    and ?m = "[(7, [(Date 2024 5 14, 5)])]"
  have "trend_window (Date 2024 5 15) ''daily'' (PInt 2) = Inr (''daily'', 2, ?bs)"
    "fetch_all_classifications_daily_totals ?tbl (Date 2024 5 14) (Date 2024 5 15) ?f = ?m"
    "fetch_active_classifications ?c = ?c" "rollup_days [(Date 2024 5 14, 5)] (Date 2024 5 14) (Date 2024 5 14) 0 0 = Inr (1, 5)"
    "rollup_days [(Date 2024 5 14, 5)] (Date 2024 5 15) (Date 2024 5 15) 0 0 = Inr (0, 0)"
    by code_simp+
  then obtain all where all: "get_all_classifications_trends ?avg ?tbl ?c (Date 2024 5 15) ''daily'' (PInt 2) ?f = Inr all"
    and one: "length (alt_series all) = 1"
    by (simp add: get_all_classifications_trends_def rollup_bucket_def date_failed_def)
  from all_trends_agree [OF all] \<open>fetch_active_classifications ?c = ?c\<close> all show ?thesis
    by (intro exI [of _ all]) (cases "alt_series all"; auto)
qed

text \<open>The largest first.\<close>

lemma sorted_sort_desc: "sorted_wrt (\<lambda>a b. key b \<le> key a) (sort_desc key xs)"
  using sorted_sort_key [of key "rev xs"] by (simp add: sort_desc_def sorted_wrt_rev sorted_map)

lemma set_sort_desc [simp]: "set (sort_desc key xs) = set xs" "length (sort_desc key xs) = length xs"
  by (simp_all add: sort_desc_def)

lemma take_largest:
  assumes "sorted_wrt (\<lambda>a b. key b \<le> (key a :: int)) xs" "x \<in> set xs" "x \<notin> set (take n xs)" "y \<in> set (take n xs)"
  shows "key x \<le> key y"
proof -
  have "x \<in> set (drop n xs)" using assms(2,3) by (metis Un_iff append_take_drop_id set_append)
  with assms(1,4) show ?thesis by (metis append_take_drop_id sorted_wrt_append)
qed

text \<open>The rule contributions of a period are its largest. Every item carries the counts of
  its rule in the current period, the items come in descending order, there are at most as many
  as asked for and never more than 50, and a rule with rows in the period that is left out
  counts no more than any item shown.\<close>

theorem contributions_are_largest:
  assumes "get_rule_contributions avg1 tbl rules today cid period_type f limit = Inr c"
    and "normalize_period_type period_type = Inr p" "get_current_period today p = Inr (s, e)"
  shows "(\<forall>i \<in> set (cb_items c). co_sum i = (\<Sum>r\<leftarrow>tbl. if rule_selected f cid s e r \<and> rs_rule r = co_rule_id i then rs_count r else 0))
    \<and> sorted_wrt (\<lambda>i j. co_sum j \<le> co_sum i) (cb_items c)
    \<and> int (length (cb_items c)) \<le> contribution_limit limit \<and> contribution_limit limit \<le> 50
    \<and> (\<forall>r \<in> set tbl. rule_selected f cid s e r \<and> rs_rule r \<notin> co_rule_id ` set (cb_items c) \<longrightarrow>
        (\<forall>i \<in> set (cb_items c). (\<Sum>q\<leftarrow>tbl. if rule_selected f cid s e q \<and> rs_rule q = rs_rule r then rs_count q else 0) \<le> co_sum i))"
proof -
  let ?rows = "filter (rule_selected f cid s e) tbl"
  let ?totals = "group_sum rs_rule rs_count ?rows"
  let ?count = "\<lambda>k. \<Sum>r\<leftarrow>tbl. if rule_selected f cid s e r \<and> rs_rule r = k then rs_count r else 0"
  define items where "items = sort_desc co_sum (map (contribution_item avg1 (fetch_rules_by_ids rules (map fst ?totals)) p
    (int (length (fetch_rule_stat_dates tbl cid s e f))) (days_between s e + 1)) ?totals)"
  have c: "cb_items c = take (nat (contribution_limit limit)) items"
    using assms by (auto simp: get_rule_contributions_def Let_def date_failed_def fetch_rule_totals_by_rule_id_def
      rule_window_selected items_def)
  have "?count k = sum_list (map rs_count (filter (\<lambda>r. rs_rule r = k) ?rows))" for k
    by (induction tbl) auto
  then have totals: "set ?totals = (\<lambda>k. (k, ?count k)) ` rs_rule ` set ?rows"
    by (auto simp: group_sum_def)
  have item: "co_rule_id (contribution_item a b d g h kv) = fst kv \<and> co_sum (contribution_item a b d g h kv) = snd kv"
    for a :: "int \<Rightarrow> int \<Rightarrow> 'a" and b d g h kv by (simp add: contribution_item_def Let_def split: prod.splits)
  have sums: "co_sum i = ?count (co_rule_id i)" if "i \<in> set items" for i
    using that totals item by (auto simp: items_def)
  have shown: "\<exists>i \<in> set items. co_rule_id i = rs_rule r" if "r \<in> set ?rows" for r
    using that totals item by (auto simp: items_def image_iff)
  have sorted: "sorted_wrt (\<lambda>i j. co_sum j \<le> co_sum i) items" unfolding items_def by (rule sorted_sort_desc)
  have largest: "?count (rs_rule r) \<le> co_sum i"
    if r: "r \<in> set ?rows" "rs_rule r \<notin> co_rule_id ` set (cb_items c)" and i: "i \<in> set (cb_items c)" for r i
  proof -
    obtain j where j: "j \<in> set items" "co_rule_id j = rs_rule r" using shown [OF r(1)] by blast
    with r(2) have "j \<notin> set (cb_items c)" by (metis imageI)
    then have "co_sum j \<le> co_sum i" using take_largest [OF sorted j(1)] i c by simp
    with sums [OF j(1)] j(2) show ?thesis by simp
  qed
  have "set (cb_items c) \<subseteq> set items" using c by (simp add: set_take_subset)
  moreover have "sorted_wrt (\<lambda>i j. co_sum j \<le> co_sum i) (cb_items c)" using sorted c by (simp add: sorted_wrt_take)
  moreover have "int (length (cb_items c)) \<le> contribution_limit limit" "contribution_limit limit \<le> 50"
    using c by (simp_all add: contribution_limit_def)
  ultimately show ?thesis using sums largest by (simp add: subset_iff)
qed


lemma contributions_are_largest_witness:
  "\<exists>c. get_rule_contributions (\<lambda>a b. a div b) [\<lparr>rs_date = Date 2024 5 14, rs_rule = 3, rs_classification = 7, rs_db_type = ''mysql'',
      rs_owner_type = ''instance'', rs_owner_id = 1, rs_count = 5\<rparr>] [] (Date 2024 5 15) 7 ''monthly''
      \<lparr>sf_db_type = None, sf_instance = None, sf_scope = None\<rparr> 0 = Inr c \<and> int (length (cb_items c)) \<le> 50"
proof -
  let ?tbl = "[\<lparr>rs_date = Date 2024 5 14, rs_rule = 3, rs_classification = 7, rs_db_type = ''mysql'',
      rs_owner_type = ''instance'', rs_owner_id = 1, rs_count = 5\<rparr>]" and ?f = "\<lparr>sf_db_type = None, sf_instance = None, sf_scope = None\<rparr>"
  have p: "normalize_period_type ''monthly'' = Inr ''monthly''"
    and se: "get_current_period (Date 2024 5 15) ''monthly'' = Inr (Date 2024 5 1, Date 2024 5 31)"
    by code_simp+
  then obtain c where c: "get_rule_contributions (\<lambda>a b. a div b) ?tbl [] (Date 2024 5 15) 7 ''monthly'' ?f 0 = Inr c"
    by (simp add: get_rule_contributions_def date_failed_def Let_def)
  from contributions_are_largest [OF c p se] c show ?thesis by (meson order_trans)
qed

lemma totals_lookup: "(case map_of (fetch_rule_totals_by_rule_id tbl cid s e f) k of None \<Rightarrow> 0 | Some v \<Rightarrow> v) =
    (\<Sum>r\<leftarrow>tbl. if rule_selected f cid s e r \<and> rs_rule r = k then rs_count r else 0)"
proof -
  let ?rows = "filter (rule_selected f cid s e) tbl"
  have rows: "(\<Sum>r\<leftarrow>tbl. if rule_selected f cid s e r \<and> rs_rule r = k then rs_count r else 0) =
      sum_list (map rs_count (filter (\<lambda>r. rs_rule r = k) ?rows))"
    by (induction tbl) auto
  have none: "filter (\<lambda>r. rs_rule r = k) ?rows = []" if "k \<notin> rs_rule ` set ?rows"
    using that by (auto simp: filter_empty_conv)
  show ?thesis
    unfolding rows fetch_rule_totals_by_rule_id_def rule_window_selected map_of_group_sum
    using none by (cases "k \<in> rs_rule ` set ?rows") simp_all
qed

lemma coverage_lookup: "(case map_of (fetch_rule_coverage_days_by_rule_id tbl cid s e f) k of None \<Rightarrow> 0 | Some v \<Rightarrow> v) =
    int (card (rs_date ` {r \<in> set tbl. rule_selected f cid s e r \<and> rs_rule r = k}))"
proof -
  let ?rows = "filter (rule_selected f cid s e) tbl"
  have "rs_date ` {r \<in> set tbl. rule_selected f cid s e r \<and> rs_rule r = k} = set (map rs_date (filter (\<lambda>r. rs_rule r = k) ?rows))"
    by auto
  then have days: "card (rs_date ` {r \<in> set tbl. rule_selected f cid s e r \<and> rs_rule r = k}) =
      length (remdups (map rs_date (filter (\<lambda>r. rs_rule r = k) ?rows)))"
    by (simp only: length_remdups_card_conv)
  have none: "filter (\<lambda>r. rs_rule r = k) ?rows = []" if "k \<notin> rs_rule ` set ?rows"
    using that by (auto simp: filter_empty_conv)
  show ?thesis
    unfolding days fetch_rule_coverage_days_by_rule_id_def rule_window_selected Let_def map_of_map_restrict
    using none by (cases "k \<in> rs_rule ` set ?rows") (simp_all add: restrict_map_def)
qed

text \<open>The overview of the rules of a classification lists each rule the status selects exactly
  once, with the counts of the rule's rows in the whole window and in the current period, and
  the number of days of the current period that have a row; it is ordered by the shown value,
  then by the count of the window, the largest first.\<close>

theorem overview_counts_rules:
  assumes "list_rules_overview avg1 to_float tbl rules today cid period_type periods f status = Inr ov"
    and window: "trend_window today period_type periods = Inr (p, n, buckets)"
    and current: "get_current_period today p = Inr (s, e)" and status: "normalize_rule_status status = Inr st"
  shows "mset (map oi_rule_id (ov_rules ov)) = mset (map rr_id (fetch_rules_for_overview rules cid (sf_db_type f) (status_active st)))
    \<and> sorted_wrt (\<lambda>i j. overview_key to_float j \<le> overview_key to_float i) (ov_rules ov)
    \<and> (\<forall>i \<in> set (ov_rules ov).
        oi_window_sum i = (\<Sum>r\<leftarrow>tbl. if rule_selected f cid (pb_start (hd buckets)) (pb_end (last buckets)) r
          \<and> rs_rule r = oi_rule_id i then rs_count r else 0)
      \<and> oi_latest_sum i = (\<Sum>r\<leftarrow>tbl. if rule_selected f cid s e r \<and> rs_rule r = oi_rule_id i then rs_count r else 0)
      \<and> oi_coverage i = int (card (rs_date ` {r \<in> set tbl. rule_selected f cid s e r \<and> rs_rule r = oi_rule_id i})))"
proof -
  let ?item = "overview_item avg1 p (fetch_rule_totals_by_rule_id tbl cid (pb_start (hd buckets)) (pb_end (last buckets)) f)
    (fetch_rule_totals_by_rule_id tbl cid s e f) (fetch_rule_coverage_days_by_rule_id tbl cid s e f) (days_between s e + 1)"
  let ?fetched = "fetch_rules_for_overview rules cid (sf_db_type f) (status_active st)"
  have rules: "ov_rules ov = sort_desc (overview_key to_float) (map ?item ?fetched)"
  proof -
    have "normalize_period_type period_type = Inr p" "normalize_periods periods = Inr n" "build_period_buckets today p n = Inr buckets"
      using window by (auto simp: trend_window_def bind_err_eq_Inr)
    then show ?thesis using assms by (auto simp: list_rules_overview_def Let_def date_failed_def)
  qed
  have "mset (ov_rules ov) = mset (map ?item ?fetched)"
    unfolding rules sort_desc_def by simp
  then have "mset (map oi_rule_id (ov_rules ov)) = mset (map oi_rule_id (map ?item ?fetched))"
    by (metis mset_map)
  moreover have "map oi_rule_id (map ?item ?fetched) = map rr_id ?fetched"
    by (simp add: overview_item_def Let_def)
  ultimately have ids: "mset (map oi_rule_id (ov_rules ov)) = mset (map rr_id ?fetched)" by (simp only:)
  have sorted: "sorted_wrt (\<lambda>i j. overview_key to_float j \<le> overview_key to_float i) (ov_rules ov)"
    unfolding rules by (rule sorted_sort_desc)
  have "oi_window_sum (?item r) = (\<Sum>q\<leftarrow>tbl. if rule_selected f cid (pb_start (hd buckets)) (pb_end (last buckets)) q
          \<and> rs_rule q = oi_rule_id (?item r) then rs_count q else 0)
      \<and> oi_latest_sum (?item r) = (\<Sum>q\<leftarrow>tbl. if rule_selected f cid s e q \<and> rs_rule q = oi_rule_id (?item r) then rs_count q else 0)
      \<and> oi_coverage (?item r) = int (card (rs_date ` {q \<in> set tbl. rule_selected f cid s e q \<and> rs_rule q = oi_rule_id (?item r)}))" for r
    by (simp add: overview_item_def Let_def totals_lookup coverage_lookup)
  moreover have "set (ov_rules ov) = ?item ` set ?fetched" unfolding rules by simp
  ultimately show ?thesis using ids sorted by (simp only: ball_simps) blast
qed

lemma overview_counts_rules_witness:
  "\<exists>ov. list_rules_overview (\<lambda>a b. a div b) id [\<lparr>rs_date = Date 2024 5 14, rs_rule = 3, rs_classification = 7, rs_db_type = ''mysql'',
      rs_owner_type = ''instance'', rs_owner_id = 1, rs_count = 5\<rparr>]
      [\<lparr>rr_id = 3, rr_name = ''r'', rr_classification = 7, rr_db_type = ''mysql'', rr_version = 1, rr_created_at = 0, rr_active = True\<rparr>]
      (Date 2024 5 15) 7 ''daily'' (PInt 2) \<lparr>sf_db_type = None, sf_instance = None, sf_scope = None\<rparr> ''all'' = Inr ov
    \<and> image_mset oi_rule_id (mset (ov_rules ov)) = {#3#}"
proof -
  let ?tbl = "[\<lparr>rs_date = Date 2024 5 14, rs_rule = 3, rs_classification = 7, rs_db_type = ''mysql'',
      rs_owner_type = ''instance'', rs_owner_id = 1, rs_count = 5\<rparr>]" and ?f = "\<lparr>sf_db_type = None, sf_instance = None, sf_scope = None\<rparr>"
    and ?rules = "[\<lparr>rr_id = 3, rr_name = ''r'', rr_classification = 7, rr_db_type = ''mysql'', rr_version = 1, rr_created_at = 0, rr_active = True\<rparr>]"
    and ?bs = "[\<lparr>pb_start = Date 2024 5 14, pb_end = Date 2024 5 14\<rparr>, \<lparr>pb_start = Date 2024 5 15, pb_end = Date 2024 5 15\<rparr>]"
  have window: "trend_window (Date 2024 5 15) ''daily'' (PInt 2) = Inr (''daily'', 2, ?bs)"
    and today: "get_current_period (Date 2024 5 15) ''daily'' = Inr (Date 2024 5 15, Date 2024 5 15)"
    and st: "normalize_rule_status ''all'' = Inr ''all''" and ids: "map rr_id (fetch_rules_for_overview ?rules 7 None (status_active ''all'')) = [3]"
    and parts: "normalize_period_type ''daily'' = Inr ''daily''" "normalize_periods (PInt 2) = Inr 2"
    "build_period_buckets (Date 2024 5 15) ''daily'' 2 = Inr ?bs"
    by code_simp+
  then obtain ov where ov: "list_rules_overview (\<lambda>a b. a div b) id ?tbl ?rules (Date 2024 5 15) 7 ''daily'' (PInt 2) ?f ''all'' = Inr ov"
    by (simp add: list_rules_overview_def date_failed_def Let_def)
  from overview_counts_rules [OF ov window today st] ids ov show ?thesis by simp
qed

end
