(* ===== verification/Permission_Facts.thy ===== *)
theory Permission_Facts
  imports Core_Constants
begin

text \<open>
  Permission snapshots and the facts derived from them: the version 4 contract of
  \<^verbatim>\<open>app/schemas/internal_contracts/permission_snapshot_v4.py\<close>, its result type of
  \<^verbatim>\<open>app/core/types/internal_contracts.py\<close>, and \<^verbatim>\<open>build_permission_facts\<close> of
  \<^verbatim>\<open>app/services/accounts_permissions/facts_builder.py\<close>. Snapshots and facts are documents.

  Two things of the standard library are parameters of the one test that needs them:
  \<^verbatim>\<open>fromiso\<close> is \<^verbatim>\<open>datetime.fromisoformat\<close>, the instant a text names with a naive time read as
  UTC, \<^verbatim>\<open>None\<close> where it raises \<^verbatim>\<open>ValueError\<close>, and \<^verbatim>\<open>now\<close> is the reading of the clock.
\<close>

section \<open>The contract of a snapshot\<close>

text \<open>Texts that are not ASCII are given by the bytes of their UTF-8 encoding.\<close>

definition utf8 :: "int list \<Rightarrow> string" where
  "utf8 = map char_of"

datatype contract_result =
    Contract_ok string int pdict
  | Contract_error string "int option" string string "string list"

definition build_internal_contract_error :: "string \<Rightarrow> int option \<Rightarrow> string \<Rightarrow> string \<Rightarrow> contract_result" where
  "build_internal_contract_error contract version error_code message =
     Contract_error contract version error_code message [error_code]"

definition INVALID_PAYLOAD :: string where "INVALID_PAYLOAD = ''INTERNAL_CONTRACT_INVALID_PAYLOAD''"
definition MISSING_REQUIRED_FIELDS :: string where "MISSING_REQUIRED_FIELDS = ''INTERNAL_CONTRACT_MISSING_REQUIRED_FIELDS''"
definition UNKNOWN_VERSION :: string where "UNKNOWN_VERSION = ''INTERNAL_CONTRACT_UNKNOWN_VERSION''"

definition parse_permission_snapshot_categories_v4 :: "pv \<Rightarrow> contract_result" where
  "parse_permission_snapshot_categories_v4 snapshot =
    (let contract = ''permission_snapshot.categories'' in
     case snapshot of
       PDict d \<Rightarrow> (case dget d ''version'' of
           PInt version \<Rightarrow>
             if version \<noteq> 4 then build_internal_contract_error contract (Some version) UNKNOWN_VERSION
               (''permission_snapshot.version='' @ show_int version @ '' '' @ utf8 [0xE4, 0xB8, 0x8D, 0xE5, 0x8F, 0x97, 0xE6, 0x94, 0xAF, 0xE6, 0x8C, 0x81])
             else (case dget d ''categories'' of
                 PDict categories \<Rightarrow> Contract_ok contract version categories
               | _ \<Rightarrow> build_internal_contract_error contract (Some version) MISSING_REQUIRED_FIELDS
                   (''permission_snapshot.categories '' @ utf8 [0xE7, 0xBC, 0xBA, 0xE5, 0xA4, 0xB1, 0xE6, 0x88, 0x96, 0xE4, 0xB8, 0x8D, 0xE6, 0x98, 0xAF] @ '' dict''))
         | _ \<Rightarrow> build_internal_contract_error contract None MISSING_REQUIRED_FIELDS
             (''permission_snapshot.version '' @ utf8 [0xE7, 0xBC, 0xBA, 0xE5, 0xA4, 0xB1, 0xE6, 0x88, 0x96, 0xE4, 0xB8, 0x8D, 0xE6, 0x98, 0xAF, 0xE6, 0x95, 0xB4, 0xE6, 0x95, 0xB0]))
     | _ \<Rightarrow> build_internal_contract_error contract None INVALID_PAYLOAD
         (''permission_snapshot '' @ utf8 [0xE5, 0xBF, 0x85, 0xE9, 0xA1, 0xBB, 0xE4, 0xB8, 0xBA] @ '' dict''))"

definition parse_permission_snapshot_type_specific_v4 :: "pv \<Rightarrow> contract_result" where
  "parse_permission_snapshot_type_specific_v4 snapshot =
    (let contract = ''permission_snapshot.type_specific'' in
     case snapshot of
       PDict d \<Rightarrow> (case dget d ''version'' of
           PInt version \<Rightarrow>
             if version \<noteq> 4 then build_internal_contract_error contract (Some version) UNKNOWN_VERSION
               (''permission_snapshot.version='' @ show_int version @ '' '' @ utf8 [0xE4, 0xB8, 0x8D, 0xE5, 0x8F, 0x97, 0xE6, 0x94, 0xAF, 0xE6, 0x8C, 0x81])
             else (case dget d ''type_specific'' of
                 PDict type_specific \<Rightarrow> Contract_ok contract version type_specific
               | _ \<Rightarrow> build_internal_contract_error contract (Some version) MISSING_REQUIRED_FIELDS
                   (''permission_snapshot.type_specific '' @ utf8 [0xE7, 0xBC, 0xBA, 0xE5, 0xA4, 0xB1, 0xE6, 0x88, 0x96, 0xE4, 0xB8, 0x8D, 0xE6, 0x98, 0xAF] @ '' dict''))
         | _ \<Rightarrow> build_internal_contract_error contract None MISSING_REQUIRED_FIELDS
             (''permission_snapshot.version '' @ utf8 [0xE7, 0xBC, 0xBA, 0xE5, 0xA4, 0xB1, 0xE6, 0x88, 0x96, 0xE4, 0xB8, 0x8D, 0xE6, 0x98, 0xAF, 0xE6, 0x95, 0xB4, 0xE6, 0x95, 0xB0]))
     | _ \<Rightarrow> build_internal_contract_error contract None INVALID_PAYLOAD
         (''permission_snapshot '' @ utf8 [0xE5, 0xBF, 0x85, 0xE9, 0xA1, 0xBB, 0xE4, 0xB8, 0xBA] @ '' dict''))"

text \<open>\<^verbatim>\<open>_normalize_str_list\<close>: strings, and the named string of a dictionary.\<close>

fun named_items :: "string option \<Rightarrow> pv list \<Rightarrow> string list" where
  "named_items dict_key [] = []"
| "named_items dict_key (x # xs) = (case x of
      PStr s \<Rightarrow> if s \<noteq> [] then s # named_items dict_key xs else named_items dict_key xs
    | PDict d \<Rightarrow> (case dict_key of
          None \<Rightarrow> named_items dict_key xs
        | Some k \<Rightarrow> if k = [] then named_items dict_key xs
            else (case dget d k of
                PStr s \<Rightarrow> if s \<noteq> [] then s # named_items dict_key xs else named_items dict_key xs
              | _ \<Rightarrow> named_items dict_key xs))
    | _ \<Rightarrow> named_items dict_key xs)"

definition normalize_str_list :: "pv \<Rightarrow> string option \<Rightarrow> string list" where
  "normalize_str_list value dict_key = (case value of PList xs \<Rightarrow> named_items dict_key xs | _ \<Rightarrow> [])"

definition str_list :: "string list \<Rightarrow> pv" where
  "str_list xs = PList (map PStr xs)"

definition normalize_permission_snapshot_type_specific_v4 :: "string \<Rightarrow> pdict \<Rightarrow> pdict" where
  "normalize_permission_snapshot_type_specific_v4 db_type type_specific =
     (case dget type_specific db_type of PDict entry \<Rightarrow> entry | _ \<Rightarrow> [])"

definition normalize_database_roles :: "pdict \<Rightarrow> pdict" where
  "normalize_database_roles d = map (\<lambda>(key, entry). (key, str_list (normalize_str_list entry (Some ''name''))))
     (filter (\<lambda>(key, entry). key \<noteq> []) d)"

definition normalize_permission_snapshot_categories_v4 :: "string \<Rightarrow> pdict \<Rightarrow> pdict" where
  "normalize_permission_snapshot_categories_v4 db_type categories =
    (let named = \<lambda>key dict_key d. (if dhas categories key
           then dput key (str_list (normalize_str_list (dget categories key) (Some dict_key))) d else d)
     in if db_type = POSTGRESQL then named ''postgresql_predefined_roles'' ''role'' categories
     else if db_type = SQLSERVER then
       let normalized = named ''sqlserver_server_roles'' ''name'' categories in
       if dhas categories ''sqlserver_database_roles'' then
         (case dget categories ''sqlserver_database_roles'' of
            PDict d \<Rightarrow> dput ''sqlserver_database_roles'' (PDict (normalize_database_roles d)) normalized
          | PList xs \<Rightarrow> dput ''sqlserver_database_roles''
              (PDict [(''__all__'', str_list (normalize_str_list (PList xs) (Some ''name'')))]) normalized
          | _ \<Rightarrow> normalized)
       else normalized
     else if db_type = ORACLE then named ''oracle_roles'' ''role'' categories
     else categories)"

section \<open>What a snapshot says\<close>

definition facts_str_list :: "pv \<Rightarrow> string list" where
  "facts_str_list value = (case value of PList xs \<Rightarrow> str_items xs | _ \<Rightarrow> [])"

definition ensure_dict :: "pv \<Rightarrow> pdict" where
  "ensure_dict value = (case value of PDict d \<Rightarrow> d | _ \<Rightarrow> [])"

definition extract_privilege_list :: "pv \<Rightarrow> string list" where
  "extract_privilege_list value = (case value of
     PList xs \<Rightarrow> str_items xs
   | PDict d \<Rightarrow> (case dget d ''granted'' of
        PList xs \<Rightarrow> str_items xs
      | _ \<Rightarrow> map fst (filter (\<lambda>(key, enabled). truthy enabled) d))
   | _ \<Rightarrow> [])"

fun extract_mapping_entries :: "pdict \<Rightarrow> pdict" where
  "extract_mapping_entries [] = []"
| "extract_mapping_entries ((key, entry) # d) =
    (if key = [] then extract_mapping_entries d
     else (case entry of
         PList xs \<Rightarrow> (key, str_list (str_items xs)) # extract_mapping_entries d
       | PDict e \<Rightarrow> (key, str_list (extract_privilege_list entry)) # extract_mapping_entries d
       | _ \<Rightarrow> extract_mapping_entries d))"

definition extract_mapping_of_lists :: "pv \<Rightarrow> pdict" where
  "extract_mapping_of_lists value = (case value of PDict d \<Rightarrow> extract_mapping_entries d | _ \<Rightarrow> [])"

definition parse_iso_datetime :: "(string \<Rightarrow> int option) \<Rightarrow> string \<Rightarrow> int option" where
  "parse_iso_datetime fromiso value = (let raw = strip value in
     if raw = [] then None
     else fromiso (if last raw = CHR ''Z'' then concat (map (\<lambda>c. if c = CHR ''Z'' then ''+00:00'' else [c]) raw) else raw))"

definition is_expired :: "(string \<Rightarrow> int option) \<Rightarrow> int \<Rightarrow> pv \<Rightarrow> bool" where
  "is_expired fromiso now valid_until = (case valid_until of
     PStr s \<Rightarrow> if strip s = [] then False
       else (case parse_iso_datetime fromiso s of None \<Rightarrow> False | Some parsed \<Rightarrow> parsed \<le> now)
   | _ \<Rightarrow> False)"

definition extract_snapshot_errors :: "pv \<Rightarrow> string list" where
  "extract_snapshot_errors snapshot = (case snapshot of
     PDict d \<Rightarrow> (case dget d ''errors'' of PList xs \<Rightarrow> str_items xs | _ \<Rightarrow> [])
   | _ \<Rightarrow> [])"

definition extract_roles :: "string \<Rightarrow> pdict \<Rightarrow> string list" where
  "extract_roles db_type categories =
    (if db_type = MYSQL then (case dget categories ''mysql_granted_roles'' of
         PDict d \<Rightarrow> facts_str_list (dget d ''direct'') @ facts_str_list (dget d ''default'')
       | v \<Rightarrow> facts_str_list v)
     else if db_type = POSTGRESQL then facts_str_list (dget categories ''postgresql_predefined_roles'')
     else if db_type = SQLSERVER then
       facts_str_list (dget categories ''sqlserver_server_roles'') @
       (case dget categories ''sqlserver_database_roles'' of
          PDict d \<Rightarrow> concat (map facts_str_list (dvalues d))
        | _ \<Rightarrow> [])
     else if db_type = ORACLE then facts_str_list (dget categories ''oracle_roles'')
     else [])"

text \<open>The privileges, and the global, server and system ones among them.\<close>

definition extract_privileges :: "string \<Rightarrow> pdict \<Rightarrow> pdict \<times> string list \<times> string list \<times> string list" where
  "extract_privileges db_type categories =
    (let item = \<lambda>key xs. (if xs \<noteq> [] then [(key, str_list xs)] else []);
         table = \<lambda>key d. (if d \<noteq> [] then [(key, PDict d)] else [])
     in if db_type = MYSQL then
         let global = extract_privilege_list (dget categories ''mysql_global_privileges'');
             database = extract_mapping_of_lists (dget categories ''mysql_database_privileges'')
         in (item ''global'' global @ table ''database'' database, global, [], [])
       else if db_type = POSTGRESQL then
         (table ''database'' (extract_mapping_of_lists (dget categories ''postgresql_database_privileges'')), [], [], [])
       else if db_type = SQLSERVER then
         let server = extract_privilege_list (dget categories ''sqlserver_server_permissions'');
             permissions = extract_mapping_of_lists (dget categories ''sqlserver_database_permissions'')
         in (item ''server'' server @ table ''database_permissions'' permissions, [], server, [])
       else if db_type = ORACLE then
         let system = extract_privilege_list (dget categories ''oracle_system_privileges'')
         in (item ''system'' system, [], [], system)
       else ([], [], [], []))"

section \<open>Capabilities\<close>

text \<open>The list of capabilities and the reasons of each.\<close>

type_synonym capability_state = "string list \<times> string list dict"

definition add_capability :: "string \<Rightarrow> string \<Rightarrow> capability_state \<Rightarrow> capability_state" where
  "add_capability name reason st = (case st of (capabilities, reasons) \<Rightarrow>
     (if dhas reasons name then capabilities else capabilities @ [name],
      dput name ((case map_of reasons name of None \<Rightarrow> [] | Some rs \<Rightarrow> rs) @ [reason]) reasons))"

text \<open>\<^verbatim>\<open>if cond: _add_capability(...)\<close>.\<close>

definition add_if :: "bool \<Rightarrow> string \<Rightarrow> string \<Rightarrow> capability_state \<Rightarrow> capability_state" where
  "add_if cond name reason st = (if cond then add_capability name reason st else st)"

definition collect_mysql_capabilities :: "pdict \<Rightarrow> string list \<Rightarrow> capability_state \<Rightarrow> capability_state" where
  "collect_mysql_capabilities type_specific global_privileges st =
    (let is_role = (case dget type_specific ''account_kind'' of PStr s \<Rightarrow> lower s = ''role'' | _ \<Rightarrow> False);
         st = add_if (dget type_specific ''super_priv'' = PBool True) ''SUPERUSER'' ''type_specific.super_priv=True'' st;
         st = add_if (\<not> is_role \<and> dget type_specific ''account_locked'' = PBool True) ''LOCKED'' ''type_specific.account_locked=True'' st
     in add_if (''GRANT OPTION'' \<in> set global_privileges) ''GRANT_ADMIN'' ''mysql_global_privileges contains GRANT OPTION'' st)"

definition add_role_attribute :: "string \<times> pv \<Rightarrow> capability_state \<Rightarrow> capability_state" where
  "add_role_attribute attr st = (case attr of (attr_name, enabled) \<Rightarrow>
     if attr_name = [] then st
     else add_if (enabled = PBool True) attr_name (''role_attributes.'' @ attr_name @ ''=True'') st)"

definition collect_postgresql_capabilities ::
  "(string \<Rightarrow> int option) \<Rightarrow> int \<Rightarrow> pdict \<Rightarrow> pdict \<Rightarrow> capability_state \<Rightarrow> capability_state" where
  "collect_postgresql_capabilities fromiso now role_attributes type_specific st =
    (let st = add_if (dget role_attributes ''rolsuper'' = PBool True \<or> dget role_attributes ''can_super'' = PBool True)
           ''SUPERUSER'' ''role_attributes.can_super=True'' st;
         st = add_if (dget role_attributes ''rolcreaterole'' = PBool True \<or> dget role_attributes ''can_create_role'' = PBool True)
           ''GRANT_ADMIN'' ''role_attributes.can_create_role=True'' st;
         st = add_if (dget role_attributes ''can_login'' = PBool False) ''LOCKED'' ''role_attributes.can_login=False'' st;
         st = add_if (is_expired fromiso now (dget type_specific ''valid_until'')) ''LOCKED'' ''type_specific.valid_until expired'' st
     in fold add_role_attribute role_attributes st)"

definition collect_sqlserver_capabilities :: "string list \<Rightarrow> string list \<Rightarrow> pdict \<Rightarrow> capability_state \<Rightarrow> capability_state" where
  "collect_sqlserver_capabilities roles server_privileges type_specific st =
    (let st = add_if (''sysadmin'' \<in> set roles) ''SUPERUSER'' ''sqlserver_server_roles contains sysadmin'' st;
         st = add_if (''securityadmin'' \<in> set roles) ''GRANT_ADMIN'' ''sqlserver_server_roles contains securityadmin'' st;
         st = add_if (''CONTROL SERVER'' \<in> set server_privileges) ''GRANT_ADMIN''
           ''sqlserver_server_permissions contains CONTROL SERVER'' st;
         st = add_if (dget type_specific ''is_disabled'' = PBool True) ''LOCKED'' ''type_specific.is_disabled=True'' st;
         st = add_if (case dget type_specific ''connect_to_engine'' of PStr s \<Rightarrow> upper s = ''DENY'' | _ \<Rightarrow> False)
           ''LOCKED'' ''type_specific.connect_to_engine=DENY'' st;
         st = add_if (dget type_specific ''is_locked_out'' = PBool True) ''LOCKED'' ''type_specific.is_locked_out=True'' st;
         st = add_if (dget type_specific ''is_password_expired'' = PBool True) ''LOCKED'' ''type_specific.is_password_expired=True'' st
     in add_if (dget type_specific ''must_change_password'' = PBool True) ''LOCKED'' ''type_specific.must_change_password=True'' st)"

definition collect_oracle_capabilities :: "string list \<Rightarrow> string list \<Rightarrow> pdict \<Rightarrow> capability_state \<Rightarrow> capability_state" where
  "collect_oracle_capabilities roles system_privileges type_specific st =
    (let st = add_if (''DBA'' \<in> set roles) ''SUPERUSER'' ''oracle_roles contains DBA'' st;
         st = add_if (''DBA'' \<in> set roles) ''GRANT_ADMIN'' ''oracle_roles contains DBA'' st;
         st = add_if (''GRANT ANY PRIVILEGE'' \<in> set system_privileges) ''GRANT_ADMIN''
           ''oracle_system_privileges contains GRANT ANY PRIVILEGE'' st
     in add_if (case dget type_specific ''account_status'' of
            PStr s \<Rightarrow> strip s \<noteq> [] \<and> upper (strip s) \<noteq> ''OPEN'' | _ \<Rightarrow> False)
          ''LOCKED'' ''type_specific.account_status!=OPEN'' st)"

section \<open>The facts\<close>

definition opt_int :: "int option \<Rightarrow> pv" where
  "opt_int v = (case v of None \<Rightarrow> PNone | Some n \<Rightarrow> PInt n)"

definition str_of_db_type :: "string option \<Rightarrow> string" where
  "str_of_db_type db_type_value = (case db_type_value of None \<Rightarrow> [] | Some t \<Rightarrow> lower t)"

text \<open>The entries of \<^verbatim>\<open>meta\<close> from the categories, and those from the type-specific fields.\<close>

definition categories_meta :: "contract_result \<Rightarrow> pdict" where
  "categories_meta parsed = (case parsed of
     Contract_ok contract version data \<Rightarrow>
       [(''source'', PStr ''snapshot''), (''snapshot_contract'', PStr contract), (''snapshot_contract_ok'', PBool True),
        (''snapshot_version'', PInt version), (''snapshot_supported_versions'', PList [PInt 4])]
   | Contract_error contract version error_code message errors \<Rightarrow>
       [(''source'', PStr ''snapshot_contract_error''), (''snapshot_contract'', PStr contract), (''snapshot_contract_ok'', PBool False),
        (''snapshot_version'', opt_int version), (''snapshot_supported_versions'', PList [PInt 4]),
        (''snapshot_error_code'', PStr error_code), (''snapshot_error_message'', PStr message)])"

definition type_specific_meta :: "contract_result \<Rightarrow> pdict" where
  "type_specific_meta parsed = (case parsed of
     Contract_ok contract version data \<Rightarrow>
       [(''type_specific_contract'', PStr contract), (''type_specific_contract_ok'', PBool True),
        (''type_specific_version'', PInt version), (''type_specific_supported_versions'', PList [PInt 4])]
   | Contract_error contract version error_code message errors \<Rightarrow>
       [(''type_specific_contract'', PStr contract), (''type_specific_contract_ok'', PBool False),
        (''type_specific_version'', opt_int version), (''type_specific_supported_versions'', PList [PInt 4]),
        (''type_specific_error_code'', PStr error_code), (''type_specific_error_message'', PStr message)])"

definition contract_data :: "contract_result \<Rightarrow> pdict" where
  "contract_data parsed = (case parsed of Contract_ok _ _ data \<Rightarrow> data | Contract_error _ _ _ _ _ \<Rightarrow> [])"

definition contract_errors :: "contract_result \<Rightarrow> string list" where
  "contract_errors parsed = (case parsed of Contract_ok _ _ _ \<Rightarrow> [] | Contract_error _ _ _ _ errors \<Rightarrow> errors)"

definition collect_capabilities ::
  "(string \<Rightarrow> int option) \<Rightarrow> int \<Rightarrow> string \<Rightarrow> pdict \<Rightarrow> pdict \<Rightarrow> capability_state" where
  "collect_capabilities fromiso now db_type categories type_specific =
    (case extract_privileges db_type categories of (privileges, global_privileges, server_privileges, system_privileges) \<Rightarrow>
     let roles = extract_roles db_type categories;
         role_attributes = ensure_dict (dget categories ''postgresql_role_attributes'')
     in if db_type = MYSQL then collect_mysql_capabilities type_specific global_privileges ([], [])
       else if db_type = POSTGRESQL then collect_postgresql_capabilities fromiso now role_attributes type_specific ([], [])
       else if db_type = SQLSERVER then collect_sqlserver_capabilities roles server_privileges type_specific ([], [])
       else if db_type = ORACLE then collect_oracle_capabilities roles system_privileges type_specific ([], [])
       else ([], []))"

definition build_permission_facts :: "(string \<Rightarrow> int option) \<Rightarrow> int \<Rightarrow> string option \<Rightarrow> pv \<Rightarrow> pdict" where
  "build_permission_facts fromiso now db_type_value snapshot =
    (let db_type = str_of_db_type db_type_value;
         parsed_categories = parse_permission_snapshot_categories_v4 snapshot;
         errors = extract_snapshot_errors snapshot @ contract_errors parsed_categories;
         categories = normalize_permission_snapshot_categories_v4 db_type (contract_data parsed_categories);
         errors = (if categories = [] then errors @ [''PERMISSION_DATA_MISSING''] else errors);
         parsed_type_specific = parse_permission_snapshot_type_specific_v4 snapshot;
         errors = errors @ contract_errors parsed_type_specific;
         type_specific = normalize_permission_snapshot_type_specific_v4 db_type (contract_data parsed_type_specific)
     in case collect_capabilities fromiso now db_type categories type_specific of (capabilities, reasons) \<Rightarrow>
       [(''version'', PInt 2), (''db_type'', PStr db_type),
        (''capabilities'', str_list (sort capabilities)),
        (''capability_reasons'', PDict (map (\<lambda>(name, rs). (name, str_list rs)) reasons)),
        (''roles'', str_list (sorted_set (extract_roles db_type categories))),
        (''privileges'', PDict (fst (extract_privileges db_type categories))),
        (''errors'', str_list errors),
        (''meta'', PDict (categories_meta parsed_categories @ type_specific_meta parsed_type_specific))])"

section \<open>Capabilities and their reasons\<close>

text \<open>The capabilities are the keys of the reasons, in the order they were found.\<close>

definition cap_ok :: "capability_state \<Rightarrow> bool" where
  "cap_ok st = (map fst (snd st) = fst st \<and> distinct (fst st) \<and> (\<forall>nr \<in> set (snd st). snd nr \<noteq> []))"

lemma cap_ok_Nil [simp]: "cap_ok ([], [])"
  by (simp add: cap_ok_def)

lemma cap_ok_keys: "cap_ok (caps, reasons) \<Longrightarrow> dhas reasons name \<longleftrightarrow> name \<in> set caps"
  by (auto simp: cap_ok_def dhas_iff_dkeys dkeys_def)

lemma cap_ok_add:
  assumes "cap_ok st"
  shows "cap_ok (add_capability name reason st) \<and> set (fst (add_capability name reason st)) = insert name (set (fst st))"
proof -
  obtain caps reasons where st: "st = (caps, reasons)" by fastforce
  let ?rs = "(case map_of reasons name of None \<Rightarrow> [] | Some rs \<Rightarrow> rs) @ [reason]"
  have "snd nr \<noteq> []" if "nr \<in> set (dput name ?rs reasons)" for nr
    using that assms set_update_subset [of name ?rs reasons] by (auto simp: st cap_ok_def)
  moreover have "map fst (dput name ?rs reasons) = (if name \<in> set caps then caps else caps @ [name])"
    using assms by (simp add: st cap_ok_def update_keys)
  ultimately show ?thesis
    using assms cap_ok_keys [of caps reasons name] by (auto simp: st add_capability_def cap_ok_def)
qed

lemma cap_ok_add_if [simp]: "cap_ok st \<Longrightarrow> cap_ok (add_if c name reason st)"
  by (simp add: add_if_def cap_ok_add)

lemma caps_add_if [simp]: "cap_ok st \<Longrightarrow>
    set (fst (add_if c name reason st)) = set (fst st) \<union> (if c then {name} else {})"
  by (simp add: add_if_def cap_ok_add)

lemma role_attributes_caps:
  assumes "cap_ok st"
  shows "cap_ok (fold add_role_attribute attrs st) \<and> set (fst (fold add_role_attribute attrs st)) =
    set (fst st) \<union> {n. n \<noteq> [] \<and> (n, PBool True) \<in> set attrs}"
  using assms
proof (induction attrs arbitrary: st)
  case (Cons attr attrs)
  obtain n v where attr: "attr = (n, v)" by fastforce
  have "cap_ok (add_role_attribute attr st)" "set (fst (add_role_attribute attr st)) =
      set (fst st) \<union> (if n \<noteq> [] \<and> v = PBool True then {n} else {})"
    using Cons.prems by (simp_all add: attr add_role_attribute_def)
  with Cons.IH [OF this(1)] show ?case by (auto simp: attr)
qed simp

lemmas collect_defs = collect_mysql_capabilities_def collect_postgresql_capabilities_def
  collect_sqlserver_capabilities_def collect_oracle_capabilities_def

lemma collect_capabilities_ok: "cap_ok (collect_capabilities fromiso now db_type categories type_specific)"
  by (simp add: collect_capabilities_def collect_defs Let_def role_attributes_caps split: prod.split)

section \<open>The shape of the facts\<close>

lemmas facts_lookup = dget_def

lemma build_facts_split:
  "\<exists>caps reasons errors meta roles privileges. cap_ok (caps, reasons) \<and> build_permission_facts fromiso now t snapshot =
     [(''version'', PInt 2), (''db_type'', PStr (str_of_db_type t)), (''capabilities'', str_list (sort caps)),
      (''capability_reasons'', PDict (map (\<lambda>(name, rs). (name, str_list rs)) reasons)),
      (''roles'', str_list (sorted_set roles)), (''privileges'', PDict privileges),
      (''errors'', str_list errors), (''meta'', PDict meta)]"
proof -
  obtain caps reasons where c: "collect_capabilities fromiso now (str_of_db_type t)
      (normalize_permission_snapshot_categories_v4 (str_of_db_type t) (contract_data (parse_permission_snapshot_categories_v4 snapshot)))
      (normalize_permission_snapshot_type_specific_v4 (str_of_db_type t) (contract_data (parse_permission_snapshot_type_specific_v4 snapshot)))
      = (caps, reasons)" by fastforce
  with collect_capabilities_ok have "cap_ok (caps, reasons)" by metis
  then show ?thesis unfolding build_permission_facts_def Let_def c prod.case by blast
qed

text \<open>C40: The facts always have the shape their readers expect, whatever the snapshot is: the
  capabilities are a sorted list without repetition, each with a non-empty list of reasons and
  no other key having one; the roles are sorted without repetition; and the privileges are a
  dictionary.\<close>

theorem facts_have_shape:
  "\<exists>caps reasons roles privileges errors.
     dget (build_permission_facts fromiso now t snapshot) ''capabilities'' = str_list caps \<and> sorted caps \<and> distinct caps
   \<and> dget (build_permission_facts fromiso now t snapshot) ''capability_reasons'' = PDict reasons
   \<and> distinct (map fst reasons) \<and> set (map fst reasons) = set caps
   \<and> list_all (\<lambda>nr. \<exists>rs. rs \<noteq> [] \<and> snd nr = str_list rs) reasons
   \<and> dget (build_permission_facts fromiso now t snapshot) ''roles'' = str_list roles \<and> sorted roles \<and> distinct roles
   \<and> dget (build_permission_facts fromiso now t snapshot) ''privileges'' = PDict privileges
   \<and> dget (build_permission_facts fromiso now t snapshot) ''errors'' = str_list errors"
proof -
  obtain caps reasons errors meta roles privileges where ok: "cap_ok (caps, reasons)"
    and facts: "build_permission_facts fromiso now t snapshot =
     [(''version'', PInt 2), (''db_type'', PStr (str_of_db_type t)), (''capabilities'', str_list (sort caps)),
      (''capability_reasons'', PDict (map (\<lambda>(name, rs). (name, str_list rs)) reasons)),
      (''roles'', str_list (sorted_set roles)), (''privileges'', PDict privileges),
      (''errors'', str_list errors), (''meta'', PDict meta)]"
    using build_facts_split by metis
  let ?reasons = "map (\<lambda>(name, rs). (name, str_list rs)) reasons"
  have keys: "map fst ?reasons = caps" using ok by (simp add: cap_ok_def comp_def case_prod_unfold)
  have "list_all (\<lambda>nr. \<exists>rs. rs \<noteq> [] \<and> snd nr = str_list rs) ?reasons"
    using ok by (auto simp: list_all_iff cap_ok_def)
  with keys ok show ?thesis unfolding facts
    by (intro exI [of _ "sort caps"] exI [of _ ?reasons] exI [of _ "sorted_set roles"] exI [of _ privileges] exI [of _ errors])
      (simp add: dget_def cap_ok_def)
qed

end
