(* ===== verification/Facts_Rules.thy ===== *)
theory Facts_Rules
  imports Dsl_V4 Permission_Facts
begin

text \<open>
  The rules of the classification over the facts of a snapshot: what the rule
  \<^verbatim>\<open>is_superuser\<close>, evaluated by the DSL on the facts that are built from a snapshot, says
  about the snapshot itself.
\<close>

definition superuser_rule :: pv where
  "superuser_rule = PDict [(''version'', PInt 4), (''expr'', PDict [(''fn'', PStr ''is_superuser''), (''args'', PDict [])])]"

lemma str_items_str_list: "[] \<notin> set xs \<Longrightarrow> facts_str_list (str_list xs) = xs"
  by (simp add: facts_str_list_def str_list_def str_items_map_PStr)

lemma named_items_nonempty: "[] \<notin> set (named_items k xs)"
  by (induction k xs rule: named_items.induct) (auto split: pv.splits option.splits)

lemma normalized_nonempty [simp]: "[] \<notin> set (normalize_str_list v k)"
  by (simp add: normalize_str_list_def named_items_nonempty split: pv.split)

lemma normalized_names [simp]: "facts_str_list (str_list (normalize_str_list v k)) = normalize_str_list v k"
  by (simp add: str_items_str_list)

lemma normalize_str_list_absent [simp]: "normalize_str_list PNone k = []" "facts_str_list PNone = []"
  by (simp_all add: normalize_str_list_def facts_str_list_def)

lemma dhas_dget: "\<not> dhas d k \<Longrightarrow> dget d k = PNone"
  by (simp add: dhas_def dget_def)

lemma superuser_rule_eval: "matched (evaluate facts superuser_rule) \<longleftrightarrow> ''SUPERUSER'' \<in> set (ensure_str_list (dget facts ''capabilities''))"
proof -
  have "is_dsl_v4_expression superuser_rule" "nonblank ''is_superuser''" "strip ''is_superuser'' = ''is_superuser''"
    by code_simp+
  then show ?thesis
    by (simp add: evaluate_def superuser_rule_def dget_def dhas_def eval_fn_def fn_args_def eval_fn_args_def)
qed

lemma facts_capability: "name \<noteq> [] \<Longrightarrow>
    name \<in> set (ensure_str_list (dget (build_permission_facts fromiso now t snapshot) ''capabilities'')) \<longleftrightarrow>
    name \<in> set (fst (collect_capabilities fromiso now (str_of_db_type t)
      (normalize_permission_snapshot_categories_v4 (str_of_db_type t) (contract_data (parse_permission_snapshot_categories_v4 snapshot)))
      (normalize_permission_snapshot_type_specific_v4 (str_of_db_type t) (contract_data (parse_permission_snapshot_type_specific_v4 snapshot)))))"
  by (auto simp: build_permission_facts_def Let_def dget_def ensure_str_list_def str_list_def set_str_items split: prod.split)

text \<open>The names of the roles in the databases of a SQL Server instance.\<close>

definition database_role_names :: "pv \<Rightarrow> string list" where
  "database_role_names v = (case v of
     PDict d \<Rightarrow> concat (map (\<lambda>kv. normalize_str_list (snd kv) (Some ''name'')) (filter (\<lambda>kv. fst kv \<noteq> []) d))
   | PList xs \<Rightarrow> normalize_str_list (PList xs) (Some ''name'')
   | _ \<Rightarrow> [])"

lemma sqlserver_roles: "extract_roles SQLSERVER (normalize_permission_snapshot_categories_v4 SQLSERVER cats) =
    normalize_str_list (dget cats ''sqlserver_server_roles'') (Some ''name'') @ database_role_names (dget cats ''sqlserver_database_roles'')"
proof -
  let ?s = "if dhas cats ''sqlserver_server_roles''
    then dput ''sqlserver_server_roles'' (str_list (normalize_str_list (dget cats ''sqlserver_server_roles'') (Some ''name''))) cats else cats"
  have "map facts_str_list (dvalues (normalize_database_roles d)) =
      map (\<lambda>kv. normalize_str_list (snd kv) (Some ''name'')) (filter (\<lambda>kv. fst kv \<noteq> []) d)" for d
    by (simp add: dvalues_def normalize_database_roles_def comp_def case_prod_unfold)
  then show ?thesis
    by (cases "dget cats ''sqlserver_database_roles''"; cases "dhas cats ''sqlserver_database_roles''";
        cases "dhas cats ''sqlserver_server_roles''")
      (simp_all add: extract_roles_def normalize_permission_snapshot_categories_v4_def Let_def dict_simps database_role_names_def
        dhas_dget dvalues_def)
qed

lemma oracle_roles: "extract_roles ORACLE (normalize_permission_snapshot_categories_v4 ORACLE cats) =
    normalize_str_list (dget cats ''oracle_roles'') (Some ''role'')"
  by (cases "dhas cats ''oracle_roles''")
    (simp_all add: extract_roles_def normalize_permission_snapshot_categories_v4_def Let_def dict_simps dhas_dget)

lemma postgresql_attributes:
  "dget (normalize_permission_snapshot_categories_v4 POSTGRESQL cats) ''postgresql_role_attributes'' = dget cats ''postgresql_role_attributes''"
  by (simp add: normalize_permission_snapshot_categories_v4_def Let_def dict_simps)

text \<open>Who the table of the capabilities in the documentation of the facts builder calls a superuser.\<close>

definition documented_superuser :: "string \<Rightarrow> pdict \<Rightarrow> pdict \<Rightarrow> bool" where
  "documented_superuser db_type cats own =
    (if db_type = MYSQL then dget own ''super_priv'' = PBool True
     else if db_type = POSTGRESQL then
       (let attrs = ensure_dict (dget cats ''postgresql_role_attributes'')
        in dget attrs ''rolsuper'' = PBool True \<or> dget attrs ''can_super'' = PBool True)
     else if db_type = SQLSERVER then ''sysadmin'' \<in> set (normalize_str_list (dget cats ''sqlserver_server_roles'') (Some ''name''))
     else if db_type = ORACLE then ''DBA'' \<in> set (normalize_str_list (dget cats ''oracle_roles'') (Some ''role''))
     else False)"

text \<open>Who gets the capability beyond the documentation: on SQL Server a member of a role named sysadmin of
  some database, on PostgreSQL a role with an attribute of the name of the capability.\<close>

definition undocumented_superuser :: "string \<Rightarrow> pdict \<Rightarrow> bool" where
  "undocumented_superuser db_type cats \<longleftrightarrow>
    db_type = SQLSERVER \<and> ''sysadmin'' \<in> set (database_role_names (dget cats ''sqlserver_database_roles''))
    \<or> db_type = POSTGRESQL \<and> (''SUPERUSER'', PBool True) \<in> set (ensure_dict (dget cats ''postgresql_role_attributes''))"

lemma collect_superuser: "''SUPERUSER'' \<in> set (fst (collect_capabilities fromiso now db_type
      (normalize_permission_snapshot_categories_v4 db_type cats) own)) \<longleftrightarrow> documented_superuser db_type cats own \<or> undocumented_superuser db_type cats"
proof -
  have neq: "MYSQL \<noteq> POSTGRESQL" "MYSQL \<noteq> SQLSERVER" "MYSQL \<noteq> ORACLE" "POSTGRESQL \<noteq> SQLSERVER" "POSTGRESQL \<noteq> ORACLE" "SQLSERVER \<noteq> ORACLE"
    by (simp_all add: db_type_defs)
  consider "db_type = MYSQL" | "db_type = POSTGRESQL" | "db_type = SQLSERVER" | "db_type = ORACLE"
    | "db_type \<notin> {MYSQL, POSTGRESQL, SQLSERVER, ORACLE}" by blast
  then show ?thesis
    by cases (use neq in \<open>auto simp: collect_capabilities_def collect_defs Let_def documented_superuser_def undocumented_superuser_def sqlserver_roles oracle_roles
      postgresql_attributes role_attributes_caps split: prod.split if_splits\<close>)
qed

text \<open>C36: The rule \<^verbatim>\<open>is_superuser\<close> on the facts of a well-formed snapshot matches every account
  that the documentation of the facts builder calls a superuser: on MySQL by \<^verbatim>\<open>super_priv\<close>, on
  PostgreSQL by \<^verbatim>\<open>rolsuper\<close> or \<^verbatim>\<open>can_super\<close>, on Oracle by the role DBA, on SQL Server by the
  server role sysadmin. The code does not keep to it: the rule matches besides exactly the accounts of SQL
  Server with a database role named sysadmin and those of PostgreSQL with an attribute named SUPERUSER.\<close>

theorem superuser_rule_matches:
  assumes "dget d ''version'' = PInt 4" "dget d ''categories'' = PDict cats" "dget d ''type_specific'' = PDict ts"
  shows "matched (evaluate (build_permission_facts fromiso now (Some t) (PDict d)) superuser_rule) \<longleftrightarrow>
    documented_superuser (lower t) cats (ensure_dict (dget ts (lower t))) \<or> undocumented_superuser (lower t) cats"
proof -
  have "contract_data (parse_permission_snapshot_categories_v4 (PDict d)) = cats"
    "contract_data (parse_permission_snapshot_type_specific_v4 (PDict d)) = ts"
    using assms by (simp_all add: parse_permission_snapshot_categories_v4_def parse_permission_snapshot_type_specific_v4_def
      contract_data_def Let_def)
  moreover have "normalize_permission_snapshot_type_specific_v4 (lower t) ts = ensure_dict (dget ts (lower t))"
    by (simp add: normalize_permission_snapshot_type_specific_v4_def ensure_dict_def)
  ultimately show ?thesis
    by (simp add: superuser_rule_eval facts_capability collect_superuser str_of_db_type_def)
qed

text \<open>A database role of an application database makes an account a superuser of the server, against the
  documentation.\<close>

lemma superuser_rule_matches_witness:
  "matched (evaluate (build_permission_facts (\<lambda>_. None) 0 (Some ''sqlserver'')
     (PDict [(''version'', PInt 4), (''categories'', PDict [(''sqlserver_database_roles'', PDict [(''shop'', PList [PStr ''sysadmin''])])]),
       (''type_specific'', PDict [])])) superuser_rule)
   \<and> \<not> documented_superuser ''sqlserver'' [(''sqlserver_database_roles'', PDict [(''shop'', PList [PStr ''sysadmin''])])] []"
proof -
  let ?cats = "[(''sqlserver_database_roles'', PDict [(''shop'', PList [PStr ''sysadmin''])])]"
  let ?d = "[(''version'', PInt 4), (''categories'', PDict ?cats), (''type_specific'', PDict [])]"
  have "dget ?d ''version'' = PInt 4" "dget ?d ''categories'' = PDict ?cats" "dget ?d ''type_specific'' = PDict []"
    by (simp_all add: dget_def)
  note rule = superuser_rule_matches [OF this, of "\<lambda>_. None" 0 "''sqlserver''"]
  have "undocumented_superuser (lower ''sqlserver'') ?cats" "\<not> documented_superuser ''sqlserver'' ?cats []" by code_simp+
  with rule show ?thesis by blast
qed

end
