(* ===== verification/Permission_Diff.thy ===== *)
theory Permission_Diff
  imports Permission_Facts
begin

text \<open>
  The comparison of two permission snapshots of \<^verbatim>\<open>AccountPermissionManager\<close>
  (\<^verbatim>\<open>app/services/accounts_sync/permission_manager.py\<close>): the entries of the change log, their
  texts, and the version 1 envelopes of \<^verbatim>\<open>app/schemas/internal_contracts\<close> they are stored in.

  The texts are UTF-8. \<^verbatim>\<open>str\<close> of a list or dictionary inside a list is its Python
  representation, which is a parameter, \<^verbatim>\<open>container\<close>.
\<close>

section \<open>Equality of documents\<close>

text \<open>Python's \<^verbatim>\<open>==\<close>: booleans are the numbers 0 and 1, dictionaries are compared as mappings.\<close>

function py_eq :: "pv \<Rightarrow> pv \<Rightarrow> bool" where
  "py_eq v w = (case (v, w) of
      (PNone, PNone) \<Rightarrow> True
    | (PBool a, PBool b) \<Rightarrow> a = b
    | (PBool a, PInt n) \<Rightarrow> (if a then 1 else 0) = n
    | (PInt n, PBool b) \<Rightarrow> n = (if b then 1 else 0)
    | (PInt m, PInt n) \<Rightarrow> m = n
    | (PStr s, PStr t) \<Rightarrow> s = t
    | (PList xs, PList ys) \<Rightarrow> list_all2 py_eq xs ys
    | (PDict d, PDict e) \<Rightarrow> set (map fst d) = set (map fst e) \<and>
        (\<forall>k \<in> set (map fst d). case (map_of d k, map_of e k) of
            (Some x, Some y) \<Rightarrow> py_eq x y | _ \<Rightarrow> False)
    | _ \<Rightarrow> False)"
  by pat_completeness auto

termination
  by (relation "measure (size \<circ> fst)") (auto dest: size_map_of [OF sym] size_in_list)

declare py_eq.simps [simp del]

section \<open>Texts\<close>

definition YES :: string where "YES = utf8 [0xE6, 0x98, 0xAF]"
definition NO :: string where "NO = utf8 [0xE5, 0x90, 0xA6]"

text \<open>\<^verbatim>\<open>str(item)\<close>.\<close>

fun py_str :: "(pv \<Rightarrow> string) \<Rightarrow> pv \<Rightarrow> string" where
  "py_str container PNone = ''None''"
| "py_str container (PBool b) = (if b then ''True'' else ''False'')"
| "py_str container (PInt n) = show_int n"
| "py_str container (PStr s) = s"
| "py_str container v = container v"

function repr_value :: "(pv \<Rightarrow> string) \<Rightarrow> pv \<Rightarrow> string" where
  "repr_value container v = (case v of
      PNone \<Rightarrow> []
    | PBool b \<Rightarrow> if b then YES else NO
    | PList xs \<Rightarrow> join (utf8 [0xE3, 0x80, 0x81]) (map (py_str container) xs)
    | PDict d \<Rightarrow> join ''; '' (map (\<lambda>kv. fst kv @ '':'' @ repr_value container (snd kv)) (sort_key fst d))
    | PInt n \<Rightarrow> show_int n
    | PStr s \<Rightarrow> s)"
  by pat_completeness auto

termination
  by (relation "measure (size \<circ> snd)") (auto dest: size_in_dict)

declare repr_value.simps [simp del]

definition privilege_field_labels :: "string dict" where
  "privilege_field_labels = [
     (''mysql_global_privileges'', utf8 [0xE5, 0x85, 0xA8, 0xE5, 0xB1, 0x80, 0xE6, 0x9D, 0x83, 0xE9, 0x99, 0x90]),
     (''mysql_database_privileges'', utf8 [0xE6, 0x95, 0xB0, 0xE6, 0x8D, 0xAE, 0xE5, 0xBA, 0x93, 0xE6, 0x9D, 0x83, 0xE9, 0x99, 0x90]),
     (''mysql_granted_roles'', utf8 [0xE8, 0xA7, 0x92, 0xE8, 0x89, 0xB2]),
     (''mysql_role_members'', utf8 [0xE8, 0xA7, 0x92, 0xE8, 0x89, 0xB2, 0xE6, 0x88, 0x90, 0xE5, 0x91, 0x98]),
     (''postgresql_predefined_roles'', utf8 [0xE9, 0xA2, 0x84, 0xE8, 0xAE, 0xBE, 0xE8, 0xA7, 0x92, 0xE8, 0x89, 0xB2]),
     (''postgresql_role_attributes'', utf8 [0xE8, 0xA7, 0x92, 0xE8, 0x89, 0xB2, 0xE5, 0xB1, 0x9E, 0xE6, 0x80, 0xA7]),
     (''postgresql_database_privileges'', utf8 [0xE6, 0x95, 0xB0, 0xE6, 0x8D, 0xAE, 0xE5, 0xBA, 0x93, 0xE6, 0x9D, 0x83, 0xE9, 0x99, 0x90]),
     (''sqlserver_server_roles'', utf8 [0xE6, 0x9C, 0x8D, 0xE5, 0x8A, 0xA1, 0xE5, 0x99, 0xA8, 0xE8, 0xA7, 0x92, 0xE8, 0x89, 0xB2]),
     (''sqlserver_server_permissions'', utf8 [0xE6, 0x9C, 0x8D, 0xE5, 0x8A, 0xA1, 0xE5, 0x99, 0xA8, 0xE6, 0x9D, 0x83, 0xE9, 0x99, 0x90]),
     (''sqlserver_database_roles'', utf8 [0xE6, 0x95, 0xB0, 0xE6, 0x8D, 0xAE, 0xE5, 0xBA, 0x93, 0xE8, 0xA7, 0x92, 0xE8, 0x89, 0xB2]),
     (''sqlserver_database_permissions'', utf8 [0xE6, 0x95, 0xB0, 0xE6, 0x8D, 0xAE, 0xE5, 0xBA, 0x93, 0xE6, 0x9D, 0x83, 0xE9, 0x99, 0x90]),
     (''oracle_roles'', ''Oracle '' @ utf8 [0xE8, 0xA7, 0x92, 0xE8, 0x89, 0xB2]),
     (''oracle_system_privileges'', utf8 [0xE7, 0xB3, 0xBB, 0xE7, 0xBB, 0x9F, 0xE6, 0x9D, 0x83, 0xE9, 0x99, 0x90])]"

definition other_field_labels :: "string dict" where
  "other_field_labels = [(''is_superuser'', utf8 [0xE8, 0xB6, 0x85, 0xE7, 0xBA, 0xA7, 0xE7, 0x94, 0xA8, 0xE6, 0x88, 0xB7]), (''is_locked'', utf8 [0xE9, 0x94, 0x81, 0xE5, 0xAE, 0x9A, 0xE7, 0x8A, 0xB6, 0xE6, 0x80, 0x81]), (''type_specific'', utf8 [0xE6, 0x95, 0xB0, 0xE6, 0x8D, 0xAE, 0xE5, 0xBA, 0x93, 0xE7, 0x89, 0xB9, 0xE6, 0x80, 0xA7])]"

definition permission_snapshot_category_keys :: "string list" where
  "permission_snapshot_category_keys = dkeys privilege_field_labels"

text \<open>\<^verbatim>\<open>labels.get(field, field)\<close>.\<close>

definition label_of :: "string dict \<Rightarrow> string \<Rightarrow> string" where
  "label_of labels field = (case map_of labels field of None \<Rightarrow> field | Some l \<Rightarrow> l)"

section \<open>Privileges\<close>

text \<open>\<^verbatim>\<open>_normalize_sequence\<close>: a set, as a list.\<close>

definition normalize_sequence :: "(pv \<Rightarrow> string) \<Rightarrow> pv \<Rightarrow> string list" where
  "normalize_sequence container value = (case value of
      PNone \<Rightarrow> []
    | PList xs \<Rightarrow> map (repr_value container) (filter (\<lambda>x. x \<noteq> PNone) xs)
    | v \<Rightarrow> [repr_value container v])"

definition normalize_mapping :: "(pv \<Rightarrow> string) \<Rightarrow> pv \<Rightarrow> string list dict" where
  "normalize_mapping container value = (case value of
      PDict d \<Rightarrow> map (\<lambda>(key, permissions). (key, normalize_sequence container permissions)) d
    | _ \<Rightarrow> [])"

definition is_mapping :: "pv \<Rightarrow> bool" where
  "is_mapping value = (case value of PDict _ \<Rightarrow> True | _ \<Rightarrow> False)"

record privilege_entry =
  pe_field :: string
  pe_label :: string
  pe_object :: string
  pe_action :: string
  pe_permissions :: "string list"

text \<open>The entries for one pair of sets.\<close>

definition set_entries :: "string \<Rightarrow> string \<Rightarrow> string \<Rightarrow> string list \<Rightarrow> string list \<Rightarrow> privilege_entry list" where
  "set_entries field label object old_set new_set =
    (let grants = sorted_set (filter (\<lambda>p. p \<notin> set old_set) new_set);
         revokes = sorted_set (filter (\<lambda>p. p \<notin> set new_set) old_set);
         entry = \<lambda>action permissions. \<lparr>pe_field = field, pe_label = label, pe_object = object, pe_action = action,
           pe_permissions = permissions\<rparr>
     in (if grants \<noteq> [] then [entry ''GRANT'' grants] else []) @
        (if revokes \<noteq> [] then [entry ''REVOKE'' revokes] else []) @
        (if grants = [] \<and> revokes = [] \<and> set new_set \<noteq> set old_set then [entry ''ALTER'' (sorted_set new_set)] else []))"

definition mget :: "string list dict \<Rightarrow> string \<Rightarrow> string list" where
  "mget m key = (case map_of m key of None \<Rightarrow> [] | Some xs \<Rightarrow> xs)"

definition object_label :: "string \<Rightarrow> string \<Rightarrow> string" where
  "object_label label key = (if key \<noteq> [] then label @ '':'' @ key else label)"

definition build_privilege_diff_entries :: "(pv \<Rightarrow> string) \<Rightarrow> string \<Rightarrow> pv \<Rightarrow> pv \<Rightarrow> privilege_entry list" where
  "build_privilege_diff_entries container field old_value new_value =
    (let label = label_of privilege_field_labels field in
     if is_mapping old_value \<or> is_mapping new_value then
       let old_map = normalize_mapping container old_value; new_map = normalize_mapping container new_value
       in concat (map (\<lambda>key. set_entries field label (object_label label key) (mget old_map key) (mget new_map key))
            (sorted_set (dkeys old_map @ dkeys new_map)))
     else
       let old_set = normalize_sequence container old_value; new_set = normalize_sequence container new_value
       in if old_set = [] \<and> new_set = [] then [] else set_entries field label label old_set new_set)"

definition collect_privilege_changes :: "(pv \<Rightarrow> string) \<Rightarrow> pdict \<Rightarrow> pdict \<Rightarrow> privilege_entry list" where
  "collect_privilege_changes container old_snapshot new_snapshot =
    (let old_categories = ensure_dict (dget old_snapshot ''categories'');
         new_categories = ensure_dict (dget new_snapshot ''categories'')
     in concat (map (\<lambda>field. build_privilege_diff_entries container field (dget old_categories field) (dget new_categories field))
          (sorted_set (dkeys old_categories @ dkeys new_categories))))"

section \<open>Other changes\<close>

record other_entry =
  oe_field :: string
  oe_label :: string
  oe_before :: string
  oe_after :: string
  oe_description :: string

definition build_other_description :: "(pv \<Rightarrow> string) \<Rightarrow> string \<Rightarrow> pv \<Rightarrow> pv \<Rightarrow> string" where
  "build_other_description container label old_value new_value =
    (let before = repr_value container old_value; after = repr_value container new_value
     in if before \<noteq> [] \<and> after \<noteq> [] then label @ '' '' @ utf8 [0xE4, 0xBB, 0x8E] @ '' '' @ before @ '' '' @ utf8 [0xE8, 0xB0, 0x83, 0xE6, 0x95, 0xB4, 0xE4, 0xB8, 0xBA] @ '' '' @ after
        else if after \<noteq> [] then label @ '' '' @ utf8 [0xE8, 0xAE, 0xBE, 0xE7, 0xBD, 0xAE, 0xE4, 0xB8, 0xBA] @ '' '' @ after
        else if before \<noteq> [] then label @ '' '' @ utf8 [0xE5, 0xB7, 0xB2, 0xE6, 0xB8, 0x85, 0xE7, 0xA9, 0xBA]
        else label @ '' '' @ utf8 [0xE5, 0xB7, 0xB2, 0xE6, 0x9B, 0xB4, 0xE6, 0x96, 0xB0])"

definition make_other_entry :: "(pv \<Rightarrow> string) \<Rightarrow> string \<Rightarrow> string \<Rightarrow> pv \<Rightarrow> pv \<Rightarrow> other_entry" where
  "make_other_entry container field label old_value new_value =
    \<lparr>oe_field = field, oe_label = label, oe_before = repr_value container old_value, oe_after = repr_value container new_value,
     oe_description = build_other_description container label old_value new_value\<rparr>"

definition build_other_diff_entry :: "(pv \<Rightarrow> string) \<Rightarrow> string \<Rightarrow> pv \<Rightarrow> pv \<Rightarrow> other_entry option" where
  "build_other_diff_entry container field old_value new_value =
    (if py_eq old_value new_value then None
     else Some (make_other_entry container field (label_of other_field_labels field) old_value new_value))"

text \<open>\<^verbatim>\<open>[entry] if entry else []\<close>.\<close>

definition entry_list :: "'a option \<Rightarrow> 'a list" where
  "entry_list e = (case e of None \<Rightarrow> [] | Some x \<Rightarrow> [x])"

definition build_type_specific_diff_entries :: "(pv \<Rightarrow> string) \<Rightarrow> pv \<Rightarrow> pv \<Rightarrow> other_entry list" where
  "build_type_specific_diff_entries container old_value new_value =
    (case (old_value, new_value) of
       (PDict old, PDict new) \<Rightarrow>
         let label_prefix = label_of other_field_labels ''type_specific'' in
         concat (map (\<lambda>key. if py_eq (dget old key) (dget new key) then []
             else [make_other_entry container (''type_specific.'' @ key) (label_prefix @ '' '' @ utf8 [0xC2, 0xB7] @ '' '' @ key) (dget old key) (dget new key)])
           (sorted_set (dkeys old @ dkeys new)))
     | _ \<Rightarrow> entry_list (build_other_diff_entry container ''type_specific'' old_value new_value))"

definition collect_other_changes ::
  "(pv \<Rightarrow> string) \<Rightarrow> string option \<Rightarrow> pdict \<Rightarrow> pdict \<Rightarrow> bool \<Rightarrow> bool \<Rightarrow> bool \<Rightarrow> bool \<Rightarrow> other_entry list" where
  "collect_other_changes container db_type_value old_snapshot new_snapshot
      old_is_superuser new_is_superuser old_is_locked new_is_locked =
    (let db_type = str_of_db_type db_type_value
     in entry_list (build_other_diff_entry container ''is_superuser'' (PBool old_is_superuser) (PBool new_is_superuser)) @
        entry_list (build_other_diff_entry container ''is_locked'' (PBool old_is_locked) (PBool new_is_locked)) @
        build_type_specific_diff_entries container
          (dget (ensure_dict (dget old_snapshot ''type_specific'')) db_type)
          (dget (ensure_dict (dget new_snapshot ''type_specific'')) db_type))"

definition determine_change_type :: "privilege_entry list \<Rightarrow> other_entry list \<Rightarrow> string" where
  "determine_change_type privilege_changes other_changes =
    (if privilege_changes = [] \<and> other_changes = [] then ''none''
     else if privilege_changes \<noteq> [] then ''modify_privilege''
     else ''modify_other'')"

section \<open>Summaries\<close>

definition count_permissions_by_action :: "privilege_entry list \<Rightarrow> string \<Rightarrow> nat" where
  "count_permissions_by_action privilege_diff action =
     sum_list (map (\<lambda>e. if pe_action e = action then length (pe_permissions e) else 0) privilege_diff)"

definition summarize_privilege_changes :: "string \<Rightarrow> privilege_entry list \<Rightarrow> string" where
  "summarize_privilege_changes change_type privilege_diff =
    (let grant_count = count_permissions_by_action privilege_diff ''GRANT'';
         revoke_count = count_permissions_by_action privilege_diff ''REVOKE'';
         alter_count = count_permissions_by_action privilege_diff ''ALTER'' in
     if change_type = ''add'' then
       if grant_count \<noteq> 0 then utf8 [0xE6, 0x96, 0xB0, 0xE5, 0xA2, 0x9E, 0xE8, 0xB4, 0xA6, 0xE6, 0x88, 0xB7] @ '','' @ utf8 [0xE8, 0xB5, 0x8B, 0xE4, 0xBA, 0x88] @ '' '' @ show_nat grant_count @ '' '' @ utf8 [0xE9, 0xA1, 0xB9, 0xE6, 0x9D, 0x83, 0xE9, 0x99, 0x90] else utf8 [0xE6, 0x96, 0xB0, 0xE5, 0xA2, 0x9E, 0xE8, 0xB4, 0xA6, 0xE6, 0x88, 0xB7]
     else if privilege_diff = [] then []
     else
       let parts = (if grant_count \<noteq> 0 then [utf8 [0xE6, 0x96, 0xB0, 0xE5, 0xA2, 0x9E] @ '' '' @ show_nat grant_count @ '' '' @ utf8 [0xE9, 0xA1, 0xB9, 0xE6, 0x8E, 0x88, 0xE6, 0x9D, 0x83]] else []) @
             (if revoke_count \<noteq> 0 then [utf8 [0xE6, 0x92, 0xA4, 0xE9, 0x94, 0x80] @ '' '' @ show_nat revoke_count @ '' '' @ utf8 [0xE9, 0xA1, 0xB9, 0xE6, 0x8E, 0x88, 0xE6, 0x9D, 0x83]] else []) @
             (if alter_count \<noteq> 0 \<and> grant_count = 0 \<and> revoke_count = 0 then [utf8 [0xE6, 0x9B, 0xB4, 0xE6, 0x96, 0xB0] @ '' '' @ show_nat alter_count @ '' '' @ utf8 [0xE9, 0xA1, 0xB9, 0xE6, 0x9D, 0x83, 0xE9, 0x99, 0x90]] else [])
       in if parts \<noteq> [] then utf8 [0xE6, 0x9D, 0x83, 0xE9, 0x99, 0x90, 0xE6, 0x9B, 0xB4, 0xE6, 0x96, 0xB0] @ '':'' @ join '','' parts else [])"

definition summarize_other_changes :: "other_entry list \<Rightarrow> string" where
  "summarize_other_changes other_diff =
    (let descriptions = filter (\<lambda>d. d \<noteq> []) (map oe_description other_diff)
     in if descriptions = [] then [] else utf8 [0xE5, 0x85, 0xB6, 0xE4, 0xBB, 0x96, 0xE5, 0x8F, 0x98, 0xE6, 0x9B, 0xB4] @ '':'' @ join '','' descriptions)"

definition build_change_summary :: "string \<Rightarrow> string \<Rightarrow> privilege_entry list \<Rightarrow> other_entry list \<Rightarrow> string" where
  "build_change_summary username change_type privilege_diff other_diff =
    (let segments = filter (\<lambda>s. s \<noteq> []) [summarize_privilege_changes change_type privilege_diff, summarize_other_changes other_diff];
         base = utf8 [0xE8, 0xB4, 0xA6, 0xE6, 0x88, 0xB7] @ '' '' @ username
     in if segments = [] then base @ '' '' @ utf8 [0xE6, 0x9C, 0xAA, 0xE5, 0x8F, 0x91, 0xE7, 0x94, 0x9F, 0xE5, 0x8F, 0x98, 0xE6, 0x9B, 0xB4] else base @ '' '' @ join '';'' segments)"

section \<open>Stored shapes\<close>

text \<open>The envelope of the entries of a change log.\<close>

record 'e diff_v1 =
  df_version :: int
  df_entries :: "'e list"

definition wrap_entries_v1 :: "'e list \<Rightarrow> 'e diff_v1" where
  "wrap_entries_v1 entries = \<lparr>df_version = 1, df_entries = entries\<rparr>"

text \<open>\<^verbatim>\<open>normalize_type_specific_v1\<close>; an unsupported version is an error.\<close>

definition normalize_type_specific_v1 :: "pdict \<Rightarrow> int + pdict" where
  "normalize_type_specific_v1 value =
    (let raw_version = dget value ''version'' in
     if py_eq raw_version (PInt 1) then Inr value
     else (case raw_version of
         PInt n \<Rightarrow> Inl n
       | _ \<Rightarrow> Inr (dput ''version'' (PInt 1) value)))"

section \<open>Nothing changes without a change\<close>

lemma py_eq_atoms:
  "py_eq PNone PNone" "py_eq (PBool b) (PBool b)" "py_eq (PInt n) (PInt n)" "py_eq (PStr t) (PStr t)"
  by (subst py_eq.simps, simp)+

lemma py_eq_refl [simp]: "py_eq v v"
proof (induction "size v" arbitrary: v rule: less_induct)
  case less
  show ?case
  proof (cases v)
    case (PList xs)
    have "list_all2 py_eq xs xs" using less PList by (intro list.rel_refl_strong) (auto dest!: size_in_list)
    then show ?thesis unfolding PList by (subst py_eq.simps) simp
  next
    case (PDict d)
    have "case (map_of d k, map_of d k) of (Some x, Some y) \<Rightarrow> py_eq x y | _ \<Rightarrow> False" if k: "k \<in> set (map fst d)" for k
    proof -
      obtain x where x: "map_of d k = Some x" using k by (cases "map_of d k") (simp_all add: map_of_eq_None_iff)
      have "py_eq x x" using size_map_of [OF x] PDict by (intro less) simp
      with x show ?thesis by simp
    qed
    then show ?thesis unfolding PDict by (subst py_eq.simps) (simp only: prod.case pv.case simp_thms, blast)
  next
    case PNone
    then show ?thesis by (simp only: py_eq_atoms)
  next
    case (PBool b)
    then show ?thesis by (simp only: py_eq_atoms)
  next
    case (PInt n)
    then show ?thesis by (simp only: py_eq_atoms)
  next
    case (PStr t)
    then show ?thesis by (simp only: py_eq_atoms)
  qed
qed

lemma sorted_set_filter_Nil: "sorted_set (filter P xs) = [] \<longleftrightarrow> (\<forall>x \<in> set xs. \<not> P x)"
  by (simp add: filter_empty_conv)

lemma set_entries_self [simp]: "set_entries field label object xs xs = []"
  by (simp add: set_entries_def Let_def)

lemma privilege_entries_self [simp]: "build_privilege_diff_entries container field v v = []"
  by (simp add: build_privilege_diff_entries_def Let_def)

lemma privilege_changes_self [simp]: "collect_privilege_changes container snapshot snapshot = []"
  by (simp add: collect_privilege_changes_def Let_def)

lemma other_entry_self [simp]: "build_other_diff_entry container field v v = None"
  by (simp add: build_other_diff_entry_def)

lemma type_specific_entries_self [simp]: "build_type_specific_diff_entries container v v = []"
  by (cases v) (simp_all add: build_type_specific_diff_entries_def entry_list_def Let_def)

lemma other_changes_self [simp]: "collect_other_changes container t snapshot snapshot a a b b = []"
  by (simp add: collect_other_changes_def entry_list_def Let_def)

section \<open>The entries say what changed\<close>

lemma set_entries_cases:
  "set_entries field label object old new =
    (if \<exists>p \<in> set new. p \<notin> set old then [\<lparr>pe_field = field, pe_label = label, pe_object = object, pe_action = ''GRANT'',
       pe_permissions = sorted_set (filter (\<lambda>p. p \<notin> set old) new)\<rparr>] else []) @
    (if \<exists>p \<in> set old. p \<notin> set new then [\<lparr>pe_field = field, pe_label = label, pe_object = object, pe_action = ''REVOKE'',
       pe_permissions = sorted_set (filter (\<lambda>p. p \<notin> set new) old)\<rparr>] else [])"
proof -
  have "set new = set old" if "\<not> (\<exists>p \<in> set new. p \<notin> set old)" "\<not> (\<exists>p \<in> set old. p \<notin> set new)" using that by auto
  then show ?thesis unfolding set_entries_def Let_def sorted_set_filter_Nil by auto
qed

text \<open>What the entries grant and revoke on an object.\<close>

definition granted_by :: "privilege_entry list \<Rightarrow> string \<Rightarrow> string set" where
  "granted_by entries object = {p. \<exists>e \<in> set entries. pe_action e = ''GRANT'' \<and> pe_object e = object \<and> p \<in> set (pe_permissions e)}"

definition revoked_by :: "privilege_entry list \<Rightarrow> string \<Rightarrow> string set" where
  "revoked_by entries object = {p. \<exists>e \<in> set entries. pe_action e = ''REVOKE'' \<and> pe_object e = object \<and> p \<in> set (pe_permissions e)}"

lemma object_label_inject [simp]: "object_label label k = object_label label k' \<longleftrightarrow> k = k'"
  by (auto simp: object_label_def)

lemma granted_simps [simp]:
  "granted_by [] object = {}" "revoked_by [] object = {}"
  "granted_by (e # es) object = (if pe_action e = ''GRANT'' \<and> pe_object e = object then set (pe_permissions e) else {}) \<union> granted_by es object"
  "revoked_by (e # es) object = (if pe_action e = ''REVOKE'' \<and> pe_object e = object then set (pe_permissions e) else {}) \<union> revoked_by es object"
  by (auto simp: granted_by_def revoked_by_def)

lemma granted_concat: "granted_by (concat (map f keys)) object = (\<Union>k \<in> set keys. granted_by (f k) object)"
  "revoked_by (concat (map f keys)) object = (\<Union>k \<in> set keys. revoked_by (f k) object)"
  by (auto simp: granted_by_def revoked_by_def)

lemma granted_set_entries:
  "granted_by (set_entries field label object old new) object' = (if object' = object then set new - set old else {})"
  "revoked_by (set_entries field label object old new) object' = (if object' = object then set old - set new else {})"
  by (auto simp: set_entries_cases)

lemma mget_absent: "k \<notin> set (dkeys m) \<Longrightarrow> mget m k = []"
  by (simp add: mget_def dkeys_def map_of_eq_None_iff [THEN iffD2])

lemma mapping_entries:
  assumes "is_mapping old_value \<or> is_mapping new_value"
  shows "granted_by (build_privilege_diff_entries container field old_value new_value) (object_label (label_of privilege_field_labels field) k) =
      set (mget (normalize_mapping container new_value) k) - set (mget (normalize_mapping container old_value) k)"
    and "revoked_by (build_privilege_diff_entries container field old_value new_value) (object_label (label_of privilege_field_labels field) k) =
      set (mget (normalize_mapping container old_value) k) - set (mget (normalize_mapping container new_value) k)"
proof -
  let ?o = "normalize_mapping container old_value" and ?n = "normalize_mapping container new_value"
  have "granted_by (build_privilege_diff_entries container field old_value new_value) (object_label (label_of privilege_field_labels field) k) =
      (if k \<in> set (dkeys ?o) \<union> set (dkeys ?n) then set (mget ?n k) - set (mget ?o k) else {})"
    "revoked_by (build_privilege_diff_entries container field old_value new_value) (object_label (label_of privilege_field_labels field) k) =
      (if k \<in> set (dkeys ?o) \<union> set (dkeys ?n) then set (mget ?o k) - set (mget ?n k) else {})"
    using assms by (auto simp: build_privilege_diff_entries_def Let_def granted_concat granted_set_entries split: if_splits)
  then show "granted_by (build_privilege_diff_entries container field old_value new_value) (object_label (label_of privilege_field_labels field) k) =
      set (mget ?n k) - set (mget ?o k)"
    "revoked_by (build_privilege_diff_entries container field old_value new_value) (object_label (label_of privilege_field_labels field) k) =
      set (mget ?o k) - set (mget ?n k)"
    by (simp_all add: mget_absent)
qed

lemma sequence_entries:
  assumes "\<not> is_mapping old_value" "\<not> is_mapping new_value"
  shows "granted_by (build_privilege_diff_entries container field old_value new_value) (object_label (label_of privilege_field_labels field) k) =
      (if k = [] then set (normalize_sequence container new_value) - set (normalize_sequence container old_value) else {})"
    and "revoked_by (build_privilege_diff_entries container field old_value new_value) (object_label (label_of privilege_field_labels field) k) =
      (if k = [] then set (normalize_sequence container old_value) - set (normalize_sequence container new_value) else {})"
proof -
  have object: "object_label label k = label \<longleftrightarrow> k = []" for label k by (simp add: object_label_def)
  show "granted_by (build_privilege_diff_entries container field old_value new_value) (object_label (label_of privilege_field_labels field) k) =
      (if k = [] then set (normalize_sequence container new_value) - set (normalize_sequence container old_value) else {})"
    "revoked_by (build_privilege_diff_entries container field old_value new_value) (object_label (label_of privilege_field_labels field) k) =
      (if k = [] then set (normalize_sequence container old_value) - set (normalize_sequence container new_value) else {})"
    using assms by (simp_all add: build_privilege_diff_entries_def Let_def granted_set_entries object)
qed

text \<open>The privileges a value of a category gives on an object: a mapping gives those it lists under
  the object, any other value gives its own on the category as a whole, the empty object.\<close>

definition privileges_of :: "(pv \<Rightarrow> string) \<Rightarrow> pv \<Rightarrow> string \<Rightarrow> string set" where
  "privileges_of container value key =
    (if is_mapping value then set (mget (normalize_mapping container value) key)
     else if key = [] then set (normalize_sequence container value) else {})"

text \<open>A list that is compared with a mapping is read as nothing.\<close>

definition read_beside :: "pv \<Rightarrow> pv \<Rightarrow> pv" where
  "read_beside other value = (if is_mapping other \<and> \<not> is_mapping value then PNone else value)"

lemma privileges_beside:
  "is_mapping other \<or> is_mapping value \<Longrightarrow> privileges_of container (read_beside other value) k = set (mget (normalize_mapping container value) k)"
  "\<not> is_mapping other \<Longrightarrow> \<not> is_mapping value \<Longrightarrow> privileges_of container (read_beside other value) k =
     (if k = [] then set (normalize_sequence container value) else {})"
  by (cases "value"; simp add: privileges_of_def read_beside_def is_mapping_def normalize_mapping_def normalize_sequence_def mget_def)+

lemma entries_patch:
  "granted_by (build_privilege_diff_entries container field old_value new_value) (object_label (label_of privilege_field_labels field) k) =
     privileges_of container (read_beside old_value new_value) k - privileges_of container (read_beside new_value old_value) k \<and>
   revoked_by (build_privilege_diff_entries container field old_value new_value) (object_label (label_of privilege_field_labels field) k) =
     privileges_of container (read_beside new_value old_value) k - privileges_of container (read_beside old_value new_value) k"
proof (cases "is_mapping old_value \<or> is_mapping new_value")
  case True
  then have "is_mapping new_value \<or> is_mapping old_value" by blast
  with True show ?thesis by (simp only: mapping_entries privileges_beside)
next
  case False
  then show ?thesis by (simp add: sequence_entries privileges_beside)
qed

lemma entries_actions: "e \<in> set (build_privilege_diff_entries container field old_value new_value) \<Longrightarrow>
    pe_action e \<in> {''GRANT'', ''REVOKE''} \<and> pe_permissions e \<noteq> [] \<and> sorted (pe_permissions e) \<and> distinct (pe_permissions e)"
  by (auto simp: build_privilege_diff_entries_def Let_def set_entries_cases sorted_set_filter_Nil filter_empty_conv split: if_splits)

text \<open>C26: The entries of a privilege diff are a patch, for any two values of a category: the old
  privileges of every object without what the entries revoke on it and with what they grant are its
  new privileges; nothing is granted that was there or revoked that was not; and every entry grants
  or revokes a sorted, non-empty list, so the ALTER entries of the code never occur. The privileges
  of a mapping are those it lists per object, those of a list or a missing value belong to the empty
  object; but of a list and a mapping that are compared the list counts as no privileges at all
  (\<open>read_beside\<close>), as the code reads it.\<close>

theorem privilege_entries_are_patch:
  "(\<forall>k. let entries = build_privilege_diff_entries container field old_value new_value;
        object = object_label (label_of privilege_field_labels field) k;
        old_set = privileges_of container (read_beside new_value old_value) k;
        new_set = privileges_of container (read_beside old_value new_value) k
      in (old_set - revoked_by entries object) \<union> granted_by entries object = new_set
        \<and> granted_by entries object \<inter> old_set = {} \<and> revoked_by entries object \<subseteq> old_set)
    \<and> (\<forall>e \<in> set (build_privilege_diff_entries container field old_value new_value).
        pe_action e \<in> {''GRANT'', ''REVOKE''} \<and> pe_permissions e \<noteq> [] \<and> sorted (pe_permissions e) \<and> distinct (pe_permissions e))"
  using entries_actions by (auto simp: entries_patch Let_def)

text \<open>A diff of two mappings, one of two lists, and one of a mapping and a list.\<close>

lemma privilege_entries_are_patch_witness:
  "let patch = (\<lambda>old new key. let entries = build_privilege_diff_entries (\<lambda>_. []) ''oracle_roles'' old new;
         object = object_label (label_of privilege_field_labels ''oracle_roles'') key in
       (privileges_of (\<lambda>_. []) old key - revoked_by entries object) \<union> granted_by entries object)
   in patch (PDict [(''shop'', PList [PStr ''a'', PStr ''b''])]) (PDict [(''shop'', PList [PStr ''b'', PStr ''c''])]) ''shop'' = {''b'', ''c''}
     \<and> patch (PList [PStr ''a'', PStr ''b'']) (PList [PStr ''b'', PStr ''c'']) [] = {''b'', ''c''}
     \<and> patch (PDict [(''shop'', PList [PStr ''a''])]) (PList [PStr ''a'']) ''shop'' = {}
     \<and> patch (PDict [(''shop'', PList [PStr ''a''])]) (PList [PStr ''a'']) [] = {}"
proof -
  note patch = privilege_entries_are_patch [THEN conjunct1, THEN spec, unfolded Let_def, THEN conjunct1]
  note vals = privileges_of_def read_beside_def is_mapping_def normalize_mapping_def mget_def normalize_sequence_def repr_value.simps
  let ?patch = "\<lambda>old new key. let entries = build_privilege_diff_entries (\<lambda>_. []) ''oracle_roles'' old new;
      object = object_label (label_of privilege_field_labels ''oracle_roles'') key in
    (privileges_of (\<lambda>_. []) old key - revoked_by entries object) \<union> granted_by entries object"
  have same: "?patch old new key = privileges_of (\<lambda>_. []) (read_beside old new) key" if "read_beside new old = old" for old new key
    using patch [of "\<lambda>_. []" new old key "''oracle_roles''"] unfolding that Let_def by blast
  have *: "?patch (PDict [(''shop'', PList [PStr ''a'', PStr ''b''])]) (PDict [(''shop'', PList [PStr ''b'', PStr ''c''])]) ''shop'' = {''b'', ''c''}"
    by (subst same) (simp_all add: vals)
  have **: "?patch (PList [PStr ''a'', PStr ''b'']) (PList [PStr ''b'', PStr ''c'']) [] = {''b'', ''c''}"
    by (subst same) (simp_all add: vals)
  have ***: "?patch (PDict [(''shop'', PList [PStr ''a''])]) (PList [PStr ''a'']) k = {}" for k
    by (subst same) (simp_all add: vals)
  show ?thesis unfolding Let_def using * ** *** [of "''shop''"] *** [of "[]"] unfolding Let_def by blast
qed

end
