(* ===== verification/Permission_Sync.thy ===== *)
theory Permission_Sync
  imports Permission_Diff Account_Inventory
begin

text \<open>
  \<^verbatim>\<open>AccountPermissionManager.synchronize\<close> of
  \<^verbatim>\<open>app/services/accounts_sync/permission_manager.py\<close>: the permissions of the active accounts of
  an instance are compared with what the server reports, written, and logged.

  A row of \<^verbatim>\<open>account_permission\<close> is addressed by its id; the object the code changes in place
  is the row with that id. \<^verbatim>\<open>se_log_error\<close> says whether writing a change log raises one of
  \<^verbatim>\<open>PERMISSION_LOG_EXCEPTIONS\<close>, and with which text. An exception that leaves the
  \<^verbatim>\<open>begin_nested\<close> block takes back what the block did; \<^verbatim>\<open>PermissionSyncError\<close> is raised
  after the block and takes back nothing.
\<close>

section \<open>Rows, logs and the environment\<close>

record permission_row =
  pr_id :: nat
  pr_instance :: int
  pr_db_type :: "string option"
  pr_account :: "nat option"
  pr_username :: string
  pr_owner_type :: string
  pr_owner_id :: "int option"
  pr_cluster :: "int option"
  pr_group :: "int option"
  pr_type_specific :: pv
  pr_snapshot :: pv
  pr_facts :: pv
  pr_change_type :: string
  pr_change_time :: int
  pr_synced :: int

record change_log =
  cl_instance :: int
  cl_db_type :: string
  cl_username :: string
  cl_owner_type :: string
  cl_owner_id :: int
  cl_cluster :: "int option"
  cl_group :: "int option"
  cl_change_type :: string
  cl_change_time :: int
  cl_privilege_diff :: "privilege_entry diff_v1"
  cl_other_diff :: "other_entry diff_v1"
  cl_message :: string
  cl_session :: "string option"

record perm_store =
  ps_rows :: "permission_row list"
  ps_next :: nat
  ps_logs :: "change_log list"

text \<open>A remote account with its permissions.\<close>

record remote_permissions = remote_account +
  rp_permissions :: "pdict option"

record sync_env =
  se_now :: int
  se_fromiso :: "string \<Rightarrow> int option"
  se_container :: "pv \<Rightarrow> string"
  se_log_error :: "change_log \<Rightarrow> string option"
  se_instance :: account_instance
  se_session :: "string option"

datatype perm_error =
    Backfill_missing
  | Snapshot_missing
  | Type_specific_version int
  | Owner_not_unique

section \<open>Snapshots\<close>

definition type_specific_forbidden_keys :: "string list" where
  "type_specific_forbidden_keys = [''is_superuser'', ''is_locked'', ''roles'', ''privileges'']"

definition sanitize_type_specific :: "pv \<Rightarrow> pdict option \<times> string list" where
  "sanitize_type_specific type_specific = (case type_specific of
     PDict d \<Rightarrow> (Some (filter (\<lambda>kv. fst kv \<notin> set type_specific_forbidden_keys) d),
       sort (filter (\<lambda>key. key \<in> set type_specific_forbidden_keys) (dkeys d)))
   | _ \<Rightarrow> (None, []))"

definition snapshot_view :: "pv \<Rightarrow> perm_error + pdict" where
  "snapshot_view snapshot = (case snapshot of
     PDict d \<Rightarrow> if py_eq (dget d ''version'') (PInt 4) then Inr d else Inl Snapshot_missing
   | _ \<Rightarrow> Inl Snapshot_missing)"

definition build_permission_snapshot :: "string option \<Rightarrow> pdict \<Rightarrow> pdict" where
  "build_permission_snapshot db_type_value permissions =
    (let db_type = str_of_db_type db_type_value;
         categories = filter (\<lambda>kv. fst kv \<noteq> ''type_specific'' \<and> fst kv \<in> set permission_snapshot_category_keys) permissions;
         extra = filter (\<lambda>kv. fst kv \<noteq> ''type_specific'' \<and> fst kv \<notin> set permission_snapshot_category_keys) permissions;
         (sanitized, removed_keys) = sanitize_type_specific (dget permissions ''type_specific'')
     in [(''version'', PInt 4), (''categories'', PDict categories),
         (''type_specific'', PDict (case sanitized of None \<Rightarrow> [] | Some d \<Rightarrow> [(db_type, PDict d)])),
         (''extra'', PDict extra),
         (''errors'', str_list (map (\<lambda>item. ''TYPE_SPECIFIC_FORBIDDEN_FIELD:'' @ item) removed_keys)),
         (''meta'', PDict [])])"

definition facts_has_capability :: "pdict \<Rightarrow> string \<Rightarrow> bool" where
  "facts_has_capability facts name = (case dget facts ''capabilities'' of
     PList xs \<Rightarrow> list_ex (\<lambda>item. item = PStr name) xs | _ \<Rightarrow> False)"

definition row_facts :: "sync_env \<Rightarrow> permission_row \<Rightarrow> pdict \<Rightarrow> pdict" where
  "row_facts env row snapshot = build_permission_facts (se_fromiso env) (se_now env) (pr_db_type row) (PDict snapshot)"

section \<open>Differences\<close>

record diff_payload =
  dp_changed :: bool
  dp_change_type :: string
  dp_privilege :: "privilege_entry list"
  dp_other :: "other_entry list"

definition calculate_diff :: "sync_env \<Rightarrow> permission_row \<Rightarrow> pdict \<Rightarrow> perm_error + diff_payload" where
  "calculate_diff env row permissions = (case snapshot_view (pr_snapshot row) of
     Inl e \<Rightarrow> Inl e
   | Inr old_snapshot \<Rightarrow>
      (let new_snapshot = build_permission_snapshot (pr_db_type row) permissions;
           old_facts = row_facts env row old_snapshot;
           new_facts = row_facts env row new_snapshot;
           privilege_changes = collect_privilege_changes (se_container env) old_snapshot new_snapshot;
           other_changes = collect_other_changes (se_container env) (pr_db_type row) old_snapshot new_snapshot
             (facts_has_capability old_facts ''SUPERUSER'') (facts_has_capability new_facts ''SUPERUSER'')
             (facts_has_capability old_facts ''LOCKED'') (facts_has_capability new_facts ''LOCKED'');
           change_type = determine_change_type privilege_changes other_changes
       in Inr \<lparr>dp_changed = (change_type \<noteq> ''none''), dp_change_type = change_type,
            dp_privilege = privilege_changes, dp_other = other_changes\<rparr>))"

definition build_initial_diff_payload :: "sync_env \<Rightarrow> permission_row \<Rightarrow> pdict \<Rightarrow> privilege_entry list \<times> other_entry list" where
  "build_initial_diff_payload env row permissions =
    (let container = se_container env;
         snapshot = build_permission_snapshot (pr_db_type row) permissions;
         facts = row_facts env row snapshot;
         categories = ensure_dict (dget snapshot ''categories'');
         privilege_diff = concat (map (\<lambda>field. build_privilege_diff_entries container field PNone (dget categories field))
           (sort (dkeys categories)));
         type_specific = ensure_dict (dget snapshot ''type_specific'')
     in (privilege_diff,
         (if facts_has_capability facts ''SUPERUSER'' then entry_list (build_other_diff_entry container ''is_superuser'' (PBool False) (PBool True)) else []) @
         (if facts_has_capability facts ''LOCKED'' then entry_list (build_other_diff_entry container ''is_locked'' (PBool False) (PBool True)) else []) @
         entry_list (build_other_diff_entry container ''type_specific'' PNone (dget type_specific (str_of_db_type (pr_db_type row))))))"

section \<open>Writing a record\<close>

text \<open>\<^verbatim>\<open>_apply_permissions\<close>.\<close>

definition apply_permissions :: "sync_env \<Rightarrow> permission_row \<Rightarrow> pdict \<Rightarrow> perm_error + permission_row" where
  "apply_permissions env row permissions =
    (let write = \<lambda>r perms. (let snapshot = build_permission_snapshot (pr_db_type r) perms
           in r\<lparr>pr_snapshot := PDict snapshot, pr_facts := PDict (row_facts env r snapshot)\<rparr>)
     in if \<not> dhas permissions ''type_specific'' then Inr (write row permissions)
        else (case sanitize_type_specific (dget permissions ''type_specific'') of
            (None, _) \<Rightarrow> Inr (write row permissions)
          | (Some sanitized, _) \<Rightarrow> (case normalize_type_specific_v1 sanitized of
                Inl n \<Rightarrow> Inl (Type_specific_version n)
              | Inr normalized \<Rightarrow>
                  Inr (write (row\<lparr>pr_type_specific := PDict normalized\<rparr>) (dput ''type_specific'' (PDict sanitized) permissions)))))"

definition refresh_permission_facts_if_stale :: "sync_env \<Rightarrow> permission_row \<Rightarrow> pdict \<Rightarrow> bool \<times> permission_row" where
  "refresh_permission_facts_if_stale env row permissions =
    (let fresh_facts = PDict (row_facts env row (build_permission_snapshot (pr_db_type row) permissions))
     in if py_eq (pr_facts row) fresh_facts then (False, row) else (True, row\<lparr>pr_facts := fresh_facts\<rparr>))"

definition mark_synced :: "sync_env \<Rightarrow> permission_row \<Rightarrow> permission_row" where
  "mark_synced env row = row\<lparr>pr_synced := se_now env\<rparr>"

definition write_permission :: "permission_row \<Rightarrow> perm_store \<Rightarrow> perm_store" where
  "write_permission r st = st\<lparr>ps_rows := map (\<lambda>q. if pr_id q = pr_id r then r else q) (ps_rows st)\<rparr>"

section \<open>Owners\<close>

definition owner_identity_from_account :: "account_instance \<Rightarrow> account_row \<Rightarrow> string \<times> int" where
  "owner_identity_from_account inst account =
    (if ar_owner_type account = [] then ''instance'' else ar_owner_type account,
     case ar_owner_id account of Some i \<Rightarrow> i | None \<Rightarrow> ai_id inst)"

definition owner_key_from_account :: "account_instance \<Rightarrow> account_row \<Rightarrow> owner_key" where
  "owner_key_from_account inst account = (case owner_identity_from_account inst account of
     (owner_type, owner_id) \<Rightarrow> (owner_type, owner_id, lower (ar_db_type account), ar_username account))"

definition owner_identity_from_remote :: "account_instance \<Rightarrow> remote_permissions \<Rightarrow> string \<times> int" where
  "owner_identity_from_remote inst account =
    (let raw = (case ra_owner_type account of None \<Rightarrow> ''instance'' | Some t \<Rightarrow> if t = [] then ''instance'' else t)
     in (if strip raw = [] then ''instance'' else strip raw,
         case ra_owner_id account of Some i \<Rightarrow> i | None \<Rightarrow> ai_id inst))"

definition owner_key_from_remote :: "account_instance \<Rightarrow> remote_permissions \<Rightarrow> owner_key" where
  "owner_key_from_remote inst account = (case owner_identity_from_remote inst account of
     (owner_type, owner_id) \<Rightarrow> (owner_type, owner_id,
       lower (case ra_db_type account of None \<Rightarrow> ai_db_type inst | Some t \<Rightarrow> if t = [] then ai_db_type inst else t),
       ra_username account))"

definition get_permission_by_instance_account_id :: "perm_store \<Rightarrow> nat \<Rightarrow> permission_row option" where
  "get_permission_by_instance_account_id st account_id = find (\<lambda>r. pr_account r = Some account_id) (ps_rows st)"

definition get_permission_by_owner_username :: "perm_store \<Rightarrow> string \<Rightarrow> int \<Rightarrow> string \<Rightarrow> string \<Rightarrow> permission_row option" where
  "get_permission_by_owner_username st owner_type owner_id db_type username =
     find (\<lambda>r. pr_owner_type r = owner_type \<and> pr_owner_id r = Some owner_id \<and> pr_db_type r = Some db_type
       \<and> pr_username r = username) (ps_rows st)"

definition find_permission_record :: "sync_env \<Rightarrow> perm_store \<Rightarrow> account_row \<Rightarrow> perm_error + permission_row option" where
  "find_permission_record env st account =
    (case get_permission_by_instance_account_id st (ar_id account) of
       Some r \<Rightarrow> Inr (Some r)
     | None \<Rightarrow> (case owner_identity_from_account (se_instance env) account of (owner_type, owner_id) \<Rightarrow>
         (case get_permission_by_owner_username st owner_type owner_id (ar_db_type account) (ar_username account) of
            None \<Rightarrow> Inr None
          | Some r \<Rightarrow> if pr_account r = None \<or> pr_account r = Some 0 then Inl Backfill_missing else Inr (Some r))))"

section \<open>Logging\<close>

text \<open>\<^verbatim>\<open>_log_change\<close>: the log, or the text of the exception.\<close>

definition log_change ::
  "sync_env \<Rightarrow> account_row \<Rightarrow> string \<Rightarrow> privilege_entry list \<Rightarrow> other_entry list \<Rightarrow> perm_store \<Rightarrow> string + perm_store" where
  "log_change env account change_type privilege_diff other_diff st =
    (if change_type = ''none'' then Inr st
     else
       let inst = se_instance env;
           log = \<lparr>cl_instance = ai_id inst, cl_db_type = ai_db_type inst, cl_username = ar_username account,
             cl_owner_type = (if ar_owner_type account = [] then ''instance'' else ar_owner_type account),
             cl_owner_id = (case ar_owner_id account of Some i \<Rightarrow> i | None \<Rightarrow> ai_id inst),
             cl_cluster = ar_cluster account, cl_group = ar_group account, cl_change_type = change_type,
             cl_change_time = se_now env, cl_privilege_diff = wrap_entries_v1 privilege_diff,
             cl_other_diff = wrap_entries_v1 other_diff,
             cl_message = build_change_summary (ar_username account) change_type privilege_diff other_diff,
             cl_session = se_session env\<rparr>
       in (case se_log_error env log of
            Some msg \<Rightarrow> Inl msg
          | None \<Rightarrow> Inr (st\<lparr>ps_logs := ps_logs st @ [log]\<rparr>)))"

record sync_outcome =
  so_created :: nat
  so_updated :: nat
  so_skipped :: nat
  so_error :: "string option"

definition process_existing_permission ::
  "sync_env \<Rightarrow> permission_row \<Rightarrow> pdict \<Rightarrow> account_row \<Rightarrow> perm_store \<Rightarrow> perm_error + (perm_store \<times> sync_outcome)" where
  "process_existing_permission env row permissions account st =
    (case calculate_diff env row permissions of
       Inl e \<Rightarrow> Inl e
     | Inr diff \<Rightarrow>
        if \<not> dp_changed diff then
          (case refresh_permission_facts_if_stale env row permissions of (stale, row') \<Rightarrow>
             Inr (write_permission (mark_synced env row') st,
               if stale then \<lparr>so_created = 0, so_updated = 1, so_skipped = 0, so_error = None\<rparr>
               else \<lparr>so_created = 0, so_updated = 0, so_skipped = 1, so_error = None\<rparr>))
        else (case apply_permissions env row permissions of
            Inl e \<Rightarrow> Inl e
          | Inr row' \<Rightarrow>
              let row' = mark_synced env (row'\<lparr>pr_change_type := dp_change_type diff, pr_change_time := se_now env\<rparr>);
                  st' = write_permission row' st
              in (case log_change env account (dp_change_type diff) (dp_privilege diff) (dp_other diff) st' of
                   Inl msg \<Rightarrow> Inr (st', \<lparr>so_created = 0, so_updated = 1, so_skipped = 1, so_error = Some (utf8 [0xE8, 0xAE, 0xB0, 0xE5, 0xBD, 0x95, 0xE6, 0x9D, 0x83, 0xE9, 0x99, 0x90, 0xE5, 0x8F, 0x98, 0xE6, 0x9B, 0xB4, 0xE6, 0x97, 0xA5, 0xE5, 0xBF, 0x97, 0xE5, 0xA4, 0xB1, 0xE8, 0xB4, 0xA5] @ '': '' @ msg)\<rparr>)
                 | Inr st'' \<Rightarrow> Inr (st'', \<lparr>so_created = 0, so_updated = 1, so_skipped = 0, so_error = None\<rparr>))))"

definition new_permission :: "sync_env \<Rightarrow> account_row \<Rightarrow> nat \<Rightarrow> permission_row" where
  "new_permission env account i = (let inst = se_instance env in
     \<lparr>pr_id = i, pr_instance = ai_id inst, pr_db_type = Some (ai_db_type inst), pr_account = Some (ar_id account),
      pr_username = ar_username account,
      pr_owner_type = (if ar_owner_type account = [] then ''instance'' else ar_owner_type account),
      pr_owner_id = Some (case ar_owner_id account of Some j \<Rightarrow> j | None \<Rightarrow> ai_id inst),
      pr_cluster = ar_cluster account, pr_group = ar_group account,
      pr_type_specific = PNone, pr_snapshot = PNone, pr_facts = PNone,
      pr_change_type = ''add'', pr_change_time = se_now env, pr_synced = se_now env\<rparr>)"

definition process_new_permission ::
  "sync_env \<Rightarrow> account_row \<Rightarrow> pdict \<Rightarrow> perm_store \<Rightarrow> perm_error + (perm_store \<times> sync_outcome)" where
  "process_new_permission env account permissions st =
    (case apply_permissions env (new_permission env account (ps_next st)) permissions of
       Inl e \<Rightarrow> Inl e
     | Inr row \<Rightarrow>
         let st' = st\<lparr>ps_rows := ps_rows st @ [row], ps_next := ps_next st + 1\<rparr>;
             (privilege_diff, other_diff) = build_initial_diff_payload env row permissions
         in (case log_change env account ''add'' privilege_diff other_diff st' of
              Inl msg \<Rightarrow> Inr (st', \<lparr>so_created = 1, so_updated = 0, so_skipped = 1, so_error = Some (utf8 [0xE8, 0xAE, 0xB0, 0xE5, 0xBD, 0x95, 0xE6, 0x96, 0xB0, 0xE5, 0xA2, 0x9E, 0xE6, 0x9D, 0x83, 0xE9, 0x99, 0x90, 0xE6, 0x97, 0xA5, 0xE5, 0xBF, 0x97, 0xE5, 0xA4, 0xB1, 0xE8, 0xB4, 0xA5] @ '': '' @ msg)\<rparr>)
            | Inr st'' \<Rightarrow> Inr (st'', \<lparr>so_created = 1, so_updated = 0, so_skipped = 0, so_error = None\<rparr>)))"

definition remote_permissions_of :: "remote_permissions \<Rightarrow> pdict" where
  "remote_permissions_of remote = (case rp_permissions remote of None \<Rightarrow> [] | Some d \<Rightarrow> d)"

definition sync_single_account ::
  "sync_env \<Rightarrow> account_row \<Rightarrow> remote_permissions \<Rightarrow> perm_store \<Rightarrow> perm_error + (perm_store \<times> sync_outcome)" where
  "sync_single_account env account remote st =
    (case find_permission_record env st account of
       Inl e \<Rightarrow> Inl e
     | Inr (Some row) \<Rightarrow> process_existing_permission env row (remote_permissions_of remote) account st
     | Inr None \<Rightarrow> process_new_permission env account (remote_permissions_of remote) st)"

section \<open>The synchronisation\<close>

record perm_loop =
  pl_store :: perm_store
  pl_created :: nat
  pl_updated :: nat
  pl_skipped :: nat
  pl_errors :: "string list"

definition sync_step :: "sync_env \<Rightarrow> (owner_key \<times> remote_permissions) list \<Rightarrow> account_row \<Rightarrow> perm_loop \<Rightarrow> perm_error + perm_loop" where
  "sync_step env remote_map account l =
    (case map_of remote_map (owner_key_from_account (se_instance env) account) of
       None \<Rightarrow> Inr (l\<lparr>pl_skipped := pl_skipped l + 1\<rparr>)
     | Some remote \<Rightarrow> (case sync_single_account env account remote (pl_store l) of
          Inl e \<Rightarrow> Inl e
        | Inr (st, outcome) \<Rightarrow> Inr \<lparr>pl_store = st, pl_created = pl_created l + so_created outcome,
            pl_updated = pl_updated l + so_updated outcome, pl_skipped = pl_skipped l + so_skipped outcome,
            pl_errors = pl_errors l @ (case so_error outcome of None \<Rightarrow> [] | Some e \<Rightarrow> if e = [] then [] else [e])\<rparr>))"

fun sync_accounts ::
  "sync_env \<Rightarrow> (owner_key \<times> remote_permissions) list \<Rightarrow> account_row list \<Rightarrow> perm_loop \<Rightarrow> perm_error + perm_loop" where
  "sync_accounts env remote_map [] l = Inr l"
| "sync_accounts env remote_map (account # accounts) l =
    (case sync_step env remote_map account l of
       Inl e \<Rightarrow> Inl e
     | Inr l' \<Rightarrow> sync_accounts env remote_map accounts l')"

text \<open>\<^verbatim>\<open>uq_account_permission_owner\<close>, where a missing owner id clashes with nothing.\<close>

definition owner_unique :: "permission_row list \<Rightarrow> bool" where
  "owner_unique rows = distinct (map (\<lambda>r. (pr_owner_type r, pr_owner_id r, pr_db_type r, pr_username r))
     (filter (\<lambda>r. pr_owner_id r \<noteq> None \<and> pr_db_type r \<noteq> None) rows))"

record perm_summary =
  pm_created :: nat
  pm_updated :: nat
  pm_skipped :: nat
  pm_processed :: nat
  pm_errors :: "string list"
  pm_status :: string
  pm_message :: string

definition finalize_summary :: "perm_loop \<Rightarrow> perm_summary" where
  "finalize_summary l = \<lparr>pm_created = pl_created l, pm_updated = pl_updated l, pm_skipped = pl_skipped l,
     pm_processed = pl_created l + pl_updated l, pm_errors = pl_errors l,
     pm_status = (if pl_errors l = [] then ''completed'' else ''failed''),
     pm_message = (if pl_errors l = []
       then utf8 [0xE6, 0x9D, 0x83, 0xE9, 0x99, 0x90, 0xE5, 0x90, 0x8C, 0xE6, 0xAD, 0xA5, 0xE5, 0xAE, 0x8C, 0xE6, 0x88, 0x90] @ '':'' @ utf8 [0xE6, 0x96, 0xB0, 0xE5, 0xA2, 0x9E] @ '' '' @ show_nat (pl_created l) @ '' '' @ utf8 [0xE4, 0xB8, 0xAA, 0xE8, 0xB4, 0xA6, 0xE6, 0x88, 0xB7] @ '','' @ utf8 [0xE6, 0x9B, 0xB4, 0xE6, 0x96, 0xB0] @ '' '' @ show_nat (pl_updated l) @ '' '' @ utf8 [0xE4, 0xB8, 0xAA, 0xE8, 0xB4, 0xA6, 0xE6, 0x88, 0xB7]
       else utf8 [0xE6, 0x9D, 0x83, 0xE9, 0x99, 0x90, 0xE5, 0x90, 0x8C, 0xE6, 0xAD, 0xA5, 0xE9, 0x98, 0xB6, 0xE6, 0xAE, 0xB5, 0xE5, 0x8F, 0x91, 0xE7, 0x94, 0x9F, 0xE9, 0x94, 0x99, 0xE8, 0xAF, 0xAF])\<rparr>"

text \<open>The result of a run: an exception of the block, \<^verbatim>\<open>PermissionSyncError\<close> with its summary,
  or the summary.\<close>

datatype perm_result = Perm_aborted perm_error | Perm_sync_error perm_summary | Perm_done perm_summary

definition synchronize_permissions ::
  "sync_env \<Rightarrow> remote_permissions list \<Rightarrow> account_row list \<Rightarrow> perm_store \<Rightarrow> perm_store \<times> perm_result" where
  "synchronize_permissions env remote_accounts active_accounts st =
    (let remote_map = fold (\<lambda>r. AList.update (owner_key_from_remote (se_instance env) r) r) remote_accounts []
     in case sync_accounts env remote_map active_accounts
          \<lparr>pl_store = st, pl_created = 0, pl_updated = 0, pl_skipped = 0, pl_errors = []\<rparr> of
        Inl e \<Rightarrow> (st, Perm_aborted e)
      | Inr l \<Rightarrow>
          if \<not> owner_unique (ps_rows (pl_store l)) then (st, Perm_aborted Owner_not_unique)
          else (pl_store l, if pl_errors l \<noteq> [] then Perm_sync_error (finalize_summary l) else Perm_done (finalize_summary l)))"

end
