(* ===== verification/Permission_Repeat.thy ===== *)
theory Permission_Repeat
  imports Permission_Sync
begin

text \<open>
  What a second synchronisation of permissions finds: when a run has written what the server
  reports, the same report changes nothing. The exception are the keys that a report of
  type-specific fields must not have: the writer removes them, the comparison counts them.
\<close>

section \<open>A row that is in step with a report\<close>

definition fresh_facts :: "sync_env \<Rightarrow> permission_row \<Rightarrow> pdict \<Rightarrow> pv" where
  "fresh_facts env row permissions = PDict (row_facts env row (build_permission_snapshot (pr_db_type row) permissions))"

definition in_step :: "sync_env \<Rightarrow> permission_row \<Rightarrow> pdict \<Rightarrow> bool" where
  "in_step env row permissions = ((\<exists>diff. calculate_diff env row permissions = Inr diff \<and> \<not> dp_changed diff)
     \<and> py_eq (pr_facts row) (fresh_facts env row permissions))"

definition no_forbidden :: "pdict \<Rightarrow> bool" where
  "no_forbidden permissions = (case dget permissions ''type_specific'' of
     PDict d \<Rightarrow> \<forall>k \<in> fst ` set d. k \<notin> set type_specific_forbidden_keys | _ \<Rightarrow> True)"

text \<open>What identifies a row, and what no write changes.\<close>

definition ident :: "permission_row \<Rightarrow> string \<times> int option \<times> string option \<times> string" where
  "ident r = (pr_owner_type r, pr_owner_id r, pr_db_type r, pr_username r)"

definition same_row :: "permission_row \<Rightarrow> permission_row \<Rightarrow> bool" where
  "same_row r r' = (pr_id r' = pr_id r \<and> pr_account r' = pr_account r \<and> ident r' = ident r)"

lemma sanitize_id:
  assumes "no_forbidden permissions" "sanitize_type_specific (dget permissions ''type_specific'') = (Some d, ks)"
  shows "dput ''type_specific'' (PDict d) permissions = permissions"
proof -
  obtain e where e: "dget permissions ''type_specific'' = PDict e" and d: "d = filter (\<lambda>kv. fst kv \<notin> set type_specific_forbidden_keys) e"
    using assms(2) by (auto simp: sanitize_type_specific_def split: pv.splits)
  have "filter (\<lambda>kv. fst kv \<notin> set type_specific_forbidden_keys) e = e"
    using assms(1) e by (auto simp: no_forbidden_def intro!: filter_True)
  with d have "d = e" by simp
  with map_of_dget [OF e] show ?thesis by (simp add: update_triv)
qed

lemma apply_result:
  assumes "apply_permissions env row permissions = Inr row'" "no_forbidden permissions"
  shows "pr_snapshot row' = PDict (build_permission_snapshot (pr_db_type row) permissions)
    \<and> pr_facts row' = fresh_facts env row permissions \<and> same_row row row' \<and> pr_db_type row' = pr_db_type row"
  using assms sanitize_id [OF assms(2)]
  by (auto simp: apply_permissions_def Let_def fresh_facts_def row_facts_def same_row_def ident_def
    split: if_splits option.splits prod.splits sum.splits)

lemma snapshot_view_build: "snapshot_view (PDict (build_permission_snapshot t permissions)) = Inr (build_permission_snapshot t permissions)"
  by (simp add: snapshot_view_def build_permission_snapshot_def Let_def dget_def py_eq.simps split: prod.split)

lemma written_in_step:
  assumes "pr_snapshot row = PDict (build_permission_snapshot (pr_db_type row) permissions)"
    "pr_facts row = fresh_facts env row permissions"
  shows "in_step env row permissions"
  using assms by (simp add: in_step_def calculate_diff_def snapshot_view_build Let_def determine_change_type_def)

lemma row_facts_cong: "pr_db_type row' = pr_db_type row \<Longrightarrow> row_facts env row' = row_facts env row"
  by (simp add: row_facts_def fun_eq_iff)

lemma calculate_diff_cong:
  assumes "pr_snapshot row' = pr_snapshot row" "pr_db_type row' = pr_db_type row"
  shows "calculate_diff env row' permissions = calculate_diff env row permissions"
  unfolding calculate_diff_def assms row_facts_cong [OF assms(2)] ..

lemma fresh_facts_cong:
  assumes "pr_db_type row' = pr_db_type row"
  shows "fresh_facts env row' permissions = fresh_facts env row permissions"
  unfolding fresh_facts_def assms row_facts_cong [OF assms] ..

section \<open>One account\<close>

text \<open>What processing an existing record does to the store, and how it leaves the row.\<close>

lemma process_existing_in_step:
  assumes "process_existing_permission env row permissions account st = Inr (st', outcome)" "no_forbidden permissions"
  shows "\<exists>row'. ps_rows st' = ps_rows (write_permission row' st) \<and> ps_next st' = ps_next st \<and> same_row row row' \<and> in_step env row' permissions"
proof -
  obtain diff where diff: "calculate_diff env row permissions = Inr diff"
    using assms(1) by (auto simp: process_existing_permission_def split: sum.splits)
  show ?thesis
  proof (cases "dp_changed diff")
    case False
    obtain stale row' where stale: "refresh_permission_facts_if_stale env row permissions = (stale, row')" by fastforce
    then have facts: "py_eq (pr_facts row') (fresh_facts env row permissions)" and rest: "same_row row row'"
      "pr_snapshot row' = pr_snapshot row" "pr_db_type row' = pr_db_type row"
      by (auto simp: refresh_permission_facts_if_stale_def Let_def fresh_facts_def same_row_def ident_def split: if_splits)
    let ?row = "mark_synced env row'"
    have row: "pr_snapshot ?row = pr_snapshot row" "pr_db_type ?row = pr_db_type row"
      "pr_facts ?row = pr_facts row'"
      using rest by (simp_all add: mark_synced_def)
    have "in_step env ?row permissions"
      using facts diff False calculate_diff_cong [OF row(1,2)] fresh_facts_cong [OF row(2)] row by (simp add: in_step_def)
    moreover have "same_row row ?row" using rest by (simp add: same_row_def ident_def mark_synced_def)
    moreover have "st' = write_permission ?row st"
      using assms(1) diff False stale by (simp add: process_existing_permission_def)
    ultimately show ?thesis by (intro exI [of _ ?row]) (simp add: write_permission_def)
  next
    case True
    then obtain row' where row': "apply_permissions env row permissions = Inr row'"
      using assms(1) diff by (auto simp: process_existing_permission_def split: sum.splits)
    note r = apply_result [OF row' assms(2)]
    let ?row = "mark_synced env (row'\<lparr>pr_change_type := dp_change_type diff, pr_change_time := se_now env\<rparr>)"
    have "in_step env ?row permissions"
      using r by (intro written_in_step) (simp_all add: mark_synced_def fresh_facts_def row_facts_def)
    moreover have "same_row row ?row" using r by (simp add: same_row_def ident_def mark_synced_def)
    moreover have "ps_rows st' = ps_rows (write_permission ?row st) \<and> ps_next st' = ps_next st"
      using assms(1) diff True row'
      by (auto simp: process_existing_permission_def log_change_def Let_def write_permission_def split: if_splits sum.splits option.splits)
    ultimately show ?thesis by blast
  qed
qed

lemma process_new_in_step:
  assumes "process_new_permission env account permissions st = Inr (st', outcome)" "no_forbidden permissions"
  shows "\<exists>row'. ps_rows st' = ps_rows st @ [row'] \<and> ps_next st' = ps_next st + 1
    \<and> same_row (new_permission env account (ps_next st)) row' \<and> in_step env row' permissions"
proof -
  let ?new = "new_permission env account (ps_next st)"
  obtain row' where row': "apply_permissions env ?new permissions = Inr row'"
    using assms(1) by (auto simp: process_new_permission_def split: sum.splits)
  note r = apply_result [OF row' assms(2)]
  have "in_step env row' permissions"
    using r by (intro written_in_step) (simp_all add: fresh_facts_def row_facts_def)
  moreover have "ps_rows st' = ps_rows st @ [row'] \<and> ps_next st' = ps_next st + 1"
    using assms(1) row'
    by (auto simp: process_new_permission_def log_change_def Let_def split: if_splits sum.splits option.splits prod.splits)
  ultimately show ?thesis using r by blast
qed

section \<open>The rows of the accounts\<close>

definition account_ident :: "account_instance \<Rightarrow> account_row \<Rightarrow> string \<times> int option \<times> string option \<times> string" where
  "account_ident inst account = (case owner_identity_from_account inst account of (owner_type, owner_id) \<Rightarrow>
     (owner_type, Some owner_id, Some (ar_db_type account), ar_username account))"

text \<open>The accounts of a run: no two are the same, and all have the type of the instance.\<close>

definition accounts_wf :: "account_instance \<Rightarrow> account_row list \<Rightarrow> bool" where
  "accounts_wf inst accounts = (distinct (map ar_id accounts) \<and> distinct (map (account_ident inst) accounts)
     \<and> (\<forall>a \<in> set accounts. ar_db_type a = ai_db_type inst))"

text \<open>A row that is linked to an account carries its identity.\<close>

definition perm_linked :: "account_instance \<Rightarrow> account_row list \<Rightarrow> perm_store \<Rightarrow> bool" where
  "perm_linked inst accounts st = (distinct (map pr_id (ps_rows st)) \<and> (\<forall>r \<in> set (ps_rows st). pr_id r < ps_next st
     \<and> (\<forall>a \<in> set accounts. pr_account r = Some (ar_id a) \<longrightarrow> ident r = account_ident inst a)))"

definition settled :: "sync_env \<Rightarrow> account_row \<Rightarrow> pdict \<Rightarrow> perm_store \<Rightarrow> bool" where
  "settled env account permissions st =
     (\<exists>r. find_permission_record env st account = Inr (Some r) \<and> in_step env r permissions)"

lemma find_by_id: "get_permission_by_instance_account_id st i = Some r \<Longrightarrow> r \<in> set (ps_rows st) \<and> pr_account r = Some i"
  by (auto simp: get_permission_by_instance_account_id_def find_Some_iff)

lemma find_by_owner: "get_permission_by_owner_username st t i d u = Some r \<Longrightarrow>
    r \<in> set (ps_rows st) \<and> ident r = (t, Some i, Some d, u)"
  by (auto simp: get_permission_by_owner_username_def ident_def find_Some_iff)

lemma find_record_cases:
  assumes "find_permission_record env st account = Inr (Some r)" "perm_linked (se_instance env) accounts st" "account \<in> set accounts"
  shows "r \<in> set (ps_rows st) \<and> ident r = account_ident (se_instance env) account"
proof (cases "get_permission_by_instance_account_id st (ar_id account)")
  case None
  with assms(1) show ?thesis
    by (auto simp: find_permission_record_def account_ident_def dest: find_by_owner split: option.splits prod.splits if_splits)
next
  case (Some r')
  with assms(1) have "r' = r" by (simp add: find_permission_record_def)
  with find_by_id [OF Some] assms(2,3) show ?thesis unfolding perm_linked_def by blast
qed

lemma find_map_cong: "(\<And>x. x \<in> set xs \<Longrightarrow> P (f x) = P x) \<Longrightarrow> find P (map f xs) = map_option f (find P xs)"
  by (induction xs) auto

lemma find_record_rewrite:
  assumes "\<And>r. r \<in> set (ps_rows st) \<Longrightarrow> same_row r (f r)" "ps_rows st' = map f (ps_rows st)"
    and "find_permission_record env st account = Inr (Some r)"
  shows "find_permission_record env st' account = Inr (Some (f r))"
proof -
  have same: "pr_account (f r) = pr_account r" "pr_owner_type (f r) = pr_owner_type r" "pr_owner_id (f r) = pr_owner_id r"
    "pr_db_type (f r) = pr_db_type r" "pr_username (f r) = pr_username r" if "r \<in> set (ps_rows st)" for r
    using assms(1) [OF that] by (simp_all add: same_row_def ident_def)
  have by_id: "get_permission_by_instance_account_id st' i = map_option f (get_permission_by_instance_account_id st i)" for i
    unfolding get_permission_by_instance_account_id_def assms(2) by (rule find_map_cong) (simp add: same)
  have by_owner: "get_permission_by_owner_username st' t i d u = map_option f (get_permission_by_owner_username st t i d u)" for t i d u
    unfolding get_permission_by_owner_username_def assms(2) by (rule find_map_cong) (simp add: same)
  have "q \<in> set (ps_rows st)" if "get_permission_by_owner_username st t i d u = Some q" for t i d u q
    using that by (auto simp: get_permission_by_owner_username_def find_Some_iff)
  with assms(3) show ?thesis
    by (auto simp: find_permission_record_def by_id by_owner same split: option.splits prod.splits if_splits)
qed

lemma find_record_append:
  assumes "ps_rows st' = ps_rows st @ [row]" "find_permission_record env st account = Inr (Some r)"
    and "pr_account row \<noteq> Some (ar_id account)"
  shows "find_permission_record env st' account = Inr (Some r)"
  using assms
  by (auto simp: find_permission_record_def get_permission_by_instance_account_id_def get_permission_by_owner_username_def
    find_append split: option.splits prod.splits if_splits)

lemma find_record_None:
  assumes "find_permission_record env st account = Inr None" "r \<in> set (ps_rows st)"
  shows "pr_account r \<noteq> Some (ar_id account) \<and> ident r \<noteq> account_ident (se_instance env) account"
  using assms
  by (auto simp: find_permission_record_def get_permission_by_instance_account_id_def get_permission_by_owner_username_def
    find_None_iff account_ident_def ident_def split: option.splits prod.splits if_splits)

lemma linked_row_eq:
  "perm_linked inst accounts st \<Longrightarrow> r \<in> set (ps_rows st) \<Longrightarrow> q \<in> set (ps_rows st) \<Longrightarrow> pr_id r = pr_id q \<Longrightarrow> r = q"
  by (auto simp: perm_linked_def distinct_map inj_on_def)

lemma ident_inj:
  "accounts_wf inst accounts \<Longrightarrow> a \<in> set accounts \<Longrightarrow> b \<in> set accounts \<Longrightarrow> account_ident inst a = account_ident inst b \<Longrightarrow> a = b"
  by (auto simp: accounts_wf_def distinct_map inj_on_def)

lemma ar_id_inj:
  "accounts_wf inst accounts \<Longrightarrow> a \<in> set accounts \<Longrightarrow> b \<in> set accounts \<Longrightarrow> ar_id a = ar_id b \<Longrightarrow> a = b"
  by (auto simp: accounts_wf_def distinct_map inj_on_def)

lemma write_settles:
  assumes linked: "perm_linked (se_instance env) accounts st" and wf: "accounts_wf (se_instance env) accounts" "b \<in> set accounts"
    and found: "find_permission_record env st b = Inr (Some row)"
    and st': "ps_rows st' = ps_rows (write_permission row' st)" "ps_next st' = ps_next st" "same_row row row'"
  shows "perm_linked (se_instance env) accounts st'"
    and "find_permission_record env st' b = Inr (Some row')"
    and "a \<in> set accounts \<Longrightarrow> a \<noteq> b \<Longrightarrow> find_permission_record env st a = Inr (Some r) \<Longrightarrow> find_permission_record env st' a = Inr (Some r)"
proof -
  let ?f = "\<lambda>q. if pr_id q = pr_id row' then row' else q"
  have row: "row \<in> set (ps_rows st)" "ident row = account_ident (se_instance env) b"
    using find_record_cases [OF found linked wf(2)] by simp_all
  have id: "pr_id row' = pr_id row" using st'(3) by (simp add: same_row_def)
  have rows: "ps_rows st' = map ?f (ps_rows st)" using st'(1) by (simp add: write_permission_def)
  have same: "same_row q (?f q)" if "q \<in> set (ps_rows st)" for q
    using linked_row_eq [OF linked that row(1)] st'(3) id by (auto simp: same_row_def)
  have f: "pr_id (?f q) = pr_id q" "pr_account (?f q) = pr_account q" "ident (?f q) = ident q" if "q \<in> set (ps_rows st)" for q
    using same [OF that] by (simp_all only: same_row_def)
  have "map pr_id (ps_rows st') = map pr_id (ps_rows st)"
    unfolding rows map_map o_def using f(1) by (intro map_cong) simp_all
  moreover have "pr_id r < ps_next st' \<and> (\<forall>a \<in> set accounts. pr_account r = Some (ar_id a) \<longrightarrow> ident r = account_ident (se_instance env) a)"
    if "r \<in> set (ps_rows st')" for r
  proof -
    obtain q where q: "q \<in> set (ps_rows st)" "r = ?f q" using \<open>r \<in> set (ps_rows st')\<close> unfolding rows by auto
    with linked f [OF q(1)] st'(2) show ?thesis unfolding perm_linked_def q(2) by metis
  qed
  ultimately show "perm_linked (se_instance env) accounts st'" using linked by (auto simp: perm_linked_def)
  show "find_permission_record env st' b = Inr (Some row')"
    using find_record_rewrite [OF same rows found] id by simp
  show "find_permission_record env st' a = Inr (Some r)"
    if a: "a \<in> set accounts" "a \<noteq> b" "find_permission_record env st a = Inr (Some r)"
  proof -
    have r: "r \<in> set (ps_rows st)" "ident r = account_ident (se_instance env) a"
      using find_record_cases [OF a(3) linked a(1)] by simp_all
    with row a ident_inj [OF wf(1) a(1) wf(2)] have "r \<noteq> row" by metis
    with r row id linked_row_eq [OF linked r(1) row(1)] have "pr_id r \<noteq> pr_id row'" by metis
    with find_record_rewrite [OF same rows a(3)] show ?thesis by simp
  qed
qed

lemma append_settles:
  assumes linked: "perm_linked (se_instance env) accounts st" and wf: "accounts_wf (se_instance env) accounts" "b \<in> set accounts"
    and found: "find_permission_record env st b = Inr None"
    and st': "ps_rows st' = ps_rows st @ [row']" "ps_next st' = ps_next st + 1" "same_row (new_permission env b (ps_next st)) row'"
  shows "perm_linked (se_instance env) accounts st'"
    and "find_permission_record env st' b = Inr (Some row')"
    and "a \<in> set accounts \<Longrightarrow> a \<noteq> b \<Longrightarrow> find_permission_record env st a = Inr (Some r) \<Longrightarrow> find_permission_record env st' a = Inr (Some r)"
proof -
  have db_type: "ar_db_type b = ai_db_type (se_instance env)" using wf by (simp add: accounts_wf_def)
  have row: "pr_id row' = ps_next st" "pr_account row' = Some (ar_id b)" "ident row' = account_ident (se_instance env) b"
    using st'(3) db_type
    by (auto simp: same_row_def new_permission_def Let_def ident_def account_ident_def owner_identity_from_account_def)
  have b_row: "a = b" if "a \<in> set accounts" "pr_account row' = Some (ar_id a)" for a
    using that row(2) ar_id_inj [OF wf(1) that(1) wf(2)] by simp
  show "perm_linked (se_instance env) accounts st'"
    using linked row b_row unfolding perm_linked_def st'(1,2) by (fastforce simp: less_Suc_eq)
  have "get_permission_by_instance_account_id st (ar_id b) = None"
    using find_record_None [OF found] by (auto simp: get_permission_by_instance_account_id_def find_None_iff)
  then show "find_permission_record env st' b = Inr (Some row')"
    using row(2) st'(1) by (simp add: find_permission_record_def get_permission_by_instance_account_id_def find_append)
  show "find_permission_record env st' a = Inr (Some r)"
    if "a \<in> set accounts" "a \<noteq> b" "find_permission_record env st a = Inr (Some r)"
    using find_record_append [OF st'(1) that(3)] b_row [OF that(1)] that(2) by blast
qed

lemma single_settles:
  assumes linked: "perm_linked (se_instance env) accounts st" and wf: "accounts_wf (se_instance env) accounts" "b \<in> set accounts"
    and run: "sync_single_account env b remote st = Inr (st', outcome)" and "no_forbidden (remote_permissions_of remote)"
  shows "perm_linked (se_instance env) accounts st' \<and> settled env b (remote_permissions_of remote) st'
    \<and> (\<forall>a permissions. a \<in> set accounts \<longrightarrow> a \<noteq> b \<longrightarrow> settled env a permissions st \<longrightarrow> settled env a permissions st')"
proof (cases "find_permission_record env st b")
  case (Inl e)
  with run show ?thesis by (simp add: sync_single_account_def)
next
  case (Inr found)
  show ?thesis
  proof (cases found)
    case (Some row)
    with Inr run obtain row' where st': "ps_rows st' = ps_rows (write_permission row' st)" "ps_next st' = ps_next st" "same_row row row'"
      and step: "in_step env row' (remote_permissions_of remote)"
      using process_existing_in_step [OF _ assms(5)] by (fastforce simp: sync_single_account_def)
    from Inr Some have found: "find_permission_record env st b = Inr (Some row)" by simp
    note w = write_settles [OF linked wf found st']
    show ?thesis using w step unfolding settled_def by blast
  next
    case None
    with Inr run obtain row' where st': "ps_rows st' = ps_rows st @ [row']" "ps_next st' = ps_next st + 1"
        "same_row (new_permission env b (ps_next st)) row'"
      and step: "in_step env row' (remote_permissions_of remote)"
      using process_new_in_step [OF _ assms(5)] by (fastforce simp: sync_single_account_def)
    from Inr None have found: "find_permission_record env st b = Inr None" by simp
    note w = append_settles [OF linked wf found st']
    show ?thesis using w step unfolding settled_def by blast
  qed
qed

section \<open>A run\<close>

definition remote_map :: "sync_env \<Rightarrow> remote_permissions list \<Rightarrow> (owner_key \<times> remote_permissions) list" where
  "remote_map env remotes = fold (\<lambda>r. AList.update (owner_key_from_remote (se_instance env) r) r) remotes []"

lemma remote_map_range: "map_of (remote_map env remotes) k = Some r \<Longrightarrow> r \<in> set remotes"
proof -
  have "snd ` set (fold (\<lambda>r. AList.update (key r) r) rs d) \<subseteq> set rs \<union> snd ` set d"
    for rs and d :: "(owner_key \<times> remote_permissions) list" and key
  proof (induction rs arbitrary: d)
    case (Cons r rs)
    have "snd ` set (AList.update (key r) r d) \<subseteq> insert r (snd ` set d)"
      using image_mono [OF set_update_subset [of "key r" r d], of snd] by simp
    with Cons.IH [of "AList.update (key r) r d"] show ?case by (simp only: fold_simps list.set) blast
  qed simp
  from this [of "owner_key_from_remote (se_instance env)" remotes "[]"]
  show "map_of (remote_map env remotes) k = Some r \<Longrightarrow> r \<in> set remotes"
    unfolding remote_map_def by (auto dest!: map_of_SomeD)
qed

text \<open>Every account the server reports is settled.\<close>

definition all_settled :: "sync_env \<Rightarrow> (owner_key \<times> remote_permissions) list \<Rightarrow> account_row set \<Rightarrow> perm_store \<Rightarrow> bool" where
  "all_settled env rm accounts st = (\<forall>a \<in> accounts. \<forall>remote.
     map_of rm (owner_key_from_account (se_instance env) a) = Some remote \<longrightarrow> settled env a (remote_permissions_of remote) st)"

lemma sync_accounts_settles:
  assumes "sync_accounts env rm todo l = Inr l'" "perm_linked (se_instance env) accounts (pl_store l)"
    and "accounts_wf (se_instance env) accounts" "set todo \<subseteq> set accounts" "done \<subseteq> set accounts" "distinct todo" "done \<inter> set todo = {}"
    and "\<And>k r. map_of rm k = Some r \<Longrightarrow> no_forbidden (remote_permissions_of r)"
    and "all_settled env rm done (pl_store l)"
  shows "perm_linked (se_instance env) accounts (pl_store l') \<and> all_settled env rm (done \<union> set todo) (pl_store l')"
  using assms
proof (induction todo arbitrary: l "done")
  case (Cons b todo)
  obtain l1 where l1: "sync_step env rm b l = Inr l1" and rest: "sync_accounts env rm todo l1 = Inr l'"
    using Cons.prems(1) by (auto split: sum.splits)
  have inv: "perm_linked (se_instance env) accounts (pl_store l1) \<and> all_settled env rm (insert b done) (pl_store l1)"
  proof (cases "map_of rm (owner_key_from_account (se_instance env) b)")
    case None
    with l1 Cons.prems(2,9) show ?thesis by (auto simp: sync_step_def all_settled_def)
  next
    case (Some remote)
    then obtain outcome where run: "sync_single_account env b remote (pl_store l) = Inr (pl_store l1, outcome)"
      using l1 by (auto simp: sync_step_def split: sum.splits)
    have "b \<in> set accounts" "b \<notin> done" using Cons.prems by auto
    note s = single_settles [OF Cons.prems(2,3) this(1) run Cons.prems(8) [OF Some]]
    have "settled env a (remote_permissions_of r) (pl_store l1)"
      if a: "a \<in> insert b done" "map_of rm (owner_key_from_account (se_instance env) a) = Some r" for a r
    proof (cases "a = b")
      case True
      with a(2) Some s show ?thesis by simp
    next
      case False
      with a Cons.prems(5,9) have "a \<in> set accounts" "settled env a (remote_permissions_of r) (pl_store l)"
        by (auto simp: all_settled_def)
      with s False show ?thesis by blast
    qed
    with s show ?thesis by (simp add: all_settled_def)
  qed
  have "insert b done \<subseteq> set accounts" "insert b done \<inter> set todo = {}" using Cons.prems by auto
  with Cons.IH [OF rest _ Cons.prems(3) _ this(1) _ this(2) Cons.prems(8)] inv Cons.prems show ?case by simp
qed simp

lemma synchronize_settles:
  assumes "synchronize_permissions env remotes accounts st = (st', res)" "\<forall>e. res \<noteq> Perm_aborted e"
    and "accounts_wf (se_instance env) accounts" "perm_linked (se_instance env) accounts st"
    and "\<forall>r \<in> set remotes. no_forbidden (remote_permissions_of r)"
  shows "perm_linked (se_instance env) accounts st' \<and> all_settled env (remote_map env remotes) (set accounts) st' \<and> owner_unique (ps_rows st')"
proof -
  obtain l where l: "sync_accounts env (remote_map env remotes) accounts
      \<lparr>pl_store = st, pl_created = 0, pl_updated = 0, pl_skipped = 0, pl_errors = []\<rparr> = Inr l"
    and st': "st' = pl_store l" "owner_unique (ps_rows (pl_store l))"
    using assms(1,2) by (auto simp: synchronize_permissions_def remote_map_def Let_def split: sum.splits if_splits)
  have "distinct accounts" using assms(3) by (simp add: accounts_wf_def distinct_map)
  moreover have "\<And>k r. map_of (remote_map env remotes) k = Some r \<Longrightarrow> no_forbidden (remote_permissions_of r)"
    using assms(5) remote_map_range by blast
  ultimately show ?thesis
    using sync_accounts_settles [OF l _ assms(3) subset_refl, of "{}"] assms(4) st' by (simp add: all_settled_def)
qed

section \<open>The second run\<close>

text \<open>A later reading of the clock matters to nothing but the expiry dates of PostgreSQL.\<close>

definition clock_free :: "sync_env \<Rightarrow> int \<Rightarrow> bool" where
  "clock_free env t = (t = se_now env \<or> lower (ai_db_type (se_instance env)) \<noteq> POSTGRESQL)"

definition unsynced :: "permission_row \<Rightarrow> permission_row" where
  "unsynced r = r\<lparr>pr_synced := 0\<rparr>"

lemma later_env: "se_instance (env\<lparr>se_now := t\<rparr>) = se_instance env" "se_container (env\<lparr>se_now := t\<rparr>) = se_container env"
  by simp_all

lemma in_step_later:
  assumes "in_step env row permissions" "clock_free env t" "pr_db_type row = Some (ai_db_type (se_instance env))"
  shows "in_step (env\<lparr>se_now := t\<rparr>) row permissions"
proof -
  have "collect_capabilities f t (str_of_db_type (pr_db_type row)) = collect_capabilities f (se_now env) (str_of_db_type (pr_db_type row))" for f
  proof (cases "t = se_now env")
    case False
    with assms(2,3) have "str_of_db_type (pr_db_type row) \<noteq> POSTGRESQL" by (simp add: clock_free_def str_of_db_type_def)
    then show ?thesis by (auto simp: fun_eq_iff collect_capabilities_def Let_def split: prod.split)
  qed simp
  then have facts: "row_facts (env\<lparr>se_now := t\<rparr>) row = row_facts env row"
    by (simp add: fun_eq_iff row_facts_def build_permission_facts_def)
  have "calculate_diff (env\<lparr>se_now := t\<rparr>) row permissions = calculate_diff env row permissions"
    unfolding calculate_diff_def facts later_env ..
  moreover have "fresh_facts (env\<lparr>se_now := t\<rparr>) row permissions = fresh_facts env row permissions"
    unfolding fresh_facts_def facts ..
  ultimately show ?thesis using assms(1) by (simp add: in_step_def)
qed

lemma all_settled_later:
  assumes "all_settled env rm (set accounts) st" "clock_free env t"
    and "perm_linked (se_instance env) accounts st" "accounts_wf (se_instance env) accounts"
  shows "all_settled (env\<lparr>se_now := t\<rparr>) rm (set accounts) st"
proof -
  have "settled (env\<lparr>se_now := t\<rparr>) a permissions st" if a: "a \<in> set accounts" and s: "settled env a permissions st" for a permissions
  proof -
    obtain r where r: "find_permission_record env st a = Inr (Some r)" "in_step env r permissions"
      using s by (auto simp: settled_def)
    have "pr_db_type r = Some (ai_db_type (se_instance env))"
      using find_record_cases [OF r(1) assms(3) a] a assms(4)
      by (auto simp: accounts_wf_def account_ident_def ident_def split: prod.splits)
    moreover have "find_permission_record (env\<lparr>se_now := t\<rparr>) st a = find_permission_record env st a"
      unfolding find_permission_record_def later_env ..
    ultimately show ?thesis using in_step_later [OF r(2) assms(2)] r(1) by (simp add: settled_def)
  qed
  with assms(1) show ?thesis by (auto simp: all_settled_def)
qed

text \<open>A settled account is skipped; nothing but the time of the synchronisation changes.\<close>

lemma settled_single:
  assumes "settled env b (remote_permissions_of remote) st" "perm_linked (se_instance env) accounts st"
    and "accounts_wf (se_instance env) accounts" "b \<in> set accounts"
  obtains st' where "sync_single_account env b remote st = Inr (st', \<lparr>so_created = 0, so_updated = 0, so_skipped = 1, so_error = None\<rparr>)"
    "perm_linked (se_instance env) accounts st'" "map unsynced (ps_rows st') = map unsynced (ps_rows st)"
    "ps_next st' = ps_next st" "ps_logs st' = ps_logs st" "\<And>rm A. A \<subseteq> set accounts \<Longrightarrow> all_settled env rm A st \<Longrightarrow> all_settled env rm A st'"
proof -
  obtain r where r: "find_permission_record env st b = Inr (Some r)" "in_step env r (remote_permissions_of remote)"
    using assms(1) by (auto simp: settled_def)
  let ?r = "mark_synced env r" and ?st = "write_permission (mark_synced env r) st"
  have row: "r \<in> set (ps_rows st)" using find_record_cases [OF r(1) assms(2,4)] by simp
  have same: "same_row r ?r" by (simp add: same_row_def mark_synced_def ident_def)
  note w = write_settles [OF assms(2,3,4) r(1) _ _ same, of ?st]
  have keep: "in_step env ?r p = in_step env r p" for p
  proof -
    have e: "pr_snapshot ?r = pr_snapshot r" "pr_db_type ?r = pr_db_type r" "pr_facts ?r = pr_facts r"
      by (simp_all add: mark_synced_def)
    show ?thesis unfolding in_step_def calculate_diff_cong [OF e(1,2)] fresh_facts_cong [OF e(2)] e ..
  qed
  show ?thesis
  proof (rule that)
    show "sync_single_account env b remote st = Inr (?st, \<lparr>so_created = 0, so_updated = 0, so_skipped = 1, so_error = None\<rparr>)"
      using r by (auto simp: sync_single_account_def process_existing_permission_def in_step_def fresh_facts_def
        refresh_permission_facts_if_stale_def Let_def)
    show "perm_linked (se_instance env) accounts ?st" using w by (simp add: write_permission_def)
    have "unsynced (if pr_id q = pr_id ?r then ?r else q) = unsynced q" if "q \<in> set (ps_rows st)" for q
      using linked_row_eq [OF assms(2) that row] by (auto simp: unsynced_def mark_synced_def)
    then show "map unsynced (ps_rows ?st) = map unsynced (ps_rows st)" by (simp add: write_permission_def)
    show "ps_next ?st = ps_next st" "ps_logs ?st = ps_logs st" by (simp_all add: write_permission_def)
    show "all_settled env rm A ?st" if A: "A \<subseteq> set accounts" "all_settled env rm A st" for rm A
    proof -
      have "settled env a p ?st" if a: "a \<in> A" "settled env a p st" for a p
      proof (cases "a = b")
        case True
        with a(2) r w(2) keep show ?thesis by (auto simp: settled_def write_permission_def)
      next
        case False
        with a A(1) w(3) show ?thesis by (auto simp: settled_def write_permission_def)
      qed
      with A(2) show ?thesis by (auto simp: all_settled_def)
    qed
  qed
qed

lemma settled_accounts:
  assumes "all_settled env rm (set accounts) (pl_store l)" "perm_linked (se_instance env) accounts (pl_store l)"
    and "accounts_wf (se_instance env) accounts" "set todo \<subseteq> set accounts"
  shows "\<exists>st'. sync_accounts env rm todo l = Inr (l\<lparr>pl_store := st', pl_skipped := pl_skipped l + length todo\<rparr>)
    \<and> map unsynced (ps_rows st') = map unsynced (ps_rows (pl_store l)) \<and> ps_next st' = ps_next (pl_store l) \<and> ps_logs st' = ps_logs (pl_store l)"
  using assms
proof (induction todo arbitrary: l)
  case Nil
  then show ?case by (intro exI [of _ "pl_store l"]) simp
next
  case (Cons b todo)
  have b: "b \<in> set accounts" using Cons.prems by simp
  show ?case
  proof (cases "map_of rm (owner_key_from_account (se_instance env) b)")
    case None
    with Cons.IH [of "l\<lparr>pl_skipped := pl_skipped l + 1\<rparr>"] Cons.prems show ?thesis by (simp add: sync_step_def)
  next
    case (Some remote)
    with b Cons.prems(1) have "settled env b (remote_permissions_of remote) (pl_store l)" by (auto simp: all_settled_def)
    then obtain st1 where st1: "sync_single_account env b remote (pl_store l) = Inr (st1, \<lparr>so_created = 0, so_updated = 0, so_skipped = 1, so_error = None\<rparr>)"
      "perm_linked (se_instance env) accounts st1" "map unsynced (ps_rows st1) = map unsynced (ps_rows (pl_store l))"
      "ps_next st1 = ps_next (pl_store l)" "ps_logs st1 = ps_logs (pl_store l)" "all_settled env rm (set accounts) st1"
      using settled_single [OF _ Cons.prems(2,3) b] Cons.prems(1) by (metis subset_refl)
    let ?l = "l\<lparr>pl_store := st1, pl_skipped := pl_skipped l + 1\<rparr>"
    have "sync_step env rm b l = Inr ?l" using Some st1(1) by (simp add: sync_step_def)
    then have step: "sync_accounts env rm (b # todo) l = sync_accounts env rm todo ?l" by simp
    have "\<exists>st'. sync_accounts env rm todo ?l = Inr (?l\<lparr>pl_store := st', pl_skipped := pl_skipped ?l + length todo\<rparr>)
        \<and> map unsynced (ps_rows st') = map unsynced (ps_rows st1) \<and> ps_next st' = ps_next st1 \<and> ps_logs st' = ps_logs st1"
      using Cons.IH [of ?l] Cons.prems(3,4) st1(2,6) by simp
    then show ?thesis unfolding step using st1(3-5) by simp
  qed
qed

lemma unique_unsynced:
  assumes "map unsynced rows' = map unsynced rows"
  shows "owner_unique rows' = owner_unique rows"
proof -
  have "owner_unique rows = owner_unique (map unsynced rows)" for rows
    by (simp add: owner_unique_def filter_map o_def unsynced_def)
  with assms show ?thesis by metis
qed

text \<open>C4: When a run of the permission synchronisation has ended without an aborting exception, a
  second run on the same report, at any later time, creates and updates nothing, skips every account,
  writes no change log and changes nothing in the rows but the time of the synchronisation. The
  report has no forbidden type-specific key, no two accounts are the same, rows linked to an account
  carry its identity, and for PostgreSQL the clock reads the same.\<close>

theorem second_permission_sync_is_noop:
  assumes "accounts_wf (se_instance env) accounts \<and> perm_linked (se_instance env) accounts st \<and> clock_free env t
      \<and> (\<forall>r \<in> set remotes. no_forbidden (remote_permissions_of r))"
    and "synchronize_permissions env remotes accounts st = (st', res) \<and> (\<forall>e. res \<noteq> Perm_aborted e)"
  shows "\<exists>st'' s. synchronize_permissions (env\<lparr>se_now := t\<rparr>) remotes accounts st' = (st'', Perm_done s)
    \<and> pm_created s = 0 \<and> pm_updated s = 0 \<and> pm_skipped s = length accounts \<and> pm_status s = ''completed''
    \<and> map unsynced (ps_rows st'') = map unsynced (ps_rows st') \<and> ps_logs st'' = ps_logs st'"
proof -
  let ?env = "env\<lparr>se_now := t\<rparr>" and ?l = "\<lparr>pl_store = st', pl_created = 0, pl_updated = 0, pl_skipped = 0, pl_errors = []\<rparr>"
  have first: "perm_linked (se_instance env) accounts st'" "all_settled env (remote_map env remotes) (set accounts) st'"
    "owner_unique (ps_rows st')"
    using synchronize_settles [of env remotes accounts st st' res] assms by simp_all
  have rm: "fold (\<lambda>r. AList.update (owner_key_from_remote (se_instance env) r) r) remotes [] = remote_map env remotes"
    by (simp add: remote_map_def)
  have "all_settled ?env (remote_map env remotes) (set accounts) (pl_store ?l)"
    using all_settled_later [OF first(2) _ first(1)] assms(1) by simp
  with settled_accounts [OF this, of accounts] first(1) assms(1) obtain st'' where run:
    "sync_accounts ?env (remote_map env remotes) accounts ?l = Inr (?l\<lparr>pl_store := st'', pl_skipped := length accounts\<rparr>)"
    and same: "map unsynced (ps_rows st'') = map unsynced (ps_rows st')" "ps_logs st'' = ps_logs st'"
    by auto
  have "owner_unique (ps_rows st'')"
    using first(3) unique_unsynced [OF same(1)] by simp
  with run same show ?thesis
    by (simp add: synchronize_permissions_def rm finalize_summary_def)
qed

definition repeat_env :: sync_env where
  "repeat_env = \<lparr>se_now = 5, se_fromiso = \<lambda>_. None, se_container = \<lambda>_. [], se_log_error = \<lambda>_. None,
     se_instance = \<lparr>ai_id = 1, ai_db_type = ''mysql''\<rparr>, se_session = None\<rparr>"

definition repeat_account :: account_row where
  "repeat_account = \<lparr>ar_id = 3, ar_instance = 1, ar_username = ''app'', ar_db_type = ''mysql'', ar_owner_type = ''instance'',
     ar_owner_id = Some 1, ar_cluster = None, ar_group = None, ar_active = True, ar_deleted_at = None, ar_updated_at = 0\<rparr>"

definition repeat_remote :: remote_permissions where
  "repeat_remote = \<lparr>ra_username = ''app'', ra_db_type = None, ra_is_active = None, ra_owner_type = None, ra_owner_id = None,
     ra_cluster = None, ra_group = None, rp_permissions = Some [(''mysql_global_privileges'', PList [PStr ''SELECT''])]\<rparr>"

lemma repeat_keys:
  "owner_key_from_remote (se_instance repeat_env) repeat_remote = (''instance'', 1, ''mysql'', ''app'')"
  "owner_key_from_account (se_instance repeat_env) repeat_account = (''instance'', 1, ''mysql'', ''app'')"
  by code_simp+

lemma repeat_first:
  obtains row log where "synchronize_permissions repeat_env [repeat_remote] [repeat_account] \<lparr>ps_rows = [], ps_next = 0, ps_logs = []\<rparr>
    = (\<lparr>ps_rows = [row], ps_next = 1, ps_logs = [log]\<rparr>, Perm_done (finalize_summary
        \<lparr>pl_store = \<lparr>ps_rows = [row], ps_next = 1, ps_logs = [log]\<rparr>, pl_created = 1, pl_updated = 0, pl_skipped = 0, pl_errors = []\<rparr>))"
proof -
  let ?p = "remote_permissions_of repeat_remote" and ?st = "\<lparr>ps_rows = [], ps_next = 0, ps_logs = []\<rparr>"
  have ts: "\<not> dhas ?p ''type_specific''" by code_simp
  obtain row where row: "apply_permissions repeat_env (new_permission repeat_env repeat_account 0) ?p = Inr row"
    using ts by (simp add: apply_permissions_def Let_def)
  have err: "se_log_error repeat_env l = None" for l by (simp add: repeat_env_def)
  obtain log where "process_new_permission repeat_env repeat_account ?p ?st =
      Inr (\<lparr>ps_rows = [row], ps_next = 1, ps_logs = [log]\<rparr>, \<lparr>so_created = 1, so_updated = 0, so_skipped = 0, so_error = None\<rparr>)"
    using row by (cases "build_initial_diff_payload repeat_env row ?p") (simp add: process_new_permission_def log_change_def Let_def err)
  moreover have "find_permission_record repeat_env ?st repeat_account = Inr None"
    by (simp add: find_permission_record_def get_permission_by_instance_account_id_def get_permission_by_owner_username_def split: prod.split)
  ultimately have single: "sync_single_account repeat_env repeat_account repeat_remote ?st =
      Inr (\<lparr>ps_rows = [row], ps_next = 1, ps_logs = [log]\<rparr>, \<lparr>so_created = 1, so_updated = 0, so_skipped = 0, so_error = None\<rparr>)"
    by (simp add: sync_single_account_def)
  have "owner_unique [row]" by (simp add: owner_unique_def)
  with single show ?thesis
    by (intro that [of row log]) (simp add: synchronize_permissions_def Let_def sync_step_def repeat_keys)
qed

lemma second_permission_sync_is_noop_witness:
  "\<exists>st' res st'' s. synchronize_permissions repeat_env [repeat_remote] [repeat_account] \<lparr>ps_rows = [], ps_next = 0, ps_logs = []\<rparr> = (st', Perm_done res)
    \<and> pm_created res = 1 \<and> length (ps_rows st') = 1
    \<and> synchronize_permissions (repeat_env\<lparr>se_now := 99\<rparr>) [repeat_remote] [repeat_account] st' = (st'', Perm_done s)
    \<and> pm_created s = 0 \<and> pm_updated s = 0 \<and> pm_skipped s = 1"
proof -
  let ?st = "\<lparr>ps_rows = [], ps_next = 0, ps_logs = []\<rparr>"
  obtain row log where run: "synchronize_permissions repeat_env [repeat_remote] [repeat_account] ?st
    = (\<lparr>ps_rows = [row], ps_next = 1, ps_logs = [log]\<rparr>, Perm_done (finalize_summary
        \<lparr>pl_store = \<lparr>ps_rows = [row], ps_next = 1, ps_logs = [log]\<rparr>, pl_created = 1, pl_updated = 0, pl_skipped = 0, pl_errors = []\<rparr>))"
    by (rule repeat_first)
  have "accounts_wf (se_instance repeat_env) [repeat_account]" by code_simp
  moreover have "perm_linked (se_instance repeat_env) [repeat_account] ?st" by (simp add: perm_linked_def)
  moreover have "clock_free repeat_env 99" by code_simp
  moreover have "\<forall>r \<in> set [repeat_remote]. no_forbidden (remote_permissions_of r)" by code_simp
  ultimately show ?thesis
    using second_permission_sync_is_noop [of repeat_env "[repeat_account]" ?st 99 "[repeat_remote]"] run
    by (fastforce simp: finalize_summary_def)
qed

end
