(* ===== verification/Permission_Errors.thy ===== *)
theory Permission_Errors
  imports Permission_Sync
begin

text \<open>
  The keys that the type-specific fields of a report must not have. A snapshot built from the
  report names them among its errors; \<^verbatim>\<open>_apply_permissions\<close> of
  \<^verbatim>\<open>app/services/accounts_sync/permission_manager.py\<close> removes them first, so the
  snapshot it writes names none.
\<close>

text \<open>The two snapshots have the same parts but for the errors.\<close>

definition snapshot_of :: "pdict \<Rightarrow> pdict \<Rightarrow> pdict \<Rightarrow> string list \<Rightarrow> pdict" where
  "snapshot_of categories type_specific extra errors =
    [(''version'', PInt 4), (''categories'', PDict categories), (''type_specific'', PDict type_specific),
     (''extra'', PDict extra), (''errors'', str_list errors), (''meta'', PDict [])]"

lemma dget_snapshot_of [simp]:
  "dget (snapshot_of c ts x es) ''version'' = PInt 4"
  "dget (snapshot_of c ts x es) ''categories'' = PDict c"
  "dget (snapshot_of c ts x es) ''type_specific'' = PDict ts"
  "dget (snapshot_of c ts x es) ''errors'' = str_list es"
  by (simp_all add: snapshot_of_def dget_def)

lemma snapshot_view_of: "snapshot_view (PDict (snapshot_of c ts x es)) = Inr (snapshot_of c ts x es)"
  by (simp add: snapshot_view_def)

lemma filter_dput: "\<not> P k \<Longrightarrow> filter (\<lambda>kv. P (fst kv)) (dput k v d) = filter (\<lambda>kv. P (fst kv)) d"
  by (induction d) auto

lemma sanitized_snapshots:
  assumes "sanitize_type_specific (dget permissions ''type_specific'') = (Some d, removed)"
  obtains c ts x where
    "build_permission_snapshot t permissions = snapshot_of c ts x (map (\<lambda>item. ''TYPE_SPECIFIC_FORBIDDEN_FIELD:'' @ item) removed)"
    "build_permission_snapshot t (dput ''type_specific'' (PDict d) permissions) = snapshot_of c ts x []"
proof -
  have "sanitize_type_specific (PDict d) = (Some d, [])"
    using assms by (auto simp: sanitize_type_specific_def dkeys_def filter_empty_conv split: pv.splits)
  moreover have keep: "filter (\<lambda>kv. fst kv \<noteq> ''type_specific'' \<and> Q (fst kv)) (dput ''type_specific'' (PDict d) permissions)
      = filter (\<lambda>kv. fst kv \<noteq> ''type_specific'' \<and> Q (fst kv)) permissions" for Q
    by (rule filter_dput) simp
  ultimately show ?thesis
    using assms keep [of "\<lambda>k. k \<in> set permission_snapshot_category_keys"] keep [of "\<lambda>k. k \<notin> set permission_snapshot_category_keys"]
    by (intro that) (simp_all add: build_permission_snapshot_def Let_def snapshot_of_def dget_dput)
qed

text \<open>The facts of two such snapshots have the same capabilities, and differ in their errors.\<close>

lemma facts_of_snapshots:
  fixes fromiso now t c ts x
  defines "facts es \<equiv> build_permission_facts fromiso now t (PDict (snapshot_of c ts x es))"
  shows "dget (facts es) ''capabilities'' = dget (facts []) ''capabilities''"
    and "\<exists>rest. dget (facts es) ''errors'' = str_list (filter (\<lambda>e. e \<noteq> []) es @ rest) \<and> dget (facts []) ''errors'' = str_list rest"
proof -
  have parse: "parse_permission_snapshot_categories_v4 (PDict (snapshot_of c ts x es)) = parse_permission_snapshot_categories_v4 (PDict (snapshot_of c ts x []))"
    "parse_permission_snapshot_type_specific_v4 (PDict (snapshot_of c ts x es)) = parse_permission_snapshot_type_specific_v4 (PDict (snapshot_of c ts x []))"
    for es
    by (simp_all add: parse_permission_snapshot_categories_v4_def parse_permission_snapshot_type_specific_v4_def)
  have "str_items (map PStr es) = filter (\<lambda>e. e \<noteq> []) es" for es by (induction es) auto
  then have errors: "extract_snapshot_errors (PDict (snapshot_of c ts x es)) = filter (\<lambda>e. e \<noteq> []) es" for es
    by (simp add: extract_snapshot_errors_def str_list_def)
  show "dget (facts es) ''capabilities'' = dget (facts []) ''capabilities''"
    unfolding facts_def build_permission_facts_def Let_def parse [of es] by (simp add: dget_def split: prod.split)
  show "\<exists>rest. dget (facts es) ''errors'' = str_list (filter (\<lambda>e. e \<noteq> []) es @ rest) \<and> dget (facts []) ''errors'' = str_list rest"
  proof (intro exI conjI)
    let ?pc = "parse_permission_snapshot_categories_v4 (PDict (snapshot_of c ts x []))"
    let ?rest = "(if normalize_permission_snapshot_categories_v4 (str_of_db_type t) (contract_data ?pc) = []
        then contract_errors ?pc @ [''PERMISSION_DATA_MISSING''] else contract_errors ?pc)
      @ contract_errors (parse_permission_snapshot_type_specific_v4 (PDict (snapshot_of c ts x [])))"
    show "dget (facts es) ''errors'' = str_list (filter (\<lambda>e. e \<noteq> []) es @ ?rest)"
      unfolding facts_def build_permission_facts_def Let_def parse [of es] errors by (simp add: dget_def split: prod.split)
    show "dget (facts []) ''errors'' = str_list ?rest"
      unfolding facts_def build_permission_facts_def Let_def errors by (simp add: dget_def split: prod.split)
  qed
qed

lemma py_eq_get:
  assumes "py_eq (PDict d) (PDict e)" "dget d k = PList xs" "dget e k = PList ys"
  shows "length xs = length ys"
proof -
  have x: "map_of d k = Some (PList xs)" and y: "map_of e k = Some (PList ys)"
    using map_of_dget [OF assms(2)] map_of_dget [OF assms(3)] by simp_all
  have "k \<in> set (map fst d)" using map_of_SomeD [OF x] by force
  moreover have "\<forall>k \<in> set (map fst d). case (map_of d k, map_of e k) of (Some x, Some y) \<Rightarrow> py_eq x y | _ \<Rightarrow> False"
    using assms(1) by (simp only: py_eq.simps [of "PDict d" "PDict e"] prod.case pv.case) blast
  ultimately have "py_eq (PList xs) (PList ys)" using x y by fastforce
  then have "list_all2 py_eq xs ys" by (subst (asm) py_eq.simps) simp
  then show ?thesis by (rule list_all2_lengthD)
qed

text \<open>When the type-specific fields of a report have a forbidden key, the snapshot of the report
  names it among its errors, but the snapshot a synchronisation writes has no error. The next
  comparison with the same report then finds no difference and yet stale facts: the account counts as
  updated and no log is written.\<close>

theorem forbidden_keys_are_not_recorded:
  assumes "dget permissions ''type_specific'' = PDict type_specific \<and> set (dkeys type_specific) \<inter> set type_specific_forbidden_keys \<noteq> {}"
    and "apply_permissions env row permissions = Inr row'"
  shows "dget (build_permission_snapshot (pr_db_type row) permissions) ''errors'' \<noteq> PList []
    \<and> (\<exists>snapshot. pr_snapshot row' = PDict snapshot \<and> dget snapshot ''errors'' = PList [])
    \<and> (\<exists>diff. calculate_diff env row' permissions = Inr diff \<and> \<not> dp_changed diff)
    \<and> fst (refresh_permission_facts_if_stale env row' permissions)"
proof -
  let ?t = "pr_db_type row"
  obtain d removed where san: "sanitize_type_specific (dget permissions ''type_specific'') = (Some d, removed)" and "removed \<noteq> []"
    using assms(1) by (auto simp: sanitize_type_specific_def filter_empty_conv simp flip: set_empty)
  obtain c ts x where built: "build_permission_snapshot ?t permissions =
      snapshot_of c ts x (map (\<lambda>item. ''TYPE_SPECIFIC_FORBIDDEN_FIELD:'' @ item) removed)"
    and clean: "build_permission_snapshot ?t (dput ''type_specific'' (PDict d) permissions) = snapshot_of c ts x []"
    by (rule sanitized_snapshots [OF san])
  let ?es = "map (\<lambda>item. ''TYPE_SPECIFIC_FORBIDDEN_FIELD:'' @ item) removed"
  have "dhas permissions ''type_specific''"
    using assms(1) by (auto simp: dhas_def dget_def split: option.splits)
  with assms(2) san clean have row': "pr_snapshot row' = PDict (snapshot_of c ts x [])" "pr_db_type row' = ?t"
    "pr_facts row' = PDict (row_facts env row' (snapshot_of c ts x []))"
    by (auto simp: apply_permissions_def Let_def row_facts_def split: sum.splits)
  note facts = facts_of_snapshots [of "se_fromiso env" "se_now env" ?t c ts x ?es, folded row'(2), folded row_facts_def]
  have "\<exists>diff. calculate_diff env row' permissions = Inr diff \<and> \<not> dp_changed diff"
    unfolding calculate_diff_def row' built snapshot_view_of
    using facts(1) by (simp add: Let_def determine_change_type_def row'(2) facts_has_capability_def
      collect_privilege_changes_def collect_other_changes_def entry_list_def)
  moreover have "\<not> py_eq (pr_facts row') (PDict (row_facts env row' (snapshot_of c ts x ?es)))"
  proof
    assume "py_eq (pr_facts row') (PDict (row_facts env row' (snapshot_of c ts x ?es)))"
    moreover obtain rest where "dget (row_facts env row' (snapshot_of c ts x ?es)) ''errors'' = str_list (filter (\<lambda>e. e \<noteq> []) ?es @ rest)"
      "dget (row_facts env row' (snapshot_of c ts x [])) ''errors'' = str_list rest"
      using facts(2) by blast
    ultimately have "length (filter (\<lambda>e. e \<noteq> []) ?es) = 0"
      using py_eq_get [of "row_facts env row' (snapshot_of c ts x [])" _ "''errors''"] unfolding row'(3) by (fastforce simp: str_list_def)
    with \<open>removed \<noteq> []\<close> show False by (simp add: filter_empty_conv)
  qed
  then have "fst (refresh_permission_facts_if_stale env row' permissions)"
    by (simp add: refresh_permission_facts_if_stale_def row'(2) built Let_def)
  ultimately show ?thesis using row'(1) built \<open>removed \<noteq> []\<close> by (simp add: str_list_def)
qed

definition forbidden_report :: pdict where
  "forbidden_report = [(''type_specific'', PDict [(''version'', PInt 1), (''roles'', PList [])])]"

definition forbidden_env :: sync_env where
  "forbidden_env = \<lparr>se_now = 5, se_fromiso = \<lambda>_. None, se_container = \<lambda>_. [], se_log_error = \<lambda>_. None,
     se_instance = \<lparr>ai_id = 1, ai_db_type = ''mysql''\<rparr>, se_session = None\<rparr>"

lemma forbidden_keys_are_not_recorded_witness:
  "\<forall>row. \<exists>row'. apply_permissions forbidden_env row forbidden_report = Inr row'
    \<and> fst (refresh_permission_facts_if_stale forbidden_env row' forbidden_report)"
proof
  fix row
  let ?e = "[(''version'', PInt 1), (''roles'', PList [])]"
  have e: "dget forbidden_report ''type_specific'' = PDict ?e" by (simp add: forbidden_report_def dget_def)
  have "set (dkeys ?e) \<inter> set type_specific_forbidden_keys \<noteq> {}" by (simp add: dkeys_def type_specific_forbidden_keys_def)
  moreover have "dhas forbidden_report ''type_specific''" by code_simp
  moreover have "normalize_type_specific_v1 (filter (\<lambda>kv. fst kv \<notin> set type_specific_forbidden_keys) ?e) = Inr [(''version'', PInt 1)]"
    by code_simp
  ultimately obtain row' where "apply_permissions forbidden_env row forbidden_report = Inr row'"
    by (simp add: apply_permissions_def Let_def e sanitize_type_specific_def)
  with forbidden_keys_are_not_recorded [of forbidden_report ?e forbidden_env row row'] e
  show "\<exists>row'. apply_permissions forbidden_env row forbidden_report = Inr row'
      \<and> fst (refresh_permission_facts_if_stale forbidden_env row' forbidden_report)"
    by (auto simp: dkeys_def type_specific_forbidden_keys_def)
qed

end
