(* ===== verification/Classification_Task.thy ===== *)
theory Classification_Task
  imports Dsl_V4 Task_Runs Account_Scope Permission_Sync
begin

text \<open>
  The task that classifies accounts: \<^verbatim>\<open>auto_classify_accounts\<close> of
  \<^verbatim>\<open>app/tasks/account_classification_auto_tasks.py\<close> over
  \<^verbatim>\<open>app/repositories/account_classification_repository.py\<close>. Every active rule is evaluated on
  the facts of every account of its database type; the matches are written as assignments, and the
  rules are the items of a task run.

  The store is what is committed. An operation that fails leaves what the last commit left. Between
  two rules other sessions may change the tables of the runs (they cancel a run, say):
  \<^verbatim>\<open>te_other\<close> is what they commit before a rule. \<^verbatim>\<open>te_upsert_fails\<close> says whether the
  database refuses to write assignments, \<^verbatim>\<open>te_loads\<close> is \<^verbatim>\<open>json.loads\<close>, with
  \<^verbatim>\<open>None\<close> where it raises, and \<^verbatim>\<open>te_ms\<close> is what the clock measures.
\<close>

section \<open>Tables\<close>

record class_rule =
  cr_id :: int
  cr_classification :: int
  cr_db_type :: "string option"
  cr_name :: string
  cr_expression :: string
  cr_active :: bool
  cr_created_at :: int

record instance_state =
  ci_id :: int
  ci_active :: bool
  ci_deleted_at :: "int option"

record class_assignment =
  ag_account :: nat
  ag_class :: int
  ag_rule :: "int option"
  ag_type :: string
  ag_active :: bool
  ag_created_at :: int
  ag_updated_at :: int

text \<open>The tables the task reads, and those it writes.\<close>

record class_tables =
  ct_rules :: "class_rule list"
  ct_permissions :: "permission_row list"
  ct_instances :: "instance_state list"
  ct_accounts :: "account_row list"

record class_store =
  cs_runs :: run_db
  cs_assignments :: "class_assignment list"

record task_env =
  te_model :: summary_model
  te_loads :: "string \<Rightarrow> pv option"
  te_now :: int
  te_ms :: "int \<Rightarrow> int"
  te_total_ms :: int
  te_fresh :: string
  te_upsert_fails :: "class_assignment list \<Rightarrow> bool"
  te_other :: "int \<Rightarrow> run_db \<Rightarrow> run_db"

datatype class_error =
    Scope_error scope_error
  | Run_error run_error
  | Summary_error
  | Rule_json int string
  | Rule_not_v4
  | Rule_invalid "dsl_issue list"
  | Facts_missing nat

section \<open>Texts of errors\<close>

text \<open>The messages of the validator.\<close>

fun issue_message :: "dsl_issue \<Rightarrow> string" where
  "issue_message Rule_not_object = (''rule_expression '' @ utf8 [0xE5, 0xBF, 0x85, 0xE9, 0xA1, 0xBB, 0xE4, 0xB8, 0xBA, 0xE5, 0xAF, 0xB9, 0xE8, 0xB1, 0xA1])"
| "issue_message Version_mismatch = (''rule_expression.version '' @ utf8 [0xE5, 0xBF, 0x85, 0xE9, 0xA1, 0xBB, 0xE4, 0xB8, 0xBA] @ '' 4'')"
| "issue_message Expr_not_object = (''rule_expression.expr '' @ utf8 [0xE5, 0xBF, 0x85, 0xE9, 0xA1, 0xBB, 0xE4, 0xB8, 0xBA, 0xE5, 0xAF, 0xB9, 0xE8, 0xB1, 0xA1])"
| "issue_message (Node_not_object p) = (p @ '' '' @ utf8 [0xE5, 0xBF, 0x85, 0xE9, 0xA1, 0xBB, 0xE4, 0xB8, 0xBA, 0xE5, 0xAF, 0xB9, 0xE8, 0xB1, 0xA1])"
| "issue_message (Op_not_string p) = (p @ ''.op '' @ utf8 [0xE5, 0xBF, 0x85, 0xE9, 0xA1, 0xBB, 0xE4, 0xB8, 0xBA, 0xE5, 0xAD, 0x97, 0xE7, 0xAC, 0xA6, 0xE4, 0xB8, 0xB2])"
| "issue_message (Op_unsupported p v) = (p @ ''.op '' @ utf8 [0xE4, 0xB8, 0x8D, 0xE6, 0x94, 0xAF, 0xE6, 0x8C, 0x81] @ '': '' @ v)"
| "issue_message (Args_not_array p) = (p @ ''.args '' @ utf8 [0xE5, 0xBF, 0x85, 0xE9, 0xA1, 0xBB, 0xE4, 0xB8, 0xBA, 0xE6, 0x95, 0xB0, 0xE7, 0xBB, 0x84])"
| "issue_message (Not_arity p) = (p @ ''.args '' @ utf8 [0xE5, 0x9C, 0xA8] @ '' NOT '' @ utf8 [0xE6, 0x97, 0xB6, 0xE5, 0xBF, 0x85, 0xE9, 0xA1, 0xBB, 0xE4, 0xBB, 0x85, 0xE5, 0x8C, 0x85, 0xE5, 0x90, 0xAB] @ '' 1 '' @ utf8 [0xE4, 0xB8, 0xAA, 0xE5, 0xAD, 0x90, 0xE8, 0xA1, 0xA8, 0xE8, 0xBE, 0xBE, 0xE5, 0xBC, 0x8F])"
| "issue_message (Fn_not_string p) = (p @ ''.fn '' @ utf8 [0xE5, 0xBF, 0x85, 0xE9, 0xA1, 0xBB, 0xE4, 0xB8, 0xBA, 0xE5, 0xAD, 0x97, 0xE7, 0xAC, 0xA6, 0xE4, 0xB8, 0xB2])"
| "issue_message (Fn_args_not_object p) = (p @ ''.args '' @ utf8 [0xE5, 0xBF, 0x85, 0xE9, 0xA1, 0xBB, 0xE4, 0xB8, 0xBA, 0xE5, 0xAF, 0xB9, 0xE8, 0xB1, 0xA1])"
| "issue_message (Types_missing p) = (p @ ''.args.types '' @ utf8 [0xE7, 0xBC, 0xBA, 0xE5, 0xA4, 0xB1])"
| "issue_message (Types_invalid p) = (p @ ''.args.types '' @ utf8 [0xE5, 0xBF, 0x85, 0xE9, 0xA1, 0xBB, 0xE4, 0xB8, 0xBA, 0xE9, 0x9D, 0x9E, 0xE7, 0xA9, 0xBA, 0xE5, 0xAD, 0x97, 0xE7, 0xAC, 0xA6, 0xE4, 0xB8, 0xB2, 0xE6, 0x95, 0xB0, 0xE7, 0xBB, 0x84])"
| "issue_message (Name_invalid p) = (p @ ''.args.name '' @ utf8 [0xE5, 0xBF, 0x85, 0xE9, 0xA1, 0xBB, 0xE4, 0xB8, 0xBA, 0xE9, 0x9D, 0x9E, 0xE7, 0xA9, 0xBA, 0xE5, 0xAD, 0x97, 0xE7, 0xAC, 0xA6, 0xE4, 0xB8, 0xB2])"
| "issue_message (Scope_invalid p) = (p @ ''.args.scope '' @ utf8 [0xE5, 0xBF, 0x85, 0xE9, 0xA1, 0xBB, 0xE4, 0xB8, 0xBA, 0xE9, 0x9D, 0x9E, 0xE7, 0xA9, 0xBA, 0xE5, 0xAD, 0x97, 0xE7, 0xAC, 0xA6, 0xE4, 0xB8, 0xB2])"
| "issue_message (Scope_unsupported p v) = (p @ ''.args.scope '' @ utf8 [0xE4, 0xB8, 0x8D, 0xE6, 0x94, 0xAF, 0xE6, 0x8C, 0x81] @ '': '' @ v)"
| "issue_message (Database_invalid p) = (p @ ''.args.database '' @ utf8 [0xE5, 0xBF, 0x85, 0xE9, 0xA1, 0xBB, 0xE4, 0xB8, 0xBA, 0xE9, 0x9D, 0x9E, 0xE7, 0xA9, 0xBA, 0xE5, 0xAD, 0x97, 0xE7, 0xAC, 0xA6, 0xE4, 0xB8, 0xB2, 0xE6, 0x88, 0x96, 0xE7, 0x9C, 0x81, 0xE7, 0x95, 0xA5])"
| "issue_message (Unknown_function p v) = (p @ ''.fn '' @ utf8 [0xE6, 0x9C, 0xAA, 0xE7, 0x9F, 0xA5, 0xE5, 0x87, 0xBD, 0xE6, 0x95, 0xB0] @ '': '' @ v)"
| "issue_message (Neither_op_nor_fn p) = (p @ '' '' @ utf8 [0xE5, 0xBF, 0x85, 0xE9, 0xA1, 0xBB, 0xE5, 0x8C, 0x85, 0xE5, 0x90, 0xAB] @ '' op '' @ utf8 [0xE6, 0x88, 0x96] @ '' fn'')"

text \<open>\<^verbatim>\<open>str(exc)\<close> of what a rule can raise; the texts of other errors are not used.\<close>

fun class_error_text :: "class_error \<Rightarrow> string" where
  "class_error_text (Run_error Run_not_found) = (utf8 [0xE4, 0xBB, 0xBB, 0xE5, 0x8A, 0xA1, 0xE8, 0xBF, 0x90, 0xE8, 0xA1, 0x8C, 0xE4, 0xB8, 0x8D, 0xE5, 0xAD, 0x98, 0xE5, 0x9C, 0xA8])"
| "class_error_text (Run_error Item_not_found) = (utf8 [0xE4, 0xBB, 0xBB, 0xE5, 0x8A, 0xA1, 0xE5, 0xAD, 0x90, 0xE9, 0xA1, 0xB9, 0xE4, 0xB8, 0x8D, 0xE5, 0xAD, 0x98, 0xE5, 0x9C, 0xA8])"
| "class_error_text (Rule_json rule_id rule_name) = ''rule_expression JSON decode failed (rule_id='' @ show_int rule_id @ '', rule_name='' @ rule_name @ '')''"
| "class_error_text Rule_not_v4 = (''rule_expression '' @ utf8 [0xE4, 0xBB, 0x85, 0xE6, 0x94, 0xAF, 0xE6, 0x8C, 0x81] @ '' DSL v4'')"
| "class_error_text (Rule_invalid issues) = (''rule_expression '' @ utf8 [0xE9, 0x9D, 0x9E, 0xE6, 0xB3, 0x95] @ '': '') @ join ''; '' (map issue_message issues)"
| "class_error_text (Facts_missing i) = (''permission_facts '' @ utf8 [0xE7, 0xBC, 0xBA, 0xE5, 0xA4, 0xB1] @ '','' @ utf8 [0xE8, 0xAF, 0xB7, 0xE5, 0x85, 0x88, 0xE6, 0x89, 0xA7, 0xE8, 0xA1, 0x8C, 0xE8, 0xB4, 0xA6, 0xE6, 0x88, 0xB7, 0xE5, 0x90, 0x8C, 0xE6, 0xAD, 0xA5])"
| "class_error_text _ = []"

section \<open>The repository\<close>

definition fetch_active_rules :: "class_tables \<Rightarrow> class_rule list" where
  "fetch_active_rules t = sort_key cr_created_at (filter cr_active (ct_rules t))"

text \<open>The joins with the instance and the account.\<close>

definition classifiable :: "class_tables \<Rightarrow> permission_row \<Rightarrow> bool" where
  "classifiable t p = (list_ex (\<lambda>i. ci_id i = pr_instance p \<and> ci_active i \<and> ci_deleted_at i = None) (ct_instances t)
     \<and> list_ex (\<lambda>a. pr_account p = Some (ar_id a) \<and> ar_active a) (ct_accounts t))"

definition in_scope :: "account_scope option \<Rightarrow> permission_row \<Rightarrow> bool" where
  "in_scope scope p = (case scope of
     None \<Rightarrow> True
   | Some s \<Rightarrow>
       if asc_owner_type s = ''instance'' then
         pr_owner_type p = ''instance'' \<and> (pr_owner_id p = Some (asc_owner_id s) \<or> pr_owner_id p = None \<and> pr_instance p = asc_owner_id s)
       else pr_owner_type p = asc_owner_type s \<and> pr_owner_id p = Some (asc_owner_id s))"

definition fetch_accounts :: "class_tables \<Rightarrow> int option \<Rightarrow> account_scope option \<Rightarrow> permission_row list" where
  "fetch_accounts t instance_id scope_arg =
    (let resolved_scope = (case scope_arg of
           Some s \<Rightarrow> Some s
         | None \<Rightarrow> (case instance_id of
             Some i \<Rightarrow> if i \<noteq> 0 then Some \<lparr>asc_owner_type = ''instance'', asc_owner_id = i\<rparr> else None
           | None \<Rightarrow> None))
     in filter (\<lambda>p. classifiable t p \<and> in_scope resolved_scope p) (ct_permissions t))"

definition cleanup_assignments_for_accounts :: "nat list \<Rightarrow> class_assignment list \<Rightarrow> class_assignment list" where
  "cleanup_assignments_for_accounts ids rows =
    (let resolved_ids = filter (\<lambda>i. i > 0) ids
     in if resolved_ids = [] then rows else filter (\<lambda>g. ag_account g \<notin> set resolved_ids) rows)"

definition cleanup_all_assignments :: "class_assignment list \<Rightarrow> class_assignment list" where
  "cleanup_all_assignments rows = []"

text \<open>What \<^verbatim>\<open>upsert_assignments\<close> returns, and the table. The nested transaction takes back
  the deletion when the insertion is refused.\<close>

definition upsert_assignments ::
  "task_env \<Rightarrow> permission_row list \<Rightarrow> int \<Rightarrow> int option \<Rightarrow> class_assignment list \<Rightarrow> nat \<times> class_assignment list" where
  "upsert_assignments env matched_accounts classification_id rule_id rows =
    (if matched_accounts = [] then (0, rows)
     else
       let account_ids = map pr_id matched_accounts;
           new_assignments = map (\<lambda>p. \<lparr>ag_account = pr_id p, ag_class = classification_id, ag_rule = rule_id,
             ag_type = ''auto'', ag_active = True, ag_created_at = te_now env, ag_updated_at = te_now env\<rparr>) matched_accounts
       in if te_upsert_fails env new_assignments then (0, rows)
          else (length new_assignments,
            filter (\<lambda>g. \<not> (ag_class g = classification_id \<and> ag_account g \<in> set account_ids)) rows @ new_assignments))"

section \<open>A rule\<close>

definition get_valid_dsl_v4_expression :: "task_env \<Rightarrow> class_rule \<Rightarrow> class_error + pv" where
  "get_valid_dsl_v4_expression env rule = (case te_loads env (cr_expression rule) of
     None \<Rightarrow> Inl (Rule_json (cr_id rule) (cr_name rule))
   | Some expression \<Rightarrow>
       if \<not> is_dsl_v4_expression expression then Inl Rule_not_v4
       else (case collect_dsl_v4_validation_errors expression of
           [] \<Rightarrow> Inr expression
         | issues \<Rightarrow> Inl (Rule_invalid issues)))"

definition get_permission_facts :: "permission_row \<Rightarrow> class_error + pdict" where
  "get_permission_facts account = (case pr_facts account of
     PDict facts \<Rightarrow> Inr facts
   | _ \<Rightarrow> Inl (Facts_missing (pr_id account)))"

fun find_matched_accounts :: "pv \<Rightarrow> permission_row list \<Rightarrow> class_error + permission_row list" where
  "find_matched_accounts expression [] = Inr []"
| "find_matched_accounts expression (account # accounts) =
    (case get_permission_facts account of
       Inl e \<Rightarrow> Inl e
     | Inr facts \<Rightarrow> (case find_matched_accounts expression accounts of
         Inl e \<Rightarrow> Inl e
       | Inr matched_accounts \<Rightarrow>
           Inr (if matched (evaluate facts expression) then account # matched_accounts else matched_accounts)))"

text \<open>\<^verbatim>\<open>str(value or "").strip().lower()\<close>.\<close>

definition db_type_key :: "string option \<Rightarrow> string" where
  "db_type_key db_type = (case db_type of None \<Rightarrow> [] | Some t \<Rightarrow> lower (strip t))"

definition build_accounts_by_db_type :: "permission_row list \<Rightarrow> permission_row list dict" where
  "build_accounts_by_db_type accounts = fold (\<lambda>account grouped.
     let db_type = db_type_key (pr_db_type account)
     in if db_type = [] then grouped
        else dput db_type ((case map_of grouped db_type of None \<Rightarrow> [] | Some xs \<Rightarrow> xs) @ [account]) grouped) accounts []"

record rule_counts =
  rc_matched :: nat
  rc_added :: nat
  rc_instances :: nat

definition process_rule ::
  "task_env \<Rightarrow> class_rule \<Rightarrow> permission_row list dict \<Rightarrow> string \<Rightarrow> class_assignment list
     \<Rightarrow> class_error + (rule_counts \<times> class_assignment list)" where
  "process_rule env rule accounts_by_db_type db_type rows =
    (case get_valid_dsl_v4_expression env rule of
       Inl e \<Rightarrow> Inl e
     | Inr expression \<Rightarrow>
         (case find_matched_accounts expression (case map_of accounts_by_db_type db_type of None \<Rightarrow> [] | Some xs \<Rightarrow> xs) of
            Inl e \<Rightarrow> Inl e
          | Inr matched_accounts \<Rightarrow>
              (case upsert_assignments env matched_accounts (cr_classification rule) (Some (cr_id rule)) rows of
                 (added_count, rows') \<Rightarrow>
                   Inr (\<lparr>rc_matched = length matched_accounts, rc_added = added_count,
                     rc_instances = card (set (map pr_instance matched_accounts))\<rparr>, rows'))))"

section \<open>Summaries\<close>

definition metric :: "string \<Rightarrow> string \<Rightarrow> int \<Rightarrow> string \<Rightarrow> string \<Rightarrow> pyobj" where
  "metric key label value unit tone = O_dict [(K_str ''key'', O_str key), (K_str ''label'', O_str label),
     (K_str ''value'', O_int value), (K_str ''unit'', O_str unit), (K_str ''tone'', O_str tone)]"

definition scope_inputs :: "int option \<Rightarrow> account_scope option \<Rightarrow> pyobj" where
  "scope_inputs instance_id scope = O_dict
    [(K_str ''instance_id'', case instance_id of None \<Rightarrow> O_none | Some i \<Rightarrow> O_int i),
     (K_str ''account_scope'', case scope of None \<Rightarrow> O_none | Some s \<Rightarrow> O_str (scope_value s))]"

definition auto_classify_payload ::
  "pyobj \<Rightarrow> int \<Rightarrow> int \<Rightarrow> int \<Rightarrow> int \<Rightarrow> int \<Rightarrow> int \<Rightarrow> string option \<Rightarrow> pyobj" where
  "auto_classify_payload inputs rules_count accounts_count total_matches total_classifications_added failed_count duration_ms skip_reason =
    O_dict
     [(K_str ''version'', O_int 1),
      (K_str ''common'', O_dict
        [(K_str ''inputs'', inputs), (K_str ''scope'', O_dict []),
         (K_str ''metrics'', O_list
           [metric ''rules_count'' (utf8 [0xE8, 0xA7, 0x84, 0xE5, 0x88, 0x99, 0xE6, 0x95, 0xB0]) rules_count (utf8 [0xE6, 0x9D, 0xA1]) ''info'',
            metric ''accounts_count'' (utf8 [0xE8, 0xB4, 0xA6, 0xE6, 0x88, 0xB7, 0xE6, 0x95, 0xB0]) accounts_count (utf8 [0xE4, 0xB8, 0xAA]) ''info'',
            metric ''total_matches'' (utf8 [0xE5, 0x91, 0xBD, 0xE4, 0xB8, 0xAD, 0xE6, 0x95, 0xB0]) total_matches (utf8 [0xE4, 0xB8, 0xAA]) ''info'',
            metric ''total_classifications_added'' (utf8 [0xE6, 0x96, 0xB0, 0xE5, 0xA2, 0x9E, 0xE5, 0x88, 0x86, 0xE7, 0xB1, 0xBB, 0xE6, 0x95, 0xB0]) total_classifications_added (utf8 [0xE4, 0xB8, 0xAA]) ''info'',
            metric ''failed_count'' (utf8 [0xE5, 0xA4, 0xB1, 0xE8, 0xB4, 0xA5, 0xE6, 0x95, 0xB0]) failed_count (utf8 [0xE4, 0xB8, 0xAA]) (if failed_count \<noteq> 0 then ''danger'' else ''success''),
            metric ''duration_ms'' (utf8 [0xE8, 0x80, 0x97, 0xE6, 0x97, 0xB6]) duration_ms ''ms'' ''info'']),
         (K_str ''highlights'', O_list []),
         (K_str ''flags'', O_dict [(K_str ''skipped'', O_bool (skip_reason \<noteq> None)),
           (K_str ''skip_reason'', case skip_reason of None \<Rightarrow> O_none | Some s \<Rightarrow> O_str s)])]),
      (K_str ''ext'', O_dict [(K_str ''type'', O_str ''auto_classify_accounts''), (K_str ''version'', O_int 1),
        (K_str ''data'', O_dict
          [(K_str ''rules_count'', O_int rules_count), (K_str ''accounts_count'', O_int accounts_count),
           (K_str ''total_matches'', O_int total_matches),
           (K_str ''total_classifications_added'', O_int total_classifications_added),
           (K_str ''failed_count'', O_int failed_count), (K_str ''duration_ms'', O_int duration_ms)])])]"

definition build_auto_classify_accounts_summary ::
  "task_env \<Rightarrow> pyobj \<Rightarrow> int \<Rightarrow> int \<Rightarrow> int \<Rightarrow> int \<Rightarrow> int \<Rightarrow> int \<Rightarrow> string option \<Rightarrow> class_error + pyobj" where
  "build_auto_classify_accounts_summary env inputs rules_count accounts_count total_matches added failed_count duration_ms skip_reason =
    (case te_model env True (auto_classify_payload inputs rules_count accounts_count total_matches added failed_count duration_ms skip_reason) of
       None \<Rightarrow> Inl Summary_error
     | Some (_, v) \<Rightarrow> Inr v)"

text \<open>The summary of a run that starts, with its inputs.\<close>

definition summary_with_inputs :: "string \<Rightarrow> pyobj \<Rightarrow> pyobj" where
  "summary_with_inputs task_key inputs = O_dict
     [(K_str ''version'', O_int 1),
      (K_str ''common'', O_dict
        [(K_str ''inputs'', inputs), (K_str ''scope'', O_dict []), (K_str ''metrics'', O_list []),
         (K_str ''highlights'', O_list []), (K_str ''flags'', O_dict [])]),
      (K_str ''ext'', O_dict [(K_str ''type'', O_str task_key), (K_str ''version'', O_int 1), (K_str ''data'', O_dict [])])]"

section \<open>The loop over the rules\<close>

definition rule_item_details :: "class_rule \<Rightarrow> pyobj" where
  "rule_item_details rule = O_dict
    [(K_str ''rule_id'', O_int (cr_id rule)), (K_str ''rule_name'', O_str (cr_name rule)),
     (K_str ''db_type'', case cr_db_type rule of None \<Rightarrow> O_none | Some t \<Rightarrow> O_str t),
     (K_str ''classification_id'', O_int (cr_classification rule))]"

text \<open>What a failed rule leaves committed, and what the task raises: the error of the rule, or that
  of the handler, which commits nothing.\<close>

definition finalize_rule_failure ::
  "task_env \<Rightarrow> string \<Rightarrow> class_rule \<Rightarrow> class_error \<Rightarrow> class_store \<Rightarrow> class_store \<Rightarrow> class_store \<times> class_error" where
  "finalize_rule_failure env run_id rule e current committed =
    (case fail_item run_id ''rule'' (show_int (cr_id rule)) (class_error_text e) (Some (rule_item_details rule)) (te_now env) (cs_runs current) of
       Inl e' \<Rightarrow> (committed, Run_error e')
     | Inr db \<Rightarrow> (case mark_run_failed (te_model env) run_id (class_error_text e) None (te_now env) db of
         Inl e' \<Rightarrow> (committed, Run_error e')
       | Inr db' \<Rightarrow> (current\<lparr>cs_runs := db'\<rparr>, e)))"

datatype loop_end = Loop_raised class_error | Loop_cancelled | Loop_done nat nat

definition rule_metrics :: "task_env \<Rightarrow> class_rule \<Rightarrow> rule_counts \<Rightarrow> pyobj" where
  "rule_metrics env rule counts = O_dict
    [(K_str ''matched_accounts_total'', O_int (int (rc_matched counts))),
     (K_str ''classifications_added'', O_int (int (rc_added counts))),
     (K_str ''duration_ms'', O_int (te_ms env (cr_id rule))),
     (K_str ''instances_covered'', O_int (int (rc_instances counts)))]"

fun run_rules ::
  "task_env \<Rightarrow> string \<Rightarrow> permission_row list dict \<Rightarrow> class_rule list \<Rightarrow> nat \<Rightarrow> nat \<Rightarrow> class_store \<Rightarrow> class_store \<times> loop_end" where
  "run_rules env run_id accounts_by_db_type [] total_matches added st = (st, Loop_done total_matches added)"
| "run_rules env run_id accounts_by_db_type (rule # rules) total_matches added st =
    (let st0 = st\<lparr>cs_runs := te_other env (cr_id rule) (cs_runs st)\<rparr>;
         key = show_int (cr_id rule);
         db_type = db_type_key (cr_db_type rule)
     in case is_cancelled run_id (cs_runs st0) of
          Inl e \<Rightarrow> (st0, Loop_raised (Run_error e))
        | Inr True \<Rightarrow> (case finalize_run run_id (te_now env) (cs_runs st0) of
              Inl e \<Rightarrow> (st0, Loop_raised (Run_error e))
            | Inr db \<Rightarrow> (st0\<lparr>cs_runs := db\<rparr>, Loop_cancelled))
        | Inr False \<Rightarrow> (case start_item run_id ''rule'' key (te_now env) (cs_runs st0) of
              Inl e \<Rightarrow> (st0, Loop_raised (Run_error e))
            | Inr db \<Rightarrow>
                let st1 = st0\<lparr>cs_runs := db\<rparr>
                in (case process_rule env rule accounts_by_db_type db_type (cs_assignments st1) of
                      Inl e \<Rightarrow> (case finalize_rule_failure env run_id rule e st1 st1 of (st2, e') \<Rightarrow> (st2, Loop_raised e'))
                    | Inr (counts, rows) \<Rightarrow>
                        let st2 = st1\<lparr>cs_assignments := rows\<rparr>
                        in (case complete_item run_id ''rule'' key (Some (rule_metrics env rule counts))
                                (Some (O_dict [(K_str ''classification_id'', O_int (cr_classification rule)), (K_str ''db_type'', O_str db_type)]))
                                (te_now env) (cs_runs st2) of
                              Inl e \<Rightarrow> (case finalize_rule_failure env run_id rule (Run_error e) st2 st1 of (st3, e') \<Rightarrow> (st3, Loop_raised e'))
                            | Inr db' \<Rightarrow> run_rules env run_id accounts_by_db_type rules (total_matches + rc_matched counts) (added + rc_added counts)
                                (st2\<lparr>cs_runs := db'\<rparr>)))))"

section \<open>The task\<close>

datatype task_result = Task_returned bool string string | Task_raised class_error

definition MSG_CANCELLED :: string where "MSG_CANCELLED = utf8 [0xE4, 0xBB, 0xBB, 0xE5, 0x8A, 0xA1, 0xE5, 0xB7, 0xB2, 0xE5, 0x8F, 0x96, 0xE6, 0xB6, 0x88]"
definition MSG_NO_RULES :: string where "MSG_NO_RULES = utf8 [0xE6, 0xB2, 0xA1, 0xE6, 0x9C, 0x89, 0xE5, 0x8F, 0xAF, 0xE7, 0x94, 0xA8, 0xE7, 0x9A, 0x84, 0xE5, 0x88, 0x86, 0xE7, 0xB1, 0xBB, 0xE8, 0xA7, 0x84, 0xE5, 0x88, 0x99]"
definition MSG_NO_ACCOUNTS :: string where "MSG_NO_ACCOUNTS = utf8 [0xE6, 0xB2, 0xA1, 0xE6, 0x9C, 0x89, 0xE9, 0x9C, 0x80, 0xE8, 0xA6, 0x81, 0xE5, 0x88, 0x86, 0xE7, 0xB1, 0xBB, 0xE7, 0x9A, 0x84, 0xE8, 0xB4, 0xA6, 0xE6, 0x88, 0xB7]"
definition MSG_DONE :: string where "MSG_DONE = utf8 [0xE8, 0x87, 0xAA, 0xE5, 0x8A, 0xA8, 0xE5, 0x88, 0x86, 0xE7, 0xB1, 0xBB, 0xE5, 0xAE, 0x8C, 0xE6, 0x88, 0x90]"

definition finalize_run_no_rules ::
  "task_env \<Rightarrow> string \<Rightarrow> pyobj \<Rightarrow> nat \<Rightarrow> class_store \<Rightarrow> class_store \<times> task_result" where
  "finalize_run_no_rules env run_id inputs accounts_count st =
    (case build_auto_classify_accounts_summary env inputs 0 (int accounts_count) 0 0 0 (te_total_ms env) None of
       Inl e \<Rightarrow> (st, Task_raised e)
     | Inr summary \<Rightarrow> (case mark_run_failed (te_model env) run_id MSG_NO_RULES (Some summary) (te_now env) (cs_runs st) of
         Inl e \<Rightarrow> (st, Task_raised (Run_error e))
       | Inr db \<Rightarrow> (st\<lparr>cs_runs := db\<rparr>, Task_returned False MSG_NO_RULES run_id)))"

fun skip_items :: "task_env \<Rightarrow> string \<Rightarrow> class_rule list \<Rightarrow> run_db \<Rightarrow> run_error + run_db" where
  "skip_items env run_id [] db = Inr db"
| "skip_items env run_id (rule # rules) db =
    (case start_item run_id ''rule'' (show_int (cr_id rule)) (te_now env) db of
       Inl e \<Rightarrow> Inl e
     | Inr db1 \<Rightarrow> (case complete_item run_id ''rule'' (show_int (cr_id rule))
           (Some (O_dict [(K_str ''matched_accounts_total'', O_int 0), (K_str ''classifications_added'', O_int 0),
              (K_str ''duration_ms'', O_int 0), (K_str ''instances_covered'', O_int 0)]))
           (Some (O_dict [(K_str ''skipped'', O_bool True), (K_str ''skip_reason'', O_str MSG_NO_ACCOUNTS)])) (te_now env) db1 of
         Inl e \<Rightarrow> Inl e
       | Inr db2 \<Rightarrow> skip_items env run_id rules db2))"

definition finalize_run_no_accounts ::
  "task_env \<Rightarrow> string \<Rightarrow> pyobj \<Rightarrow> class_rule list \<Rightarrow> class_store \<Rightarrow> class_store \<times> task_result" where
  "finalize_run_no_accounts env run_id inputs rules st =
    (case skip_items env run_id rules (cs_runs st) of
       Inl e \<Rightarrow> (st, Task_raised (Run_error e))
     | Inr db \<Rightarrow> (case build_auto_classify_accounts_summary env inputs (int (length rules)) 0 0 0 0 (te_total_ms env) (Some MSG_NO_ACCOUNTS) of
         Inl e \<Rightarrow> (st, Task_raised e)
       | Inr summary \<Rightarrow> (case finalize_run_with_summary (te_model env) run_id (Some summary) None None False (te_now env) db of
           Inl e \<Rightarrow> (st, Task_raised (Run_error e))
         | Inr db' \<Rightarrow> (st\<lparr>cs_runs := db'\<rparr>, Task_returned True MSG_NO_ACCOUNTS run_id))))"

definition finalize_run_success ::
  "task_env \<Rightarrow> string \<Rightarrow> pyobj \<Rightarrow> nat \<Rightarrow> nat \<Rightarrow> nat \<Rightarrow> nat \<Rightarrow> class_store \<Rightarrow> class_store \<times> task_result" where
  "finalize_run_success env run_id inputs rules_count accounts_count total_matches added st =
    (case build_auto_classify_accounts_summary env inputs (int rules_count) (int accounts_count) (int total_matches) (int added) 0 (te_total_ms env) None of
       Inl e \<Rightarrow> (st, Task_raised e)
     | Inr summary \<Rightarrow> (case finalize_run_with_summary (te_model env) run_id (Some summary) None None False (te_now env) (cs_runs st) of
         Inl e \<Rightarrow> (st, Task_raised (Run_error e))
       | Inr db \<Rightarrow> (st\<lparr>cs_runs := db\<rparr>, Task_returned True MSG_DONE run_id)))"

definition cleanup_assignments_for_run ::
  "permission_row list \<Rightarrow> int option \<Rightarrow> account_scope option \<Rightarrow> class_assignment list \<Rightarrow> class_assignment list" where
  "cleanup_assignments_for_run accounts instance_id scope rows =
    (if scope = None \<and> instance_id = None then cleanup_all_assignments rows
     else cleanup_assignments_for_accounts (map pr_id accounts) rows)"

text \<open>The part of the task after the run is known and not cancelled.\<close>

definition classify_run ::
  "task_env \<Rightarrow> class_tables \<Rightarrow> int option \<Rightarrow> account_scope option \<Rightarrow> string \<Rightarrow> class_store \<Rightarrow> class_store \<times> task_result" where
  "classify_run env t instance_id scope run_id st =
    (let rules = fetch_active_rules t;
         accounts = fetch_accounts t instance_id scope;
         inputs = scope_inputs instance_id scope
     in if rules = [] then finalize_run_no_rules env run_id inputs (length accounts) st
        else (case init_items run_id (map (\<lambda>r. \<lparr>ii_type = ''rule'', ii_key = show_int (cr_id r), ii_name = Some (cr_name r),
               ii_instance = None\<rparr>) rules) (cs_runs st) of
            Inl e \<Rightarrow> (st, Task_raised (Run_error e))
          | Inr db \<Rightarrow>
              let st1 = st\<lparr>cs_runs := db\<rparr>
              in if accounts = [] then finalize_run_no_accounts env run_id inputs rules st1
                 else
                   let st2 = st1\<lparr>cs_assignments := cleanup_assignments_for_run accounts instance_id scope (cs_assignments st1)\<rparr>
                   in (case run_rules env run_id (build_accounts_by_db_type accounts) rules 0 0 st2 of
                        (st3, Loop_raised e) \<Rightarrow> (st3, Task_raised e)
                      | (st3, Loop_cancelled) \<Rightarrow> (st3, Task_returned True MSG_CANCELLED run_id)
                      | (st3, Loop_done total_matches added) \<Rightarrow>
                          finalize_run_success env run_id inputs (length rules) (length accounts) total_matches added st3)))"

definition resolve_scope :: "int option \<Rightarrow> pv \<Rightarrow> class_error + account_scope option" where
  "resolve_scope instance_id scope_text = (case parse_account_scope scope_text of
     Inl e \<Rightarrow> Inl (Scope_error e)
   | Inr None \<Rightarrow> Inr (map_option (\<lambda>i. \<lparr>asc_owner_type = ''instance'', asc_owner_id = i\<rparr>) instance_id)
   | Inr (Some s) \<Rightarrow> Inr (Some s))"

definition auto_classify_accounts ::
  "task_env \<Rightarrow> class_tables \<Rightarrow> int option \<Rightarrow> pv \<Rightarrow> int option \<Rightarrow> string option \<Rightarrow> class_store \<Rightarrow> class_store \<times> task_result" where
  "auto_classify_accounts env t instance_id scope_text created_by run_id st =
    (case resolve_scope instance_id scope_text of
       Inl e \<Rightarrow> (st, Task_raised e)
     | Inr scope \<Rightarrow>
        (case te_model env True (summary_with_inputs ''auto_classify_accounts'' (scope_inputs instance_id scope)) of
           None \<Rightarrow> (st, Task_raised Summary_error)
         | Some (_, summary) \<Rightarrow>
            (case resolve_or_start_run (te_model env) run_id (te_fresh env) ''auto_classify_accounts'' (utf8 [0xE8, 0x87, 0xAA, 0xE5, 0x8A, 0xA8, 0xE5, 0x88, 0x86, 0xE7, 0xB1, 0xBB]) ''classification'' ''manual''
                 created_by (Some summary) (Some ''/accounts/classifications'') (te_now env) (cs_runs st) of
               Inl e \<Rightarrow> (st, Task_raised (Run_error e))
             | Inr (rid, db) \<Rightarrow>
                 let st1 = st\<lparr>cs_runs := db\<rparr>
                 in (case is_cancelled rid db of
                      Inl e \<Rightarrow> (st1, Task_raised (Run_error e))
                    | Inr True \<Rightarrow> (st1, Task_returned True MSG_CANCELLED rid)
                    | Inr False \<Rightarrow> classify_run env t instance_id scope rid st1))))"

end
