(* ===== verification/Classification_Result.thy ===== *)
theory Classification_Result
  imports Classification_Task
begin

text \<open>
  What the classification task leaves in the table of the assignments: a declarative reading of the
  rules over the accounts in scope, whatever other sessions do to the runs in the meantime.
\<close>

section \<open>The reference\<close>

text \<open>The rule applies to the account.\<close>

definition rule_matches :: "task_env \<Rightarrow> class_rule \<Rightarrow> permission_row \<Rightarrow> bool" where
  "rule_matches env r p = (db_type_key (cr_db_type r) \<noteq> [] \<and> db_type_key (pr_db_type p) = db_type_key (cr_db_type r)
     \<and> (\<exists>expression facts. te_loads env (cr_expression r) = Some expression \<and> pr_facts p = PDict facts
          \<and> matched (evaluate facts expression)))"

text \<open>The rules that the assignments of an account in a class name.\<close>

definition assigned_by :: "class_store \<Rightarrow> nat \<Rightarrow> int \<Rightarrow> int option list" where
  "assigned_by st i c = map ag_rule (filter (\<lambda>g. ag_account g = i \<and> ag_class g = c) (cs_assignments st))"

definition deciding_rule :: "task_env \<Rightarrow> class_rule list \<Rightarrow> permission_row \<Rightarrow> int \<Rightarrow> int option list" where
  "deciding_rule env rules p c = (case filter (\<lambda>r. cr_classification r = c \<and> rule_matches env r p) rules of
     [] \<Rightarrow> [] | rs \<Rightarrow> [Some (cr_id (last rs))])"

section \<open>Accounts by database type\<close>

lemma group_get:
  "db \<noteq> [] \<Longrightarrow> (case map_of (build_accounts_by_db_type accounts) db of None \<Rightarrow> [] | Some xs \<Rightarrow> xs)
    = filter (\<lambda>p. db_type_key (pr_db_type p) = db) accounts"
proof (induction accounts rule: rev_induct)
  case (snoc p accounts)
  let ?g = "build_accounts_by_db_type accounts"
  have "build_accounts_by_db_type (accounts @ [p]) = (if db_type_key (pr_db_type p) = [] then ?g
      else dput (db_type_key (pr_db_type p)) ((case map_of ?g (db_type_key (pr_db_type p)) of None \<Rightarrow> [] | Some xs \<Rightarrow> xs) @ [p]) ?g)"
    by (simp add: build_accounts_by_db_type_def Let_def)
  with snoc show ?case by (auto simp: map_of_dput)
qed (simp add: build_accounts_by_db_type_def)

lemma group_blank: "map_of (build_accounts_by_db_type accounts) [] = None"
proof -
  have "map_of g [] = None \<Longrightarrow> map_of (fold (\<lambda>account grouped. let db_type = db_type_key (pr_db_type account)
     in if db_type = [] then grouped
        else dput db_type ((case map_of grouped db_type of None \<Rightarrow> [] | Some xs \<Rightarrow> xs) @ [account]) grouped) accounts g) [] = None"
    for g :: "permission_row list dict"
    by (induction accounts arbitrary: g) (simp_all add: Let_def map_of_dput)
  then show ?thesis by (simp add: build_accounts_by_db_type_def)
qed

section \<open>One rule\<close>

lemma found_matches:
  "find_matched_accounts expression accounts = Inr ms \<Longrightarrow>
    ms = filter (\<lambda>p. \<exists>facts. pr_facts p = PDict facts \<and> matched (evaluate facts expression)) accounts"
  by (induction accounts arbitrary: ms) (auto simp: get_permission_facts_def split: sum.splits pv.splits if_splits)

lemma process_rule_matches:
  assumes "process_rule env r (build_accounts_by_db_type accounts) (db_type_key (cr_db_type r)) rows = Inr (counts, rows')"
  shows "rows' = snd (upsert_assignments env (filter (rule_matches env r) accounts) (cr_classification r) (Some (cr_id r)) rows)
    \<and> rc_matched counts = length (filter (rule_matches env r) accounts)"
proof -
  obtain e ms where e: "get_valid_dsl_v4_expression env r = Inr e"
    and ms: "find_matched_accounts e (case map_of (build_accounts_by_db_type accounts) (db_type_key (cr_db_type r)) of None \<Rightarrow> [] | Some xs \<Rightarrow> xs) = Inr ms"
    and rows': "rows' = snd (upsert_assignments env ms (cr_classification r) (Some (cr_id r)) rows)" "rc_matched counts = length ms"
    using assms by (auto simp: process_rule_def split: sum.splits prod.splits)
  from e have loads: "te_loads env (cr_expression r) = Some e"
    by (auto simp: get_valid_dsl_v4_expression_def split: option.splits if_splits list.splits)
  have "ms = filter (rule_matches env r) accounts"
  proof (cases "db_type_key (cr_db_type r) = []")
    case True
    with ms group_blank have "ms = []" by simp
    with True show ?thesis by (simp add: rule_matches_def)
  next
    case False
    from found_matches [OF ms] show ?thesis
      unfolding group_get [OF False] filter_filter using False loads by (auto simp: rule_matches_def intro!: filter_cong)
  qed
  with rows' show ?thesis by simp
qed

text \<open>The table after a prefix of the rules.\<close>

definition apply_rules :: "task_env \<Rightarrow> permission_row list \<Rightarrow> class_rule list \<Rightarrow> class_assignment list \<Rightarrow> class_assignment list" where
  "apply_rules env accounts rules rows = fold (\<lambda>r rows. snd (upsert_assignments env (filter (rule_matches env r) accounts)
     (cr_classification r) (Some (cr_id r)) rows)) rules rows"

text \<open>One turn of the loop stops, before or after the rule has written, or goes on after it.\<close>

lemma handler_rows: "cs_assignments (fst (finalize_rule_failure env rid r e current committed)) \<in> {cs_assignments current, cs_assignments committed}"
  by (auto simp: finalize_rule_failure_def split: sum.splits)

lemma run_rules_turn:
  assumes "run_rules env rid (build_accounts_by_db_type accounts) (r # rules) m a st = (st', outcome)"
  shows "((\<forall>m' a'. outcome \<noteq> Loop_done m' a') \<and> cs_assignments st' \<in> {cs_assignments st, apply_rules env accounts [r] (cs_assignments st)})
    \<or> (\<exists>m1 a1 st1. run_rules env rid (build_accounts_by_db_type accounts) rules m1 a1 st1 = (st', outcome)
         \<and> cs_assignments st1 = apply_rules env accounts [r] (cs_assignments st))"
proof -
  let ?st0 = "st\<lparr>cs_runs := te_other env (cr_id r) (cs_runs st)\<rparr>"
  let ?process = "process_rule env r (build_accounts_by_db_type accounts) (db_type_key (cr_db_type r)) (cs_assignments st)"
  show ?thesis
  proof (cases "is_cancelled rid (cs_runs ?st0) = Inr False \<and> (\<exists>db. start_item rid ''rule'' (show_int (cr_id r)) (te_now env) (cs_runs ?st0) = Inr db)")
    case False
    with assms have "cs_assignments st' = cs_assignments st \<and> (\<forall>m' a'. outcome \<noteq> Loop_done m' a')"
      by (auto simp: Let_def split: sum.splits bool.splits)
    then show ?thesis by simp
  next
    case True
    then obtain db where start: "is_cancelled rid (cs_runs ?st0) = Inr False"
      "start_item rid ''rule'' (show_int (cr_id r)) (te_now env) (cs_runs ?st0) = Inr db" by blast
    let ?st1 = "?st0\<lparr>cs_runs := db\<rparr>"
    show ?thesis
    proof (cases ?process)
      case (Inl e)
      with start assms show ?thesis
        using handler_rows [of env rid r e ?st1 ?st1] by (auto simp: Let_def split: prod.splits)
    next
      case (Inr res)
      obtain counts rows where res: "res = (counts, rows)" by (cases res)
      have rows: "rows = apply_rules env accounts [r] (cs_assignments st)"
        using process_rule_matches [OF Inr [unfolded res]] by (simp add: apply_rules_def)
      let ?st2 = "?st1\<lparr>cs_assignments := rows\<rparr>"
      show ?thesis
      proof (cases "complete_item rid ''rule'' (show_int (cr_id r)) (Some (rule_metrics env r counts))
          (Some (O_dict [(K_str ''classification_id'', O_int (cr_classification r)), (K_str ''db_type'', O_str (db_type_key (cr_db_type r)))]))
          (te_now env) db")
        case err: (Inl e)
        with start assms Inr res show ?thesis
          using handler_rows [of env rid r "Run_error e" ?st2 ?st1] rows by (auto simp: Let_def split: prod.splits)
      next
        case ok: (Inr db')
        with start assms Inr res have "run_rules env rid (build_accounts_by_db_type accounts) rules
            (m + rc_matched counts) (a + rc_added counts) (?st2\<lparr>cs_runs := db'\<rparr>) = (st', outcome)"
          by (simp add: Let_def)
        then show ?thesis by (intro disjI2 exI conjI) (assumption, simp add: rows)
      qed
    qed
  qed
qed

lemma run_rules_assignments:
  assumes "run_rules env rid (build_accounts_by_db_type accounts) rules m a st = (st', outcome)"
  shows "\<exists>k \<le> length rules. cs_assignments st' = apply_rules env accounts (take k rules) (cs_assignments st)
    \<and> (\<forall>m' a'. outcome = Loop_done m' a' \<longrightarrow> k = length rules)"
  using assms
proof (induction rules arbitrary: m a st)
  case Nil
  then show ?case by (auto simp: apply_rules_def)
next
  case (Cons r rules)
  from run_rules_turn [OF Cons.prems] show ?case
  proof (elim disjE exE conjE)
    assume stops: "\<forall>m' a'. outcome \<noteq> Loop_done m' a'" and "cs_assignments st' \<in> {cs_assignments st, apply_rules env accounts [r] (cs_assignments st)}"
    then consider "cs_assignments st' = apply_rules env accounts (take 0 (r # rules)) (cs_assignments st)"
      | "cs_assignments st' = apply_rules env accounts (take 1 (r # rules)) (cs_assignments st)"
      by (auto simp: apply_rules_def)
    then show ?thesis using stops by (cases, intro exI [of _ 0], simp, intro exI [of _ 1], simp)
  next
    fix m1 a1 st1
    assume "run_rules env rid (build_accounts_by_db_type accounts) rules m1 a1 st1 = (st', outcome)"
      and st1: "cs_assignments st1 = apply_rules env accounts [r] (cs_assignments st)"
    from Cons.IH [OF this(1)] obtain k where "k \<le> length rules" "cs_assignments st' = apply_rules env accounts (take k rules) (cs_assignments st1)"
      "\<forall>m' a'. outcome = Loop_done m' a' \<longrightarrow> k = length rules" by auto
    then show ?thesis by (intro exI [of _ "Suc k"]) (simp add: st1 apply_rules_def)
  qed
qed

section \<open>The table\<close>

text \<open>Writing the matches of a rule replaces what the accounts had in its class.\<close>

definition assignments_of :: "task_env \<Rightarrow> int \<Rightarrow> int option \<Rightarrow> permission_row list \<Rightarrow> class_assignment list" where
  "assignments_of env cl rid ps = map (\<lambda>p. \<lparr>ag_account = pr_id p, ag_class = cl, ag_rule = rid, ag_type = ''auto'', ag_active = True,
     ag_created_at = te_now env, ag_updated_at = te_now env\<rparr>) ps"

lemma upsert_assigned:
  assumes "ps = [] \<or> \<not> te_upsert_fails env (assignments_of env cl rid ps)" "distinct (map pr_id ps)"
  shows "map ag_rule (filter (\<lambda>g. ag_account g = i \<and> ag_class g = c) (snd (upsert_assignments env ps cl rid rows)))
    = (if cl = c \<and> i \<in> pr_id ` set ps then [rid] else map ag_rule (filter (\<lambda>g. ag_account g = i \<and> ag_class g = c) rows))"
proof -
  let ?P = "\<lambda>g. ag_account g = i \<and> ag_class g = c"
  let ?new = "\<lambda>p. \<lparr>ag_account = pr_id p, ag_class = cl, ag_rule = rid, ag_type = ''auto'', ag_active = True,
    ag_created_at = te_now env, ag_updated_at = te_now env\<rparr>"
  have new: "map ag_rule (filter ?P (map ?new ps)) = (if cl = c \<and> i \<in> pr_id ` set ps then [rid] else [])"
    using assms(2) by (induction ps) auto
  have ok: "ps = [] \<or> \<not> te_upsert_fails env (map ?new ps)" using assms(1) by (simp add: assignments_of_def)
  show ?thesis
  proof (cases "cl = c \<and> i \<in> pr_id ` set ps")
    case True
    then have "filter ?P (filter (\<lambda>g. \<not> (ag_class g = cl \<and> ag_account g \<in> set (map pr_id ps))) rows) = []"
      by (auto simp: filter_empty_conv)
    with True new show ?thesis using ok by (auto simp: upsert_assignments_def Let_def)
  next
    case False
    then have "filter ?P (filter (\<lambda>g. \<not> (ag_class g = cl \<and> ag_account g \<in> set (map pr_id ps))) rows) = filter ?P rows"
      unfolding filter_filter by (intro filter_cong) auto
    with False new show ?thesis using ok by (auto simp: upsert_assignments_def Let_def)
  qed
qed

text \<open>The database refuses what a rule writes; the task notices nothing.\<close>

definition write_refused :: "task_env \<Rightarrow> permission_row list \<Rightarrow> class_rule \<Rightarrow> bool" where
  "write_refused env accounts r \<longleftrightarrow> filter (rule_matches env r) accounts \<noteq> []
     \<and> te_upsert_fails env (assignments_of env (cr_classification r) (Some (cr_id r)) (filter (rule_matches env r) accounts))"

lemma refused_keeps: "write_refused env accounts r \<Longrightarrow>
    snd (upsert_assignments env (filter (rule_matches env r) accounts) (cr_classification r) (Some (cr_id r)) rows) = rows"
  by (simp add: write_refused_def assignments_of_def upsert_assignments_def Let_def)

abbreviation accepted_rules :: "task_env \<Rightarrow> permission_row list \<Rightarrow> class_rule list \<Rightarrow> class_rule list" where
  "accepted_rules env accounts rules \<equiv> filter (\<lambda>r. \<not> write_refused env accounts r) rules"

lemma deciding_snoc: "deciding_rule env (rules @ [r]) p c =
    (if cr_classification r = c \<and> rule_matches env r p then [Some (cr_id r)] else deciding_rule env rules p c)"
  by (cases "filter (\<lambda>r. cr_classification r = c \<and> rule_matches env r p) rules") (auto simp: deciding_rule_def)

lemma apply_rules_assigned:
  assumes "distinct (map pr_id accounts)" "p \<in> set accounts"
  shows "map ag_rule (filter (\<lambda>g. ag_account g = pr_id p \<and> ag_class g = c) (apply_rules env accounts rules rows))
    = (if \<exists>r \<in> set (accepted_rules env accounts rules). cr_classification r = c \<and> rule_matches env r p
       then deciding_rule env (accepted_rules env accounts rules) p c
       else map ag_rule (filter (\<lambda>g. ag_account g = pr_id p \<and> ag_class g = c) rows))"
proof (induction rules rule: rev_induct)
  case (snoc r rules)
  have d: "distinct (map pr_id (filter (rule_matches env r) accounts))" using assms(1) by (rule distinct_map_filter)
  have mem: "pr_id p \<in> pr_id ` set (filter (rule_matches env r) accounts) \<longleftrightarrow> rule_matches env r p"
    using assms by (auto simp: distinct_map inj_on_def)
  have last: "apply_rules env accounts (rules @ [r]) rows = snd (upsert_assignments env (filter (rule_matches env r) accounts)
      (cr_classification r) (Some (cr_id r)) (apply_rules env accounts rules rows))" by (simp add: apply_rules_def)
  show ?case
  proof (cases "write_refused env accounts r")
    case True
    then have "accepted_rules env accounts (rules @ [r]) = accepted_rules env accounts rules" by simp
    then show ?thesis unfolding last refused_keeps [OF True] using snoc by (simp only:)
  next
    case False
    then have ok: "filter (rule_matches env r) accounts = []
        \<or> \<not> te_upsert_fails env (assignments_of env (cr_classification r) (Some (cr_id r)) (filter (rule_matches env r) accounts))"
      by (simp add: write_refused_def)
    from False have "accepted_rules env accounts (rules @ [r]) = accepted_rules env accounts rules @ [r]" by simp
    then show ?thesis unfolding last upsert_assigned [OF ok d] mem deciding_snoc snoc by (auto simp: deciding_snoc)
  qed
qed (simp add: apply_rules_def deciding_rule_def)

lemma apply_rules_others:
  "i \<notin> pr_id ` set accounts \<Longrightarrow> filter (\<lambda>g. ag_account g = i) (apply_rules env accounts rules rows) = filter (\<lambda>g. ag_account g = i) rows"
proof (induction rules rule: rev_induct)
  case (snoc r rules)
  have "filter (\<lambda>g. ag_account g = i) (snd (upsert_assignments env (filter (rule_matches env r) accounts) c d rows))
      = filter (\<lambda>g. ag_account g = i) rows" for c d rows
  proof -
    let ?ps = "filter (rule_matches env r) accounts"
    have "filter (\<lambda>g. ag_account g = i) (filter (\<lambda>g. \<not> (ag_class g = c \<and> ag_account g \<in> set (map pr_id ?ps))) rows)
        = filter (\<lambda>g. ag_account g = i) rows"
      unfolding filter_filter using snoc.prems by (intro filter_cong) auto
    moreover have "filter (\<lambda>p. pr_id p = i) ?ps = []" using snoc.prems by (auto simp: filter_empty_conv)
    ultimately show ?thesis by (auto simp: upsert_assignments_def Let_def filter_map o_def)
  qed
  with snoc show ?case by (simp add: apply_rules_def)
qed (simp add: apply_rules_def)

section \<open>A rule that fails\<close>

fun is_rule_error :: "class_error \<Rightarrow> bool" where
  "is_rule_error (Rule_json i n) = True"
| "is_rule_error Rule_not_v4 = True"
| "is_rule_error (Rule_invalid is) = True"
| "is_rule_error (Facts_missing i) = True"
| "is_rule_error _ = False"

text \<open>The run is failed with the text, and no item of it is in progress.\<close>

definition run_failed_with :: "string \<Rightarrow> string \<Rightarrow> run_db \<Rightarrow> bool" where
  "run_failed_with rid msg db = (\<exists>r. find_run rid db = Some r \<and> tr_status r = FAILED \<and> tr_error r = Some msg
     \<and> (\<forall>it \<in> set (list_run_items rid db). ti_status it \<notin> {PENDING, RUNNING}))"

lemma change_item_run: "change_item rid t k g f db = Inr db' \<Longrightarrow> find_run j db' = find_run j db"
  by (auto simp: change_item_def split: sum.splits if_splits)

lemma mark_failed_run:
  assumes "mark_run_failed M rid msg None now db = Inr db'" "find_run rid db = Some r" "tr_status r \<noteq> CANCELLED"
  shows "run_failed_with rid msg db'"
proof -
  let ?f = "\<lambda>it. it\<lparr>ti_status := FAILED, ti_completed_at := Some now, ti_error := Some msg\<rparr>"
  let ?g = "\<lambda>r. r\<lparr>tr_status := FAILED, tr_error := Some msg\<rparr>"
  let ?db = "write_run rid ?g (write_open_items rid ?f db)"
  have db': "db' = write_run rid (finalize_update (list_run_items rid ?db) now) ?db"
    using assms by (auto simp: mark_run_failed_def write_summary_opt_def finalize_run_def get_run_def)
  have "list_run_items rid db' = map (\<lambda>it. if ti_status it \<in> {PENDING, RUNNING} then ?f it else it) (list_run_items rid db)"
    unfolding db' by (simp add: list_items_write_open)
  moreover have "FAILED \<notin> {PENDING, RUNNING}" by code_simp
  ultimately have "\<forall>it \<in> set (list_run_items rid db'). ti_status it \<notin> {PENDING, RUNNING}" by auto
  then show ?thesis
    unfolding run_failed_with_def by (intro exI [of _ "finalize_update (list_run_items rid ?db) now (?g r)"])
      (simp add: db' assms(2), simp add: finalize_update_def Let_def)
qed

lemma handler_failed:
  assumes "finalize_rule_failure env rid r e current committed = (st', e')" "is_rule_error e'"
    and "find_run rid (cs_runs current) = Some run" "tr_status run \<noteq> CANCELLED"
  shows "e' = e \<and> cs_assignments st' = cs_assignments current \<and> run_failed_with rid (class_error_text e) (cs_runs st')"
proof -
  let ?fail = "fail_item rid ''rule'' (show_int (cr_id r)) (class_error_text e) (Some (rule_item_details r)) (te_now env) (cs_runs current)"
  obtain db where fail: "?fail = Inr db"
    using assms(1,2) by (cases ?fail) (auto simp: finalize_rule_failure_def)
  let ?mark = "mark_run_failed (te_model env) rid (class_error_text e) None (te_now env) db"
  obtain db' where mark: "?mark = Inr db'"
    using assms(1,2) fail by (cases ?mark) (auto simp: finalize_rule_failure_def)
  have st': "st' = current\<lparr>cs_runs := db'\<rparr>" "e' = e"
    using assms(1) fail mark by (simp_all add: finalize_rule_failure_def)
  have "find_run rid db = Some run" using change_item_run [OF fail [unfolded fail_item_def]] assms(3) by simp
  from mark_failed_run [OF mark this assms(4)] st' show ?thesis by simp
qed

lemma run_rules_error:
  assumes "run_rules env rid (build_accounts_by_db_type accounts) rules m a st = (st', Loop_raised e)" "is_rule_error e"
  shows "\<exists>k < length rules. cs_assignments st' = apply_rules env accounts (take k rules) (cs_assignments st)
    \<and> run_failed_with rid (class_error_text e) (cs_runs st')"
  using assms
proof (induction rules arbitrary: m a st)
  case (Cons r rules)
  let ?st0 = "st\<lparr>cs_runs := te_other env (cr_id r) (cs_runs st)\<rparr>"
  have live: "is_cancelled rid (cs_runs ?st0) = Inr False"
    using Cons.prems by (auto simp: Let_def split: sum.splits bool.splits)
  then obtain run where run: "find_run rid (cs_runs ?st0) = Some run" "tr_status run \<noteq> CANCELLED"
    by (auto simp: is_cancelled_def get_run_def split: option.splits)
  from live Cons.prems obtain db where db: "start_item rid ''rule'' (show_int (cr_id r)) (te_now env) (cs_runs ?st0) = Inr db"
    by (auto simp: Let_def split: sum.splits)
  note start = live db
  have run1: "find_run rid db = Some run" using change_item_run [OF db [unfolded start_item_def]] run(1) by simp
  let ?st1 = "?st0\<lparr>cs_runs := db\<rparr>"
  show ?case
  proof (cases "process_rule env r (build_accounts_by_db_type accounts) (db_type_key (cr_db_type r)) (cs_assignments st)")
    case (Inl e0)
    with start Cons.prems(1) have "finalize_rule_failure env rid r e0 ?st1 ?st1 = (st', e)"
      by (auto simp: Let_def split: prod.splits)
    from handler_failed [OF this Cons.prems(2) _ run(2)] run1 show ?thesis
      by (intro exI [of _ 0]) (simp add: apply_rules_def)
  next
    case (Inr res)
    obtain counts rows where res: "res = (counts, rows)" by (cases res)
    have rows: "rows = apply_rules env accounts [r] (cs_assignments st)"
      using process_rule_matches [OF Inr [unfolded res]] by (simp add: apply_rules_def)
    let ?st2 = "?st1\<lparr>cs_assignments := rows\<rparr>"
    have "finalize_rule_failure env rid r (Run_error e0) ?st2 ?st1 \<noteq> (st', e)" for e0
      using handler_failed [of env rid r "Run_error e0" ?st2 ?st1 st' e run] Cons.prems(2) run(2) run1 by auto
    with start Cons.prems(1) Inr res obtain db' where "run_rules env rid (build_accounts_by_db_type accounts) rules (m + rc_matched counts) (a + rc_added counts)
        (?st2\<lparr>cs_runs := db'\<rparr>) = (st', Loop_raised e)"
      by (auto simp: Let_def split: sum.splits prod.splits)
    from Cons.IH [OF this Cons.prems(2)] obtain k where "k < length rules"
      "cs_assignments st' = apply_rules env accounts (take k rules) rows" "run_failed_with rid (class_error_text e) (cs_runs st')" by auto
    then show ?thesis by (intro exI [of _ "Suc k"]) (simp add: rows apply_rules_def)
  qed
qed simp

section \<open>The task\<close>

lemma messages_differ: "MSG_DONE \<noteq> MSG_NO_ACCOUNTS" "MSG_DONE \<noteq> MSG_CANCELLED"
  by code_simp+

lemma task_resolves:
  assumes "auto_classify_accounts env t instance_id scope_text created_by run_id st = (st', res)"
    and "\<And>rid. res \<noteq> Task_returned True MSG_CANCELLED rid"
    and "\<And>e. res = Task_raised e \<Longrightarrow> is_rule_error e"
  obtains scope rid db where "resolve_scope instance_id scope_text = Inr scope"
    "classify_run env t instance_id scope rid (st\<lparr>cs_runs := db\<rparr>) = (st', res)"
proof -
  from assms(1,3) obtain scope where scope: "resolve_scope instance_id scope_text = Inr scope"
    by (cases "resolve_scope instance_id scope_text")
      (auto simp: auto_classify_accounts_def resolve_scope_def split: sum.splits option.splits)
  with assms obtain rid db where "classify_run env t instance_id scope rid (st\<lparr>cs_runs := db\<rparr>) = (st', res)"
    by (auto simp: auto_classify_accounts_def Let_def split: sum.splits option.splits prod.splits bool.splits)
  with scope that show ?thesis by blast
qed

text \<open>The rules run over the cleaned table; what ends a run does not touch the table.\<close>

lemma success_rows: "finalize_run_success env rid inputs n k m a st = (st', res) \<Longrightarrow> cs_assignments st' = cs_assignments st
    \<and> (res = Task_returned True MSG_DONE rid \<or> (\<exists>e. res = Task_raised e \<and> \<not> is_rule_error e))"
  by (auto simp: finalize_run_success_def build_auto_classify_accounts_summary_def split: sum.splits option.splits prod.splits)

lemma early_ends:
  "finalize_run_no_rules env rid inputs k st = (st', res) \<Longrightarrow> res = Task_returned False MSG_NO_RULES rid \<or> (\<exists>e. res = Task_raised e \<and> \<not> is_rule_error e)"
  "finalize_run_no_accounts env rid inputs rules st = (st', res) \<Longrightarrow> res = Task_returned True MSG_NO_ACCOUNTS rid \<or> (\<exists>e. res = Task_raised e \<and> \<not> is_rule_error e)"
  by (auto simp: finalize_run_no_rules_def finalize_run_no_accounts_def build_auto_classify_accounts_summary_def
    split: sum.splits option.splits prod.splits)

lemma classify_run_loop:
  assumes "classify_run env t instance_id scope rid st = (st', res)"
    and "res = Task_returned True MSG_DONE rid' \<or> (\<exists>e. res = Task_raised e \<and> is_rule_error e)"
  obtains st2 st3 outcome where
    "cs_assignments st2 = cleanup_assignments_for_run (fetch_accounts t instance_id scope) instance_id scope (cs_assignments st)"
    "run_rules env rid (build_accounts_by_db_type (fetch_accounts t instance_id scope)) (fetch_active_rules t) 0 0 st2 = (st3, outcome)"
    "cs_assignments st' = cs_assignments st3"
    "res = Task_returned True MSG_DONE rid' \<Longrightarrow> \<exists>m a. outcome = Loop_done m a"
    "\<And>e. res = Task_raised e \<Longrightarrow> outcome = Loop_raised e \<and> st' = st3"
proof -
  let ?rules = "fetch_active_rules t" and ?accounts = "fetch_accounts t instance_id scope" and ?inputs = "scope_inputs instance_id scope"
  have rules: "?rules \<noteq> []"
    using assms early_ends(1) by (fastforce simp: classify_run_def Let_def)
  then obtain db where db: "init_items rid (map (\<lambda>r. \<lparr>ii_type = ''rule'', ii_key = show_int (cr_id r), ii_name = Some (cr_name r),
               ii_instance = None\<rparr>) ?rules) (cs_runs st) = Inr db"
    using assms by (fastforce simp: classify_run_def Let_def split: sum.splits)
  have accounts: "?accounts \<noteq> []"
    using assms rules db early_ends(2) messages_differ by (fastforce simp: classify_run_def Let_def)
  let ?st2 = "st\<lparr>cs_runs := db, cs_assignments := cleanup_assignments_for_run ?accounts instance_id scope (cs_assignments st)\<rparr>"
  obtain st3 outcome where loop: "run_rules env rid (build_accounts_by_db_type ?accounts) ?rules 0 0 ?st2 = (st3, outcome)"
    by (metis surj_pair)
  have run: "(case outcome of Loop_raised e \<Rightarrow> (st3, Task_raised e) | Loop_cancelled \<Rightarrow> (st3, Task_returned True MSG_CANCELLED rid)
      | Loop_done m a \<Rightarrow> finalize_run_success env rid ?inputs (length ?rules) (length ?accounts) m a st3) = (st', res)"
    using assms(1) rules db accounts loop by (simp add: classify_run_def Let_def)
  show ?thesis
  proof (rule that [OF _ loop])
    show "cs_assignments ?st2 = cleanup_assignments_for_run ?accounts instance_id scope (cs_assignments st)" by simp
    show "cs_assignments st' = cs_assignments st3" using run success_rows by (auto split: loop_end.splits)
    show "\<exists>m a. outcome = Loop_done m a" if "res = Task_returned True MSG_DONE rid'"
      using run that messages_differ by (auto split: loop_end.splits)
    show "outcome = Loop_raised e \<and> st' = st3" if "res = Task_raised e" for e
      using run that assms(2) success_rows by (fastforce split: loop_end.splits)
  qed
qed

lemma cleaned_rows:
  assumes "\<forall>p \<in> set accounts. 0 < pr_id p"
  shows "p \<in> set accounts \<Longrightarrow> filter (\<lambda>g. ag_account g = pr_id p \<and> ag_class g = c) (cleanup_assignments_for_run accounts instance_id scope rows) = []"
    and "i \<notin> pr_id ` set accounts \<Longrightarrow> filter (\<lambda>g. ag_account g = i) (cleanup_assignments_for_run accounts instance_id scope rows)
      = (if scope = None \<and> instance_id = None then [] else filter (\<lambda>g. ag_account g = i) rows)"
proof -
  have ids: "filter (\<lambda>i. 0 < i) (map pr_id accounts) = map pr_id accounts" using assms by (auto intro!: filter_True)
  show "filter (\<lambda>g. ag_account g = pr_id p \<and> ag_class g = c) (cleanup_assignments_for_run accounts instance_id scope rows) = []" if "p \<in> set accounts"
    using that by (auto simp: cleanup_assignments_for_run_def cleanup_all_assignments_def cleanup_assignments_for_accounts_def ids Let_def filter_empty_conv)
  show "filter (\<lambda>g. ag_account g = i) (cleanup_assignments_for_run accounts instance_id scope rows)
      = (if scope = None \<and> instance_id = None then [] else filter (\<lambda>g. ag_account g = i) rows)" if "i \<notin> pr_id ` set accounts"
    using that by (auto simp: cleanup_assignments_for_run_def cleanup_all_assignments_def cleanup_assignments_for_accounts_def ids Let_def
      intro!: filter_cong)
qed

lemma assigned_after_rules:
  assumes "distinct (map pr_id accounts)" "\<forall>p \<in> set accounts. 0 < pr_id p"
    and "cs_assignments st' = apply_rules env accounts rules (cleanup_assignments_for_run accounts instance_id scope (cs_assignments st))"
  shows "\<forall>p \<in> set accounts. assigned_by st' (pr_id p) c = deciding_rule env (accepted_rules env accounts rules) p c"
    and "\<forall>i. i \<notin> pr_id ` set accounts \<longrightarrow> assigned_by st' i c = (if scope = None \<and> instance_id = None then [] else assigned_by st i c)"
proof -
  let ?rules = "accepted_rules env accounts rules"
  show "\<forall>p \<in> set accounts. assigned_by st' (pr_id p) c = deciding_rule env ?rules p c"
  proof
    fix p assume p: "p \<in> set accounts"
    have "\<not> (\<exists>r \<in> set ?rules. cr_classification r = c \<and> rule_matches env r p) \<Longrightarrow> deciding_rule env ?rules p c = []"
      by (auto simp: deciding_rule_def filter_empty_conv split: list.splits)
    then show "assigned_by st' (pr_id p) c = deciding_rule env ?rules p c"
      unfolding assigned_by_def assms(3) apply_rules_assigned [OF assms(1) p] cleaned_rows(1) [OF assms(2) p] by simp
  qed
  have two: "filter (\<lambda>g. ag_account g = i \<and> ag_class g = c) xs = filter (\<lambda>g. ag_class g = c) (filter (\<lambda>g. ag_account g = i) xs)" for i xs
    by (simp add: conj_commute)
  show "\<forall>i. i \<notin> pr_id ` set accounts \<longrightarrow> assigned_by st' i c = (if scope = None \<and> instance_id = None then [] else assigned_by st i c)"
    unfolding assigned_by_def two assms(3) using cleaned_rows(2) [OF assms(2)] by (auto simp: apply_rules_others)
qed

definition task_ids_ok :: "class_tables \<Rightarrow> bool" where
  "task_ids_ok t = (distinct (map pr_id (ct_permissions t)) \<and> (\<forall>p \<in> set (ct_permissions t). 0 < pr_id p))"

lemma fetched_ids:
  assumes "task_ids_ok t"
  shows "distinct (map pr_id (fetch_accounts t instance_id scope))" "\<forall>p \<in> set (fetch_accounts t instance_id scope). 0 < pr_id p"
  using assms by (auto simp: task_ids_ok_def fetch_accounts_def Let_def distinct_map_filter)

section \<open>An example\<close>

definition class_rule_of :: "int \<Rightarrow> int \<Rightarrow> string \<Rightarrow> class_rule" where
  "class_rule_of i c text = \<lparr>cr_id = i, cr_classification = c, cr_db_type = Some ''mysql'', cr_name = ''r'', cr_expression = text,
     cr_active = True, cr_created_at = i\<rparr>"

definition class_account :: permission_row where
  "class_account = \<lparr>pr_id = 1, pr_instance = 1, pr_db_type = Some ''mysql'', pr_account = Some 3, pr_username = ''app'',
     pr_owner_type = ''instance'', pr_owner_id = Some 1, pr_cluster = None, pr_group = None, pr_type_specific = PNone,
     pr_snapshot = PNone, pr_facts = PDict [(''capabilities'', PList [PStr ''SUPERUSER''])], pr_change_type = ''add'',
     pr_change_time = 0, pr_synced = 0\<rparr>"

definition class_sample :: "class_rule list \<Rightarrow> class_tables" where
  "class_sample rules = \<lparr>ct_rules = rules, ct_permissions = [class_account],
     ct_instances = [\<lparr>ci_id = 1, ci_active = True, ci_deleted_at = None\<rparr>],
     ct_accounts = [\<lparr>ar_id = 3, ar_instance = 1, ar_username = ''app'', ar_db_type = ''mysql'', ar_owner_type = ''instance'',
       ar_owner_id = Some 1, ar_cluster = None, ar_group = None, ar_active = True, ar_deleted_at = None, ar_updated_at = 0\<rparr>]\<rparr>"

definition class_env :: task_env where
  "class_env = \<lparr>te_model = \<lambda>_ v. Some (''auto_classify_accounts'', v),
     te_loads = \<lambda>s. if s = ''su'' then Some (PDict [(''version'', PInt 4), (''expr'', PDict [(''fn'', PStr ''is_superuser''), (''args'', PDict [])])]) else None,
     te_now = 5, te_ms = \<lambda>_. 0, te_total_ms = 1, te_fresh = ''run'', te_upsert_fails = \<lambda>_. False, te_other = \<lambda>_ db. db\<rparr>"

definition class_store_empty :: class_store where
  "class_store_empty = \<lparr>cs_runs = \<lparr>rdb_runs = [], rdb_items = []\<rparr>, cs_assignments = []\<rparr>"

lemma class_run_done:
  "(case auto_classify_accounts class_env (class_sample [class_rule_of 1 7 ''su'', class_rule_of 2 7 ''su'']) None PNone None None class_store_empty
    of (st, r) \<Rightarrow> r = Task_returned True MSG_DONE ''run'')"
  by code_simp

lemma class_run_failed:
  "(case auto_classify_accounts class_env (class_sample [class_rule_of 1 7 ''su'', class_rule_of 2 7 ''bad'']) None PNone None None class_store_empty
    of (st, r) \<Rightarrow> r = Task_raised (Rule_json 2 ''r''))"
  by code_simp

lemma class_sample_ids: "task_ids_ok (class_sample rules) \<and> (\<forall>xs. \<not> te_upsert_fails class_env xs)"
  by (simp add: task_ids_ok_def class_sample_def class_account_def class_env_def)

lemma class_sample_fetched: "class_account \<in> set (fetch_accounts (class_sample rules) None None)"
  by (simp add: fetch_accounts_def class_sample_def classifiable_def in_scope_def class_account_def)

lemma class_sample_scope: "resolve_scope None PNone = Inr None"
  by (simp add: resolve_scope_def parse_account_scope_def)

lemma task_assigns:
  assumes "task_ids_ok t"
    and "auto_classify_accounts env t instance_id scope_text created_by run_id st = (st', Task_returned True MSG_DONE rid)"
  shows "\<exists>scope. resolve_scope instance_id scope_text = Inr scope
    \<and> (\<forall>p \<in> set (fetch_accounts t instance_id scope). \<forall>c. assigned_by st' (pr_id p) c
         = deciding_rule env (accepted_rules env (fetch_accounts t instance_id scope) (fetch_active_rules t)) p c)
    \<and> (\<forall>i c. i \<notin> pr_id ` set (fetch_accounts t instance_id scope) \<longrightarrow>
         assigned_by st' i c = (if scope = None \<and> instance_id = None then [] else assigned_by st i c))"
proof -
  obtain scope rid1 db where scope: "resolve_scope instance_id scope_text = Inr scope"
    and run: "classify_run env t instance_id scope rid1 (st\<lparr>cs_runs := db\<rparr>) = (st', Task_returned True MSG_DONE rid)"
    by (rule task_resolves [OF assms(2)]) (simp_all add: messages_differ)
  obtain st2 st3 outcome where st2: "cs_assignments st2 = cleanup_assignments_for_run (fetch_accounts t instance_id scope) instance_id scope (cs_assignments st)"
    and loop: "run_rules env rid1 (build_accounts_by_db_type (fetch_accounts t instance_id scope)) (fetch_active_rules t) 0 0 st2 = (st3, outcome)"
    and st3: "cs_assignments st' = cs_assignments st3" "\<exists>m a. outcome = Loop_done m a"
    by (rule classify_run_loop [OF run]) auto
  from run_rules_assignments [OF loop] st3 st2 have
    "cs_assignments st' = apply_rules env (fetch_accounts t instance_id scope) (fetch_active_rules t)
      (cleanup_assignments_for_run (fetch_accounts t instance_id scope) instance_id scope (cs_assignments st))" by auto
  from assigned_after_rules [OF fetched_ids [OF assms(1)] this] scope show ?thesis by blast
qed

section \<open>The properties\<close>


text \<open>Two rules of one class, of which the database refuses the second.\<close>

definition refusing_env :: task_env where
  "refusing_env = class_env\<lparr>te_upsert_fails := \<lambda>xs. list_ex (\<lambda>g. ag_rule g = Some 2) xs\<rparr>"

lemma refusing_run:
  "(case auto_classify_accounts refusing_env (class_sample [class_rule_of 1 7 ''su'', class_rule_of 2 7 ''su'']) None PNone None None class_store_empty
    of (st, r) \<Rightarrow> r = Task_returned True MSG_DONE ''run'')"
  by code_simp




end
