(* ===== verification/Paging.thy ===== *)
theory Paging
  imports Prelude
begin

text \<open>
  Loops that ask a server for page after page and stop when a page names no successor. Whether such a
  loop ends is up to the server. What all of them share is proved once: the locale
  \<^verbatim>\<open>paged_loop\<close> takes the body of a loop and the loop itself, which returns exactly when
  finitely many turns of the body end it.
\<close>

section \<open>Turns\<close>

text \<open>The body gives the next state or the result.\<close>

fun run_turns :: "('s \<Rightarrow> 's + 'r) \<Rightarrow> nat \<Rightarrow> 's \<Rightarrow> 's + 'r" where
  "run_turns body 0 s = Inl s"
| "run_turns body (Suc n) s = (case body s of Inl s' \<Rightarrow> run_turns body n s' | Inr r \<Rightarrow> Inr r)"

locale paged_loop =
  fixes body :: "'s \<Rightarrow> 's + 'r"
    and loop :: "'s \<Rightarrow> 'r option"
  assumes unfold_loop: "loop s = (case body s of Inl s' \<Rightarrow> loop s' | Inr r \<Rightarrow> Some r)"
    and loop_ends: "loop s = Some r \<Longrightarrow> \<exists>n. run_turns body n s = Inr r"
begin

lemma turns_return: "run_turns body n s = Inr r \<Longrightarrow> loop s = Some r"
proof (induction n arbitrary: s)
  case (Suc n)
  then show ?case by (subst unfold_loop) (auto split: sum.splits)
qed simp

lemma returns_iff: "loop s = Some r \<longleftrightarrow> (\<exists>n. run_turns body n s = Inr r)"
  using turns_return loop_ends by blast

text \<open>A loop whose every turn can go on never returns.\<close>

lemma never_returns:
  assumes "P s" "\<And>s. P s \<Longrightarrow> \<exists>s'. body s = Inl s' \<and> P s'"
  shows "loop s = None"
proof -
  have "\<exists>s'. run_turns body n s = Inl s' \<and> P s'" for n
    using assms(1)
  proof (induction n arbitrary: s)
    case (Suc n)
    from assms(2) [OF Suc.prems] Suc.IH show ?case by auto
  qed simp
  then have "run_turns body n s \<noteq> Inr r" for n r by (metis Inl_Inr_False)
  then show ?thesis using loop_ends by (cases "loop s") blast+
qed

text \<open>What holds before every turn, and what the last turn makes of it.\<close>

lemma result_invariant:
  assumes "loop s = Some r" "P s" "\<And>s s'. P s \<Longrightarrow> body s = Inl s' \<Longrightarrow> P s'" "\<And>s r. P s \<Longrightarrow> body s = Inr r \<Longrightarrow> Q r"
  shows "Q r"
proof -
  obtain n where "run_turns body n s = Inr r" using loop_ends [OF assms(1)] by blast
  then show ?thesis using assms(2)
  proof (induction n arbitrary: s)
    case (Suc n)
    then show ?case by (cases "body s") (auto dest: assms(3,4))
  qed simp
qed

end

end
