(* ===== verification/Jumpserver_Provider.thy ===== *)
theory Jumpserver_Provider
  imports Paging Account_Scope Permission_Diff "HOL-Library.Sublist"
begin

text \<open>
  The client of JumpServer: \<^verbatim>\<open>HttpJumpServerProvider\<close> of
  \<^verbatim>\<open>app/services/jumpserver/provider.py\<close>. The assets of all pages are collected, each item
  taken, refused as of an unsupported type, or refused as incomplete.

  A request is \<^verbatim>\<open>je_fetch n url\<close>, with the number of the request: the decoded document, or the
  text of what \<^verbatim>\<open>_request_json\<close> raises. \<^verbatim>\<open>je_urljoin\<close> is \<^verbatim>\<open>urllib.parse.urljoin\<close>;
  \<^verbatim>\<open>urlsplit\<close> is modelled for hosts without brackets. \<^verbatim>\<open>je_container\<close> is \<^verbatim>\<open>str\<close> of
  a list or dictionary.
\<close>

section \<open>URLs\<close>

definition is_scheme_char :: "char \<Rightarrow> bool" where
  "is_scheme_char c = (let n = of_char c :: nat in (48 \<le> n \<and> n \<le> 57) \<or> (65 \<le> n \<and> n \<le> 90) \<or> (97 \<le> n \<and> n \<le> 122)
     \<or> c \<in> {CHR ''+'', CHR ''-'', CHR ''.''})"

definition is_ascii_alpha :: "char \<Rightarrow> bool" where
  "is_ascii_alpha c = (let n = of_char c :: nat in (65 \<le> n \<and> n \<le> 90) \<or> (97 \<le> n \<and> n \<le> 122))"

text \<open>Scheme, network location and path of \<^verbatim>\<open>urlsplit\<close>.\<close>

definition urlsplit :: "string \<Rightarrow> string \<times> string \<times> string" where
  "urlsplit url =
    (let url = filter (\<lambda>c. c \<notin> {CHR 0x09, CHR 0x0A, CHR 0x0D}) (dropWhile (\<lambda>c. (of_char c :: nat) \<le> 32) url);
         before = takeWhile (\<lambda>c. c \<noteq> CHR '':'') url;
         has_scheme = (before \<noteq> [] \<and> before \<noteq> url \<and> is_ascii_alpha (hd before) \<and> list_all is_scheme_char before);
         scheme = (if has_scheme then lower before else []);
         rest = (if has_scheme then drop (length before + 1) url else url);
         netloc = (if take 2 rest = ''//'' then takeWhile (\<lambda>c. c \<notin> {CHR ''/'', CHR ''?'', CHR ''#''}) (drop 2 rest) else []);
         rest = (if take 2 rest = ''//'' then drop (length netloc + 2) rest else rest)
     in (scheme, netloc, takeWhile (\<lambda>c. c \<notin> {CHR ''?'', CHR ''#''}) rest))"

definition rstrip_slash :: "string \<Rightarrow> string" where
  "rstrip_slash s = rev (dropWhile (\<lambda>c. c = CHR ''/'') (rev s))"

definition normalize_base_url :: "string \<Rightarrow> string" where
  "normalize_base_url base_url = (case urlsplit (strip base_url) of (scheme, netloc, path) \<Rightarrow>
     if scheme = [] \<or> netloc = [] then rstrip_slash base_url
     else let normalized_path = rstrip_slash path;
              normalized_path = (if suffix ''/api/docs'' normalized_path
                then take (length normalized_path - length ''/api/docs'') normalized_path else normalized_path)
          in scheme @ ''://'' @ netloc @ normalized_path)"

definition JUMPSERVER_DATABASE_ASSETS_PATH :: string where
  "JUMPSERVER_DATABASE_ASSETS_PATH = ''/api/v1/assets/assets/''"

definition build_initial_url :: "string \<Rightarrow> string" where
  "build_initial_url base_url = normalize_base_url base_url @ JUMPSERVER_DATABASE_ASSETS_PATH @ ''?limit=200&offset=0''"

record js_env =
  je_fetch :: "nat \<Rightarrow> string \<Rightarrow> string + pv"
  je_urljoin :: "string \<Rightarrow> string \<Rightarrow> string"
  je_container :: "pv \<Rightarrow> string"

definition resolve_next_url :: "js_env \<Rightarrow> string \<Rightarrow> pv \<Rightarrow> string option" where
  "resolve_next_url env base_url next_url = (case next_url of
     PStr s \<Rightarrow>
       if strip s = [] then None
       else if prefix ''http://'' (strip s) \<or> prefix ''https://'' (strip s) then Some (strip s)
       else Some (je_urljoin env (normalize_base_url base_url @ ''/'') (dropWhile (\<lambda>c. c = CHR ''/'') (strip s)))
   | _ \<Rightarrow> None)"

section \<open>Pages and assets\<close>

fun dict_items :: "pv list \<Rightarrow> pdict list" where
  "dict_items [] = []"
| "dict_items (x # xs) = (case x of PDict d \<Rightarrow> d # dict_items xs | _ \<Rightarrow> dict_items xs)"

definition UNSUPPORTED_PAGE :: string where
  "UNSUPPORTED_PAGE = ''JumpServer '' @ utf8 [0xE8, 0xB5, 0x84, 0xE4, 0xBA, 0xA7, 0xE5, 0x88, 0x97, 0xE8, 0xA1, 0xA8, 0xE5, 0x93, 0x8D, 0xE5, 0xBA, 0x94, 0xE6, 0xA0, 0xBC, 0xE5, 0xBC, 0x8F, 0xE4, 0xB8, 0x8D, 0xE5, 0x8F, 0x97, 0xE6, 0x94, 0xAF, 0xE6, 0x8C, 0x81]"

definition parse_page_payload :: "pv \<Rightarrow> string + (pdict list \<times> pv)" where
  "parse_page_payload payload = (case payload of
     PList xs \<Rightarrow> Inr (dict_items xs, PNone)
   | PDict d \<Rightarrow> (case dget d ''results'' of
       PList xs \<Rightarrow> Inr (dict_items xs, dget d ''next'')
     | _ \<Rightarrow> Inl UNSUPPORTED_PAGE)
   | _ \<Rightarrow> Inl UNSUPPORTED_PAGE)"

definition database_type_aliases :: "string dict" where
  "database_type_aliases = [(''mssql'', SQLSERVER), (''sql server'', SQLSERVER), (''postgres'', POSTGRESQL), (''pg'', POSTGRESQL)]"

definition normalize_database_type :: "string \<Rightarrow> string" where
  "normalize_database_type db_type = (let normalized = strip (lower db_type)
     in case map_of database_type_aliases normalized of None \<Rightarrow> normalized | Some t \<Rightarrow> t)"

definition relational_types :: "string list" where
  "relational_types = [MYSQL, POSTGRESQL, SQLSERVER, ORACLE]"

definition map_candidate :: "string \<Rightarrow> string option" where
  "map_candidate candidate =
    (let normalized = normalize_database_type candidate; lowered = lower (strip candidate)
     in if normalized = ''mariadb'' then Some MYSQL
        else if normalized \<in> set relational_types then Some normalized
        else if sublist ''mariadb'' lowered \<or> sublist ''mysql'' lowered then Some MYSQL
        else if sublist ''postgres'' lowered then Some POSTGRESQL
        else if sublist ''sql server'' lowered \<or> sublist ''mssql'' lowered then Some SQLSERVER
        else if sublist ''oracle'' lowered then Some ORACLE
        else None)"

definition text_candidates :: "string list \<Rightarrow> pdict \<Rightarrow> string list" where
  "text_candidates keys d = concat (map (\<lambda>key. case dget d key of
     PStr s \<Rightarrow> if strip s = [] then [] else [s] | _ \<Rightarrow> []) keys)"

fun first_some :: "('a \<Rightarrow> 'b option) \<Rightarrow> 'a list \<Rightarrow> 'b option" where
  "first_some f [] = None"
| "first_some f (x # xs) = (case f x of None \<Rightarrow> first_some f xs | Some y \<Rightarrow> Some y)"

definition resolve_db_type :: "pdict \<Rightarrow> string option" where
  "resolve_db_type item = first_some map_candidate
     ((case dget item ''platform'' of PDict platform \<Rightarrow> text_candidates [''name'', ''type'', ''slug''] platform | _ \<Rightarrow> []) @
      text_candidates [''db_type'', ''database_type'', ''platform_name'', ''protocol'', ''type''] item)"

text \<open>\<^verbatim>\<open>int(value)\<close>, with \<^verbatim>\<open>None\<close> for the values that are skipped.\<close>

definition port_value :: "pv \<Rightarrow> int option" where
  "port_value value = (case value of
     PInt n \<Rightarrow> Some n | PBool b \<Rightarrow> Some (if b then 1 else 0) | PStr s \<Rightarrow> py_int s | _ \<Rightarrow> None)"

definition default_ports :: "int dict" where
  "default_ports = [(MYSQL, 3306), (POSTGRESQL, 5432), (SQLSERVER, 1433), (ORACLE, 1521)]"

definition resolve_port :: "pdict \<Rightarrow> string \<Rightarrow> int option" where
  "resolve_port item db_type = (case first_some (\<lambda>key. port_value (dget item key)) [''port'', ''protocol_port'', ''service_port''] of
     Some n \<Rightarrow> Some n | None \<Rightarrow> map_of default_ports db_type)"

definition pick_string :: "js_env \<Rightarrow> pdict \<Rightarrow> string list \<Rightarrow> string option" where
  "pick_string env item keys = first_some (\<lambda>key. case dget item key of
     PNone \<Rightarrow> None
   | value \<Rightarrow> (let resolved = strip (py_str (je_container env) value) in if resolved = [] then None else Some resolved)) keys"

record js_asset =
  ja_external_id :: string
  ja_name :: string
  ja_db_type :: string
  ja_host :: string
  ja_port :: int
  ja_raw_payload :: pdict

datatype asset_outcome = Supported js_asset | Unsupported | Invalid

definition normalize_asset :: "js_env \<Rightarrow> pdict \<Rightarrow> asset_outcome" where
  "normalize_asset env item = (case resolve_db_type item of
     None \<Rightarrow> Unsupported
   | Some db_type \<Rightarrow>
       (case (pick_string env item [''id'', ''uuid''], pick_string env item [''name''],
              pick_string env item [''address'', ''ip'', ''ip_address'', ''host'', ''hostname''], resolve_port item db_type) of
          (Some external_id, Some name, Some host, Some port) \<Rightarrow>
            Supported \<lparr>ja_external_id = external_id, ja_name = name, ja_db_type = db_type, ja_host = host, ja_port = port,
              ja_raw_payload = item\<rparr>
        | _ \<Rightarrow> Invalid))"

section \<open>The collection\<close>

record js_collection =
  jc_assets :: "js_asset list"
  jc_received :: nat
  jc_supported :: nat
  jc_unsupported :: nat
  jc_invalid :: nat

record js_loop =
  jl_requests :: nat
  jl_next :: "string option"
  jl_assets :: "js_asset list"
  jl_received :: nat
  jl_unsupported :: nat
  jl_invalid :: nat

definition take_item :: "js_env \<Rightarrow> pdict \<Rightarrow> js_loop \<Rightarrow> js_loop" where
  "take_item env item st = (case normalize_asset env item of
     Supported asset \<Rightarrow> st\<lparr>jl_assets := jl_assets st @ [asset]\<rparr>
   | Unsupported \<Rightarrow> st\<lparr>jl_unsupported := jl_unsupported st + 1\<rparr>
   | Invalid \<Rightarrow> st\<lparr>jl_invalid := jl_invalid st + 1\<rparr>)"

text \<open>One turn of \<^verbatim>\<open>while next_url\<close>: the next state, or what the function returns or raises.\<close>

definition asset_turn :: "js_env \<Rightarrow> string \<Rightarrow> js_loop \<Rightarrow> js_loop + (string + js_collection)" where
  "asset_turn env base_url st = (case jl_next st of
     None \<Rightarrow> Inr (Inr \<lparr>jc_assets = jl_assets st, jc_received = jl_received st, jc_supported = length (jl_assets st),
       jc_unsupported = jl_unsupported st, jc_invalid = jl_invalid st\<rparr>)
   | Some next_url \<Rightarrow>
       if next_url = [] then Inr (Inr \<lparr>jc_assets = jl_assets st, jc_received = jl_received st, jc_supported = length (jl_assets st),
         jc_unsupported = jl_unsupported st, jc_invalid = jl_invalid st\<rparr>)
       else (case je_fetch env (jl_requests st) next_url of
           Inl e \<Rightarrow> Inr (Inl e)
         | Inr payload \<Rightarrow> (case parse_page_payload payload of
             Inl e \<Rightarrow> Inr (Inl e)
           | Inr (page_items, raw_next_url) \<Rightarrow>
               let st1 = st\<lparr>jl_received := jl_received st + length page_items\<rparr>;
                   st2 = fold (take_item env) page_items st1
               in Inl (st2\<lparr>jl_requests := jl_requests st + 1, jl_next := resolve_next_url env base_url raw_next_url\<rparr>))))"

partial_function (option) asset_loop :: "js_env \<Rightarrow> string \<Rightarrow> js_loop \<Rightarrow> (string + js_collection) option" where
  "asset_loop env base_url st = (case asset_turn env base_url st of
     Inl st' \<Rightarrow> asset_loop env base_url st'
   | Inr r \<Rightarrow> Some r)"

definition list_database_assets :: "js_env \<Rightarrow> string \<Rightarrow> (string + js_collection) option" where
  "list_database_assets env base_url = asset_loop env base_url
     \<lparr>jl_requests = 0, jl_next = Some (build_initial_url base_url), jl_assets = [], jl_received = 0, jl_unsupported = 0, jl_invalid = 0\<rparr>"

section \<open>The loop\<close>

interpretation assets: paged_loop "asset_turn env base_url" "asset_loop env base_url" for env base_url
proof
  show "asset_loop env base_url s = (case asset_turn env base_url s of Inl s' \<Rightarrow> asset_loop env base_url s' | Inr r \<Rightarrow> Some r)" for s
    by (rule asset_loop.simps)
  show "asset_loop env base_url s = Some r \<Longrightarrow> \<exists>n. run_turns (asset_turn env base_url) n s = Inr r" for s r
  proof (rule asset_loop.raw_induct [where P = "\<lambda>env base_url s r. \<exists>n. run_turns (asset_turn env base_url) n s = Inr r"])
    fix loop env base_url s r
    assume IH: "\<And>env base_url s r. loop env base_url s = Some r \<Longrightarrow> \<exists>n. run_turns (asset_turn env base_url) n s = Inr r"
      and r: "(case asset_turn env base_url s of Inl s' \<Rightarrow> loop env base_url s' | Inr r \<Rightarrow> Some r) = Some r"
    show "\<exists>n. run_turns (asset_turn env base_url) n s = Inr r"
    proof (cases "asset_turn env base_url s")
      case (Inl s')
      with r IH obtain n where "run_turns (asset_turn env base_url) n s' = Inr r" by fastforce
      with Inl show ?thesis by (intro exI [of _ "Suc n"]) simp
    next
      case (Inr r')
      with r show ?thesis by (intro exI [of _ 1]) simp
    qed
  qed
qed

end
