(* ===== verification/Jumpserver_Pages.thy ===== *)
theory Jumpserver_Pages
  imports Jumpserver_Provider
begin

text \<open>
  When the collection of assets ends, and what it collects: the pages the server links, one after the
  other.
\<close>

section \<open>The chain of pages\<close>

text \<open>The page of the request \<^verbatim>\<open>n\<close>, when there is a link to follow and the answer is a page.\<close>

definition page_of :: "js_env \<Rightarrow> nat \<Rightarrow> string option \<Rightarrow> (pdict list \<times> pv) option" where
  "page_of env n url = (case url of
     None \<Rightarrow> None
   | Some u \<Rightarrow> if u = [] then None
       else (case je_fetch env n u of
           Inl e \<Rightarrow> None
         | Inr payload \<Rightarrow> (case parse_page_payload payload of Inl e \<Rightarrow> None | Inr page \<Rightarrow> Some page)))"

fun page_url :: "js_env \<Rightarrow> string \<Rightarrow> nat \<Rightarrow> string option" where
  "page_url env base_url 0 = Some (build_initial_url base_url)"
| "page_url env base_url (Suc n) = (case page_of env n (page_url env base_url n) of
     None \<Rightarrow> None | Some (page_items, raw_next_url) \<Rightarrow> resolve_next_url env base_url raw_next_url)"

definition page_at :: "js_env \<Rightarrow> string \<Rightarrow> nat \<Rightarrow> (pdict list \<times> pv) option" where
  "page_at env base_url n = page_of env n (page_url env base_url n)"

definition items_before :: "js_env \<Rightarrow> string \<Rightarrow> nat \<Rightarrow> pdict list" where
  "items_before env base_url n = concat (map (\<lambda>k. case page_at env base_url k of None \<Rightarrow> [] | Some p \<Rightarrow> fst p) [0..<n])"

definition supported_assets :: "js_env \<Rightarrow> pdict list \<Rightarrow> js_asset list" where
  "supported_assets env items = concat (map (\<lambda>item. case normalize_asset env item of Supported a \<Rightarrow> [a] | _ \<Rightarrow> []) items)"

definition count_outcome :: "js_env \<Rightarrow> asset_outcome \<Rightarrow> pdict list \<Rightarrow> nat" where
  "count_outcome env what items = length (filter (\<lambda>item. normalize_asset env item = what) items)"

lemma take_items: "fold (take_item env) items st = st\<lparr>jl_assets := jl_assets st @ supported_assets env items,
    jl_unsupported := jl_unsupported st + count_outcome env Unsupported items,
    jl_invalid := jl_invalid st + count_outcome env Invalid items\<rparr>"
  by (induction items arbitrary: st)
    (auto simp: take_item_def supported_assets_def count_outcome_def split: asset_outcome.split)

lemma outcomes_add_up: "length (supported_assets env items) + count_outcome env Unsupported items + count_outcome env Invalid items = length items"
  by (induction items) (auto simp: supported_assets_def count_outcome_def split: asset_outcome.split)

section \<open>The states of the loop\<close>

definition loop_at :: "js_env \<Rightarrow> string \<Rightarrow> nat \<Rightarrow> js_loop" where
  "loop_at env base_url n = (let items = items_before env base_url n in
     \<lparr>jl_requests = n, jl_next = page_url env base_url n, jl_assets = supported_assets env items, jl_received = length items,
      jl_unsupported = count_outcome env Unsupported items, jl_invalid = count_outcome env Invalid items\<rparr>)"

definition collection_of :: "js_env \<Rightarrow> pdict list \<Rightarrow> js_collection" where
  "collection_of env items = \<lparr>jc_assets = supported_assets env items, jc_received = length items,
     jc_supported = length (supported_assets env items), jc_unsupported = count_outcome env Unsupported items,
     jc_invalid = count_outcome env Invalid items\<rparr>"

lemma turn_more:
  assumes "page_at env base_url n = Some p"
  shows "asset_turn env base_url (loop_at env base_url n) = Inl (loop_at env base_url (Suc n))"
proof -
  have more: "items_before env base_url (Suc n) = items_before env base_url n @ fst p"
    using assms by (simp add: items_before_def)
  have app: "supported_assets env (xs @ ys) = supported_assets env xs @ supported_assets env ys"
    "count_outcome env w (xs @ ys) = count_outcome env w xs + count_outcome env w ys" for xs ys w
    by (simp_all add: supported_assets_def count_outcome_def)
  show ?thesis
    using assms more by (auto simp: asset_turn_def loop_at_def Let_def page_at_def page_of_def take_items app
      split: option.splits sum.splits prod.splits if_splits)
qed

lemma turn_last:
  assumes "page_at env base_url n = None"
  shows "\<exists>r. asset_turn env base_url (loop_at env base_url n) = Inr r
    \<and> (if page_url env base_url n \<in> {None, Some []} then r = Inr (collection_of env (items_before env base_url n)) else \<exists>e. r = Inl e)"
  using assms by (auto simp: asset_turn_def loop_at_def Let_def page_at_def page_of_def collection_of_def
    split: option.splits sum.splits prod.splits if_splits)

lemma loop_reaches: "\<forall>k < m. page_at env base_url (n + k) \<noteq> None \<Longrightarrow>
    run_turns (asset_turn env base_url) m (loop_at env base_url n) = Inl (loop_at env base_url (n + m))"
proof (induction m arbitrary: n)
  case (Suc m)
  then obtain p where "page_at env base_url n = Some p" by (metis add_0_right not_None_eq zero_less_Suc)
  moreover have "\<forall>k < m. page_at env base_url (Suc n + k) \<noteq> None"
    using Suc.prems by (metis Suc_less_eq add_Suc add_Suc_right)
  ultimately show ?case using Suc.IH [of "Suc n"] turn_more by simp
qed simp

lemma list_assets_loop: "list_database_assets env base_url = asset_loop env base_url (loop_at env base_url 0)"
  by (simp add: list_database_assets_def loop_at_def items_before_def supported_assets_def count_outcome_def)

lemma loop_follows:
  assumes "\<forall>k < n. page_at env base_url k \<noteq> None"
  shows "asset_loop env base_url (loop_at env base_url 0) = asset_loop env base_url (loop_at env base_url n)"
  using assms
proof (induction n)
  case (Suc n)
  then have "asset_loop env base_url (loop_at env base_url 0) = asset_loop env base_url (loop_at env base_url n)" by simp
  moreover obtain p where "page_at env base_url n = Some p" using Suc.prems by blast
  ultimately show ?case
    using assets.unfold_loop [of env base_url "loop_at env base_url n"] turn_more by simp
qed simp

section \<open>The collection\<close>

lemma collection_never_ends:
  assumes "\<forall>n. page_at env base_url n \<noteq> None"
  shows "list_database_assets env base_url = None"
  unfolding list_assets_loop
proof (rule assets.never_returns [where P = "\<lambda>s. \<exists>n. s = loop_at env base_url n"])
  show "\<exists>s'. asset_turn env base_url s = Inl s' \<and> (\<exists>n. s' = loop_at env base_url n)"
    if "\<exists>n. s = loop_at env base_url n" for s
    using that assms turn_more by fastforce
qed blast

lemma collection_ends:
  assumes "page_at env base_url n = None" "\<forall>k < n. page_at env base_url k \<noteq> None"
  shows "if page_url env base_url n \<in> {None, Some []}
    then list_database_assets env base_url = Some (Inr (collection_of env (items_before env base_url n)))
    else \<exists>e. list_database_assets env base_url = Some (Inl e)"
  using turn_last [OF assms(1)] assets.unfold_loop [of env base_url "loop_at env base_url n"]
  unfolding list_assets_loop loop_follows [OF assms(2)] by auto

lemma collection_returns: "list_database_assets env base_url \<noteq> None \<longleftrightarrow> (\<exists>n. page_at env base_url n = None)"
proof
  assume "list_database_assets env base_url \<noteq> None"
  then have "\<not> (\<forall>n. page_at env base_url n \<noteq> None)" using collection_never_ends [of env base_url] by (rule contrapos_nn)
  then show "\<exists>n. page_at env base_url n = None" by (simp only: not_all not_not)
next
  assume "\<exists>n. page_at env base_url n = None"
  then have "page_at env base_url (LEAST n. page_at env base_url n = None) = None" by (rule LeastI_ex)
  moreover have "\<forall>k < (LEAST n. page_at env base_url n = None). page_at env base_url k \<noteq> None" using not_less_Least by blast
  ultimately show "list_database_assets env base_url \<noteq> None" using collection_ends by (metis option.distinct(1))
qed

text \<open>C13: The collection of the assets ends exactly when the chain of pages does: there is a request
  without a link to follow, or one that fails. When the first such request lacks a link, the result is
  that of all items of the pages before, of which every one is a supported asset, unsupported or
  invalid; otherwise it is the error. A server whose pages always link on is asked for ever.\<close>

theorem asset_collection_ends_iff:
  "(list_database_assets env base_url \<noteq> None) = (\<exists>n. page_at env base_url n = None)
   \<and> (\<forall>n. page_at env base_url n = None \<longrightarrow> (\<forall>k < n. page_at env base_url k \<noteq> None) \<longrightarrow>
        (if page_url env base_url n \<in> {None, Some []}
         then list_database_assets env base_url = Some (Inr (collection_of env (items_before env base_url n)))
         else \<exists>e. list_database_assets env base_url = Some (Inl e)))
   \<and> jc_supported (collection_of env items) + jc_unsupported (collection_of env items) + jc_invalid (collection_of env items)
       = jc_received (collection_of env items)"
proof -
  have "list_database_assets env base_url \<noteq> None" if "page_at env base_url n = None" for n
  proof -
    have "page_at env base_url (LEAST n. page_at env base_url n = None) = None" using that by (rule LeastI)
    moreover have "\<forall>k < (LEAST n. page_at env base_url n = None). page_at env base_url k \<noteq> None" using not_less_Least by blast
    ultimately show ?thesis using collection_ends by (metis option.distinct(1))
  qed
  moreover have "\<exists>n. page_at env base_url n = None" if ends: "list_database_assets env base_url \<noteq> None"
  proof (rule ccontr)
    assume "\<nexists>n. page_at env base_url n = None"
    then have "\<forall>n. page_at env base_url n \<noteq> None" by simp
    with ends collection_never_ends show False by simp
  qed
  ultimately show ?thesis using collection_ends outcomes_add_up [of env items] by (auto simp: collection_of_def)
qed

text \<open>A page that links to itself.\<close>

definition self_linking :: js_env where
  "self_linking = \<lparr>je_fetch = \<lambda>n url. Inr (PDict [(''results'', PList []), (''next'', PStr ''http://j/'')]),
     je_urljoin = \<lambda>base url. base @ url, je_container = \<lambda>_. []\<rparr>"

definition one_page :: js_env where
  "one_page = \<lparr>je_fetch = \<lambda>n url. Inr (PList [PDict [(''id'', PStr ''a''), (''name'', PStr ''n''), (''address'', PStr ''h''), (''type'', PStr ''mysql'')], PNone]),
     je_urljoin = \<lambda>base url. base @ url, je_container = \<lambda>_. []\<rparr>"

lemma self_linking_pages: "page_at self_linking ''http://j'' n \<noteq> None"
proof -
  have "strip ''http://j/'' = ''http://j/''" "prefix ''http://'' ''http://j/''" by code_simp+
  then have urls: "page_url self_linking ''http://j'' n \<noteq> None \<and> page_url self_linking ''http://j'' n \<noteq> Some []" for n
  proof (induction n)
    case 0
    have "build_initial_url ''http://j'' \<noteq> []" by (simp add: build_initial_url_def JUMPSERVER_DATABASE_ASSETS_PATH_def)
    then show ?case by simp
  next
    case (Suc n)
    then obtain u where "page_url self_linking ''http://j'' n = Some u" "u \<noteq> []" by blast
    then have "page_of self_linking n (page_url self_linking ''http://j'' n) = Some ([], PStr ''http://j/'')"
      by (simp add: page_of_def self_linking_def parse_page_payload_def dget_def)
    with Suc show ?case by (simp add: resolve_next_url_def)
  qed
  show ?thesis
    using urls [of n] by (auto simp: page_at_def page_of_def self_linking_def parse_page_payload_def dget_def)
qed

lemma asset_collection_ends_iff_witness:
  "list_database_assets self_linking ''http://j'' = None
   \<and> (\<exists>c. list_database_assets one_page ''http://j'' = Some (Inr c) \<and> jc_supported c = 1 \<and> jc_received c = 1)"
proof
  show "list_database_assets self_linking ''http://j'' = None"
    using asset_collection_ends_iff [of self_linking "''http://j''"] self_linking_pages by blast
next
  have "page_at one_page ''http://j'' 1 = None" "page_url one_page ''http://j'' 1 = None" "page_at one_page ''http://j'' 0 \<noteq> None"
    "jc_supported (collection_of one_page (items_before one_page ''http://j'' 1)) = 1"
    "jc_received (collection_of one_page (items_before one_page ''http://j'' 1)) = 1"
    by code_simp+
  with asset_collection_ends_iff [of one_page "''http://j''" "[]"]
  show "\<exists>c. list_database_assets one_page ''http://j'' = Some (Inr c) \<and> jc_supported c = 1 \<and> jc_received c = 1"
    by (metis (no_types, lifting) insertI1 less_one)
qed

end
