(* ===== verification/Credentials.thy ===== *)
theory Credentials
  imports Prelude
begin

text \<open>The columns of \<^verbatim>\<open>app/models/credential.py\<close> that the synchronisations read; the password is the
  decrypted one.\<close>

record credential =
  cd_id :: int
  cd_type :: string
  cd_username :: string
  cd_password :: string
  cd_active :: bool

end
