(* ===== verification/Jumpserver_Sync.thy ===== *)
theory Jumpserver_Sync
  imports Jumpserver_Pages Credentials Task_Runs
begin

text \<open>
  The source of JumpServer and its synchronisation:
  \<^verbatim>\<open>app/services/jumpserver/source_service.py\<close>,
  \<^verbatim>\<open>app/services/jumpserver/sync_actions_service.py\<close> and
  \<^verbatim>\<open>app/repositories/jumpserver_repository.py\<close>. The store is what is committed; an operation that
  raises gives back what the last commit left.

  The server behind a binding is \<^verbatim>\<open>jx_server\<close> of the credential, the organisation and the
  verification of certificates. \<^verbatim>\<open>jx_integrity\<close> is the text of the exception of a violated unique
  constraint, \<^verbatim>\<open>jx_has_table\<close> tells whether the table of snapshots exists.
\<close>

section \<open>Tables\<close>

record js_binding =
  jb_id :: nat
  jb_credential :: int
  jb_base_url :: string
  jb_org :: "string option"
  jb_verify :: "bool option"
  jb_enabled :: bool
  jb_sync_at :: "int option"
  jb_status :: "string option"
  jb_run :: "string option"
  jb_error :: "string option"

record js_snapshot =
  sn_id :: nat
  sn_external_id :: string
  sn_name :: string
  sn_db_type :: string
  sn_host :: string
  sn_port :: int
  sn_raw_payload :: pdict
  sn_run :: string
  sn_synced_at :: int

record js_store =
  jt_bindings :: "js_binding list"
  jt_snapshots :: "js_snapshot list"
  jt_next :: nat
  jt_credentials :: "credential list"
  jt_runs :: run_db

record js_sync_env =
  jx_server :: "string \<Rightarrow> string \<Rightarrow> string \<Rightarrow> bool \<Rightarrow> js_env"
  jx_configured :: bool
  jx_default_org :: string
  jx_default_verify :: bool
  jx_has_table :: bool
  jx_now :: int
  jx_model :: summary_model
  jx_integrity :: string

datatype js_error =
    Js_not_configured
  | Js_no_binding
  | Js_no_credential
  | Js_credential_missing
  | Js_credential_type
  | Js_credential_inactive
  | Js_credential_changed
  | Js_run run_error
  | Js_summary
  | Js_provider string
  | Js_integrity

text \<open>\<^verbatim>\<open>str(exc)\<close> of what a synchronisation can raise after its checks.\<close>

fun js_error_text :: "js_sync_env \<Rightarrow> js_error \<Rightarrow> string" where
  "js_error_text env (Js_run Run_not_found) = (utf8 [0xE4, 0xBB, 0xBB, 0xE5, 0x8A, 0xA1, 0xE8, 0xBF, 0x90, 0xE8, 0xA1, 0x8C, 0xE4, 0xB8, 0x8D, 0xE5, 0xAD, 0x98, 0xE5, 0x9C, 0xA8])"
| "js_error_text env (Js_run Item_not_found) = (utf8 [0xE4, 0xBB, 0xBB, 0xE5, 0x8A, 0xA1, 0xE5, 0xAD, 0x90, 0xE9, 0xA1, 0xB9, 0xE4, 0xB8, 0x8D, 0xE5, 0xAD, 0x98, 0xE5, 0x9C, 0xA8])"
| "js_error_text env (Js_provider text) = text"
| "js_error_text env Js_integrity = jx_integrity env"
| "js_error_text env _ = []"

section \<open>The repository\<close>

text \<open>The binding with the smallest id.\<close>

definition get_binding :: "js_store \<Rightarrow> js_binding option" where
  "get_binding st = (case sort_key jb_id (jt_bindings st) of [] \<Rightarrow> None | b # _ \<Rightarrow> Some b)"

definition write_binding :: "nat \<Rightarrow> (js_binding \<Rightarrow> js_binding) \<Rightarrow> js_store \<Rightarrow> js_store" where
  "write_binding i f st = st\<lparr>jt_bindings := map (\<lambda>b. if jb_id b = i then f b else b) (jt_bindings st)\<rparr>"

definition clear_asset_snapshots :: "js_sync_env \<Rightarrow> js_store \<Rightarrow> js_store" where
  "clear_asset_snapshots env st = (if jx_has_table env then st\<lparr>jt_snapshots := []\<rparr> else st)"

definition write_asset :: "string \<Rightarrow> int \<Rightarrow> js_asset \<Rightarrow> js_snapshot \<Rightarrow> js_snapshot" where
  "write_asset run_id synced_at asset row = row\<lparr>sn_name := ja_name asset, sn_db_type := ja_db_type asset, sn_host := ja_host asset,
     sn_port := ja_port asset, sn_raw_payload := ja_raw_payload asset, sn_run := run_id, sn_synced_at := synced_at\<rparr>"

definition new_snapshot :: "nat \<Rightarrow> js_asset \<Rightarrow> js_snapshot" where
  "new_snapshot i asset = \<lparr>sn_id = i, sn_external_id = ja_external_id asset, sn_name = ja_name asset, sn_db_type = [],
     sn_host = [], sn_port = 0, sn_raw_payload = [], sn_run = [], sn_synced_at = 0\<rparr>"

text \<open>The dictionary of the existing rows is not extended: a new external id that is reported twice
  gives two rows.\<close>

definition place_asset :: "string list \<Rightarrow> string \<Rightarrow> int \<Rightarrow> js_asset \<Rightarrow> js_snapshot list \<times> nat \<Rightarrow> js_snapshot list \<times> nat" where
  "place_asset existing run_id synced_at asset st = (case st of (rows, next_id) \<Rightarrow>
     if ja_external_id asset \<in> set existing
     then (map (\<lambda>row. if sn_external_id row = ja_external_id asset then write_asset run_id synced_at asset row else row) rows, next_id)
     else (rows @ [write_asset run_id synced_at asset (new_snapshot next_id asset)], next_id + 1))"

text \<open>\<^verbatim>\<open>None\<close> is the violated unique constraint at the flush.\<close>

definition replace_asset_snapshots :: "js_asset list \<Rightarrow> string \<Rightarrow> int \<Rightarrow> js_store \<Rightarrow> js_store option" where
  "replace_asset_snapshots assets run_id synced_at st =
    (let existing = map sn_external_id (jt_snapshots st);
         keep_external_ids = map ja_external_id assets;
         (rows, next_id) = fold (place_asset existing run_id synced_at) assets (jt_snapshots st, jt_next st);
         rows' = filter (\<lambda>row. sn_external_id row \<in> set existing \<longrightarrow> sn_external_id row \<in> set keep_external_ids) rows
     in if distinct (map sn_external_id rows') then Some (st\<lparr>jt_snapshots := rows', jt_next := next_id\<rparr>) else None)"

record managed_instance =
  mi_id :: int
  mi_db_type :: string
  mi_host :: string
  mi_port :: int

definition managed_key :: "string \<Rightarrow> string \<Rightarrow> int \<Rightarrow> string \<times> string \<times> int" where
  "managed_key db_type host port = (lower (strip db_type), strip host, port)"

definition fetch_managed_instance_ids :: "js_sync_env \<Rightarrow> managed_instance list \<Rightarrow> js_store \<Rightarrow> int list" where
  "fetch_managed_instance_ids env instances st =
    (if instances = [] \<or> \<not> jx_has_table env then []
     else
       let hosts = map (\<lambda>i. strip (mi_host i)) (filter (\<lambda>i. mi_host i \<noteq> []) instances);
           ports = map mi_port instances;
           db_types = map (\<lambda>i. lower (strip (mi_db_type i))) (filter (\<lambda>i. mi_db_type i \<noteq> []) instances)
       in if hosts = [] \<or> db_types = [] then []
          else
            let snapshots = filter (\<lambda>s. sn_host s \<in> set hosts \<and> sn_port s \<in> set ports \<and> sn_db_type s \<in> set db_types) (jt_snapshots st);
                managed_keys = map (\<lambda>s. managed_key (sn_db_type s) (sn_host s) (sn_port s)) snapshots
            in remdups (map mi_id (filter (\<lambda>i. managed_key (mi_db_type i) (mi_host i) (mi_port i) \<in> set managed_keys) instances)))"

section \<open>The source\<close>

definition get_binding_or_error :: "js_store \<Rightarrow> js_error + js_binding" where
  "get_binding_or_error st = (case get_binding st of None \<Rightarrow> Inl Js_no_binding | Some b \<Rightarrow> Inr b)"

definition credential_of :: "js_store \<Rightarrow> js_binding \<Rightarrow> credential option" where
  "credential_of st b = find (\<lambda>c. cd_id c = jb_credential b) (jt_credentials st)"

definition resolve_binding_verify_ssl :: "js_sync_env \<Rightarrow> js_binding \<Rightarrow> bool" where
  "resolve_binding_verify_ssl env b = (case jb_verify b of None \<Rightarrow> jx_default_verify env | Some v \<Rightarrow> v)"

definition resolve_binding_org_id :: "js_sync_env \<Rightarrow> js_binding \<Rightarrow> string" where
  "resolve_binding_org_id env b =
    (let resolved = (case jb_org b of None \<Rightarrow> [] | Some s \<Rightarrow> strip s)
     in if resolved \<noteq> [] then resolved else strip (jx_default_org env))"

definition ensure_bindable_credential :: "credential \<Rightarrow> js_error option" where
  "ensure_bindable_credential c =
    (if lower (strip (cd_type c)) \<noteq> ''api'' then Some Js_credential_type
     else if \<not> cd_active c then Some Js_credential_inactive else None)"

definition bind_source ::
  "js_sync_env \<Rightarrow> int \<Rightarrow> string \<Rightarrow> string option \<Rightarrow> bool option \<Rightarrow> js_store \<Rightarrow> js_error + js_store" where
  "bind_source env credential_id base_url org_id verify_ssl st =
    (case find (\<lambda>c. cd_id c = credential_id) (jt_credentials st) of
       None \<Rightarrow> Inl Js_credential_missing
     | Some credential \<Rightarrow> (case ensure_bindable_credential credential of
         Some e \<Rightarrow> Inl e
       | None \<Rightarrow>
           let resolved_org_id = (case org_id of None \<Rightarrow> strip (jx_default_org env) | Some s \<Rightarrow> strip s);
               resolved_verify_ssl = (case verify_ssl of None \<Rightarrow> jx_default_verify env | Some v \<Rightarrow> v)
           in (case get_binding st of
                None \<Rightarrow> Inr (st\<lparr>jt_bindings := jt_bindings st @ [\<lparr>jb_id = jt_next st, jb_credential = cd_id credential,
                    jb_base_url = base_url, jb_org = Some resolved_org_id, jb_verify = Some resolved_verify_ssl, jb_enabled = True,
                    jb_sync_at = None, jb_status = None, jb_run = None, jb_error = None\<rparr>], jt_next := jt_next st + 1\<rparr>)
              | Some b \<Rightarrow> Inr (write_binding (jb_id b) (\<lambda>b. b\<lparr>jb_credential := cd_id credential, jb_base_url := base_url,
                    jb_org := (if org_id \<noteq> None \<or> jb_org b = None then Some resolved_org_id else jb_org b),
                    jb_verify := (if verify_ssl \<noteq> None \<or> jb_verify b = None then Some resolved_verify_ssl else jb_verify b),
                    jb_enabled := True, jb_error := None\<rparr>) st))))"

definition unbind_source :: "js_sync_env \<Rightarrow> js_store \<Rightarrow> js_store" where
  "unbind_source env st = clear_asset_snapshots env (case get_binding st of
     None \<Rightarrow> st
   | Some b \<Rightarrow> st\<lparr>jt_bindings := filter (\<lambda>q. jb_id q \<noteq> jb_id b) (jt_bindings st)\<rparr>)"

section \<open>The synchronisation\<close>

definition prepare_background_sync :: "js_sync_env \<Rightarrow> string \<Rightarrow> int option \<Rightarrow> js_store \<Rightarrow> js_error + (js_store \<times> int)" where
  "prepare_background_sync env fresh created_by st =
    (if \<not> jx_configured env then Inl Js_not_configured
     else case get_binding_or_error st of
       Inl e \<Rightarrow> Inl e
     | Inr binding \<Rightarrow>
        if credential_of st binding = None then Inl Js_no_credential
        else (case start_run (jx_model env) fresh ''sync_jumpserver_assets'' (''JumpServer '' @ utf8 [0xE8, 0xB5, 0x84, 0xE6, 0xBA, 0x90, 0xE5, 0x90, 0x8C, 0xE6, 0xAD, 0xA5]) ''other'' ''manual'' created_by None
            (Some ''/admin/system-settings#system-settings-jumpserver'') (jx_now env) (jt_runs st) of
          Inl e \<Rightarrow> Inl (Js_run e)
        | Inr db \<Rightarrow> (case init_items fresh [\<lparr>ii_type = ''step'', ii_key = ''sync_assets'', ii_name = Some (utf8 [0xE5, 0x90, 0x8C, 0xE6, 0xAD, 0xA5] @ '' JumpServer '' @ utf8 [0xE8, 0xB5, 0x84, 0xE4, 0xBA, 0xA7]), ii_instance = None\<rparr>] db of
            Inl e \<Rightarrow> Inl (Js_run e)
          | Inr db' \<Rightarrow> Inr (st\<lparr>jt_runs := db'\<rparr>, jb_credential binding))))"

text \<open>The totals of a collection, as the JSON of metrics and details.\<close>

definition collection_metrics :: "js_collection \<Rightarrow> pyobj" where
  "collection_metrics c = O_dict
    [(K_str ''received_total'', O_int (int (jc_received c))), (K_str ''supported_total'', O_int (int (jc_supported c))),
     (K_str ''snapshots_written_total'', O_int (int (length (jc_assets c)))),
     (K_str ''skipped_unsupported'', O_int (int (jc_unsupported c))), (K_str ''skipped_invalid'', O_int (int (jc_invalid c)))]"

definition js_metric :: "string \<Rightarrow> string \<Rightarrow> int \<Rightarrow> string \<Rightarrow> pyobj" where
  "js_metric key label value tone = O_dict [(K_str ''key'', O_str key), (K_str ''label'', O_str label),
     (K_str ''value'', O_int value), (K_str ''unit'', O_str (utf8 [0xE4, 0xB8, 0xAA])), (K_str ''tone'', O_str tone)]"

definition build_sync_jumpserver_assets_summary ::
  "js_sync_env \<Rightarrow> int \<Rightarrow> js_collection \<Rightarrow> string option \<Rightarrow> js_error + pyobj" where
  "build_sync_jumpserver_assets_summary env credential_id c error_message =
    (case jx_model env True (O_dict
       [(K_str ''version'', O_int 1),
        (K_str ''common'', O_dict
          [(K_str ''inputs'', O_dict [(K_str ''credential_id'', O_int credential_id)]), (K_str ''scope'', O_dict []),
           (K_str ''metrics'', O_list
             [js_metric ''received_total'' (utf8 [0xE6, 0x8B, 0x89, 0xE5, 0x8F, 0x96, 0xE8, 0xB5, 0x84, 0xE4, 0xBA, 0xA7]) (int (jc_received c)) ''info'',
              js_metric ''supported_total'' (utf8 [0xE6, 0x94, 0xAF, 0xE6, 0x8C, 0x81, 0xE8, 0xB5, 0x84, 0xE4, 0xBA, 0xA7]) (int (jc_supported c)) ''success'',
              js_metric ''snapshots_written_total'' (utf8 [0xE5, 0x86, 0x99, 0xE5, 0x85, 0xA5, 0xE5, 0xBF, 0xAB, 0xE7, 0x85, 0xA7]) (int (length (jc_assets c))) ''info'',
              js_metric ''skipped_unsupported'' (utf8 [0xE8, 0xB7, 0xB3, 0xE8, 0xBF, 0x87, 0xE9, 0x9D, 0x9E, 0xE6, 0x95, 0xB0, 0xE6, 0x8D, 0xAE, 0xE5, 0xBA, 0x93]) (int (jc_unsupported c)) ''warning'',
              js_metric ''skipped_invalid'' (utf8 [0xE8, 0xB7, 0xB3, 0xE8, 0xBF, 0x87, 0xE6, 0x97, 0xA0, 0xE6, 0x95, 0x88, 0xE8, 0xB5, 0x84, 0xE4, 0xBA, 0xA7]) (int (jc_invalid c)) ''warning'']),
           (K_str ''highlights'', O_list []),
           (K_str ''flags'', O_dict [(K_str ''skipped'', O_bool False), (K_str ''skip_reason'', O_none)])]),
        (K_str ''ext'', O_dict [(K_str ''type'', O_str ''sync_jumpserver_assets''), (K_str ''version'', O_int 1),
          (K_str ''data'', O_dict [(K_str ''assets'', collection_metrics c),
            (K_str ''error_message'', case error_message of None \<Rightarrow> O_none | Some s \<Rightarrow> O_str s)])])]) of
       None \<Rightarrow> Inl Js_summary
     | Some (_, v) \<Rightarrow> Inr v)"

definition write_run_summary :: "string \<Rightarrow> pyobj \<Rightarrow> string option \<Rightarrow> run_db \<Rightarrow> run_db" where
  "write_run_summary run_id payload error_message db = (case find_run run_id db of
     None \<Rightarrow> db
   | Some r \<Rightarrow> if tr_status r = CANCELLED then db
       else write_run run_id (\<lambda>r. r\<lparr>tr_summary := payload, tr_error := error_message\<rparr>) db)"

definition mark_binding :: "nat \<Rightarrow> int \<Rightarrow> string \<Rightarrow> string \<Rightarrow> string option \<Rightarrow> js_store \<Rightarrow> js_store" where
  "mark_binding i synced_at status run_id error st = write_binding i (\<lambda>b. b\<lparr>jb_sync_at := Some synced_at, jb_status := Some status,
     jb_run := Some run_id, jb_error := error\<rparr>) st"

text \<open>The \<^verbatim>\<open>try\<close> block; \<^verbatim>\<open>None\<close> when the collection does not return.\<close>

definition sync_try :: "js_sync_env \<Rightarrow> string \<Rightarrow> js_binding \<Rightarrow> credential \<Rightarrow> js_store \<Rightarrow> (js_error + js_store) option" where
  "sync_try env run_id binding credential st =
    (case start_item run_id ''step'' ''sync_assets'' (jx_now env) (jt_runs st) of
       Inl e \<Rightarrow> Some (Inl (Js_run e))
     | Inr db1 \<Rightarrow>
        (case list_database_assets (jx_server env (cd_username credential) (cd_password credential)
             (resolve_binding_org_id env binding) (resolve_binding_verify_ssl env binding)) (jb_base_url binding) of
           None \<Rightarrow> None
         | Some (Inl text) \<Rightarrow> Some (Inl (Js_provider text))
         | Some (Inr c) \<Rightarrow>
            Some (case replace_asset_snapshots (jc_assets c) run_id (jx_now env) (st\<lparr>jt_runs := db1\<rparr>) of
               None \<Rightarrow> Inl Js_integrity
             | Some st1 \<Rightarrow>
                let st2 = mark_binding (jb_id binding) (jx_now env) ''completed'' run_id None st1
                in (case complete_item run_id ''step'' ''sync_assets'' (Some (collection_metrics c)) (Some (collection_metrics c)) (jx_now env) (jt_runs st2) of
                      Inl e \<Rightarrow> Inl (Js_run e)
                    | Inr db2 \<Rightarrow> (case build_sync_jumpserver_assets_summary env (jb_credential binding) c None of
                        Inl e \<Rightarrow> Inl e
                      | Inr payload \<Rightarrow> (case finalize_run run_id (jx_now env) (write_run_summary run_id payload None db2) of
                          Inl e \<Rightarrow> Inl (Js_run e)
                        | Inr db3 \<Rightarrow> Inr (st2\<lparr>jt_runs := db3\<rparr>)))))))"

text \<open>The handler, after the rollback: the committed store and what is raised.\<close>

definition no_assets :: js_collection where
  "no_assets = \<lparr>jc_assets = [], jc_received = 0, jc_supported = 0, jc_unsupported = 0, jc_invalid = 0\<rparr>"

definition sync_failed :: "js_sync_env \<Rightarrow> string \<Rightarrow> js_error \<Rightarrow> js_store \<Rightarrow> js_store \<times> js_error" where
  "sync_failed env run_id e st =
    (let text = js_error_text env e
     in case get_binding_or_error st of
          Inl e' \<Rightarrow> (st, e')
        | Inr binding \<Rightarrow>
           (case fail_item run_id ''step'' ''sync_assets'' text (Some (O_dict [(K_str ''error_message'', O_str text)])) (jx_now env) (jt_runs st) of
              Inl e' \<Rightarrow> (st, Js_run e')
            | Inr db1 \<Rightarrow> (case build_sync_jumpserver_assets_summary env (jb_credential binding) no_assets (Some text) of
                Inl e' \<Rightarrow> (st, e')
              | Inr payload \<Rightarrow> (case finalize_run run_id (jx_now env) (write_run_summary run_id payload (Some text) db1) of
                  Inl e' \<Rightarrow> (st, Js_run e')
                | Inr db2 \<Rightarrow> ((mark_binding (jb_id binding) (jx_now env) ''failed'' run_id (Some text) st)\<lparr>jt_runs := db2\<rparr>, e)))))"

definition sync_once :: "js_sync_env \<Rightarrow> string \<Rightarrow> int \<Rightarrow> js_store \<Rightarrow> (js_store \<times> js_error option) option" where
  "sync_once env run_id credential_id st =
    (case get_binding_or_error st of
       Inl e \<Rightarrow> Some (st, Some e)
     | Inr binding \<Rightarrow>
        (case credential_of st binding of
           None \<Rightarrow> Some (st, Some Js_credential_changed)
         | Some credential \<Rightarrow>
            if jb_credential binding \<noteq> credential_id then Some (st, Some Js_credential_changed)
            else (case sync_try env run_id binding credential st of
                None \<Rightarrow> None
              | Some (Inr st') \<Rightarrow> Some (st', None)
              | Some (Inl e) \<Rightarrow> (case sync_failed env run_id e st of (st', e') \<Rightarrow> Some (st', Some e')))))"

end
