(* ===== verification/Jumpserver_Result.thy ===== *)
theory Jumpserver_Result
  imports Jumpserver_Sync
begin

text \<open>What a synchronisation with JumpServer leaves in the table of snapshots.\<close>

type_synonym asset_fields = "string \<times> string \<times> string \<times> int \<times> pdict \<times> string \<times> int"

definition snapshot_fields :: "js_snapshot \<Rightarrow> asset_fields" where
  "snapshot_fields r = (sn_name r, sn_db_type r, sn_host r, sn_port r, sn_raw_payload r, sn_run r, sn_synced_at r)"

definition asset_fields_of :: "string \<Rightarrow> int \<Rightarrow> js_asset \<Rightarrow> asset_fields" where
  "asset_fields_of run_id t a = (ja_name a, ja_db_type a, ja_host a, ja_port a, ja_raw_payload a, run_id, t)"

text \<open>The rows under an external id, and the assets reported under it.\<close>

definition snapshots_under :: "js_snapshot list \<Rightarrow> string \<Rightarrow> asset_fields list" where
  "snapshots_under rows k = map snapshot_fields (filter (\<lambda>r. sn_external_id r = k) rows)"

definition reported_under :: "js_asset list \<Rightarrow> string \<Rightarrow> js_asset list" where
  "reported_under assets k = filter (\<lambda>a. ja_external_id a = k) assets"

lemma written [simp]: "sn_external_id (write_asset run_id t a r) = sn_external_id r"
  "snapshot_fields (write_asset run_id t a r) = asset_fields_of run_id t a"
  by (simp_all add: write_asset_def snapshot_fields_def asset_fields_of_def)

lemma new_external [simp]: "sn_external_id (new_snapshot i a) = ja_external_id a"
  by (simp add: new_snapshot_def)

lemma placed:
  "snapshots_under (fst (fold (place_asset existing run_id t) assets (rows, n))) k =
    (if k \<in> set existing
     then (if reported_under assets k = [] then snapshots_under rows k
           else map (\<lambda>_. asset_fields_of run_id t (last (reported_under assets k))) (snapshots_under rows k))
     else snapshots_under rows k @ map (asset_fields_of run_id t) (reported_under assets k))"
proof (induction assets rule: rev_induct)
  case Nil
  then show ?case by (simp add: reported_under_def)
next
  case (snoc a assets)
  obtain rows' n' where st: "fold (place_asset existing run_id t) assets (rows, n) = (rows', n')" by fastforce
  have same: "filter (\<lambda>r. sn_external_id r = k) (map (\<lambda>r. if sn_external_id r = e then write_asset run_id t a r else r) xs)
      = (if e = k then map (write_asset run_id t a) (filter (\<lambda>r. sn_external_id r = k) xs) else filter (\<lambda>r. sn_external_id r = k) xs)" for e xs
    by (induction xs) auto
  show ?case
  proof (cases "ja_external_id a \<in> set existing")
    case True
    have "snapshots_under (fst (place_asset existing run_id t a (rows', n'))) k =
        (if ja_external_id a = k then map (\<lambda>_. asset_fields_of run_id t a) (snapshots_under rows' k) else snapshots_under rows' k)"
      using True by (simp add: place_asset_def snapshots_under_def same)
    with snoc True show ?thesis by (auto simp: st reported_under_def)
  next
    case False
    have "snapshots_under (fst (place_asset existing run_id t a (rows', n'))) k =
        snapshots_under rows' k @ (if ja_external_id a = k then [asset_fields_of run_id t a] else [])"
      using False by (simp add: place_asset_def snapshots_under_def)
    with snoc False show ?thesis by (auto simp: st reported_under_def)
  qed
qed

lemma distinct_under: "distinct (map sn_external_id rows) \<Longrightarrow> length (snapshots_under rows k) \<le> 1"
proof (induction rows)
  case (Cons r rows)
  then have "sn_external_id r = k \<Longrightarrow> filter (\<lambda>r. sn_external_id r = k) rows = []"
    by (auto simp: filter_empty_conv image_iff)
  with Cons show ?case by (auto simp: snapshots_under_def)
qed (simp add: snapshots_under_def)

lemma under_Nil: "snapshots_under rows k = [] \<longleftrightarrow> k \<notin> sn_external_id ` set rows"
  by (auto simp: snapshots_under_def filter_empty_conv)

lemma once_distinct: "(\<And>k. length (filter (\<lambda>x. x = k) xs) \<le> 1) \<Longrightarrow> distinct xs"
proof (induction xs)
  case (Cons x xs)
  from Cons.prems [of x] have "x \<notin> set xs" by (auto simp: filter_empty_conv)
  moreover have "length (filter (\<lambda>y. y = k) xs) \<le> 1" for k using Cons.prems [of k] by (auto split: if_splits)
  ultimately show ?case using Cons.IH by simp
qed simp

lemma replaced:
  assumes "replace_asset_snapshots assets run_id t st = Some st'" "distinct (map sn_external_id (jt_snapshots st))"
  shows "distinct (map sn_external_id (jt_snapshots st'))"
    and "snapshots_under (jt_snapshots st') k = (if reported_under assets k = [] then [] else [asset_fields_of run_id t (last (reported_under assets k))])"
    and "distinct (filter (\<lambda>k. k \<notin> sn_external_id ` set (jt_snapshots st)) (map ja_external_id assets))"
    and "st' = st\<lparr>jt_snapshots := jt_snapshots st', jt_next := jt_next st'\<rparr>"
proof -
  let ?rows = "jt_snapshots st" and ?E = "sn_external_id ` set (jt_snapshots st)" and ?existing = "map sn_external_id (jt_snapshots st)"
  obtain rows n where fold: "fold (place_asset ?existing run_id t) assets (?rows, jt_next st) = (rows, n)" by fastforce
  let ?keep = "\<lambda>r. sn_external_id r \<in> ?E \<longrightarrow> sn_external_id r \<in> ja_external_id ` set assets"
  have st': "distinct (map sn_external_id (filter ?keep rows))" "st' = st\<lparr>jt_snapshots := filter ?keep rows, jt_next := n\<rparr>"
    using assms(1) by (auto simp: replace_asset_snapshots_def Let_def fold split: if_splits)
  show "distinct (map sn_external_id (jt_snapshots st'))" using st' by simp
  show "st' = st\<lparr>jt_snapshots := jt_snapshots st', jt_next := jt_next st'\<rparr>" by (simp add: st'(2))
  note all = placed [of ?existing run_id t assets ?rows "jt_next st", unfolded fold fst_conv set_map]
  have report: "reported_under assets k = [] \<longleftrightarrow> k \<notin> ja_external_id ` set assets" for k
    by (auto simp: reported_under_def filter_empty_conv)
  have kept: "snapshots_under (filter ?keep rows) k = (if k \<in> ?E \<and> reported_under assets k = [] then [] else snapshots_under rows k)" for k
  proof (cases "k \<in> ?E \<and> reported_under assets k = []")
    case True
    then show ?thesis unfolding report by (auto simp: snapshots_under_def filter_empty_conv image_iff)
  next
    case False
    then have "filter (\<lambda>r. sn_external_id r = k) (filter ?keep rows) = filter (\<lambda>r. sn_external_id r = k) rows"
      unfolding report filter_filter by (intro filter_cong) auto
    with False show ?thesis unfolding snapshots_under_def by presburger
  qed
  have one: "length (snapshots_under (filter ?keep rows) k) \<le> 1" for k using distinct_under [OF st'(1)] .
  have value_at: "snapshots_under (filter ?keep rows) k
      = (if reported_under assets k = [] then [] else [asset_fields_of run_id t (last (reported_under assets k))])" for k
  proof (cases "k \<in> ?E")
    case True
    then obtain x where "snapshots_under ?rows k = [x]"
      using distinct_under [OF assms(2), of k] under_Nil [of ?rows k] by (cases "snapshots_under ?rows k") auto
    with True show ?thesis by (simp add: kept all)
  next
    case False
    then have "snapshots_under ?rows k = []" by (simp add: under_Nil)
    with False one [of k] show ?thesis by (cases "reported_under assets k") (simp_all add: kept all)
  qed
  then show "snapshots_under (jt_snapshots st') k = (if reported_under assets k = [] then [] else [asset_fields_of run_id t (last (reported_under assets k))])"
    by (simp add: st'(2))
  have "length (reported_under assets k) \<le> 1" if "k \<notin> ?E" for k
    using that one [of k] under_Nil [of ?rows k] by (simp add: kept all)
  then have few: "length (filter (\<lambda>x. x = k) (map ja_external_id assets)) \<le> 1" if "k \<notin> ?E" for k
    using that by (simp add: reported_under_def filter_map o_def)
  have "length (filter (\<lambda>x. x = k) (filter (\<lambda>k. k \<notin> ?E) (map ja_external_id assets))) \<le> 1" for k
  proof (cases "k \<in> ?E")
    case True
    then have "filter (\<lambda>x. x = k) (filter (\<lambda>k. k \<notin> ?E) (map ja_external_id assets)) = []" by (auto simp: filter_empty_conv)
    then show ?thesis by simp
  next
    case False
    then have "filter (\<lambda>x. x = k) (filter (\<lambda>k. k \<notin> ?E) (map ja_external_id assets)) = filter (\<lambda>x. x = k) (map ja_external_id assets)"
      unfolding filter_filter by (intro filter_cong) auto
    then show ?thesis using few [OF False] by simp
  qed
  then show "distinct (filter (\<lambda>k. k \<notin> sn_external_id ` set (jt_snapshots st)) (map ja_external_id assets))"
    by (intro once_distinct) simp
qed

section \<open>A whole synchronisation\<close>

lemma sync_try_ok:
  assumes "sync_try env run_id binding credential st = Some (Inr st')"
  shows "\<exists>c st1 db db'. list_database_assets (jx_server env (cd_username credential) (cd_password credential)
        (resolve_binding_org_id env binding) (resolve_binding_verify_ssl env binding)) (jb_base_url binding) = Some (Inr c)
      \<and> replace_asset_snapshots (jc_assets c) run_id (jx_now env) (st\<lparr>jt_runs := db\<rparr>) = Some st1
      \<and> st' = (mark_binding (jb_id binding) (jx_now env) ''completed'' run_id None st1)\<lparr>jt_runs := db'\<rparr>"
  using assms by (auto simp: sync_try_def Let_def split: sum.splits option.splits)

lemma sync_failed_snapshots: "jt_snapshots (fst (sync_failed env run_id e st)) = jt_snapshots st"
  by (auto simp: sync_failed_def Let_def mark_binding_def write_binding_def split: sum.splits)

text \<open>What the server behind the bound source delivers.\<close>

definition bound_collection :: "js_sync_env \<Rightarrow> js_store \<Rightarrow> (string + js_collection) option" where
  "bound_collection env st = (case get_binding st of
     None \<Rightarrow> None
   | Some binding \<Rightarrow> (case credential_of st binding of
       None \<Rightarrow> None
     | Some credential \<Rightarrow> list_database_assets (jx_server env (cd_username credential) (cd_password credential)
         (resolve_binding_org_id env binding) (resolve_binding_verify_ssl env binding)) (jb_base_url binding)))"

lemma get_binding_marked:
  assumes "get_binding st = Some b"
  shows "get_binding (mark_binding (jb_id b) t s r e st) = Some (b\<lparr>jb_sync_at := Some t, jb_status := Some s, jb_run := Some r, jb_error := e\<rparr>)"
proof -
  let ?f = "\<lambda>q. if jb_id q = jb_id b then q\<lparr>jb_sync_at := Some t, jb_status := Some s, jb_run := Some r, jb_error := e\<rparr> else q"
  have "sort_key jb_id (map ?f xs) = map ?f (sort_key jb_id xs)" for xs
  proof (induction xs)
    case (Cons x xs)
    have "insort_key jb_id (?f x) (map ?f ys) = map ?f (insort_key jb_id x ys)" for ys
      by (induction ys) auto
    with Cons show ?case by (simp only: list.map sort_key_simps)
  qed simp
  then have "sort_key jb_id (jt_bindings (mark_binding (jb_id b) t s r e st)) = map ?f (sort_key jb_id (jt_bindings st))"
    unfolding mark_binding_def write_binding_def by simp
  with assms show ?thesis unfolding get_binding_def
    by (cases "sort_key jb_id (jt_bindings st)") simp_all
qed

text \<open>C7: When a synchronisation succeeds, the table of snapshots is exactly the report of the bound
  source: each external id has one row if the report names it, with the fields of its last report, and no
  row otherwise; the binding is marked completed by this run, and no external id without a row was
  reported twice. When it fails, the table is as before.\<close>

theorem jumpserver_sync_replaces:
  assumes "distinct (map sn_external_id (jt_snapshots st))" "sync_once env run_id credential_id st = Some (st', outcome)"
  shows "(outcome = None \<longrightarrow> (\<exists>c. bound_collection env st = Some (Inr c)
        \<and> distinct (map sn_external_id (jt_snapshots st'))
        \<and> (\<forall>k. snapshots_under (jt_snapshots st') k = (if reported_under (jc_assets c) k = [] then []
              else [asset_fields_of run_id (jx_now env) (last (reported_under (jc_assets c) k))]))
        \<and> distinct (filter (\<lambda>k. k \<notin> sn_external_id ` set (jt_snapshots st)) (map ja_external_id (jc_assets c)))
        \<and> map_option jb_status (get_binding st') = Some (Some ''completed'')
        \<and> map_option jb_run (get_binding st') = Some (Some run_id)))
    \<and> (outcome \<noteq> None \<longrightarrow> jt_snapshots st' = jt_snapshots st)"
proof (cases outcome)
  case None
  with assms(2) obtain binding credential where b: "get_binding st = Some binding" "credential_of st binding = Some credential"
    and ok: "sync_try env run_id binding credential st = Some (Inr st')"
    by (auto simp: sync_once_def get_binding_or_error_def split: option.splits sum.splits if_splits prod.splits)
  from sync_try_ok [OF ok] obtain c st1 db db' where c: "bound_collection env st = Some (Inr c)"
    and new: "replace_asset_snapshots (jc_assets c) run_id (jx_now env) (st\<lparr>jt_runs := db\<rparr>) = Some st1"
    and st': "st' = (mark_binding (jb_id binding) (jx_now env) ''completed'' run_id None st1)\<lparr>jt_runs := db'\<rparr>"
    using b by (auto simp: bound_collection_def)
  note r = replaced [OF new]
  have same: "jt_snapshots st' = jt_snapshots st1" by (simp add: st' mark_binding_def write_binding_def)
  have "jt_bindings st1 = jt_bindings st" using arg_cong [OF r(4), of jt_bindings] assms(1) by simp
  then have b1: "get_binding st1 = Some binding" using b(1) by (simp add: get_binding_def)
  have "get_binding st' = get_binding (mark_binding (jb_id binding) (jx_now env) ''completed'' run_id None st1)"
    by (simp add: st' get_binding_def)
  with get_binding_marked [OF b1] have marked: "map_option jb_status (get_binding st') = Some (Some ''completed'')"
    "map_option jb_run (get_binding st') = Some (Some run_id)" by simp_all
  show ?thesis using None c same marked r(1-3) assms(1) by simp
next
  case (Some e)
  with assms(2) have "jt_snapshots st' = jt_snapshots st"
    using sync_failed_snapshots
    by (auto simp: sync_once_def get_binding_or_error_def split: option.splits sum.splits if_splits prod.splits) (metis fst_conv)+
  with Some show ?thesis by simp
qed

text \<open>A bound source that delivers one asset, beside a row of an asset that is gone.\<close>

definition sample_js_env :: js_sync_env where
  "sample_js_env = \<lparr>jx_server = \<lambda>_ _ _ _. one_page, jx_configured = True, jx_default_org = [], jx_default_verify = True,
     jx_has_table = True, jx_now = 7, jx_model = \<lambda>_ v. Some ([], v), jx_integrity = ''unique''\<rparr>"

definition sample_js_store :: js_store where
  "sample_js_store = \<lparr>jt_bindings = [\<lparr>jb_id = 1, jb_credential = 5, jb_base_url = ''http://j'', jb_org = None, jb_verify = None,
       jb_enabled = True, jb_sync_at = None, jb_status = None, jb_run = None, jb_error = None\<rparr>],
     jt_snapshots = [write_asset ''old'' 1 \<lparr>ja_external_id = ''z'', ja_name = ''gone'', ja_db_type = ''mysql'', ja_host = ''h'',
       ja_port = 3306, ja_raw_payload = []\<rparr> (new_snapshot 1 \<lparr>ja_external_id = ''z'', ja_name = ''gone'', ja_db_type = ''mysql'',
       ja_host = ''h'', ja_port = 3306, ja_raw_payload = []\<rparr>)],
     jt_next = 2, jt_credentials = [\<lparr>cd_id = 5, cd_type = ''api'', cd_username = ''u'', cd_password = ''p'', cd_active = True\<rparr>],
     jt_runs = \<lparr>rdb_runs = [], rdb_items = []\<rparr>\<rparr>"

definition prepared_js_store :: js_store where
  "prepared_js_store = (case prepare_background_sync sample_js_env ''r'' None sample_js_store of
     Inr (st, _) \<Rightarrow> st | Inl _ \<Rightarrow> sample_js_store)"

declare asset_loop.simps [code]

lemma jumpserver_sync_replaces_witness:
  "\<exists>st'. sync_once sample_js_env ''r'' 5 prepared_js_store = Some (st', None)
     \<and> snapshots_under (jt_snapshots st') ''z'' = [] \<and> length (snapshots_under (jt_snapshots st') ''a'') = 1"
proof -
  have "distinct (map sn_external_id (jt_snapshots prepared_js_store))"
    "map_option snd (sync_once sample_js_env ''r'' 5 prepared_js_store) = Some None"
    by code_simp+
  then obtain st' where run: "distinct (map sn_external_id (jt_snapshots prepared_js_store))"
    "sync_once sample_js_env ''r'' 5 prepared_js_store = Some (st', None)" by auto
  have "map_option (\<lambda>r. case r of Inl _ \<Rightarrow> [] | Inr c \<Rightarrow> map ja_external_id (jc_assets c)) (bound_collection sample_js_env prepared_js_store)
      = Some [''a'']" by code_simp
  then have "bound_collection sample_js_env prepared_js_store = Some (Inr c) \<Longrightarrow> map ja_external_id (jc_assets c) = [''a'']" for c
    by simp
  then have reported: "bound_collection sample_js_env prepared_js_store = Some (Inr c) \<Longrightarrow>
      reported_under (jc_assets c) ''z'' = [] \<and> reported_under (jc_assets c) ''a'' \<noteq> []" for c
    by (fastforce simp: reported_under_def filter_empty_conv map_eq_Cons_conv)
  with jumpserver_sync_replaces [OF run] have "snapshots_under (jt_snapshots st') ''z'' = []"
    "length (snapshots_under (jt_snapshots st') ''a'') = 1" by auto
  with run(2) show ?thesis by blast
qed

end
