(* ===== verification/Run_Items.thy ===== *)
theory Run_Items
  imports Task_Runs
begin

text \<open>
  What the operations of the service of the runs do to the items of one run, seen as the list of their
  ids and statuses: the lemmas with which the tasks over runs are followed.
\<close>

section \<open>Runs that start\<close>

lemma model_accepts: "\<forall>v. M v \<noteq> None \<Longrightarrow> \<exists>p. (case M x of None \<Rightarrow> Inl e | Some (_, v) \<Rightarrow> Inr v) = Inr p"
proof -
  assume "\<forall>v. M v \<noteq> None"
  then obtain p where "M x = Some p" by blast
  then show ?thesis by (cases p) simp
qed

lemma start_run_new:
  assumes "start_run M rid tk nm c tg u sm url now db = Inr db'"
  shows "find_run rid db = None" "rdb_items db' = rdb_items db" "\<exists>r. find_run rid db' = Some r \<and> tr_status r = RUNNING"
  using assms by (auto simp: start_run_def find_run_def find_append split: if_splits sum.splits option.splits)

section \<open>Items of a run\<close>

lemma find_item_of_run: "find_item (rid, t, k) db = find (\<lambda>it. item_id it = (rid, t, k)) (list_run_items rid db)"
proof -
  have "find (\<lambda>it. item_id it = (rid, t, k)) xs = find (\<lambda>it. item_id it = (rid, t, k)) (filter (\<lambda>it. ti_run it = rid) xs)" for xs
    by (induction xs) (auto simp: item_id_def)
  then show ?thesis by (simp add: find_item_def list_run_items_def)
qed

lemma items_after_write: "(\<And>it. item_id (f it) = item_id it) \<Longrightarrow> list_run_items rid (write_item k f db) = map (\<lambda>it. if item_id it = k then f it else it) (list_run_items rid db)"
proof -
  assume same: "\<And>it. item_id (f it) = item_id it"
  then have run: "ti_run (f it) = ti_run it" for it by (metis fst_conv item_id_def)
  have "filter (\<lambda>it. ti_run it = rid) (map (\<lambda>it. if item_id it = k then f it else it) xs)
      = map (\<lambda>it. if item_id it = k then f it else it) (filter (\<lambda>it. ti_run it = rid) xs)" for xs
    by (induction xs) (auto simp: run)
  then show ?thesis by (simp add: list_run_items_def write_item_def)
qed

definition item_states :: "string \<Rightarrow> run_db \<Rightarrow> ((string \<times> string \<times> string) \<times> string) list" where
  "item_states rid db = map (\<lambda>it. (item_id it, ti_status it)) (list_run_items rid db)"

definition set_state :: "string \<times> string \<times> string \<Rightarrow> string \<Rightarrow> ((string \<times> string \<times> string) \<times> string) list
    \<Rightarrow> ((string \<times> string \<times> string) \<times> string) list" where
  "set_state k x states = map (\<lambda>(j, y). (j, if j = k then x else y)) states"

lemma change_item_states:
  assumes "find_run rid db = Some r" "(rid, t, k) \<in> fst ` set (item_states rid db)"
    and "\<And>it. item_id (f it) = item_id it" "\<And>it. ti_status (f it) = x"
    and "\<And>it. ((rid, t, k), ti_status it) \<in> set (item_states rid db) \<Longrightarrow> \<not> refuses it"
  shows "\<exists>db'. change_item rid t k refuses f db = Inr db' \<and> find_run rid db' = Some r
    \<and> item_states rid db' = set_state (rid, t, k) x (item_states rid db)"
proof -
  have "(rid, t, k) \<in> item_id ` set (list_run_items rid db)" using assms(2) by (auto simp: item_states_def)
  then have "find (\<lambda>it. item_id it = (rid, t, k)) (list_run_items rid db) \<noteq> None" by (auto simp: find_None_iff)
  then obtain it where it: "find (\<lambda>it. item_id it = (rid, t, k)) (list_run_items rid db) = Some it" by blast
  then have found: "get_item rid t k db = Inr it" by (simp add: get_item_def find_item_of_run)
  have "it \<in> set (list_run_items rid db)" "item_id it = (rid, t, k)" using it by (auto simp: find_Some_iff)
  then have "\<not> refuses it" by (intro assms(5)) (force simp: item_states_def)
  with found assms(1) have "change_item rid t k refuses f db = Inr (write_item (rid, t, k) f db)"
    by (simp add: change_item_def get_run_def)
  moreover have "item_states rid (write_item (rid, t, k) f db) = set_state (rid, t, k) x (item_states rid db)"
    by (simp add: item_states_def set_state_def items_after_write [OF assms(3)] o_def assms(3,4) case_prod_unfold)
  ultimately show ?thesis using assms(1) by simp
qed

lemma start_item_states:
  assumes "find_run rid db = Some r" "(rid, t, k) \<in> fst ` set (item_states rid db)"
    and "\<And>y. ((rid, t, k), y) \<in> set (item_states rid db) \<Longrightarrow> y \<notin> set task_status_terminal"
  shows "\<exists>db'. start_item rid t k now db = Inr db' \<and> find_run rid db' = Some r \<and> item_states rid db' = set_state (rid, t, k) RUNNING (item_states rid db)"
  unfolding start_item_def by (rule change_item_states [OF assms(1,2)]) (auto simp: item_id_def dest: assms(3))

lemma complete_item_states:
  assumes "find_run rid db = Some r" "(rid, t, k) \<in> fst ` set (item_states rid db)"
    and "\<And>y. ((rid, t, k), y) \<in> set (item_states rid db) \<Longrightarrow> y \<notin> {FAILED, CANCELLED}"
  shows "\<exists>db'. complete_item rid t k m d now db = Inr db' \<and> find_run rid db' = Some r \<and> item_states rid db' = set_state (rid, t, k) COMPLETED (item_states rid db)"
  unfolding complete_item_def by (rule change_item_states [OF assms(1,2)]) (auto simp: item_id_def dest: assms(3))

lemma fail_item_states:
  assumes "find_run rid db = Some r" "(rid, t, k) \<in> fst ` set (item_states rid db)"
    and "\<And>y. ((rid, t, k), y) \<in> set (item_states rid db) \<Longrightarrow> y \<noteq> CANCELLED"
  shows "\<exists>db'. fail_item rid t k msg d now db = Inr db' \<and> find_run rid db' = Some r \<and> item_states rid db' = set_state (rid, t, k) FAILED (item_states rid db)"
  unfolding fail_item_def by (rule change_item_states [OF assms(1,2)]) (auto simp: item_id_def dest: assms(3))

text \<open>A run without items gets its items.\<close>

lemma init_items_states:
  assumes "find_run rid db = Some r" "list_run_items rid db = []" "distinct (map (\<lambda>i. (ii_type i, ii_key i)) inits)"
    and "distinct (map item_id (rdb_items db))"
  shows "\<exists>db' r'. init_items rid inits db = Inr db' \<and> find_run rid db' = Some r' \<and> tr_status r' = tr_status r \<and> tr_task_key r' = tr_task_key r
    \<and> item_states rid db' = map (\<lambda>i. ((rid, ii_type i, ii_key i), PENDING)) inits"
proof -
  have other: "item_id it \<noteq> item_id (new_item rid i)" if "it \<in> set (rdb_items db)" for it i
    using assms(2) that by (auto simp: list_run_items_def filter_empty_conv item_id_def new_item_def)
  have "distinct (map item_id (map (new_item rid) inits))"
    using assms(3) by (auto simp: distinct_map inj_on_def item_id_def new_item_def)
  with other assms(4) have d: "distinct (map item_id (rdb_items db @ map (new_item rid) inits))"
    by (auto simp: distinct_append) (metis other)
  have "list_run_items rid (db\<lparr>rdb_items := rdb_items db @ map (new_item rid) inits\<rparr>) = map (new_item rid) inits"
    using assms(2) by (auto simp: list_run_items_def filter_map o_def new_item_def)
  moreover have "find_run rid (db\<lparr>rdb_items := xs\<rparr>) = Some r" for xs using assms(1) by (simp add: find_run_def)
  ultimately show ?thesis using assms(1) d
    by (simp add: init_items_def get_run_def Let_def item_states_def o_def item_id_def new_item_def image_image)
qed

lemma started_run:
  assumes "\<forall>b v. \<exists>v'. M b v = Some (task_key, v')" "find_run fresh db = None"
    and "\<forall>it \<in> set (rdb_items db). find_run (ti_run it) db \<noteq> None" "distinct (map item_id (rdb_items db))"
    and "distinct (map (\<lambda>i. (ii_type i, ii_key i)) inits)"
  shows "\<exists>db1 db2 r. resolve_or_start_run M None fresh task_key nm c tg u None url now db = Inr (fresh, db1)
    \<and> init_items fresh inits db1 = Inr db2 \<and> find_run fresh db2 = Some r \<and> tr_status r = RUNNING \<and> tr_task_key r = task_key
    \<and> item_states fresh db2 = map (\<lambda>i. ((fresh, ii_type i, ii_key i), PENDING)) inits"
proof -
  obtain v' where "M True (summary_payload task_key) = Some (task_key, v')" using assms(1) by blast
  then have "summary_base M task_key = Inr v'" by (simp add: summary_base_def)
  then obtain db1 where start: "start_run M fresh task_key nm c tg u None url now db = Inr db1"
    and r: "\<exists>r. find_run fresh db1 = Some r \<and> tr_status r = RUNNING \<and> tr_task_key r = task_key"
    using assms(2) by (simp add: start_run_def find_run_def find_append)
  have rows: "rdb_items db1 = rdb_items db" by (rule start_run_new(2) [OF start])
  then have "list_run_items fresh db1 = []" using assms(2,3) by (auto simp: list_run_items_def filter_empty_conv)
  note empty = this
  obtain r1 where r1: "find_run fresh db1 = Some r1" "tr_status r1 = RUNNING" "tr_task_key r1 = task_key" using r by blast
  have "distinct (map item_id (rdb_items db1))" using assms(4) rows by simp
  from init_items_states [OF r1(1) empty assms(5) this] r1
  obtain db2 r2 where "init_items fresh inits db1 = Inr db2" "find_run fresh db2 = Some r2" "tr_status r2 = RUNNING"
    "tr_task_key r2 = task_key" "item_states fresh db2 = map (\<lambda>i. ((fresh, ii_type i, ii_key i), PENDING)) inits"
    by auto
  moreover have "resolve_or_start_run M None fresh task_key nm c tg u None url now db = Inr (fresh, db1)"
    using start by (simp add: resolve_or_start_run_def)
  ultimately show ?thesis by blast
qed

text \<open>What finalising makes of the statuses of the items.\<close>

lemma finalize_states:
  assumes "find_run rid db = Some r" "tr_status r \<notin> {CANCELLED, FAILED}" "tr_task_key r = task_key"
    and "\<And>b v. \<exists>v'. M b v = Some (task_key, v')" "\<forall>x \<in> set (item_states rid db). snd x \<in> {COMPLETED, FAILED}"
  shows "\<exists>db' r'. finalize_run_with_summary M rid (Some summary) override msg clear now db = Inr db' \<and> find_run rid db' = Some r'
    \<and> tr_total r' = length (item_states rid db) \<and> tr_completed r' = length (filter (\<lambda>x. snd x = COMPLETED) (item_states rid db))
    \<and> tr_failed r' = length (filter (\<lambda>x. snd x = FAILED) (item_states rid db))
    \<and> tr_status r' = (case override of Some x \<Rightarrow> x | None \<Rightarrow> if \<exists>x \<in> set (item_states rid db). snd x = FAILED then FAILED else COMPLETED)
    \<and> tr_completed_at r' = Some now"
proof -
  obtain v where v: "M False summary = Some (task_key, v)" using assms(4) by blast
  let ?db1 = "write_run rid (\<lambda>r. r\<lparr>tr_summary := ensure_json_serializable v\<rparr>) db"
  have w: "write_summary_opt M rid (Some summary) db = Inr ?db1"
    using assms(1-3) v by (simp add: write_summary_opt_def write_summary_def get_run_def validated_summary_def)
  have ended: "ti_status it \<in> {COMPLETED, FAILED}" if "it \<in> set (list_run_items rid db)" for it
    using assms(5) that by (auto simp: item_states_def)
  have not_cancelled: "ti_status it = FAILED \<or> ti_status it = CANCELLED \<longleftrightarrow> ti_status it = FAILED" if "it \<in> set (list_run_items rid db)" for it
    using ended [OF that] by auto
  have counts: "length (filter (\<lambda>it. ti_status it = COMPLETED) (list_run_items rid db)) = length (filter (\<lambda>x. snd x = COMPLETED) (item_states rid db))"
    "length (filter (\<lambda>it. ti_status it = FAILED) (list_run_items rid db)) = length (filter (\<lambda>x. snd x = FAILED) (item_states rid db))"
    "(\<exists>it \<in> set (list_run_items rid db). ti_status it = FAILED) = (\<exists>x \<in> set (item_states rid db). snd x = FAILED)"
    by (simp_all add: item_states_def filter_map o_def)
  have all: "length (list_run_items rid db) = length (item_states rid db)" by (simp add: item_states_def)
  have failed: "filter (\<lambda>it. ti_status it = FAILED \<or> ti_status it = CANCELLED) (list_run_items rid db) = filter (\<lambda>it. ti_status it = FAILED) (list_run_items rid db)"
    by (rule filter_cong [OF refl not_cancelled])
  let ?r = "finalize_update (list_run_items rid db) now (r\<lparr>tr_summary := ensure_json_serializable v\<rparr>)"
  have fin: "finalize_run rid now ?db1 = Inr (write_run rid (finalize_update (list_run_items rid db) now) ?db1)"
    using assms(1) by (simp add: finalize_run_def get_run_def)
  have status: "tr_status ?r = (if \<exists>x \<in> set (item_states rid db). snd x = FAILED then FAILED else COMPLETED)"
    "tr_total ?r = length (item_states rid db)" "tr_completed ?r = length (filter (\<lambda>x. snd x = COMPLETED) (item_states rid db))"
    "tr_failed ?r = length (filter (\<lambda>x. snd x = FAILED) (item_states rid db))" "tr_completed_at ?r = Some now"
    using assms(2) by (simp_all add: finalize_update_def Let_def counts failed all filter_empty_conv)
  show ?thesis
    using assms(1,2) w fin status by (auto simp: finalize_run_with_summary_def get_run_def split: option.split)
qed

lemma finalize_items:
  "finalize_run_with_summary M rid summary override msg clear now db = Inr db' \<Longrightarrow> item_states k db' = item_states k db"
  by (auto simp: item_states_def list_run_items_def finalize_run_with_summary_def finalize_run_def write_summary_opt_def write_summary_def write_run_def
      split: sum.splits option.splits if_splits)

end
