(* ===== verification/Jumpserver_Runs.thy ===== *)
theory Jumpserver_Runs
  imports Jumpserver_Result Run_Items
begin

text \<open>
  What a synchronisation with JumpServer leaves of the run that was prepared for it: closed, unless the
  source changed in between.
\<close>

section \<open>The one item of the run\<close>

definition sync_item_id :: "string \<Rightarrow> string \<times> string \<times> string" where
  "sync_item_id rid = (rid, ''step'', ''sync_assets'')"

definition one_item :: "string \<Rightarrow> string set \<Rightarrow> run_db \<Rightarrow> bool" where
  "one_item rid statuses db \<longleftrightarrow> (\<exists>r it. find_run rid db = Some r \<and> tr_status r = RUNNING \<and> list_run_items rid db = [it]
     \<and> item_id it = sync_item_id rid \<and> ti_status it \<in> statuses)"

lemma change_one:
  assumes "one_item rid A db" "\<And>it. item_id (f it) = item_id it" "\<And>it. ti_status it \<in> A \<Longrightarrow> \<not> refuses it \<and> ti_status (f it) \<in> B"
  shows "\<exists>db'. change_item rid ''step'' ''sync_assets'' refuses f db = Inr db' \<and> one_item rid B db'"
proof -
  obtain r it where r: "find_run rid db = Some r" "tr_status r = RUNNING" and it: "list_run_items rid db = [it]"
    "item_id it = sync_item_id rid" "ti_status it \<in> A"
    using assms(1) by (auto simp: one_item_def)
  have found: "get_item rid ''step'' ''sync_assets'' db = Inr it"
    using it by (simp add: get_item_def find_item_of_run sync_item_id_def)
  have "list_run_items rid (write_item (sync_item_id rid) f db) = [f it]"
    using it by (simp add: items_after_write [OF assms(2)])
  with assms(2) assms(3) [OF it(3)] it(2) r have "one_item rid B (write_item (sync_item_id rid) f db)"
    by (auto simp: one_item_def)
  with found r assms(3) [OF it(3)] show ?thesis
    by (simp add: change_item_def get_run_def sync_item_id_def)
qed

lemma finalize_one:
  assumes "one_item rid {x} db" "x \<in> {COMPLETED, FAILED}"
  shows "\<exists>db' r. finalize_run rid now (write_run_summary rid payload msg db) = Inr db' \<and> find_run rid db' = Some r \<and> tr_status r = x
    \<and> tr_total r = 1 \<and> tr_completed r + tr_failed r = 1 \<and> tr_completed_at r = Some now \<and> tr_error r = msg"
proof -
  obtain r it where r: "find_run rid db = Some r" "tr_status r = RUNNING" and it: "list_run_items rid db = [it]" "ti_status it = x"
    using assms(1) by (auto simp: one_item_def)
  let ?db = "write_run_summary rid payload msg db"
  have w: "?db = write_run rid (\<lambda>r. r\<lparr>tr_summary := payload, tr_error := msg\<rparr>) db"
    using r by (simp add: write_run_summary_def)
  have "find_run rid ?db = Some (r\<lparr>tr_summary := payload, tr_error := msg\<rparr>)" "list_run_items rid ?db = [it]"
    using r it by (simp_all add: w)
  then show ?thesis using r it assms(2)
    by (auto simp: finalize_run_def get_run_def finalize_update_def Let_def)
qed

section \<open>Prepare, then synchronise\<close>

lemma prepare_steps:
  assumes "prepare_background_sync env rid created_by st = Inr (st1, credential_id)"
  shows "\<exists>M tk nm c tg u sm url now db init. start_run M rid tk nm c tg u sm url now (jt_runs st) = Inr db
    \<and> init_items rid [init] db = Inr (jt_runs st1) \<and> ii_type init = ''step'' \<and> ii_key init = ''sync_assets''"
  using assms unfolding prepare_background_sync_def
  by (auto split: if_splits sum.splits) (intro exI conjI, assumption, assumption, simp_all)

lemma prepared_one_item:
  assumes "prepare_background_sync env rid created_by st = Inr (st1, credential_id)"
    and "\<forall>it \<in> set (rdb_items (jt_runs st)). find_run (ti_run it) (jt_runs st) \<noteq> None"
  shows "one_item rid {PENDING} (jt_runs st1)"
proof -
  obtain M tk nm c tg u sm url now db init where run: "start_run M rid tk nm c tg u sm url now (jt_runs st) = Inr db"
    and init: "init_items rid [init] db = Inr (jt_runs st1)" "ii_type init = ''step''" "ii_key init = ''sync_assets''"
    using prepare_steps [OF assms(1)] by blast
  note start = start_run_new [OF run]
  obtain r where r: "find_run rid db = Some r" "tr_status r = RUNNING" using start(3) by blast
  have "list_run_items rid (jt_runs st) = []"
    using assms(2) start(1) by (auto simp: list_run_items_def filter_empty_conv)
  then have "list_run_items rid db = []" using start(2) by (simp add: list_run_items_def)
  moreover have "jt_runs st1 = write_run rid (\<lambda>r. r\<lparr>tr_total := 1\<rparr>) (db\<lparr>rdb_items := rdb_items db @ [new_item rid init]\<rparr>)"
    using init(1) by (auto simp: init_items_def Let_def split: sum.splits if_splits)
  moreover have "find_run rid (db\<lparr>rdb_items := xs\<rparr>) = Some r" for xs using r by (simp add: find_run_def)
  ultimately show ?thesis using r init(2,3)
    by (simp add: one_item_def list_run_items_def new_item_def item_id_def sync_item_id_def)
qed

lemma sync_try_closes:
  assumes "one_item rid {PENDING} (jt_runs st)" "sync_try env rid binding credential st = Some (Inr st')"
  shows "\<exists>r. find_run rid (jt_runs st') = Some r \<and> tr_status r = COMPLETED \<and> tr_total r = 1 \<and> tr_completed r + tr_failed r = 1
    \<and> tr_completed_at r = Some (jx_now env) \<and> tr_error r = None"
proof -
  obtain db1 where db1: "start_item rid ''step'' ''sync_assets'' (jx_now env) (jt_runs st) = Inr db1" "one_item rid {RUNNING} db1"
    using change_one [OF assms(1), of "\<lambda>it. it\<lparr>ti_status := RUNNING, ti_started_at := (case ti_started_at it of None \<Rightarrow> Some (jx_now env) | Some x \<Rightarrow> Some x)\<rparr>"
      "\<lambda>it. ti_status it \<in> set task_status_terminal" "{RUNNING}"]
    by (auto simp: start_item_def item_id_def task_status_terminal_def)
  obtain c st1 payload db2 db3 where replace: "replace_asset_snapshots (jc_assets c) rid (jx_now env) (st\<lparr>jt_runs := db1\<rparr>) = Some st1"
    and complete: "complete_item rid ''step'' ''sync_assets'' (Some (collection_metrics c)) (Some (collection_metrics c)) (jx_now env)
        (jt_runs (mark_binding (jb_id binding) (jx_now env) ''completed'' rid None st1)) = Inr db2"
    and final: "finalize_run rid (jx_now env) (write_run_summary rid payload None db2) = Inr db3" "jt_runs st' = db3"
    using assms(2) db1(1) by (auto simp: sync_try_def Let_def split: sum.splits option.splits)
  have "jt_runs st1 = db1" using replace by (auto simp: replace_asset_snapshots_def Let_def split: prod.splits if_splits)
  then have "one_item rid {COMPLETED} db2"
    using complete change_one [OF db1(2), of "\<lambda>it. it\<lparr>ti_status := COMPLETED, ti_completed_at := Some (jx_now env),
        ti_metrics := json_or (Some (collection_metrics c)) (ti_metrics it), ti_details := json_or (Some (collection_metrics c)) (ti_details it)\<rparr>"
      "\<lambda>it. ti_status it \<in> {FAILED, CANCELLED}" "{COMPLETED}"]
    by (auto simp: complete_item_def mark_binding_def write_binding_def item_id_def)
  from finalize_one [OF this, of "jx_now env" payload None] final show ?thesis by auto
qed

lemma sync_failed_closes:
  assumes "one_item rid {PENDING} (jt_runs st)" "get_binding st \<noteq> None" "\<forall>v. jx_model env True v \<noteq> None"
    and "sync_failed env rid e st = (st', e')"
  shows "e' = e \<and> (\<exists>r. find_run rid (jt_runs st') = Some r \<and> tr_status r = FAILED \<and> tr_total r = 1 \<and> tr_completed r + tr_failed r = 1
    \<and> tr_completed_at r = Some (jx_now env) \<and> tr_error r = Some (js_error_text env e))"
proof -
  let ?text = "js_error_text env e" let ?details = "Some (O_dict [(K_str ''error_message'', O_str (js_error_text env e))])"
  obtain binding where b: "get_binding_or_error st = Inr binding"
    using assms(2) by (auto simp: get_binding_or_error_def)
  obtain db1 where db1: "fail_item rid ''step'' ''sync_assets'' ?text ?details (jx_now env) (jt_runs st) = Inr db1" "one_item rid {FAILED} db1"
    using change_one [OF assms(1), of "\<lambda>it. it\<lparr>ti_status := FAILED, ti_completed_at := Some (jx_now env), ti_error := Some ?text,
        ti_details := json_or ?details (ti_details it)\<rparr>" "\<lambda>it. ti_status it = CANCELLED" "{FAILED}"]
    by (auto simp: fail_item_def item_id_def)
  have "\<exists>payload. build_sync_jumpserver_assets_summary env (jb_credential binding) no_assets (Some ?text) = Inr payload"
    unfolding build_sync_jumpserver_assets_summary_def by (rule model_accepts [OF assms(3)])
  then obtain payload where p: "build_sync_jumpserver_assets_summary env (jb_credential binding) no_assets (Some ?text) = Inr payload" ..
  obtain db2 r where db2: "finalize_run rid (jx_now env) (write_run_summary rid payload (Some ?text) db1) = Inr db2"
    "find_run rid db2 = Some r" "tr_status r = FAILED" "tr_total r = 1" "tr_completed r + tr_failed r = 1"
    "tr_completed_at r = Some (jx_now env)" "tr_error r = Some ?text"
    using finalize_one [OF db1(2), of "jx_now env" payload "Some ?text"] by auto
  from assms(4) show ?thesis
    unfolding sync_failed_def Let_def b sum.case db1(1) p db2(1) using db2(2-) by auto
qed

text \<open>The source and the credential that the run was prepared for, when they are still bound to it.\<close>

definition still_bound :: "int \<Rightarrow> js_store \<Rightarrow> (js_binding \<times> credential) option" where
  "still_bound credential_id st = (case get_binding st of
     None \<Rightarrow> None
   | Some binding \<Rightarrow> (case credential_of st binding of
       None \<Rightarrow> None
     | Some credential \<Rightarrow> if jb_credential binding = credential_id then Some (binding, credential) else None))"

definition bound_server :: "js_sync_env \<Rightarrow> js_binding \<Rightarrow> credential \<Rightarrow> js_env" where
  "bound_server env binding credential = jx_server env (cd_username credential) (cd_password credential)
     (resolve_binding_org_id env binding) (resolve_binding_verify_ssl env binding)"

lemma sync_once_unbound:
  "still_bound credential_id st = None \<Longrightarrow> \<exists>e \<in> {Js_no_binding, Js_credential_changed}. sync_once env rid credential_id st = Some (st, Some e)"
  by (auto simp: still_bound_def sync_once_def get_binding_or_error_def split: option.splits if_splits)

lemma sync_once_bound:
  assumes "still_bound credential_id st = Some (binding, credential)"
  shows "sync_once env rid credential_id st = (case sync_try env rid binding credential st of
      None \<Rightarrow> None
    | Some (Inr st') \<Rightarrow> Some (st', None)
    | Some (Inl e) \<Rightarrow> (case sync_failed env rid e st of (st', e') \<Rightarrow> Some (st', Some e')))"
    and "get_binding st = Some binding"
  using assms by (auto simp: still_bound_def sync_once_def get_binding_or_error_def split: option.splits if_splits)

lemma sync_try_returns:
  assumes "one_item rid {PENDING} (jt_runs st)"
  shows "sync_try env rid binding credential st \<noteq> None \<longleftrightarrow> list_database_assets (bound_server env binding credential) (jb_base_url binding) \<noteq> None"
proof -
  obtain db where "start_item rid ''step'' ''sync_assets'' (jx_now env) (jt_runs st) = Inr db"
    using change_one [OF assms, of "\<lambda>it. it\<lparr>ti_status := RUNNING, ti_started_at := (case ti_started_at it of None \<Rightarrow> Some (jx_now env) | Some x \<Rightarrow> Some x)\<rparr>"
      "\<lambda>it. ti_status it \<in> set task_status_terminal" "{RUNNING}"]
    by (auto simp: start_item_def item_id_def task_status_terminal_def)
  then show ?thesis by (auto simp: sync_try_def bound_server_def split: option.split sum.split)
qed

text \<open>C12: What becomes of a prepared run. When the source is still bound to its credential and the pages of
  its server end, the synchronisation returns and has closed the run: completed with its one item when it
  succeeds, failed with the text of the error when the collection, the snapshots or the summary fail. When
  the pages never end it never returns. When the source was unbound or bound to another credential in
  between, nothing is written. In both cases the run stays running. Nobody else writes the runs between
  the preparation and the synchronisation, and the model accepts the summaries of the task.\<close>

theorem prepared_sync_closes_run:
  assumes "prepare_background_sync env rid created_by st = Inr (st1, credential_id)"
    and "\<forall>it \<in> set (rdb_items (jt_runs st)). find_run (ti_run it) (jt_runs st) \<noteq> None"
    and "jt_runs st2 = jt_runs st1" and "\<forall>v. jx_model env True v \<noteq> None"
  shows "run_status (jt_runs st2) rid = Some RUNNING
    \<and> (case still_bound credential_id st2 of
         None \<Rightarrow> \<exists>e \<in> {Js_no_binding, Js_credential_changed}. sync_once env rid credential_id st2 = Some (st2, Some e)
       | Some (binding, credential) \<Rightarrow>
           if \<exists>n. page_at (bound_server env binding credential) (jb_base_url binding) n = None
           then \<exists>st3 outcome r. sync_once env rid credential_id st2 = Some (st3, outcome)
             \<and> find_run rid (jt_runs st3) = Some r \<and> tr_total r = 1 \<and> tr_completed r + tr_failed r = 1
             \<and> tr_completed_at r = Some (jx_now env)
             \<and> (case outcome of None \<Rightarrow> tr_status r = COMPLETED \<and> tr_error r = None
                 | Some e \<Rightarrow> tr_status r = FAILED \<and> tr_error r = Some (js_error_text env e))
           else sync_once env rid credential_id st2 = None)"
proof -
  have one: "one_item rid {PENDING} (jt_runs st2)" using prepared_one_item [OF assms(1,2)] assms(3) by simp
  then have running: "run_status (jt_runs st2) rid = Some RUNNING" by (auto simp: one_item_def run_status_def)
  show ?thesis
  proof (cases "still_bound credential_id st2")
    case None
    then show ?thesis using running sync_once_unbound [OF None] by simp
  next
    case (Some bc)
    obtain binding credential where bc: "bc = (binding, credential)" by fastforce
    note bound = sync_once_bound [OF Some [unfolded bc]]
    note ends = sync_try_returns [OF one, of env binding credential, unfolded collection_returns]
    show ?thesis
    proof (cases "sync_try env rid binding credential st2")
      case None
      with ends have "\<not> (\<exists>n. page_at (bound_server env binding credential) (jb_base_url binding) n = None)" by simp
      then show ?thesis using running None by (simp add: Some bc bound(1))
    next
      case result: (Some result)
      with ends have pages: "\<exists>n. page_at (bound_server env binding credential) (jb_base_url binding) n = None" by simp
      show ?thesis
      proof (cases result)
        case (Inr st')
        with result have "sync_once env rid credential_id st2 = Some (st', None)" by (simp add: bound(1))
        then show ?thesis using running pages sync_try_closes [OF one result [unfolded Inr]] by (auto simp: Some bc)
      next
        case (Inl e)
        obtain st' e' where failed: "sync_failed env rid e st2 = (st', e')" by fastforce
        with result Inl have "sync_once env rid credential_id st2 = Some (st', Some e')" by (simp add: bound(1))
        then show ?thesis using running pages sync_failed_closes [OF one _ assms(4) failed] bound(2) by (auto simp: Some bc)
      qed
    qed
  qed
qed

text \<open>The sample is synchronised, after it was bound to another credential, and with a server whose page
  links to itself.\<close>

definition rebound_js_store :: js_store where
  "rebound_js_store = write_binding 1 (\<lambda>b. b\<lparr>jb_credential := 6\<rparr>) prepared_js_store"

definition endless_js_env :: js_sync_env where
  "endless_js_env = sample_js_env\<lparr>jx_server := \<lambda>_ _ _ _. self_linking\<rparr>"

lemma prepared_sync_closes_run_witness:
  "(\<exists>st3. sync_once sample_js_env ''r'' 5 prepared_js_store = Some (st3, None) \<and> run_status (jt_runs st3) ''r'' = Some COMPLETED)
   \<and> (\<exists>e. sync_once sample_js_env ''r'' 5 rebound_js_store = Some (rebound_js_store, Some e) \<and> run_status (jt_runs rebound_js_store) ''r'' = Some RUNNING)
   \<and> sync_once endless_js_env ''r'' 5 prepared_js_store = None"
proof -
  have "map_sum id snd (prepare_background_sync sample_js_env ''r'' None sample_js_store) = Inr 5" by code_simp
  then have prepare: "prepare_background_sync sample_js_env ''r'' None sample_js_store = Inr (prepared_js_store, 5)"
    by (auto simp: prepared_js_store_def split: sum.splits prod.splits)
  have "prepare_background_sync endless_js_env ''r'' None sample_js_store = prepare_background_sync sample_js_env ''r'' None sample_js_store"
  proof -
    have "jx_configured endless_js_env = jx_configured sample_js_env" "jx_model endless_js_env = jx_model sample_js_env" "jx_now endless_js_env = jx_now sample_js_env"
      by (simp_all add: endless_js_env_def)
    then show ?thesis unfolding prepare_background_sync_def by (simp only:)
  qed
  with prepare have prepare': "prepare_background_sync endless_js_env ''r'' None sample_js_store = Inr (prepared_js_store, 5)" by simp
  have rows: "\<forall>it \<in> set (rdb_items (jt_runs sample_js_store)). find_run (ti_run it) (jt_runs sample_js_store) \<noteq> None"
    and model: "\<forall>v. jx_model sample_js_env True v \<noteq> None" "\<forall>v. jx_model endless_js_env True v \<noteq> None"
    by (simp_all add: sample_js_store_def sample_js_env_def endless_js_env_def)
  have "map_option (jb_base_url \<circ> fst) (still_bound 5 prepared_js_store) = Some ''http://j''" "map_option fst (still_bound 5 rebound_js_store) = None"
    "map_option snd (sync_once sample_js_env ''r'' 5 prepared_js_store) = Some None" by code_simp+
  then obtain b c s3 where bound: "still_bound 5 prepared_js_store = Some (b, c)" "jb_base_url b = ''http://j''" "still_bound 5 rebound_js_store = None"
    and run: "sync_once sample_js_env ''r'' 5 prepared_js_store = Some (s3, None)" by auto
  have same: "jt_runs rebound_js_store = jt_runs prepared_js_store" by (simp add: rebound_js_store_def write_binding_def)
  have "run_status (jt_runs s3) ''r'' = Some COMPLETED"
    using prepared_sync_closes_run [OF prepare rows refl model(1)] run by (auto simp: run_status_def bound split: if_splits)
  moreover have "(\<exists>e. sync_once sample_js_env ''r'' 5 rebound_js_store = Some (rebound_js_store, Some e)) \<and> run_status (jt_runs rebound_js_store) ''r'' = Some RUNNING"
    using prepared_sync_closes_run [OF prepare rows same model(1)] by (auto simp: bound)
  moreover have "bound_server endless_js_env b c = self_linking" by (simp add: bound_server_def endless_js_env_def)
  then have "sync_once endless_js_env ''r'' 5 prepared_js_store = None"
    using prepared_sync_closes_run [OF prepare' rows refl model(2)] self_linking_pages by (auto simp: bound)
  ultimately show ?thesis using run by blast
qed

end
