(* ===== verification/Daily_Task.thy ===== *)
theory Daily_Task
  imports Trend_Stats Classification_Task
begin

text \<open>
  The task that counts the matches of a day: \<^verbatim>\<open>calculate_account\<close> of
  \<^verbatim>\<open>app/tasks/account_classification_daily_tasks.py\<close> over
  \<^verbatim>\<open>app/repositories/account_classification_daily_stats_repository.py\<close>. It evaluates every active
  rule on every account and writes, for each rule and each owner of accounts of its database type, the
  number of matched accounts, and for each class the number of accounts that one of its rules matched.
  The reading side is \<^verbatim>\<open>Trend_Stats\<close>.

  The environment is that of the classification task; \<^verbatim>\<open>de_late\<close> is what other sessions commit
  to the tables of the runs after the last rule, \<^verbatim>\<open>de_iso\<close> is \<^verbatim>\<open>isoformat\<close> of a time, and
  \<^verbatim>\<open>de_text\<close> is the text of an exception of the libraries. The tables are those of PostgreSQL:
  one statement that writes a row twice is refused.
\<close>

section \<open>Tables\<close>

record daily_rule_row =
  dr_stat :: rule_stat
  dr_instance :: int
  dr_computed_at :: int
  dr_created_at :: int
  dr_updated_at :: int

record daily_class_row =
  dc_stat :: class_stat
  dc_instance :: int
  dc_computed_at :: int
  dc_created_at :: int
  dc_updated_at :: int

record daily_store =
  ds_runs :: run_db
  ds_rules :: "daily_rule_row list"
  ds_classes :: "daily_class_row list"

datatype daily_error = Daily_error class_error | Double_row

record daily_env =
  de_task :: task_env
  de_today :: date
  de_late :: "run_db \<Rightarrow> run_db"
  de_iso :: "int \<Rightarrow> string"
  de_text :: "daily_error \<Rightarrow> string"

text \<open>\<^verbatim>\<open>str(exc)\<close>: the texts the program writes, and those of the libraries.\<close>

definition daily_error_text :: "daily_env \<Rightarrow> daily_error \<Rightarrow> string" where
  "daily_error_text env e = (case e of
     Daily_error (Rule_json rule_id rule_name) \<Rightarrow> class_error_text (Rule_json rule_id rule_name)
   | Daily_error (Run_error Run_not_found) \<Rightarrow> class_error_text (Run_error Run_not_found)
   | Daily_error (Run_error Item_not_found) \<Rightarrow> class_error_text (Run_error Item_not_found)
   | _ \<Rightarrow> de_text env e)"

section \<open>The repository\<close>

text \<open>\<^verbatim>\<open>INSERT ... ON CONFLICT (key) DO UPDATE\<close>.\<close>

definition upsert_row :: "('r \<Rightarrow> 'k) \<Rightarrow> ('r \<Rightarrow> 'r \<Rightarrow> 'r) \<Rightarrow> 'r \<Rightarrow> 'r list \<Rightarrow> 'r list" where
  "upsert_row key merge excluded rows =
    (if key excluded \<in> set (map key rows) then map (\<lambda>row. if key row = key excluded then merge excluded row else row) rows
     else rows @ [excluded])"

definition upsert_stats :: "('r \<Rightarrow> 'k) \<Rightarrow> ('r \<Rightarrow> 'r \<Rightarrow> 'r) \<Rightarrow> 'r list \<Rightarrow> 'r list \<Rightarrow> daily_error + 'r list" where
  "upsert_stats key merge records rows =
    (if records = [] then Inr rows
     else if \<not> distinct (map key records) then Inl Double_row
     else Inr (fold (upsert_row key merge) records rows))"

definition rule_key :: "daily_rule_row \<Rightarrow> date \<times> int \<times> string \<times> string \<times> int" where
  "rule_key row = (let s = dr_stat row in (rs_date s, rs_rule s, rs_db_type s, rs_owner_type s, rs_owner_id s))"

definition class_key :: "daily_class_row \<Rightarrow> date \<times> int \<times> string \<times> string \<times> int" where
  "class_key row = (let s = dc_stat row in (cs_date s, cs_classification s, cs_db_type s, cs_owner_type s, cs_owner_id s))"

definition upsert_rule_match_stats :: "int \<Rightarrow> daily_rule_row list \<Rightarrow> daily_rule_row list \<Rightarrow> daily_error + daily_rule_row list" where
  "upsert_rule_match_stats current_utc = upsert_stats rule_key
     (\<lambda>excluded row. row\<lparr>dr_stat := (dr_stat row)\<lparr>rs_count := rs_count (dr_stat excluded)\<rparr>,
        dr_computed_at := dr_computed_at excluded, dr_updated_at := current_utc\<rparr>)"

definition upsert_classification_match_stats :: "int \<Rightarrow> daily_class_row list \<Rightarrow> daily_class_row list \<Rightarrow> daily_error + daily_class_row list" where
  "upsert_classification_match_stats current_utc = upsert_stats class_key
     (\<lambda>excluded row. row\<lparr>dc_stat := (dc_stat row)\<lparr>cs_count := cs_count (dc_stat excluded)\<rparr>,
        dc_computed_at := dc_computed_at excluded, dc_updated_at := current_utc\<rparr>)"

section \<open>Accounts and their owners\<close>

type_synonym owner_scope = "string \<times> int \<times> int"

definition resolve_account_owner_scope :: "permission_row \<Rightarrow> owner_scope option" where
  "resolve_account_owner_scope account =
    (let text = lower (strip (if pr_owner_type account = [] then ''instance'' else pr_owner_type account));
         db_owner_type = (if text = [] then ''instance'' else text);
         instance_id = pr_instance account;
         owner_id = (case pr_owner_id account of None \<Rightarrow> instance_id | Some i \<Rightarrow> if i = 0 then instance_id else i)
     in if instance_id \<le> 0 \<or> owner_id \<le> 0 then None else Some (db_owner_type, owner_id, instance_id))"

definition index_account :: "permission_row \<Rightarrow> permission_row list dict \<times> owner_scope list dict \<Rightarrow> permission_row list dict \<times> owner_scope list dict" where
  "index_account account indexes = (case indexes of (by_type, scopes) \<Rightarrow>
     let db_type = db_type_key (pr_db_type account)
     in (case resolve_account_owner_scope account of
          None \<Rightarrow> indexes
        | Some owner_scope \<Rightarrow>
            if db_type = [] then indexes
            else (dput db_type ((case map_of by_type db_type of None \<Rightarrow> [] | Some xs \<Rightarrow> xs) @ [account]) by_type,
              dput db_type (List.insert owner_scope (case map_of scopes db_type of None \<Rightarrow> [] | Some xs \<Rightarrow> xs)) scopes)))"

definition build_account_indexes :: "permission_row list \<Rightarrow> permission_row list dict \<times> owner_scope list dict" where
  "build_account_indexes accounts = fold index_account accounts ([], [])"

definition add_class_type :: "class_rule \<Rightarrow> (int \<times> string list) list \<Rightarrow> (int \<times> string list) list" where
  "add_class_type rule types =
    (let db_type = db_type_key (cr_db_type rule); c = cr_classification rule
     in if db_type = [] then types
        else AList.update c (List.insert db_type (case map_of types c of None \<Rightarrow> [] | Some xs \<Rightarrow> xs)) types)"

definition build_classification_db_types :: "class_rule list \<Rightarrow> (int \<times> string list) list" where
  "build_classification_db_types rules = fold add_class_type rules []"

section \<open>A rule\<close>

text \<open>Matched accounts: a dictionary of sets, as its pairs.\<close>

type_synonym 'k matched_sets = "('k \<times> nat) list"

definition matched_count :: "'k \<Rightarrow> 'k matched_sets \<Rightarrow> nat" where
  "matched_count k sets = length (filter (\<lambda>p. fst p = k) sets)"

definition account_matches :: "pv \<Rightarrow> string \<Rightarrow> permission_row \<Rightarrow> bool" where
  "account_matches expression db_type account =
    (let facts = (case pr_facts account of PDict d \<Rightarrow> d | _ \<Rightarrow> []);
         merged_facts = dput ''db_type'' (PStr db_type) facts
     in matched (evaluate merged_facts expression))"

definition match_account ::
  "pv \<Rightarrow> string \<Rightarrow> int \<Rightarrow> permission_row \<Rightarrow> (string \<times> int) matched_sets \<times> (int \<times> string \<times> string \<times> int) matched_sets
     \<Rightarrow> (string \<times> int) matched_sets \<times> (int \<times> string \<times> string \<times> int) matched_sets" where
  "match_account expression db_type classification_id account sets = (case sets of (by_scope, by_class) \<Rightarrow>
     case resolve_account_owner_scope account of
       None \<Rightarrow> sets
     | Some (owner_type, owner_id, instance_id) \<Rightarrow>
         if pr_id account = 0 \<or> \<not> account_matches expression db_type account then sets
         else (List.insert ((owner_type, owner_id), pr_id account) by_scope,
               List.insert ((classification_id, db_type, owner_type, owner_id), pr_id account) by_class))"

definition rule_record :: "date \<Rightarrow> int \<Rightarrow> class_rule \<Rightarrow> string \<Rightarrow> (string \<times> int) matched_sets \<Rightarrow> owner_scope \<Rightarrow> daily_rule_row" where
  "rule_record resolved_date computed_at rule db_type by_scope owner_scope = (case owner_scope of (owner_type, owner_id, instance_id) \<Rightarrow>
     \<lparr>dr_stat = \<lparr>rs_date = resolved_date, rs_rule = cr_id rule, rs_classification = cr_classification rule, rs_db_type = db_type,
        rs_owner_type = owner_type, rs_owner_id = owner_id, rs_count = int (matched_count (owner_type, owner_id) by_scope)\<rparr>,
      dr_instance = instance_id, dr_computed_at = computed_at, dr_created_at = computed_at, dr_updated_at = computed_at\<rparr>)"

definition scopes_of :: "owner_scope list dict \<Rightarrow> string \<Rightarrow> owner_scope list" where
  "scopes_of owner_scopes_by_db_type db_type =
    sort_key (\<lambda>s. s) (case map_of owner_scopes_by_db_type db_type of None \<Rightarrow> [] | Some xs \<Rightarrow> xs)"

definition calculate_rule_records ::
  "daily_env \<Rightarrow> class_rule \<Rightarrow> permission_row list dict \<Rightarrow> owner_scope list dict \<Rightarrow> (int \<times> string \<times> string \<times> int) matched_sets \<Rightarrow> date
     \<Rightarrow> class_error + (daily_rule_row list \<times> (int \<times> string \<times> string \<times> int) matched_sets \<times> pyobj \<times> pyobj)" where
  "calculate_rule_records env rule accounts_by_db_type owner_scopes_by_db_type by_class resolved_date =
    (let db_type = db_type_key (cr_db_type rule)
     in case te_loads (de_task env) (cr_expression rule) of
          None \<Rightarrow> Inl (Rule_json (cr_id rule) (cr_name rule))
        | Some expression \<Rightarrow>
            let candidate_accounts = (case map_of accounts_by_db_type db_type of None \<Rightarrow> [] | Some xs \<Rightarrow> xs);
                owner_scopes = scopes_of owner_scopes_by_db_type db_type;
                (by_scope, by_class') = fold (match_account expression db_type (cr_classification rule)) candidate_accounts ([], by_class)
            in Inr (map (rule_record resolved_date (te_now (de_task env)) rule db_type by_scope) owner_scopes, by_class',
                 O_dict [(K_str ''matched_accounts_total'', O_int (int (length by_scope))),
                   (K_str ''rule_match_rows_written'', O_int (int (length owner_scopes))),
                   (K_str ''duration_ms'', O_int (te_ms (de_task env) (cr_id rule))),
                   (K_str ''instances_covered'', O_int (int (length owner_scopes)))],
                 O_dict [(K_str ''db_type'', O_str db_type), (K_str ''classification_id'', O_int (cr_classification rule))]))"

definition daily_rule_failure ::
  "daily_env \<Rightarrow> string \<Rightarrow> class_rule \<Rightarrow> daily_error \<Rightarrow> run_db \<Rightarrow> run_db \<times> daily_error" where
  "daily_rule_failure env run_id rule e db =
    (case fail_item run_id ''rule'' (show_int (cr_id rule)) (daily_error_text env e)
        (Some (O_dict [(K_str ''rule_id'', O_int (cr_id rule)), (K_str ''rule_name'', O_str (cr_name rule)),
          (K_str ''db_type'', case cr_db_type rule of None \<Rightarrow> O_none | Some t \<Rightarrow> O_str t)])) (te_now (de_task env)) db of
       Inl e' \<Rightarrow> (db, Daily_error (Run_error e'))
     | Inr db1 \<Rightarrow> (case mark_run_failed (te_model (de_task env)) run_id (daily_error_text env e) None (te_now (de_task env)) db1 of
         Inl e' \<Rightarrow> (db, Daily_error (Run_error e'))
       | Inr db2 \<Rightarrow> (db2, e)))"

section \<open>The loop over the rules\<close>

definition class_record :: "date \<Rightarrow> int \<Rightarrow> (int \<times> string \<times> string \<times> int) matched_sets \<Rightarrow> int \<Rightarrow> string \<Rightarrow> owner_scope \<Rightarrow> daily_class_row" where
  "class_record resolved_date computed_at by_class classification_id db_type owner_scope = (case owner_scope of (owner_type, owner_id, instance_id) \<Rightarrow>
     \<lparr>dc_stat = \<lparr>cs_date = resolved_date, cs_classification = classification_id, cs_db_type = db_type, cs_owner_type = owner_type,
        cs_owner_id = owner_id, cs_count = int (matched_count (classification_id, db_type, owner_type, owner_id) by_class)\<rparr>,
      dc_instance = instance_id, dc_computed_at = computed_at, dc_created_at = computed_at, dc_updated_at = computed_at\<rparr>)"

definition build_classification_records ::
  "(int \<times> string list) list \<Rightarrow> owner_scope list dict \<Rightarrow> (int \<times> string \<times> string \<times> int) matched_sets \<Rightarrow> date \<Rightarrow> int \<Rightarrow> daily_class_row list" where
  "build_classification_records classification_db_types owner_scopes_by_db_type by_class resolved_date computed_at =
    concat (map (\<lambda>(classification_id, db_types). concat (map (\<lambda>db_type.
      map (class_record resolved_date computed_at by_class classification_id db_type) (scopes_of owner_scopes_by_db_type db_type))
      (sort_key (\<lambda>t. t) db_types))) classification_db_types)"

datatype daily_end =
    Daily_raised daily_error
  | Daily_stopped "daily_rule_row list"
  | Daily_done "daily_rule_row list" "(int \<times> string \<times> string \<times> int) matched_sets"

fun daily_rules ::
  "daily_env \<Rightarrow> string \<Rightarrow> permission_row list dict \<Rightarrow> owner_scope list dict \<Rightarrow> date \<Rightarrow> class_rule list
     \<Rightarrow> daily_rule_row list \<Rightarrow> (int \<times> string \<times> string \<times> int) matched_sets \<Rightarrow> run_db \<Rightarrow> run_db \<times> daily_end" where
  "daily_rules env run_id by_type scopes resolved_date [] rule_records by_class db = (db, Daily_done rule_records by_class)"
| "daily_rules env run_id by_type scopes resolved_date (rule # rules) rule_records by_class db =
    (let db0 = te_other (de_task env) (cr_id rule) db; key = show_int (cr_id rule); now = te_now (de_task env)
     in case is_cancelled run_id db0 of
          Inl e \<Rightarrow> (db0, Daily_raised (Daily_error (Run_error e)))
        | Inr True \<Rightarrow> (case finalize_run run_id now db0 of
              Inl e \<Rightarrow> (db0, Daily_raised (Daily_error (Run_error e)))
            | Inr db1 \<Rightarrow> (db1, Daily_stopped rule_records))
        | Inr False \<Rightarrow> (case start_item run_id ''rule'' key now db0 of
              Inl e \<Rightarrow> (db0, Daily_raised (Daily_error (Run_error e)))
            | Inr db1 \<Rightarrow> (case calculate_rule_records env rule by_type scopes by_class resolved_date of
                Inl e \<Rightarrow> (case daily_rule_failure env run_id rule (Daily_error e) db1 of (db2, e') \<Rightarrow> (db2, Daily_raised e'))
              | Inr (records, by_class', metrics, details) \<Rightarrow>
                  (case complete_item run_id ''rule'' key (Some metrics) (Some details) now db1 of
                    Inl e \<Rightarrow> (case daily_rule_failure env run_id rule (Daily_error (Run_error e)) db1 of (db2, e') \<Rightarrow> (db2, Daily_raised e'))
                  | Inr db2 \<Rightarrow> daily_rules env run_id by_type scopes resolved_date rules (rule_records @ records) by_class' db2))))"

text \<open>The statistics of the run: the committed store, the uncommitted one, and the numbers of rows.\<close>

definition calculate_rule_statistics ::
  "daily_env \<Rightarrow> string \<Rightarrow> class_rule list \<Rightarrow> permission_row list \<Rightarrow> date \<Rightarrow> daily_store
     \<Rightarrow> daily_store \<times> (daily_error + (daily_store \<times> nat \<times> nat))" where
  "calculate_rule_statistics env run_id rules accounts resolved_date st =
    (case build_account_indexes accounts of (by_type, scopes) \<Rightarrow>
     case daily_rules env run_id by_type scopes resolved_date rules [] [] (ds_runs st) of
       (db, Daily_raised e) \<Rightarrow> (st\<lparr>ds_runs := db\<rparr>, Inl e)
     | (db, Daily_stopped records) \<Rightarrow> (st\<lparr>ds_runs := db\<rparr>, Inr (st\<lparr>ds_runs := db\<rparr>, length records, 0))
     | (db, Daily_done records by_class) \<Rightarrow>
         let now = te_now (de_task env);
             st1 = st\<lparr>ds_runs := db\<rparr>;
             class_records = build_classification_records (build_classification_db_types rules) scopes by_class resolved_date now
         in (case upsert_rule_match_stats now records (ds_rules st1) of
               Inl e \<Rightarrow> (st1, Inl e)
             | Inr rule_rows \<Rightarrow> (case upsert_classification_match_stats now class_records (ds_classes st1) of
                 Inl e \<Rightarrow> (st1, Inl e)
               | Inr class_rows \<Rightarrow> (st1, Inr (st1\<lparr>ds_rules := rule_rows, ds_classes := class_rows\<rparr>, length records, length class_records)))))"

section \<open>The task\<close>

definition calculate_account_payload :: "daily_env \<Rightarrow> bool \<Rightarrow> date \<Rightarrow> int \<Rightarrow> int \<Rightarrow> int \<Rightarrow> int \<Rightarrow> pyobj" where
  "calculate_account_payload env manual_run stat_date rules_count accounts_count rule_match_rows classification_match_rows = O_dict
     [(K_str ''version'', O_int 1),
      (K_str ''common'', O_dict
        [(K_str ''inputs'', O_dict [(K_str ''manual_run'', O_bool manual_run)]),
         (K_str ''scope'', O_dict [(K_str ''time'', O_dict [(K_str ''type'', O_str ''date''), (K_str ''timezone'', O_str ''Asia/Shanghai''),
            (K_str ''date'', O_date (iso_date stat_date))]), (K_str ''target'', O_dict [])]),
         (K_str ''metrics'', O_list
           [metric ''rules_count'' (utf8 [0xE8, 0xA7, 0x84, 0xE5, 0x88, 0x99, 0xE6, 0x95, 0xB0]) rules_count (utf8 [0xE6, 0x9D, 0xA1]) ''info'', metric ''accounts_count'' (utf8 [0xE8, 0xB4, 0xA6, 0xE6, 0x88, 0xB7, 0xE6, 0x95, 0xB0]) accounts_count (utf8 [0xE4, 0xB8, 0xAA]) ''info'',
            metric ''rule_match_rows'' (utf8 [0xE8, 0xA7, 0x84, 0xE5, 0x88, 0x99, 0xE5, 0x8C, 0xB9, 0xE9, 0x85, 0x8D, 0xE8, 0xA1, 0x8C, 0xE6, 0x95, 0xB0]) rule_match_rows (utf8 [0xE8, 0xA1, 0x8C]) ''info'',
            metric ''classification_match_rows'' (utf8 [0xE5, 0x88, 0x86, 0xE7, 0xB1, 0xBB, 0xE5, 0x8C, 0xB9, 0xE9, 0x85, 0x8D, 0xE8, 0xA1, 0x8C, 0xE6, 0x95, 0xB0]) classification_match_rows (utf8 [0xE8, 0xA1, 0x8C]) ''info'']),
         (K_str ''highlights'', O_list []),
         (K_str ''flags'', O_dict [(K_str ''skipped'', O_bool False), (K_str ''skip_reason'', O_none)])]),
      (K_str ''ext'', O_dict [(K_str ''type'', O_str ''calculate_account''), (K_str ''version'', O_int 1),
        (K_str ''data'', O_dict
          [(K_str ''stat_date'', O_date (iso_date stat_date)), (K_str ''computed_at'', O_date (de_iso env (te_now (de_task env)))),
           (K_str ''rules_count'', O_int rules_count), (K_str ''accounts_count'', O_int accounts_count),
           (K_str ''rule_match_rows'', O_int rule_match_rows),
           (K_str ''classification_match_rows'', O_int classification_match_rows)])])]"

definition build_calculate_account_summary :: "daily_env \<Rightarrow> bool \<Rightarrow> date \<Rightarrow> int \<Rightarrow> int \<Rightarrow> int \<Rightarrow> int \<Rightarrow> daily_error + pyobj" where
  "build_calculate_account_summary env manual_run stat_date rules_count accounts_count rule_match_rows classification_match_rows =
    (case te_model (de_task env) True
        (calculate_account_payload env manual_run stat_date rules_count accounts_count rule_match_rows classification_match_rows) of
       None \<Rightarrow> Inl (Daily_error Summary_error)
     | Some (_, v) \<Rightarrow> Inr v)"

datatype daily_result = Daily_returned bool string | Daily_failed daily_error

definition MSG_DAILY_NO_ACCOUNTS :: string where "MSG_DAILY_NO_ACCOUNTS = utf8 [0xE6, 0xB2, 0xA1, 0xE6, 0x9C, 0x89, 0xE9, 0x9C, 0x80, 0xE8, 0xA6, 0x81, 0xE7, 0xBB, 0x9F, 0xE8, 0xAE, 0xA1, 0xE7, 0x9A, 0x84, 0xE8, 0xB4, 0xA6, 0xE6, 0x88, 0xB7]"
definition MSG_DAILY_DONE :: string where "MSG_DAILY_DONE = utf8 [0xE8, 0xB4, 0xA6, 0xE6, 0x88, 0xB7, 0xE5, 0x88, 0x86, 0xE7, 0xB1, 0xBB, 0xE6, 0xAF, 0x8F, 0xE6, 0x97, 0xA5, 0xE7, 0xBB, 0x9F, 0xE8, 0xAE, 0xA1, 0xE8, 0xAE, 0xA1, 0xE7, 0xAE, 0x97, 0xE5, 0xAE, 0x8C, 0xE6, 0x88, 0x90]"
definition MSG_DAILY_FAILED :: string where "MSG_DAILY_FAILED = utf8 [0xE8, 0xB4, 0xA6, 0xE6, 0x88, 0xB7, 0xE5, 0x88, 0x86, 0xE7, 0xB1, 0xBB, 0xE6, 0xAF, 0x8F, 0xE6, 0x97, 0xA5, 0xE7, 0xBB, 0x9F, 0xE8, 0xAE, 0xA1, 0xE8, 0xAE, 0xA1, 0xE7, 0xAE, 0x97, 0xE5, 0xA4, 0xB1, 0xE8, 0xB4, 0xA5] @ '': ''"

text \<open>\<^verbatim>\<open>_finalize_no_rules\<close> and \<^verbatim>\<open>_finalize_no_accounts\<close>.\<close>

definition finalize_daily_empty ::
  "daily_env \<Rightarrow> string \<Rightarrow> bool \<Rightarrow> date \<Rightarrow> string \<Rightarrow> nat \<Rightarrow> nat \<Rightarrow> run_db \<Rightarrow> daily_error + run_db" where
  "finalize_daily_empty env run_id manual_run stat_date message rules_count accounts_count db =
    (case build_calculate_account_summary env manual_run stat_date (int rules_count) (int accounts_count) 0 0 of
       Inl e \<Rightarrow> Inl e
     | Inr summary \<Rightarrow> (case mark_run_failed (te_model (de_task env)) run_id message (Some summary) (te_now (de_task env)) db of
         Inl e \<Rightarrow> Inl (Daily_error (Run_error e))
       | Inr db' \<Rightarrow> Inr db'))"

text \<open>The body of the \<^verbatim>\<open>try\<close>: what is committed, and what it returns or raises.\<close>

definition daily_try ::
  "daily_env \<Rightarrow> class_tables \<Rightarrow> bool \<Rightarrow> date option \<Rightarrow> string \<Rightarrow> daily_store \<Rightarrow> daily_store \<times> (daily_error + bool \<times> string)" where
  "daily_try env t manual_run stat_date run_id st =
    (case is_cancelled run_id (ds_runs st) of
       Inl e \<Rightarrow> (st, Inl (Daily_error (Run_error e)))
     | Inr True \<Rightarrow> (st, Inr (True, MSG_CANCELLED))
     | Inr False \<Rightarrow>
        let resolved_date = (case stat_date of None \<Rightarrow> de_today env | Some d \<Rightarrow> d);
            rules = fetch_active_rules t; accounts = fetch_accounts t None None
        in if rules = [] then
             (case finalize_daily_empty env run_id manual_run resolved_date MSG_NO_RULES 0 (length accounts) (ds_runs st) of
                Inl e \<Rightarrow> (st, Inl e) | Inr db \<Rightarrow> (st\<lparr>ds_runs := db\<rparr>, Inr (False, MSG_NO_RULES)))
           else (case init_items run_id (map (\<lambda>r. \<lparr>ii_type = ''rule'', ii_key = show_int (cr_id r), ii_name = Some (cr_name r),
                 ii_instance = None\<rparr>) rules) (ds_runs st) of
               Inl e \<Rightarrow> (st, Inl (Daily_error (Run_error e)))
             | Inr db \<Rightarrow>
                 let st1 = st\<lparr>ds_runs := db\<rparr>
                 in if accounts = [] then
                      (case finalize_daily_empty env run_id manual_run resolved_date MSG_DAILY_NO_ACCOUNTS (length rules) 0 (ds_runs st1) of
                         Inl e \<Rightarrow> (st1, Inl e) | Inr db \<Rightarrow> (st1\<lparr>ds_runs := db\<rparr>, Inr (False, MSG_DAILY_NO_ACCOUNTS)))
                    else (case calculate_rule_statistics env run_id rules accounts resolved_date st1 of
                        (st2, Inl e) \<Rightarrow> (st2, Inl e)
                      | (st2, Inr (pending, rule_rows, class_rows)) \<Rightarrow>
                          let db = de_late env (ds_runs st2); st3 = st2\<lparr>ds_runs := db\<rparr>
                          in (case is_cancelled run_id db of
                               Inl e \<Rightarrow> (st3, Inl (Daily_error (Run_error e)))
                             | Inr True \<Rightarrow> (st3, Inr (True, MSG_CANCELLED))
                             | Inr False \<Rightarrow> (case build_calculate_account_summary env manual_run resolved_date (int (length rules))
                                   (int (length accounts)) (int rule_rows) (int class_rows) of
                                 Inl e \<Rightarrow> (st3, Inl e)
                               | Inr summary \<Rightarrow> (case finalize_run_with_summary (te_model (de_task env)) run_id (Some summary) None None False
                                     (te_now (de_task env)) db of
                                   Inl e \<Rightarrow> (st3, Inl (Daily_error (Run_error e)))
                                 | Inr db' \<Rightarrow> (pending\<lparr>ds_runs := db'\<rparr>, Inr (True, MSG_DAILY_DONE))))))))"

definition calculate_account ::
  "daily_env \<Rightarrow> class_tables \<Rightarrow> bool \<Rightarrow> int option \<Rightarrow> string option \<Rightarrow> date option \<Rightarrow> daily_store \<Rightarrow> daily_store \<times> daily_result" where
  "calculate_account env t manual_run created_by run_id stat_date st =
    (case resolve_or_start_run (te_model (de_task env)) run_id (te_fresh (de_task env)) ''calculate_account'' (utf8 [0xE7, 0xBB, 0x9F, 0xE8, 0xAE, 0xA1, 0xE8, 0xB4, 0xA6, 0xE6, 0x88, 0xB7, 0xE5, 0x88, 0x86, 0xE7, 0xB1, 0xBB]) ''classification''
         (if manual_run then ''manual'' else ''scheduled'') created_by None (Some ''/accounts/classifications'') (te_now (de_task env)) (ds_runs st) of
       Inl e \<Rightarrow> (st, Daily_failed (Daily_error (Run_error e)))
     | Inr (rid, db) \<Rightarrow>
        (case daily_try env t manual_run stat_date rid (st\<lparr>ds_runs := db\<rparr>) of
           (st', Inr (success, message)) \<Rightarrow> (st', Daily_returned success message)
         | (st', Inl e) \<Rightarrow> (case mark_run_failed (te_model (de_task env)) rid (daily_error_text env e) None (te_now (de_task env)) (ds_runs st') of
             Inl e' \<Rightarrow> (st', Daily_failed (Daily_error (Run_error e')))
           | Inr db' \<Rightarrow> (st'\<lparr>ds_runs := db'\<rparr>, Daily_returned False (MSG_DAILY_FAILED @ daily_error_text env e)))))"

end
