(* ===== verification/Daily_Result.thy ===== *)
theory Daily_Result
  imports Daily_Task
begin

text \<open>
  What the task that counts the matches of a day leaves in the tables of the statistics: exactly the
  number of accounts each rule and each class matches, or what was there before.
\<close>

section \<open>Sets of matched accounts\<close>

lemma matched_count_card: "distinct sets \<Longrightarrow> matched_count k sets = card {i. (k, i) \<in> set sets}"
proof -
  assume d: "distinct sets"
  have "inj_on snd (set (filter (\<lambda>p. fst p = k) sets))" by (auto simp: inj_on_def)
  then have "card (snd ` set (filter (\<lambda>p. fst p = k) sets)) = card (set (filter (\<lambda>p. fst p = k) sets))"
    by (rule card_image)
  also have "\<dots> = matched_count k sets"
    unfolding matched_count_def using d by (intro distinct_card) simp
  finally have "matched_count k sets = card (snd ` set (filter (\<lambda>p. fst p = k) sets))" ..
  moreover have "snd ` set (filter (\<lambda>p. fst p = k) sets) = {i. (k, i) \<in> set sets}" by force
  ultimately show ?thesis by simp
qed

section \<open>The indexes\<close>

definition entries :: "'v list dict \<Rightarrow> string \<Rightarrow> 'v list" where
  "entries d k = (case map_of d k of None \<Rightarrow> [] | Some xs \<Rightarrow> xs)"

text \<open>The accounts of a database type that are counted.\<close>

definition counted :: "string \<Rightarrow> permission_row \<Rightarrow> bool" where
  "counted db_type a \<longleftrightarrow> db_type \<noteq> [] \<and> db_type_key (pr_db_type a) = db_type \<and> resolve_account_owner_scope a \<noteq> None"

definition owned_by :: "string \<Rightarrow> string \<Rightarrow> int \<Rightarrow> permission_row \<Rightarrow> bool" where
  "owned_by db_type owner_type owner_id a \<longleftrightarrow> db_type \<noteq> [] \<and> db_type_key (pr_db_type a) = db_type
     \<and> (\<exists>i. resolve_account_owner_scope a = Some (owner_type, owner_id, i))"

lemma entries_dput: "entries (dput k v d) j = (if j = k then v else entries d j)"
  by (simp add: entries_def map_of_dput)

lemma index_entries:
  "entries (fst (build_account_indexes accounts)) ty = filter (counted ty) accounts
   \<and> set (entries (snd (build_account_indexes accounts)) ty) = {s. \<exists>a \<in> set accounts. counted ty a \<and> resolve_account_owner_scope a = Some s}
   \<and> distinct (entries (snd (build_account_indexes accounts)) ty)"
proof (induction accounts rule: rev_induct)
  case Nil
  show ?case by (simp add: build_account_indexes_def entries_def)
next
  case (snoc a accounts)
  obtain by_type scopes where idx: "build_account_indexes accounts = (by_type, scopes)" by fastforce
  then have step: "build_account_indexes (accounts @ [a]) = index_account a (by_type, scopes)"
    by (simp add: build_account_indexes_def)
  show ?case
  proof (cases "counted (db_type_key (pr_db_type a)) a")
    case True
    then obtain ot oi i where s': "resolve_account_owner_scope a = Some (ot, oi, i)" "db_type_key (pr_db_type a) \<noteq> []"
      by (fastforce simp: counted_def)
    let ?s = "(ot, oi, i)"
    have "index_account a (by_type, scopes) = (dput (db_type_key (pr_db_type a)) (entries by_type (db_type_key (pr_db_type a)) @ [a]) by_type,
        dput (db_type_key (pr_db_type a)) (List.insert ?s (entries scopes (db_type_key (pr_db_type a)))) scopes)"
      using s' by (simp add: index_account_def Let_def entries_def)
    moreover have "counted ty a \<longleftrightarrow> ty = db_type_key (pr_db_type a)" using s' by (auto simp: counted_def)
    ultimately show ?thesis using snoc idx s' unfolding step by (auto simp: entries_dput)
  next
    case False
    then have "index_account a (by_type, scopes) = (by_type, scopes)" "\<not> counted ty a"
      by (auto simp: index_account_def Let_def counted_def split: option.splits)
    with snoc idx show ?thesis unfolding step by auto
  qed
qed

section \<open>The accounts a rule matches\<close>

definition matched_ids :: "pv \<Rightarrow> string \<Rightarrow> string \<Rightarrow> int \<Rightarrow> permission_row list \<Rightarrow> nat set" where
  "matched_ids expression db_type owner_type owner_id accounts =
    {pr_id a | a. a \<in> set accounts \<and> pr_id a \<noteq> 0 \<and> owned_by db_type owner_type owner_id a \<and> account_matches expression db_type a}"

lemma match_fold:
  assumes "\<forall>a \<in> set accounts. counted ty a"
  shows "(case fold (match_account expression ty c) accounts (S, C) of (S', C') \<Rightarrow>
      (\<forall>ot oi i. ((ot, oi), i) \<in> set S' \<longleftrightarrow> ((ot, oi), i) \<in> set S \<or> i \<in> matched_ids expression ty ot oi accounts)
      \<and> (\<forall>c' ty' ot oi i. ((c', ty', ot, oi), i) \<in> set C'
           \<longleftrightarrow> ((c', ty', ot, oi), i) \<in> set C \<or> c' = c \<and> ty' = ty \<and> i \<in> matched_ids expression ty ot oi accounts)
      \<and> (distinct S \<longrightarrow> distinct S') \<and> (distinct C \<longrightarrow> distinct C'))"
  using assms
proof (induction accounts rule: rev_induct)
  case Nil
  show ?case by (simp add: matched_ids_def)
next
  case (snoc a accounts)
  obtain S' C' where run: "fold (match_account expression ty c) accounts (S, C) = (S', C')" by fastforce
  obtain ot oi inst where owner: "resolve_account_owner_scope a = Some (ot, oi, inst)" and ty: "ty \<noteq> []" "db_type_key (pr_db_type a) = ty"
    using snoc.prems by (fastforce simp: counted_def)
  have add: "matched_ids expression ty ot' oi' (accounts @ [a]) = matched_ids expression ty ot' oi' accounts
      \<union> (if ot' = ot \<and> oi' = oi \<and> pr_id a \<noteq> 0 \<and> account_matches expression ty a then {pr_id a} else {})" for ot' oi'
    using owner ty by (auto simp: matched_ids_def owned_by_def)
  have step: "match_account expression ty c a (S', C') = (if pr_id a = 0 \<or> \<not> account_matches expression ty a then (S', C')
      else (List.insert ((ot, oi), pr_id a) S', List.insert ((c, ty, ot, oi), pr_id a) C'))"
    by (simp add: match_account_def owner)
  from snoc run show ?case by (simp add: step add) (auto split: if_splits)
qed

text \<open>The accounts of an owner that a rule matches.\<close>

definition rule_hits :: "daily_env \<Rightarrow> permission_row list \<Rightarrow> class_rule \<Rightarrow> string \<Rightarrow> int \<Rightarrow> nat set" where
  "rule_hits env accounts rule owner_type owner_id = (case te_loads (de_task env) (cr_expression rule) of
     None \<Rightarrow> {}
   | Some expression \<Rightarrow> matched_ids expression (db_type_key (cr_db_type rule)) owner_type owner_id accounts)"

definition class_hits :: "daily_env \<Rightarrow> permission_row list \<Rightarrow> class_rule list \<Rightarrow> int \<Rightarrow> string \<Rightarrow> string \<Rightarrow> int \<Rightarrow> nat set" where
  "class_hits env accounts rules c db_type owner_type owner_id =
    (\<Union>rule \<in> {r \<in> set rules. cr_classification r = c \<and> db_type_key (cr_db_type r) = db_type}. rule_hits env accounts rule owner_type owner_id)"

definition rule_row :: "daily_env \<Rightarrow> permission_row list \<Rightarrow> date \<Rightarrow> class_rule \<Rightarrow> owner_scope \<Rightarrow> daily_rule_row" where
  "rule_row env accounts d rule s = (case s of (ot, oi, inst) \<Rightarrow>
     \<lparr>dr_stat = \<lparr>rs_date = d, rs_rule = cr_id rule, rs_classification = cr_classification rule, rs_db_type = db_type_key (cr_db_type rule),
        rs_owner_type = ot, rs_owner_id = oi, rs_count = int (card (rule_hits env accounts rule ot oi))\<rparr>,
      dr_instance = inst, dr_computed_at = te_now (de_task env), dr_created_at = te_now (de_task env), dr_updated_at = te_now (de_task env)\<rparr>)"

definition rule_rows :: "daily_env \<Rightarrow> permission_row list \<Rightarrow> date \<Rightarrow> class_rule \<Rightarrow> daily_rule_row list" where
  "rule_rows env accounts d rule = map (rule_row env accounts d rule)
     (scopes_of (snd (build_account_indexes accounts)) (db_type_key (cr_db_type rule)))"

lemma calculated:
  assumes "calculate_rule_records env rule (fst (build_account_indexes accounts)) (snd (build_account_indexes accounts)) byc d = Inr (recs, byc', m, det)"
  shows "recs = rule_rows env accounts d rule
    \<and> (\<forall>c ty ot oi i. ((c, ty, ot, oi), i) \<in> set byc' \<longleftrightarrow> ((c, ty, ot, oi), i) \<in> set byc
         \<or> c = cr_classification rule \<and> ty = db_type_key (cr_db_type rule) \<and> i \<in> rule_hits env accounts rule ot oi)
    \<and> (distinct byc \<longrightarrow> distinct byc')"
proof -
  let ?ty = "db_type_key (cr_db_type rule)"
  obtain expression where e: "te_loads (de_task env) (cr_expression rule) = Some expression"
    using assms by (auto simp: calculate_rule_records_def Let_def split: option.splits)
  let ?candidates = "entries (fst (build_account_indexes accounts)) ?ty"
  obtain S' C' where run: "fold (match_account expression ?ty (cr_classification rule)) ?candidates ([], byc) = (S', C')" by fastforce
  have cand: "?candidates = filter (counted ?ty) accounts" using index_entries [of accounts ?ty] by simp
  have ids: "matched_ids expression ?ty ot oi (filter (counted ?ty) accounts) = rule_hits env accounts rule ot oi" for ot oi
    using e by (auto simp: matched_ids_def rule_hits_def counted_def owned_by_def)
  have m: "\<forall>ot oi i. ((ot, oi), i) \<in> set S' \<longleftrightarrow> i \<in> rule_hits env accounts rule ot oi" "distinct S'"
    "\<forall>c ty ot oi i. ((c, ty, ot, oi), i) \<in> set C' \<longleftrightarrow> ((c, ty, ot, oi), i) \<in> set byc
       \<or> c = cr_classification rule \<and> ty = ?ty \<and> i \<in> rule_hits env accounts rule ot oi" "distinct byc \<longrightarrow> distinct C'"
    using match_fold [where accounts = ?candidates and ty = ?ty and expression = expression and c = "cr_classification rule" and S = "[]" and C = byc] unfolding run unfolding cand by (auto simp: ids)
  have "recs = map (rule_record d (te_now (de_task env)) rule ?ty S') (scopes_of (snd (build_account_indexes accounts)) ?ty)" "byc' = C'"
    using assms e run by (auto simp: calculate_rule_records_def Let_def entries_def split: prod.splits)
  moreover have "rule_record d (te_now (de_task env)) rule ?ty S' s = rule_row env accounts d rule s" for s
    using m(1) by (simp add: rule_record_def rule_row_def matched_count_card [OF m(2)] split: prod.split)
  ultimately show ?thesis using m(3,4) by (simp add: rule_rows_def)
qed

lemma loop_done:
  assumes "daily_rules env run_id (fst (build_account_indexes accounts)) (snd (build_account_indexes accounts)) d rules recs byc db = (db', Daily_done recs' byc')"
  shows "recs' = recs @ concat (map (rule_rows env accounts d) rules)
    \<and> (\<forall>c ty ot oi i. ((c, ty, ot, oi), i) \<in> set byc' \<longleftrightarrow> ((c, ty, ot, oi), i) \<in> set byc \<or> i \<in> class_hits env accounts rules c ty ot oi)
    \<and> (distinct byc \<longrightarrow> distinct byc')"
  using assms
proof (induction rules arbitrary: recs byc db)
  case Nil
  then show ?case by (simp add: class_hits_def)
next
  case (Cons rule rules)
  obtain db2 recs1 byc1 m det where calc: "calculate_rule_records env rule (fst (build_account_indexes accounts)) (snd (build_account_indexes accounts)) byc d = Inr (recs1, byc1, m, det)"
    and rest: "daily_rules env run_id (fst (build_account_indexes accounts)) (snd (build_account_indexes accounts)) d rules (recs @ recs1) byc1 db2 = (db', Daily_done recs' byc')"
    using Cons.prems by (auto simp: Let_def split: sum.splits bool.splits prod.splits)
  from Cons.IH [OF rest] calculated [OF calc] show ?case by (auto simp: class_hits_def)
qed

section \<open>Upserts\<close>

lemma upsert_find:
  assumes "upsert_stats key merge recs rows = Inr rows'"
    and "\<And>e r. key (merge e r) = key r" "\<And>e r. val (merge e r) = val e"
  shows "map_option val (find (\<lambda>r. key r = k) rows') = (case find (\<lambda>r. key r = k) recs of Some e \<Rightarrow> Some (val e)
    | None \<Rightarrow> map_option val (find (\<lambda>r. key r = k) rows))"
proof -
  have one: "map_option val (find (\<lambda>r. key r = k) (upsert_row key merge e xs)) =
      (if key e = k then Some (val e) else map_option val (find (\<lambda>r. key r = k) xs))" for e xs
  proof (cases "key e \<in> set (map key xs)")
    case True
    have "map_option val (find (\<lambda>r. key r = k) (map (\<lambda>r. if key r = key e then merge e r else r) ys)) =
        (if key e = k \<and> k \<in> set (map key ys) then Some (val e) else map_option val (find (\<lambda>r. key r = k) ys))" for ys
      by (induction ys) (auto simp: assms(2,3))
    with True show ?thesis by (auto simp: upsert_row_def)
  next
    case False
    then have "key e = k \<Longrightarrow> find (\<lambda>r. key r = k) xs = None" by (auto simp: find_None_iff) (metis imageI)
    with False show ?thesis by (auto simp: upsert_row_def find_append split: option.splits)
  qed
  have "distinct (map key recs) \<Longrightarrow> map_option val (find (\<lambda>r. key r = k) (fold (upsert_row key merge) recs xs)) =
      (case find (\<lambda>r. key r = k) recs of Some e \<Rightarrow> Some (val e) | None \<Rightarrow> map_option val (find (\<lambda>r. key r = k) xs))" for xs
  proof (induction recs arbitrary: xs)
    case (Cons e recs)
    have "key e = k \<Longrightarrow> find (\<lambda>r. key r = k) recs = None" using Cons.prems by (auto simp: find_None_iff) (metis imageI)
    with Cons one show ?case by (auto split: option.split)
  qed simp
  with assms(1) show ?thesis by (auto simp: upsert_stats_def split: if_splits)
qed

lemma upsert_distinct: "upsert_stats key merge recs rows = Inr rows' \<Longrightarrow> distinct (map key recs)"
  by (auto simp: upsert_stats_def split: if_splits)

lemma find_unique: "distinct (map key recs) \<Longrightarrow> e \<in> set recs \<Longrightarrow> key e = k \<Longrightarrow> find (\<lambda>r. key r = k) recs = Some e"
  by (induction recs) (auto simp: image_iff)

lemma find_absent: "(\<And>e. e \<in> set recs \<Longrightarrow> key e \<noteq> k) \<Longrightarrow> find (\<lambda>r. key r = k) recs = None"
  by (simp add: find_None_iff)

section \<open>The records of a run\<close>

lemma set_scopes: "s \<in> set (scopes_of (snd (build_account_indexes accounts)) ty) \<longleftrightarrow> (\<exists>a \<in> set accounts. counted ty a \<and> resolve_account_owner_scope a = Some s)"
  using index_entries [of accounts ty] by (auto simp: scopes_of_def entries_def)

lemma owned_scopes: "(\<exists>a \<in> set accounts. owned_by ty ot oi a)
    \<longleftrightarrow> (\<exists>i. (ot, oi, i) \<in> set (scopes_of (snd (build_account_indexes accounts)) ty))"
proof
  assume "\<exists>a \<in> set accounts. owned_by ty ot oi a"
  then obtain a i where "a \<in> set accounts" "counted ty a" "resolve_account_owner_scope a = Some (ot, oi, i)"
    by (auto simp: owned_by_def counted_def)
  then show "\<exists>i. (ot, oi, i) \<in> set (scopes_of (snd (build_account_indexes accounts)) ty)"
    unfolding set_scopes by blast
next
  assume "\<exists>i. (ot, oi, i) \<in> set (scopes_of (snd (build_account_indexes accounts)) ty)"
  then show "\<exists>a \<in> set accounts. owned_by ty ot oi a" by (auto simp: set_scopes counted_def owned_by_def)
qed

lemma class_types:
  "distinct (map fst (build_classification_db_types rules))
   \<and> (\<forall>c ty. (\<exists>tys. map_of (build_classification_db_types rules) c = Some tys \<and> ty \<in> set tys)
        \<longleftrightarrow> (\<exists>rule \<in> set rules. cr_classification rule = c \<and> db_type_key (cr_db_type rule) = ty \<and> ty \<noteq> []))"
proof (induction rules rule: rev_induct)
  case Nil
  show ?case by (simp add: build_classification_db_types_def)
next
  case (snoc rule rules)
  let ?types = "build_classification_db_types rules"
  have step: "build_classification_db_types (rules @ [rule]) = add_class_type rule ?types"
    by (simp add: build_classification_db_types_def)
  show ?case
  proof (cases "db_type_key (cr_db_type rule) = []")
    case True
    then have "add_class_type rule ?types = ?types" by (simp add: add_class_type_def)
    moreover have "(\<exists>r \<in> set (rules @ [rule]). cr_classification r = c \<and> db_type_key (cr_db_type r) = ty \<and> ty \<noteq> [])
        \<longleftrightarrow> (\<exists>r \<in> set rules. cr_classification r = c \<and> db_type_key (cr_db_type r) = ty \<and> ty \<noteq> [])" for c ty
      using True by auto
    ultimately show ?thesis using snoc unfolding step by presburger
  next
    case False
    let ?c = "cr_classification rule" and ?ty = "db_type_key (cr_db_type rule)"
    have new: "add_class_type rule ?types = AList.update ?c (List.insert ?ty (case map_of ?types ?c of None \<Rightarrow> [] | Some xs \<Rightarrow> xs)) ?types"
      using False by (simp add: add_class_type_def Let_def)
    have A: "(\<exists>tys. map_of (add_class_type rule ?types) c = Some tys \<and> ty \<in> set tys)
        \<longleftrightarrow> (\<exists>tys. map_of ?types c = Some tys \<and> ty \<in> set tys) \<or> c = ?c \<and> ty = ?ty" for c ty
      unfolding new update_conv' by (cases "map_of ?types ?c") auto
    have B: "(\<exists>r \<in> set (rules @ [rule]). cr_classification r = c \<and> db_type_key (cr_db_type r) = ty \<and> ty \<noteq> [])
        \<longleftrightarrow> (\<exists>r \<in> set rules. cr_classification r = c \<and> db_type_key (cr_db_type r) = ty \<and> ty \<noteq> []) \<or> c = ?c \<and> ty = ?ty" for c ty
      using False by auto
    show ?thesis unfolding step
    proof (intro conjI allI)
      show "distinct (map fst (add_class_type rule ?types))" unfolding new using snoc by (simp add: distinct_update)
      show "(\<exists>tys. map_of (add_class_type rule ?types) c = Some tys \<and> ty \<in> set tys)
          \<longleftrightarrow> (\<exists>r \<in> set (rules @ [rule]). cr_classification r = c \<and> db_type_key (cr_db_type r) = ty \<and> ty \<noteq> [])" for c ty
        unfolding A B conjunct2 [OF snoc, rule_format, of c ty] ..
    qed
  qed
qed

lemma set_class_records:
  "e \<in> set (build_classification_records (build_classification_db_types rules) (snd (build_account_indexes accounts)) byc d now)
   \<longleftrightarrow> (\<exists>rule \<in> set rules. \<exists>s \<in> set (scopes_of (snd (build_account_indexes accounts)) (db_type_key (cr_db_type rule))).
        e = class_record d now byc (cr_classification rule) (db_type_key (cr_db_type rule)) s)"
proof -
  let ?types = "build_classification_db_types rules" and ?scopes = "scopes_of (snd (build_account_indexes accounts))"
  have pairs: "(c, tys) \<in> set ?types \<longleftrightarrow> map_of ?types c = Some tys" for c tys
    using class_types [of rules] by (simp add: map_of_eq_Some_iff)
  have "e \<in> set (build_classification_records ?types (snd (build_account_indexes accounts)) byc d now)
      \<longleftrightarrow> (\<exists>c ty. (\<exists>tys. map_of ?types c = Some tys \<and> ty \<in> set tys) \<and> (\<exists>s \<in> set (?scopes ty). e = class_record d now byc c ty s))"
    by (auto simp: build_classification_records_def simp flip: pairs) blast+
  also have "\<dots> \<longleftrightarrow> (\<exists>rule \<in> set rules. \<exists>s \<in> set (?scopes (db_type_key (cr_db_type rule))).
        e = class_record d now byc (cr_classification rule) (db_type_key (cr_db_type rule)) s)"
  proof -
    have "s \<in> set (?scopes ty) \<Longrightarrow> ty \<noteq> []" for s ty by (auto simp: set_scopes counted_def)
    then show ?thesis unfolding conjunct2 [OF class_types [of rules], rule_format] by blast
  qed
  finally show ?thesis .
qed

section \<open>The counts of a table\<close>

definition rule_count :: "daily_rule_row list \<Rightarrow> date \<times> int \<times> string \<times> string \<times> int \<Rightarrow> int option" where
  "rule_count rows k = map_option (\<lambda>r. rs_count (dr_stat r)) (find (\<lambda>r. rule_key r = k) rows)"

definition class_count :: "daily_class_row list \<Rightarrow> date \<times> int \<times> string \<times> string \<times> int \<Rightarrow> int option" where
  "class_count rows k = map_option (\<lambda>r. cs_count (dc_stat r)) (find (\<lambda>r. class_key r = k) rows)"

lemma rule_counts_written:
  assumes "upsert_rule_match_stats now (concat (map (rule_rows env accounts d) rules)) rows = Inr rows'"
  shows "rule \<in> set rules \<Longrightarrow> rule_count rows' (d, cr_id rule, db_type_key (cr_db_type rule), ot, oi)
      = (if \<exists>a \<in> set accounts. owned_by (db_type_key (cr_db_type rule)) ot oi a then Some (int (card (rule_hits env accounts rule ot oi)))
         else rule_count rows (d, cr_id rule, db_type_key (cr_db_type rule), ot, oi))"
    and "fst k \<noteq> d \<Longrightarrow> rule_count rows' k = rule_count rows k"
proof -
  let ?recs = "concat (map (rule_rows env accounts d) rules)"
  note look = upsert_find [OF assms [unfolded upsert_rule_match_stats_def], where val = "\<lambda>r. rs_count (dr_stat r)"]
  have found: "rule_count rows' k = (case find (\<lambda>r. rule_key r = k) ?recs of Some e \<Rightarrow> Some (rs_count (dr_stat e)) | None \<Rightarrow> rule_count rows k)" for k
    unfolding rule_count_def by (rule look) (simp_all add: rule_key_def Let_def)
  have uniq: "distinct (map rule_key ?recs)" by (rule upsert_distinct [OF assms [unfolded upsert_rule_match_stats_def]])
  have key: "rule_key (rule_row env accounts d r s) = (d, cr_id r, db_type_key (cr_db_type r), fst s, fst (snd s))" for r s
    by (simp add: rule_key_def rule_row_def Let_def split: prod.split)
  show "fst k \<noteq> d \<Longrightarrow> rule_count rows' k = rule_count rows k"
  proof -
    assume "fst k \<noteq> d"
    then have "find (\<lambda>r. rule_key r = k) ?recs = None" by (intro find_absent) (auto simp: rule_rows_def key)
    then show ?thesis by (simp add: found)
  qed
  assume rule: "rule \<in> set rules"
  let ?ty = "db_type_key (cr_db_type rule)"
  show "rule_count rows' (d, cr_id rule, ?ty, ot, oi)
      = (if \<exists>a \<in> set accounts. owned_by ?ty ot oi a then Some (int (card (rule_hits env accounts rule ot oi)))
         else rule_count rows (d, cr_id rule, ?ty, ot, oi))"
  proof (cases "\<exists>a \<in> set accounts. owned_by ?ty ot oi a")
    case True
    then obtain i where "(ot, oi, i) \<in> set (scopes_of (snd (build_account_indexes accounts)) ?ty)" by (auto simp: owned_scopes)
    then have "rule_row env accounts d rule (ot, oi, i) \<in> set ?recs" using rule by (auto simp: rule_rows_def)
    from find_unique [OF uniq this, of "(d, cr_id rule, ?ty, ot, oi)"]
    have "find (\<lambda>r. rule_key r = (d, cr_id rule, ?ty, ot, oi)) ?recs = Some (rule_row env accounts d rule (ot, oi, i))"
      by (simp add: key)
    then show ?thesis using True by (simp add: found rule_row_def)
  next
    case False
    then have "(ot, oi, i) \<notin> set (scopes_of (snd (build_account_indexes accounts)) ?ty)" for i by (simp add: owned_scopes)
    then have "find (\<lambda>r. rule_key r = (d, cr_id rule, ?ty, ot, oi)) ?recs = None"
      by (intro find_absent) (fastforce simp: rule_rows_def key)
    with False show ?thesis by (simp add: found)
  qed
qed

lemma class_counts_written:
  assumes "upsert_classification_match_stats now (build_classification_records (build_classification_db_types rules)
      (snd (build_account_indexes accounts)) byc d now') rows = Inr rows'"
    and "\<forall>c ty ot oi i. ((c, ty, ot, oi), i) \<in> set byc \<longleftrightarrow> i \<in> class_hits env accounts rules c ty ot oi" "distinct byc"
  shows "rule \<in> set rules \<Longrightarrow> class_count rows' (d, cr_classification rule, db_type_key (cr_db_type rule), ot, oi)
      = (if \<exists>a \<in> set accounts. owned_by (db_type_key (cr_db_type rule)) ot oi a
         then Some (int (card (class_hits env accounts rules (cr_classification rule) (db_type_key (cr_db_type rule)) ot oi)))
         else class_count rows (d, cr_classification rule, db_type_key (cr_db_type rule), ot, oi))"
    and "fst k \<noteq> d \<Longrightarrow> class_count rows' k = class_count rows k"
proof -
  let ?recs = "build_classification_records (build_classification_db_types rules) (snd (build_account_indexes accounts)) byc d now'"
  note look = upsert_find [OF assms(1) [unfolded upsert_classification_match_stats_def], where val = "\<lambda>r. cs_count (dc_stat r)"]
  have found: "class_count rows' k = (case find (\<lambda>r. class_key r = k) ?recs of Some e \<Rightarrow> Some (cs_count (dc_stat e)) | None \<Rightarrow> class_count rows k)" for k
    unfolding class_count_def by (rule look) (simp_all add: class_key_def Let_def)
  have uniq: "distinct (map class_key ?recs)" by (rule upsert_distinct [OF assms(1) [unfolded upsert_classification_match_stats_def]])
  have key: "class_key (class_record d now' byc c ty s) = (d, c, ty, fst s, fst (snd s))" for c ty s
    by (simp add: class_key_def class_record_def Let_def split: prod.split)
  show "fst k \<noteq> d \<Longrightarrow> class_count rows' k = class_count rows k"
  proof -
    assume "fst k \<noteq> d"
    then have "find (\<lambda>r. class_key r = k) ?recs = None" by (intro find_absent) (auto simp: set_class_records key)
    then show ?thesis by (simp add: found)
  qed
  assume rule: "rule \<in> set rules"
  let ?c = "cr_classification rule" and ?ty = "db_type_key (cr_db_type rule)"
  let ?k = "(d, ?c, ?ty, ot, oi)"
  show "class_count rows' ?k = (if \<exists>a \<in> set accounts. owned_by ?ty ot oi a
      then Some (int (card (class_hits env accounts rules ?c ?ty ot oi))) else class_count rows ?k)"
  proof (cases "\<exists>a \<in> set accounts. owned_by ?ty ot oi a")
    case True
    then obtain i where i: "(ot, oi, i) \<in> set (scopes_of (snd (build_account_indexes accounts)) ?ty)" by (auto simp: owned_scopes)
    then have "class_record d now' byc ?c ?ty (ot, oi, i) \<in> set ?recs" using rule unfolding set_class_records by blast
    from find_unique [OF uniq this, of ?k]
    have "find (\<lambda>r. class_key r = ?k) ?recs = Some (class_record d now' byc ?c ?ty (ot, oi, i))" by (simp add: key)
    moreover have "matched_count (?c, ?ty, ot, oi) byc = card (class_hits env accounts rules ?c ?ty ot oi)"
      using assms(2) by (simp add: matched_count_card [OF assms(3)])
    ultimately show ?thesis using True by (simp add: found class_record_def)
  next
    case False
    then have "(ot, oi, i) \<notin> set (scopes_of (snd (build_account_indexes accounts)) ?ty)" for i by (simp add: owned_scopes)
    then have "find (\<lambda>r. class_key r = ?k) ?recs = None"
      by (intro find_absent) (fastforce simp: set_class_records key)
    with False show ?thesis by (simp add: found)
  qed
qed

section \<open>The task\<close>

lemma daily_messages: "MSG_CANCELLED \<noteq> MSG_DAILY_DONE"
  by code_simp

lemma loop_stopped:
  "daily_rules env rid by_type scopes d rules recs byc db = (db', Daily_stopped recs') \<Longrightarrow> run_status db' rid = Some CANCELLED"
proof (induction rules arbitrary: recs byc db)
  case (Cons rule rules)
  let ?db = "te_other (de_task env) (cr_id rule) db"
  consider (stop) "is_cancelled rid ?db = Inr True" "finalize_run rid (te_now (de_task env)) ?db = Inr db'"
    | (go) recs1 byc1 db1 where "daily_rules env rid by_type scopes d rules recs1 byc1 db1 = (db', Daily_stopped recs')"
    using Cons.prems by (auto simp: Let_def split: sum.splits bool.splits prod.splits)
  then show ?case
  proof cases
    case stop
    then show ?thesis
      by (auto simp: is_cancelled_def finalize_run_def run_status_def finalize_keeps_cancelled split: sum.splits)
  next
    case go
    then show ?thesis by (rule Cons.IH)
  qed
qed simp

text \<open>A run that reports success has evaluated every rule and written both tables; any other run leaves
  them as they were.\<close>

lemma daily_try_tables:
  assumes "daily_try env t manual sd rid st = (st', r)" "\<And>db. lawful db (de_late env db)"
  shows "(r = Inr (True, MSG_DAILY_DONE) \<longrightarrow> (\<exists>db recs byc.
      (case build_account_indexes (fetch_accounts t None None) of (by_type, scopes) \<Rightarrow>
        \<exists>db0. daily_rules env rid by_type scopes (case sd of None \<Rightarrow> de_today env | Some d \<Rightarrow> d) (fetch_active_rules t) [] [] db0 = (db, Daily_done recs byc)
        \<and> upsert_rule_match_stats (te_now (de_task env)) recs (ds_rules st) = Inr (ds_rules st')
        \<and> upsert_classification_match_stats (te_now (de_task env)) (build_classification_records (build_classification_db_types (fetch_active_rules t))
            scopes byc (case sd of None \<Rightarrow> de_today env | Some d \<Rightarrow> d) (te_now (de_task env))) (ds_classes st) = Inr (ds_classes st'))))
    \<and> (r \<noteq> Inr (True, MSG_DAILY_DONE) \<longrightarrow> ds_rules st' = ds_rules st \<and> ds_classes st' = ds_classes st)"
proof -
  let ?d = "case sd of None \<Rightarrow> de_today env | Some d \<Rightarrow> d" and ?rules = "fetch_active_rules t" and ?accounts = "fetch_accounts t None None"
  let ?now = "te_now (de_task env)"
  obtain by_type scopes where idx: "build_account_indexes ?accounts = (by_type, scopes)" by fastforce
  show ?thesis
  proof (cases "\<exists>db. is_cancelled rid (ds_runs st) = Inr False \<and> ?rules \<noteq> [] \<and> ?accounts \<noteq> []
      \<and> init_items rid (map (\<lambda>r. \<lparr>ii_type = ''rule'', ii_key = show_int (cr_id r), ii_name = Some (cr_name r), ii_instance = None\<rparr>) ?rules) (ds_runs st) = Inr db")
    case False
    then have "r \<noteq> Inr (True, MSG_DAILY_DONE) \<and> ds_rules st' = ds_rules st \<and> ds_classes st' = ds_classes st"
      using assms(1) daily_messages by (auto simp: daily_try_def Let_def split: sum.splits bool.splits if_splits)
    then show ?thesis by blast
  next
    case True
    then obtain db where db: "is_cancelled rid (ds_runs st) = Inr False" "?rules \<noteq> []" "?accounts \<noteq> []"
      "init_items rid (map (\<lambda>r. \<lparr>ii_type = ''rule'', ii_key = show_int (cr_id r), ii_name = Some (cr_name r), ii_instance = None\<rparr>) ?rules) (ds_runs st) = Inr db"
      by blast
    obtain st2 stats where stats: "calculate_rule_statistics env rid ?rules ?accounts ?d (st\<lparr>ds_runs := db\<rparr>) = (st2, stats)" by fastforce
    then have st2: "ds_rules st2 = ds_rules st" "ds_classes st2 = ds_classes st"
      by (auto simp: calculate_rule_statistics_def Let_def split: prod.splits daily_end.splits sum.splits)
    show ?thesis
    proof (cases "r = Inr (True, MSG_DAILY_DONE)")
      case False
      then have "ds_rules st' = ds_rules st \<and> ds_classes st' = ds_classes st"
        using assms(1) db stats st2 by (auto simp: daily_try_def Let_def split: sum.splits bool.splits)
      with False show ?thesis by blast
    next
      case True
      then obtain pending n m db' where fin: "stats = Inr (pending, n, m)" "is_cancelled rid (de_late env (ds_runs st2)) = Inr False"
        "st' = pending\<lparr>ds_runs := db'\<rparr>"
        using assms(1) db stats daily_messages by (auto simp: daily_try_def Let_def split: sum.splits bool.splits)
      obtain db1 finish where loop: "daily_rules env rid by_type scopes ?d ?rules [] [] db = (db1, finish)" by fastforce
      have "finish \<noteq> Daily_stopped recs" for recs
      proof
        assume e: "finish = Daily_stopped recs"
        then have "ds_runs st2 = db1" using stats loop by (auto simp: calculate_rule_statistics_def idx Let_def)
        then have "run_status (ds_runs st2) rid = Some CANCELLED" using loop_stopped loop e by metis
        then have "run_status (de_late env (ds_runs st2)) rid = Some CANCELLED"
          using assms(2) [of "ds_runs st2"] by (auto simp: lawful_def run_moves_def)
        with fin(2) show False by (auto simp: is_cancelled_def run_status_def split: sum.splits)
      qed
      then obtain recs byc where e: "finish = Daily_done recs byc"
        using stats loop fin(1) by (cases finish) (auto simp: calculate_rule_statistics_def idx Let_def)
      then have "upsert_rule_match_stats ?now recs (ds_rules st) = Inr (ds_rules st')"
        "upsert_classification_match_stats ?now (build_classification_records (build_classification_db_types ?rules) scopes byc ?d ?now) (ds_classes st) = Inr (ds_classes st')"
        using stats loop fin by (auto simp: calculate_rule_statistics_def idx Let_def split: sum.splits)
      with True loop e show ?thesis unfolding idx prod.case by blast
    qed
  qed
qed

end
