(* ===== verification/Daily_Counts.thy ===== *)
theory Daily_Counts
  imports Daily_Result Classification_Result
begin

text \<open>The properties of the task that counts the matches of a day.\<close>

section \<open>Helpers\<close>

lemma daily_task_tables:
  assumes "calculate_account env t manual created_by run_id stat_date st = (st', result)" "\<And>db. lawful db (de_late env db)"
  shows "(result = Daily_returned True MSG_DAILY_DONE \<longrightarrow> (\<exists>byc.
      upsert_rule_match_stats (te_now (de_task env)) (concat (map (rule_rows env (fetch_accounts t None None)
          (case stat_date of None \<Rightarrow> de_today env | Some d \<Rightarrow> d)) (fetch_active_rules t))) (ds_rules st) = Inr (ds_rules st')
      \<and> upsert_classification_match_stats (te_now (de_task env)) (build_classification_records (build_classification_db_types (fetch_active_rules t))
          (snd (build_account_indexes (fetch_accounts t None None))) byc (case stat_date of None \<Rightarrow> de_today env | Some d \<Rightarrow> d)
          (te_now (de_task env))) (ds_classes st) = Inr (ds_classes st')
      \<and> (\<forall>c ty ot oi i. ((c, ty, ot, oi), i) \<in> set byc \<longleftrightarrow> i \<in> class_hits env (fetch_accounts t None None) (fetch_active_rules t) c ty ot oi)
      \<and> distinct byc))
    \<and> (result \<noteq> Daily_returned True MSG_DAILY_DONE \<longrightarrow> ds_rules st' = ds_rules st \<and> ds_classes st' = ds_classes st)"
proof (cases "resolve_or_start_run (te_model (de_task env)) run_id (te_fresh (de_task env)) ''calculate_account''
    (utf8 [0xE7, 0xBB, 0x9F, 0xE8, 0xAE, 0xA1, 0xE8, 0xB4, 0xA6, 0xE6, 0x88, 0xB7, 0xE5, 0x88, 0x86, 0xE7, 0xB1, 0xBB]) ''classification''
    (if manual then ''manual'' else ''scheduled'') created_by None (Some ''/accounts/classifications'') (te_now (de_task env)) (ds_runs st)")
  case (Inl e)
  then show ?thesis using assms(1) by (auto simp: calculate_account_def)
next
  case (Inr started)
  obtain rid db where started: "started = (rid, db)" by fastforce
  obtain st1 r where attempt: "daily_try env t manual stat_date rid (st\<lparr>ds_runs := db\<rparr>) = (st1, r)" by fastforce
  have r: "result = Daily_returned True MSG_DAILY_DONE \<longleftrightarrow> r = Inr (True, MSG_DAILY_DONE)"
    and same: "ds_rules st' = ds_rules st1" "ds_classes st' = ds_classes st1"
    using assms(1) Inr started attempt by (auto simp: calculate_account_def split: sum.splits prod.splits)
  from daily_try_tables [OF attempt assms(2)] show ?thesis
  proof (elim conjE, cases "r = Inr (True, MSG_DAILY_DONE)", goal_cases)
    case 1
    then obtain db1 recs byc db0 where loop: "daily_rules env rid (fst (build_account_indexes (fetch_accounts t None None)))
        (snd (build_account_indexes (fetch_accounts t None None))) (case stat_date of None \<Rightarrow> de_today env | Some d \<Rightarrow> d)
        (fetch_active_rules t) [] [] db0 = (db1, Daily_done recs byc)"
      and up: "upsert_rule_match_stats (te_now (de_task env)) recs (ds_rules st) = Inr (ds_rules st1)"
        "upsert_classification_match_stats (te_now (de_task env)) (build_classification_records (build_classification_db_types (fetch_active_rules t))
          (snd (build_account_indexes (fetch_accounts t None None))) byc (case stat_date of None \<Rightarrow> de_today env | Some d \<Rightarrow> d)
          (te_now (de_task env))) (ds_classes st) = Inr (ds_classes st1)"
      by (auto simp: case_prod_unfold)
    from loop_done [OF loop] up 1 r same show ?thesis by auto
  next
    case 2
    then show ?thesis using r same by auto
  qed
qed

lemma daily_written:
  assumes "calculate_account env t manual created_by run_id stat_date st = (st', result)" "\<And>db. lawful db (de_late env db)"
    and "d = (case stat_date of None \<Rightarrow> de_today env | Some d \<Rightarrow> d)"
    and "accounts = fetch_accounts t None None" "rules = fetch_active_rules t"
  shows "if result = Daily_returned True MSG_DAILY_DONE then
      (\<forall>rule \<in> set rules. \<forall>ty ot oi. ty = db_type_key (cr_db_type rule) \<longrightarrow>
        rule_count (ds_rules st') (d, cr_id rule, ty, ot, oi) = (if \<exists>a \<in> set accounts. owned_by ty ot oi a
          then Some (int (card (rule_hits env accounts rule ot oi))) else rule_count (ds_rules st) (d, cr_id rule, ty, ot, oi))
        \<and> class_count (ds_classes st') (d, cr_classification rule, ty, ot, oi) = (if \<exists>a \<in> set accounts. owned_by ty ot oi a
          then Some (int (card (class_hits env accounts rules (cr_classification rule) ty ot oi)))
          else class_count (ds_classes st) (d, cr_classification rule, ty, ot, oi)))
      \<and> (\<forall>k. fst k \<noteq> d \<longrightarrow> rule_count (ds_rules st') k = rule_count (ds_rules st) k
        \<and> class_count (ds_classes st') k = class_count (ds_classes st) k)
    else ds_rules st' = ds_rules st \<and> ds_classes st' = ds_classes st"
proof (cases "result = Daily_returned True MSG_DAILY_DONE")
  case True
  with daily_task_tables [OF assms(1,2)] obtain byc where
    up: "upsert_rule_match_stats (te_now (de_task env)) (concat (map (rule_rows env accounts d) rules)) (ds_rules st) = Inr (ds_rules st')"
      "upsert_classification_match_stats (te_now (de_task env)) (build_classification_records (build_classification_db_types rules)
        (snd (build_account_indexes accounts)) byc d (te_now (de_task env))) (ds_classes st) = Inr (ds_classes st')"
    and byc: "\<forall>c ty ot oi i. ((c, ty, ot, oi), i) \<in> set byc \<longleftrightarrow> i \<in> class_hits env accounts rules c ty ot oi" "distinct byc"
    unfolding assms(3-5) by auto
  show ?thesis
    using True rule_counts_written [OF up(1)] class_counts_written [OF up(2) byc] by simp
next
  case False
  then show ?thesis using daily_task_tables [OF assms(1,2)] by simp
qed

section \<open>The properties\<close>

text \<open>C27: When the task that counts the matches of a day reports success, the table of the rules holds
  for each active rule and each owner of accounts of its database type the number of accounts it
  matches, and the table of the classes the number of accounts that an active rule of the class and
  database type matches; the counts of owners without accounts and of other days are those of before.
  When it does not, whatever other sessions did to the run, both tables are as before.\<close>

theorem daily_counts_exact:
  assumes "calculate_account env t manual created_by run_id stat_date st = (st', result)" "\<And>db. lawful db (de_late env db)"
    and "d = (case stat_date of None \<Rightarrow> de_today env | Some d \<Rightarrow> d)"
    and "accounts = fetch_accounts t None None" "rules = fetch_active_rules t"
  shows "if result = Daily_returned True MSG_DAILY_DONE then
      (\<forall>rule \<in> set rules. \<forall>ty ot oi. ty = db_type_key (cr_db_type rule) \<longrightarrow>
        rule_count (ds_rules st') (d, cr_id rule, ty, ot, oi) = (if \<exists>a \<in> set accounts. owned_by ty ot oi a
          then Some (int (card (rule_hits env accounts rule ot oi))) else rule_count (ds_rules st) (d, cr_id rule, ty, ot, oi))
        \<and> class_count (ds_classes st') (d, cr_classification rule, ty, ot, oi) = (if \<exists>a \<in> set accounts. owned_by ty ot oi a
          then Some (int (card (class_hits env accounts rules (cr_classification rule) ty ot oi)))
          else class_count (ds_classes st) (d, cr_classification rule, ty, ot, oi)))
      \<and> (\<forall>k. fst k \<noteq> d \<longrightarrow> rule_count (ds_rules st') k = rule_count (ds_rules st) k
        \<and> class_count (ds_classes st') k = class_count (ds_classes st) k)
    else ds_rules st' = ds_rules st \<and> ds_classes st' = ds_classes st"
  by (rule daily_written [OF assms])

text \<open>C29: After a successful run, for every active rule and every owner of accounts of its database type,
  the count of the rule is at most that of its class, and the count of the class is at most the
  number of the accounts of the owner and at most the sum of the counts of the rules of the class.\<close>

theorem daily_counts_bounds:
  assumes "calculate_account env t manual created_by run_id stat_date st = (st', Daily_returned True MSG_DAILY_DONE)"
    and "\<And>db. lawful db (de_late env db)"
    and "d = (case stat_date of None \<Rightarrow> de_today env | Some d \<Rightarrow> d)"
    and "rule \<in> set (fetch_active_rules t)" "ty = db_type_key (cr_db_type rule)"
    and "a \<in> set (fetch_accounts t None None)" "owned_by ty ot oi a"
  shows "\<exists>n m. rule_count (ds_rules st') (d, cr_id rule, ty, ot, oi) = Some n
    \<and> class_count (ds_classes st') (d, cr_classification rule, ty, ot, oi) = Some m
    \<and> 0 \<le> n \<and> n \<le> m \<and> m \<le> int (card {b \<in> set (fetch_accounts t None None). owned_by ty ot oi b})
    \<and> m \<le> (\<Sum>r\<leftarrow>filter (\<lambda>r. cr_classification r = cr_classification rule \<and> db_type_key (cr_db_type r) = ty) (fetch_active_rules t).
          the (rule_count (ds_rules st') (d, cr_id r, ty, ot, oi)))"
proof -
  let ?d = d and ?accounts = "fetch_accounts t None None" and ?rules = "fetch_active_rules t"
  let ?c = "cr_classification rule"
  let ?M = "\<lambda>r. rule_hits env ?accounts r ot oi" and ?same = "\<lambda>r. cr_classification r = ?c \<and> db_type_key (cr_db_type r) = ty"
  let ?all = "class_hits env ?accounts ?rules ?c ty ot oi"
  note exact = daily_written [OF assms(1,2,3) refl refl, simplified, THEN conjunct1, rule_format]
  have count: "r \<in> set ?rules \<Longrightarrow> ?same r \<Longrightarrow> rule_count (ds_rules st') (?d, cr_id r, ty, ot, oi) = Some (int (card (?M r)))" for r
    using exact [of r ot oi] assms(6,7) by auto
  have m: "class_count (ds_classes st') (?d, ?c, ty, ot, oi) = Some (int (card ?all))"
    using exact [of rule ot oi] assms(4-7) by auto
  have sub: "?M rule \<subseteq> ?all" using assms(4,5) by (auto simp: class_hits_def)
  have owned: "?all \<subseteq> pr_id ` {b \<in> set ?accounts. owned_by ty ot oi b}"
    by (auto simp: class_hits_def rule_hits_def matched_ids_def split: option.splits)
  then have fin: "finite ?all" by (rule finite_subset) simp
  have "card ?all \<le> card (pr_id ` {b \<in> set ?accounts. owned_by ty ot oi b})" using owned by (intro card_mono) simp_all
  also have "\<dots> \<le> card {b \<in> set ?accounts. owned_by ty ot oi b}" by (intro card_image_le) simp
  finally have upper: "card ?all \<le> card {b \<in> set ?accounts. owned_by ty ot oi b}" .
  have "card (\<Union>r \<in> set rs. ?M r) \<le> (\<Sum>r\<leftarrow>rs. card (?M r))" for rs
  proof (induction rs)
    case (Cons r rs)
    have "card (?M r \<union> (\<Union>r \<in> set rs. ?M r)) \<le> card (?M r) + card (\<Union>r \<in> set rs. ?M r)" by (rule card_Un_le)
    with Cons show ?case by simp
  qed simp
  note union = this
  have int_sum: "int (\<Sum>r\<leftarrow>rs. card (?M r)) = (\<Sum>r\<leftarrow>rs. int (card (?M r)))" for rs by (induction rs) simp_all
  from union [of "filter ?same ?rules"] have "card ?all \<le> (\<Sum>r\<leftarrow>filter ?same ?rules. card (?M r))"
    by (simp add: class_hits_def)
  then have "int (card ?all) \<le> int (\<Sum>r\<leftarrow>filter ?same ?rules. card (?M r))" by simp
  also have "\<dots> = (\<Sum>r\<leftarrow>filter ?same ?rules. int (card (?M r)))" by (rule int_sum)
  also have "\<dots> = (\<Sum>r\<leftarrow>filter ?same ?rules. the (rule_count (ds_rules st') (?d, cr_id r, ty, ot, oi)))"
    by (intro arg_cong [of _ _ sum_list] map_cong refl) (simp add: count)
  finally have "int (card ?all) \<le> (\<Sum>r\<leftarrow>filter ?same ?rules. the (rule_count (ds_rules st') (?d, cr_id r, ty, ot, oi)))" .
  with upper m count [OF assms(4)] assms(5) card_mono [OF fin sub] show ?thesis by auto
qed

text \<open>When two accounts of one owner and database type, for which there is an active rule, belong to
  different instances, the task never succeeds and no count is ever written.\<close>

theorem split_owner_stops_statistics:
  assumes "calculate_account env t manual created_by run_id stat_date st = (st', result)" "\<And>db. lawful db (de_late env db)"
    and "a \<in> set (fetch_accounts t None None)" "b \<in> set (fetch_accounts t None None)" "owned_by ty ot oi a" "owned_by ty ot oi b"
    and "pr_instance a \<noteq> pr_instance b" "rule \<in> set (fetch_active_rules t)" "db_type_key (cr_db_type rule) = ty"
  shows "result \<noteq> Daily_returned True MSG_DAILY_DONE \<and> ds_rules st' = ds_rules st \<and> ds_classes st' = ds_classes st"
proof -
  let ?d = "case stat_date of None \<Rightarrow> de_today env | Some d \<Rightarrow> d" and ?accounts = "fetch_accounts t None None"
  have scope: "(ot, oi, pr_instance x) \<in> set (scopes_of (snd (build_account_indexes ?accounts)) ty)"
    if "x \<in> set ?accounts" "owned_by ty ot oi x" for x
  proof -
    have "resolve_account_owner_scope x = Some (ot, oi, pr_instance x)" "counted ty x"
      using that(2) by (auto simp: owned_by_def counted_def resolve_account_owner_scope_def Let_def split: if_splits)
    with that(1) show ?thesis unfolding set_scopes by blast
  qed
  let ?row = "\<lambda>x. rule_row env ?accounts ?d rule (ot, oi, pr_instance x)"
  have rows: "?row x \<in> set (concat (map (rule_rows env ?accounts ?d) (fetch_active_rules t)))" if "x \<in> {a, b}" for x
    using that scope assms(3-6,8,9) by (auto simp: rule_rows_def)
  have "\<not> distinct (map rule_key (concat (map (rule_rows env ?accounts ?d) (fetch_active_rules t))))"
  proof
    assume "distinct (map rule_key (concat (map (rule_rows env ?accounts ?d) (fetch_active_rules t))))"
    then have inj: "inj_on rule_key (set (concat (map (rule_rows env ?accounts ?d) (fetch_active_rules t))))"
      unfolding distinct_map by blast
    have "rule_key (?row a) = rule_key (?row b)" by (simp add: rule_key_def rule_row_def)
    then have "?row a = ?row b" using inj_onD [OF inj] rows by blast
    then show False using assms(7) by (simp add: rule_row_def)
  qed
  then have "result \<noteq> Daily_returned True MSG_DAILY_DONE"
    using daily_task_tables [OF assms(1,2)] upsert_distinct unfolding upsert_rule_match_stats_def by blast
  with daily_task_tables [OF assms(1,2)] show ?thesis by blast
qed

section \<open>Samples\<close>

text \<open>One rule and one account; two accounts of one owner under two instances.\<close>

definition daily_sample_env :: daily_env where
  "daily_sample_env = \<lparr>de_task = class_env\<lparr>te_model := \<lambda>_ v. Some (''calculate_account'', v)\<rparr>, de_today = Date 2024 5 6, de_late = \<lambda>db. db, de_iso = \<lambda>_. ''now'', de_text = \<lambda>_. ''boom''\<rparr>"

definition daily_store_empty :: daily_store where
  "daily_store_empty = \<lparr>ds_runs = \<lparr>rdb_runs = [], rdb_items = []\<rparr>, ds_rules = [], ds_classes = []\<rparr>"

definition split_sample :: class_tables where
  "split_sample = (class_sample [class_rule_of 1 7 ''su''])
     \<lparr>ct_permissions := [class_account\<lparr>pr_owner_type := ''ag'', pr_owner_id := Some 9\<rparr>,
        class_account\<lparr>pr_id := 12, pr_instance := 2, pr_owner_type := ''ag'', pr_owner_id := Some 9\<rparr>],
      ct_instances := [\<lparr>ci_id = 1, ci_active = True, ci_deleted_at = None\<rparr>, \<lparr>ci_id = 2, ci_active = True, ci_deleted_at = None\<rparr>]\<rparr>"

lemma daily_sample_run:
  "snd (calculate_account daily_sample_env (class_sample [class_rule_of 1 7 ''su'']) True None None None daily_store_empty)
     = Daily_returned True MSG_DAILY_DONE"
  by code_simp

lemma daily_sample_late: "lawful db (de_late daily_sample_env db)"
  by (simp add: daily_sample_env_def)

lemma daily_sample_owned: "class_account \<in> set (fetch_accounts (class_sample [class_rule_of 1 7 ''su'']) None None)"
  "owned_by ''mysql'' ''instance'' 1 class_account"
  "class_rule_of 1 7 ''su'' \<in> set (fetch_active_rules (class_sample [class_rule_of 1 7 ''su'']))"
  "db_type_key (cr_db_type (class_rule_of 1 7 ''su'')) = ''mysql''"
proof -
  have "fetch_active_rules (class_sample [class_rule_of 1 7 ''su'']) = [class_rule_of 1 7 ''su'']" by code_simp
  then show "class_rule_of 1 7 ''su'' \<in> set (fetch_active_rules (class_sample [class_rule_of 1 7 ''su'']))" by simp
  have "db_type_key (pr_db_type class_account) = ''mysql''" "resolve_account_owner_scope class_account = Some (''instance'', 1, 1)" by code_simp+
  then show "owned_by ''mysql'' ''instance'' 1 class_account" by (simp add: owned_by_def)
  show "db_type_key (cr_db_type (class_rule_of 1 7 ''su'')) = ''mysql''" by code_simp
qed (rule class_sample_fetched)

lemma daily_counts_exact_witness:
  "\<exists>st' n. calculate_account daily_sample_env (class_sample [class_rule_of 1 7 ''su'']) True None None None daily_store_empty
      = (st', Daily_returned True MSG_DAILY_DONE)
     \<and> rule_count (ds_rules st') (Date 2024 5 6, 1, ''mysql'', ''instance'', 1) = Some n"
proof -
  obtain st' where run: "calculate_account daily_sample_env (class_sample [class_rule_of 1 7 ''su'']) True None None None daily_store_empty
      = (st', Daily_returned True MSG_DAILY_DONE)"
    using daily_sample_run by (metis prod.collapse)
  have id: "cr_id (class_rule_of 1 7 ''su'') = 1" "de_today daily_sample_env = Date 2024 5 6"
    by (simp_all add: class_rule_of_def daily_sample_env_def)
  have "\<exists>n. rule_count (ds_rules st') (Date 2024 5 6, 1, ''mysql'', ''instance'', 1) = Some n"
    using daily_counts_exact [OF run daily_sample_late refl refl refl, unfolded if_P [OF refl], THEN conjunct1, THEN bspec, OF daily_sample_owned(3)]
      daily_sample_owned id by auto
  with run show ?thesis by blast
qed

lemma daily_counts_bounds_witness:
  "\<exists>st' n m. calculate_account daily_sample_env (class_sample [class_rule_of 1 7 ''su'']) True None None None daily_store_empty
      = (st', Daily_returned True MSG_DAILY_DONE)
     \<and> rule_count (ds_rules st') (Date 2024 5 6, 1, ''mysql'', ''instance'', 1) = Some n
     \<and> class_count (ds_classes st') (Date 2024 5 6, 7, ''mysql'', ''instance'', 1) = Some m \<and> 0 \<le> n \<and> n \<le> m"
proof -
  obtain st' where run: "calculate_account daily_sample_env (class_sample [class_rule_of 1 7 ''su'']) True None None None daily_store_empty
      = (st', Daily_returned True MSG_DAILY_DONE)"
    using daily_sample_run by (metis prod.collapse)
  have id: "cr_id (class_rule_of 1 7 ''su'') = 1" "cr_classification (class_rule_of 1 7 ''su'') = 7" "de_today daily_sample_env = Date 2024 5 6"
    by (simp_all add: class_rule_of_def daily_sample_env_def)
  from daily_counts_bounds [OF run daily_sample_late refl daily_sample_owned(3) daily_sample_owned(4) [symmetric] daily_sample_owned(1,2)] run id
  show ?thesis by auto
qed

lemma split_owner_stops_statistics_witness:
  "\<exists>st' result. calculate_account daily_sample_env split_sample True None None None daily_store_empty = (st', result)
     \<and> result \<noteq> Daily_returned True MSG_DAILY_DONE \<and> ds_rules st' = []"
proof -
  obtain st' result where run: "calculate_account daily_sample_env split_sample True None None None daily_store_empty = (st', result)" by fastforce
  let ?a = "class_account\<lparr>pr_owner_type := ''ag'', pr_owner_id := Some 9\<rparr>"
  let ?b = "class_account\<lparr>pr_id := 12, pr_instance := 2, pr_owner_type := ''ag'', pr_owner_id := Some 9\<rparr>"
  have "fetch_accounts split_sample None None = [?a, ?b]" "fetch_active_rules split_sample = [class_rule_of 1 7 ''su'']"
    "db_type_key (pr_db_type ?a) = ''mysql''" "db_type_key (pr_db_type ?b) = ''mysql''"
    "resolve_account_owner_scope ?a = Some (''ag'', 9, 1)" "resolve_account_owner_scope ?b = Some (''ag'', 9, 2)"
    "pr_instance ?a \<noteq> pr_instance ?b"
    by code_simp+
  then have "?a \<in> set (fetch_accounts split_sample None None)" "?b \<in> set (fetch_accounts split_sample None None)"
    "owned_by ''mysql'' ''ag'' 9 ?a" "owned_by ''mysql'' ''ag'' 9 ?b" "pr_instance ?a \<noteq> pr_instance ?b"
    "class_rule_of 1 7 ''su'' \<in> set (fetch_active_rules split_sample)"
    by (simp_all add: owned_by_def)
  from split_owner_stops_statistics [OF run daily_sample_late this daily_sample_owned(4)]
  have "result \<noteq> Daily_returned True MSG_DAILY_DONE \<and> ds_rules st' = []" by (simp add: daily_store_empty_def)
  with run show ?thesis by blast
qed

end
