(* ===== verification/Daily_Assignments.thy ===== *)
theory Daily_Assignments
  imports Daily_Counts
begin

text \<open>
  The two tasks over the same accounts and rules: what the daily statistics count is what the
  classification assigns, as long as the facts of every account name its database type.
\<close>

lemma dput_same: "map_of d k = Some v \<Longrightarrow> dput k v d = d"
  by (induction d) auto

text \<open>The facts that \<^verbatim>\<open>build_permission_facts\<close> stores carry the database type.\<close>

definition facts_name_type :: "permission_row \<Rightarrow> bool" where
  "facts_name_type p \<longleftrightarrow> (\<exists>facts. pr_facts p = PDict facts \<and> map_of facts ''db_type'' = Some (PStr (db_type_key (pr_db_type p))))"

lemma matches_agree:
  assumes "facts_name_type p" "te_loads (de_task denv) = te_loads env" "p \<in> set accounts" "pr_id p \<noteq> 0" "owned_by ty ot oi p"
    and "distinct (map pr_id accounts)"
  shows "pr_id p \<in> class_hits denv accounts rules c ty ot oi \<longleftrightarrow> (\<exists>r \<in> set rules. cr_classification r = c \<and> rule_matches env r p)"
proof -
  obtain facts where facts: "pr_facts p = PDict facts" "map_of facts ''db_type'' = Some (PStr ty)"
    using assms(1,5) by (auto simp: facts_name_type_def owned_by_def)
  have match: "account_matches e ty p \<longleftrightarrow> matched (evaluate facts e)" for e
    by (simp add: account_matches_def facts(1) dput_same [OF facts(2)])
  have self: "q \<in> set accounts \<Longrightarrow> pr_id q = pr_id p \<Longrightarrow> q = p" for q
    using assms(3,6) by (auto simp: distinct_map dest: inj_onD)
  have ty: "ty \<noteq> []" "db_type_key (pr_db_type p) = ty" using assms(5) by (auto simp: owned_by_def)
  have "pr_id p \<in> matched_ids e ty ot oi accounts \<longleftrightarrow> account_matches e ty p" for e
  proof
    assume "pr_id p \<in> matched_ids e ty ot oi accounts"
    then obtain q where "q \<in> set accounts" "pr_id q = pr_id p" "account_matches e ty q" by (auto simp: matched_ids_def)
    with self show "account_matches e ty p" by blast
  next
    assume "account_matches e ty p"
    with assms(3-5) show "pr_id p \<in> matched_ids e ty ot oi accounts" unfolding matched_ids_def by blast
  qed
  then have hit: "pr_id p \<in> rule_hits denv accounts r ot oi \<longleftrightarrow> rule_matches env r p" if "db_type_key (cr_db_type r) = ty" for r
    using that assms(2) ty by (simp add: rule_hits_def rule_matches_def match facts(1) split: option.split)
  have "rule_matches env r p \<Longrightarrow> db_type_key (cr_db_type r) = ty" for r
    using assms(5) by (auto simp: rule_matches_def owned_by_def)
  with hit show ?thesis by (auto simp: class_hits_def)
qed


text \<open>An account whose facts name its type.\<close>

definition named_account :: permission_row where
  "named_account = class_account\<lparr>pr_facts := PDict [(''db_type'', PStr ''mysql''), (''capabilities'', PList [PStr ''SUPERUSER''])]\<rparr>"

definition named_sample :: class_tables where
  "named_sample = (class_sample [class_rule_of 1 7 ''su''])\<lparr>ct_permissions := [named_account]\<rparr>"

lemma named_runs:
  "snd (auto_classify_accounts class_env named_sample None PNone None None class_store_empty) = Task_returned True MSG_DONE ''run''"
  "snd (calculate_account daily_sample_env named_sample True None None None daily_store_empty) = Daily_returned True MSG_DAILY_DONE"
  by code_simp+

lemma named_facts:
  "fetch_accounts named_sample None None = [named_account]" "fetch_active_rules named_sample = [class_rule_of 1 7 ''su'']"
  "db_type_key (pr_db_type named_account) = ''mysql''" "db_type_key (cr_db_type (class_rule_of 1 7 ''su'')) = ''mysql''"
  "resolve_account_owner_scope named_account = Some (''instance'', 1, 1)"
  by code_simp+


end
