(* ===== verification/Ad_Provider.thy ===== *)
theory Ad_Provider
  imports Paging Credentials Account_Scope Permission_Diff
begin

text \<open>
  The client of Active Directory: \<^verbatim>\<open>LdapProvider\<close> of
  \<^verbatim>\<open>app/services/ad_sync/ldap_provider.py\<close> over \<^verbatim>\<open>AdDomainConfig\<close>. It asks the domain
  controllers in turn for all users and groups, page by page.

  \<^verbatim>\<open>ae_connect\<close> binds to a controller: the text of what it raises, or how the connection answers
  its n-th search for a filter and a cookie. Cookies are byte strings. \<^verbatim>\<open>ae_container\<close> and
  \<^verbatim>\<open>ae_repr\<close> are \<^verbatim>\<open>str\<close> of a container and of a list of texts, \<^verbatim>\<open>ae_parse_dn\<close> is
  \<^verbatim>\<open>parse_dn\<close> of ldap3: attributes and components, or \<^verbatim>\<open>None\<close> for an invalid name.
\<close>

section \<open>Domains\<close>

record ad_domain =
  ad_id :: int
  ad_name :: string
  ad_netbios :: string
  ad_controllers :: pv
  ad_port :: int
  ad_use_ssl :: bool
  ad_verify_ssl :: "bool option"
  ad_base_dn :: string
  ad_credential :: int
  ad_enabled :: bool
  ad_description :: "string option"
  ad_sync_at :: "int option"
  ad_sync_status :: "string option"
  ad_sync_run :: "string option"
  ad_error :: "string option"

record ad_principal =
  ap_name :: string
  ap_kind :: string
  ap_disabled :: "bool option"
  ap_attributes :: pdict

record ldap_answer =
  la_ok :: bool
  la_entries :: "pdict list"
  la_result :: pv

type_synonym ldap_search = "nat \<Rightarrow> string \<Rightarrow> pv \<Rightarrow> string + ldap_answer"

record ad_env =
  ae_connect :: "ad_domain \<Rightarrow> credential \<Rightarrow> string \<Rightarrow> string + ldap_search"
  ae_container :: "pv \<Rightarrow> string"
  ae_repr :: "string list \<Rightarrow> string"
  ae_parse_dn :: "string \<Rightarrow> (string \<times> string) list option"

section \<open>Base DN\<close>

definition is_dc :: "string \<times> string \<Rightarrow> bool" where
  "is_dc part = (upper (fst part) = ''DC'')"

definition dn_error :: "(string \<times> string) list \<Rightarrow> string option" where
  "dn_error parts = (let dcs = filter is_dc parts;
       bad = filter (\<lambda>part. let dc_label = strip (snd part) in dc_label = [] \<or> CHR ''.'' \<in> set dc_label) dcs
     in case bad of
       part # _ \<Rightarrow> if strip (snd part) = [] then Some (''Base DN '' @ utf8 [0xE7, 0x9A, 0x84] @ '' DC '' @ utf8 [0xE7, 0x89, 0x87, 0xE6, 0xAE, 0xB5, 0xE4, 0xB8, 0x8D, 0xE8, 0x83, 0xBD, 0xE4, 0xB8, 0xBA, 0xE7, 0xA9, 0xBA])
         else Some (''Base DN '' @ utf8 [0xE7, 0x9A, 0x84] @ '' DC '' @ utf8 [0xE7, 0x89, 0x87, 0xE6, 0xAE, 0xB5, 0xE4, 0xB8, 0x8D, 0xE8, 0x83, 0xBD, 0xE5, 0x8C, 0x85, 0xE5, 0x90, 0xAB, 0xE7, 0x82, 0xB9, 0xE5, 0x8F, 0xB7] @ '','' @ utf8 [0xE8, 0xAF, 0xB7, 0xE6, 0x8B, 0x86, 0xE6, 0x88, 0x90] @ '' DC=whalefall,DC=local'')
     | [] \<Rightarrow> if dcs = [] then Some (''Base DN '' @ utf8 [0xE5, 0xBF, 0x85, 0xE9, 0xA1, 0xBB, 0xE5, 0x8C, 0x85, 0xE5, 0x90, 0xAB] @ '' DC '' @ utf8 [0xE7, 0x89, 0x87, 0xE6, 0xAE, 0xB5]) else None)"

definition validate_ad_base_dn :: "ad_env \<Rightarrow> string \<Rightarrow> string + string" where
  "validate_ad_base_dn env value =
    (let cleaned = strip value
     in if cleaned = [] then Inl (utf8 [0xE5, 0xAD, 0x97, 0xE6, 0xAE, 0xB5, 0xE4, 0xB8, 0x8D, 0xE8, 0x83, 0xBD, 0xE4, 0xB8, 0xBA, 0xE7, 0xA9, 0xBA])
        else (case ae_parse_dn env cleaned of
            None \<Rightarrow> Inl (''Base DN '' @ utf8 [0xE6, 0xA0, 0xBC, 0xE5, 0xBC, 0x8F, 0xE6, 0x97, 0xA0, 0xE6, 0x95, 0x88] @ '','' @ utf8 [0xE4, 0xBE, 0x8B, 0xE5, 0xA6, 0x82] @ '' DC=user,DC=whalefall,DC=local'')
          | Some parts \<Rightarrow> (case dn_error parts of Some e \<Rightarrow> Inl e | None \<Rightarrow> Inr cleaned)))"

section \<open>Entries\<close>

definition first_value :: "(pv \<Rightarrow> string) \<Rightarrow> pv \<Rightarrow> string" where
  "first_value container value =
    (let value = (case value of PList [] \<Rightarrow> PStr [] | PList (x # _) \<Rightarrow> x | _ \<Rightarrow> value)
     in strip (if truthy value then py_str container value else []))"

text \<open>\<^verbatim>\<open>uac & UF_ACCOUNTDISABLE\<close>, the second lowest bit.\<close>

definition disabled_from_uac :: "(pv \<Rightarrow> string) \<Rightarrow> pv \<Rightarrow> bool" where
  "disabled_from_uac container value =
    (let value = (case value of PList [] \<Rightarrow> PInt 0 | PList (x # _) \<Rightarrow> x | _ \<Rightarrow> value);
         uac = (case py_int (if truthy value then py_str container value else ''0'') of None \<Rightarrow> 0 | Some n \<Rightarrow> n)
     in uac div 2 mod 2 = 1)"

definition consume_entry :: "(pv \<Rightarrow> string) \<Rightarrow> string \<Rightarrow> pdict \<Rightarrow> nat \<times> ad_principal dict \<Rightarrow> nat \<times> ad_principal dict" where
  "consume_entry container object_kind data st = (case st of (count, target) \<Rightarrow>
     let raw_name = first_value container (dget data ''sAMAccountName'')
     in if raw_name = [] then st
        else (count + 1, dput (lower raw_name) \<lparr>ap_name = raw_name, ap_kind = object_kind,
          ap_disabled = (if object_kind = ''user'' then Some (disabled_from_uac container (dget data ''userAccountControl'')) else None),
          ap_attributes = filter (\<lambda>kv. fst kv \<noteq> ''userAccountControl'') data\<rparr> target))"

definition LDAP_PAGED_RESULT_CONTROL :: string where
  "LDAP_PAGED_RESULT_CONTROL = ''1.2.840.113556.1.4.319''"

definition sub_dict :: "pv \<Rightarrow> string \<Rightarrow> pv" where
  "sub_dict v key = (case v of PDict d \<Rightarrow> dget d key | _ \<Rightarrow> PNone)"

definition paged_cookie :: "pv \<Rightarrow> pv" where
  "paged_cookie answer = (let cookie = sub_dict (sub_dict (sub_dict (sub_dict answer ''controls'') LDAP_PAGED_RESULT_CONTROL) ''value'') ''cookie''
     in if truthy cookie then cookie else PNone)"

definition search_error_detail :: "(pv \<Rightarrow> string) \<Rightarrow> pv \<Rightarrow> string" where
  "search_error_detail container answer = (case answer of
     PDict d \<Rightarrow>
       let parts = concat (map (\<lambda>key. let value = strip (if truthy (dget d key) then py_str container (dget d key) else [])
               in if value = [] then [] else [key @ ''='' @ value]) [''description'', ''message'']) @
             (if truthy (dget d ''referrals'') then [''referrals='' @ py_str container (dget d ''referrals'')] else [])
       in if parts = [] then ''unknown'' else join '', '' parts
   | _ \<Rightarrow> ''unknown'')"

section \<open>The pages of a search\<close>

record ldap_loop =
  ll_requests :: nat
  ll_cookie :: pv
  ll_count :: nat
  ll_target :: "ad_principal dict"

text \<open>One turn of \<^verbatim>\<open>while True\<close>: the next state, or what the method raises, or the state at the return.\<close>

definition ldap_turn :: "(pv \<Rightarrow> string) \<Rightarrow> ldap_search \<Rightarrow> string \<Rightarrow> string \<Rightarrow> ldap_loop \<Rightarrow> ldap_loop + (string + ldap_loop)" where
  "ldap_turn container search search_filter object_kind st =
    (case search (ll_requests st) search_filter (ll_cookie st) of
       Inl e \<Rightarrow> Inr (Inl e)
     | Inr answer \<Rightarrow>
         if \<not> la_ok answer then Inr (Inl (''LDAP '' @ utf8 [0xE6, 0x9F, 0xA5, 0xE8, 0xAF, 0xA2, 0xE5, 0xA4, 0xB1, 0xE8, 0xB4, 0xA5] @ '': '' @ search_error_detail container (la_result answer)))
         else
           let (count, target) = fold (consume_entry container object_kind) (la_entries answer) (ll_count st, ll_target st);
               next_cookie = paged_cookie (la_result answer);
               st' = st\<lparr>ll_requests := ll_requests st + 1, ll_count := count, ll_target := target\<rparr>
           in if next_cookie = PNone then Inr (Inr st')
              else if py_eq next_cookie (ll_cookie st) then Inr (Inl (''LDAP '' @ utf8 [0xE6, 0x9F, 0xA5, 0xE8, 0xAF, 0xA2, 0xE5, 0xA4, 0xB1, 0xE8, 0xB4, 0xA5] @ '': paged cookie '' @ utf8 [0xE6, 0x9C, 0xAA, 0xE6, 0x8E, 0xA8, 0xE8, 0xBF, 0x9B]))
              else Inl (st'\<lparr>ll_cookie := next_cookie\<rparr>))"

partial_function (option) ldap_pages ::
  "(pv \<Rightarrow> string) \<Rightarrow> ldap_search \<Rightarrow> string \<Rightarrow> string \<Rightarrow> ldap_loop \<Rightarrow> (string + ldap_loop) option" where
  "ldap_pages container search search_filter object_kind st = (case ldap_turn container search search_filter object_kind st of
     Inl st' \<Rightarrow> ldap_pages container search search_filter object_kind st'
   | Inr r \<Rightarrow> Some r)"

declare ldap_pages.simps [code]

definition USER_FILTER :: string where "USER_FILTER = ''(&(objectClass=user)(objectCategory=person))''"
definition GROUP_FILTER :: string where "GROUP_FILTER = ''(objectClass=group)''"

text \<open>\<^verbatim>\<open>_search_principals\<close>: the count of the search; the principals so far and the number of
  requests on the connection go on.\<close>

definition search_principals ::
  "(pv \<Rightarrow> string) \<Rightarrow> ldap_search \<Rightarrow> string \<Rightarrow> string \<Rightarrow> nat \<Rightarrow> ad_principal dict \<Rightarrow> (string + (nat \<times> nat \<times> ad_principal dict)) option" where
  "search_principals container search search_filter object_kind requests target =
    (case ldap_pages container search search_filter object_kind \<lparr>ll_requests = requests, ll_cookie = PNone, ll_count = 0, ll_target = target\<rparr> of
       None \<Rightarrow> None
     | Some (Inl e) \<Rightarrow> Some (Inl e)
     | Some (Inr st) \<Rightarrow> Some (Inr (ll_count st, ll_requests st, ll_target st)))"

record ad_fetch =
  af_principals :: "ad_principal dict"
  af_users :: nat
  af_groups :: nat

definition fetch_with_connection :: "(pv \<Rightarrow> string) \<Rightarrow> ldap_search \<Rightarrow> (string + ad_fetch) option" where
  "fetch_with_connection container search =
    (case search_principals container search USER_FILTER ''user'' 0 [] of
       None \<Rightarrow> None
     | Some (Inl e) \<Rightarrow> Some (Inl e)
     | Some (Inr (users_total, requests, principals)) \<Rightarrow>
         (case search_principals container search GROUP_FILTER ''group'' requests principals of
            None \<Rightarrow> None
          | Some (Inl e) \<Rightarrow> Some (Inl e)
          | Some (Inr (groups_total, _, principals')) \<Rightarrow>
              Some (Inr \<lparr>af_principals = principals', af_users = users_total, af_groups = groups_total\<rparr>)))"

section \<open>The controllers\<close>

fun split_comma :: "string \<Rightarrow> string list" where
  "split_comma [] = [[]]"
| "split_comma (c # cs) = (if c = CHR '','' then [] # split_comma cs
     else (case split_comma cs of [] \<Rightarrow> [[c]] | p # ps \<Rightarrow> (c # p) # ps))"

definition normalize_controllers :: "(pv \<Rightarrow> string) \<Rightarrow> pv \<Rightarrow> string list" where
  "normalize_controllers container value = filter (\<lambda>s. s \<noteq> []) (map strip (case value of
     PList xs \<Rightarrow> map (py_str container) xs
   | PStr s \<Rightarrow> split_comma s
   | _ \<Rightarrow> []))"

text \<open>The first controller that delivers, or the text of the last exception.\<close>

fun try_controllers ::
  "ad_env \<Rightarrow> ad_domain \<Rightarrow> credential \<Rightarrow> string list \<Rightarrow> string option \<Rightarrow> (string option + ad_fetch) option" where
  "try_controllers env config credential [] last_error = Some (Inl last_error)"
| "try_controllers env config credential (controller # controllers) last_error =
    (case ae_connect env config credential controller of
       Inl e \<Rightarrow> try_controllers env config credential controllers (Some e)
     | Inr search \<Rightarrow> (case fetch_with_connection (ae_container env) search of
         None \<Rightarrow> None
       | Some (Inl e) \<Rightarrow> try_controllers env config credential controllers (Some e)
       | Some (Inr result) \<Rightarrow> Some (Inr result)))"

definition bool_text :: "bool \<Rightarrow> string" where
  "bool_text b = (if b then ''True'' else ''False'')"

definition unreachable_text :: "ad_env \<Rightarrow> ad_domain \<Rightarrow> string list \<Rightarrow> string option \<Rightarrow> string" where
  "unreachable_text env config controllers last_error =
    utf8 [0xE5, 0x9F, 0x9F, 0xE6, 0x8E, 0xA7, 0xE5, 0x85, 0xA8, 0xE9, 0x83, 0xA8, 0xE8, 0xBF, 0x9E, 0xE6, 0x8E, 0xA5, 0xE5, 0xA4, 0xB1, 0xE8, 0xB4, 0xA5] @ '': controllers='' @ ae_repr env controllers @ '', port='' @ show_int (ad_port config) @ '', use_ssl='' @ bool_text (ad_use_ssl config) @
    '', verify_ssl='' @ (case ad_verify_ssl config of None \<Rightarrow> ''None'' | Some b \<Rightarrow> bool_text b) @
    (case last_error of None \<Rightarrow> [] | Some e \<Rightarrow> '', error='' @ e)"

text \<open>\<^verbatim>\<open>fetch_principals_with_stats\<close>: what is raised is a validation error or a runtime error with this text.\<close>

definition fetch_principals :: "ad_env \<Rightarrow> credential list \<Rightarrow> ad_domain \<Rightarrow> (string + ad_fetch) option" where
  "fetch_principals env credentials config =
    (let controllers = normalize_controllers (ae_container env) (ad_controllers config)
     in if controllers = [] then Some (Inl (''AD '' @ utf8 [0xE5, 0x9F, 0x9F, 0xE9, 0x85, 0x8D, 0xE7, 0xBD, 0xAE, 0xE7, 0xBC, 0xBA, 0xE5, 0xB0, 0x91, 0xE5, 0x9F, 0x9F, 0xE6, 0x8E, 0xA7, 0xE5, 0x9C, 0xB0, 0xE5, 0x9D, 0x80]))
        else (case find (\<lambda>c. cd_id c = ad_credential config) credentials of
            None \<Rightarrow> Some (Inl (''AD '' @ utf8 [0xE5, 0x9F, 0x9F, 0xE9, 0x85, 0x8D, 0xE7, 0xBD, 0xAE, 0xE7, 0xBC, 0xBA, 0xE5, 0xB0, 0x91] @ '' LDAP '' @ utf8 [0xE5, 0x87, 0xAD, 0xE6, 0x8D, 0xAE]))
          | Some credential \<Rightarrow> (case validate_ad_base_dn env (ad_base_dn config) of
              Inl e \<Rightarrow> Some (Inl e)
            | Inr base_dn \<Rightarrow> (case try_controllers env (config\<lparr>ad_base_dn := base_dn\<rparr>) credential controllers None of
                None \<Rightarrow> None
              | Some (Inl last_error) \<Rightarrow> Some (Inl (unreachable_text env config controllers last_error))
              | Some (Inr result) \<Rightarrow> Some (Inr result)))))"

section \<open>The loop\<close>

interpretation ldap: paged_loop "ldap_turn container search search_filter object_kind" "ldap_pages container search search_filter object_kind"
  for container search search_filter object_kind
proof
  let ?turn = "ldap_turn container search search_filter object_kind" and ?loop = "ldap_pages container search search_filter object_kind"
  show "?loop s = (case ?turn s of Inl s' \<Rightarrow> ?loop s' | Inr r \<Rightarrow> Some r)" for s
    by (rule ldap_pages.simps)
  show "?loop s = Some r \<Longrightarrow> \<exists>n. run_turns ?turn n s = Inr r" for s r
  proof (rule ldap_pages.raw_induct [where P = "\<lambda>container search search_filter object_kind s r.
      \<exists>n. run_turns (ldap_turn container search search_filter object_kind) n s = Inr r"])
    fix loop container search search_filter object_kind s r
    assume IH: "\<And>container search search_filter object_kind s r. loop container search search_filter object_kind s = Some r
        \<Longrightarrow> \<exists>n. run_turns (ldap_turn container search search_filter object_kind) n s = Inr r"
      and r: "(case ldap_turn container search search_filter object_kind s of Inl s' \<Rightarrow> loop container search search_filter object_kind s' | Inr r \<Rightarrow> Some r) = Some r"
    show "\<exists>n. run_turns (ldap_turn container search search_filter object_kind) n s = Inr r"
    proof (cases "ldap_turn container search search_filter object_kind s")
      case (Inl s')
      with r IH obtain n where "run_turns (ldap_turn container search search_filter object_kind) n s' = Inr r" by fastforce
      with Inl show ?thesis by (intro exI [of _ "Suc n"]) simp
    next
      case (Inr r')
      with r show ?thesis by (intro exI [of _ 1]) simp
    qed
  qed
qed

end
