(* ===== verification/Ad_Match.thy ===== *)
theory Ad_Match
  imports Ad_Provider
begin

text \<open>
  \<^verbatim>\<open>AdAccountMatchService\<close> of \<^verbatim>\<open>app/services/ad_sync/ad_account_match_service.py\<close>: the SQL
  Server accounts of a domain are marked as orphaned when the domain has no principal of their name,
  and as disabled when it has a disabled user. A mark is the time it was first seen.
\<close>

section \<open>Accounts\<close>

text \<open>The columns of \<^verbatim>\<open>instance_accounts\<close> that matter here.\<close>

record ad_account =
  da_id :: nat
  da_username :: string
  da_db_type :: string
  da_owner_type :: string
  da_domain :: "int option"
  da_disabled_at :: "int option"
  da_orphaned_at :: "int option"

definition SUPPORTED_OWNER_TYPES :: "string list" where
  "SUPPORTED_OWNER_TYPES = [''instance'', ''sqlserver_ag'']"

definition BACKSLASH :: char where
  "BACKSLASH = CHR 0x5C"

definition has_domain_prefix :: "string \<Rightarrow> string \<Rightarrow> bool" where
  "has_domain_prefix netbios_name username =
    (let px = lower (strip netbios_name) @ [BACKSLASH] in take (length px) (lower username) = px)"

definition is_domain_account :: "ad_domain \<Rightarrow> ad_account \<Rightarrow> bool" where
  "is_domain_account domain account = (lower (da_db_type account) = ''sqlserver''
     \<and> has_domain_prefix (ad_netbios domain) (da_username account) \<and> da_owner_type account \<in> set SUPPORTED_OWNER_TYPES)"

definition extract_name_part :: "string \<Rightarrow> string \<Rightarrow> string" where
  "extract_name_part username netbios_name =
    (let px = netbios_name @ [BACKSLASH]
     in if take (length px) (lower username) = lower px then lower (strip (drop (length px) username))
        else if BACKSLASH \<in> set username then lower (strip (drop 1 (dropWhile (\<lambda>c. c \<noteq> BACKSLASH) username)))
        else lower (strip username))"

section \<open>Matching\<close>

record match_result =
  mr_total :: nat
  mr_normal :: nat
  mr_disabled :: nat
  mr_orphaned :: nat
  mr_updated :: nat

definition normalized_principals :: "ad_principal dict \<Rightarrow> ad_principal dict" where
  "normalized_principals principals = fold (\<lambda>(key, value). dput (lower (strip key)) value) principals []"

datatype account_state = Ad_normal | Ad_disabled | Ad_orphaned

definition account_state_of :: "ad_principal dict \<Rightarrow> ad_domain \<Rightarrow> ad_account \<Rightarrow> account_state" where
  "account_state_of principals domain account =
    (case map_of principals (extract_name_part (da_username account) (ad_netbios domain)) of
       None \<Rightarrow> Ad_orphaned
     | Some p \<Rightarrow> if ap_kind p = ''user'' \<and> ap_disabled p = Some True then Ad_disabled else Ad_normal)"

definition first_seen :: "int \<Rightarrow> int option \<Rightarrow> int option" where
  "first_seen now old = (case old of None \<Rightarrow> Some now | Some t \<Rightarrow> Some t)"

definition mark_account :: "int \<Rightarrow> int \<Rightarrow> account_state \<Rightarrow> ad_account \<Rightarrow> ad_account" where
  "mark_account now domain_id state account = (case state of
     Ad_orphaned \<Rightarrow> account\<lparr>da_domain := Some domain_id, da_disabled_at := None, da_orphaned_at := first_seen now (da_orphaned_at account)\<rparr>
   | Ad_disabled \<Rightarrow> account\<lparr>da_domain := Some domain_id, da_disabled_at := first_seen now (da_disabled_at account), da_orphaned_at := None\<rparr>
   | Ad_normal \<Rightarrow> account\<lparr>da_domain := Some domain_id, da_disabled_at := None, da_orphaned_at := None\<rparr>)"

definition old_state :: "ad_account \<Rightarrow> int option \<times> int option \<times> int option" where
  "old_state account = (da_domain account, da_disabled_at account, da_orphaned_at account)"

definition match_account_row :: "int \<Rightarrow> ad_domain \<Rightarrow> ad_principal dict \<Rightarrow> ad_account \<Rightarrow> match_result \<Rightarrow> ad_account \<times> match_result" where
  "match_account_row now domain principals account counts =
    (let state = account_state_of principals domain account;
         account' = mark_account now (ad_id domain) state account;
         counts = (case state of
             Ad_orphaned \<Rightarrow> counts\<lparr>mr_orphaned := mr_orphaned counts + 1\<rparr>
           | Ad_disabled \<Rightarrow> counts\<lparr>mr_disabled := mr_disabled counts + 1\<rparr>
           | Ad_normal \<Rightarrow> counts\<lparr>mr_normal := mr_normal counts + 1\<rparr>)
     in (account', if old_state account \<noteq> old_state account' then counts\<lparr>mr_updated := mr_updated counts + 1\<rparr> else counts))"

fun match_rows :: "int \<Rightarrow> ad_domain \<Rightarrow> ad_principal dict \<Rightarrow> ad_account list \<Rightarrow> match_result \<Rightarrow> ad_account list \<times> match_result" where
  "match_rows now domain principals [] counts = ([], counts)"
| "match_rows now domain principals (account # accounts) counts =
    (if is_domain_account domain account then
       (case match_account_row now domain principals account (counts\<lparr>mr_total := mr_total counts + 1\<rparr>) of
          (account', counts') \<Rightarrow> (case match_rows now domain principals accounts counts' of (rows, result) \<Rightarrow> (account' # rows, result)))
     else (case match_rows now domain principals accounts counts of (rows, result) \<Rightarrow> (account # rows, result)))"

definition no_matches :: match_result where
  "no_matches = \<lparr>mr_total = 0, mr_normal = 0, mr_disabled = 0, mr_orphaned = 0, mr_updated = 0\<rparr>"

definition match_and_update :: "int \<Rightarrow> ad_domain \<Rightarrow> ad_principal dict \<Rightarrow> ad_account list \<Rightarrow> ad_account list \<times> match_result" where
  "match_and_update now domain principals rows = match_rows now domain (normalized_principals principals) rows no_matches"

section \<open>What a match does\<close>

definition matched_row :: "int \<Rightarrow> ad_domain \<Rightarrow> ad_principal dict \<Rightarrow> ad_account \<Rightarrow> ad_account" where
  "matched_row now domain principals account =
    (if is_domain_account domain account then mark_account now (ad_id domain) (account_state_of principals domain account) account else account)"

definition count_state :: "ad_domain \<Rightarrow> ad_principal dict \<Rightarrow> account_state \<Rightarrow> ad_account list \<Rightarrow> nat" where
  "count_state domain principals state rows =
    length (filter (\<lambda>a. is_domain_account domain a \<and> account_state_of principals domain a = state) rows)"

lemma match_rows_exact:
  "match_rows now domain principals rows counts = (map (matched_row now domain principals) rows,
     counts\<lparr>mr_total := mr_total counts + length (filter (is_domain_account domain) rows),
       mr_normal := mr_normal counts + count_state domain principals Ad_normal rows,
       mr_disabled := mr_disabled counts + count_state domain principals Ad_disabled rows,
       mr_orphaned := mr_orphaned counts + count_state domain principals Ad_orphaned rows,
       mr_updated := mr_updated counts + length (filter (\<lambda>a. matched_row now domain principals a \<noteq> a) rows)\<rparr>)"
proof (induction rows arbitrary: counts)
  case Nil
  show ?case by (simp add: count_state_def)
next
  case (Cons a rows)
  have changed: "old_state a \<noteq> old_state (mark_account now d s a) \<longleftrightarrow> mark_account now d s a \<noteq> a" for d s
    by (cases a; cases s; cases "da_orphaned_at a"; cases "da_disabled_at a") (auto simp: mark_account_def old_state_def first_seen_def)
  show ?case
  proof (cases "is_domain_account domain a")
    case False
    then show ?thesis by (simp add: Cons.IH matched_row_def count_state_def)
  next
    case True
    have "matched_row now domain principals a = mark_account now (ad_id domain) (account_state_of principals domain a) a"
      using True by (simp add: matched_row_def)
    then show ?thesis using True
      by (cases "account_state_of principals domain a") (auto simp: Cons.IH match_account_row_def Let_def changed count_state_def)
  qed
qed

lemma state_partition: "count_state domain principals Ad_normal rows + count_state domain principals Ad_disabled rows
    + count_state domain principals Ad_orphaned rows = length (filter (is_domain_account domain) rows)"
proof (induction rows)
  case (Cons a rows)
  then show ?case by (cases "account_state_of principals domain a") (auto simp: count_state_def)
qed (simp add: count_state_def)

lemma mark_username [simp]: "da_username (matched_row now domain principals a) = da_username a"
  "is_domain_account d (matched_row now domain principals a) = is_domain_account d a"
  by (auto simp: matched_row_def mark_account_def is_domain_account_def split: account_state.split)

lemma mark_again: "mark_account later d s (mark_account now d s a) = mark_account now d s a"
  by (cases a; cases s) (auto simp: mark_account_def first_seen_def split: option.split)

lemma matched_again: "matched_row later domain principals (matched_row now domain principals a) = matched_row now domain principals a"
proof (cases "is_domain_account domain a")
  case True
  have "account_state_of principals domain (matched_row now domain principals a) = account_state_of principals domain a"
    by (simp add: account_state_of_def)
  with True show ?thesis unfolding matched_row_def using mark_again by (simp flip: matched_row_def add: matched_row_def)
qed (simp add: matched_row_def)

end
