(* ===== verification/Ad_Results.thy ===== *)
theory Ad_Results
  imports Ad_Match
begin

text \<open>
  When a search of the directory ends, and what a match makes of the accounts of a domain.
\<close>

section \<open>The cookies of a search\<close>

text \<open>The entries and the cookie of the answer to request \<^verbatim>\<open>n\<close>, when it is an answer.\<close>

definition answer_of :: "ldap_search \<Rightarrow> string \<Rightarrow> nat \<Rightarrow> pv \<Rightarrow> (pdict list \<times> pv) option" where
  "answer_of search search_filter n cookie = (case search n search_filter cookie of
     Inl e \<Rightarrow> None
   | Inr a \<Rightarrow> if la_ok a then Some (la_entries a, paged_cookie (la_result a)) else None)"

text \<open>The cookie request \<^verbatim>\<open>n\<close> is sent with: \<^verbatim>\<open>None\<close> when there is no such request.\<close>

fun cookie_at :: "ldap_search \<Rightarrow> string \<Rightarrow> nat \<Rightarrow> nat \<Rightarrow> pv option" where
  "cookie_at search search_filter start 0 = Some PNone"
| "cookie_at search search_filter start (Suc n) = (case cookie_at search search_filter start n of
     None \<Rightarrow> None
   | Some cookie \<Rightarrow> (case answer_of search search_filter (start + n) cookie of
       None \<Rightarrow> None
     | Some (entries, next_cookie) \<Rightarrow> if next_cookie = PNone \<or> py_eq next_cookie cookie then None else Some next_cookie))"

fun entries_before :: "ldap_search \<Rightarrow> string \<Rightarrow> nat \<Rightarrow> nat \<Rightarrow> pdict list" where
  "entries_before search search_filter start 0 = []"
| "entries_before search search_filter start (Suc n) = entries_before search search_filter start n
     @ (case cookie_at search search_filter start n of
          None \<Rightarrow> []
        | Some cookie \<Rightarrow> (case answer_of search search_filter (start + n) cookie of None \<Rightarrow> [] | Some (entries, _) \<Rightarrow> entries))"

definition search_state :: "(pv \<Rightarrow> string) \<Rightarrow> ldap_search \<Rightarrow> string \<Rightarrow> string \<Rightarrow> nat \<Rightarrow> ad_principal dict \<Rightarrow> nat \<Rightarrow> pv \<Rightarrow> ldap_loop" where
  "search_state container search search_filter object_kind start target n cookie =
    (case fold (consume_entry container object_kind) (entries_before search search_filter start n) (0, target) of
       (count, target') \<Rightarrow> \<lparr>ll_requests = start + n, ll_cookie = cookie, ll_count = count, ll_target = target'\<rparr>)"

lemma search_goes_on:
  assumes "cookie_at search search_filter start n = Some cookie" "cookie_at search search_filter start (Suc n) = Some next_cookie"
  shows "ldap_turn container search search_filter object_kind (search_state container search search_filter object_kind start target n cookie)
    = Inl (search_state container search search_filter object_kind start target (Suc n) next_cookie)"
  using assms by (auto simp: ldap_turn_def search_state_def answer_of_def Let_def split: sum.splits option.splits prod.splits if_splits)

text \<open>How a search ends with request \<^verbatim>\<open>n\<close>: without a cookie, with what it found.\<close>

definition found_at :: "(pv \<Rightarrow> string) \<Rightarrow> ldap_search \<Rightarrow> string \<Rightarrow> string \<Rightarrow> nat \<Rightarrow> ad_principal dict \<Rightarrow> nat \<Rightarrow> (nat \<times> nat \<times> ad_principal dict) option" where
  "found_at container search search_filter object_kind start target n =
    (case cookie_at search search_filter start n of
       None \<Rightarrow> None
     | Some cookie \<Rightarrow> (case answer_of search search_filter (start + n) cookie of
         None \<Rightarrow> None
       | Some (entries, next_cookie) \<Rightarrow>
           if next_cookie \<noteq> PNone then None
           else (case fold (consume_entry container object_kind) (entries_before search search_filter start (Suc n)) (0, target) of
             (count, target') \<Rightarrow> Some (count, start + Suc n, target'))))"

lemma search_stops:
  assumes "cookie_at search search_filter start n = Some cookie" "cookie_at search search_filter start (Suc n) = None"
  shows "\<exists>r. ldap_turn container search search_filter object_kind (search_state container search search_filter object_kind start target n cookie) = Inr r
    \<and> (case found_at container search search_filter object_kind start target n of
         None \<Rightarrow> \<exists>e. r = Inl e
       | Some (count, requests, target') \<Rightarrow> \<exists>st. r = Inr st \<and> ll_count st = count \<and> ll_requests st = requests \<and> ll_target st = target')"
  using assms by (auto simp: ldap_turn_def search_state_def answer_of_def found_at_def Let_def split: sum.splits option.splits prod.splits if_splits)

lemma search_reaches:
  assumes "cookie_at search search_filter start n = Some cookie"
  shows "ldap_pages container search search_filter object_kind (search_state container search search_filter object_kind start target 0 PNone)
    = ldap_pages container search search_filter object_kind (search_state container search search_filter object_kind start target n cookie)"
  using assms
proof (induction n arbitrary: cookie)
  case (Suc n)
  then obtain c where c: "cookie_at search search_filter start n = Some c" by (auto split: option.splits)
  show ?case
    using Suc.IH [OF c] ldap.unfold_loop [of container search search_filter object_kind "search_state container search search_filter object_kind start target n c"]
      search_goes_on [OF c Suc.prems] by simp
qed simp

lemma search_start: "search_principals container search search_filter object_kind start target =
    (case ldap_pages container search search_filter object_kind (search_state container search search_filter object_kind start target 0 PNone) of
       None \<Rightarrow> None | Some (Inl e) \<Rightarrow> Some (Inl e) | Some (Inr st) \<Rightarrow> Some (Inr (ll_count st, ll_requests st, ll_target st)))"
  by (simp add: search_principals_def search_state_def)

lemma search_never_ends:
  assumes "\<forall>n. cookie_at search search_filter start n \<noteq> None"
  shows "search_principals container search search_filter object_kind start target = None"
proof -
  have "ldap_pages container search search_filter object_kind (search_state container search search_filter object_kind start target 0 PNone) = None"
  proof (rule ldap.never_returns [where P = "\<lambda>s. \<exists>n cookie. cookie_at search search_filter start n = Some cookie
      \<and> s = search_state container search search_filter object_kind start target n cookie"])
    show "\<exists>s'. ldap_turn container search search_filter object_kind s = Inl s' \<and> (\<exists>n cookie. cookie_at search search_filter start n = Some cookie
        \<and> s' = search_state container search search_filter object_kind start target n cookie)"
      if "\<exists>n cookie. cookie_at search search_filter start n = Some cookie
        \<and> s = search_state container search search_filter object_kind start target n cookie" for s
    proof -
      from that obtain n cookie where n: "cookie_at search search_filter start n = Some cookie"
        "s = search_state container search search_filter object_kind start target n cookie" by blast
      moreover obtain c where c: "cookie_at search search_filter start (Suc n) = Some c" using assms by blast
      ultimately show ?thesis using search_goes_on [OF n(1) c] by blast
    qed
  qed (auto intro!: exI [of _ "0::nat"])
  then show ?thesis by (simp add: search_start)
qed

lemma search_ends:
  assumes "cookie_at search search_filter start n = Some cookie" "cookie_at search search_filter start (Suc n) = None"
  shows "case found_at container search search_filter object_kind start target n of
      None \<Rightarrow> \<exists>e. search_principals container search search_filter object_kind start target = Some (Inl e)
    | Some found \<Rightarrow> search_principals container search search_filter object_kind start target = Some (Inr found)"
proof -
  obtain r where r: "ldap_turn container search search_filter object_kind (search_state container search search_filter object_kind start target n cookie) = Inr r"
    "case found_at container search search_filter object_kind start target n of
         None \<Rightarrow> \<exists>e. r = Inl e
       | Some (count, requests, target') \<Rightarrow> \<exists>st. r = Inr st \<and> ll_count st = count \<and> ll_requests st = requests \<and> ll_target st = target'"
    using search_stops [OF assms] by blast
  have "ldap_pages container search search_filter object_kind (search_state container search search_filter object_kind start target 0 PNone) = Some r"
    using search_reaches [OF assms(1)] ldap.unfold_loop [of container search search_filter object_kind "search_state container search search_filter object_kind start target n cookie"] r(1)
    by simp
  then show ?thesis using r(2) by (auto simp: search_start split: option.splits)
qed

text \<open>C17: A search for the principals of a domain ends exactly when its chain of cookies does: a request
  fails, or its answer has no cookie or the cookie it was asked with. What the last request decides is
  the result: without a cookie the number of entries with a name and the principals of all pages in
  order, otherwise an error. The check for a cookie that does not move on looks one request back
  only, so a controller whose cookies alternate between two values is asked for ever.\<close>

theorem ldap_search_ends_iff:
  "(search_principals container search search_filter object_kind start target \<noteq> None) = (\<exists>n. cookie_at search search_filter start n = None)
   \<and> (\<forall>n. cookie_at search search_filter start n \<noteq> None \<longrightarrow> cookie_at search search_filter start (Suc n) = None \<longrightarrow>
        (case found_at container search search_filter object_kind start target n of
           None \<Rightarrow> \<exists>e. search_principals container search search_filter object_kind start target = Some (Inl e)
         | Some found \<Rightarrow> search_principals container search search_filter object_kind start target = Some (Inr found)))"
proof -
  have "\<exists>n. cookie_at search search_filter start n \<noteq> None \<and> cookie_at search search_filter start (Suc n) = None"
    if "cookie_at search search_filter start n = None" for n
    using that
  proof (induction n)
    case (Suc n)
    then show ?case by (cases "cookie_at search search_filter start n = None") blast+
  qed simp
  note stops = this
  have ends: "search_principals container search search_filter object_kind start target \<noteq> None"
    if stop: "cookie_at search search_filter start n = None" for n
  proof -
    from stop obtain m cookie where m: "cookie_at search search_filter start m = Some cookie" "cookie_at search search_filter start (Suc m) = None"
      using stops by blast
    show ?thesis using search_ends [OF m, of container object_kind target] by (auto split: option.splits)
  qed
  have goes_on: "search_principals container search search_filter object_kind start target = None"
    if "\<nexists>n. cookie_at search search_filter start n = None"
    using that by (intro search_never_ends) simp
  show ?thesis
  proof (intro conjI allI impI)
    show "(search_principals container search search_filter object_kind start target \<noteq> None) = (\<exists>n. cookie_at search search_filter start n = None)"
      using ends goes_on by metis
    fix n assume "cookie_at search search_filter start n \<noteq> None" and stop: "cookie_at search search_filter start (Suc n) = None"
    then obtain cookie where "cookie_at search search_filter start n = Some cookie" by blast
    from search_ends [OF this stop] show "case found_at container search search_filter object_kind start target n of
        None \<Rightarrow> \<exists>e. search_principals container search search_filter object_kind start target = Some (Inl e)
      | Some found \<Rightarrow> search_principals container search search_filter object_kind start target = Some (Inr found)" .
  qed
qed

definition answer_with :: "pdict list \<Rightarrow> pv \<Rightarrow> ldap_answer" where
  "answer_with entries cookie = \<lparr>la_ok = True, la_entries = entries,
     la_result = PDict [(''controls'', PDict [(LDAP_PAGED_RESULT_CONTROL, PDict [(''value'', PDict [(''cookie'', cookie)])])])]\<rparr>"

definition alternating :: ldap_search where
  "alternating n search_filter cookie = Inr (answer_with [] (PStr (if even n then ''a'' else ''b'')))"

definition two_pages :: ldap_search where
  "two_pages n search_filter cookie = Inr (if cookie = PNone
     then answer_with [[(''sAMAccountName'', PStr ''Ann''), (''userAccountControl'', PInt 514)], [(''mail'', PStr ''m'')]] (PStr ''c'')
     else answer_with [[(''sAMAccountName'', PList [PStr ''bob'']), (''userAccountControl'', PStr ''512'')]] (PStr []))"

lemma ldap_search_ends_iff_witness:
  "search_principals (\<lambda>_. []) alternating USER_FILTER ''user'' 0 [] = None
   \<and> (\<exists>target. search_principals (\<lambda>_. []) two_pages USER_FILTER ''user'' 0 [] = Some (Inr (2, 2, target))
        \<and> map (\<lambda>(k, p). (k, ap_disabled p)) target = [(''ann'', Some True), (''bob'', Some False)])"
proof
  have cookies: "answer_of alternating USER_FILTER n cookie = Some ([], PStr (if even n then ''a'' else ''b''))" for n cookie
    by (simp add: answer_of_def alternating_def answer_with_def paged_cookie_def sub_dict_def dget_def Let_def)
  have different: "\<not> py_eq (PStr ''a'') PNone" "\<not> py_eq (PStr ''a'') (PStr ''b'')" "\<not> py_eq (PStr ''b'') (PStr ''a'')"
    by code_simp+
  have "cookie_at alternating USER_FILTER 0 n = Some (if n = 0 then PNone else PStr (if odd n then ''a'' else ''b''))" for n
    by (induction n) (simp_all add: cookies different)
  then show "search_principals (\<lambda>_. []) alternating USER_FILTER ''user'' 0 [] = None"
    using ldap_search_ends_iff [of "\<lambda>_. []" alternating USER_FILTER "''user''" 0 "[]"] by (metis option.distinct(1))
next
  have chain: "cookie_at two_pages USER_FILTER 0 1 \<noteq> None" "cookie_at two_pages USER_FILTER 0 (Suc 1) = None"
    and "case found_at (\<lambda>_. []) two_pages USER_FILTER ''user'' 0 [] 1 of
        None \<Rightarrow> False
      | Some (count, requests, target) \<Rightarrow> count = 2 \<and> requests = 2
          \<and> map (\<lambda>(k, p). (k, ap_disabled p)) target = [(''ann'', Some True), (''bob'', Some False)]"
    by code_simp+
  then obtain target where found: "found_at (\<lambda>_. []) two_pages USER_FILTER ''user'' 0 [] 1 = Some (2, 2, target)"
    "map (\<lambda>(k, p). (k, ap_disabled p)) target = [(''ann'', Some True), (''bob'', Some False)]"
    by (auto split: option.splits)
  then show "\<exists>target. search_principals (\<lambda>_. []) two_pages USER_FILTER ''user'' 0 [] = Some (Inr (2, 2, target))
      \<and> map (\<lambda>(k, p). (k, ap_disabled p)) target = [(''ann'', Some True), (''bob'', Some False)]"
    using ldap_search_ends_iff [of "\<lambda>_. []" two_pages USER_FILTER "''user''" 0 "[]", THEN conjunct2, THEN spec [of _ 1]] chain by simp
qed

section \<open>The accounts of a domain\<close>

definition principal_named :: "ad_principal dict \<Rightarrow> string \<Rightarrow> ad_principal \<Rightarrow> bool" where
  "principal_named principals name p = (\<exists>key. (key, p) \<in> set principals \<and> lower (strip key) = name)"

lemma normalized_lookup:
  assumes "distinct (map (\<lambda>(key, p). lower (strip key)) principals)"
  shows "map_of (normalized_principals principals) name = Some p \<longleftrightarrow> principal_named principals name p"
  using assms
proof (induction principals rule: rev_induct)
  case Nil
  show ?case by (simp add: normalized_principals_def principal_named_def)
next
  case (snoc x xs)
  obtain k v where x: "x = (k, v)" by fastforce
  have "normalized_principals (xs @ [x]) = dput (lower (strip k)) v (normalized_principals xs)"
    by (simp add: normalized_principals_def x)
  moreover have "principal_named (xs @ [x]) name p \<longleftrightarrow> principal_named xs name p \<or> lower (strip k) = name \<and> v = p"
    by (auto simp: principal_named_def x)
  moreover have "\<not> principal_named xs (lower (strip k)) p" using snoc.prems by (force simp: principal_named_def x)
  ultimately show ?case using snoc by (auto simp: map_of_dput)
qed

lemma state_of_names:
  assumes "distinct (map (\<lambda>(key, p). lower (strip key)) principals)"
    and "name = extract_name_part (da_username a) (ad_netbios domain)"
  shows "account_state_of (normalized_principals principals) domain a = Ad_orphaned \<longleftrightarrow> (\<nexists>p. principal_named principals name p)"
    and "account_state_of (normalized_principals principals) domain a = Ad_disabled
      \<longleftrightarrow> (\<exists>p. principal_named principals name p \<and> ap_kind p = ''user'' \<and> ap_disabled p = Some True)"
  using normalized_lookup [OF assms(1), of name, symmetric]
  by (auto simp: account_state_of_def assms(2) split: option.splits)

lemma marks: "da_orphaned_at (mark_account now d s a) = (if s = Ad_orphaned then first_seen now (da_orphaned_at a) else None)"
  "da_disabled_at (mark_account now d s a) = (if s = Ad_disabled then first_seen now (da_disabled_at a) else None)"
  "da_id (mark_account now d s a) = da_id a" "da_username (mark_account now d s a) = da_username a"
  "da_db_type (mark_account now d s a) = da_db_type a" "da_owner_type (mark_account now d s a) = da_owner_type a"
  "da_domain (mark_account now d s a) = Some d"
  by (cases s; simp add: mark_account_def)+

lemma first_seen_some [simp]: "first_seen now old \<noteq> None" "(\<exists>y. first_seen now old = Some y)"
  by (simp_all add: first_seen_def split: option.split)

lemma match_exact:
  assumes "match_and_update now domain principals rows = (rows', r)"
    and "distinct (map (\<lambda>(key, p). lower (strip key)) principals)"
  shows "list_all2 (\<lambda>a a'. if is_domain_account domain a
      then da_id a' = da_id a \<and> da_username a' = da_username a \<and> da_db_type a' = da_db_type a \<and> da_owner_type a' = da_owner_type a
        \<and> da_domain a' = Some (ad_id domain)
        \<and> da_orphaned_at a' = (if \<exists>p. principal_named principals (extract_name_part (da_username a) (ad_netbios domain)) p
            then None else Some (case da_orphaned_at a of None \<Rightarrow> now | Some t \<Rightarrow> t))
        \<and> da_disabled_at a' = (if \<exists>p. principal_named principals (extract_name_part (da_username a) (ad_netbios domain)) p
              \<and> ap_kind p = ''user'' \<and> ap_disabled p = Some True
            then Some (case da_disabled_at a of None \<Rightarrow> now | Some t \<Rightarrow> t) else None)
      else a' = a) rows rows'" (is "list_all2 ?R _ _")
    and "mr_total r = mr_normal r + mr_disabled r + mr_orphaned r"
    and "mr_total r = length (filter (is_domain_account domain) rows)"
    and "mr_orphaned r = length (filter (\<lambda>a. is_domain_account domain a \<and> da_orphaned_at a \<noteq> None) rows')"
    and "mr_disabled r = length (filter (\<lambda>a. is_domain_account domain a \<and> da_disabled_at a \<noteq> None) rows')"
    and "mr_updated r = length (filter (\<lambda>(a, a'). a' \<noteq> a) (zip rows rows'))"
proof -
  let ?N = "normalized_principals principals"
  have rows': "rows' = map (matched_row now domain ?N) rows"
    and r: "r = no_matches\<lparr>mr_total := length (filter (is_domain_account domain) rows), mr_normal := count_state domain ?N Ad_normal rows,
       mr_disabled := count_state domain ?N Ad_disabled rows, mr_orphaned := count_state domain ?N Ad_orphaned rows,
       mr_updated := length (filter (\<lambda>a. matched_row now domain ?N a \<noteq> a) rows)\<rparr>"
    using assms(1) by (auto simp: match_and_update_def match_rows_exact no_matches_def)
  show "list_all2 ?R rows rows'"
    unfolding rows' list.rel_map
  proof (rule list.rel_refl_strong)
    fix a
    have names: "(\<exists>p. principal_named principals (extract_name_part (da_username a) (ad_netbios domain)) p)
          = (account_state_of ?N domain a \<noteq> Ad_orphaned)"
      "(\<exists>p. principal_named principals (extract_name_part (da_username a) (ad_netbios domain)) p \<and> ap_kind p = ''user'' \<and> ap_disabled p = Some True)
          = (account_state_of ?N domain a = Ad_disabled)"
      using state_of_names [OF assms(2) refl, of domain a] by blast+
    show "?R a (matched_row now domain ?N a)"
      unfolding names by (simp add: matched_row_def marks first_seen_def split: option.split)
  qed
  show "mr_total r = mr_normal r + mr_disabled r + mr_orphaned r" by (simp add: r state_partition)
  show "mr_total r = length (filter (is_domain_account domain) rows)" by (simp add: r)
  show "mr_orphaned r = length (filter (\<lambda>a. is_domain_account domain a \<and> da_orphaned_at a \<noteq> None) rows')"
    "mr_disabled r = length (filter (\<lambda>a. is_domain_account domain a \<and> da_disabled_at a \<noteq> None) rows')"
    by (simp_all add: r rows' count_state_def filter_map o_def)
      (rule arg_cong [where f = length], rule filter_cong [OF refl], auto simp: matched_row_def marks)+
  show "mr_updated r = length (filter (\<lambda>(a, a'). a' \<noteq> a) (zip rows rows'))"
    unfolding r rows' by (induction rows) auto
qed

text \<open>C15: Matching a domain leaves every account alone that is not a SQL Server account of the domain.
  Every other one gets the domain and keeps its identity; it is marked as orphaned exactly when the
  directory has no principal of its name, and as disabled exactly when the principal of its name is a
  disabled user; a mark that was there keeps its first time, the others are cleared. The counts are
  those of the accounts in each state, and of the accounts that changed. The names of the principals
  are assumed to differ when trimmed and in lower case.\<close>

theorem ad_match_exact:
  assumes "match_and_update now domain principals rows = (rows', r)"
    and "distinct (map (\<lambda>(key, p). lower (strip key)) principals)"
  shows "list_all2 (\<lambda>a a'. if is_domain_account domain a
      then da_id a' = da_id a \<and> da_username a' = da_username a \<and> da_db_type a' = da_db_type a \<and> da_owner_type a' = da_owner_type a
        \<and> da_domain a' = Some (ad_id domain)
        \<and> da_orphaned_at a' = (if \<exists>p. principal_named principals (extract_name_part (da_username a) (ad_netbios domain)) p
            then None else Some (case da_orphaned_at a of None \<Rightarrow> now | Some t \<Rightarrow> t))
        \<and> da_disabled_at a' = (if \<exists>p. principal_named principals (extract_name_part (da_username a) (ad_netbios domain)) p
              \<and> ap_kind p = ''user'' \<and> ap_disabled p = Some True
            then Some (case da_disabled_at a of None \<Rightarrow> now | Some t \<Rightarrow> t) else None)
      else a' = a) rows rows'
    \<and> mr_total r = mr_normal r + mr_disabled r + mr_orphaned r
    \<and> mr_total r = length (filter (is_domain_account domain) rows)
    \<and> mr_orphaned r = length (filter (\<lambda>a. is_domain_account domain a \<and> da_orphaned_at a \<noteq> None) rows')
    \<and> mr_disabled r = length (filter (\<lambda>a. is_domain_account domain a \<and> da_disabled_at a \<noteq> None) rows')
    \<and> mr_updated r = length (filter (\<lambda>(a, a'). a' \<noteq> a) (zip rows rows'))"
  using match_exact [OF assms] by (intro conjI)

definition example_domain :: ad_domain where
  "example_domain = \<lparr>ad_id = 5, ad_name = ''corp'', ad_netbios = ''CORP'', ad_controllers = PList [PStr ''dc1''], ad_port = 389,
     ad_use_ssl = False, ad_verify_ssl = None, ad_base_dn = ''DC=corp,DC=local'', ad_credential = 1, ad_enabled = True,
     ad_description = None, ad_sync_at = None, ad_sync_status = None, ad_sync_run = None, ad_error = None\<rparr>"

definition example_principals :: "ad_principal dict" where
  "example_principals = [(''ann'', \<lparr>ap_name = ''Ann'', ap_kind = ''user'', ap_disabled = Some True, ap_attributes = []\<rparr>),
     (''bob'', \<lparr>ap_name = ''bob'', ap_kind = ''user'', ap_disabled = Some False, ap_attributes = []\<rparr>)]"

definition account_named :: "string \<Rightarrow> int option \<Rightarrow> ad_account" where
  "account_named name disabled_at = \<lparr>da_id = 1, da_username = name, da_db_type = ''sqlserver'', da_owner_type = ''instance'',
     da_domain = Some 5, da_disabled_at = disabled_at, da_orphaned_at = None\<rparr>"

definition example_accounts :: "ad_account list" where
  "example_accounts = [account_named (''CORP'' @ BACKSLASH # ''Ann'') (Some 4), account_named (''corp'' @ BACKSLASH # ''bob'') (Some 4),
     account_named (''CORP'' @ BACKSLASH # ''eve'') None, account_named ''sa'' None]"

lemma ad_match_exact_witness:
  "case match_and_update 9 example_domain example_principals example_accounts of (rows', r) \<Rightarrow>
     mr_total r = mr_normal r + mr_disabled r + mr_orphaned r \<and> mr_total r = 3 \<and> mr_updated r = 2
     \<and> map da_orphaned_at rows' = [None, None, Some 9, None] \<and> map da_disabled_at rows' = [Some 4, None, None, None]"
proof -
  obtain rows' r where m: "match_and_update 9 example_domain example_principals example_accounts = (rows', r)" by fastforce
  have "distinct (map (\<lambda>(key, p). lower (strip key)) example_principals)" by code_simp
  note ad_match_exact [OF m this, THEN conjunct2, THEN conjunct1]
  moreover have "case match_and_update 9 example_domain example_principals example_accounts of (rows', r) \<Rightarrow>
      mr_total r = 3 \<and> mr_updated r = 2
      \<and> map da_orphaned_at rows' = [None, None, Some 9, None] \<and> map da_disabled_at rows' = [Some 4, None, None, None]"
    by code_simp
  ultimately show ?thesis by (simp add: m)
qed

lemma matched_state: "account_state_of principals domain (matched_row now d principals' a) = account_state_of principals domain a"
  by (simp add: account_state_of_def)

text \<open>Matching again with the same principals, at any later time, changes nothing and counts the same
  accounts, none of them as updated.\<close>

theorem ad_match_idempotent:
  "(case match_and_update now domain principals rows of (rows', r) \<Rightarrow>
     match_and_update later domain principals rows' = (rows', r\<lparr>mr_updated := 0\<rparr>))"
  by (simp add: match_and_update_def match_rows_exact matched_again count_state_def filter_map o_def matched_state no_matches_def)

end
