(* ===== verification/Ad_Task.thy ===== *)
theory Ad_Task
  imports Ad_Match Task_Runs
begin

text \<open>
  The task \<^verbatim>\<open>sync_ad_accounts\<close> of \<^verbatim>\<open>app/tasks/ad_sync_tasks.py\<close>: every enabled domain is an
  item of the run; a domain that fails is recorded and the others go on. The store is what is
  committed. The errors of the service of the runs are not among those the task catches.
\<close>

record ad_store =
  dt_domains :: "ad_domain list"
  dt_accounts :: "ad_account list"
  dt_credentials :: "credential list"
  dt_runs :: run_db

record ad_task_env =
  ax_env :: ad_env
  ax_model :: summary_model
  ax_now :: int
  ax_fresh :: string

datatype ad_outcome = Ad_done | Ad_raised run_error

record fetch_totals =
  ft_users :: nat
  ft_groups :: nat

definition list_configs :: "ad_domain list \<Rightarrow> ad_domain list" where
  "list_configs domains = sort_key ad_name (filter ad_enabled domains)"

definition write_domain :: "int \<Rightarrow> (ad_domain \<Rightarrow> ad_domain) \<Rightarrow> ad_store \<Rightarrow> ad_store" where
  "write_domain i f st = st\<lparr>dt_domains := map (\<lambda>d. if ad_id d = i then f d else d) (dt_domains st)\<rparr>"

definition mark_domain :: "ad_domain \<Rightarrow> int \<Rightarrow> string \<Rightarrow> string \<Rightarrow> string option \<Rightarrow> ad_store \<Rightarrow> ad_store" where
  "mark_domain domain now status run_id error = write_domain (ad_id domain)
     (\<lambda>d. d\<lparr>ad_sync_at := Some now, ad_sync_status := Some status, ad_sync_run := Some run_id, ad_error := error\<rparr>)"

definition add_results :: "match_result \<Rightarrow> match_result \<Rightarrow> match_result" where
  "add_results left right = \<lparr>mr_total = mr_total left + mr_total right, mr_normal = mr_normal left + mr_normal right,
     mr_disabled = mr_disabled left + mr_disabled right, mr_orphaned = mr_orphaned left + mr_orphaned right,
     mr_updated = mr_updated left + mr_updated right\<rparr>"

definition add_fetch_totals :: "fetch_totals \<Rightarrow> ad_fetch \<Rightarrow> fetch_totals" where
  "add_fetch_totals left right = \<lparr>ft_users = ft_users left + af_users right, ft_groups = ft_groups left + af_groups right\<rparr>"

definition match_metrics :: "match_result \<Rightarrow> ad_fetch \<Rightarrow> pyobj" where
  "match_metrics r f = O_dict
    [(K_str ''total'', O_int (int (mr_total r))), (K_str ''normal'', O_int (int (mr_normal r))), (K_str ''disabled'', O_int (int (mr_disabled r))),
     (K_str ''orphaned'', O_int (int (mr_orphaned r))), (K_str ''updated'', O_int (int (mr_updated r))),
     (K_str ''ad_users_total'', O_int (int (af_users f))), (K_str ''ad_groups_total'', O_int (int (af_groups f))),
     (K_str ''ad_principals_total'', O_int (int (af_users f + af_groups f)))]"

section \<open>One domain\<close>

text \<open>\<^verbatim>\<open>_sync_domain\<close>: what is committed, and what it returns or raises.\<close>

datatype domain_end = Domain_done match_result ad_fetch | Domain_caught string | Domain_raised run_error

definition sync_domain :: "ad_task_env \<Rightarrow> string \<Rightarrow> ad_domain \<Rightarrow> ad_store \<Rightarrow> (ad_store \<times> domain_end) option" where
  "sync_domain env run_id domain st =
    (let key = show_int (ad_id domain); now = ax_now env
     in case start_item run_id ''ad_domain'' key now (dt_runs st) of
          Inl e \<Rightarrow> Some (st, Domain_raised e)
        | Inr db \<Rightarrow>
            let st1 = st\<lparr>dt_runs := db\<rparr>
            in (case fetch_principals (ax_env env) (dt_credentials st1) domain of
                  None \<Rightarrow> None
                | Some (Inl text) \<Rightarrow> Some (st1, Domain_caught text)
                | Some (Inr fetched) \<Rightarrow>
                   (case match_and_update now domain (af_principals fetched) (dt_accounts st1) of (rows, result) \<Rightarrow>
                    case complete_item run_id ''ad_domain'' key (Some (match_metrics result fetched)) None now (dt_runs st1) of
                      Inl e \<Rightarrow> Some (st1, Domain_raised e)
                    | Inr db' \<Rightarrow> Some ((mark_domain domain now ''success'' run_id None (st1\<lparr>dt_accounts := rows\<rparr>))\<lparr>dt_runs := db'\<rparr>,
                        Domain_done result fetched))))"

definition fail_domain :: "ad_task_env \<Rightarrow> string \<Rightarrow> ad_domain \<Rightarrow> string \<Rightarrow> ad_store \<Rightarrow> run_error + ad_store" where
  "fail_domain env run_id domain text st =
    (case fail_item run_id ''ad_domain'' (show_int (ad_id domain)) text None (ax_now env) (dt_runs st) of
       Inl e \<Rightarrow> Inl e
     | Inr db \<Rightarrow> Inr ((mark_domain domain (ax_now env) ''failed'' run_id (Some text) st)\<lparr>dt_runs := db\<rparr>))"

record domain_totals =
  do_results :: match_result
  do_fetched :: fetch_totals
  do_successful :: nat
  do_failed :: nat

fun sync_domains ::
  "ad_task_env \<Rightarrow> string \<Rightarrow> ad_domain list \<Rightarrow> domain_totals \<Rightarrow> ad_store \<Rightarrow> (ad_store \<times> (run_error + domain_totals)) option" where
  "sync_domains env run_id [] totals st = Some (st, Inr totals)"
| "sync_domains env run_id (domain # domains) totals st =
    (case sync_domain env run_id domain st of
       None \<Rightarrow> None
     | Some (st1, Domain_raised e) \<Rightarrow> Some (st1, Inl e)
     | Some (st1, Domain_caught text) \<Rightarrow> (case fail_domain env run_id domain text st1 of
          Inl e \<Rightarrow> Some (st1, Inl e)
        | Inr st2 \<Rightarrow> sync_domains env run_id domains (totals\<lparr>do_failed := do_failed totals + 1\<rparr>) st2)
     | Some (st1, Domain_done result fetched) \<Rightarrow> sync_domains env run_id domains
          (totals\<lparr>do_results := add_results (do_results totals) result, do_fetched := add_fetch_totals (do_fetched totals) fetched,
             do_successful := do_successful totals + 1\<rparr>) st1)"

section \<open>The run\<close>

definition ad_metric :: "string \<Rightarrow> string \<Rightarrow> nat \<Rightarrow> string \<Rightarrow> pyobj" where
  "ad_metric key label value tone = O_dict [(K_str ''key'', O_str key), (K_str ''label'', O_str label),
     (K_str ''value'', O_int (int value)), (K_str ''unit'', O_str (utf8 [0xE4, 0xB8, 0xAA])), (K_str ''tone'', O_str tone)]"

definition sync_ad_accounts_payload :: "nat \<Rightarrow> domain_totals \<Rightarrow> pyobj" where
  "sync_ad_accounts_payload domains_total t =
    (let r = do_results t; f = do_fetched t; users = ft_users f; groups = ft_groups f
     in O_dict
       [(K_str ''version'', O_int 1),
        (K_str ''common'', O_dict
          [(K_str ''inputs'', O_dict []), (K_str ''scope'', O_dict []),
           (K_str ''metrics'', O_list
             [ad_metric ''domains_total'' (utf8 [0xE5, 0x9F, 0x9F, 0xE6, 0x80, 0xBB, 0xE6, 0x95, 0xB0]) domains_total ''info'',
              ad_metric ''domains_successful'' (utf8 [0xE6, 0x88, 0x90, 0xE5, 0x8A, 0x9F, 0xE5, 0x9F, 0x9F]) (do_successful t) ''success'',
              ad_metric ''domains_failed'' (utf8 [0xE5, 0xA4, 0xB1, 0xE8, 0xB4, 0xA5, 0xE5, 0x9F, 0x9F]) (do_failed t) (if do_failed t \<noteq> 0 then ''danger'' else ''success''),
              ad_metric ''accounts_total'' (utf8 [0xE8, 0xB4, 0xA6, 0xE6, 0x88, 0xB7, 0xE6, 0x80, 0xBB, 0xE6, 0x95, 0xB0]) (mr_total r) ''info'',
              ad_metric ''accounts_normal'' (utf8 [0xE6, 0xAD, 0xA3, 0xE5, 0xB8, 0xB8, 0xE8, 0xB4, 0xA6, 0xE6, 0x88, 0xB7]) (mr_normal r) ''success'',
              ad_metric ''accounts_disabled'' (utf8 [0xE7, 0xA6, 0x81, 0xE7, 0x94, 0xA8, 0xE8, 0xB4, 0xA6, 0xE6, 0x88, 0xB7]) (mr_disabled r) (if mr_disabled r \<noteq> 0 then ''warning'' else ''success''),
              ad_metric ''accounts_orphaned'' (utf8 [0xE5, 0xAD, 0xA4, 0xE5, 0x84, 0xBF, 0xE8, 0xB4, 0xA6, 0xE6, 0x88, 0xB7]) (mr_orphaned r) (if mr_orphaned r \<noteq> 0 then ''warning'' else ''success''),
              ad_metric ''accounts_updated'' (utf8 [0xE6, 0x9B, 0xB4, 0xE6, 0x96, 0xB0, 0xE8, 0xB4, 0xA6, 0xE6, 0x88, 0xB7]) (mr_updated r) ''info'',
              ad_metric ''ad_users_total'' (''AD '' @ utf8 [0xE7, 0x94, 0xA8, 0xE6, 0x88, 0xB7]) users ''info'',
              ad_metric ''ad_groups_total'' (''AD '' @ utf8 [0xE7, 0xBB, 0x84]) groups ''info'',
              ad_metric ''ad_principals_total'' (''AD '' @ utf8 [0xE4, 0xB8, 0xBB, 0xE4, 0xBD, 0x93]) (users + groups) ''info'']),
           (K_str ''highlights'', O_list []),
           (K_str ''flags'', O_dict [(K_str ''skipped'', O_bool False), (K_str ''skip_reason'', O_none)])]),
        (K_str ''ext'', O_dict [(K_str ''type'', O_str ''sync_ad_accounts''), (K_str ''version'', O_int 1),
          (K_str ''data'', O_dict
            [(K_str ''domains'', O_dict [(K_str ''total'', O_int (int domains_total)), (K_str ''successful'', O_int (int (do_successful t))),
                (K_str ''failed'', O_int (int (do_failed t)))]),
             (K_str ''accounts'', O_dict [(K_str ''total'', O_int (int (mr_total r))), (K_str ''normal'', O_int (int (mr_normal r))),
                (K_str ''disabled'', O_int (int (mr_disabled r))), (K_str ''orphaned'', O_int (int (mr_orphaned r))),
                (K_str ''updated'', O_int (int (mr_updated r)))]),
             (K_str ''ad_principals'', O_dict [(K_str ''users_total'', O_int (int users)), (K_str ''groups_total'', O_int (int groups)),
                (K_str ''principals_total'', O_int (int (users + groups)))])])])])"

definition finalize_ad_run :: "ad_task_env \<Rightarrow> string \<Rightarrow> nat \<Rightarrow> domain_totals \<Rightarrow> run_db \<Rightarrow> run_error + run_db" where
  "finalize_ad_run env run_id domains_total t db =
    (case ax_model env True (sync_ad_accounts_payload domains_total t) of
       None \<Rightarrow> Inl Summary_invalid
     | Some (_, summary) \<Rightarrow> finalize_run_with_summary (ax_model env) run_id (Some summary)
         (if do_failed t \<noteq> 0 \<and> do_successful t \<noteq> 0 then Some COMPLETED_WITH_ERRORS else None) None False (ax_now env) db)"

definition no_totals :: domain_totals where
  "no_totals = \<lparr>do_results = no_matches, do_fetched = \<lparr>ft_users = 0, ft_groups = 0\<rparr>, do_successful = 0, do_failed = 0\<rparr>"

text \<open>\<^verbatim>\<open>None\<close> when the search of a domain never returns.\<close>

definition sync_ad_accounts ::
  "ad_task_env \<Rightarrow> bool \<Rightarrow> int option \<Rightarrow> string option \<Rightarrow> ad_store \<Rightarrow> (ad_store \<times> ad_outcome) option" where
  "sync_ad_accounts env manual_run created_by run_id st =
    (case resolve_or_start_run (ax_model env) run_id (ax_fresh env) ''sync_ad_accounts'' (''AD '' @ utf8 [0xE5, 0x9F, 0x9F, 0xE8, 0xB4, 0xA6, 0xE6, 0x88, 0xB7, 0xE5, 0x90, 0x8C, 0xE6, 0xAD, 0xA5]) ''ad_sync''
         (if manual_run then ''manual'' else ''scheduled'') created_by None (Some ''/accounts/ledgers?ad_status=disabled'') (ax_now env) (dt_runs st) of
       Inl e \<Rightarrow> Some (st, Ad_raised e)
     | Inr (rid, db) \<Rightarrow>
        let st1 = st\<lparr>dt_runs := db\<rparr>; domains = list_configs (dt_domains st1)
        in (case init_items rid (map (\<lambda>d. \<lparr>ii_type = ''ad_domain'', ii_key = show_int (ad_id d), ii_name = Some (ad_name d),
               ii_instance = None\<rparr>) domains) db of
             Inl e \<Rightarrow> Some (st1, Ad_raised e)
           | Inr db1 \<Rightarrow>
              (case sync_domains env rid domains no_totals (st1\<lparr>dt_runs := db1\<rparr>) of
                 None \<Rightarrow> None
               | Some (st2, Inl e) \<Rightarrow> Some (st2, Ad_raised e)
               | Some (st2, Inr totals) \<Rightarrow> (case finalize_ad_run env rid (length domains) totals (dt_runs st2) of
                   Inl e \<Rightarrow> Some (st2, Ad_raised e)
                 | Inr db2 \<Rightarrow> Some (st2\<lparr>dt_runs := db2\<rparr>, Ad_done)))))"

end
