(* ===== verification/Ad_Isolation.thy ===== *)
theory Ad_Isolation
  imports Ad_Results Ad_Task Run_Items
begin

text \<open>
  A synchronisation of all domains, step by step: every domain is done or has failed on its own, and
  the run says how many.
\<close>

section \<open>What is left of the domains\<close>

abbreviation fetched :: "ad_task_env \<Rightarrow> credential list \<Rightarrow> ad_domain \<Rightarrow> (string + ad_fetch) option" where
  "fetched env credentials domain \<equiv> fetch_principals (ax_env env) credentials domain"

definition delivers :: "ad_task_env \<Rightarrow> credential list \<Rightarrow> ad_domain \<Rightarrow> bool" where
  "delivers env credentials domain = (case fetched env credentials domain of Some (Inr f) \<Rightarrow> True | _ \<Rightarrow> False)"

definition synced_accounts :: "ad_task_env \<Rightarrow> credential list \<Rightarrow> ad_domain list \<Rightarrow> ad_account list \<Rightarrow> ad_account list" where
  "synced_accounts env credentials domains rows = fold (\<lambda>domain rows. case fetched env credentials domain of
       Some (Inr f) \<Rightarrow> fst (match_and_update (ax_now env) domain (af_principals f) rows)
     | _ \<Rightarrow> rows) domains rows"

definition synced_domain :: "ad_task_env \<Rightarrow> credential list \<Rightarrow> string \<Rightarrow> ad_domain \<Rightarrow> ad_domain" where
  "synced_domain env credentials rid domain = (case fetched env credentials domain of
       None \<Rightarrow> domain
     | Some (Inl text) \<Rightarrow> domain\<lparr>ad_sync_at := Some (ax_now env), ad_sync_status := Some ''failed'', ad_sync_run := Some rid, ad_error := Some text\<rparr>
     | Some (Inr f) \<Rightarrow> domain\<lparr>ad_sync_at := Some (ax_now env), ad_sync_status := Some ''success'', ad_sync_run := Some rid, ad_error := None\<rparr>)"

definition domain_item :: "string \<Rightarrow> ad_domain \<Rightarrow> string \<times> string \<times> string" where
  "domain_item rid domain = (rid, ''ad_domain'', show_int (ad_id domain))"

definition domain_status :: "ad_task_env \<Rightarrow> credential list \<Rightarrow> ad_domain list \<Rightarrow> ad_domain \<Rightarrow> string" where
  "domain_status env credentials finished domain =
    (if domain \<in> set finished then if delivers env credentials domain then COMPLETED else FAILED else PENDING)"

text \<open>The store and the totals when the domains \<^verbatim>\<open>finished\<close> of \<^verbatim>\<open>all\<close> are finished.\<close>

definition finished_store :: "ad_task_env \<Rightarrow> string \<Rightarrow> task_run \<Rightarrow> ad_store \<Rightarrow> ad_domain list \<Rightarrow> ad_domain list \<Rightarrow> domain_totals \<Rightarrow> ad_store \<Rightarrow> bool" where
  "finished_store env rid run st0 all finished totals st \<longleftrightarrow>
     find_run rid (dt_runs st) = Some run \<and> dt_credentials st = dt_credentials st0
   \<and> dt_accounts st = synced_accounts env (dt_credentials st0) finished (dt_accounts st0)
   \<and> dt_domains st = map (\<lambda>d. if d \<in> set finished then synced_domain env (dt_credentials st0) rid d else d) (dt_domains st0)
   \<and> item_states rid (dt_runs st) = map (\<lambda>d. (domain_item rid d, domain_status env (dt_credentials st0) finished d)) all
   \<and> do_successful totals = length (filter (delivers env (dt_credentials st0)) finished)
   \<and> do_failed totals = length (filter (\<lambda>d. \<not> delivers env (dt_credentials st0) d) finished)"

lemma domain_item_inject: "inj_on ad_id D \<Longrightarrow> d \<in> D \<Longrightarrow> d' \<in> D \<Longrightarrow> domain_item rid d = domain_item rid d' \<longleftrightarrow> d = d'"
  by (auto simp: domain_item_def inj_on_def)

lemma set_domain_state:
  assumes "inj_on ad_id (set all)" "d \<in> set all"
  shows "set_state (domain_item rid d) x (map (\<lambda>d. (domain_item rid d, s d)) all) = map (\<lambda>d'. (domain_item rid d', (s(d := x)) d')) all"
  using assms by (auto simp: set_state_def domain_item_inject)

text \<open>The three changes of the item of a domain.\<close>

lemma domain_item_changes:
  assumes run: "find_run rid db = Some run" and items: "item_states rid db = map (\<lambda>d. (domain_item rid d, s d)) all"
    and d: "inj_on ad_id (set all)" "d \<in> set all"
  shows "s d \<notin> set task_status_terminal \<Longrightarrow> \<exists>db'. start_item rid ''ad_domain'' (show_int (ad_id d)) now db = Inr db'
      \<and> find_run rid db' = Some run \<and> item_states rid db' = map (\<lambda>d'. (domain_item rid d', (s(d := RUNNING)) d')) all"
    and "s d \<notin> {FAILED, CANCELLED} \<Longrightarrow> \<exists>db'. complete_item rid ''ad_domain'' (show_int (ad_id d)) m e now db = Inr db'
      \<and> find_run rid db' = Some run \<and> item_states rid db' = map (\<lambda>d'. (domain_item rid d', (s(d := COMPLETED)) d')) all"
    and "s d \<noteq> CANCELLED \<Longrightarrow> \<exists>db'. fail_item rid ''ad_domain'' (show_int (ad_id d)) msg e now db = Inr db'
      \<and> find_run rid db' = Some run \<and> item_states rid db' = map (\<lambda>d'. (domain_item rid d', (s(d := FAILED)) d')) all"
proof -
  have present: "(rid, ''ad_domain'', show_int (ad_id d)) \<in> fst ` set (item_states rid db)"
    unfolding items using d(2) by (force simp: domain_item_def)
  have state: "y = s d" if "((rid, ''ad_domain'', show_int (ad_id d)), y) \<in> set (item_states rid db)" for y
    using that d unfolding items by (auto simp: domain_item_inject simp flip: domain_item_def)
  have upd: "set_state (rid, ''ad_domain'', show_int (ad_id d)) x (item_states rid db) = map (\<lambda>d'. (domain_item rid d', (s(d := x)) d')) all" for x
    unfolding items by (rule set_domain_state [OF d, of rid, unfolded domain_item_def [of rid d]])
  show "\<exists>db'. start_item rid ''ad_domain'' (show_int (ad_id d)) now db = Inr db'
      \<and> find_run rid db' = Some run \<and> item_states rid db' = map (\<lambda>d'. (domain_item rid d', (s(d := RUNNING)) d')) all"
    if "s d \<notin> set task_status_terminal"
    by (rule start_item_states [OF run present, unfolded upd]) (metis that state)
  show "\<exists>db'. complete_item rid ''ad_domain'' (show_int (ad_id d)) m e now db = Inr db'
      \<and> find_run rid db' = Some run \<and> item_states rid db' = map (\<lambda>d'. (domain_item rid d', (s(d := COMPLETED)) d')) all"
    if "s d \<notin> {FAILED, CANCELLED}"
    by (rule complete_item_states [OF run present, unfolded upd]) (metis that state)
  show "\<exists>db'. fail_item rid ''ad_domain'' (show_int (ad_id d)) msg e now db = Inr db'
      \<and> find_run rid db' = Some run \<and> item_states rid db' = map (\<lambda>d'. (domain_item rid d', (s(d := FAILED)) d')) all"
    if "s d \<noteq> CANCELLED"
    by (rule fail_item_states [OF run present, unfolded upd]) (metis that state)
qed

lemma mark_domains:
  assumes "inj_on ad_id (set domains)" "d \<in> set domains" "d \<notin> set finished" "\<And>d. ad_id (g d) = ad_id d" "g d = f d"
  shows "map (\<lambda>d'. if ad_id d' = ad_id d then f d' else d') (map (\<lambda>d. if d \<in> set finished then g d else d) domains)
    = map (\<lambda>d'. if d' \<in> set (finished @ [d]) then g d' else d') domains"
  using assms by (auto simp: inj_on_def)

section \<open>One domain\<close>

lemma finish_domain:
  assumes fin: "finished_store env rid run st0 all finished totals st"
    and ids: "inj_on ad_id (set (dt_domains st0))" "set all \<subseteq> set (dt_domains st0)" "d \<in> set all" "d \<notin> set finished"
    and x: "fetched env (dt_credentials st0) d = Some x"
  shows "\<exists>totals' st'. sync_domains env rid (d # domains) totals st = sync_domains env rid domains totals' st'
    \<and> finished_store env rid run st0 all (finished @ [d]) totals' st'"
proof -
  let ?now = "ax_now env" and ?C = "dt_credentials st0" and ?k = "domain_item rid d"
  have run: "find_run rid (dt_runs st) = Some run" and creds: "dt_credentials st = ?C"
    and accounts: "dt_accounts st = synced_accounts env ?C finished (dt_accounts st0)"
    and doms: "dt_domains st = map (\<lambda>d. if d \<in> set finished then synced_domain env ?C rid d else d) (dt_domains st0)"
    and items: "item_states rid (dt_runs st) = map (\<lambda>d. (domain_item rid d, domain_status env ?C finished d)) all"
    and counts: "do_successful totals = length (filter (delivers env ?C) finished)"
      "do_failed totals = length (filter (\<lambda>d. \<not> delivers env ?C d) finished)"
    using fin by (auto simp: finished_store_def)
  have inj: "inj_on ad_id (set all)" using ids(1,2) by (rule inj_on_subset)
  have pending: "domain_status env ?C finished d \<notin> set task_status_terminal" using ids(4) by (simp add: domain_status_def task_status_terminal_def)
  obtain db1 where start: "start_item rid ''ad_domain'' (show_int (ad_id d)) ?now (dt_runs st) = Inr db1"
    and run1: "find_run rid db1 = Some run"
    and items1: "item_states rid db1 = map (\<lambda>d'. (domain_item rid d', ((domain_status env ?C finished)(d := RUNNING)) d')) all"
    using domain_item_changes(1) [OF run items inj ids(3) pending, of ?now] by blast
  have status: "((domain_status env ?C finished)(d := RUNNING))(d := if delivers env ?C d then COMPLETED else FAILED)
      = domain_status env ?C (finished @ [d])"
    by (auto simp: domain_status_def)
  have marked: "dt_domains (mark_domain d ?now y rid e st') = map (\<lambda>d'. if d' \<in> set (finished @ [d]) then synced_domain env ?C rid d' else d') (dt_domains st0)"
    if "dt_domains st' = dt_domains st" "synced_domain env ?C rid d = d\<lparr>ad_sync_at := Some ?now, ad_sync_status := Some y, ad_sync_run := Some rid, ad_error := e\<rparr>"
    for st' y e
  proof -
    have "ad_id (synced_domain env ?C rid d) = ad_id d" for d by (simp add: synced_domain_def split: option.split sum.split)
    note same_ids = this
    have "dt_domains (mark_domain d ?now y rid e st') = map (\<lambda>d'. if ad_id d' = ad_id d
        then d'\<lparr>ad_sync_at := Some ?now, ad_sync_status := Some y, ad_sync_run := Some rid, ad_error := e\<rparr> else d') (dt_domains st')"
      by (simp add: mark_domain_def write_domain_def)
    also have "\<dots> = map (\<lambda>d'. if d' \<in> set (finished @ [d]) then synced_domain env ?C rid d' else d') (dt_domains st0)"
      unfolding that(1) doms using ids(2,3) same_ids that(2) by (intro mark_domains [OF ids(1) _ ids(4)]) auto
    finally show ?thesis .
  qed
  have open_item: "((domain_status env ?C finished)(d := RUNNING)) d \<notin> {FAILED, CANCELLED}"
    "((domain_status env ?C finished)(d := RUNNING)) d \<noteq> CANCELLED" by simp_all
  show ?thesis
  proof (cases x)
    case (Inl why)
    obtain db2 where db2: "fail_item rid ''ad_domain'' (show_int (ad_id d)) why None ?now db1 = Inr db2" "find_run rid db2 = Some run"
      "item_states rid db2 = map (\<lambda>d'. (domain_item rid d', (((domain_status env ?C finished)(d := RUNNING))(d := FAILED)) d')) all"
      using domain_item_changes(3) [OF run1 items1 inj ids(3) open_item(2), of why None ?now] by blast
    have "\<not> delivers env ?C d" using x Inl by (simp add: delivers_def)
    with status db2(3) have "item_states rid db2 = map (\<lambda>d'. (domain_item rid d', domain_status env ?C (finished @ [d]) d')) all" by simp
    moreover have "dt_domains (mark_domain d ?now ''failed'' rid (Some why) (st\<lparr>dt_runs := db1\<rparr>))
        = map (\<lambda>d'. if d' \<in> set (finished @ [d]) then synced_domain env ?C rid d' else d') (dt_domains st0)"
      by (rule marked) (simp_all add: synced_domain_def x Inl)
    ultimately have "finished_store env rid run st0 all (finished @ [d]) (totals\<lparr>do_failed := do_failed totals + 1\<rparr>)
        ((mark_domain d ?now ''failed'' rid (Some why) (st\<lparr>dt_runs := db1\<rparr>))\<lparr>dt_runs := db2\<rparr>)"
      using db2(2) x Inl counts accounts creds
      by (simp add: finished_store_def delivers_def synced_accounts_def mark_domain_def write_domain_def)
    moreover have "sync_domains env rid (d # domains) totals st = sync_domains env rid domains (totals\<lparr>do_failed := do_failed totals + 1\<rparr>)
        ((mark_domain d ?now ''failed'' rid (Some why) (st\<lparr>dt_runs := db1\<rparr>))\<lparr>dt_runs := db2\<rparr>)"
      using start db2(1) x Inl by (simp add: sync_domain_def fail_domain_def creds)
    ultimately show ?thesis by blast
  next
    case (Inr f)
    obtain rows result where m: "match_and_update ?now d (af_principals f) (dt_accounts st) = (rows, result)" by fastforce
    let ?totals = "totals\<lparr>do_results := add_results (do_results totals) result, do_fetched := add_fetch_totals (do_fetched totals) f,
        do_successful := do_successful totals + 1\<rparr>"
    obtain db2 where db2: "complete_item rid ''ad_domain'' (show_int (ad_id d)) (Some (match_metrics result f)) None ?now db1 = Inr db2" "find_run rid db2 = Some run"
      "item_states rid db2 = map (\<lambda>d'. (domain_item rid d', (((domain_status env ?C finished)(d := RUNNING))(d := COMPLETED)) d')) all"
      using domain_item_changes(2) [OF run1 items1 inj ids(3) open_item(1), of "Some (match_metrics result f)" None ?now] by blast
    have "delivers env ?C d" using x Inr by (simp add: delivers_def)
    with status db2(3) have "item_states rid db2 = map (\<lambda>d'. (domain_item rid d', domain_status env ?C (finished @ [d]) d')) all" by simp
    moreover have "dt_domains (mark_domain d ?now ''success'' rid None (st\<lparr>dt_runs := db1, dt_accounts := rows\<rparr>))
        = map (\<lambda>d'. if d' \<in> set (finished @ [d]) then synced_domain env ?C rid d' else d') (dt_domains st0)"
      by (rule marked) (simp_all add: synced_domain_def x Inr)
    moreover have "synced_accounts env ?C (finished @ [d]) (dt_accounts st0) = rows"
      using m accounts by (simp add: synced_accounts_def x Inr)
    ultimately have "finished_store env rid run st0 all (finished @ [d]) ?totals
        ((mark_domain d ?now ''success'' rid None (st\<lparr>dt_runs := db1, dt_accounts := rows\<rparr>))\<lparr>dt_runs := db2\<rparr>)"
      using db2(2) x Inr counts creds
      by (simp add: finished_store_def delivers_def mark_domain_def write_domain_def)
    moreover have "sync_domains env rid (d # domains) totals st = sync_domains env rid domains ?totals
        ((mark_domain d ?now ''success'' rid None (st\<lparr>dt_runs := db1, dt_accounts := rows\<rparr>))\<lparr>dt_runs := db2\<rparr>)"
      using start db2(1) x Inr m by (simp add: sync_domain_def creds)
    ultimately show ?thesis by blast
  qed
qed

section \<open>All domains\<close>

lemma domain_never_returns:
  assumes fin: "finished_store env rid run st0 all finished totals st"
    and ids: "inj_on ad_id (set all)" "d \<in> set all" "d \<notin> set finished"
    and x: "fetched env (dt_credentials st0) d = None"
  shows "sync_domains env rid (d # domains) totals st = None"
proof -
  have run: "find_run rid (dt_runs st) = Some run" and creds: "dt_credentials st = dt_credentials st0"
    and items: "item_states rid (dt_runs st) = map (\<lambda>d. (domain_item rid d, domain_status env (dt_credentials st0) finished d)) all"
    using fin by (auto simp: finished_store_def)
  have "domain_status env (dt_credentials st0) finished d \<notin> set task_status_terminal"
    using ids(3) by (simp add: domain_status_def task_status_terminal_def)
  from domain_item_changes(1) [OF run items ids(1,2) this, of "ax_now env"] x show ?thesis
    by (auto simp: sync_domain_def creds)
qed

lemma sync_all_domains:
  assumes "finished_store env rid run st0 all finished totals st" "finished @ domains = all" "distinct all"
    and "inj_on ad_id (set (dt_domains st0))" "set all \<subseteq> set (dt_domains st0)"
  shows "if \<exists>d \<in> set domains. fetched env (dt_credentials st0) d = None
    then sync_domains env rid domains totals st = None
    else \<exists>totals' st'. sync_domains env rid domains totals st = Some (st', Inr totals') \<and> finished_store env rid run st0 all all totals' st'"
  using assms(1,2)
proof (induction domains arbitrary: finished totals st)
  case Nil
  then show ?case by auto
next
  case (Cons d domains)
  have d: "d \<in> set all" "d \<notin> set finished" using Cons.prems(2) assms(3) by auto
  show ?case
  proof (cases "fetched env (dt_credentials st0) d")
    case None
    then show ?thesis
      using domain_never_returns [OF Cons.prems(1) inj_on_subset [OF assms(4,5)] d] by simp
  next
    case (Some x)
    obtain totals' st' where step: "sync_domains env rid (d # domains) totals st = sync_domains env rid domains totals' st'"
      "finished_store env rid run st0 all (finished @ [d]) totals' st'"
      using finish_domain [OF Cons.prems(1) assms(4,5) d Some] by blast
    have "finished @ [d] @ domains = all" using Cons.prems(2) by simp
    then have "(finished @ [d]) @ domains = all" by simp
    from Cons.IH [OF step(2) this] step(1) Some show ?thesis by auto
  qed
qed

section \<open>The run\<close>

lemma finalize_domains:
  assumes fin: "finished_store env rid run st0 all all totals st" and run: "tr_status run = RUNNING" "tr_task_key run = ''sync_ad_accounts''"
    and M: "\<forall>b v. \<exists>v'. ax_model env b v = Some (''sync_ad_accounts'', v')"
  shows "\<exists>db' run'. finalize_ad_run env rid n totals (dt_runs st) = Inr db' \<and> find_run rid db' = Some run'
    \<and> tr_total run' = length all \<and> tr_completed run' = length (filter (delivers env (dt_credentials st0)) all)
    \<and> tr_completed run' + tr_failed run' = tr_total run'
    \<and> tr_status run' = (if tr_failed run' = 0 then COMPLETED else if tr_completed run' = 0 then FAILED else COMPLETED_WITH_ERRORS)
    \<and> tr_completed_at run' = Some (ax_now env)"
proof -
  let ?C = "dt_credentials st0"
  have found: "find_run rid (dt_runs st) = Some run"
    and items: "item_states rid (dt_runs st) = map (\<lambda>d. (domain_item rid d, domain_status env ?C all d)) all"
    and counts: "do_successful totals = length (filter (delivers env ?C) all)" "do_failed totals = length (filter (\<lambda>d. \<not> delivers env ?C d) all)"
    using fin by (auto simp: finished_store_def)
  have status: "domain_status env ?C all d = (if delivers env ?C d then COMPLETED else FAILED)" if "d \<in> set all" for d
    using that by (simp add: domain_status_def)
  have done_counts: "length (filter (\<lambda>x. snd x = COMPLETED) (item_states rid (dt_runs st))) = do_successful totals"
    "length (filter (\<lambda>x. snd x = FAILED) (item_states rid (dt_runs st))) = do_failed totals"
    "(\<exists>x \<in> set (item_states rid (dt_runs st)). snd x = FAILED) = (do_failed totals \<noteq> 0)"
    unfolding items counts by (auto simp: filter_map o_def status filter_empty_conv intro!: arg_cong [where f = length] filter_cong split: if_splits)
  have ended: "\<forall>x \<in> set (item_states rid (dt_runs st)). snd x \<in> {COMPLETED, FAILED}" unfolding items by (auto simp: status)
  obtain summary where s: "ax_model env True (sync_ad_accounts_payload n totals) = Some (''sync_ad_accounts'', summary)" using M by blast
  have "tr_status run \<notin> {CANCELLED, FAILED}" "\<And>b v. \<exists>v'. ax_model env b v = Some (''sync_ad_accounts'', v')" using run(1) M by auto
  from finalize_states [where M = "ax_model env" and override = "if do_failed totals \<noteq> 0 \<and> do_successful totals \<noteq> 0 then Some COMPLETED_WITH_ERRORS else None"
      and summary = summary and msg = None and clear = False and now = "ax_now env", OF found this(1) run(2) this(2) ended]
  obtain db' run' where "finalize_ad_run env rid n totals (dt_runs st) = Inr db'" "find_run rid db' = Some run'"
    "tr_total run' = length all" "tr_completed run' = do_successful totals" "tr_failed run' = do_failed totals"
    "tr_status run' = (if do_failed totals \<noteq> 0 \<and> do_successful totals \<noteq> 0 then COMPLETED_WITH_ERRORS else if do_failed totals \<noteq> 0 then FAILED else COMPLETED)"
    "tr_completed_at run' = Some (ax_now env)"
    unfolding done_counts by (cases "do_failed totals \<noteq> 0 \<and> do_successful totals \<noteq> 0") (auto simp: finalize_ad_run_def s items)
  moreover have "do_successful totals + do_failed totals = length all" unfolding counts by (rule sum_length_filter_compl)
  ultimately show ?thesis using counts(1) by auto
qed

text \<open>C14: A synchronisation of the domains in a run of its own treats every enabled domain alone: when the
  search of one never returns, the task does not; otherwise it ends, and the accounts are those that
  the domains that deliver their principals, in the order of their names, leave one after the other.
  Every enabled domain is recorded as a success or as failed with its error, all others are left as
  they were. The run counts its domains and ends as completed, as failed when all failed, and as
  completed with errors when some did. The model of the summaries is assumed to accept the payloads,
  the id to be new and the ids of domains and of items to differ.\<close>

theorem ad_sync_isolates_domains:
  assumes "\<forall>b v. \<exists>v'. ax_model env b v = Some (''sync_ad_accounts'', v')"
    and "find_run (ax_fresh env) (dt_runs st) = None"
    and "\<forall>it \<in> set (rdb_items (dt_runs st)). find_run (ti_run it) (dt_runs st) \<noteq> None"
    and "distinct (map item_id (rdb_items (dt_runs st)))" "distinct (map ad_id (dt_domains st))"
  shows "if \<exists>d \<in> set (dt_domains st). ad_enabled d \<and> fetch_principals (ax_env env) (dt_credentials st) d = None
    then sync_ad_accounts env manual_run created_by None st = None
    else \<exists>st' run. sync_ad_accounts env manual_run created_by None st = Some (st', Ad_done)
      \<and> dt_accounts st' = synced_accounts env (dt_credentials st) (list_configs (dt_domains st)) (dt_accounts st)
      \<and> dt_domains st' = map (\<lambda>d. if ad_enabled d then synced_domain env (dt_credentials st) (ax_fresh env) d else d) (dt_domains st)
      \<and> find_run (ax_fresh env) (dt_runs st') = Some run
      \<and> tr_total run = length (list_configs (dt_domains st))
      \<and> tr_completed run = length (filter (delivers env (dt_credentials st)) (list_configs (dt_domains st)))
      \<and> tr_completed run + tr_failed run = tr_total run
      \<and> tr_status run = (if tr_failed run = 0 then COMPLETED else if tr_completed run = 0 then FAILED else COMPLETED_WITH_ERRORS)
      \<and> tr_completed_at run = Some (ax_now env)"
proof -
  let ?fresh = "ax_fresh env" and ?C = "dt_credentials st" and ?all = "list_configs (dt_domains st)"
  let ?inits = "map (\<lambda>d. \<lparr>ii_type = ''ad_domain'', ii_key = show_int (ad_id d), ii_name = Some (ad_name d), ii_instance = None\<rparr>) ?all"
  have inj: "inj_on ad_id (set (dt_domains st))" and "distinct (dt_domains st)" using assms(5) by (auto simp: distinct_map)
  then have all: "distinct ?all" "set ?all = {d \<in> set (dt_domains st). ad_enabled d}" by (auto simp: list_configs_def)
  then have sub: "set ?all \<subseteq> set (dt_domains st)" by blast
  have keys: "distinct (map (\<lambda>i. (ii_type i, ii_key i)) ?inits)"
    using all(1) inj_on_subset [OF inj sub] by (simp add: distinct_map o_def inj_on_def)
  obtain db1 db2 run where start: "resolve_or_start_run (ax_model env) None ?fresh ''sync_ad_accounts'' (''AD '' @ utf8 [0xE5, 0x9F, 0x9F, 0xE8, 0xB4, 0xA6, 0xE6, 0x88, 0xB7, 0xE5, 0x90, 0x8C, 0xE6, 0xAD, 0xA5]) ''ad_sync''
         (if manual_run then ''manual'' else ''scheduled'') created_by None (Some ''/accounts/ledgers?ad_status=disabled'') (ax_now env) (dt_runs st) = Inr (?fresh, db1)"
    and init: "init_items ?fresh ?inits db1 = Inr db2"
    and run: "find_run ?fresh db2 = Some run" "tr_status run = RUNNING" "tr_task_key run = ''sync_ad_accounts''"
    and items: "item_states ?fresh db2 = map (\<lambda>i. ((?fresh, ii_type i, ii_key i), PENDING)) ?inits"
    using started_run [OF assms(1-4) keys] by blast
  let ?st0 = "st\<lparr>dt_runs := db2\<rparr>"
  have "finished_store env ?fresh run ?st0 ?all [] no_totals ?st0"
    using run items by (simp add: finished_store_def synced_accounts_def no_totals_def domain_item_def domain_status_def o_def)
  from sync_all_domains [OF this _ all(1)] inj sub
  have loop: "if \<exists>d \<in> set ?all. fetched env ?C d = None then sync_domains env ?fresh ?all no_totals ?st0 = None
      else \<exists>totals' st'. sync_domains env ?fresh ?all no_totals ?st0 = Some (st', Inr totals') \<and> finished_store env ?fresh run ?st0 ?all ?all totals' st'"
    by simp
  have task: "sync_ad_accounts env manual_run created_by None st = (case sync_domains env ?fresh ?all no_totals ?st0 of
        None \<Rightarrow> None
      | Some (st2, Inl e) \<Rightarrow> Some (st2, Ad_raised e)
      | Some (st2, Inr totals) \<Rightarrow> (case finalize_ad_run env ?fresh (length ?all) totals (dt_runs st2) of
          Inl e \<Rightarrow> Some (st2, Ad_raised e)
        | Inr db2 \<Rightarrow> Some (st2\<lparr>dt_runs := db2\<rparr>, Ad_done)))"
    unfolding sync_ad_accounts_def start by (simp add: Let_def init cong: option.case_cong prod.case_cong sum.case_cong)
  show ?thesis
  proof (cases "\<exists>d \<in> set ?all. fetched env ?C d = None")
    case True
    with loop task all(2) show ?thesis by auto
  next
    case False
    then obtain totals st2 where st2: "sync_domains env ?fresh ?all no_totals ?st0 = Some (st2, Inr totals)"
      "finished_store env ?fresh run ?st0 ?all ?all totals st2" using loop unfolding if_not_P [OF False] by blast
    from finalize_domains [OF st2(2) run(2,3) assms(1), of "length ?all"] obtain db3 run' where
      final: "finalize_ad_run env ?fresh (length ?all) totals (dt_runs st2) = Inr db3" "find_run ?fresh db3 = Some run'"
      "tr_total run' = length ?all" "tr_completed run' = length (filter (delivers env ?C) ?all)" "tr_completed run' + tr_failed run' = tr_total run'"
      "tr_status run' = (if tr_failed run' = 0 then COMPLETED else if tr_completed run' = 0 then FAILED else COMPLETED_WITH_ERRORS)"
      "tr_completed_at run' = Some (ax_now env)" by auto
    have "dt_accounts st2 = synced_accounts env ?C ?all (dt_accounts st)"
      "dt_domains st2 = map (\<lambda>d. if ad_enabled d then synced_domain env ?C ?fresh d else d) (dt_domains st)"
      using st2(2) all(2) by (auto simp: finished_store_def)
    with task st2(1) final(1) have "sync_ad_accounts env manual_run created_by None st = Some (st2\<lparr>dt_runs := db3\<rparr>, Ad_done)"
      "dt_accounts (st2\<lparr>dt_runs := db3\<rparr>) = synced_accounts env ?C ?all (dt_accounts st)"
      "dt_domains (st2\<lparr>dt_runs := db3\<rparr>) = map (\<lambda>d. if ad_enabled d then synced_domain env ?C ?fresh d else d) (dt_domains st)"
      "find_run ?fresh (dt_runs (st2\<lparr>dt_runs := db3\<rparr>)) = Some run'" using final(2) by simp_all
    moreover have "\<not> (\<exists>d \<in> set (dt_domains st). ad_enabled d \<and> fetched env ?C d = None)" using False all(2) by auto
    ultimately show ?thesis using final(3-7) by auto
  qed
qed

text \<open>Two enabled domains, one of which names no controller.\<close>

definition users_only :: ldap_search where
  "users_only n search_filter cookie = (if search_filter = USER_FILTER then two_pages n search_filter cookie else Inr (answer_with [] (PStr [])))"

definition example_env :: ad_task_env where
  "example_env = \<lparr>ax_env = \<lparr>ae_connect = \<lambda>config credential controller. Inr users_only, ae_container = \<lambda>_. [], ae_repr = \<lambda>_. [],
       ae_parse_dn = \<lambda>dn. Some [(''DC'', ''corp'')]\<rparr>,
     ax_model = \<lambda>b v. Some (''sync_ad_accounts'', v), ax_now = 9, ax_fresh = ''run''\<rparr>"

definition example_store :: ad_store where
  "example_store = \<lparr>dt_domains = [example_domain, example_domain\<lparr>ad_id := 6, ad_name := ''lab'', ad_controllers := PNone\<rparr>,
       example_domain\<lparr>ad_id := 7, ad_enabled := False\<rparr>],
     dt_accounts = example_accounts, dt_credentials = [\<lparr>cd_id = 1, cd_type = ''ldap'', cd_username = ''u'', cd_password = ''p'', cd_active = True\<rparr>],
     dt_runs = \<lparr>rdb_runs = [], rdb_items = []\<rparr>\<rparr>"

lemma ad_sync_isolates_domains_witness:
  "\<exists>st' run. sync_ad_accounts example_env False None None example_store = Some (st', Ad_done)
     \<and> find_run ''run'' (dt_runs st') = Some run \<and> tr_status run = COMPLETED_WITH_ERRORS \<and> tr_total run = 2
     \<and> map ad_sync_status (dt_domains st') = [Some ''success'', Some ''failed'', None]
     \<and> map da_disabled_at (dt_accounts st') = [Some 4, None, None, None] \<and> map da_orphaned_at (dt_accounts st') = [None, None, Some 9, None]"
proof -
  have M: "\<forall>b v. \<exists>v'. ax_model example_env b v = Some (''sync_ad_accounts'', v')" by (simp add: example_env_def)
  have "find_run (ax_fresh example_env) (dt_runs example_store) = None" "distinct (map ad_id (dt_domains example_store))"
    "\<forall>it \<in> set (rdb_items (dt_runs example_store)). find_run (ti_run it) (dt_runs example_store) \<noteq> None"
    "distinct (map item_id (rdb_items (dt_runs example_store)))"
    by code_simp+
  note result = ad_sync_isolates_domains [OF M this(1,3,4,2), of False None]
  have ends: "\<not> (\<exists>d \<in> set (dt_domains example_store). ad_enabled d \<and> fetched example_env0 (dt_credentials example_store) d = None)"
    if "example_env0 = example_env" for example_env0
    unfolding that by code_simp
  have facts: "length (list_configs (dt_domains example_store)) = 2"
    "length (filter (delivers example_env (dt_credentials example_store)) (list_configs (dt_domains example_store))) = 1"
    "ax_fresh example_env = ''run''"
    by code_simp+
  have "map da_disabled_at (synced_accounts example_env (dt_credentials example_store) (list_configs (dt_domains example_store)) (dt_accounts example_store))
      = [Some 4, None, None, None]"
    "map da_orphaned_at (synced_accounts example_env (dt_credentials example_store) (list_configs (dt_domains example_store)) (dt_accounts example_store))
      = [None, None, Some 9, None]"
    "map (\<lambda>d. ad_sync_status (if ad_enabled d then synced_domain example_env (dt_credentials example_store) (ax_fresh example_env) d else d))
       (dt_domains example_store) = [Some ''success'', Some ''failed'', None]"
    by code_simp+
  with result [unfolded if_not_P [OF ends [OF refl]]] facts show ?thesis
    by (auto simp: o_def)
qed

end
