(* ===== verification/Ad_Config.thy ===== *)
theory Ad_Config
  imports Ad_Isolation
begin

text \<open>
  The configuration of the domains: the payload of
  \<^verbatim>\<open>app/schemas/ad_domain_config.py\<close> and \<^verbatim>\<open>AdDomainConfigService\<close> of
  \<^verbatim>\<open>app/services/ad_sync/ad_domain_config_service.py\<close>, which keeps the NetBIOS names of enabled
  domains apart. What follows for a synchronisation: every account has one domain at most.
\<close>

section \<open>The payload\<close>

record ad_payload =
  py_name :: string
  py_netbios :: string
  py_controllers :: "string list"
  py_port :: int
  py_use_ssl :: bool
  py_verify_ssl :: "bool option"
  py_base_dn :: string
  py_credential :: int
  py_enabled :: bool
  py_description :: "string option"

text \<open>What a field may raise: an error of validation, or the \<^verbatim>\<open>TypeError\<close> of a flag that is no number.\<close>

datatype payload_error = Field_invalid | Field_type

definition required_text :: "pv \<Rightarrow> payload_error + string" where
  "required_text value = (case value of
     PStr s \<Rightarrow> let cleaned = strip s in if cleaned = [] then Inl Field_invalid else Inr cleaned
   | _ \<Rightarrow> Inl Field_invalid)"

definition parse_domain_controllers :: "(pv \<Rightarrow> string) \<Rightarrow> pv \<Rightarrow> payload_error + string list" where
  "parse_domain_controllers container value =
    (let controllers = normalize_controllers container value in if controllers = [] then Inl Field_invalid else Inr controllers)"

definition parse_int :: "pv \<Rightarrow> int \<Rightarrow> payload_error + int" where
  "parse_int value default_value = (case value of
     PNone \<Rightarrow> Inr default_value
   | PBool b \<Rightarrow> Inl Field_type
   | PInt n \<Rightarrow> Inr n
   | PStr s \<Rightarrow> let stripped = strip s in
       if stripped = [] then Inr default_value else (case py_int stripped of None \<Rightarrow> Inl Field_invalid | Some n \<Rightarrow> Inr n)
   | _ \<Rightarrow> Inl Field_invalid)"

definition parse_positive_int :: "pv \<Rightarrow> payload_error + int" where
  "parse_positive_int value = (case parse_int value 0 of
     Inl e \<Rightarrow> Inl e | Inr parsed \<Rightarrow> if parsed \<le> 0 then Inl Field_invalid else Inr parsed)"

definition unwrap_sequence :: "pv \<Rightarrow> pv" where
  "unwrap_sequence value = (case value of PList [] \<Rightarrow> PNone | PList (x # xs) \<Rightarrow> last (x # xs) | _ \<Rightarrow> value)"

definition as_bool :: "pv \<Rightarrow> bool \<Rightarrow> bool" where
  "as_bool value default_value = (case unwrap_sequence value of
     PNone \<Rightarrow> default_value
   | PBool b \<Rightarrow> b
   | PInt n \<Rightarrow> n \<noteq> 0
   | PStr s \<Rightarrow> let normalized = lower (strip s) in
       if normalized \<in> {''true'', ''1'', ''yes'', ''on''} then True
       else if normalized \<in> {''false'', ''0'', ''no'', ''off''} then False else default_value
   | _ \<Rightarrow> default_value)"

definition parse_optional_bool :: "pv \<Rightarrow> bool option" where
  "parse_optional_bool value = (if value = PNone \<or> value = PStr [] then None else Some (as_bool value True))"

definition parse_text :: "(pv \<Rightarrow> string) \<Rightarrow> pv \<Rightarrow> string" where
  "parse_text container value = (case value of PNone \<Rightarrow> [] | PStr s \<Rightarrow> strip s | _ \<Rightarrow> strip (py_str container value))"

definition field_or :: "pdict \<Rightarrow> string \<Rightarrow> pv \<Rightarrow> pv" where
  "field_or data key default_value = (if dhas data key then dget data key else default_value)"

text \<open>The validation collects the errors of all fields, but a \<^verbatim>\<open>TypeError\<close> ends it.\<close>

definition ad_domain_config_payload :: "ad_env \<Rightarrow> pdict \<Rightarrow> payload_error + ad_payload" where
  "ad_domain_config_payload env data =
    (let container = ae_container env;
         port = parse_positive_int (field_or data ''ldap_port'' (PInt 636));
         credential_id = (if dhas data ''credential_id'' then parse_positive_int (dget data ''credential_id'') else Inl Field_invalid);
         base_dn = (case dget data ''base_dn'' of PStr s \<Rightarrow> validate_ad_base_dn env s | _ \<Rightarrow> Inl [])
     in if port = Inl Field_type \<or> credential_id = Inl Field_type then Inl Field_type
        else (case (required_text (dget data ''name''), required_text (dget data ''netbios_name''),
              parse_domain_controllers container (dget data ''domain_controllers''), port, base_dn, credential_id) of
            (Inr name, Inr netbios_name, Inr controllers, Inr ldap_port, Inr dn, Inr credential) \<Rightarrow>
              Inr \<lparr>py_name = name, py_netbios = netbios_name, py_controllers = controllers, py_port = ldap_port,
                py_use_ssl = as_bool (field_or data ''use_ssl'' (PBool True)) True,
                py_verify_ssl = parse_optional_bool (dget data ''verify_ssl''), py_base_dn = dn, py_credential = credential,
                py_enabled = as_bool (field_or data ''is_enabled'' (PBool True)) True,
                py_description = (let cleaned = parse_text container (dget data ''description'') in if cleaned = [] then None else Some cleaned)\<rparr>
          | _ \<Rightarrow> Inl Field_invalid))"

section \<open>The service\<close>

datatype ad_config_error = Config_not_found | Credential_not_found | Credential_not_ldap | Credential_inactive
  | Netbios_taken | Name_taken

text \<open>The repository.\<close>

definition config_by_id :: "int \<Rightarrow> ad_domain list \<Rightarrow> ad_domain option" where
  "config_by_id i = find (\<lambda>d. ad_id d = i)"

definition active_netbios_exists :: "string \<Rightarrow> int option \<Rightarrow> ad_domain list \<Rightarrow> bool" where
  "active_netbios_exists netbios_name exclude_id rows =
    (filter (\<lambda>d. ad_enabled d \<and> lower (ad_netbios d) = lower (strip netbios_name) \<and> Some (ad_id d) \<noteq> exclude_id) rows \<noteq> [])"

definition ensure_credential :: "int \<Rightarrow> credential list \<Rightarrow> ad_config_error option" where
  "ensure_credential credential_id credentials = (case find (\<lambda>c. cd_id c = credential_id) credentials of
     None \<Rightarrow> Some Credential_not_found
   | Some c \<Rightarrow> if lower (cd_type c) \<noteq> ''ldap'' then Some Credential_not_ldap
       else if \<not> cd_active c then Some Credential_inactive else None)"

definition ensure_netbios_available :: "string \<Rightarrow> int option \<Rightarrow> bool \<Rightarrow> ad_domain list \<Rightarrow> ad_config_error option" where
  "ensure_netbios_available netbios_name exclude_id is_enabled rows =
    (if is_enabled \<and> active_netbios_exists netbios_name exclude_id rows then Some Netbios_taken else None)"

definition set_fields :: "ad_payload \<Rightarrow> ad_domain \<Rightarrow> ad_domain" where
  "set_fields payload d = d\<lparr>ad_name := py_name payload, ad_netbios := py_netbios payload,
     ad_controllers := PList (map PStr (py_controllers payload)), ad_port := py_port payload, ad_use_ssl := py_use_ssl payload,
     ad_verify_ssl := py_verify_ssl payload, ad_base_dn := py_base_dn payload, ad_credential := py_credential payload,
     ad_enabled := py_enabled payload, ad_description := py_description payload\<rparr>"

definition new_config :: "int \<Rightarrow> ad_payload \<Rightarrow> ad_domain" where
  "new_config i payload = set_fields payload \<lparr>ad_id = i, ad_name = [], ad_netbios = [], ad_controllers = PNone, ad_port = 0,
     ad_use_ssl = True, ad_verify_ssl = None, ad_base_dn = [], ad_credential = 0, ad_enabled = True, ad_description = None,
     ad_sync_at = None, ad_sync_status = None, ad_sync_run = None, ad_error = None\<rparr>"

text \<open>Rows are written under the unique constraint on the name.\<close>

definition write_configs :: "ad_domain list \<Rightarrow> ad_config_error + ad_domain list" where
  "write_configs rows = (if distinct (map ad_name rows) then Inr rows else Inl Name_taken)"

text \<open>\<^verbatim>\<open>fresh\<close> is the next value of the sequence of the ids.\<close>

definition create_config :: "credential list \<Rightarrow> int \<Rightarrow> ad_payload \<Rightarrow> ad_domain list \<Rightarrow> ad_config_error + ad_domain list" where
  "create_config credentials fresh payload rows =
    (case ensure_credential (py_credential payload) credentials of
       Some e \<Rightarrow> Inl e
     | None \<Rightarrow> (case ensure_netbios_available (py_netbios payload) None (py_enabled payload) rows of
         Some e \<Rightarrow> Inl e
       | None \<Rightarrow> write_configs (rows @ [new_config fresh payload])))"

definition update_config :: "credential list \<Rightarrow> int \<Rightarrow> ad_payload \<Rightarrow> ad_domain list \<Rightarrow> ad_config_error + ad_domain list" where
  "update_config credentials config_id payload rows =
    (case config_by_id config_id rows of
       None \<Rightarrow> Inl Config_not_found
     | Some config \<Rightarrow> (case ensure_credential (py_credential payload) credentials of
         Some e \<Rightarrow> Inl e
       | None \<Rightarrow> (case ensure_netbios_available (py_netbios payload) (Some (ad_id config)) (py_enabled payload) rows of
           Some e \<Rightarrow> Inl e
         | None \<Rightarrow> write_configs (map (\<lambda>d. if ad_id d = ad_id config then set_fields payload d else d) rows))))"

definition set_config_enabled :: "int \<Rightarrow> bool \<Rightarrow> ad_domain list \<Rightarrow> ad_config_error + ad_domain list" where
  "set_config_enabled config_id is_enabled rows =
    (case config_by_id config_id rows of
       None \<Rightarrow> Inl Config_not_found
     | Some config \<Rightarrow> (case (if is_enabled then ensure_netbios_available (ad_netbios config) (Some (ad_id config)) True rows else None) of
         Some e \<Rightarrow> Inl e
       | None \<Rightarrow> write_configs (map (\<lambda>d. if ad_id d = ad_id config then d\<lparr>ad_enabled := is_enabled\<rparr> else d) rows)))"

definition delete_config :: "int \<Rightarrow> ad_domain list \<Rightarrow> ad_config_error + ad_domain list" where
  "delete_config config_id rows =
    (case config_by_id config_id rows of
       None \<Rightarrow> Inl Config_not_found
     | Some config \<Rightarrow> Inr (filter (\<lambda>d. ad_id d \<noteq> ad_id config) rows))"

section \<open>The step relation\<close>

text \<open>The requests to the service, with payloads that passed the validation, and what a synchronisation writes.\<close>

inductive config_step :: "ad_env \<Rightarrow> ad_domain list \<Rightarrow> ad_domain list \<Rightarrow> bool" for env where
  create: "ad_domain_config_payload env data = Inr payload \<Longrightarrow> fresh \<notin> ad_id ` set rows
    \<Longrightarrow> create_config credentials fresh payload rows = Inr rows' \<Longrightarrow> config_step env rows rows'"
| update: "ad_domain_config_payload env data = Inr payload \<Longrightarrow> update_config credentials config_id payload rows = Inr rows'
    \<Longrightarrow> config_step env rows rows'"
| enable: "set_config_enabled config_id is_enabled rows = Inr rows' \<Longrightarrow> config_step env rows rows'"
| delete: "delete_config config_id rows = Inr rows' \<Longrightarrow> config_step env rows rows'"
| sync: "rows' = map (\<lambda>d. if ad_enabled d then synced_domain tenv credentials rid d else d) rows \<Longrightarrow> config_step env rows rows'"

definition configs_valid :: "ad_domain list \<Rightarrow> bool" where
  "configs_valid rows \<longleftrightarrow> distinct (map ad_id rows) \<and> distinct (map ad_name rows)
     \<and> distinct (map (\<lambda>d. lower (ad_netbios d)) (filter ad_enabled rows))
     \<and> (\<forall>d \<in> set rows. strip (ad_netbios d) = ad_netbios d \<and> ad_netbios d \<noteq> [] \<and> ad_name d \<noteq> [])"

section \<open>The names of enabled domains\<close>

lemma strip_idem [simp]: "strip (strip s) = strip s"
proof -
  define t where "t = dropWhile is_space s"
  define u where "u = dropWhile is_space (rev t)"
  have "dropWhile is_space (rev u) = rev u"
  proof (cases "u = []")
    case False
    have "last u = last (rev t)" using False takeWhile_dropWhile_id [of is_space "rev t"] unfolding u_def by (metis last_appendR)
    moreover have "t \<noteq> []" using False unfolding u_def by force
    ultimately have "hd (rev u) = hd t" using False by (simp add: hd_rev last_rev)
    moreover have "\<not> is_space (hd t)" using \<open>t \<noteq> []\<close> unfolding t_def by (rule hd_dropWhile)
    ultimately show ?thesis by (simp add: dropWhile_eq_self_iff)
  qed simp
  then have "strip (rev u) = rev (dropWhile is_space u)" by (simp add: strip_def)
  then show ?thesis by (simp add: strip_def u_def t_def)
qed

lemma distinct_by:
  assumes "distinct (map ad_id rows)"
  shows "distinct (map g (filter P rows)) \<longleftrightarrow> (\<forall>d \<in> set rows. \<forall>d' \<in> set rows. P d \<longrightarrow> P d' \<longrightarrow> g d = g d' \<longrightarrow> ad_id d = ad_id d')"
proof -
  have "distinct rows" "inj_on ad_id (set rows)" using assms by (simp_all add: distinct_map)
  then show ?thesis by (auto simp: distinct_map inj_on_def)
qed

lemma payload_valid: "ad_domain_config_payload env data = Inr payload \<Longrightarrow>
    strip (py_netbios payload) = py_netbios payload \<and> py_netbios payload \<noteq> [] \<and> py_name payload \<noteq> []"
  by (auto simp: ad_domain_config_payload_def required_text_def Let_def split: if_splits sum.splits pv.splits)

lemma found_config: "config_by_id i rows = Some d \<Longrightarrow> d \<in> set rows \<and> ad_id d = i"
  by (auto simp: config_by_id_def find_Some_iff)

lemma netbios_free: "ensure_netbios_available name exclude_id True rows = None
    \<longleftrightarrow> (\<forall>d \<in> set rows. ad_enabled d \<longrightarrow> Some (ad_id d) \<noteq> exclude_id \<longrightarrow> lower (ad_netbios d) \<noteq> lower (strip name))"
  by (auto simp: ensure_netbios_available_def active_netbios_exists_def filter_empty_conv)

lemma disabled_free: "ensure_netbios_available name exclude_id False rows = None"
  by (simp add: ensure_netbios_available_def)

text \<open>Changing one row.\<close>

lemma change_config:
  assumes valid: "configs_valid rows" and i: "i \<in> ad_id ` set rows" and "\<And>d. ad_id (f d) = ad_id d"
    and names: "distinct (map ad_name (map (\<lambda>d. if ad_id d = i then f d else d) rows))"
    and fields: "\<And>d. d \<in> set rows \<Longrightarrow> ad_id d = i \<Longrightarrow> strip (ad_netbios (f d)) = ad_netbios (f d) \<and> ad_netbios (f d) \<noteq> [] \<and> ad_name (f d) \<noteq> []"
    and free: "\<And>d d'. d \<in> set rows \<Longrightarrow> ad_id d = i \<Longrightarrow> ad_enabled (f d) \<Longrightarrow> d' \<in> set rows \<Longrightarrow> ad_id d' \<noteq> i \<Longrightarrow> ad_enabled d'
      \<Longrightarrow> lower (ad_netbios d') \<noteq> lower (ad_netbios (f d))"
  shows "configs_valid (map (\<lambda>d. if ad_id d = i then f d else d) rows)"
proof -
  let ?h = "\<lambda>d. if ad_id d = i then f d else d"
  have ids: "ad_id (?h d) = ad_id d" for d using assms(3) by simp
  have same: "map ad_id (map ?h rows) = map ad_id rows" by (simp only: map_map o_def ids)
  have distinct: "distinct (map ad_id (map ?h rows))" unfolding same using valid by (simp add: configs_valid_def)
  have old: "\<forall>d \<in> set rows. \<forall>d' \<in> set rows. ad_enabled d \<longrightarrow> ad_enabled d' \<longrightarrow> lower (ad_netbios d) = lower (ad_netbios d') \<longrightarrow> ad_id d = ad_id d'"
    by (rule distinct_by [THEN iffD1]) (use valid in \<open>simp_all add: configs_valid_def\<close>)
  have "ad_id (?h d) = ad_id (?h d')" if "d \<in> set rows" "d' \<in> set rows" "ad_enabled (?h d)" "ad_enabled (?h d')"
    "lower (ad_netbios (?h d)) = lower (ad_netbios (?h d'))" for d d'
  proof (cases "ad_id d = i \<longleftrightarrow> ad_id d' = i")
    case True
    show ?thesis
    proof (cases "ad_id d = i")
      case False
      then have "ad_id d' \<noteq> i" using True by simp
      with False that(3-5) have "ad_enabled d" "ad_enabled d'" "lower (ad_netbios d) = lower (ad_netbios d')" by simp_all
      then show ?thesis unfolding ids using that(1,2) old by blast
    qed (use True ids [of d] ids [of d'] in simp)
  next
    case False
    then have False using that free [of d d'] free [of d' d] by (cases "ad_id d = i") simp_all
    then show ?thesis ..
  qed
  then have "distinct (map (\<lambda>d. lower (ad_netbios d)) (filter ad_enabled (map ?h rows)))"
    unfolding distinct_by [OF distinct] set_map by blast
  with distinct names fields valid show ?thesis by (auto simp: configs_valid_def)
qed

lemma config_step_valid:
  assumes "config_step env rows rows'" "configs_valid rows"
  shows "configs_valid rows'"
  using assms(1)
proof cases
  case (create data payload fresh credentials)
  let ?d = "new_config fresh payload"
  note payload = payload_valid [OF create(1)]
  have rows': "rows' = rows @ [?d]" "distinct (map ad_name (rows @ [?d]))"
    and free: "ensure_netbios_available (py_netbios payload) None (py_enabled payload) rows = None"
    using create(3) by (auto simp: create_config_def write_configs_def split: option.splits if_splits)
  have d: "ad_id ?d = fresh" "ad_netbios ?d = py_netbios payload" "ad_enabled ?d = py_enabled payload" "ad_name ?d = py_name payload"
    by (simp_all add: new_config_def set_fields_def)
  have "lower (ad_netbios d') \<noteq> lower (py_netbios payload)" if "py_enabled payload" "d' \<in> set rows" "ad_enabled d'" for d'
    using free that payload by (simp add: netbios_free)
  then show ?thesis
    using assms(2) rows' create(2) payload d by (auto simp: configs_valid_def) blast
next
  case (update data payload credentials config_id)
  note payload = payload_valid [OF update(1)]
  obtain config where config: "config_by_id config_id rows = Some config"
    and free: "ensure_netbios_available (py_netbios payload) (Some (ad_id config)) (py_enabled payload) rows = None"
    and rows': "rows' = map (\<lambda>d. if ad_id d = ad_id config then set_fields payload d else d) rows" "distinct (map ad_name rows')"
    using update(2) by (auto simp: update_config_def write_configs_def split: option.splits if_splits)
  show ?thesis unfolding rows'(1)
  proof (rule change_config [OF assms(2)])
    show "ad_id config \<in> ad_id ` set rows" using found_config [OF config] by blast
    show "distinct (map ad_name (map (\<lambda>d. if ad_id d = ad_id config then set_fields payload d else d) rows))"
      using rows' by simp
  qed (use payload free in \<open>auto simp: set_fields_def netbios_free\<close>)
next
  case (enable config_id is_enabled)
  obtain config where config: "config_by_id config_id rows = Some config"
    and free: "is_enabled \<Longrightarrow> ensure_netbios_available (ad_netbios config) (Some (ad_id config)) True rows = None"
    and rows': "rows' = map (\<lambda>d. if ad_id d = ad_id config then d\<lparr>ad_enabled := is_enabled\<rparr> else d) rows" "distinct (map ad_name rows')"
    using enable by (auto simp: set_config_enabled_def write_configs_def split: option.splits if_splits)
  have unique: "d = config" if "d \<in> set rows" "ad_id d = ad_id config" for d
    using assms(2) found_config [OF config] that by (auto simp: configs_valid_def distinct_map inj_on_def)
  show ?thesis unfolding rows'(1)
  proof (rule change_config [OF assms(2)])
    show "ad_id config \<in> ad_id ` set rows" using found_config [OF config] by blast
    show "distinct (map ad_name (map (\<lambda>d. if ad_id d = ad_id config then d\<lparr>ad_enabled := is_enabled\<rparr> else d) rows))"
      using rows' by simp
  next
    fix d d'
    assume d: "d \<in> set rows" "ad_id d = ad_id config" "ad_enabled (d\<lparr>ad_enabled := is_enabled\<rparr>)" "d' \<in> set rows" "ad_id d' \<noteq> ad_id config" "ad_enabled d'"
    have "strip (ad_netbios config) = ad_netbios config" using assms(2) found_config [OF config] by (simp add: configs_valid_def)
    with d unique [OF d(1,2)] free show "lower (ad_netbios d') \<noteq> lower (ad_netbios (d\<lparr>ad_enabled := is_enabled\<rparr>))"
      by (auto simp: netbios_free)
  qed (use assms(2) in \<open>auto simp: configs_valid_def\<close>)
next
  case (delete config_id)
  then obtain i where "rows' = filter (\<lambda>d. ad_id d \<noteq> i) rows"
    by (auto simp: delete_config_def split: option.splits intro: that)
  moreover have "filter ad_enabled (filter (\<lambda>d. ad_id d \<noteq> i) rows) = filter (\<lambda>d. ad_id d \<noteq> i) (filter ad_enabled rows)"
    by (simp add: conj_commute)
  ultimately show ?thesis using assms(2) by (simp add: configs_valid_def distinct_map_filter del: filter_filter)
next
  case (sync tenv credentials rid)
  let ?h = "\<lambda>d. if ad_enabled d then synced_domain tenv credentials rid d else d"
  have h: "ad_id (?h d) = ad_id d" "ad_name (?h d) = ad_name d" "ad_netbios (?h d) = ad_netbios d" "ad_enabled (?h d) = ad_enabled d" for d
    by (simp_all add: synced_domain_def split: option.split sum.split)
  have "map ad_id rows' = map ad_id rows" "map ad_name rows' = map ad_name rows"
    "map (\<lambda>d. lower (ad_netbios d)) (filter ad_enabled rows') = map (\<lambda>d. lower (ad_netbios d)) (filter ad_enabled rows)"
    unfolding sync by (simp_all add: h filter_map o_def)
  moreover have "\<forall>d \<in> set rows'. strip (ad_netbios d) = ad_netbios d \<and> ad_netbios d \<noteq> [] \<and> ad_name d \<noteq> []"
  proof
    fix d' assume "d' \<in> set rows'"
    then obtain d where "d \<in> set rows" "d' = ?h d" unfolding sync by auto
    then show "strip (ad_netbios d') = ad_netbios d' \<and> ad_netbios d' \<noteq> [] \<and> ad_name d' \<noteq> []"
      using assms(2) unfolding configs_valid_def by (simp only: h) blast
  qed
  ultimately show ?thesis using assms(2) by (simp add: configs_valid_def)
qed

lemma configs_stay_valid:
  assumes "(config_step env)\<^sup>*\<^sup>* [] rows"
  shows "configs_valid rows"
  using assms by (induction rule: rtranclp_induct) (auto simp: configs_valid_def [of "[]"] intro: config_step_valid)

section \<open>The domain of an account\<close>

text \<open>What one domain does to an account, when it delivers its principals.\<close>

definition synced_row :: "ad_task_env \<Rightarrow> credential list \<Rightarrow> ad_domain \<Rightarrow> ad_account \<Rightarrow> ad_account" where
  "synced_row env credentials domain a = (case fetched env credentials domain of
     Some (Inr f) \<Rightarrow> matched_row (ax_now env) domain (normalized_principals (af_principals f)) a
   | _ \<Rightarrow> a)"

lemma synced_rows: "synced_accounts env credentials domains rows = map (\<lambda>a. fold (synced_row env credentials) domains a) rows"
proof (induction domains arbitrary: rows)
  case (Cons d domains)
  have "(case fetched env credentials d of Some (Inr f) \<Rightarrow> fst (match_and_update (ax_now env) d (af_principals f) rows) | _ \<Rightarrow> rows)
      = map (synced_row env credentials d) rows"
  proof (cases "fetched env credentials d")
    case (Some x)
    then show ?thesis by (cases x) (simp_all add: synced_row_def [abs_def] match_and_update_def match_rows_exact)
  qed (simp add: synced_row_def [abs_def])
  with Cons show ?case by (simp add: synced_accounts_def)
qed (simp add: synced_accounts_def)

lemma synced_row_claims [simp]: "is_domain_account d' (synced_row env credentials d a) = is_domain_account d' a"
  by (simp add: synced_row_def split: option.split sum.split)

lemma synced_row_other: "\<not> is_domain_account d a \<Longrightarrow> synced_row env credentials d a = a"
  by (simp add: synced_row_def matched_row_def split: option.split sum.split)

lemma synced_none: "\<forall>d \<in> set ds. \<not> is_domain_account d a \<Longrightarrow> fold (synced_row env credentials) ds a = a"
  by (induction ds) (simp_all add: synced_row_other)

lemma synced_one:
  assumes "distinct ds" "d \<in> set ds" "\<forall>d' \<in> set ds. is_domain_account d' a \<longrightarrow> d' = d"
  shows "fold (synced_row env credentials) ds a = synced_row env credentials d a"
proof -
  obtain xs ys where ds: "ds = xs @ d # ys" using assms(2) split_list by metis
  have "d \<notin> set xs" "d \<notin> set ys" using assms(1) unfolding ds by auto
  then have "\<forall>d' \<in> set xs. \<not> is_domain_account d' a" "\<forall>d' \<in> set ys. \<not> is_domain_account d' (synced_row env credentials d a)"
    using assms(3) unfolding ds synced_row_claims by (metis in_set_conv_decomp list.set_intros(2) Un_iff set_append)+
  then show ?thesis unfolding ds by (simp only: fold_append fold.simps o_apply synced_none)
qed

lemma lower_char_backslash: "lower_char c = BACKSLASH \<longleftrightarrow> c = BACKSLASH"
proof
  assume lc: "lower_char c = BACKSLASH"
  show "c = BACKSLASH"
  proof (cases "65 \<le> (of_char c :: nat) \<and> (of_char c :: nat) \<le> 90")
    case True
    then have "of_char (lower_char c) = (of_char c + 32 :: nat)" by (simp add: lower_char_def Let_def)
    moreover have "of_char BACKSLASH = (92 :: nat)" by (simp add: BACKSLASH_def)
    ultimately show ?thesis using lc True by simp
  next
    case False
    then show ?thesis using lc by (auto simp: lower_char_def Let_def)
  qed
qed (simp add: lower_char_def BACKSLASH_def Let_def)

lemma prefix_names_domain:
  assumes "has_domain_prefix n u" "strip n = n" "BACKSLASH \<notin> set n"
  shows "takeWhile (\<lambda>c. c \<noteq> BACKSLASH) (lower u) = lower n"
proof -
  have free: "\<forall>c \<in> set (lower n). c \<noteq> BACKSLASH" using assms(3) by (auto simp: lower_def lower_char_backslash)
  have "take (length (lower n @ [BACKSLASH])) (lower u) = lower n @ [BACKSLASH]"
    using assms(1,2) by (simp add: has_domain_prefix_def Let_def)
  then obtain rest where "lower u = (lower n @ [BACKSLASH]) @ rest" by (metis append_take_drop_id)
  then show ?thesis using free by (simp add: takeWhile_append)
qed

text \<open>The enabled domain of an account.\<close>

definition domain_of :: "ad_domain list \<Rightarrow> ad_account \<Rightarrow> ad_domain option" where
  "domain_of rows a = find (\<lambda>d. ad_enabled d \<and> is_domain_account d a) rows"

lemma valid_domains:
  assumes "(config_step env)\<^sup>*\<^sup>* [] rows"
  shows "distinct (map ad_id rows) \<and> distinct (map ad_name rows)"
    and "distinct (map (\<lambda>d. lower (ad_netbios d)) (filter ad_enabled rows))"
    and "\<forall>d \<in> set rows. strip (ad_netbios d) = ad_netbios d \<and> ad_netbios d \<noteq> []"
    and "(\<forall>d \<in> set rows. BACKSLASH \<notin> set (ad_netbios d)) \<longrightarrow>
      synced_accounts tenv credentials (list_configs rows) accounts = map (\<lambda>a. case domain_of rows a of
          None \<Rightarrow> a
        | Some d \<Rightarrow> (case fetch_principals (ax_env tenv) credentials d of
            Some (Inr f) \<Rightarrow> matched_row (ax_now tenv) d (normalized_principals (af_principals f)) a
          | _ \<Rightarrow> a)) accounts" (is "_ \<longrightarrow> ?synced")
proof -
  have valid: "configs_valid rows" using assms by (rule configs_stay_valid)
  then show ids: "distinct (map ad_id rows) \<and> distinct (map ad_name rows)"
    and names: "distinct (map (\<lambda>d. lower (ad_netbios d)) (filter ad_enabled rows))"
    and fields: "\<forall>d \<in> set rows. strip (ad_netbios d) = ad_netbios d \<and> ad_netbios d \<noteq> []"
    by (simp_all add: configs_valid_def)
  show "(\<forall>d \<in> set rows. BACKSLASH \<notin> set (ad_netbios d)) \<longrightarrow> ?synced"
  proof
    assume plain: "\<forall>d \<in> set rows. BACKSLASH \<notin> set (ad_netbios d)"
    have all: "distinct (list_configs rows)" "set (list_configs rows) = {d \<in> set rows. ad_enabled d}"
      using ids by (simp_all add: list_configs_def distinct_map)
    have one: "d' = d" if "d \<in> set rows" "ad_enabled d" "is_domain_account d a" "d' \<in> set rows" "ad_enabled d'" "is_domain_account d' a" for d d' a
    proof -
      have "has_domain_prefix (ad_netbios d) (da_username a)" "has_domain_prefix (ad_netbios d') (da_username a)"
        using that(3,6) by (simp_all add: is_domain_account_def)
      from this [THEN prefix_names_domain] have "lower (ad_netbios d) = lower (ad_netbios d')"
        using that(1,4) plain fields by metis
      moreover have "inj_on (\<lambda>d. lower (ad_netbios d)) {d \<in> set rows. ad_enabled d}" using names by (simp add: distinct_map)
      ultimately show ?thesis using that(1,2,4,5) unfolding inj_on_def by blast
    qed
    have "fold (synced_row tenv credentials) (list_configs rows) a = (case domain_of rows a of None \<Rightarrow> a | Some d \<Rightarrow> synced_row tenv credentials d a)" for a
    proof (cases "domain_of rows a")
      case None
      then have "\<forall>d \<in> set (list_configs rows). \<not> is_domain_account d a" unfolding all(2) by (simp add: domain_of_def find_None_iff)
      then show ?thesis using None by (simp add: synced_none)
    next
      case (Some d)
      then have "d \<in> set rows" "ad_enabled d" "is_domain_account d a" by (auto simp: domain_of_def find_Some_iff)
      then have "d \<in> set (list_configs rows)" "\<forall>d' \<in> set (list_configs rows). is_domain_account d' a \<longrightarrow> d' = d"
        using one unfolding all(2) by blast+
      from synced_one [OF all(1) this] show ?thesis by (simp add: Some)
    qed
    then show ?synced by (simp only: synced_rows) (simp only: synced_row_def)
  qed
qed

text \<open>C16: Whatever is asked of the service of the configurations, whichever synchronisations run in
  between: the names of the domains differ, and the NetBIOS names of the enabled ones differ even when
  case is ignored. An account therefore has one enabled domain at most, as long as no NetBIOS name
  contains a backslash, and a synchronisation does to it exactly what a match of that domain alone
  does: the order of the domains does not matter.\<close>

theorem one_domain_per_account:
  assumes "(config_step env)\<^sup>*\<^sup>* [] rows"
  shows "distinct (map ad_id rows) \<and> distinct (map ad_name rows)
    \<and> distinct (map (\<lambda>d. lower (ad_netbios d)) (filter ad_enabled rows))
    \<and> (\<forall>d \<in> set rows. strip (ad_netbios d) = ad_netbios d \<and> ad_netbios d \<noteq> [])
    \<and> ((\<forall>d \<in> set rows. BACKSLASH \<notin> set (ad_netbios d)) \<longrightarrow>
      synced_accounts tenv credentials (list_configs rows) accounts = map (\<lambda>a. case domain_of rows a of
          None \<Rightarrow> a
        | Some d \<Rightarrow> (case fetch_principals (ax_env tenv) credentials d of
            Some (Inr f) \<Rightarrow> matched_row (ax_now tenv) d (normalized_principals (af_principals f)) a
          | _ \<Rightarrow> a)) accounts)"
  using valid_domains(1-3) [OF assms] valid_domains(4) [OF assms, of tenv credentials accounts] by blast

definition example_data :: pdict where
  "example_data = [(''name'', PStr ''corp''), (''netbios_name'', PStr '' CORP''), (''domain_controllers'', PStr ''dc1, dc2''),
     (''base_dn'', PStr ''DC=corp,DC=local''), (''credential_id'', PStr ''1'')]"

lemma one_domain_per_account_witness:
  "case ad_domain_config_payload (ax_env example_env) example_data of Inl e \<Rightarrow> False | Inr payload \<Rightarrow>
     (case create_config (dt_credentials example_store) 5 payload [] of Inl e \<Rightarrow> False | Inr rows \<Rightarrow>
        distinct (map ad_name rows) \<and> map ad_netbios rows = [''CORP''] \<and> map ad_port rows = [636]
        \<and> create_config (dt_credentials example_store) 6 (payload\<lparr>py_name := ''lab'', py_netbios := ''corp''\<rparr>) rows = Inl Netbios_taken
        \<and> map (map_option ad_id \<circ> domain_of rows) example_accounts = [Some 5, Some 5, Some 5, None])"
proof -
  have eval: "case ad_domain_config_payload (ax_env example_env) example_data of Inl e \<Rightarrow> False | Inr payload \<Rightarrow>
     (case create_config (dt_credentials example_store) 5 payload [] of Inl e \<Rightarrow> False | Inr rows \<Rightarrow>
        map ad_netbios rows = [''CORP''] \<and> map ad_port rows = [636]
        \<and> create_config (dt_credentials example_store) 6 (payload\<lparr>py_name := ''lab'', py_netbios := ''corp''\<rparr>) rows = Inl Netbios_taken
        \<and> map (map_option ad_id \<circ> domain_of rows) example_accounts = [Some 5, Some 5, Some 5, None])"
    by code_simp
  then obtain payload rows where p: "ad_domain_config_payload (ax_env example_env) example_data = Inr payload"
    and c: "create_config (dt_credentials example_store) 5 payload [] = Inr rows"
    by (auto split: sum.splits)
  have "(config_step (ax_env example_env))\<^sup>*\<^sup>* [] rows"
    using config_step.create [OF p _ c] by (intro r_into_rtranclp) simp
  from one_domain_per_account [OF this] eval show ?thesis by (simp add: p c)
qed

end
