(* ===== verification/Alert_Events.thy ===== *)
theory Alert_Events
  imports Task_Runs Calendar Account_Scope Permission_Diff "HOL-Library.Product_Lexorder"
begin

text \<open>
  The events of the alerts: the tables, \<^verbatim>\<open>EmailAlertsRepository\<close>,
  \<^verbatim>\<open>EmailAlertSettingsService\<close> and \<^verbatim>\<open>EmailAlertEventService\<close> of
  \<^verbatim>\<open>app/services/alerts\<close>. Times are in microseconds, the date of an event is that of China.
  What Python's floats say of a growth in percent is an argument: its value in the payload and whether it
  is below a threshold.
\<close>

section \<open>Tables\<close>

record alert_settings =
  as_global :: bool
  as_recipients :: "string list"
  as_capacity :: bool
  as_percent :: int
  as_gb :: int
  as_account_sync :: bool
  as_database_sync :: bool
  as_cluster :: bool
  as_privileged :: bool
  as_backup :: bool
  as_feishu :: bool
  as_webhook :: string

record alert_event =
  ev_id :: int
  ev_type :: string
  ev_occurred :: int
  ev_bucket :: date
  ev_key :: string
  ev_instance :: "int option"
  ev_database :: "string option"
  ev_username :: "string option"
  ev_run :: "string option"
  ev_session :: "string option"
  ev_payload :: pdict
  ev_sent_at :: "int option"

record delivery =
  dv_event :: int
  dv_channel :: string
  dv_status :: string
  dv_at :: "int option"
  dv_error :: "string option"

record size_stat =
  ss_id :: int
  ss_instance :: int
  ss_database :: string
  ss_size :: int
  ss_date :: date
  ss_at :: int

text \<open>\<^verbatim>\<open>ab_next\<close> is the next value of the sequence of the ids of events.\<close>

record alert_db =
  ab_settings :: "alert_settings option"
  ab_events :: "alert_event list"
  ab_deliveries :: "delivery list"
  ab_sizes :: "size_stat list"
  ab_next :: int

section \<open>The repository\<close>

definition same_event :: "string \<Rightarrow> date \<Rightarrow> string \<Rightarrow> alert_event \<Rightarrow> bool" where
  "same_event alert_type bucket_date dedupe_key e = (ev_type e = alert_type \<and> ev_bucket e = bucket_date \<and> ev_key e = dedupe_key)"

text \<open>Whether the row was inserted: the unique constraint on type, date and key may refuse it.\<close>

definition create_event :: "alert_event \<Rightarrow> alert_db \<Rightarrow> bool \<times> alert_db" where
  "create_event e db =
    (if find (same_event (ev_type e) (ev_bucket e) (ev_key e)) (ab_events db) \<noteq> None then (False, db\<lparr>ab_next := ab_next db + 1\<rparr>)
     else (True, db\<lparr>ab_events := ab_events db @ [e\<lparr>ev_id := ab_next db\<rparr>], ab_next := ab_next db + 1\<rparr>))"

definition sent_on :: "string \<Rightarrow> int \<Rightarrow> alert_db \<Rightarrow> bool" where
  "sent_on channel event_id db = (\<exists>d \<in> set (ab_deliveries db). dv_event d = event_id \<and> dv_channel d = channel \<and> dv_status d = ''sent'')"

definition has_sent_delivery :: "int \<Rightarrow> alert_db \<Rightarrow> bool" where
  "has_sent_delivery event_id db = (\<exists>d \<in> set (ab_deliveries db). dv_event d = event_id \<and> dv_status d = ''sent'')"

definition write_event :: "int \<Rightarrow> (alert_event \<Rightarrow> alert_event) \<Rightarrow> alert_db \<Rightarrow> alert_db" where
  "write_event i f db = db\<lparr>ab_events := map (\<lambda>e. if ev_id e = i then f e else e) (ab_events db)\<rparr>"

text \<open>\<^verbatim>\<open>f\<close> sets the fields of the payload on the row that is there.\<close>

definition upsert_pending_event :: "bool \<Rightarrow> alert_event \<Rightarrow> (alert_event \<Rightarrow> alert_event) \<Rightarrow> alert_db \<Rightarrow> bool \<times> alert_db" where
  "upsert_pending_event protect_sent_delivery e f db =
    (case find (same_event (ev_type e) (ev_bucket e) (ev_key e)) (ab_events db) of
       None \<Rightarrow> (True, snd (create_event e db))
     | Some existing \<Rightarrow>
         if ev_sent_at existing \<noteq> None then (False, db)
         else if protect_sent_delivery \<and> has_sent_delivery (ev_id existing) db then (False, db)
         else (False, write_event (ev_id existing) f db))"

definition is_pending :: "string \<Rightarrow> date \<Rightarrow> alert_db \<Rightarrow> alert_event \<Rightarrow> bool" where
  "is_pending alert_type bucket_date db e = (ev_type e = alert_type \<and> ev_bucket e = bucket_date \<and> ev_sent_at e = None
     \<and> \<not> has_sent_delivery (ev_id e) db)"

text \<open>The rows of the deliveries go with their event.\<close>

definition delete_pending_events :: "string \<Rightarrow> date \<Rightarrow> string option \<Rightarrow> string list \<Rightarrow> alert_db \<Rightarrow> alert_db" where
  "delete_pending_events alert_type bucket_date dedupe_key keep_dedupe_keys db =
    (let deleted = filter (\<lambda>e. is_pending alert_type bucket_date db e \<and> (dedupe_key = None \<or> dedupe_key = Some (ev_key e))
           \<and> (keep_dedupe_keys = [] \<or> ev_key e \<notin> set keep_dedupe_keys)) (ab_events db);
         ids = map ev_id deleted
     in db\<lparr>ab_events := filter (\<lambda>e. ev_id e \<notin> set ids) (ab_events db), ab_deliveries := filter (\<lambda>d. dv_event d \<notin> set ids) (ab_deliveries db)\<rparr>)"

definition list_pending_digest_events :: "string option \<Rightarrow> date option \<Rightarrow> alert_db \<Rightarrow> alert_event list" where
  "list_pending_digest_events channel bucket_date db =
    sort_key (\<lambda>e. (ev_occurred e, ev_id e)) (filter (\<lambda>e. (case bucket_date of None \<Rightarrow> True | Some d \<Rightarrow> ev_bucket e = d)
      \<and> (case channel of None \<Rightarrow> ev_sent_at e = None
         | Some c \<Rightarrow> if c = [] then ev_sent_at e = None
             else \<not> sent_on c (ev_id e) db \<and> (c = ''email'' \<longrightarrow> ev_sent_at e = None))) (ab_events db))"

definition event_is_sent :: "string list \<Rightarrow> alert_db \<Rightarrow> alert_event \<Rightarrow> bool" where
  "event_is_sent channels db e = (if channels = [] then ev_sent_at e \<noteq> None
     else list_all (\<lambda>c. sent_on c (ev_id e) db \<or> c = ''email'' \<and> ev_sent_at e \<noteq> None) channels)"

text \<open>Per type of alert the number of pending and of sent events.\<close>

definition get_bucket_event_counts :: "date \<Rightarrow> string list \<Rightarrow> alert_db \<Rightarrow> (nat \<times> nat) dict" where
  "get_bucket_event_counts bucket_date channels db = fold (\<lambda>e stats.
      let (pending_count, sent_count) = (case map_of stats (ev_type e) of None \<Rightarrow> (0, 0) | Some p \<Rightarrow> p)
      in dput (ev_type e) (if event_is_sent channels db e then (pending_count, sent_count + 1) else (pending_count + 1, sent_count)) stats)
    (filter (\<lambda>e. ev_bucket e = bucket_date) (ab_events db)) []"

definition mark_events_digest_sent :: "int list \<Rightarrow> int \<Rightarrow> alert_db \<Rightarrow> alert_db" where
  "mark_events_digest_sent event_ids sent_at db =
    db\<lparr>ab_events := map (\<lambda>e. if ev_id e \<in> set event_ids then e\<lparr>ev_sent_at := Some sent_at\<rparr> else e) (ab_events db)\<rparr>"

definition record_digest_delivery :: "string \<Rightarrow> int list \<Rightarrow> int \<Rightarrow> string \<Rightarrow> string option \<Rightarrow> alert_db \<Rightarrow> alert_db" where
  "record_digest_delivery channel event_ids delivered_at status error_message db =
    (if event_ids = [] then db
     else
       let at = (if status = ''sent'' then Some delivered_at else None);
           existing = (\<lambda>i. \<exists>d \<in> set (ab_deliveries db). dv_event d = i \<and> dv_channel d = channel);
           db' = db\<lparr>ab_deliveries :=
             map (\<lambda>d. if dv_event d \<in> set event_ids \<and> dv_channel d = channel
                then d\<lparr>dv_status := status, dv_at := at, dv_error := error_message\<rparr> else d) (ab_deliveries db)
             @ map (\<lambda>i. \<lparr>dv_event = i, dv_channel = channel, dv_status = status, dv_at = at, dv_error = error_message\<rparr>)
                 (filter (\<lambda>i. \<not> existing i) event_ids)\<rparr>
       in if channel = ''email'' \<and> status = ''sent'' then mark_events_digest_sent event_ids delivered_at db' else db')"

definition find_recent_database_baseline :: "int \<Rightarrow> string \<Rightarrow> date \<Rightarrow> int \<Rightarrow> alert_db \<Rightarrow> size_stat option" where
  "find_recent_database_baseline instance_id database_name current_date lookback_days db =
    (let rows = filter (\<lambda>s. ss_instance s = instance_id \<and> ss_database s = database_name \<and> ss_date s < current_date
           \<and> shift_days current_date (- lookback_days) \<le> ss_date s) (ab_sizes db)
     in if rows = [] then None else Some (last (sort_key (\<lambda>s. (ss_date s, ss_at s, ss_id s)) rows)))"

section \<open>Settings\<close>

definition build_default_settings :: alert_settings where
  "build_default_settings = \<lparr>as_global = False, as_recipients = [], as_capacity = False, as_percent = 30, as_gb = 20,
     as_account_sync = False, as_database_sync = False, as_cluster = False, as_privileged = False, as_backup = False,
     as_feishu = False, as_webhook = []\<rparr>"

definition get_or_create_settings :: "alert_db \<Rightarrow> alert_settings" where
  "get_or_create_settings db = (case ab_settings db of None \<Rightarrow> build_default_settings | Some s \<Rightarrow> s)"

text \<open>The payload that was validated: the fields of the settings, the URL that was entered and whether to
  clear the one that is there. \<^verbatim>\<open>None\<close> when the URL is missing: nothing is committed.\<close>

definition update_settings :: "alert_settings \<Rightarrow> string \<Rightarrow> bool \<Rightarrow> alert_db \<Rightarrow> alert_db option" where
  "update_settings payload feishu_webhook_url clear_feishu_webhook_url db =
    (let old = get_or_create_settings db;
         url = strip feishu_webhook_url;
         settings = payload\<lparr>as_webhook := (if clear_feishu_webhook_url then [] else if url \<noteq> [] then url else as_webhook old)\<rparr>
     in if as_feishu settings \<and> as_webhook settings = [] then None else Some (db\<lparr>ab_settings := Some settings\<rparr>))"

definition has_enabled_delivery_channel :: "alert_settings \<Rightarrow> bool" where
  "has_enabled_delivery_channel settings = (as_global settings \<or> as_feishu settings)"

section \<open>Recording events\<close>

text \<open>The date in China, eight hours ahead.\<close>

definition resolve_bucket_date :: "int \<Rightarrow> date" where
  "resolve_bucket_date occurred_at = shift_days (Date 1970 1 1) ((occurred_at div 1000000 + 28800) div 86400)"

definition alert_event_of :: "string \<Rightarrow> int \<Rightarrow> string \<Rightarrow> pdict \<Rightarrow> alert_event" where
  "alert_event_of alert_type occurred_at dedupe_key payload = \<lparr>ev_id = 0, ev_type = alert_type, ev_occurred = occurred_at,
     ev_bucket = resolve_bucket_date occurred_at, ev_key = dedupe_key, ev_instance = None, ev_database = None, ev_username = None,
     ev_run = None, ev_session = None, ev_payload = payload, ev_sent_at = None\<rparr>"

definition LOOKBACK_DAYS :: int where
  "LOOKBACK_DAYS = 3"

text \<open>A row of collected sizes; \<^verbatim>\<open>None\<close> is a missing value.\<close>

record capacity_row =
  cr_instance :: "int option"
  cr_instance_name :: pv
  cr_database :: pv
  cr_size :: "int option"
  cr_date :: "date option"

record growth_env =
  ge_percent :: "int \<Rightarrow> int \<Rightarrow> pv"
  ge_below :: "int \<Rightarrow> int \<Rightarrow> int \<Rightarrow> bool"

definition database_name_of :: "capacity_row \<Rightarrow> string option" where
  "database_name_of row = (case cr_database row of PStr s \<Rightarrow> if strip s = [] then None else Some (strip s) | _ \<Rightarrow> None)"

text \<open>\<^verbatim>\<open>DatabaseCapacityGrowthCandidate.from_row\<close>: its key and its payload. A gigabyte has 1024
  megabytes.\<close>

definition growth_candidate :: "growth_env \<Rightarrow> capacity_row \<Rightarrow> size_stat option \<Rightarrow> int \<Rightarrow> int \<Rightarrow> int \<Rightarrow> (string \<times> pdict) option" where
  "growth_candidate env row baseline percent_threshold absolute_gb_threshold lookback_days =
    (case (database_name_of row, cr_date row, cr_instance row, cr_size row, baseline) of
       (Some database_name, Some current_date, Some instance_id, Some current_size, Some base) \<Rightarrow>
         let size_change = current_size - ss_size base; baseline_age = ordinal current_date - ordinal (ss_date base)
         in if ss_size base \<le> 0 \<or> size_change \<le> 0
              \<or> ge_below env size_change (ss_size base) percent_threshold \<or> size_change < 1024 * absolute_gb_threshold
              \<or> baseline_age < 1 \<or> lookback_days < baseline_age then None
            else Some (show_int instance_id @ '':'' @ database_name,
              [(''instance_id'', PInt instance_id), (''instance_name'', cr_instance_name row), (''database_name'', PStr database_name),
               (''current_size_mb'', PInt current_size), (''baseline_size_mb'', PInt (ss_size base)), (''size_change_mb'', PInt size_change),
               (''size_change_percent'', ge_percent env size_change (ss_size base)),
               (''baseline_collected_date'', PStr (iso_date (ss_date base))), (''baseline_age_days'', PInt baseline_age),
               (''current_collected_date'', PStr (iso_date current_date))])
     | _ \<Rightarrow> None)"

fun record_capacity_rows :: "growth_env \<Rightarrow> alert_settings \<Rightarrow> int \<Rightarrow> capacity_row list \<Rightarrow> alert_db \<Rightarrow> nat \<times> alert_db" where
  "record_capacity_rows env settings occurred_at [] db = (0, db)"
| "record_capacity_rows env settings occurred_at (row # rows) db =
    (case (database_name_of row, cr_date row, cr_instance row, cr_size row) of
       (Some database_name, Some current_date, Some instance_id, Some size_mb) \<Rightarrow>
        (case growth_candidate env row (find_recent_database_baseline instance_id database_name current_date LOOKBACK_DAYS db)
            (as_percent settings) (as_gb settings) LOOKBACK_DAYS of
           None \<Rightarrow> record_capacity_rows env settings occurred_at rows db
         | Some (dedupe_key, payload) \<Rightarrow>
            (case create_event ((alert_event_of ''database_capacity_growth'' occurred_at dedupe_key payload)
                \<lparr>ev_instance := Some instance_id, ev_database := Some database_name\<rparr>) db of
               (created, db') \<Rightarrow> (case record_capacity_rows env settings occurred_at rows db' of
                 (count, db'') \<Rightarrow> (if created then count + 1 else count, db''))))
     | _ \<Rightarrow> record_capacity_rows env settings occurred_at rows db)"

definition record_database_capacity_events :: "growth_env \<Rightarrow> capacity_row list \<Rightarrow> int \<Rightarrow> alert_db \<Rightarrow> nat \<times> alert_db" where
  "record_database_capacity_events env rows occurred_at db =
    (let settings = get_or_create_settings db
     in if \<not> has_enabled_delivery_channel settings \<or> \<not> as_capacity settings then (0, db)
        else record_capacity_rows env settings occurred_at rows db)"

definition record_sync_failure_event ::
  "string \<Rightarrow> int \<Rightarrow> string \<Rightarrow> string option \<Rightarrow> string option \<Rightarrow> string \<Rightarrow> int \<Rightarrow> alert_db \<Rightarrow> bool \<times> alert_db" where
  "record_sync_failure_event alert_type instance_id instance_name run_id session_id error_message occurred_at db =
    (let settings = get_or_create_settings db
     in if \<not> has_enabled_delivery_channel settings
           \<or> alert_type = ''account_sync_failure'' \<and> \<not> as_account_sync settings
           \<or> alert_type = ''database_sync_failure'' \<and> \<not> as_database_sync settings then (False, db)
        else create_event ((alert_event_of alert_type occurred_at
            (alert_type @ '':'' @ (case run_id of None \<Rightarrow> ''no-run'' | Some r \<Rightarrow> if r = [] then ''no-run'' else r) @ '':'' @ show_int instance_id)
            [(''instance_id'', PInt instance_id), (''instance_name'', PStr instance_name), (''error_message'', PStr error_message)])
          \<lparr>ev_instance := Some instance_id, ev_run := run_id, ev_session := session_id\<rparr>) db)"

definition record_privileged_account_event :: "int \<Rightarrow> string \<Rightarrow> string \<Rightarrow> string \<Rightarrow> int \<Rightarrow> alert_db \<Rightarrow> bool \<times> alert_db" where
  "record_privileged_account_event instance_id instance_name username reason occurred_at db =
    (let settings = get_or_create_settings db
     in if \<not> has_enabled_delivery_channel settings \<or> \<not> as_privileged settings then (False, db)
        else create_event ((alert_event_of ''privileged_account_discovery'' occurred_at (show_int instance_id @ '':'' @ username)
            [(''instance_id'', PInt instance_id), (''instance_name'', PStr instance_name), (''username'', PStr username), (''reason'', PStr reason)])
          \<lparr>ev_instance := Some instance_id, ev_username := Some username\<rparr>) db)"

subsection \<open>Backups\<close>

record backup_row =
  bk_instance :: "int option"
  bk_name :: pv
  bk_status :: string
  bk_last_time :: pv

definition resolve_backup_issue_reason_text :: "string \<Rightarrow> string option" where
  "resolve_backup_issue_reason_text backup_status =
    (if backup_status = ''not_backed_up'' then Some (utf8 [0xE5, 0xBD, 0x93, 0xE5, 0xA4, 0xA9, 0xE6, 0xB2, 0xA1, 0xE6, 0x9C, 0x89, 0xE5, 0xA4, 0x87, 0xE4, 0xBB, 0xBD])
     else if backup_status = ''backup_stale'' then Some (utf8 [0xE5, 0xA4, 0x87, 0xE4, 0xBB, 0xBD, 0xE5, 0xBC, 0x82, 0xE5, 0xB8, 0xB8, 0xEF, 0xBC, 0x88, 0xE6, 0x9C, 0x80, 0xE8, 0xBF, 0x91, 0xE5, 0xA4, 0x87, 0xE4, 0xBB, 0xBD, 0xE8, 0xB6, 0x85, 0xE8, 0xBF, 0x87] @ ''24'' @ utf8 [0xE5, 0xB0, 0x8F, 0xE6, 0x97, 0xB6, 0xEF, 0xBC, 0x89])
     else None)"

text \<open>The key of a row that is an issue, and its event.\<close>

definition backup_issue :: "int \<Rightarrow> backup_row \<Rightarrow> (string \<times> alert_event) option" where
  "backup_issue occurred_at row = (case (bk_instance row, resolve_backup_issue_reason_text (strip (bk_status row))) of
     (Some instance_id, Some reason_text) \<Rightarrow> Some (show_int instance_id,
       (alert_event_of ''backup_status_issue'' occurred_at (show_int instance_id)
         [(''instance_id'', PInt instance_id), (''instance_name'', bk_name row), (''backup_status'', PStr (strip (bk_status row))),
          (''backup_last_time'', bk_last_time row), (''reason_text'', PStr reason_text)])\<lparr>ev_instance := Some instance_id\<rparr>)
   | _ \<Rightarrow> None)"

fun record_backup_rows :: "int \<Rightarrow> backup_row list \<Rightarrow> alert_db \<Rightarrow> nat \<times> string list \<times> alert_db" where
  "record_backup_rows occurred_at [] db = (0, [], db)"
| "record_backup_rows occurred_at (row # rows) db =
    (case backup_issue occurred_at row of
       None \<Rightarrow> record_backup_rows occurred_at rows db
     | Some (dedupe_key, e) \<Rightarrow>
        (case upsert_pending_event False e (\<lambda>x. x\<lparr>ev_occurred := ev_occurred e, ev_instance := ev_instance e, ev_payload := ev_payload e\<rparr>) db of
           (created, db') \<Rightarrow> (case record_backup_rows occurred_at rows db' of
             (count, active_dedupe_keys, db'') \<Rightarrow> (if created then count + 1 else count, dedupe_key # active_dedupe_keys, db''))))"

definition record_backup_issue_events :: "backup_row list \<Rightarrow> int \<Rightarrow> alert_db \<Rightarrow> nat \<times> alert_db" where
  "record_backup_issue_events backup_rows occurred_at db =
    (let settings = get_or_create_settings db
     in if \<not> has_enabled_delivery_channel settings \<or> \<not> as_backup settings then (0, db)
        else (case record_backup_rows occurred_at backup_rows db of
          (created, active_dedupe_keys, db') \<Rightarrow>
            (created, delete_pending_events ''backup_status_issue'' (resolve_bucket_date occurred_at) None active_dedupe_keys db')))"

text \<open>\<^verbatim>\<open>resolve_backup_status\<close>; \<^verbatim>\<open>to_utc\<close> reads a time.\<close>

definition resolve_backup_status :: "(string \<Rightarrow> int option) \<Rightarrow> int \<Rightarrow> string option \<Rightarrow> string" where
  "resolve_backup_status to_utc now latest_backup_at = (case latest_backup_at of
     None \<Rightarrow> ''not_backed_up''
   | Some s \<Rightarrow> if s = [] then ''not_backed_up'' else (case to_utc s of
       None \<Rightarrow> ''not_backed_up''
     | Some resolved \<Rightarrow> if now - resolved \<le> 24 * 3600 * 1000000 then ''backed_up'' else ''backup_stale''))"

text \<open>The active instances with the time of their latest backup.\<close>

definition sync_backup_issue_events :: "(string \<Rightarrow> int option) \<Rightarrow> (int \<times> string \<times> string option) list \<Rightarrow> int \<Rightarrow> alert_db \<Rightarrow> nat \<times> alert_db" where
  "sync_backup_issue_events to_utc backups now db = record_backup_issue_events
     (map (\<lambda>(i, name, latest). \<lparr>bk_instance = Some i, bk_name = PStr name, bk_status = resolve_backup_status to_utc now latest,
        bk_last_time = (case latest of None \<Rightarrow> PNone | Some s \<Rightarrow> PStr s)\<rparr>) backups) now db"

end
