(* ===== verification/Alert_Clusters.thy ===== *)
theory Alert_Clusters
  imports Alert_Events
begin

text \<open>
  What the result of a check of a cluster says, \<^verbatim>\<open>ClusterStatusDetectionResult\<close> of
  \<^verbatim>\<open>app/services/cluster_status_sync/issue_contract.py\<close>, and the event it leaves. The delay of a
  replica is a number or a text.
\<close>

section \<open>The result of a check\<close>

definition or_value :: "pv \<Rightarrow> pv \<Rightarrow> pv" where
  "or_value v w = (if truthy v then v else w)"

definition cluster_status :: "(pv \<Rightarrow> string) \<Rightarrow> pdict \<Rightarrow> string" where
  "cluster_status container result = py_str container (or_value (dget result ''status'') (PStr ''unknown''))"

text \<open>\<^verbatim>\<open>int(value or 0)\<close>; \<^verbatim>\<open>None\<close> when it raises.\<close>

definition abnormal_count :: "pdict \<Rightarrow> string \<Rightarrow> int option" where
  "abnormal_count result key = (case or_value (dget result key) (PInt 0) of
     PInt n \<Rightarrow> Some n
   | PBool b \<Rightarrow> Some (if b then 1 else 0)
   | PStr s \<Rightarrow> py_int s
   | _ \<Rightarrow> None)"

definition is_failed :: "(pv \<Rightarrow> string) \<Rightarrow> pdict \<Rightarrow> bool" where
  "is_failed container result = (cluster_status container result = ''failed'')"

definition is_abnormal :: "(pv \<Rightarrow> string) \<Rightarrow> pdict \<Rightarrow> bool option" where
  "is_abnormal container result =
    (if is_failed container result then Some True
     else (case abnormal_count result ''abnormal_database_count'' of
         None \<Rightarrow> None
       | Some databases \<Rightarrow> if 0 < databases then Some True
           else (case abnormal_count result ''abnormal_replica_count'' of None \<Rightarrow> None | Some replicas \<Rightarrow> Some (0 < replicas))))"

definition text_or :: "(pv \<Rightarrow> string) \<Rightarrow> pv list \<Rightarrow> string \<Rightarrow> string" where
  "text_or container values default_text = strip (py_str container (foldr or_value values (PStr default_text)))"

definition mysql_item_summary :: "(pv \<Rightarrow> string) \<Rightarrow> pv \<Rightarrow> string list" where
  "mysql_item_summary container item = (case item of
     PDict d \<Rightarrow>
       if \<not> dhas d ''replication_status'' then []
       else
         let status = text_or container [dget d ''replication_status''] [];
             name = text_or container [dget d ''name'', dget d ''instance_name'', dget d ''instance_id''] ''unknown'';
             reason = text_or container [dget d ''last_error'', PStr status] (utf8 [0xE7, 0x8A, 0xB6, 0xE6, 0x80, 0x81, 0xE5, 0xBC, 0x82, 0xE5, 0xB8, 0xB8]);
             lag = dget d ''seconds_behind_source''
         in if status = ''healthy'' then []
            else [name @ '': '' @ reason @ (if lag = PNone \<or> lag = PStr [] then [] else '', lag='' @ py_str container lag @ ''s'')]
   | _ \<Rightarrow> [])"

definition sqlserver_row_summary :: "(pv \<Rightarrow> string) \<Rightarrow> pv \<Rightarrow> string list" where
  "sqlserver_row_summary container row = (case row of
     PDict d \<Rightarrow>
       if \<not> truthy (dget d ''is_abnormal'') then []
       else
         let replica = text_or container [dget d ''replica_server_name''] ''unknown'';
             database = text_or container [dget d ''database_name''] [];
             name = (if database \<noteq> [] then replica @ ''/'' @ database else replica);
             reason = text_or container [dget d ''error_summary'', dget d ''synchronization_health_desc''] (utf8 [0xE7, 0x8A, 0xB6, 0xE6, 0x80, 0x81, 0xE5, 0xBC, 0x82, 0xE5, 0xB8, 0xB8])
         in [name @ '': '' @ reason]
   | _ \<Rightarrow> [])"

definition list_items :: "pv \<Rightarrow> pv list" where
  "list_items v = (case v of PList xs \<Rightarrow> xs | _ \<Rightarrow> [])"

definition cluster_summary_text :: "(pv \<Rightarrow> string) \<Rightarrow> pdict \<Rightarrow> int \<Rightarrow> int \<Rightarrow> string" where
  "cluster_summary_text container result databases replicas =
    (let error_message = text_or container [dget result ''error_message''] []; source_errors = list_items (dget result ''source_errors'');
         summaries = concat (map (mysql_item_summary container) (list_items (dget result ''items'')))
           @ concat (map (sqlserver_row_summary container) (list_items (dget result ''items'') @ list_items (dget result ''replicas'')))
     in if is_failed container result \<and> error_message \<noteq> [] then error_message
        else if source_errors \<noteq> [] then join ''; '' (filter (\<lambda>s. strip s \<noteq> []) (map (py_str container) source_errors))
        else if summaries \<noteq> [] then join ''; '' (take 5 summaries)
        else utf8 [0xE5, 0xBC, 0x82, 0xE5, 0xB8, 0xB8, 0xE6, 0x95, 0xB0, 0xE6, 0x8D, 0xAE, 0xE5, 0xBA, 0x93] @ '' '' @ show_int databases @ '' '' @ utf8 [0xE4, 0xB8, 0xAA, 0xEF, 0xBC, 0x8C, 0xE5, 0xBC, 0x82, 0xE5, 0xB8, 0xB8, 0xE5, 0x89, 0xAF, 0xE6, 0x9C, 0xAC] @ '' '' @ show_int replicas @ '' '' @ utf8 [0xE4, 0xB8, 0xAA])"

definition cluster_alert_payload :: "(pv \<Rightarrow> string) \<Rightarrow> string \<Rightarrow> int \<Rightarrow> string \<Rightarrow> string \<Rightarrow> pdict \<Rightarrow> pdict option" where
  "cluster_alert_payload container cluster_type cluster_id cluster_name run_id result =
    (case (abnormal_count result ''abnormal_database_count'', abnormal_count result ''abnormal_replica_count'') of
       (Some databases, Some replicas) \<Rightarrow> Some
         [(''cluster_id'', PInt cluster_id), (''cluster_name'', PStr cluster_name), (''cluster_type'', PStr cluster_type),
          (''status'', PStr (cluster_status container result)), (''error_message'', dget result ''error_message''),
          (''abnormal_database_count'', PInt databases), (''abnormal_replica_count'', PInt replicas), (''run_id'', PStr run_id),
          (''summary_text'', PStr (cluster_summary_text container result databases replicas))]
     | _ \<Rightarrow> None)"

section \<open>The event\<close>

text \<open>\<^verbatim>\<open>None\<close> when a count is no number: the exception leaves the method.\<close>

definition record_cluster_status_event ::
  "(pv \<Rightarrow> string) \<Rightarrow> string \<Rightarrow> int \<Rightarrow> string \<Rightarrow> string \<Rightarrow> pdict \<Rightarrow> int \<Rightarrow> alert_db \<Rightarrow> (bool \<times> alert_db) option" where
  "record_cluster_status_event container cluster_type cluster_id cluster_name run_id result occurred_at db =
    (let settings = get_or_create_settings db;
         bucket_date = resolve_bucket_date occurred_at;
         dedupe_key = cluster_type @ '':'' @ show_int cluster_id
     in if \<not> has_enabled_delivery_channel settings \<or> \<not> as_cluster settings then Some (False, db)
        else (case is_abnormal container result of
            None \<Rightarrow> None
          | Some False \<Rightarrow> Some (False, delete_pending_events ''cluster_status_issue'' bucket_date (Some dedupe_key) [] db)
          | Some True \<Rightarrow> (case cluster_alert_payload container cluster_type cluster_id cluster_name run_id result of
              None \<Rightarrow> None
            | Some payload \<Rightarrow>
                let e = (alert_event_of ''cluster_status_issue'' occurred_at dedupe_key payload)\<lparr>ev_run := Some run_id\<rparr>
                in Some (upsert_pending_event True e (\<lambda>x. x\<lparr>ev_occurred := ev_occurred e, ev_run := ev_run e, ev_payload := ev_payload e\<rparr>) db))))"

end
