(* ===== verification/Alert_Digest.thy ===== *)
theory Alert_Digest
  imports Alert_Events
begin

text \<open>
  The digest of the day: \<^verbatim>\<open>EmailAlertDigestService\<close> of
  \<^verbatim>\<open>app/services/alerts/email_alert_digest_service.py\<close>. The mail server and the robot are
  arguments: whether SMTP is configured, and the text of what sending a message raises. What is sent is a
  list of messages, the same text for both channels.
\<close>

section \<open>Rules and channels\<close>

definition EMAIL_CHANNEL :: string where "EMAIL_CHANNEL = ''email''"
definition FEISHU_CHANNEL :: string where "FEISHU_CHANNEL = ''feishu''"

definition ALERT_RULES :: "(string \<times> string \<times> (alert_settings \<Rightarrow> bool)) list" where
  "ALERT_RULES =
    [(''database_capacity_growth'', utf8 [0xE6, 0x95, 0xB0, 0xE6, 0x8D, 0xAE, 0xE5, 0xBA, 0x93, 0xE5, 0xAE, 0xB9, 0xE9, 0x87, 0x8F, 0xE5, 0xBC, 0x82, 0xE5, 0xB8, 0xB8, 0xE5, 0xA2, 0x9E, 0xE9, 0x95, 0xBF], as_capacity),
     (''account_sync_failure'', utf8 [0xE8, 0xB4, 0xA6, 0xE6, 0x88, 0xB7, 0xE5, 0x90, 0x8C, 0xE6, 0xAD, 0xA5, 0xE5, 0xBC, 0x82, 0xE5, 0xB8, 0xB8], as_account_sync),
     (''database_sync_failure'', utf8 [0xE6, 0x95, 0xB0, 0xE6, 0x8D, 0xAE, 0xE5, 0xBA, 0x93, 0xE5, 0x90, 0x8C, 0xE6, 0xAD, 0xA5, 0xE5, 0xBC, 0x82, 0xE5, 0xB8, 0xB8], as_database_sync),
     (''cluster_status_issue'', utf8 [0xE7, 0xBE, 0xA4, 0xE9, 0x9B, 0x86, 0xE7, 0x8A, 0xB6, 0xE6, 0x80, 0x81, 0xE5, 0xBC, 0x82, 0xE5, 0xB8, 0xB8], as_cluster),
     (''privileged_account_discovery'', utf8 [0xE6, 0x96, 0xB0, 0xE5, 0xA2, 0x9E, 0xE9, 0xAB, 0x98, 0xE6, 0x9D, 0x83, 0xE9, 0x99, 0x90, 0xE8, 0xB4, 0xA6, 0xE6, 0x88, 0xB7], as_privileged),
     (''backup_status_issue'', utf8 [0xE5, 0xA4, 0x87, 0xE4, 0xBB, 0xBD, 0xE5, 0x91, 0x8A, 0xE8, 0xAD, 0xA6], as_backup)]"

definition ALERT_TYPE_LABELS :: "string dict" where
  "ALERT_TYPE_LABELS = map (\<lambda>(key, label, flag). (key, label)) ALERT_RULES"

definition step_key :: "string \<Rightarrow> string" where
  "step_key channel = (if channel = EMAIL_CHANNEL then ''deliver_email_digest'' else ''deliver_feishu_digest'')"

definition step_name :: "string \<Rightarrow> string" where
  "step_name channel = (if channel = EMAIL_CHANNEL then utf8 [0xE5, 0x8F, 0x91, 0xE9, 0x80, 0x81, 0xE6, 0xB1, 0x87, 0xE6, 0x80, 0xBB, 0xE9, 0x82, 0xAE, 0xE4, 0xBB, 0xB6] else utf8 [0xE5, 0x8F, 0x91, 0xE9, 0x80, 0x81, 0xE9, 0xA3, 0x9E, 0xE4, 0xB9, 0xA6, 0xE9, 0x80, 0x9A, 0xE7, 0x9F, 0xA5])"

record alert_message =
  am_channel :: string
  am_recipients :: "string list"
  am_title :: string
  am_body :: string

record digest_env =
  dg_smtp_ready :: bool
  dg_send :: "alert_message \<Rightarrow> string option"
  dg_container :: "pv \<Rightarrow> string"

record delivery_step =
  sp_channel :: string
  sp_status :: string
  sp_display :: string
  sp_summary :: string
  sp_skip :: "string option"
  sp_recipients :: nat
  sp_error :: "string option"

definition build_delivery_step :: "string \<Rightarrow> string \<Rightarrow> string \<Rightarrow> delivery_step" where
  "build_delivery_step channel display_state summary = \<lparr>sp_channel = channel, sp_status = ''completed'', sp_display = display_state,
     sp_summary = summary, sp_skip = None, sp_recipients = 0, sp_error = None\<rparr>"

definition resolve_enabled_channels :: "alert_settings \<Rightarrow> string list" where
  "resolve_enabled_channels settings = (if as_global settings then [EMAIL_CHANNEL] else []) @ (if as_feishu settings then [FEISHU_CHANNEL] else [])"

definition resolve_disabled_channels :: "string list \<Rightarrow> string list" where
  "resolve_disabled_channels enabled_channels = filter (\<lambda>c. c \<notin> set enabled_channels) [EMAIL_CHANNEL, FEISHU_CHANNEL]"

fun unique_events :: "int list \<Rightarrow> alert_event list \<Rightarrow> alert_event list" where
  "unique_events seen [] = []"
| "unique_events seen (e # es) = (if ev_id e \<in> set seen then unique_events seen es else e # unique_events (ev_id e # seen) es)"

section \<open>The text\<close>

definition render_event_line :: "(pv \<Rightarrow> string) \<Rightarrow> string \<Rightarrow> pdict \<Rightarrow> string" where
  "render_event_line container alert_type payload =
    (let shown = (\<lambda>key. py_str container (dget payload key))
     in if alert_type = ''database_capacity_growth'' then
          shown ''instance_name'' @ '' / '' @ shown ''database_name'' @ '' '' @ utf8 [0xE5, 0xA2, 0x9E, 0xE9, 0x95, 0xBF] @ '' '' @ shown ''size_change_percent'' @ ''%''
        else if alert_type \<in> {''database_sync_failure'', ''account_sync_failure''} then shown ''instance_name'' @ '' - '' @ shown ''error_message''
        else if alert_type = ''cluster_status_issue'' then shown ''cluster_type'' @ '' / '' @ shown ''cluster_name'' @ '' - '' @ shown ''summary_text''
        else if alert_type = ''privileged_account_discovery'' then shown ''instance_name'' @ '' / '' @ shown ''username'' @ '' - '' @ shown ''reason''
        else if alert_type = ''backup_status_issue'' then shown ''instance_name'' @ '' - '' @ shown ''reason_text''
        else py_str container (PDict payload))"

definition group_events :: "alert_event list \<Rightarrow> alert_event list dict" where
  "group_events events = fold (\<lambda>e grouped. dput (ev_type e) ((case map_of grouped (ev_type e) of None \<Rightarrow> [] | Some es \<Rightarrow> es) @ [e]) grouped) events []"

definition build_text_body :: "(pv \<Rightarrow> string) \<Rightarrow> alert_event list \<Rightarrow> string" where
  "build_text_body container events = strip (join [CHR 0x0A]
    ([''WhaleFall '' @ utf8 [0xE6, 0xAF, 0x8F, 0xE6, 0x97, 0xA5, 0xE5, 0x91, 0x8A, 0xE8, 0xAD, 0xA6, 0xE6, 0xB1, 0x87, 0xE6, 0x80, 0xBB], []] @ concat (map (\<lambda>(alert_type, typed_events).
      [''['' @ (case map_of ALERT_TYPE_LABELS alert_type of None \<Rightarrow> alert_type | Some label \<Rightarrow> label) @ ''] '' @ show_nat (length typed_events) @ '' '' @ utf8 [0xE6, 0x9D, 0xA1]]
      @ map (\<lambda>e. ''- '' @ render_event_line container alert_type (ev_payload e)) typed_events @ [[]]) (group_events events))))"

section \<open>Rules of the day\<close>

record rule_result =
  rr_key :: string
  rr_name :: string
  rr_enabled :: bool
  rr_pending :: nat
  rr_sent :: nat
  rr_display :: string
  rr_summary :: string

definition rule_result_of :: "alert_settings \<Rightarrow> alert_event list \<Rightarrow> (nat \<times> nat) dict \<Rightarrow> string \<times> string \<times> (alert_settings \<Rightarrow> bool) \<Rightarrow> rule_result" where
  "rule_result_of settings events bucket_stats rule = (case rule of (item_key, item_name, flag) \<Rightarrow>
     let enabled = flag settings;
         pending_count = length (filter (\<lambda>e. ev_type e = item_key) events);
         sent_count = (case map_of bucket_stats item_key of None \<Rightarrow> 0 | Some p \<Rightarrow> snd p);
         (display_state, summary) =
           (if enabled then
              if 0 < pending_count then (''pending'', utf8 [0xE5, 0xBE, 0x85, 0xE5, 0x8F, 0x91, 0xE9, 0x80, 0x81, 0xE4, 0xBA, 0x8B, 0xE4, 0xBB, 0xB6] @ '' '' @ show_nat pending_count @ '' '' @ utf8 [0xE6, 0x9D, 0xA1])
              else if 0 < sent_count then (''already_sent'', utf8 [0xE5, 0xBD, 0x93, 0xE5, 0xA4, 0xA9, 0xE5, 0xB7, 0xB2, 0xE5, 0x8F, 0x91, 0xE9, 0x80, 0x81] @ '' '' @ show_nat sent_count @ '' '' @ utf8 [0xE6, 0x9D, 0xA1, 0xEF, 0xBC, 0x8C, 0xE6, 0x9C, 0xAC, 0xE6, 0xAC, 0xA1, 0xE5, 0xBE, 0x85, 0xE5, 0x8F, 0x91, 0xE9, 0x80, 0x81] @ '' 0 '' @ utf8 [0xE6, 0x9D, 0xA1])
              else (''no_event'', utf8 [0xE5, 0xBD, 0x93, 0xE5, 0xA4, 0xA9, 0xE6, 0x9C, 0xAA, 0xE4, 0xBA, 0xA7, 0xE7, 0x94, 0x9F, 0xE4, 0xBA, 0x8B, 0xE4, 0xBB, 0xB6])
            else if 0 < pending_count then (''disabled'', utf8 [0xE8, 0xA7, 0x84, 0xE5, 0x88, 0x99, 0xE6, 0x9C, 0xAA, 0xE5, 0x90, 0xAF, 0xE7, 0x94, 0xA8, 0xEF, 0xBC, 0x8C, 0xE7, 0xB4, 0xAF, 0xE8, 0xAE, 0xA1, 0xE5, 0xBE, 0x85, 0xE5, 0x8F, 0x91, 0xE9, 0x80, 0x81, 0xE4, 0xBA, 0x8B, 0xE4, 0xBB, 0xB6] @ '' '' @ show_nat pending_count @ '' '' @ utf8 [0xE6, 0x9D, 0xA1])
            else if 0 < sent_count then (''disabled'', utf8 [0xE8, 0xA7, 0x84, 0xE5, 0x88, 0x99, 0xE6, 0x9C, 0xAA, 0xE5, 0x90, 0xAF, 0xE7, 0x94, 0xA8, 0xEF, 0xBC, 0x8C, 0xE5, 0xBD, 0x93, 0xE5, 0xA4, 0xA9, 0xE5, 0xB7, 0xB2, 0xE5, 0x8F, 0x91, 0xE9, 0x80, 0x81] @ '' '' @ show_nat sent_count @ '' '' @ utf8 [0xE6, 0x9D, 0xA1])
            else (''disabled'', utf8 [0xE8, 0xA7, 0x84, 0xE5, 0x88, 0x99, 0xE6, 0x9C, 0xAA, 0xE5, 0x90, 0xAF, 0xE7, 0x94, 0xA8]))
     in \<lparr>rr_key = item_key, rr_name = item_name, rr_enabled = enabled, rr_pending = pending_count, rr_sent = sent_count,
          rr_display = display_state, rr_summary = summary\<rparr>)"

definition build_rule_results :: "alert_settings \<Rightarrow> alert_event list \<Rightarrow> (nat \<times> nat) dict \<Rightarrow> rule_result list" where
  "build_rule_results settings events bucket_stats = map (rule_result_of settings events bucket_stats) ALERT_RULES"

section \<open>Delivery\<close>

text \<open>Each gives the step, the tables, and the messages that were accepted.\<close>

definition send_email_digest ::
  "digest_env \<Rightarrow> alert_event list \<Rightarrow> string list \<Rightarrow> string \<Rightarrow> string \<Rightarrow> int \<Rightarrow> alert_db \<Rightarrow> delivery_step \<times> alert_db \<times> alert_message list" where
  "send_email_digest env events recipients subject text_body delivered_at db =
    (let event_ids = map ev_id events;
         message = \<lparr>am_channel = EMAIL_CHANNEL, am_recipients = recipients, am_title = subject, am_body = text_body\<rparr>;
         failed = (\<lambda>summary error_message. ((build_delivery_step EMAIL_CHANNEL ''failed'' summary)
            \<lparr>sp_status := ''failed'', sp_recipients := length recipients, sp_error := Some error_message\<rparr>,
            record_digest_delivery EMAIL_CHANNEL event_ids delivered_at ''failed'' (Some error_message) db, []))
     in if events = [] then ((build_delivery_step EMAIL_CHANNEL ''skipped_no_event'' (utf8 [0xE6, 0x97, 0xA0, 0xE5, 0xBE, 0x85, 0xE5, 0x8F, 0x91, 0xE9, 0x80, 0x81, 0xE9, 0x82, 0xAE, 0xE4, 0xBB, 0xB6, 0xE4, 0xBA, 0x8B, 0xE4, 0xBB, 0xB6]))
            \<lparr>sp_skip := Some ''no_pending_events'', sp_recipients := length recipients\<rparr>, db, [])
        else if recipients = [] then ((build_delivery_step EMAIL_CHANNEL ''skipped_no_recipients'' (utf8 [0xE6, 0x9C, 0xAA, 0xE9, 0x85, 0x8D, 0xE7, 0xBD, 0xAE, 0xE6, 0x94, 0xB6, 0xE4, 0xBB, 0xB6, 0xE4, 0xBA, 0xBA]))\<lparr>sp_skip := Some ''no_recipients''\<rparr>, db, [])
        else if \<not> dg_smtp_ready env then failed (''SMTP '' @ utf8 [0xE9, 0x85, 0x8D, 0xE7, 0xBD, 0xAE, 0xE6, 0x9C, 0xAA, 0xE5, 0xAE, 0x8C, 0xE6, 0x88, 0x90]) (''SMTP '' @ utf8 [0xE9, 0x85, 0x8D, 0xE7, 0xBD, 0xAE, 0xE6, 0x9C, 0xAA, 0xE5, 0xAE, 0x8C, 0xE6, 0x88, 0x90])
        else (case dg_send env message of
            Some e \<Rightarrow> failed (utf8 [0xE5, 0x8F, 0x91, 0xE9, 0x80, 0x81, 0xE6, 0xB1, 0x87, 0xE6, 0x80, 0xBB, 0xE9, 0x82, 0xAE, 0xE4, 0xBB, 0xB6, 0xE5, 0xA4, 0xB1, 0xE8, 0xB4, 0xA5]) e
          | None \<Rightarrow> ((build_delivery_step EMAIL_CHANNEL ''sent''
                (utf8 [0xE5, 0xB7, 0xB2, 0xE5, 0x8F, 0x91, 0xE9, 0x80, 0x81] @ '' '' @ show_nat (length events) @ '' '' @ utf8 [0xE6, 0x9D, 0xA1, 0xE4, 0xBA, 0x8B, 0xE4, 0xBB, 0xB6, 0xE5, 0x88, 0xB0] @ '' '' @ show_nat (length recipients) @ '' '' @ utf8 [0xE4, 0xB8, 0xAA, 0xE6, 0x94, 0xB6, 0xE4, 0xBB, 0xB6, 0xE4, 0xBA, 0xBA]))\<lparr>sp_recipients := length recipients\<rparr>,
              record_digest_delivery EMAIL_CHANNEL event_ids delivered_at ''sent'' None db, [message])))"

definition send_feishu_digest ::
  "digest_env \<Rightarrow> alert_event list \<Rightarrow> string \<Rightarrow> string \<Rightarrow> int \<Rightarrow> alert_db \<Rightarrow> delivery_step \<times> alert_db \<times> alert_message list" where
  "send_feishu_digest env events title text_body delivered_at db =
    (let event_ids = map ev_id events;
         message = \<lparr>am_channel = FEISHU_CHANNEL, am_recipients = [], am_title = title, am_body = text_body\<rparr>;
         failed = (\<lambda>summary error_message. ((build_delivery_step FEISHU_CHANNEL ''failed'' summary)
            \<lparr>sp_status := ''failed'', sp_error := Some error_message\<rparr>,
            record_digest_delivery FEISHU_CHANNEL event_ids delivered_at ''failed'' (Some error_message) db, []))
     in if events = [] then ((build_delivery_step FEISHU_CHANNEL ''skipped_no_event'' (utf8 [0xE6, 0x97, 0xA0, 0xE5, 0xBE, 0x85, 0xE5, 0x8F, 0x91, 0xE9, 0x80, 0x81, 0xE9, 0xA3, 0x9E, 0xE4, 0xB9, 0xA6, 0xE4, 0xBA, 0x8B, 0xE4, 0xBB, 0xB6]))\<lparr>sp_skip := Some ''no_pending_events''\<rparr>, db, [])
        else if as_webhook (get_or_create_settings db) = [] then failed (utf8 [0xE9, 0xA3, 0x9E, 0xE4, 0xB9, 0xA6, 0xE6, 0x9C, 0xBA, 0xE5, 0x99, 0xA8, 0xE4, 0xBA, 0xBA] @ '' URL '' @ utf8 [0xE6, 0x9C, 0xAA, 0xE9, 0x85, 0x8D, 0xE7, 0xBD, 0xAE]) (utf8 [0xE9, 0xA3, 0x9E, 0xE4, 0xB9, 0xA6, 0xE6, 0x9C, 0xBA, 0xE5, 0x99, 0xA8, 0xE4, 0xBA, 0xBA] @ '' URL '' @ utf8 [0xE6, 0x9C, 0xAA, 0xE9, 0x85, 0x8D, 0xE7, 0xBD, 0xAE])
        else (case dg_send env message of
            Some e \<Rightarrow> failed (utf8 [0xE5, 0x8F, 0x91, 0xE9, 0x80, 0x81, 0xE9, 0xA3, 0x9E, 0xE4, 0xB9, 0xA6, 0xE9, 0x80, 0x9A, 0xE7, 0x9F, 0xA5, 0xE5, 0xA4, 0xB1, 0xE8, 0xB4, 0xA5]) e
          | None \<Rightarrow> (build_delivery_step FEISHU_CHANNEL ''sent'' (utf8 [0xE5, 0xB7, 0xB2, 0xE5, 0x8F, 0x91, 0xE9, 0x80, 0x81] @ '' '' @ show_nat (length events) @ '' '' @ utf8 [0xE6, 0x9D, 0xA1, 0xE4, 0xBA, 0x8B, 0xE4, 0xBB, 0xB6, 0xE5, 0x88, 0xB0, 0xE9, 0xA3, 0x9E, 0xE4, 0xB9, 0xA6]),
              record_digest_delivery FEISHU_CHANNEL event_ids delivered_at ''sent'' None db, [message])))"

definition disabled_step :: "string \<Rightarrow> delivery_step" where
  "disabled_step channel = build_delivery_step channel ''skipped_disabled''
     ((if channel = EMAIL_CHANNEL then utf8 [0xE9, 0x82, 0xAE, 0xE4, 0xBB, 0xB6] else utf8 [0xE9, 0xA3, 0x9E, 0xE4, 0xB9, 0xA6]) @ utf8 [0xE9, 0x80, 0x9A, 0xE9, 0x81, 0x93, 0xE6, 0x9C, 0xAA, 0xE5, 0x90, 0xAF, 0xE7, 0x94, 0xA8])"

definition build_no_event_delivery_steps :: "string list \<Rightarrow> string list \<Rightarrow> nat \<Rightarrow> string list \<Rightarrow> delivery_step list" where
  "build_no_event_delivery_steps enabled_channels disabled_channels sent_count recipients =
    map (\<lambda>channel. (build_delivery_step channel (if 0 < sent_count then ''skipped_already_sent'' else ''skipped_no_event'')
        (if 0 < sent_count then utf8 [0xE5, 0xBD, 0x93, 0xE5, 0xA4, 0xA9, 0xE5, 0xB7, 0xB2, 0xE5, 0x8F, 0x91, 0xE9, 0x80, 0x81] @ '' '' @ show_nat sent_count @ '' '' @ utf8 [0xE6, 0x9D, 0xA1, 0xE5, 0x91, 0x8A, 0xE8, 0xAD, 0xA6, 0xE4, 0xBA, 0x8B, 0xE4, 0xBB, 0xB6, 0xEF, 0xBC, 0x8C, 0xE6, 0x9C, 0xAC, 0xE6, 0xAC, 0xA1, 0xE6, 0x97, 0xA0, 0xE5, 0xBE, 0x85, 0xE5, 0x8F, 0x91, 0xE9, 0x80, 0x81, 0xE4, 0xBA, 0x8B, 0xE4, 0xBB, 0xB6] else utf8 [0xE6, 0x97, 0xA0, 0xE5, 0xBE, 0x85, 0xE5, 0x8F, 0x91, 0xE9, 0x80, 0x81, 0xE4, 0xBA, 0x8B, 0xE4, 0xBB, 0xB6]))
        \<lparr>sp_skip := Some (if 0 < sent_count then ''already_sent_today'' else ''no_pending_events''),
          sp_recipients := (if channel = EMAIL_CHANNEL then length recipients else 0)\<rparr>) enabled_channels
    @ map disabled_step disabled_channels"

record digest_result =
  dr_sent :: bool
  dr_skipped :: bool
  dr_skip_reason :: "string option"
  dr_event_count :: nat
  dr_recipient_count :: nat
  dr_subject :: "string option"
  dr_rules :: "rule_result list"
  dr_steps :: "delivery_step list"

definition digest_subject :: "date \<Rightarrow> string" where
  "digest_subject bucket_date = utf8 [0xE5, 0x91, 0x8A, 0xE8, 0xAD, 0xA6, 0xE6, 0xB1, 0x87, 0xE6, 0x80, 0xBB] @ '' - '' @ iso_date bucket_date"

definition pending_on :: "string \<Rightarrow> date \<Rightarrow> string list \<Rightarrow> alert_db \<Rightarrow> alert_event list" where
  "pending_on channel bucket_date enabled_channels db =
    (if channel \<in> set enabled_channels then list_pending_digest_events (Some channel) (Some bucket_date) db else [])"

definition send_pending_digest :: "digest_env \<Rightarrow> int \<Rightarrow> alert_db \<Rightarrow> digest_result \<times> alert_db \<times> alert_message list" where
  "send_pending_digest env now db =
    (let bucket_date = resolve_bucket_date now;
         settings = get_or_create_settings db;
         recipients = as_recipients settings;
         enabled_channels = resolve_enabled_channels settings;
         email_events = pending_on EMAIL_CHANNEL bucket_date enabled_channels db;
         feishu_events = pending_on FEISHU_CHANNEL bucket_date enabled_channels db;
         events = unique_events [] (email_events @ feishu_events);
         bucket_stats = get_bucket_event_counts bucket_date enabled_channels db;
         base = \<lparr>dr_sent = False, dr_skipped = False, dr_skip_reason = None, dr_event_count = length events, dr_recipient_count = length recipients,
           dr_subject = None, dr_rules = build_rule_results settings events bucket_stats, dr_steps = []\<rparr>
     in if enabled_channels = [] then
          (base\<lparr>dr_steps := map disabled_step [EMAIL_CHANNEL, FEISHU_CHANNEL], dr_skipped := True, dr_skip_reason := Some ''no_delivery_channel''\<rparr>, db, [])
        else if events = [] then
          (let sent_count = sum_list (map (snd \<circ> snd) bucket_stats)
           in (base\<lparr>dr_steps := build_no_event_delivery_steps enabled_channels (resolve_disabled_channels enabled_channels) sent_count recipients,
                dr_skipped := True, dr_skip_reason := Some (if 0 < sent_count then ''already_sent_today'' else ''no_pending_events'')\<rparr>, db, []))
        else
          (let subject = digest_subject bucket_date;
               text_body = build_text_body (dg_container env) events;
               (email_step, db1, sent1) = (if EMAIL_CHANNEL \<in> set enabled_channels
                 then send_email_digest env email_events recipients subject text_body now db else (disabled_step EMAIL_CHANNEL, db, []));
               (feishu_step, db2, sent2) = (if FEISHU_CHANNEL \<in> set enabled_channels
                 then send_feishu_digest env feishu_events subject text_body now db1 else (disabled_step FEISHU_CHANNEL, db1, []));
               steps = [email_step, feishu_step];
               sent = list_ex (\<lambda>s. sp_status s = ''completed'' \<and> sp_display s = ''sent'') steps;
               failed_enabled = list_ex (\<lambda>s. sp_status s = ''failed'' \<and> sp_channel s \<in> set enabled_channels) steps
           in (base\<lparr>dr_steps := steps, dr_skipped := \<not> sent \<and> \<not> failed_enabled, dr_sent := sent, dr_subject := Some subject\<rparr>, db2, sent1 @ sent2)))"

end
