(* ===== verification/Alert_Results.thy ===== *)
theory Alert_Results
  imports Alert_Clusters Alert_Digest
begin

text \<open>
  What the channels are told over time. A text lists the events that are pending on either channel, so
  that it may repeat an event; it always has a new one, and the tables say what was told.
\<close>

section \<open>The tables\<close>

definition event_key :: "alert_event \<Rightarrow> string \<times> date \<times> string" where
  "event_key e = (ev_type e, ev_bucket e, ev_key e)"

text \<open>What the invariant says of a row: its id, its key and when it was sent by mail.\<close>

definition event_row :: "alert_event \<Rightarrow> int \<times> (string \<times> date \<times> string) \<times> int option" where
  "event_row e = (ev_id e, event_key e, ev_sent_at e)"

abbreviation event_rows :: "alert_db \<Rightarrow> (int \<times> (string \<times> date \<times> string) \<times> int option) list" where
  "event_rows db \<equiv> map event_row (ab_events db)"

definition events_valid :: "(int \<times> (string \<times> date \<times> string) \<times> int option) list \<Rightarrow> int \<Rightarrow> bool" where
  "events_valid rows i \<longleftrightarrow> distinct (map fst rows) \<and> distinct (map (fst \<circ> snd) rows) \<and> (\<forall>x \<in> set rows. fst x < i)"

lemma same_event_key: "same_event (ev_type e) (ev_bucket e) (ev_key e) x \<longleftrightarrow> event_key x = event_key e"
  by (auto simp: same_event_def event_key_def)

lemma create_event_cases:
  "create_event e db = (False, db\<lparr>ab_next := ab_next db + 1\<rparr>) \<and> event_key e \<in> event_key ` set (ab_events db)
   \<or> create_event e db = (True, db\<lparr>ab_events := ab_events db @ [e\<lparr>ev_id := ab_next db\<rparr>], ab_next := ab_next db + 1\<rparr>) \<and> event_key e \<notin> event_key ` set (ab_events db)"
  unfolding create_event_def same_event_key by (auto simp: find_None_iff) (metis imageI)

definition sent_pair :: "delivery list \<Rightarrow> string \<Rightarrow> int \<Rightarrow> bool" where
  "sent_pair deliveries channel i = (\<exists>d \<in> set deliveries. dv_event d = i \<and> dv_channel d = channel \<and> dv_status d = ''sent'')"

lemma sent_on_pair: "sent_on c i db = sent_pair (ab_deliveries db) c i"
  by (simp add: sent_on_def sent_pair_def)

lemma sent_on_has: "has_sent_delivery i db \<longleftrightarrow> (\<exists>c. sent_pair (ab_deliveries db) c i)"
  by (auto simp: has_sent_delivery_def sent_pair_def)

definition tables_agree :: "(int \<times> (string \<times> date \<times> string) \<times> int option) list \<Rightarrow> delivery list \<Rightarrow> (string \<times> int) list \<Rightarrow> bool" where
  "tables_agree rows deliveries pairs \<longleftrightarrow> distinct pairs
     \<and> (\<forall>c i. (c, i) \<in> set pairs \<longleftrightarrow> sent_pair deliveries c i)
     \<and> (\<forall>d \<in> set deliveries. dv_event d \<in> fst ` set rows)
     \<and> distinct (map (\<lambda>d. (dv_event d, dv_channel d)) deliveries)
     \<and> (\<forall>x \<in> set rows. snd (snd x) \<noteq> None \<longleftrightarrow> sent_pair deliveries ''email'' (fst x))"

definition channels_valid :: "alert_settings option \<Rightarrow> bool" where
  "channels_valid settings \<longleftrightarrow> (case settings of None \<Rightarrow> True | Some s \<Rightarrow> as_feishu s \<longrightarrow> as_webhook s \<noteq> [])"

text \<open>\<^verbatim>\<open>pairs\<close> are the channels with the ids of the events they were told of.\<close>

definition world_valid :: "alert_db \<Rightarrow> (string \<times> int) list \<Rightarrow> bool" where
  "world_valid db pairs \<longleftrightarrow> events_valid (event_rows db) (ab_next db) \<and> tables_agree (event_rows db) (ab_deliveries db) pairs
     \<and> channels_valid (ab_settings db)"

section \<open>Recording keeps the tables\<close>

lemma fresh_unsent: "tables_agree rows deliveries pairs \<Longrightarrow> i \<notin> fst ` set rows \<Longrightarrow> \<not> sent_pair deliveries c i"
  by (auto simp: tables_agree_def sent_pair_def)

lemma new_row:
  assumes "events_valid rows i" "tables_agree rows deliveries pairs" "k \<notin> (fst \<circ> snd) ` set rows"
  shows "events_valid (rows @ [(i, k, None)]) (i + 1) \<and> tables_agree (rows @ [(i, k, None)]) deliveries pairs"
proof -
  have "i \<notin> fst ` set rows" using assms(1) by (auto simp: events_valid_def)
  with fresh_unsent [OF assms(2)] assms show ?thesis
    by (auto simp: events_valid_def tables_agree_def less_le_not_le intro: order.strict_trans)
qed

lemma create_event_valid:
  assumes "world_valid db sent" "ev_sent_at e = None"
  shows "world_valid (snd (create_event e db)) sent"
  using create_event_cases [of e db]
proof
  assume "create_event e db = (False, db\<lparr>ab_next := ab_next db + 1\<rparr>) \<and> event_key e \<in> event_key ` set (ab_events db)"
  with assms show ?thesis by (fastforce simp: world_valid_def events_valid_def)
next
  let ?e = "e\<lparr>ev_id := ab_next db\<rparr>"
  assume new: "create_event e db = (True, db\<lparr>ab_events := ab_events db @ [?e], ab_next := ab_next db + 1\<rparr>) \<and> event_key e \<notin> event_key ` set (ab_events db)"
  then have "event_key e \<notin> (fst \<circ> snd) ` set (event_rows db)" by (simp add: image_image event_row_def)
  moreover have "event_row ?e = (ab_next db, event_key e, None)" using assms(2) by (simp add: event_row_def event_key_def)
  ultimately show ?thesis
    using new assms(1) new_row [of "event_rows db" "ab_next db" "ab_deliveries db" sent "event_key e"] by (simp add: world_valid_def)
qed

lemma write_event_valid:
  assumes "world_valid db sent" "\<And>x. event_row (f x) = event_row x"
  shows "world_valid (write_event i f db) sent"
proof -
  have "event_row (if ev_id e = i then f e else e) = event_row e" for e using assms(2) by simp
  then have "event_rows (write_event i f db) = event_rows db" by (simp add: write_event_def)
  moreover have "ab_deliveries (write_event i f db) = ab_deliveries db" "ab_next (write_event i f db) = ab_next db"
    "ab_settings (write_event i f db) = ab_settings db"
    by (simp_all add: write_event_def)
  ultimately show ?thesis using assms(1) by (simp only: world_valid_def)
qed

lemma upsert_valid:
  assumes "world_valid db sent" "ev_sent_at e = None" "\<And>x. event_row (f x) = event_row x"
  shows "world_valid (snd (upsert_pending_event protect e f db)) sent"
  using create_event_valid [OF assms(1,2)] write_event_valid [OF assms(1,3)] assms(1)
  by (auto simp: upsert_pending_event_def split: option.split)

text \<open>Only events that no channel was told of are deleted.\<close>

lemma delete_rows:
  assumes "events_valid rows i" "tables_agree rows deliveries pairs" "\<And>j c. j \<in> D \<Longrightarrow> \<not> sent_pair deliveries c j"
  shows "events_valid (filter (\<lambda>x. fst x \<notin> D) rows) i" "tables_agree (filter (\<lambda>x. fst x \<notin> D) rows) (filter (\<lambda>d. dv_event d \<notin> D) deliveries) pairs"
proof -
  show "events_valid (filter (\<lambda>x. fst x \<notin> D) rows) i"
    using assms(1) by (auto simp: events_valid_def distinct_map_filter)
  have "sent_pair (filter (\<lambda>d. dv_event d \<notin> D) deliveries) c j = sent_pair deliveries c j" for c j
    using assms(3) by (auto simp: sent_pair_def)
  moreover have kept: "dv_event d \<in> fst ` {x \<in> set rows. fst x \<notin> D}" if "dv_event d \<in> fst ` set rows" "dv_event d \<notin> D" for d
    using that by auto
  ultimately show "tables_agree (filter (\<lambda>x. fst x \<notin> D) rows) (filter (\<lambda>d. dv_event d \<notin> D) deliveries) pairs"
    using assms(2) by (auto simp: tables_agree_def distinct_map_filter) (rule kept, auto)
qed

lemma delete_valid:
  assumes "world_valid db sent"
  shows "world_valid (delete_pending_events t b k keep db) sent"
proof -
  obtain D where D: "ab_events (delete_pending_events t b k keep db) = filter (\<lambda>e. ev_id e \<notin> D) (ab_events db)"
    "ab_deliveries (delete_pending_events t b k keep db) = filter (\<lambda>d. dv_event d \<notin> D) (ab_deliveries db)"
    "\<And>j. j \<in> D \<Longrightarrow> \<not> has_sent_delivery j db"
    by (rule that [of "set (map ev_id (filter (\<lambda>e. is_pending t b db e \<and> (k = None \<or> k = Some (ev_key e)) \<and> (keep = [] \<or> ev_key e \<notin> set keep)) (ab_events db)))"])
      (auto simp: delete_pending_events_def Let_def is_pending_def)
  have "event_rows (delete_pending_events t b k keep db) = filter (\<lambda>x. fst x \<notin> D) (event_rows db)"
    by (simp add: D(1) filter_map o_def event_row_def)
  moreover have "\<not> sent_pair (ab_deliveries db) c j" if "j \<in> D" for c j using D(3) [OF that] by (simp add: sent_on_has)
  ultimately show ?thesis
    using assms D(2) delete_rows [of "event_rows db" "ab_next db" "ab_deliveries db" sent D]
    by (simp add: world_valid_def delete_pending_events_def Let_def)
qed

section \<open>What a digest does\<close>

definition same_delivery :: "string \<Rightarrow> int \<Rightarrow> delivery \<Rightarrow> bool" where
  "same_delivery c i d = (dv_event d = i \<and> dv_channel d = c)"

lemma record_list:
  assumes "ids \<noteq> []"
  shows "ab_deliveries (record_digest_delivery c ids at st err db) =
    map (\<lambda>d. if dv_event d \<in> set ids \<and> dv_channel d = c
       then d\<lparr>dv_status := st, dv_at := (if st = ''sent'' then Some at else None), dv_error := err\<rparr> else d) (ab_deliveries db)
    @ map (\<lambda>i. \<lparr>dv_event = i, dv_channel = c, dv_status = st, dv_at = (if st = ''sent'' then Some at else None), dv_error = err\<rparr>)
        (filter (\<lambda>i. \<not> (\<exists>d \<in> set (ab_deliveries db). same_delivery c i d)) ids)"
  using assms by (simp add: record_digest_delivery_def Let_def mark_events_digest_sent_def same_delivery_def)

lemma record_deliveries:
  assumes "ids \<noteq> []"
  shows "sent_pair (ab_deliveries (record_digest_delivery c ids at st err db)) d i
    \<longleftrightarrow> (if d = c \<and> i \<in> set ids then st = ''sent'' else sent_pair (ab_deliveries db) d i)"
proof (cases "d = c \<and> i \<in> set ids")
  case True
  then show ?thesis unfolding record_list [OF assms] sent_pair_def
    by (cases "\<exists>x \<in> set (ab_deliveries db). same_delivery c i x") (auto simp: bex_Un same_delivery_def)
next
  case False
  then show ?thesis unfolding record_list [OF assms] sent_pair_def by (auto simp: bex_Un)
qed

lemma record_settings [simp]: "ab_settings (record_digest_delivery c ids at st err db) = ab_settings db"
  "ab_next (record_digest_delivery c ids at st err db) = ab_next db"
  by (simp_all add: record_digest_delivery_def Let_def mark_events_digest_sent_def)

lemma record_rows: "event_rows (record_digest_delivery c ids at st err db)
    = map (\<lambda>(i, k, s). (i, k, if c = ''email'' \<and> st = ''sent'' \<and> i \<in> set ids then Some at else s)) (event_rows db)"
  by (auto simp: record_digest_delivery_def Let_def mark_events_digest_sent_def event_row_def event_key_def)

lemma record_pairs:
  assumes "distinct (map (\<lambda>d. (dv_event d, dv_channel d)) (ab_deliveries db))" "distinct ids"
  shows "distinct (map (\<lambda>d. (dv_event d, dv_channel d)) (ab_deliveries (record_digest_delivery c ids at st err db)))"
    and "dv_event ` set (ab_deliveries (record_digest_delivery c ids at st err db)) \<subseteq> dv_event ` set (ab_deliveries db) \<union> set ids"
proof -
  let ?k = "\<lambda>d. (dv_event d, dv_channel d)"
  have "map ?k (ab_deliveries (record_digest_delivery c ids at st err db)) = map ?k (ab_deliveries db)
      @ map (\<lambda>i. (i, c)) (filter (\<lambda>i. \<not> (\<exists>d \<in> set (ab_deliveries db). same_delivery c i d)) ids)" if "ids \<noteq> []"
    unfolding record_list [OF that] by simp
  moreover have "record_digest_delivery c [] at st err db = db" by (simp add: record_digest_delivery_def)
  moreover have "distinct (map (\<lambda>i. (i, c)) (filter P ids))" for P using assms(2) by (simp add: distinct_map inj_on_def)
  ultimately show "distinct (map ?k (ab_deliveries (record_digest_delivery c ids at st err db)))"
    using assms by (cases "ids = []") (auto simp: same_delivery_def)
  show "dv_event ` set (ab_deliveries (record_digest_delivery c ids at st err db)) \<subseteq> dv_event ` set (ab_deliveries db) \<union> set ids"
  proof (cases "ids = []")
    case False
    then show ?thesis unfolding record_list [OF False] by auto
  qed (simp add: record_digest_delivery_def)
qed

text \<open>A digest on one channel: nothing, a failure that is recorded, or a message.\<close>

definition delivered :: "string \<Rightarrow> int list \<Rightarrow> alert_db \<Rightarrow> alert_db \<Rightarrow> alert_message list \<Rightarrow> bool" where
  "delivered channel ids db db' messages \<longleftrightarrow> messages = [] \<and> (db' = db \<or> (\<exists>at e. db' = record_digest_delivery channel ids at ''failed'' (Some e) db))
     \<or> ids \<noteq> [] \<and> (\<exists>m at. messages = [m] \<and> am_channel m = channel \<and> db' = record_digest_delivery channel ids at ''sent'' None db)"

lemma email_delivered: "send_email_digest env events recipients subject body at db = (st, db', messages) \<Longrightarrow> delivered EMAIL_CHANNEL (map ev_id events) db db' messages"
  by (auto simp: send_email_digest_def delivered_def Let_def split: if_splits option.splits)

lemma feishu_delivered: "send_feishu_digest env events subject body at db = (st, db', messages) \<Longrightarrow> delivered FEISHU_CHANNEL (map ev_id events) db db' messages"
  by (auto simp: send_feishu_digest_def delivered_def Let_def split: if_splits option.splits)

lemma record_valid:
  assumes valid: "world_valid db sent" and ids: "ids \<noteq> []" "distinct ids" "set ids \<subseteq> ev_id ` set (ab_events db)"
    and unsent: "\<And>i. i \<in> set ids \<Longrightarrow> \<not> sent_pair (ab_deliveries db) c i"
    and new: "pairs = (if st = ''sent'' then map (Pair c) ids else [])"
  shows "world_valid (record_digest_delivery c ids at st e db) (sent @ pairs)"
proof -
  let ?db' = "record_digest_delivery c ids at st e db"
  have old: "events_valid (event_rows db) (ab_next db)" "tables_agree (event_rows db) (ab_deliveries db) sent" "channels_valid (ab_settings db)"
    using valid by (auto simp: world_valid_def)
  have agree: "distinct sent" "\<And>c i. (c, i) \<in> set sent \<longleftrightarrow> sent_pair (ab_deliveries db) c i"
    "\<forall>d \<in> set (ab_deliveries db). dv_event d \<in> fst ` set (event_rows db)" "distinct (map (\<lambda>d. (dv_event d, dv_channel d)) (ab_deliveries db))"
    "\<forall>x \<in> set (event_rows db). snd (snd x) \<noteq> None \<longleftrightarrow> sent_pair (ab_deliveries db) ''email'' (fst x)"
    using old(2) unfolding tables_agree_def by blast+
  have same: "map fst (event_rows ?db') = map fst (event_rows db)" "map (fst \<circ> snd) (event_rows ?db') = map (fst \<circ> snd) (event_rows db)"
    unfolding record_rows map_map by (rule map_cong [OF refl], simp split: prod.split)+
  then have set_same: "fst ` set (event_rows ?db') = fst ` set (event_rows db)" by (metis set_map)
  have "\<forall>i \<in> fst ` set (event_rows ?db'). i < ab_next db"
    using old(1) unfolding events_valid_def set_same by simp
  then have "\<forall>x \<in> set (event_rows ?db'). fst x < ab_next db" by simp
  then have "events_valid (event_rows ?db') (ab_next db)" using old(1) same by (simp add: events_valid_def)
  moreover have "tables_agree (event_rows ?db') (ab_deliveries ?db') (sent @ pairs)"
    unfolding tables_agree_def
  proof (intro conjI ballI allI)
    have "(c, i) \<notin> set sent" if "i \<in> set ids" for i using agree(2) unsent [OF that] by blast
    moreover have "distinct (map (Pair c) ids)" using ids(2) by (simp add: distinct_map inj_on_def)
    ultimately show "distinct (sent @ pairs)" using agree(1) by (auto simp: new)
    show "(d, i) \<in> set (sent @ pairs) \<longleftrightarrow> sent_pair (ab_deliveries ?db') d i" for d i
      using agree(2) unsent [of i] unfolding record_deliveries [OF ids(1)] by (auto simp: new)
    show "dv_event d \<in> fst ` set (event_rows ?db')" if "d \<in> set (ab_deliveries ?db')" for d
    proof -
      have "set ids \<subseteq> fst ` set (event_rows db)" using ids(3) by (simp add: image_image event_row_def)
      moreover have "dv_event d \<in> dv_event ` set (ab_deliveries db) \<union> set ids"
        by (rule subsetD [OF record_pairs(2) [OF agree(4) ids(2)] imageI [OF that]])
      ultimately show ?thesis using agree(3) unfolding set_same by auto
    qed
    show "distinct (map (\<lambda>d. (dv_event d, dv_channel d)) (ab_deliveries ?db'))"
      by (rule record_pairs(1) [OF agree(4) ids(2)])
    show "snd (snd x) \<noteq> None \<longleftrightarrow> sent_pair (ab_deliveries ?db') ''email'' (fst x)" if "x \<in> set (event_rows ?db')" for x
    proof -
      from that obtain y where y: "y \<in> set (event_rows db)" "x = (case y of (i, k, s) \<Rightarrow> (i, k, if c = ''email'' \<and> st = ''sent'' \<and> i \<in> set ids then Some at else s))"
        unfolding record_rows set_map by blast
      obtain i k s where iks: "y = (i, k, s)" by (cases y)
      have x: "(i, k, s) \<in> set (event_rows db)" "x = (i, k, if c = ''email'' \<and> st = ''sent'' \<and> i \<in> set ids then Some at else s)"
        using y by (simp_all add: iks)
      have "s \<noteq> None \<longleftrightarrow> sent_pair (ab_deliveries db) ''email'' i" using bspec [OF agree(5) x(1)] by simp
      then show ?thesis using unsent [of i] unfolding record_deliveries [OF ids(1)] x(2)
        by (cases "c = ''email'' \<and> i \<in> set ids") auto
    qed
  qed
  ultimately show ?thesis using old(3) by (simp add: world_valid_def)
qed

lemma delivered_valid:
  assumes "delivered channel ids db db' messages" "world_valid db sent" "distinct ids" "set ids \<subseteq> ev_id ` set (ab_events db)"
    and "\<And>i. i \<in> set ids \<Longrightarrow> \<not> sent_pair (ab_deliveries db) channel i"
  shows "world_valid db' (sent @ (if messages = [] then [] else map (Pair channel) ids))"
proof (cases "db' = db \<and> messages = []")
  case False
  moreover have "record_digest_delivery channel [] at st e db = db" for at st e by (simp add: record_digest_delivery_def)
  ultimately have "messages = [] \<and> ids \<noteq> [] \<and> (\<exists>at e. db' = record_digest_delivery channel ids at ''failed'' (Some e) db)
      \<or> messages \<noteq> [] \<and> ids \<noteq> [] \<and> (\<exists>at. db' = record_digest_delivery channel ids at ''sent'' None db)"
    using assms(1) unfolding delivered_def by fastforce
  then obtain at st e where r: "db' = record_digest_delivery channel ids at st e db" "ids \<noteq> []" "messages = [] \<longleftrightarrow> st \<noteq> ''sent''"
  proof
    assume "messages = [] \<and> ids \<noteq> [] \<and> (\<exists>at e. db' = record_digest_delivery channel ids at ''failed'' (Some e) db)"
    then show thesis using that [of _ "''failed''"] by auto
  next
    assume "messages \<noteq> [] \<and> ids \<noteq> [] \<and> (\<exists>at. db' = record_digest_delivery channel ids at ''sent'' None db)"
    then show thesis using that [of _ "''sent''"] by auto
  qed
  have "(if messages = [] then [] else map (Pair channel) ids) = (if st = ''sent'' then map (Pair channel) ids else [])" using r(3) by auto
  then show ?thesis using record_valid [OF assms(2) r(2) assms(3,4,5)] r(1) by blast
qed (use assms(2) in simp)

lemma pending_ids:
  assumes "world_valid db sent" "events = pending_on channel b enabled db"
  shows "distinct (map ev_id events)" "set (map ev_id events) \<subseteq> ev_id ` set (ab_events db)"
    and "channel \<noteq> [] \<Longrightarrow> i \<in> set (map ev_id events) \<Longrightarrow> \<not> sent_pair (ab_deliveries db) channel i"
proof -
  have "distinct (map ev_id (ab_events db))" using assms(1) by (simp add: world_valid_def events_valid_def o_def event_row_def)
  then have "distinct (map ev_id (filter P (ab_events db)))" for P by (rule distinct_map_filter)
  then have "distinct (map ev_id (sort_key f (filter P (ab_events db))))" for f :: "alert_event \<Rightarrow> int \<times> int" and P
    by (metis distinct_map distinct_sort set_sort)
  then show "distinct (map ev_id events)" unfolding assms(2) pending_on_def list_pending_digest_events_def by simp
  show "set (map ev_id events) \<subseteq> ev_id ` set (ab_events db)" "channel \<noteq> [] \<Longrightarrow> i \<in> set (map ev_id events) \<Longrightarrow> \<not> sent_pair (ab_deliveries db) channel i"
    unfolding assms(2) by (auto simp: pending_on_def list_pending_digest_events_def sent_on_pair split: if_splits)
qed

text \<open>What the digest does to the tables: one delivery after the other.\<close>

lemma digest_deliveries:
  assumes "send_pending_digest env now db = (r, db', messages)"
  shows "\<exists>db1 sent1 sent2. delivered EMAIL_CHANNEL (map ev_id (pending_on EMAIL_CHANNEL (resolve_bucket_date now) (resolve_enabled_channels (get_or_create_settings db)) db)) db db1 sent1
    \<and> delivered FEISHU_CHANNEL (map ev_id (pending_on FEISHU_CHANNEL (resolve_bucket_date now) (resolve_enabled_channels (get_or_create_settings db)) db)) db1 db' sent2
    \<and> messages = sent1 @ sent2"
proof -
  let ?enabled = "resolve_enabled_channels (get_or_create_settings db)" and ?day = "resolve_bucket_date now"
  let ?mail = "pending_on EMAIL_CHANNEL ?day ?enabled db" and ?robot = "pending_on FEISHU_CHANNEL ?day ?enabled db"
  have idle: "delivered c ids d d []" for c ids and d :: alert_db by (simp add: delivered_def)
  show ?thesis
  proof (cases "?enabled = [] \<or> unique_events [] (?mail @ ?robot) = []")
    case True
    then have "db' = db \<and> messages = []" using assms by (auto simp: send_pending_digest_def Let_def split: if_splits)
    moreover have "delivered EMAIL_CHANNEL (map ev_id ?mail) db db []" "delivered FEISHU_CHANNEL (map ev_id ?robot) db db []"
      by (rule idle)+
    ultimately show ?thesis by fastforce
  next
    case False
    then obtain subject body step1 db1 sent1 step2 sent2 where
      mail: "(if EMAIL_CHANNEL \<in> set ?enabled then send_email_digest env ?mail (as_recipients (get_or_create_settings db)) subject body now db
          else (disabled_step EMAIL_CHANNEL, db, [])) = (step1, db1, sent1)"
      and robot: "(if FEISHU_CHANNEL \<in> set ?enabled then send_feishu_digest env ?robot subject body now db1
          else (disabled_step FEISHU_CHANNEL, db1, [])) = (step2, db', sent2)"
      and "messages = sent1 @ sent2"
      using assms by (auto simp: send_pending_digest_def Let_def split: prod.splits simp del: not_None_eq) 
    have "delivered EMAIL_CHANNEL (map ev_id ?mail) db db1 sent1"
      using mail email_delivered idle by (auto split: if_splits)
    moreover have "delivered FEISHU_CHANNEL (map ev_id ?robot) db1 db' sent2"
      using robot feishu_delivered idle by (auto split: if_splits)
    ultimately show ?thesis using \<open>messages = sent1 @ sent2\<close> by blast
  qed
qed

lemma delivered_other:
  assumes "delivered c ids db db' messages" "d \<noteq> c"
  shows "sent_pair (ab_deliveries db') d i = sent_pair (ab_deliveries db) d i" "ev_id ` set (ab_events db') = ev_id ` set (ab_events db)"
proof -
  have "ev_id ` set (ab_events (record_digest_delivery c ids at st e db)) = ev_id ` set (ab_events db)" for at st e
  proof -
    have "map fst (event_rows (record_digest_delivery c ids at st e db)) = map fst (event_rows db)"
      unfolding record_rows map_map by (rule map_cong [OF refl], simp split: prod.split)
    then have "fst ` set (event_rows (record_digest_delivery c ids at st e db)) = fst ` set (event_rows db)" by (metis set_map)
    then show ?thesis by (simp add: image_image event_row_def)
  qed
  moreover have "sent_pair (ab_deliveries (record_digest_delivery c ids at st e db)) d i = sent_pair (ab_deliveries db) d i" for at st e
    using assms(2) by (cases "ids = []") (simp_all add: record_deliveries, simp add: record_digest_delivery_def)
  ultimately show "sent_pair (ab_deliveries db') d i = sent_pair (ab_deliveries db) d i" "ev_id ` set (ab_events db') = ev_id ` set (ab_events db)"
    using assms(1) unfolding delivered_def by metis+
qed

lemma digest_valid:
  assumes "send_pending_digest env now db = (r, db', messages)" "world_valid db sent"
    and "enabled = resolve_enabled_channels (get_or_create_settings db)" "day = resolve_bucket_date now"
    and "mail = map ev_id (pending_on EMAIL_CHANNEL day enabled db)" "robot = map ev_id (pending_on FEISHU_CHANNEL day enabled db)"
  shows "\<exists>db1 sent1 sent2. delivered EMAIL_CHANNEL mail db db1 sent1 \<and> delivered FEISHU_CHANNEL robot db1 db' sent2 \<and> messages = sent1 @ sent2
    \<and> world_valid db' (sent @ (if sent1 = [] then [] else map (Pair EMAIL_CHANNEL) mail) @ (if sent2 = [] then [] else map (Pair FEISHU_CHANNEL) robot))"
proof -
  obtain db1 sent1 sent2 where d: "delivered EMAIL_CHANNEL mail db db1 sent1" "delivered FEISHU_CHANNEL robot db1 db' sent2" "messages = sent1 @ sent2"
    using digest_deliveries [OF assms(1)] unfolding assms(3-6) by blast
  have names: "EMAIL_CHANNEL \<noteq> []" "FEISHU_CHANNEL \<noteq> []" "FEISHU_CHANNEL \<noteq> EMAIL_CHANNEL" by (simp_all add: EMAIL_CHANNEL_def FEISHU_CHANNEL_def)
  note mail = pending_ids [where channel = EMAIL_CHANNEL and b = day and enabled = enabled, OF assms(2) refl, folded assms(5)]
  note robot = pending_ids [where channel = FEISHU_CHANNEL and b = day and enabled = enabled, OF assms(2) refl, folded assms(6)]
  have one: "world_valid db1 (sent @ (if sent1 = [] then [] else map (Pair EMAIL_CHANNEL) mail))"
    by (rule delivered_valid [OF d(1) assms(2)]) (use mail names in auto)
  have "world_valid db' ((sent @ (if sent1 = [] then [] else map (Pair EMAIL_CHANNEL) mail)) @ (if sent2 = [] then [] else map (Pair FEISHU_CHANNEL) robot))"
    by (rule delivered_valid [OF d(2) one]) (use robot names delivered_other [OF d(1) names(3)] in auto)
  then show ?thesis using d by (intro exI conjI) (assumption | simp)+
qed

section \<open>What the texts say\<close>

text \<open>A message that was sent, with the events its text lists; it is kept unless the task that sent it
  rolled its session back.\<close>

record told_message =
  tm_message :: alert_message
  tm_listed :: "alert_event list"
  tm_kept :: bool

definition digest_events :: "int \<Rightarrow> alert_db \<Rightarrow> alert_event list" where
  "digest_events now db =
    (let enabled = resolve_enabled_channels (get_or_create_settings db); day = resolve_bucket_date now
     in unique_events [] (pending_on EMAIL_CHANNEL day enabled db @ pending_on FEISHU_CHANNEL day enabled db))"

definition told_by :: "bool \<Rightarrow> alert_event list \<Rightarrow> alert_message \<Rightarrow> told_message" where
  "told_by kept events m = \<lparr>tm_message = m, tm_listed = events, tm_kept = kept\<rparr>"

lemma told_by_simps [simp]: "tm_message (told_by k es m) = m" "tm_listed (told_by k es m) = es" "tm_kept (told_by k es m) = k"
  by (simp_all add: told_by_def)

text \<open>The ids of the events that kept messages of a channel have listed.\<close>

definition listed_on :: "string \<Rightarrow> told_message list \<Rightarrow> int set" where
  "listed_on c log = {ev_id e | e t. t \<in> set log \<and> tm_kept t \<and> am_channel (tm_message t) = c \<and> e \<in> set (tm_listed t)}"

lemma listed_on_simps [simp]: "listed_on c [] = {}"
  "listed_on c (log @ [t]) = listed_on c log \<union> (if tm_kept t \<and> am_channel (tm_message t) = c then ev_id ` set (tm_listed t) else {})"
  by (auto simp: listed_on_def)

definition brings_news :: "told_message list \<Rightarrow> bool" where
  "brings_news log \<longleftrightarrow> (\<forall>pre t post. log = pre @ t # post \<longrightarrow> tm_kept t \<longrightarrow> \<not> ev_id ` set (tm_listed t) \<subseteq> listed_on (am_channel (tm_message t)) pre)"

lemma news_Nil [simp]: "brings_news []"
  by (simp add: brings_news_def)

lemma news_snoc [simp]:
  "brings_news (log @ [t]) \<longleftrightarrow> brings_news log \<and> (tm_kept t \<longrightarrow> \<not> ev_id ` set (tm_listed t) \<subseteq> listed_on (am_channel (tm_message t)) log)" (is "?l \<longleftrightarrow> ?r")
proof
  assume l: ?l
  have "log @ [t] = pre @ u # (post @ [t])" if "log = pre @ u # post" for pre u post using that by simp
  with l show ?r unfolding brings_news_def by blast
next
  assume r: ?r
  show ?l unfolding brings_news_def
  proof (intro allI impI)
    fix pre u post assume u: "log @ [t] = pre @ u # post" "tm_kept u"
    then show "\<not> ev_id ` set (tm_listed u) \<subseteq> listed_on (am_channel (tm_message u)) pre"
      using r by (cases post rule: rev_cases) (auto simp: brings_news_def)
  qed
qed

definition log_valid :: "(string \<times> int) list \<Rightarrow> told_message list \<Rightarrow> bool" where
  "log_valid pairs log \<longleftrightarrow> brings_news log \<and> (\<forall>c i. i \<in> listed_on c log \<longleftrightarrow> (c, i) \<in> set pairs)
     \<and> (\<forall>t \<in> set log. \<exists>container. am_body (tm_message t) = build_text_body container (tm_listed t))"

lemma log_kept:
  assumes "log_valid pairs log" "am_body m = build_text_body container es" "ids \<noteq> []" "set ids \<subseteq> ev_id ` set es"
    and "\<And>i. i \<in> ev_id ` set es \<Longrightarrow> i \<in> set ids \<or> (am_channel m, i) \<in> set pairs" "\<And>i. i \<in> set ids \<Longrightarrow> (am_channel m, i) \<notin> set pairs"
  shows "log_valid (pairs @ map (Pair (am_channel m)) ids) (log @ [told_by True es m])"
proof -
  have on: "i \<in> listed_on c log \<longleftrightarrow> (c, i) \<in> set pairs" for c i using assms(1) by (simp add: log_valid_def)
  obtain i where i: "i \<in> set ids" using assms(3) by (cases ids) auto
  have "\<not> ev_id ` set es \<subseteq> listed_on (am_channel m) log" using subsetD [OF assms(4) i] assms(6) [OF i] on by auto
  moreover have "i \<in> listed_on c (log @ [told_by True es m]) \<longleftrightarrow> (c, i) \<in> set (pairs @ map (Pair (am_channel m)) ids)" for c i
    using assms(4) assms(5) [of i] on by (cases "c = am_channel m") auto
  ultimately show ?thesis using assms(1,2) unfolding log_valid_def by auto
qed

lemma log_lost:
  assumes "log_valid pairs log" "\<forall>m \<in> set ms. am_body m = build_text_body container es"
  shows "log_valid pairs (log @ map (told_by False es) ms)"
  using assms(2)
proof (induction ms rule: rev_induct)
  case Nil
  then show ?case using assms(1) by simp
next
  case (snoc m ms)
  then have "log_valid pairs (log @ map (told_by False es) ms)" by simp
  with snoc.prems have "log_valid pairs ((log @ map (told_by False es) ms) @ [told_by False es m])"
    unfolding log_valid_def news_snoc listed_on_simps by auto
  then show ?case by simp
qed

lemma unique_ids: "ev_id ` set (unique_events seen es) = ev_id ` set es - set seen"
  by (induction es arbitrary: seen) auto

lemma digest_bodies:
  assumes "send_pending_digest env now db = (r, db', messages)" "m \<in> set messages"
  shows "am_body m = build_text_body (dg_container env) (digest_events now db)"
proof -
  let ?body = "build_text_body (dg_container env) (digest_events now db)"
  have mail: "send_email_digest env events recipients subject ?body at d = (st, x, y) \<Longrightarrow> m \<in> set y \<Longrightarrow> am_body m = ?body" for events recipients subject at d st x y
    by (auto simp: send_email_digest_def Let_def split: if_splits option.splits)
  have robot: "send_feishu_digest env events subject ?body at d = (st, x, y) \<Longrightarrow> m \<in> set y \<Longrightarrow> am_body m = ?body" for events subject at d st x y
    by (auto simp: send_feishu_digest_def Let_def split: if_splits option.splits)
  show ?thesis using assms mail robot unfolding digest_events_def
    by (auto simp: send_pending_digest_def Let_def split: if_splits prod.splits)
qed

section \<open>Over time\<close>

text \<open>What the services do to the tables and the channels, in any order. A task that raises after its
  digest was sent rolls the tables back, and what it sent stays sent.\<close>

inductive alert_step :: "alert_db \<times> told_message list \<Rightarrow> alert_db \<times> told_message list \<Rightarrow> bool" where
  settings: "update_settings payload url clear db = Some db' \<Longrightarrow> alert_step (db, log) (db', log)"
| sizes: "alert_step (db, log) (db\<lparr>ab_sizes := sizes\<rparr>, log)"
| capacity: "record_database_capacity_events genv rows at db = (n, db') \<Longrightarrow> alert_step (db, log) (db', log)"
| failure: "record_sync_failure_event t i name run session err at db = (b, db') \<Longrightarrow> alert_step (db, log) (db', log)"
| privileged: "record_privileged_account_event i name username reason at db = (b, db') \<Longrightarrow> alert_step (db, log) (db', log)"
| backup: "record_backup_issue_events brows at db = (n, db') \<Longrightarrow> alert_step (db, log) (db', log)"
| cluster: "record_cluster_status_event container ct ci cn run result at db = Some (b, db') \<Longrightarrow> alert_step (db, log) (db', log)"
| digest: "send_pending_digest denv now db = (r, db', messages) \<Longrightarrow> alert_step (db, log) (db', log @ map (told_by True (digest_events now db)) messages)"
| rolled_back: "record_backup_issue_events brows at db = (n, db1) \<Longrightarrow> send_pending_digest denv now db1 = (r, db', messages)
    \<Longrightarrow> alert_step (db, log) (db, log @ map (told_by False (digest_events now db1)) messages)"

lemma alert_event_fields [simp]: "ev_sent_at (alert_event_of t at k p) = None"
  by (simp add: alert_event_of_def)

lemma created_valid: "create_event e db = (b, db') \<Longrightarrow> world_valid db sent \<Longrightarrow> ev_sent_at e = None \<Longrightarrow> world_valid db' sent"
  using create_event_valid [of db sent e] by simp

lemma capacity_valid: "world_valid db sent \<Longrightarrow> record_capacity_rows env settings at rows db = (n, db') \<Longrightarrow> world_valid db' sent"
proof (induction rows arbitrary: db n db')
  case (Cons row rows)
  note created = create_event_valid [OF Cons.prems(1)]
  show ?case
  proof (cases "case (database_name_of row, cr_date row, cr_instance row, cr_size row) of
      (Some name, Some day, Some i, Some mb) \<Rightarrow> growth_candidate env row (find_recent_database_baseline i name day LOOKBACK_DAYS db) (as_percent settings) (as_gb settings) LOOKBACK_DAYS
    | _ \<Rightarrow> None")
    case None
    then show ?thesis using Cons.IH [OF Cons.prems(1)] Cons.prems(2) by (auto split: option.splits)
  next
    case (Some kp)
    then obtain name day i mb k p where f: "database_name_of row = Some name" "cr_date row = Some day" "cr_instance row = Some i" "cr_size row = Some mb" "kp = (k, p)"
      by (cases kp) (auto split: option.splits)
    let ?e = "(alert_event_of ''database_capacity_growth'' at k p)\<lparr>ev_instance := Some i, ev_database := Some name\<rparr>"
    obtain b db1 where c: "create_event ?e db = (b, db1)" by fastforce
    obtain m db2 where r: "record_capacity_rows env settings at rows db1 = (m, db2)" by fastforce
    have "db' = db2" using Cons.prems(2) Some f c r by simp
    moreover have "world_valid db1 sent" using created [of ?e] c by simp
    ultimately show ?thesis using Cons.IH r by blast
  qed
qed simp

lemma backup_rows_valid: "world_valid db sent \<Longrightarrow> record_backup_rows at rows db = (n, keys, db') \<Longrightarrow> world_valid db' sent"
proof (induction rows arbitrary: db n keys db')
  case (Cons row rows)
  show ?case
  proof (cases "backup_issue at row")
    case None
    then show ?thesis using Cons by simp
  next
    case (Some ke)
    then obtain k e where ke: "ke = (k, e)" "ev_sent_at e = None" by (auto simp: backup_issue_def split: option.splits)
    let ?u = "upsert_pending_event False e (\<lambda>x. x\<lparr>ev_occurred := ev_occurred e, ev_instance := ev_instance e, ev_payload := ev_payload e\<rparr>) db"
    obtain b db1 where u: "?u = (b, db1)" by fastforce
    have "world_valid (snd ?u) sent"
      by (rule upsert_valid [OF Cons.prems(1) ke(2)]) (simp add: event_row_def event_key_def)
    moreover obtain m ks db2 where r: "record_backup_rows at rows db1 = (m, ks, db2)" by (metis prod_cases3)
    moreover have "db' = db2" using Cons.prems(2) Some ke u r by simp
    ultimately show ?thesis using Cons.IH u by simp
  qed
qed simp

lemma cluster_valid:
  assumes "record_cluster_status_event container ct ci cn run result at db = Some (b, db')" "world_valid db sent"
  shows "world_valid db' sent"
proof -
  let ?key = "ct @ '':'' @ show_int ci"
  have up: "world_valid (snd (upsert_pending_event True e (\<lambda>x. x\<lparr>ev_occurred := ev_occurred e, ev_run := ev_run e, ev_payload := ev_payload e\<rparr>) db)) sent"
    if "ev_sent_at e = None" for e
    by (rule upsert_valid [OF assms(2) that]) (simp add: event_row_def event_key_def)
  show ?thesis
  proof (cases "\<not> has_enabled_delivery_channel (get_or_create_settings db) \<or> \<not> as_cluster (get_or_create_settings db)")
    case True
    then show ?thesis using assms by (simp add: record_cluster_status_event_def Let_def)
  next
    case False
    define e where "e payload = (alert_event_of ''cluster_status_issue'' at ?key payload)\<lparr>ev_run := Some run\<rparr>" for payload
    define u where "u payload = upsert_pending_event True (e payload)
      (\<lambda>x. x\<lparr>ev_occurred := ev_occurred (e payload), ev_run := ev_run (e payload), ev_payload := ev_payload (e payload)\<rparr>) db" for payload
    have "record_cluster_status_event container ct ci cn run result at db = (case is_abnormal container result of
        None \<Rightarrow> None
      | Some False \<Rightarrow> Some (False, delete_pending_events ''cluster_status_issue'' (resolve_bucket_date at) (Some ?key) [] db)
      | Some True \<Rightarrow> (case cluster_alert_payload container ct ci cn run result of None \<Rightarrow> None | Some payload \<Rightarrow> Some (u payload)))"
      using False unfolding record_cluster_status_event_def Let_def u_def e_def by (simp only: simp_thms de_Morgan_disj not_not if_False)
    with assms(1) have "db' = delete_pending_events ''cluster_status_issue'' (resolve_bucket_date at) (Some ?key) [] db \<or> (\<exists>payload. u payload = (b, db'))"
      by (auto split: option.splits bool.splits)
    moreover have "world_valid (snd (u payload)) sent" for payload unfolding u_def by (rule up) (simp add: e_def)
    ultimately show ?thesis using delete_valid [OF assms(2)] by (metis snd_conv)
  qed
qed

text \<open>What is pending on one channel only was told to the other.\<close>

lemma pending_or_told:
  assumes "world_valid db pairs" "e \<in> set (pending_on d day enabled db)" "c \<in> set enabled" "c \<noteq> []"
  shows "ev_id e \<in> set (map ev_id (pending_on c day enabled db)) \<or> (c, ev_id e) \<in> set pairs"
proof -
  have e: "e \<in> set (ab_events db)" "ev_bucket e = day" using assms(2) by (auto simp: pending_on_def list_pending_digest_events_def split: if_splits)
  have t: "tables_agree (event_rows db) (ab_deliveries db) pairs" using assms(1) by (simp add: world_valid_def)
  have row: "(ev_id e, event_key e, ev_sent_at e) \<in> set (event_rows db)" using e(1) by (auto simp: event_row_def)
  have "ev_sent_at e = None \<or> sent_pair (ab_deliveries db) ''email'' (ev_id e)" using t row unfolding tables_agree_def by fastforce
  then have "e \<in> set (pending_on c day enabled db) \<or> sent_pair (ab_deliveries db) c (ev_id e)"
    using e assms(3,4) by (auto simp: pending_on_def list_pending_digest_events_def sent_on_pair)
  then show ?thesis using t by (auto simp: tables_agree_def)
qed

definition told_valid :: "alert_db \<times> told_message list \<Rightarrow> bool" where
  "told_valid w \<longleftrightarrow> (\<exists>pairs. world_valid (fst w) pairs \<and> log_valid pairs (snd w))"

lemma told_keep: "(\<And>pairs. world_valid db pairs \<Longrightarrow> world_valid db' pairs) \<Longrightarrow> told_valid (db, log) \<Longrightarrow> told_valid (db', log)"
  by (auto simp: told_valid_def)

lemma one_told:
  assumes "delivered c ids db db' messages" "log_valid pairs log" "\<forall>m \<in> set messages. am_body m = build_text_body container es"
    and "set ids \<subseteq> ev_id ` set es" "messages \<noteq> [] \<Longrightarrow> \<forall>i \<in> ev_id ` set es. i \<in> set ids \<or> (c, i) \<in> set pairs" "\<forall>i \<in> set ids. (c, i) \<notin> set pairs"
  shows "log_valid (pairs @ (if messages = [] then [] else map (Pair c) ids)) (log @ map (told_by True es) messages)"
proof (cases "messages = []")
  case False
  then obtain m where m: "messages = [m]" "am_channel m = c" "ids \<noteq> []" using assms(1) by (auto simp: delivered_def)
  show ?thesis using log_kept [OF assms(2) _ m(3) assms(4)] assms(3,5,6) m by auto
qed (use assms(2) in simp)

lemma digest_told:
  assumes "send_pending_digest env now db = (r, db', messages)" "told_valid (db, log)"
  shows "told_valid (db', log @ map (told_by True (digest_events now db)) messages)"
proof -
  let ?enabled = "resolve_enabled_channels (get_or_create_settings db)" and ?day = "resolve_bucket_date now" and ?es = "digest_events now db"
  let ?on = "\<lambda>c. pending_on c ?day ?enabled db"
  obtain pairs where p: "world_valid db pairs" "log_valid pairs log" using assms(2) by (auto simp: told_valid_def)
  obtain db1 sent1 sent2 where d: "delivered EMAIL_CHANNEL (map ev_id (?on EMAIL_CHANNEL)) db db1 sent1" "delivered FEISHU_CHANNEL (map ev_id (?on FEISHU_CHANNEL)) db1 db' sent2"
      "messages = sent1 @ sent2"
    and v: "world_valid db' (pairs @ (if sent1 = [] then [] else map (Pair EMAIL_CHANNEL) (map ev_id (?on EMAIL_CHANNEL)))
      @ (if sent2 = [] then [] else map (Pair FEISHU_CHANNEL) (map ev_id (?on FEISHU_CHANNEL))))"
    using digest_valid [OF assms(1) p(1) refl refl refl refl] by blast
  have names: "EMAIL_CHANNEL \<noteq> []" "FEISHU_CHANNEL \<noteq> []" "FEISHU_CHANNEL \<noteq> EMAIL_CHANNEL" by (simp_all add: EMAIL_CHANNEL_def FEISHU_CHANNEL_def)
  have es: "ev_id ` set ?es = ev_id ` set (?on EMAIL_CHANNEL) \<union> ev_id ` set (?on FEISHU_CHANNEL)"
    by (simp add: digest_events_def Let_def unique_ids image_Un)
  have on: "c \<in> set ?enabled" if "delivered c (map ev_id (?on c)) x y ms" "ms \<noteq> []" for c x y ms
    using that by (auto simp: delivered_def pending_on_def split: if_splits)
  have all: "\<forall>i \<in> ev_id ` set ?es. i \<in> set (map ev_id (?on c)) \<or> (c, i) \<in> set pairs" if "c \<in> set ?enabled" "c \<noteq> []" for c
    using pending_or_told [OF p(1) _ that] unfolding es by auto
  have new: "\<forall>i \<in> set (map ev_id (?on c)). (c, i) \<notin> set pairs" if "c \<noteq> []" for c
    using pending_ids(3) [OF p(1) refl that] p(1) by (auto simp: world_valid_def tables_agree_def)
  have body: "\<forall>m \<in> set sent1. am_body m = build_text_body (dg_container env) ?es" "\<forall>m \<in> set sent2. am_body m = build_text_body (dg_container env) ?es"
    using digest_bodies [OF assms(1)] d(3) by auto
  have one: "log_valid (pairs @ (if sent1 = [] then [] else map (Pair EMAIL_CHANNEL) (map ev_id (?on EMAIL_CHANNEL)))) (log @ map (told_by True ?es) sent1)"
    by (rule one_told [OF d(1) p(2) body(1)]) (use es all [OF on [OF d(1)] names(1)] new [OF names(1)] in auto)
  have "log_valid ((pairs @ (if sent1 = [] then [] else map (Pair EMAIL_CHANNEL) (map ev_id (?on EMAIL_CHANNEL))))
      @ (if sent2 = [] then [] else map (Pair FEISHU_CHANNEL) (map ev_id (?on FEISHU_CHANNEL)))) ((log @ map (told_by True ?es) sent1) @ map (told_by True ?es) sent2)"
    by (rule one_told [OF d(2) one body(2)]) (use es all [OF on [OF d(2)] names(2)] new [OF names(2)] names(3) in auto)
  with v show ?thesis unfolding told_valid_def d(3) by auto
qed

lemma alert_step_valid: "alert_step w w' \<Longrightarrow> told_valid w \<Longrightarrow> told_valid w'"
proof (induction rule: alert_step.induct)
  case (settings payload url clear db db' log)
  show ?case
    by (rule told_keep [OF _ settings(2)])
      (use settings(1) in \<open>auto simp: update_settings_def world_valid_def channels_valid_def Let_def split: if_splits\<close>)
next
  case (sizes db log sizes)
  show ?case by (rule told_keep [OF _ sizes]) (simp add: world_valid_def)
next
  case (capacity genv rows at db n db' log)
  show ?case
    by (rule told_keep [OF _ capacity(2)])
      (use capacity(1) capacity_valid in \<open>auto simp: record_database_capacity_events_def Let_def split: if_splits\<close>)
next
  case (failure t i name run session err at db b db' log)
  show ?case
    by (rule told_keep [OF _ failure(2)])
      (use failure(1) in \<open>auto simp: record_sync_failure_event_def Let_def split: if_splits elim!: created_valid\<close>)
next
  case (privileged i name username reason at db b db' log)
  show ?case
    by (rule told_keep [OF _ privileged(2)])
      (use privileged(1) in \<open>auto simp: record_privileged_account_event_def Let_def split: if_splits elim!: created_valid\<close>)
next
  case (backup brows at db n db' log)
  obtain m keys db1 where r: "record_backup_rows at brows db = (m, keys, db1)" by (metis prod_cases3)
  have "db' = db \<or> db' = delete_pending_events ''backup_status_issue'' (resolve_bucket_date at) None keys db1"
    using backup(1) r by (auto simp: record_backup_issue_events_def Let_def split: if_splits)
  then show ?case using backup_rows_valid [OF _ r] delete_valid by (intro told_keep [OF _ backup(2)]) auto
next
  case (cluster container ct ci cn run result at db b db' log)
  show ?case by (rule told_keep [OF _ cluster(2)]) (rule cluster_valid [OF cluster(1)])
next
  case (digest denv now db r db' messages log)
  then show ?case by (rule digest_told)
next
  case (rolled_back brows at db n db1 denv now r db' messages log)
  then obtain pairs where "world_valid db pairs" "log_valid pairs log" by (auto simp: told_valid_def)
  moreover have "\<forall>m \<in> set messages. am_body m = build_text_body (dg_container denv) (digest_events now db1)"
    using digest_bodies [OF rolled_back(2)] by blast
  ultimately show ?case unfolding told_valid_def fst_conv snd_conv using log_lost by blast
qed

text \<open>C18: However events are recorded, updated and deleted, settings changed, digests sent and tasks rolled
  back after sending, in any order and with any failures of the mail server and the robot: a text lists
  the events of its digest, and every message of a digest that is kept lists at least one event that no
  earlier kept message of its channel has listed, although it may repeat others; an event is recorded as
  delivered on a channel exactly when a kept message of the channel has listed it, and has the time of
  its mail exactly when a kept mail has; events that a kept message has listed are never deleted; there
  is one event per type, date and key. The robot is enabled only with a URL. What a task that is rolled
  back has sent is not kept: nothing is recorded of it.\<close>

theorem alert_messages_bring_news:
  assumes "alert_step\<^sup>*\<^sup>* (\<lparr>ab_settings = None, ab_events = [], ab_deliveries = [], ab_sizes = [], ab_next = 1\<rparr>, []) (db, log)"
  shows "(\<forall>t \<in> set log. \<exists>container. am_body (tm_message t) = build_text_body container (tm_listed t))
    \<and> (\<forall>pre t post. log = pre @ t # post \<longrightarrow> tm_kept t \<longrightarrow> \<not> ev_id ` set (tm_listed t) \<subseteq> listed_on (am_channel (tm_message t)) pre)
    \<and> (\<forall>c i. sent_on c i db \<longleftrightarrow> i \<in> listed_on c log)
    \<and> (\<forall>e \<in> set (ab_events db). ev_sent_at e \<noteq> None \<longleftrightarrow> ev_id e \<in> listed_on EMAIL_CHANNEL log)
    \<and> (\<forall>c. listed_on c log \<subseteq> ev_id ` set (ab_events db))
    \<and> distinct (map ev_id (ab_events db)) \<and> distinct (map (\<lambda>e. (ev_type e, ev_bucket e, ev_key e)) (ab_events db))
    \<and> (as_feishu (get_or_create_settings db) \<longrightarrow> as_webhook (get_or_create_settings db) \<noteq> [])"
proof -
  have "told_valid (db, log)"
    using assms
  proof (induction "(db, log)" arbitrary: db log rule: rtranclp_induct)
    case base
    have "world_valid \<lparr>ab_settings = None, ab_events = [], ab_deliveries = [], ab_sizes = [], ab_next = 1\<rparr> []"
      by (simp add: world_valid_def events_valid_def tables_agree_def sent_pair_def channels_valid_def)
    moreover have "log_valid [] []" by (simp add: log_valid_def)
    ultimately show ?case unfolding told_valid_def by auto
  next
    case (step w)
    then show ?case using alert_step_valid [OF step(2)] by (cases w) simp
  qed
  then obtain pairs where v: "events_valid (event_rows db) (ab_next db)" "tables_agree (event_rows db) (ab_deliveries db) pairs" "channels_valid (ab_settings db)"
    and log: "log_valid pairs log" by (auto simp: told_valid_def world_valid_def)
  have on: "i \<in> listed_on c log \<longleftrightarrow> sent_pair (ab_deliveries db) c i" for c i using log v(2) by (simp add: log_valid_def tables_agree_def)
  show ?thesis
  proof (intro conjI)
    show "\<forall>t \<in> set log. \<exists>container. am_body (tm_message t) = build_text_body container (tm_listed t)"
      "\<forall>pre t post. log = pre @ t # post \<longrightarrow> tm_kept t \<longrightarrow> \<not> ev_id ` set (tm_listed t) \<subseteq> listed_on (am_channel (tm_message t)) pre"
      using log unfolding log_valid_def brings_news_def by blast+
    show "\<forall>c i. sent_on c i db \<longleftrightarrow> i \<in> listed_on c log" by (simp add: on sent_on_pair)
    show "\<forall>e \<in> set (ab_events db). ev_sent_at e \<noteq> None \<longleftrightarrow> ev_id e \<in> listed_on EMAIL_CHANNEL log"
      using v(2) by (simp add: tables_agree_def on event_row_def EMAIL_CHANNEL_def)
    show "\<forall>c. listed_on c log \<subseteq> ev_id ` set (ab_events db)"
      using v(2) by (auto simp: on tables_agree_def sent_pair_def image_image event_row_def)
    show "distinct (map ev_id (ab_events db))" "distinct (map (\<lambda>e. (ev_type e, ev_bucket e, ev_key e)) (ab_events db))"
      using v(1) by (simp_all add: events_valid_def o_def event_row_def event_key_def)
    show "as_feishu (get_or_create_settings db) \<longrightarrow> as_webhook (get_or_create_settings db) \<noteq> []"
      using v(3) by (auto simp: channels_valid_def get_or_create_settings_def build_default_settings_def split: option.splits)
  qed
qed

definition example_settings :: alert_settings where
  "example_settings = build_default_settings\<lparr>as_global := True, as_recipients := [''ops@x''], as_account_sync := True\<rparr>"

definition example_digest_env :: digest_env where
  "example_digest_env = \<lparr>dg_smtp_ready = True, dg_send = \<lambda>m. None, dg_container = \<lambda>_. []\<rparr>"

definition empty_alerts :: alert_db where
  "empty_alerts = \<lparr>ab_settings = None, ab_events = [], ab_deliveries = [], ab_sizes = [], ab_next = 1\<rparr>"

definition example_alerts :: alert_db where
  "example_alerts = snd (record_sync_failure_event ''account_sync_failure'' 3 ''db3'' None None ''timeout'' 0
     (empty_alerts\<lparr>ab_settings := Some example_settings\<rparr>))"

text \<open>A mail that is rolled back and sent again: one event, recorded once.\<close>

lemma alert_messages_bring_news_witness:
  "case send_pending_digest example_digest_env 0 example_alerts of (r, db, messages) \<Rightarrow>
     length messages = 1 \<and> ev_id ` set (ab_events db) = {1} \<and> (\<forall>i. sent_on EMAIL_CHANNEL i db \<longleftrightarrow> i = 1)"
proof -
  let ?db1 = "empty_alerts\<lparr>ab_settings := Some example_settings\<rparr>" and ?es = "digest_events 0 example_alerts"
  have set: "update_settings example_settings [] False empty_alerts = Some ?db1" by code_simp
  have fail: "record_sync_failure_event ''account_sync_failure'' 3 ''db3'' None None ''timeout'' 0 ?db1 = (True, example_alerts)" by code_simp
  have idle: "record_backup_issue_events [] 0 example_alerts = (0, example_alerts)" by code_simp
  obtain r db messages where d: "send_pending_digest example_digest_env 0 example_alerts = (r, db, messages)" by (metis prod_cases3)
  let ?log = "([] @ map (told_by False ?es) messages) @ map (told_by True ?es) messages"
  have "alert_step\<^sup>*\<^sup>* (empty_alerts, []) (db, ?log)"
    using alert_step.settings [OF set] alert_step.failure [OF fail] alert_step.rolled_back [OF idle d] alert_step.digest [OF d]
    by (meson converse_rtranclp_into_rtranclp rtranclp.rtrancl_refl)
  then have sent: "\<forall>c i. sent_on c i db \<longleftrightarrow> i \<in> listed_on c ?log"
    using alert_messages_bring_news [of db ?log] by (simp add: empty_alerts_def)
  have eval: "case send_pending_digest example_digest_env 0 example_alerts of (r, db, messages) \<Rightarrow>
      map am_channel messages = [EMAIL_CHANNEL] \<and> map ev_id (ab_events db) = [1]" "map ev_id ?es = [1]"
    by code_simp+
  then obtain m where m: "messages = [m]" "am_channel m = EMAIL_CHANNEL" and ids: "map ev_id (ab_events db) = [1]"
    unfolding d by auto
  have es: "ev_id ` set ?es = {1}" "ev_id ` set (ab_events db) = {1}" using eval(2) ids by (metis list.set(1) list.simps(15) set_map)+
  have log: "?log = ([] @ [told_by False ?es m]) @ [told_by True ?es m]" using m(1) by simp
  have "listed_on EMAIL_CHANNEL ?log = {1}" unfolding log listed_on_simps using m(2) es(1) by simp
  then have "sent_on EMAIL_CHANNEL i db \<longleftrightarrow> i = 1" for i using sent by simp
  then show ?thesis using m es by (simp add: d)
qed

section \<open>The digest of a day\<close>

lemma unique_events_Nil: "unique_events [] es = [] \<longleftrightarrow> es = []"
  by (cases es) simp_all

lemma digest_shape:
  assumes "send_pending_digest env now db = (r, db', messages)"
    and "day = resolve_bucket_date now" "enabled = resolve_enabled_channels (get_or_create_settings db)"
    and "mail = pending_on EMAIL_CHANNEL day enabled db" "robot = pending_on FEISHU_CHANNEL day enabled db"
    and "body = build_text_body (dg_container env) (unique_events [] (mail @ robot))"
  shows "\<exists>st1 db1 sent1 st2 sent2. send_email_digest env mail (as_recipients (get_or_create_settings db)) (digest_subject day) body now db = (st1, db1, sent1)
    \<and> send_feishu_digest env robot (digest_subject day) body now db1 = (st2, db', sent2) \<and> messages = sent1 @ sent2"
proof -
  have off: "EMAIL_CHANNEL \<notin> set enabled \<Longrightarrow> mail = []" "FEISHU_CHANNEL \<notin> set enabled \<Longrightarrow> robot = []"
    by (simp_all add: assms(4,5) pending_on_def)
  have idle: "send_email_digest env [] recipients subject body now d = (x, y, z) \<Longrightarrow> y = d \<and> z = []"
    "send_feishu_digest env [] subject body now d = (x, y, z) \<Longrightarrow> y = d \<and> z = []" for recipients subject body d x y z
    by (auto simp: send_email_digest_def send_feishu_digest_def Let_def)
  show ?thesis
  proof (cases "enabled = [] \<or> unique_events [] (mail @ robot) = []")
    case True
    then have "mail = [] \<and> robot = []" using off by (auto simp: unique_events_Nil)
    moreover have "db' = db \<and> messages = []" using assms(1) True unfolding assms(2-5)
      by (auto simp: send_pending_digest_def Let_def split: if_splits)
    ultimately show ?thesis by (simp add: send_email_digest_def send_feishu_digest_def Let_def)
  next
    case False
    then obtain step1 db1 sent1 step2 sent2 where
      m: "(if EMAIL_CHANNEL \<in> set enabled then send_email_digest env mail (as_recipients (get_or_create_settings db)) (digest_subject day) body now db
          else (disabled_step EMAIL_CHANNEL, db, [])) = (step1, db1, sent1)"
      and r: "(if FEISHU_CHANNEL \<in> set enabled then send_feishu_digest env robot (digest_subject day) body now db1
          else (disabled_step FEISHU_CHANNEL, db1, [])) = (step2, db', sent2)"
      and all: "messages = sent1 @ sent2"
      using assms(1) unfolding assms(2-6) by (auto simp: send_pending_digest_def Let_def split: prod.splits simp del: not_None_eq)
    obtain st1 where "send_email_digest env mail (as_recipients (get_or_create_settings db)) (digest_subject day) body now db = (st1, db1, sent1)"
      using m off(1) idle(1) by (metis prod.inject prod_cases3)
    moreover obtain st2 where "send_feishu_digest env robot (digest_subject day) body now db1 = (st2, db', sent2)"
      using r off(2) idle(2) by (metis prod.inject prod_cases3)
    ultimately show ?thesis using all by blast
  qed
qed

end
