(* ===== verification/Alert_Delivery.thy ===== *)
theory Alert_Delivery
  imports Alert_Results
begin

text \<open>
  What one digest sends and what it leaves pending.
\<close>

section \<open>Pending events after a delivery\<close>

definition open_on :: "string \<Rightarrow> alert_db \<Rightarrow> alert_event \<Rightarrow> bool" where
  "open_on c db e \<longleftrightarrow> \<not> sent_on c (ev_id e) db \<and> (c = ''email'' \<longrightarrow> ev_sent_at e = None)"

lemma list_pending: "c \<noteq> [] \<Longrightarrow> list_pending_digest_events (Some c) (Some day) db =
    sort_key (\<lambda>e. (ev_occurred e, ev_id e)) (filter (\<lambda>e. ev_bucket e = day \<and> open_on c db e) (ab_events db))"
  by (simp add: list_pending_digest_events_def open_on_def)

lemma insort_key_image: "(\<And>x. k (f x) = k x) \<Longrightarrow> insort_key k (f x) (map f xs) = map f (insort_key k x xs)"
  by (induction xs) auto

lemma sort_key_image:
  assumes "\<And>x. k (f x) = k x"
  shows "sort_key k (map f xs) = map f (sort_key k xs)"
proof (induction xs)
  case (Cons x xs)
  then show ?case by (simp add: insort_key_image assms)
qed simp

lemma pending_same:
  assumes "ab_events db' = map f (ab_events db)" "\<And>e. ev_id (f e) = ev_id e \<and> ev_bucket (f e) = ev_bucket e \<and> ev_occurred (f e) = ev_occurred e"
    and "\<And>e. e \<in> set (ab_events db) \<Longrightarrow> open_on c db' (f e) = open_on c db e" "c \<noteq> []"
  shows "map ev_id (list_pending_digest_events (Some c) (Some day) db') = map ev_id (list_pending_digest_events (Some c) (Some day) db)"
proof -
  have "filter (\<lambda>e. ev_bucket e = day \<and> open_on c db' e) (ab_events db') = map f (filter (\<lambda>e. ev_bucket e = day \<and> open_on c db e) (ab_events db))"
    using assms(2,3) by (auto simp: assms(1) filter_map o_def intro!: arg_cong [where f = "map f"] filter_cong)
  then show ?thesis using assms(2) by (simp add: list_pending [OF assms(4)] sort_key_image o_def)
qed

definition told_event :: "string \<Rightarrow> string \<Rightarrow> int list \<Rightarrow> int \<Rightarrow> alert_event \<Rightarrow> alert_event" where
  "told_event c st ids at e = (if c = ''email'' \<and> st = ''sent'' \<and> ev_id e \<in> set ids then e\<lparr>ev_sent_at := Some at\<rparr> else e)"

lemma record_events: "ab_events (record_digest_delivery c ids at st err db) = map (told_event c st ids at) (ab_events db)"
  by (auto simp: record_digest_delivery_def mark_events_digest_sent_def Let_def told_event_def intro!: map_idI [symmetric])

lemma told_event_fields [simp]: "ev_id (told_event c st ids at e) = ev_id e" "ev_bucket (told_event c st ids at e) = ev_bucket e"
  "ev_occurred (told_event c st ids at e) = ev_occurred e"
  "ev_sent_at (told_event c st ids at e) = (if c = ''email'' \<and> st = ''sent'' \<and> ev_id e \<in> set ids then Some at else ev_sent_at e)"
  by (simp_all add: told_event_def)

text \<open>Another channel keeps its pending events, and so does one where the delivery failed; where it was
  sent, nothing stays pending.\<close>

lemma pending_other:
  assumes "d \<noteq> c" "d \<noteq> []" "ids \<noteq> []"
  shows "map ev_id (list_pending_digest_events (Some d) (Some day) (record_digest_delivery c ids at st err db))
    = map ev_id (list_pending_digest_events (Some d) (Some day) db)"
  by (rule pending_same [OF record_events]) (use assms in \<open>auto simp: open_on_def sent_on_pair record_deliveries\<close>)

lemma pending_failed:
  assumes "\<And>i. i \<in> set ids \<Longrightarrow> \<not> sent_on c i db" "c \<noteq> []" "ids \<noteq> []"
  shows "map ev_id (list_pending_digest_events (Some c) (Some day) (record_digest_delivery c ids at ''failed'' err db))
    = map ev_id (list_pending_digest_events (Some c) (Some day) db)"
  by (rule pending_same [OF record_events]) (use assms in \<open>auto simp: open_on_def sent_on_pair record_deliveries\<close>)

lemma pending_sent:
  assumes "ids = map ev_id (list_pending_digest_events (Some c) (Some day) db)" "c \<noteq> []" "ids \<noteq> []"
  shows "list_pending_digest_events (Some c) (Some day) (record_digest_delivery c ids at ''sent'' err db) = []"
proof -
  have ids: "set ids = ev_id ` {e \<in> set (ab_events db). ev_bucket e = day \<and> open_on c db e}"
    by (auto simp: assms(1) list_pending [OF assms(2)])
  have "\<not> open_on c (record_digest_delivery c ids at ''sent'' err db) (told_event c ''sent'' ids at e)"
    if "e \<in> set (ab_events db)" "ev_bucket e = day" for e
    using that ids unfolding open_on_def sent_on_pair record_deliveries [OF assms(3)] by auto
  then show ?thesis by (auto simp: list_pending [OF assms(2)] record_events filter_empty_conv)
qed

section \<open>What one digest sends\<close>

lemma email_messages:
  assumes "send_email_digest env events recipients subject body at db = (st, db', messages)"
    and "m = \<lparr>am_channel = EMAIL_CHANNEL, am_recipients = recipients, am_title = subject, am_body = body\<rparr>"
  shows "messages = (if events \<noteq> [] \<and> recipients \<noteq> [] \<and> dg_smtp_ready env \<and> dg_send env m = None then [m] else [])"
  using assms by (auto simp: send_email_digest_def Let_def split: if_splits option.splits)

lemma feishu_messages:
  assumes "send_feishu_digest env events subject body at db = (st, db', messages)"
    and "m = \<lparr>am_channel = FEISHU_CHANNEL, am_recipients = [], am_title = subject, am_body = body\<rparr>"
  shows "messages = (if events \<noteq> [] \<and> as_webhook (get_or_create_settings db) \<noteq> [] \<and> dg_send env m = None then [m] else [])"
  using assms by (auto simp: send_feishu_digest_def Let_def split: if_splits option.splits)

text \<open>What stays pending on the channel itself and on another.\<close>

lemma delivered_pending:
  assumes "delivered c ids db db' messages"
    and on: "ids \<noteq> [] \<Longrightarrow> ids = map ev_id (list_pending_digest_events (Some c) (Some day) db)" and "c \<noteq> []"
  shows "map ev_id (list_pending_digest_events (Some c) (Some day) db')
    = (if messages = [] then map ev_id (list_pending_digest_events (Some c) (Some day) db) else [])"
proof -
  have what: "messages = [] \<and> db' = db \<or> messages = [] \<and> (\<exists>at e. ids \<noteq> [] \<and> db' = record_digest_delivery c ids at ''failed'' (Some e) db)
      \<or> messages \<noteq> [] \<and> ids \<noteq> [] \<and> (\<exists>at. db' = record_digest_delivery c ids at ''sent'' None db)"
    using assms(1) unfolding delivered_def by (cases "ids = []") (auto simp: record_digest_delivery_def)
  have "\<not> sent_on c i db" if "i \<in> set ids" for i
  proof -
    have "i \<in> set (map ev_id (list_pending_digest_events (Some c) (Some day) db))" using that on by (metis empty_iff empty_set)
    then show ?thesis by (auto simp: list_pending [OF assms(3)] open_on_def)
  qed
  then show ?thesis using what pending_failed [of ids c db] pending_sent [OF on assms(3)] assms(3) by auto
qed

lemma delivered_pending_other:
  assumes "delivered c ids db db' messages" "d \<noteq> c" "d \<noteq> []"
  shows "map ev_id (list_pending_digest_events (Some d) (Some day) db') = map ev_id (list_pending_digest_events (Some d) (Some day) db)"
proof -
  have "record_digest_delivery c [] at st e db = db" for at st e by (simp add: record_digest_delivery_def)
  then show ?thesis using assms(1) pending_other [OF assms(2,3)] unfolding delivered_def by metis
qed

text \<open>C19: One digest: each channel that is enabled, configured and has events of the day pending on it gets
  one message, the mail first, unless sending fails, and no other message is sent. The text of both is the
  same and lists the events pending on either enabled channel, so that it may repeat events that one of
  them was told of. After a message nothing of the day is pending on its channel, and what is pending on a
  channel without a message stays so.\<close>

theorem digest_delivers_day:
  assumes "send_pending_digest env now db = (r, db', messages)"
    and "day = resolve_bucket_date now" "settings = get_or_create_settings db"
    and "\<And>c. open_events c = list_pending_digest_events (Some c) (Some day) db"
    and "body = build_text_body (dg_container env) (unique_events []
      ((if as_global settings then open_events EMAIL_CHANNEL else []) @ (if as_feishu settings then open_events FEISHU_CHANNEL else [])))"
    and "mail = \<lparr>am_channel = EMAIL_CHANNEL, am_recipients = as_recipients settings,
      am_title = digest_subject day, am_body = body\<rparr>"
    and "robot = \<lparr>am_channel = FEISHU_CHANNEL, am_recipients = [],
      am_title = digest_subject day, am_body = body\<rparr>"
  shows "messages =
      (if as_global settings \<and> open_events EMAIL_CHANNEL \<noteq> [] \<and> as_recipients settings \<noteq> [] \<and> dg_smtp_ready env \<and> dg_send env mail = None then [mail] else [])
      @ (if as_feishu settings \<and> open_events FEISHU_CHANNEL \<noteq> [] \<and> as_webhook settings \<noteq> [] \<and> dg_send env robot = None then [robot] else [])
    \<and> map ev_id (list_pending_digest_events (Some EMAIL_CHANNEL) (Some day) db') = (if mail \<in> set messages then [] else map ev_id (open_events EMAIL_CHANNEL))
    \<and> map ev_id (list_pending_digest_events (Some FEISHU_CHANNEL) (Some day) db') = (if robot \<in> set messages then [] else map ev_id (open_events FEISHU_CHANNEL))"
proof -
  let ?enabled = "resolve_enabled_channels settings"
  let ?mail = "pending_on EMAIL_CHANNEL day ?enabled db" and ?robot = "pending_on FEISHU_CHANNEL day ?enabled db"
  have names: "EMAIL_CHANNEL \<noteq> []" "FEISHU_CHANNEL \<noteq> []" "FEISHU_CHANNEL \<noteq> EMAIL_CHANNEL" "FEISHU_CHANNEL \<noteq> ''email''"
    by (simp_all add: EMAIL_CHANNEL_def FEISHU_CHANNEL_def)
  have events: "?mail = (if as_global settings then open_events EMAIL_CHANNEL else [])" "?robot = (if as_feishu settings then open_events FEISHU_CHANNEL else [])"
    using names by (auto simp: pending_on_def resolve_enabled_channels_def assms(4))
  obtain st1 db1 sent1 st2 sent2 where
    one: "send_email_digest env ?mail (as_recipients settings) (digest_subject day) body now db = (st1, db1, sent1)"
    and two: "send_feishu_digest env ?robot (digest_subject day) body now db1 = (st2, db', sent2)" and all: "messages = sent1 @ sent2"
    using digest_shape [OF assms(1,2) refl refl refl refl] unfolding assms(3) [symmetric] assms(5) assms(2) [symmetric] events by blast
  have d1: "delivered EMAIL_CHANNEL (map ev_id ?mail) db db1 sent1" and d2: "delivered FEISHU_CHANNEL (map ev_id ?robot) db1 db' sent2"
    using email_delivered [OF one] feishu_delivered [OF two] by simp_all
  have "get_or_create_settings db1 = settings"
    using d1 unfolding delivered_def assms(3) get_or_create_settings_def by auto
  then have sent: "sent1 = (if as_global settings \<and> open_events EMAIL_CHANNEL \<noteq> [] \<and> as_recipients settings \<noteq> [] \<and> dg_smtp_ready env \<and> dg_send env mail = None then [mail] else [])"
    "sent2 = (if as_feishu settings \<and> open_events FEISHU_CHANNEL \<noteq> [] \<and> as_webhook settings \<noteq> [] \<and> dg_send env robot = None then [robot] else [])"
    using email_messages [OF one refl] feishu_messages [OF two refl] by (auto simp: events assms(6,7))
  have "mail \<noteq> robot" using names(3) unfolding assms(6,7) by simp
  then have "mail \<in> set messages \<longleftrightarrow> sent1 \<noteq> []" "robot \<in> set messages \<longleftrightarrow> sent2 \<noteq> []"
    by (auto simp: all sent)
  moreover have left: "map ev_id (list_pending_digest_events (Some FEISHU_CHANNEL) (Some day) db1) = map ev_id (open_events FEISHU_CHANNEL)"
    using delivered_pending_other [OF d1 names(3,2)] by (simp add: assms(4))
  moreover have "map ev_id (list_pending_digest_events (Some EMAIL_CHANNEL) (Some day) db') = map ev_id (list_pending_digest_events (Some EMAIL_CHANNEL) (Some day) db1)"
    using delivered_pending_other [OF d2 names(3) [symmetric] names(1)] by simp
  moreover have "map ev_id (list_pending_digest_events (Some EMAIL_CHANNEL) (Some day) db1) = (if sent1 = [] then map ev_id (open_events EMAIL_CHANNEL) else [])"
    using delivered_pending [where day = day, OF d1 _ names(1)] by (auto simp: assms(4) events split: if_splits)
  moreover have "map ev_id (list_pending_digest_events (Some FEISHU_CHANNEL) (Some day) db') = (if sent2 = [] then map ev_id (open_events FEISHU_CHANNEL) else [])"
    using delivered_pending [where day = day, OF d2 _ names(2)] left by (auto simp: events split: if_splits)
  ultimately show ?thesis unfolding all sent by auto
qed

lemma digest_delivers_day_witness:
  "case send_pending_digest example_digest_env 0 example_alerts of (r, db', messages) \<Rightarrow>
     messages = [\<lparr>am_channel = EMAIL_CHANNEL, am_recipients = [''ops@x''], am_title = digest_subject (Date 1970 1 1),
       am_body = build_text_body (\<lambda>_. []) (ab_events example_alerts)\<rparr>]
     \<and> list_pending_digest_events (Some EMAIL_CHANNEL) (Some (Date 1970 1 1)) db' = []"
proof -
  let ?open = "\<lambda>c. list_pending_digest_events (Some c) (Some (Date 1970 1 1)) example_alerts"
  obtain r db' messages where d: "send_pending_digest example_digest_env 0 example_alerts = (r, db', messages)" by (metis prod_cases3)
  have day: "Date 1970 1 1 = resolve_bucket_date 0" by code_simp
  have facts: "as_global (get_or_create_settings example_alerts)" "\<not> as_feishu (get_or_create_settings example_alerts)"
    "as_recipients (get_or_create_settings example_alerts) = [''ops@x'']" "map ev_id (?open EMAIL_CHANNEL) = [1]" by code_simp+
  moreover have "unique_events [] (?open EMAIL_CHANNEL @ []) = ab_events example_alerts" by code_simp
  moreover have "dg_smtp_ready example_digest_env" "dg_send example_digest_env m = None" "dg_container example_digest_env = (\<lambda>_. [])" for m
    by (simp_all add: example_digest_env_def)
  moreover have "?open EMAIL_CHANNEL \<noteq> []" using facts(4) by auto
  ultimately show ?thesis
    using digest_delivers_day [OF d day refl refl refl refl refl] by (auto simp: d)
qed

end
