(* ===== verification/Alert_Task.thy ===== *)
theory Alert_Task
  imports Alert_Digest
begin

text \<open>
  The task \<^verbatim>\<open>email_alert\<close> of \<^verbatim>\<open>app/tasks/email_alert_tasks.py\<close>: the events of the backups,
  the digest, and a run with an item per rule and per channel. What is sent stays sent when the task
  rolls its session back.
\<close>

record alert_env =
  at_model :: summary_model
  at_digest :: digest_env
  at_to_utc :: "string \<Rightarrow> int option"
  at_backups :: "string + (int \<times> string \<times> string option) list"
  at_backup_now :: int
  at_digest_now :: int
  at_run_now :: int
  at_fresh :: string
  at_text :: "run_error \<Rightarrow> string"

record alert_world =
  aw_db :: alert_db
  aw_runs :: run_db
  aw_sent :: "alert_message list"

text \<open>\<^verbatim>\<open>at_backups\<close> are the active instances with the time of their latest backup, or the text of what
  reading them raises; \<^verbatim>\<open>at_text\<close> is \<^verbatim>\<open>str\<close> of an exception.\<close>

datatype alert_outcome = Alert_returned bool digest_result | Alert_failed string | Alert_raised run_error

section \<open>Items\<close>

definition opt_obj :: "string option \<Rightarrow> pyobj" where
  "opt_obj v = (case v of None \<Rightarrow> O_none | Some s \<Rightarrow> O_str s)"

definition RULE_ITEMS :: "(string \<times> string) list" where
  "RULE_ITEMS = map (\<lambda>(key, label, flag). (key, label)) ALERT_RULES"

definition DELIVERY_STEPS :: "(string \<times> string) list" where
  "DELIVERY_STEPS = map (\<lambda>c. (step_key c, step_name c)) [EMAIL_CHANNEL, FEISHU_CHANNEL]"

definition alert_items :: "item_init list" where
  "alert_items = map (\<lambda>(key, name). \<lparr>ii_type = ''rule'', ii_key = key, ii_name = Some name, ii_instance = None\<rparr>) RULE_ITEMS
     @ map (\<lambda>(key, name). \<lparr>ii_type = ''step'', ii_key = key, ii_name = Some name, ii_instance = None\<rparr>) DELIVERY_STEPS"

definition count_metrics :: "rule_result \<Rightarrow> pyobj" where
  "count_metrics rule = O_dict [(K_str ''pending_count'', O_int (int (rr_pending rule))), (K_str ''sent_count'', O_int (int (rr_sent rule)))]"

definition rule_details :: "rule_result \<Rightarrow> pyobj" where
  "rule_details rule = O_dict [(K_str ''display_state'', O_str (rr_display rule)), (K_str ''summary'', O_str (rr_summary rule)),
     (K_str ''enabled'', O_bool (rr_enabled rule)), (K_str ''pending_count'', O_int (int (rr_pending rule))), (K_str ''sent_count'', O_int (int (rr_sent rule)))]"

fun complete_rule_items :: "string \<Rightarrow> int \<Rightarrow> rule_result list \<Rightarrow> run_db \<Rightarrow> run_error + run_db" where
  "complete_rule_items run_id now [] db = Inr db"
| "complete_rule_items run_id now (rule # rules) db =
    (case start_item run_id ''rule'' (rr_key rule) now db of
       Inl e \<Rightarrow> Inl e
     | Inr db1 \<Rightarrow> (case complete_item run_id ''rule'' (rr_key rule) (Some (count_metrics rule)) (Some (rule_details rule)) now db1 of
         Inl e \<Rightarrow> Inl e
       | Inr db2 \<Rightarrow> complete_rule_items run_id now rules db2))"

definition step_details :: "delivery_step \<Rightarrow> pyobj" where
  "step_details s = O_dict [(K_str ''display_state'', O_str (sp_display s)), (K_str ''summary'', O_str (sp_summary s)),
     (K_str ''skip_reason'', opt_obj (sp_skip s))]"

text \<open>\<^verbatim>\<open>error_message or summary or ...\<close>.\<close>

definition step_error :: "delivery_step \<Rightarrow> string \<Rightarrow> string" where
  "step_error s default_text = (case sp_error s of
     Some e \<Rightarrow> if e \<noteq> [] then e else if sp_summary s \<noteq> [] then sp_summary s else default_text
   | None \<Rightarrow> if sp_summary s \<noteq> [] then sp_summary s else default_text)"

definition write_send_step :: "string \<Rightarrow> int \<Rightarrow> delivery_step \<Rightarrow> run_db \<Rightarrow> run_error + run_db" where
  "write_send_step run_id now s db =
    (case start_item run_id ''step'' (step_key (sp_channel s)) now db of
       Inl e \<Rightarrow> Inl e
     | Inr db1 \<Rightarrow>
         if sp_status s = ''failed'' then
           fail_item run_id ''step'' (step_key (sp_channel s)) (step_error s (utf8 [0xE5, 0x8F, 0x91, 0xE9, 0x80, 0x81, 0xE6, 0xB1, 0x87, 0xE6, 0x80, 0xBB, 0xE9, 0x82, 0xAE, 0xE4, 0xBB, 0xB6, 0xE5, 0xA4, 0xB1, 0xE8, 0xB4, 0xA5])) (Some (step_details s)) now db1
         else complete_item run_id ''step'' (step_key (sp_channel s))
           (Some (O_dict [(K_str ''recipient_count'', O_int (int (sp_recipients s)))])) (Some (step_details s)) now db1)"

fun write_delivery_steps :: "string \<Rightarrow> int \<Rightarrow> delivery_step list \<Rightarrow> run_db \<Rightarrow> run_error + run_db" where
  "write_delivery_steps run_id now [] db = Inr db"
| "write_delivery_steps run_id now (s # steps) db =
    (case write_send_step run_id now s db of Inl e \<Rightarrow> Inl e | Inr db' \<Rightarrow> write_delivery_steps run_id now steps db')"

section \<open>The summary\<close>

definition alert_metric :: "string \<Rightarrow> string \<Rightarrow> nat \<Rightarrow> string \<Rightarrow> pyobj" where
  "alert_metric key label value unit = O_dict [(K_str ''key'', O_str key), (K_str ''label'', O_str label), (K_str ''value'', O_int (int value)),
     (K_str ''unit'', O_str unit)]"

definition alert_summary_base :: "pyobj list \<Rightarrow> pyobj \<Rightarrow> pyobj \<Rightarrow> pyobj" where
  "alert_summary_base metrics flags ext_data = O_dict
     [(K_str ''version'', O_int 1),
      (K_str ''common'', O_dict [(K_str ''inputs'', O_dict []), (K_str ''scope'', O_dict []), (K_str ''metrics'', O_list metrics),
         (K_str ''highlights'', O_list []), (K_str ''flags'', flags)]),
      (K_str ''ext'', O_dict [(K_str ''type'', O_str ''email_alert''), (K_str ''version'', O_int 1), (K_str ''data'', ext_data)])]"

definition rule_obj :: "rule_result \<Rightarrow> pyobj" where
  "rule_obj r = O_dict [(K_str ''item_key'', O_str (rr_key r)), (K_str ''item_name'', O_str (rr_name r)), (K_str ''enabled'', O_bool (rr_enabled r)),
     (K_str ''pending_count'', O_int (int (rr_pending r))), (K_str ''sent_count'', O_int (int (rr_sent r))),
     (K_str ''display_state'', O_str (rr_display r)), (K_str ''summary'', O_str (rr_summary r))]"

definition step_obj :: "delivery_step \<Rightarrow> pyobj" where
  "step_obj s = O_dict [(K_str ''item_key'', O_str (step_key (sp_channel s))), (K_str ''item_name'', O_str (step_name (sp_channel s))),
     (K_str ''status'', O_str (sp_status s)), (K_str ''display_state'', O_str (sp_display s)), (K_str ''summary'', O_str (sp_summary s)),
     (K_str ''skip_reason'', opt_obj (sp_skip s)), (K_str ''recipient_count'', O_int (int (sp_recipients s))),
     (K_str ''error_message'', opt_obj (sp_error s))]"

text \<open>The step of the mails, or the first.\<close>

definition primary_step :: "delivery_step list \<Rightarrow> pyobj" where
  "primary_step steps = (case find (\<lambda>s. step_key (sp_channel s) = ''deliver_email_digest'') steps of
     Some s \<Rightarrow> step_obj s | None \<Rightarrow> (case steps of [] \<Rightarrow> O_dict [] | s # _ \<Rightarrow> step_obj s))"

definition alert_summary :: "digest_result \<Rightarrow> pyobj" where
  "alert_summary r = alert_summary_base
     [alert_metric ''event_count'' (utf8 [0xE4, 0xBA, 0x8B, 0xE4, 0xBB, 0xB6, 0xE6, 0x95, 0xB0]) (dr_event_count r) (utf8 [0xE6, 0x9D, 0xA1]), alert_metric ''recipient_count'' (utf8 [0xE6, 0x94, 0xB6, 0xE4, 0xBB, 0xB6, 0xE4, 0xBA, 0xBA, 0xE6, 0x95, 0xB0]) (dr_recipient_count r) (utf8 [0xE4, 0xB8, 0xAA])]
     (O_dict [(K_str ''skipped'', O_bool (dr_skipped r)), (K_str ''skip_reason'', opt_obj (dr_skip_reason r))])
     (O_dict [(K_str ''sent'', O_bool (dr_sent r)), (K_str ''subject'', opt_obj (dr_subject r)), (K_str ''event_count'', O_int (int (dr_event_count r))),
        (K_str ''recipient_count'', O_int (int (dr_recipient_count r))), (K_str ''rule_results'', O_list (map rule_obj (dr_rules r))),
        (K_str ''send_step'', primary_step (dr_steps r)), (K_str ''delivery_steps'', O_list (map step_obj (dr_steps r)))])"

definition failed_steps :: "digest_result \<Rightarrow> delivery_step list" where
  "failed_steps r = filter (\<lambda>s. sp_status s = ''failed'') (dr_steps r)"

definition sent_steps :: "digest_result \<Rightarrow> delivery_step list" where
  "sent_steps r = filter (\<lambda>s. sp_display s = ''sent'') (dr_steps r)"

definition write_alert_summary :: "alert_env \<Rightarrow> string \<Rightarrow> digest_result \<Rightarrow> run_db \<Rightarrow> run_error + run_db" where
  "write_alert_summary env run_id r db =
    (case at_model env True (alert_summary r) of
       None \<Rightarrow> Inl Summary_invalid
     | Some (_, summary) \<Rightarrow> finalize_run_with_summary (at_model env) run_id (Some summary) None
         (if failed_steps r \<noteq> [] \<and> sent_steps r = [] then Some (step_error (hd (failed_steps r)) (utf8 [0xE5, 0x8F, 0x91, 0xE9, 0x80, 0x81, 0xE5, 0x91, 0x8A, 0xE8, 0xAD, 0xA6, 0xE6, 0xB1, 0x87, 0xE6, 0x80, 0xBB, 0xE5, 0xA4, 0xB1, 0xE8, 0xB4, 0xA5])) else None)
         False (at_run_now env) db)"

section \<open>The task\<close>

text \<open>\<^verbatim>\<open>_fail_unexpected\<close>, on the session that was rolled back.\<close>

definition fail_unexpected :: "alert_env \<Rightarrow> string \<Rightarrow> string \<Rightarrow> run_db \<Rightarrow> run_error + run_db" where
  "fail_unexpected env run_id exc db =
    (case at_model env True (alert_summary_base [] (O_dict []) (O_dict [(K_str ''error'', O_str exc)])) of
       None \<Rightarrow> Inl Summary_invalid
     | Some (_, summary) \<Rightarrow> (case write_summary (at_model env) run_id summary db of
         Inl e \<Rightarrow> Inl e
       | Inr (_, db1) \<Rightarrow>
           let db2 = (case fail_item run_id ''step'' (step_key EMAIL_CHANNEL) exc
                 (Some (O_dict [(K_str ''display_state'', O_str ''failed''), (K_str ''summary'', O_str (utf8 [0xE5, 0x8F, 0x91, 0xE9, 0x80, 0x81, 0xE6, 0xB1, 0x87, 0xE6, 0x80, 0xBB, 0xE9, 0x82, 0xAE, 0xE4, 0xBB, 0xB6, 0xE5, 0xA4, 0xB1, 0xE8, 0xB4, 0xA5]))])) (at_run_now env) db1 of
               Inl e \<Rightarrow> db1 | Inr db' \<Rightarrow> db')
           in mark_run_failed (at_model env) run_id exc None (at_run_now env) db2))"

definition alert_failure :: "alert_env \<Rightarrow> string \<Rightarrow> string \<Rightarrow> alert_world \<Rightarrow> alert_message list \<Rightarrow> alert_world \<times> alert_outcome" where
  "alert_failure env run_id exc w sent =
    (let w' = w\<lparr>aw_sent := aw_sent w @ sent\<rparr>
     in case fail_unexpected env run_id exc (aw_runs w) of
          Inl e \<Rightarrow> (w', Alert_raised e)
        | Inr runs \<Rightarrow> (w'\<lparr>aw_runs := runs\<rparr>, Alert_failed exc))"

text \<open>What the run is given of a digest.\<close>

definition write_alert_run :: "alert_env \<Rightarrow> string \<Rightarrow> digest_result \<Rightarrow> run_db \<Rightarrow> run_error + run_db" where
  "write_alert_run env run_id r db =
    (case complete_rule_items run_id (at_run_now env) (dr_rules r) db of
       Inl e \<Rightarrow> Inl e
     | Inr db1 \<Rightarrow> (case write_delivery_steps run_id (at_run_now env) (dr_steps r) db1 of
         Inl e \<Rightarrow> Inl e
       | Inr db2 \<Rightarrow> write_alert_summary env run_id r db2))"

definition email_alert :: "alert_env \<Rightarrow> bool \<Rightarrow> int option \<Rightarrow> string option \<Rightarrow> alert_world \<Rightarrow> alert_world \<times> alert_outcome" where
  "email_alert env manual_run created_by run_id w =
    (case resolve_or_start_run (at_model env) run_id (at_fresh env) ''email_alert'' (utf8 [0xE9, 0x82, 0xAE, 0xE4, 0xBB, 0xB6, 0xE5, 0x91, 0x8A, 0xE8, 0xAD, 0xA6, 0xE6, 0xB1, 0x87, 0xE6, 0x80, 0xBB]) ''notification''
         (if manual_run then ''manual'' else ''scheduled'') created_by None None (at_run_now env) (aw_runs w) of
       Inl e \<Rightarrow> (w, Alert_raised e)
     | Inr (rid, runs) \<Rightarrow>
        (case init_items rid alert_items runs of
           Inl e \<Rightarrow> (w\<lparr>aw_runs := runs\<rparr>, Alert_raised e)
         | Inr runs1 \<Rightarrow>
            let w1 = w\<lparr>aw_runs := runs1\<rparr>
            in (case at_backups env of
                  Inl exc \<Rightarrow> alert_failure env rid exc w1 []
                | Inr backups \<Rightarrow>
                   (case sync_backup_issue_events (at_to_utc env) backups (at_backup_now env) (aw_db w1) of
                      (_, db1) \<Rightarrow>
                    (case send_pending_digest (at_digest env) (at_digest_now env) db1 of
                       (r, db2, sent) \<Rightarrow>
                      (case write_alert_run env rid r runs1 of
                         Inl e \<Rightarrow> alert_failure env rid (at_text env e) w1 sent
                       | Inr runs2 \<Rightarrow> (\<lparr>aw_db = db2, aw_runs = runs2, aw_sent = aw_sent w1 @ sent\<rparr>,
                           Alert_returned (failed_steps r = [] \<or> sent_steps r \<noteq> []) r)))))))"

end
