(* ===== verification/Alert_Runs.thy ===== *)
theory Alert_Runs
  imports Alert_Task Run_Items Alert_Results
begin

text \<open>
  The run of the task \<^verbatim>\<open>email_alert\<close>: its items follow the digest, and what a failure leaves.
\<close>

section \<open>The items\<close>

text \<open>The items of a run as a list of keys and a map to statuses.\<close>

definition states_are :: "string \<Rightarrow> run_db \<Rightarrow> (string \<times> string) list \<Rightarrow> (string \<times> string \<Rightarrow> string) \<Rightarrow> bool" where
  "states_are rid db keys f \<longleftrightarrow> item_states rid db = map (\<lambda>j. ((rid, j), f j)) keys"

lemma set_state_keys: "set_state (rid, j) x (map (\<lambda>j. ((rid, j), f j)) keys) = map (\<lambda>i. ((rid, i), (f(j := x)) i)) keys"
  by (simp add: set_state_def)

lemma keyed:
  assumes "states_are rid db keys f" "(t, k) \<in> set keys"
  shows "(rid, t, k) \<in> fst ` set (item_states rid db)" "((rid, t, k), y) \<in> set (item_states rid db) \<Longrightarrow> y = f (t, k)"
  using assms by (force simp: states_are_def)+

lemma states_set:
  assumes "\<exists>db'. x = Inr db' \<and> find_run rid db' = Some r \<and> item_states rid db' = set_state (rid, t, k) y (item_states rid db)" "states_are rid db keys f"
  shows "\<exists>db'. x = Inr db' \<and> find_run rid db' = Some r \<and> states_are rid db' keys (f((t, k) := y))"
  using assms(1) unfolding states_are_def assms(2) [unfolded states_are_def] set_state_keys .

lemma started_item:
  assumes "find_run rid db = Some r" "states_are rid db keys f" "(t, k) \<in> set keys" "f (t, k) = PENDING"
  shows "\<exists>db'. start_item rid t k now db = Inr db' \<and> find_run rid db' = Some r \<and> states_are rid db' keys (f((t, k) := RUNNING))"
proof -
  have "PENDING \<notin> set task_status_terminal" by code_simp
  then show ?thesis
    by (intro states_set [OF start_item_states [OF assms(1) keyed(1) [OF assms(2,3)]] assms(2)]) (metis keyed(2) [OF assms(2,3)] assms(4))
qed

lemma completed_item:
  assumes "find_run rid db = Some r" "states_are rid db keys f" "(t, k) \<in> set keys" "f (t, k) = RUNNING"
  shows "\<exists>db'. complete_item rid t k m d now db = Inr db' \<and> find_run rid db' = Some r \<and> states_are rid db' keys (f((t, k) := COMPLETED))"
proof -
  have "RUNNING \<notin> {FAILED, CANCELLED}" by code_simp
  then show ?thesis
    by (intro states_set [OF complete_item_states [OF assms(1) keyed(1) [OF assms(2,3)]] assms(2)]) (metis keyed(2) [OF assms(2,3)] assms(4))
qed

lemma failed_item:
  assumes "find_run rid db = Some r" "states_are rid db keys f" "(t, k) \<in> set keys" "f (t, k) = RUNNING"
  shows "\<exists>db'. fail_item rid t k msg d now db = Inr db' \<and> find_run rid db' = Some r \<and> states_are rid db' keys (f((t, k) := FAILED))"
proof -
  have "RUNNING \<noteq> CANCELLED" by code_simp
  then show ?thesis
    by (intro states_set [OF fail_item_states [OF assms(1) keyed(1) [OF assms(2,3)]] assms(2)]) (metis keyed(2) [OF assms(2,3)] assms(4))
qed

lemma rule_items:
  assumes "find_run rid db = Some r" "states_are rid db keys f" "distinct (map rr_key rules)"
    and "\<forall>x \<in> set rules. (''rule'', rr_key x) \<in> set keys \<and> f (''rule'', rr_key x) = PENDING"
  shows "\<exists>db'. complete_rule_items rid now rules db = Inr db' \<and> find_run rid db' = Some r
    \<and> states_are rid db' keys (\<lambda>j. if j \<in> (\<lambda>x. (''rule'', rr_key x)) ` set rules then COMPLETED else f j)"
  using assms
proof (induction rules arbitrary: db f)
  case (Cons x rules)
  let ?k = "(''rule'', rr_key x)"
  obtain db1 where a: "start_item rid ''rule'' (rr_key x) now db = Inr db1" "find_run rid db1 = Some r" "states_are rid db1 keys (f(?k := RUNNING))"
    using started_item [OF Cons.prems(1,2), of "''rule''" "rr_key x" now] Cons.prems(4) by auto
  have listed: "?k \<in> set keys" using Cons.prems(4) by simp
  obtain db2 where b: "complete_item rid ''rule'' (rr_key x) (Some (count_metrics x)) (Some (rule_details x)) now db1 = Inr db2"
    "find_run rid db2 = Some r" "states_are rid db2 keys (f(?k := COMPLETED))"
    using completed_item [OF a(2,3) listed fun_upd_same, of "Some (count_metrics x)" "Some (rule_details x)" now, unfolded fun_upd_upd] by blast
  have "\<forall>y \<in> set rules. (''rule'', rr_key y) \<in> set keys \<and> (f(?k := COMPLETED)) (''rule'', rr_key y) = PENDING"
    using Cons.prems(3,4) by (force simp: image_iff)
  from Cons.IH [OF b(2,3) _ this] Cons.prems(3) obtain db3 where
    c: "complete_rule_items rid now rules db2 = Inr db3" "find_run rid db3 = Some r"
      "states_are rid db3 keys (\<lambda>j. if j \<in> (\<lambda>x. (''rule'', rr_key x)) ` set rules then COMPLETED else (f(?k := COMPLETED)) j)" by auto
  have "(\<lambda>j. if j \<in> (\<lambda>x. (''rule'', rr_key x)) ` set rules then COMPLETED else (f(?k := COMPLETED)) j)
      = (\<lambda>j. if j \<in> (\<lambda>x. (''rule'', rr_key x)) ` set (x # rules) then COMPLETED else f j)" by auto
  with c a(1) b(1) show ?case by simp
qed simp

definition step_state :: "delivery_step \<Rightarrow> string" where
  "step_state s = (if sp_status s = ''failed'' then FAILED else COMPLETED)"

lemma step_item:
  assumes "find_run rid db = Some r" "states_are rid db keys f" "(''step'', step_key (sp_channel s)) \<in> set keys" "f (''step'', step_key (sp_channel s)) = PENDING"
  shows "\<exists>db'. write_send_step rid now s db = Inr db' \<and> find_run rid db' = Some r \<and> states_are rid db' keys (f((''step'', step_key (sp_channel s)) := step_state s))"
proof -
  obtain db1 where a: "start_item rid ''step'' (step_key (sp_channel s)) now db = Inr db1" "find_run rid db1 = Some r"
    "states_are rid db1 keys (f((''step'', step_key (sp_channel s)) := RUNNING))"
    using started_item [OF assms] by blast
  show ?thesis
    using completed_item [OF a(2,3) assms(3)] failed_item [OF a(2,3) assms(3)] by (simp add: write_send_step_def step_state_def a(1))
qed

section \<open>The digest\<close>

definition step_keys :: "(string \<times> string) list" where
  "step_keys = map (\<lambda>c. (''step'', step_key c)) [EMAIL_CHANNEL, FEISHU_CHANNEL]"

definition alert_keys :: "(string \<times> string) list" where
  "alert_keys = map (\<lambda>(k, label, flag). (''rule'', k)) ALERT_RULES @ step_keys"

text \<open>A digest has a result for each rule and a step for each channel.\<close>

lemma digest_result_shape:
  assumes "send_pending_digest env now db = (r, db', messages)"
  shows "map rr_key (dr_rules r) = map fst ALERT_RULES"
    and "\<exists>a b. dr_steps r = [a, b] \<and> (sp_channel a = EMAIL_CHANNEL \<and> sp_channel b = FEISHU_CHANNEL \<or> sp_channel a = FEISHU_CHANNEL \<and> sp_channel b = EMAIL_CHANNEL)"
proof -
  have key: "rr_key (rule_result_of s e b p) = fst p" for s e b p
    by (simp add: rule_result_of_def Let_def split: prod.split)
  have rules: "map rr_key (build_rule_results s e b) = map fst ALERT_RULES" for s e b
    by (simp add: build_rule_results_def o_def key)
  show "map rr_key (dr_rules r) = map fst ALERT_RULES"
    using assms by (auto simp: send_pending_digest_def Let_def rules split: if_splits prod.splits)
  have channel: "sp_channel (build_delivery_step c d e) = c" "sp_channel (disabled_step c) = c" for c d e
    by (simp_all add: build_delivery_step_def disabled_step_def)
  have mail: "sp_channel st = EMAIL_CHANNEL" if "send_email_digest env events recipients subject body at d = (st, x, y)" for events recipients subject body at d st x y
    using that by (auto simp: send_email_digest_def Let_def channel split: if_splits option.splits)
  have robot: "sp_channel st = FEISHU_CHANNEL" if "send_feishu_digest env events subject body at d = (st, x, y)" for events subject body at d st x y
    using that by (auto simp: send_feishu_digest_def Let_def channel split: if_splits option.splits)
  let ?enabled = "resolve_enabled_channels (get_or_create_settings db)"
  let ?order = "\<lambda>steps. \<exists>a b. steps = [a, b] \<and> (sp_channel a = EMAIL_CHANNEL \<and> sp_channel b = FEISHU_CHANNEL \<or> sp_channel a = FEISHU_CHANNEL \<and> sp_channel b = EMAIL_CHANNEL)"
  have none: "?order (build_no_event_delivery_steps ?enabled (resolve_disabled_channels ?enabled) n recipients)" for n recipients
    by (auto simp: build_no_event_delivery_steps_def resolve_disabled_channels_def resolve_enabled_channels_def channel EMAIL_CHANNEL_def FEISHU_CHANNEL_def)
  consider "dr_steps r = map disabled_step [EMAIL_CHANNEL, FEISHU_CHANNEL]"
    | n recipients where "dr_steps r = build_no_event_delivery_steps ?enabled (resolve_disabled_channels ?enabled) n recipients"
    | a b where "dr_steps r = [a, b]" "sp_channel a = EMAIL_CHANNEL" "sp_channel b = FEISHU_CHANNEL"
    using assms mail robot channel by (auto simp: send_pending_digest_def Let_def split: if_splits prod.splits)
  then show "?order (dr_steps r)" using none by cases (auto simp: channel)
qed

lemma keys_distinct: "distinct alert_keys"
  by code_simp

text \<open>After a digest every item is completed, but those of the steps that failed.\<close>

lemma run_written:
  assumes "send_pending_digest env now db = (r, db', messages)" "find_run rid runs = Some run" "states_are rid runs alert_keys (\<lambda>_. PENDING)"
  shows "\<exists>runs1 runs2. complete_rule_items rid at (dr_rules r) runs = Inr runs1 \<and> write_delivery_steps rid at (dr_steps r) runs1 = Inr runs2
    \<and> find_run rid runs2 = Some run \<and> states_are rid runs2 alert_keys
      (\<lambda>j. if j \<in> (\<lambda>s. (''step'', step_key (sp_channel s))) ` set (failed_steps r) then FAILED else COMPLETED)"
proof -
  let ?rule = "\<lambda>x. (''rule'', rr_key x)"
  have keys: "map rr_key (dr_rules r) = map fst ALERT_RULES" by (rule digest_result_shape(1) [OF assms(1)])
  have "distinct (map fst ALERT_RULES)" by code_simp
  then have d: "distinct (map rr_key (dr_rules r))" using keys by simp
  have all: "?rule ` set (dr_rules r) = set (map (\<lambda>(k, label, flag). (''rule'', k)) ALERT_RULES)"
  proof -
    have "map ?rule (dr_rules r) = map (Pair ''rule'') (map rr_key (dr_rules r))" by simp
    also have "\<dots> = map (\<lambda>(k, label, flag). (''rule'', k)) ALERT_RULES" unfolding keys by (simp add: case_prod_unfold)
    finally show ?thesis by (metis set_map)
  qed
  have "?rule x \<in> set alert_keys" if "x \<in> set (dr_rules r)" for x
    using imageI [OF that, of ?rule] unfolding all alert_keys_def set_append by (rule UnI1)
  then have "\<forall>x \<in> set (dr_rules r). ?rule x \<in> set alert_keys \<and> PENDING = PENDING" by simp
  from rule_items [OF assms(2,3) d this, of at] obtain runs1 where one: "complete_rule_items rid at (dr_rules r) runs = Inr runs1" "find_run rid runs1 = Some run"
    "states_are rid runs1 alert_keys (\<lambda>j. if j \<in> ?rule ` set (dr_rules r) then COMPLETED else PENDING)"
    by blast
  obtain a b where ab: "dr_steps r = [a, b]"
    "sp_channel a = EMAIL_CHANNEL \<and> sp_channel b = FEISHU_CHANNEL \<or> sp_channel a = FEISHU_CHANNEL \<and> sp_channel b = EMAIL_CHANNEL"
    using digest_result_shape(2) [OF assms(1)] by blast
  let ?step = "\<lambda>s. (''step'', step_key (sp_channel s))"
  have steps: "?step a \<in> set alert_keys" "?step b \<in> set alert_keys" "?step a \<noteq> ?step b" "{?step a, ?step b} = set step_keys"
    using ab(2) by (auto simp: alert_keys_def step_keys_def step_key_def EMAIL_CHANNEL_def FEISHU_CHANNEL_def)
  have fresh: "(if ?step a \<in> ?rule ` set (dr_rules r) then COMPLETED else PENDING) = PENDING"
    and fresh2: "((\<lambda>j. if j \<in> ?rule ` set (dr_rules r) then COMPLETED else PENDING)(?step a := step_state a)) (?step b) = PENDING"
    using steps(3) by auto
  obtain runs2 where two: "write_send_step rid at a runs1 = Inr runs2" "find_run rid runs2 = Some run"
    "states_are rid runs2 alert_keys ((\<lambda>j. if j \<in> ?rule ` set (dr_rules r) then COMPLETED else PENDING)(?step a := step_state a))"
    using step_item [OF one(2,3) steps(1) fresh] by blast
  obtain runs3 where three: "write_send_step rid at b runs2 = Inr runs3" "find_run rid runs3 = Some run"
    "states_are rid runs3 alert_keys ((\<lambda>j. if j \<in> ?rule ` set (dr_rules r) then COMPLETED else PENDING)(?step a := step_state a, ?step b := step_state b))"
    using step_item [OF two(2,3) steps(2) fresh2] by blast
  have "(if j \<in> ?step ` set (failed_steps r) then FAILED else COMPLETED)
      = ((\<lambda>j. if j \<in> ?rule ` set (dr_rules r) then COMPLETED else PENDING)(?step a := step_state a, ?step b := step_state b)) j"
    if "j \<in> set alert_keys" for j
  proof (cases "j \<in> set step_keys")
    case True
    then show ?thesis using steps(3) unfolding steps(4) [symmetric] by (auto simp: failed_steps_def ab(1) step_state_def)
  next
    case False
    then have "j \<in> ?rule ` set (dr_rules r)" using that unfolding all by (simp add: alert_keys_def)
    moreover have "j \<noteq> ?step a" "j \<noteq> ?step b" using False steps(4) by blast+
    moreover have "j \<notin> ?step ` set (failed_steps r)" using calculation(2,3) by (auto simp: failed_steps_def ab(1))
    ultimately show ?thesis by simp
  qed
  then have "states_are rid runs3 alert_keys (\<lambda>j. if j \<in> ?step ` set (failed_steps r) then FAILED else COMPLETED)"
    using three(3) by (simp add: states_are_def)
  then show ?thesis using one(1) two(1) three(1,2) by (simp add: ab(1))
qed

text \<open>How many items failed.\<close>

lemma failed_count:
  assumes "send_pending_digest env now db = (r, db', messages)"
    and "states = map (\<lambda>j. ((rid, j), if j \<in> (\<lambda>s. (''step'', step_key (sp_channel s))) ` set (failed_steps r) then FAILED else COMPLETED)) alert_keys"
  shows "length states = 8" "length (filter (\<lambda>x. snd x = FAILED) states) = length (failed_steps r)"
    "length (filter (\<lambda>x. snd x = COMPLETED) states) = 8 - length (failed_steps r)" "(\<exists>x \<in> set states. snd x = FAILED) \<longleftrightarrow> failed_steps r \<noteq> []"
proof -
  let ?step = "\<lambda>s. (''step'', step_key (sp_channel s))"
  let ?f = "map ?step (failed_steps r)"
  obtain a b where ab: "dr_steps r = [a, b]"
    "sp_channel a = EMAIL_CHANNEL \<and> sp_channel b = FEISHU_CHANNEL \<or> sp_channel a = FEISHU_CHANNEL \<and> sp_channel b = EMAIL_CHANNEL"
    using digest_result_shape(2) [OF assms(1)] by blast
  show "length states = 8" unfolding assms(2) length_map by code_simp
  have fit: "distinct ?f" "set ?f \<subseteq> set alert_keys"
    using ab(2) by (auto simp: failed_steps_def ab(1) alert_keys_def step_keys_def step_key_def EMAIL_CHANNEL_def FEISHU_CHANNEL_def)
  have neq: "FAILED \<noteq> COMPLETED" by code_simp
  have "set (filter (\<lambda>j. j \<in> set ?f) alert_keys) = set ?f" using fit(2) by auto
  then have "card (set (filter (\<lambda>j. j \<in> set ?f) alert_keys)) = length (failed_steps r)" using fit(1) by (metis distinct_card length_map)
  then have n: "length (filter (\<lambda>j. j \<in> set ?f) alert_keys) = length (failed_steps r)"
    using distinct_card [OF distinct_filter [OF keys_distinct]] by metis
  have states: "states = map (\<lambda>j. ((rid, j), if j \<in> set ?f then FAILED else COMPLETED)) alert_keys" by (simp only: assms(2) set_map)
  have "filter (\<lambda>x. snd x = FAILED) (map (\<lambda>j. ((rid, j), if j \<in> set ?f then FAILED else COMPLETED)) keys)
      = map (\<lambda>j. ((rid, j), FAILED)) (filter (\<lambda>j. j \<in> set ?f) keys)" for keys
    using neq by (induction keys) simp_all
  then show f: "length (filter (\<lambda>x. snd x = FAILED) states) = length (failed_steps r)"
    unfolding states by (simp only: length_map n)
  have "filter (\<lambda>x. snd x = COMPLETED) (map (\<lambda>j. ((rid, j), if j \<in> set ?f then FAILED else COMPLETED)) keys)
      = map (\<lambda>j. ((rid, j), COMPLETED)) (filter (\<lambda>j. j \<notin> set ?f) keys)" for keys
    using neq by (induction keys) simp_all
  moreover have "length (filter (\<lambda>j. j \<in> set ?f) alert_keys) + length (filter (\<lambda>j. j \<notin> set ?f) alert_keys) = length alert_keys"
    by (rule sum_length_filter_compl)
  moreover have "length alert_keys = 8" by code_simp
  ultimately show "length (filter (\<lambda>x. snd x = COMPLETED) states) = 8 - length (failed_steps r)"
    unfolding states n by (simp only: length_map)
  show "(\<exists>x \<in> set states. snd x = FAILED) \<longleftrightarrow> failed_steps r \<noteq> []"
  proof -
    have "(\<exists>x \<in> set states. snd x = FAILED) \<longleftrightarrow> filter (\<lambda>x. snd x = FAILED) states \<noteq> []" by (auto simp: filter_empty_conv)
    also have "\<dots> \<longleftrightarrow> failed_steps r \<noteq> []" using f by (metis length_0_conv)
    finally show ?thesis .
  qed
qed

text \<open>The items by rules and channels.\<close>

lemma alert_item_states:
  assumes "send_pending_digest env now db = (r, db', messages)"
  shows "map (\<lambda>j. ((rid, j), if j \<in> (\<lambda>s. (''step'', step_key (sp_channel s))) ` set (failed_steps r) then FAILED else COMPLETED)) alert_keys
    = map (\<lambda>(k, label, flag). ((rid, ''rule'', k), COMPLETED)) ALERT_RULES
      @ map (\<lambda>c. ((rid, ''step'', step_key c), if \<exists>s \<in> set (dr_steps r). sp_channel s = c \<and> sp_status s = ''failed'' then FAILED else COMPLETED))
          [EMAIL_CHANNEL, FEISHU_CHANNEL]"
proof -
  have chan: "sp_channel s \<in> {EMAIL_CHANNEL, FEISHU_CHANNEL}" if "s \<in> set (dr_steps r)" for s
    using digest_result_shape(2) [OF assms] that by auto
  have key: "step_key c = step_key d \<longleftrightarrow> c = d" if "c \<in> {EMAIL_CHANNEL, FEISHU_CHANNEL}" "d \<in> {EMAIL_CHANNEL, FEISHU_CHANNEL}" for c d
    using that by (auto simp: step_key_def EMAIL_CHANNEL_def FEISHU_CHANNEL_def)
  have "(''step'', step_key c) \<in> (\<lambda>s. (''step'', step_key (sp_channel s))) ` set (failed_steps r)
      \<longleftrightarrow> (\<exists>s \<in> set (dr_steps r). sp_channel s = c \<and> sp_status s = ''failed'')" if "c \<in> {EMAIL_CHANNEL, FEISHU_CHANNEL}" for c
    using chan key [OF that] by (auto simp: failed_steps_def)
  then show ?thesis by (simp add: alert_keys_def step_keys_def) (auto simp: failed_steps_def)
qed

section \<open>The task\<close>

text \<open>C20: When the backups of the instances can be read, the model accepts its summaries and the tables
  of runs have no stray or duplicate items, the task closes the run that it starts: the items of all rules
  are completed, the item of each channel is failed when the digest's delivery step for the channel has
  failed and completed otherwise, and the counts of the run are those of its items; the run is completed
  when no delivery failed and failed else, though the task reports success also when one of two channels
  failed. The tables of the alerts and what was sent are those of the digest after the events of the
  backups.\<close>

theorem email_alert_closes_run:
  assumes "\<forall>b v. \<exists>v'. at_model env b v = Some (''email_alert'', v')" "find_run (at_fresh env) (aw_runs w) = None"
    and "\<forall>it \<in> set (rdb_items (aw_runs w)). find_run (ti_run it) (aw_runs w) \<noteq> None" "distinct (map item_id (rdb_items (aw_runs w)))"
    and "at_backups env = Inr backups"
    and "send_pending_digest (at_digest env) (at_digest_now env) (snd (sync_backup_issue_events (at_to_utc env) backups (at_backup_now env) (aw_db w))) = (r, db', sent)"
  shows "\<exists>w' run. email_alert env manual u None w = (w', Alert_returned (list_all (\<lambda>s. sp_status s \<noteq> ''failed'') (dr_steps r) \<or> list_ex (\<lambda>s. sp_display s = ''sent'') (dr_steps r)) r)
    \<and> aw_db w' = db' \<and> aw_sent w' = aw_sent w @ sent
    \<and> set (map sp_channel (dr_steps r)) = {EMAIL_CHANNEL, FEISHU_CHANNEL} \<and> length (dr_steps r) = 2
    \<and> item_states (at_fresh env) (aw_runs w') =
        map (\<lambda>(k, label, flag). ((at_fresh env, ''rule'', k), COMPLETED)) ALERT_RULES
        @ map (\<lambda>c. ((at_fresh env, ''step'', step_key c), if \<exists>s \<in> set (dr_steps r). sp_channel s = c \<and> sp_status s = ''failed'' then FAILED else COMPLETED))
            [EMAIL_CHANNEL, FEISHU_CHANNEL]
    \<and> find_run (at_fresh env) (aw_runs w') = Some run \<and> tr_total run = 8 \<and> tr_completed run + tr_failed run = 8
    \<and> tr_failed run = length (filter (\<lambda>s. sp_status s = ''failed'') (dr_steps r))
    \<and> tr_status run = (if list_all (\<lambda>s. sp_status s \<noteq> ''failed'') (dr_steps r) then COMPLETED else FAILED)
    \<and> tr_completed_at run = Some (at_run_now env)"
proof -
  let ?fresh = "at_fresh env" and ?now = "at_run_now env" and ?trigger = "if manual then ''manual'' else ''scheduled''"
  have keys: "distinct (map (\<lambda>i. (ii_type i, ii_key i)) alert_items)" "map (\<lambda>i. (ii_type i, ii_key i)) alert_items = alert_keys" by code_simp+
  obtain db1 db2 run where start: "resolve_or_start_run (at_model env) None ?fresh ''email_alert'' (utf8 [0xE9, 0x82, 0xAE, 0xE4, 0xBB, 0xB6, 0xE5, 0x91, 0x8A, 0xE8, 0xAD, 0xA6, 0xE6, 0xB1, 0x87, 0xE6, 0x80, 0xBB]) ''notification'' ?trigger u None None ?now (aw_runs w) = Inr (?fresh, db1)"
    and init: "init_items ?fresh alert_items db1 = Inr db2" and run: "find_run ?fresh db2 = Some run" "tr_status run = RUNNING" "tr_task_key run = ''email_alert''"
    and items: "item_states ?fresh db2 = map (\<lambda>i. ((?fresh, ii_type i, ii_key i), PENDING)) alert_items"
    using started_run [OF assms(1-4) keys(1)] by blast
  have "states_are ?fresh db2 alert_keys (\<lambda>_. PENDING)"
    unfolding states_are_def items keys(2) [symmetric] by simp
  from run_written [OF assms(6) run(1) this] obtain runs1 runs2 where
    written: "complete_rule_items ?fresh ?now (dr_rules r) db2 = Inr runs1" "write_delivery_steps ?fresh ?now (dr_steps r) runs1 = Inr runs2"
    "find_run ?fresh runs2 = Some run"
    and states: "states_are ?fresh runs2 alert_keys (\<lambda>j. if j \<in> (\<lambda>s. (''step'', step_key (sp_channel s))) ` set (failed_steps r) then FAILED else COMPLETED)"
    by blast
  note count = failed_count [OF assms(6) refl, of ?fresh, folded states [unfolded states_are_def]]
  obtain x where x: "at_model env True (alert_summary r) = Some (''email_alert'', x)" using assms(1) by blast
  let ?msg = "if failed_steps r \<noteq> [] \<and> sent_steps r = [] then Some (step_error (hd (failed_steps r)) (utf8 [0xE5, 0x8F, 0x91, 0xE9, 0x80, 0x81, 0xE5, 0x91, 0x8A, 0xE8, 0xAD, 0xA6, 0xE6, 0xB1, 0x87, 0xE6, 0x80, 0xBB, 0xE5, 0xA4, 0xB1, 0xE8, 0xB4, 0xA5])) else None"
  have live: "tr_status run \<notin> {CANCELLED, FAILED}" unfolding run(2) by code_simp
  have ended: "\<forall>x \<in> set (item_states ?fresh runs2). snd x \<in> {COMPLETED, FAILED}"
    using states by (auto simp: states_are_def)
  obtain runs3 run' where fin: "finalize_run_with_summary (at_model env) ?fresh (Some x) None ?msg False ?now runs2 = Inr runs3" "find_run ?fresh runs3 = Some run'"
    "tr_total run' = 8" "tr_completed run' = 8 - length (failed_steps r)" "tr_failed run' = length (failed_steps r)"
    "tr_status run' = (if failed_steps r \<noteq> [] then FAILED else COMPLETED)" "tr_completed_at run' = Some ?now"
    using finalize_states [OF written(3) live run(3) _ ended, of "at_model env" x None ?msg False ?now] assms(1) unfolding count by auto
  have all: "failed_steps r = [] \<longleftrightarrow> list_all (\<lambda>s. sp_status s \<noteq> ''failed'') (dr_steps r)"
    "sent_steps r \<noteq> [] \<longleftrightarrow> list_ex (\<lambda>s. sp_display s = ''sent'') (dr_steps r)"
    by (auto simp: failed_steps_def sent_steps_def filter_empty_conv list_all_iff list_ex_iff)
  have "write_alert_run env ?fresh r db2 = Inr runs3"
    using written fin(1) x by (simp add: write_alert_run_def write_alert_summary_def)
  moreover obtain n backed where "sync_backup_issue_events (at_to_utc env) backups (at_backup_now env) (aw_db w) = (n, backed)" by fastforce
  ultimately have "email_alert env manual u None w = (\<lparr>aw_db = db', aw_runs = runs3, aw_sent = aw_sent w @ sent\<rparr>, Alert_returned (failed_steps r = [] \<or> sent_steps r \<noteq> []) r)"
    using start init assms(5,6) by (simp add: email_alert_def)
  moreover have "length (failed_steps r) \<le> 8"
  proof -
    obtain a b where "dr_steps r = [a, b]" using digest_result_shape(2) [OF assms(6)] by blast
    then show ?thesis by (simp add: failed_steps_def)
  qed
  moreover have "item_states ?fresh runs3 = map (\<lambda>(k, label, flag). ((?fresh, ''rule'', k), COMPLETED)) ALERT_RULES
      @ map (\<lambda>c. ((?fresh, ''step'', step_key c), if \<exists>s \<in> set (dr_steps r). sp_channel s = c \<and> sp_status s = ''failed'' then FAILED else COMPLETED))
          [EMAIL_CHANNEL, FEISHU_CHANNEL]"
    unfolding finalize_items [OF fin(1)] states [unfolded states_are_def] by (rule alert_item_states [OF assms(6)])
  moreover have "set (map sp_channel (dr_steps r)) = {EMAIL_CHANNEL, FEISHU_CHANNEL} \<and> length (dr_steps r) = 2"
    using digest_result_shape(2) [OF assms(6)] by auto
  ultimately show ?thesis using fin(2-7) all
    by (intro exI [of _ "\<lparr>aw_db = db', aw_runs = runs3, aw_sent = aw_sent w @ sent\<rparr>"] exI [of _ run']) (simp add: failed_steps_def)
qed

definition example_alert_env :: "(pyobj \<Rightarrow> bool) \<Rightarrow> alert_env" where
  "example_alert_env ok = \<lparr>at_model = (\<lambda>b v. if ok v then Some (''email_alert'', v) else None), at_digest = example_digest_env, at_to_utc = (\<lambda>_. None),
     at_backups = Inr [], at_backup_now = 0, at_digest_now = 0, at_run_now = 5, at_fresh = ''r1'', at_text = (\<lambda>_. ''refused'')\<rparr>"

definition example_alert_world :: alert_world where
  "example_alert_world = \<lparr>aw_db = example_alerts, aw_runs = \<lparr>rdb_runs = [], rdb_items = []\<rparr>, aw_sent = []\<rparr>"

lemma email_alert_closes_run_witness:
  "\<exists>w' r run. email_alert (example_alert_env (\<lambda>_. True)) True None None example_alert_world = (w', Alert_returned True r)
    \<and> length (aw_sent w') = 1 \<and> find_run ''r1'' (aw_runs w') = Some run \<and> tr_status run = COMPLETED"
proof -
  let ?env = "example_alert_env (\<lambda>_. True)"
  obtain r db' sent where d: "send_pending_digest (at_digest ?env) (at_digest_now ?env) (snd (sync_backup_issue_events (at_to_utc ?env) [] (at_backup_now ?env) (aw_db example_alert_world))) = (r, db', sent)"
    by (metis prod_cases3)
  have "case send_pending_digest (at_digest ?env) (at_digest_now ?env) (snd (sync_backup_issue_events (at_to_utc ?env) [] (at_backup_now ?env) (aw_db example_alert_world))) of
      (r, db', sent) \<Rightarrow> length sent = 1 \<and> list_all (\<lambda>s. sp_status s \<noteq> ''failed'') (dr_steps r)" by code_simp
  then have "length sent = 1" "list_all (\<lambda>s. sp_status s \<noteq> ''failed'') (dr_steps r)" unfolding d by simp_all
  then show ?thesis
    using email_alert_closes_run [of ?env example_alert_world "[]" r db' sent True None] d
    by (auto simp: example_alert_env_def example_alert_world_def find_run_def)
qed

text \<open>C21: A task that ends with an exception leaves the tables of the alerts as they were, though messages
  may have been sent: the next digest sends them again.\<close>

theorem failed_alert_forgets_messages:
  assumes "email_alert env manual u run_id w = (w', result)" "\<And>success r. result \<noteq> Alert_returned success r"
  shows "aw_db w' = aw_db w \<and> (\<exists>sent. aw_sent w' = aw_sent w @ sent
    \<and> (sent \<noteq> [] \<longrightarrow> (\<exists>backups r db'. at_backups env = Inr backups
      \<and> send_pending_digest (at_digest env) (at_digest_now env) (snd (sync_backup_issue_events (at_to_utc env) backups (at_backup_now env) (aw_db w))) = (r, db', sent))))"
  using assms by (auto simp: email_alert_def alert_failure_def Let_def split: sum.splits prod.splits)

definition without_metrics :: "pyobj \<Rightarrow> bool" where
  "without_metrics v = (case v of O_dict [_, (_, O_dict [_, _, (_, O_list metrics), _, _]), _] \<Rightarrow> metrics = [] | _ \<Rightarrow> True)"

lemma failed_alert_forgets_messages_witness:
  "\<exists>w1 w2 e1 e2. email_alert (example_alert_env without_metrics) True None None example_alert_world = (w1, Alert_failed e1)
    \<and> email_alert ((example_alert_env without_metrics)\<lparr>at_fresh := ''r2''\<rparr>) True None None w1 = (w2, Alert_failed e2)
    \<and> aw_db w2 = aw_db example_alert_world \<and> (\<exists>m. aw_sent w2 = [m, m])"
proof -
  let ?env = "example_alert_env without_metrics"
  obtain w1 o1 where one: "email_alert ?env True None None example_alert_world = (w1, o1)" by fastforce
  obtain w2 o2 where two: "email_alert (?env\<lparr>at_fresh := ''r2''\<rparr>) True None None w1 = (w2, o2)" by fastforce
  have "case email_alert ?env True None None example_alert_world of (w1, o1) \<Rightarrow>
     case email_alert (?env\<lparr>at_fresh := ''r2''\<rparr>) True None None w1 of (w2, o2) \<Rightarrow>
       (case (o1, o2) of (Alert_failed _, Alert_failed _) \<Rightarrow> True | _ \<Rightarrow> False) \<and> (case aw_sent w2 of [m, m'] \<Rightarrow> m = m' | _ \<Rightarrow> False)" by code_simp
  then obtain e1 e2 where o: "o1 = Alert_failed e1" "o2 = Alert_failed e2" and sent: "\<exists>m. aw_sent w2 = [m, m]"
    unfolding one two prod.case by (auto split: alert_outcome.splits list.splits)
  have "aw_db w2 = aw_db example_alert_world"
    using failed_alert_forgets_messages [OF one [unfolded o(1)]] failed_alert_forgets_messages [OF two [unfolded o(2)]] by simp
  then show ?thesis using one [unfolded o(1)] two [unfolded o(2)] sent by blast
qed

section \<open>The task in the history of the tables\<close>

text \<open>Every task is steps of the history: its events and its digest when it returns, and what it sent
  before the rollback when it raises.\<close>

lemma backups_step:
  "sync_backup_issue_events to_utc backups now db = (n, db') \<Longrightarrow> alert_step (db, log) (db', log)"
  unfolding sync_backup_issue_events_def by (rule alert_step.backup)

lemma email_alert_steps:
  assumes "email_alert env manual u run_id w = (w', result)"
  shows "\<exists>told. alert_step\<^sup>*\<^sup>* (aw_db w, log) (aw_db w', log @ told) \<and> aw_sent w' = aw_sent w @ map tm_message told"
proof -
  have none: ?thesis if "aw_db w' = aw_db w" "aw_sent w' = aw_sent w" using that by (intro exI [of _ "[]"]) simp
  have failed: "aw_db (fst (alert_failure env rid exc v sent)) = aw_db v \<and> aw_sent (fst (alert_failure env rid exc v sent)) = aw_sent v @ sent" for rid exc v sent
    by (auto simp: alert_failure_def Let_def split: sum.split)
  show ?thesis
  proof (cases "\<exists>rid runs runs1 backups. resolve_or_start_run (at_model env) run_id (at_fresh env) ''email_alert'' (utf8 [0xE9, 0x82, 0xAE, 0xE4, 0xBB, 0xB6, 0xE5, 0x91, 0x8A, 0xE8, 0xAD, 0xA6, 0xE6, 0xB1, 0x87, 0xE6, 0x80, 0xBB]) ''notification''
         (if manual then ''manual'' else ''scheduled'') u None None (at_run_now env) (aw_runs w) = Inr (rid, runs) \<and> init_items rid alert_items runs = Inr runs1 \<and> at_backups env = Inr backups")
    case False
    then show ?thesis using assms failed by (intro none) (auto simp: email_alert_def Let_def split: sum.splits prod.splits dest!: arg_cong [where f = fst])
  next
    case True
    then obtain rid runs runs1 backups where start: "resolve_or_start_run (at_model env) run_id (at_fresh env) ''email_alert'' (utf8 [0xE9, 0x82, 0xAE, 0xE4, 0xBB, 0xB6, 0xE5, 0x91, 0x8A, 0xE8, 0xAD, 0xA6, 0xE6, 0xB1, 0x87, 0xE6, 0x80, 0xBB]) ''notification''
         (if manual then ''manual'' else ''scheduled'') u None None (at_run_now env) (aw_runs w) = Inr (rid, runs)" "init_items rid alert_items runs = Inr runs1" "at_backups env = Inr backups"
      by blast
    obtain n db1 where b: "sync_backup_issue_events (at_to_utc env) backups (at_backup_now env) (aw_db w) = (n, db1)" by fastforce
    obtain r db2 sent where d: "send_pending_digest (at_digest env) (at_digest_now env) db1 = (r, db2, sent)" by (metis prod_cases3)
    let ?told = "\<lambda>kept. map (told_by kept (digest_events (at_digest_now env) db1)) sent"
    have told: "map tm_message (?told kept) = sent" for kept by (simp add: o_def)
    have task: "(case write_alert_run env rid r runs1 of Inl e \<Rightarrow> alert_failure env rid (at_text env e) (w\<lparr>aw_runs := runs1\<rparr>) sent
       | Inr runs2 \<Rightarrow> (\<lparr>aw_db = db2, aw_runs = runs2, aw_sent = aw_sent w @ sent\<rparr>, Alert_returned (failed_steps r = [] \<or> sent_steps r \<noteq> []) r)) = (w', result)"
      using assms by (simp add: email_alert_def start b d Let_def cong: sum.case_cong)
    show ?thesis
    proof (cases "write_alert_run env rid r runs1")
      case (Inl e)
      then have "aw_db w' = aw_db w \<and> aw_sent w' = aw_sent w @ sent" using task failed [of rid "at_text env e" "w\<lparr>aw_runs := runs1\<rparr>" sent] by simp
      moreover have "alert_step (aw_db w, log) (aw_db w, log @ ?told False)"
        by (rule alert_step.rolled_back [OF b [unfolded sync_backup_issue_events_def] d])
      ultimately show ?thesis using told by (intro exI [of _ "?told False"]) auto
    next
      case (Inr runs2)
      then have "aw_db w' = db2 \<and> aw_sent w' = aw_sent w @ sent" using task by auto
      moreover have "alert_step\<^sup>*\<^sup>* (aw_db w, log) (db2, log @ ?told True)"
        using backups_step [OF b, of log] alert_step.digest [OF d, of log] by (meson converse_rtranclp_into_rtranclp rtranclp.rtrancl_refl)
      ultimately show ?thesis using told by (intro exI [of _ "?told True"]) simp
    qed
  qed
qed

end
