(* ===== verification/Veeam_Match.thy ===== *)
theory Veeam_Match
  imports Jumpserver_Provider
begin

text \<open>
  Which backups of Veeam belong to which machine: \<^verbatim>\<open>app/services/veeam/matching.py\<close> and
  \<^verbatim>\<open>match_sampler.py\<close>. \<^verbatim>\<open>ip_text\<close> is \<^verbatim>\<open>str(ipaddress.ip_address(s))\<close>, or
  \<^verbatim>\<open>None\<close> when that raises.
\<close>

section \<open>Names and addresses\<close>

definition normalize_machine_name :: "string option \<Rightarrow> string" where
  "normalize_machine_name value = (case value of None \<Rightarrow> [] | Some s \<Rightarrow> lower (strip s))"

definition strip_dots :: "string \<Rightarrow> string" where
  "strip_dots s = rev (dropWhile (\<lambda>c. c = CHR ''.'') (rev (dropWhile (\<lambda>c. c = CHR ''.'') s)))"

definition normalize_domain :: "string option \<Rightarrow> string" where
  "normalize_domain value = (case value of None \<Rightarrow> [] | Some s \<Rightarrow> lower (strip_dots (strip s)))"

definition normalize_ip_address :: "(string \<Rightarrow> string option) \<Rightarrow> string option \<Rightarrow> string option" where
  "normalize_ip_address ip_text value = (case value of None \<Rightarrow> None | Some s \<Rightarrow> if s = [] then None else ip_text (strip s))"

fun add_domains :: "string \<Rightarrow> string option list \<Rightarrow> string list \<Rightarrow> string list" where
  "add_domains base_name [] candidates = candidates"
| "add_domains base_name (domain # domains) candidates =
    (let normalized_domain = normalize_domain domain;
         candidate = (if suffix (''.'' @ normalized_domain) base_name then base_name else base_name @ ''.'' @ normalized_domain)
     in if normalized_domain = [] \<or> candidate \<in> set candidates then add_domains base_name domains candidates
        else add_domains base_name domains (candidates @ [candidate]))"

definition build_instance_match_candidates :: "string option \<Rightarrow> string option list \<Rightarrow> string list" where
  "build_instance_match_candidates instance_name domains =
    (let base_name = normalize_machine_name instance_name
     in if base_name = [] then [] else add_domains base_name domains [base_name])"

definition build_instance_ip_candidates :: "(string \<Rightarrow> string option) \<Rightarrow> string option \<Rightarrow> string list" where
  "build_instance_ip_candidates ip_text instance_host = (case instance_host of
     None \<Rightarrow> []
   | Some host \<Rightarrow> if host = [] then [] else
       (let candidates = (case normalize_ip_address ip_text (Some host) of Some ip \<Rightarrow> if ip = [] then [] else [ip] | None \<Rightarrow> []);
            host_str = strip host
        in if host_str \<noteq> [] \<and> host_str \<notin> set candidates then candidates @ [lower host_str] else candidates))"

section \<open>Objects\<close>

text \<open>\<^verbatim>\<open>_pick_string\<close> of the sampler and of the provider: only texts count.\<close>

definition pick_text :: "pdict \<Rightarrow> string list \<Rightarrow> string option" where
  "pick_text item keys = first_some (\<lambda>key. case dget item key of
     PStr s \<Rightarrow> if strip s = [] then None else Some (strip s) | _ \<Rightarrow> None) keys"

definition resolve_backup_machine_name :: "pdict \<Rightarrow> string option" where
  "resolve_backup_machine_name item = pick_text item
     [''name'', ''machineName'', ''machine_name'', ''objectName'', ''object_name'', ''workloadName'', ''workload_name'',
      ''computerName'', ''computer_name'', ''vmName'', ''vm_name'', ''hostName'', ''host_name'']"

definition resolve_backup_machine_ip :: "pdict \<Rightarrow> string option" where
  "resolve_backup_machine_ip item = pick_text item
     [''ipAddress'', ''ip_address'', ''hostIp'', ''host_ip'', ''guestIp'', ''guest_ip'', ''ip'', ''ipAddress1'', ''ip_address_1'',
      ''networkIp'', ''network_ip'']"

record matched_object =
  mo_id :: string
  mo_machine :: "string option"
  mo_item :: pdict

record object_matches =
  om_matched :: "matched_object list"
  om_received :: nat
  om_matched_total :: nat
  om_unmatched :: nat
  om_missing_name :: nat
  om_matched_ids :: "string list"
  om_unmatched_ids :: "string list"
  om_unmatched_names :: "string list"
  om_missing_ids :: "string list"
  om_missing_names :: "string list"

definition SAMPLE_LIMIT :: nat where
  "SAMPLE_LIMIT = 20"

definition append_sample :: "'a \<Rightarrow> 'a list \<Rightarrow> 'a list" where
  "append_sample value sample = (if length sample < SAMPLE_LIMIT then sample @ [value] else sample)"

text \<open>Whether an object is of a machine by name or by address.\<close>

definition object_ip :: "(string \<Rightarrow> string option) \<Rightarrow> pdict \<Rightarrow> string option" where
  "object_ip ip_text item =
    (let name_as_ip = normalize_ip_address ip_text (resolve_backup_machine_name item);
         machine_ip = normalize_ip_address ip_text (resolve_backup_machine_ip item)
     in case machine_ip of Some ip \<Rightarrow> if ip = [] then name_as_ip else Some ip | None \<Rightarrow> name_as_ip)"

definition object_matches_machine :: "(string \<Rightarrow> string option) \<Rightarrow> string list \<Rightarrow> string list \<Rightarrow> pdict \<Rightarrow> bool" where
  "object_matches_machine ip_text names ips item =
    (normalize_machine_name (resolve_backup_machine_name item) \<in> set names
     \<or> (case object_ip ip_text item of None \<Rightarrow> False | Some ip \<Rightarrow> ip \<noteq> [] \<and> ip \<in> set ips))"

definition match_item :: "(string \<Rightarrow> string option) \<Rightarrow> string list \<Rightarrow> string list \<Rightarrow> pdict \<Rightarrow> object_matches \<Rightarrow> object_matches" where
  "match_item ip_text names ips item r =
    (case pick_text item [''id'', ''backupObjectId'', ''backup_object_id''] of
       None \<Rightarrow> r
     | Some backup_object_id \<Rightarrow>
         if names = [] \<and> ips = [] then r
         else
           let machine_name = resolve_backup_machine_name item;
               r = (if names \<noteq> [] \<and> normalize_machine_name machine_name = [] then
                   (r\<lparr>om_missing_name := om_missing_name r + 1, om_missing_ids := append_sample backup_object_id (om_missing_ids r),
                     om_missing_names := (case pick_text item [''name'', ''jobName'', ''backupName''] of
                       None \<Rightarrow> om_missing_names r | Some n \<Rightarrow> append_sample n (om_missing_names r))\<rparr>)
                 else r)
           in if object_matches_machine ip_text names ips item then
                r\<lparr>om_matched_total := om_matched_total r + 1, om_matched_ids := append_sample backup_object_id (om_matched_ids r),
                  om_matched := om_matched r @ [\<lparr>mo_id = backup_object_id, mo_machine = machine_name, mo_item = item\<rparr>]\<rparr>
              else
                r\<lparr>om_unmatched := om_unmatched r + 1, om_unmatched_ids := append_sample backup_object_id (om_unmatched_ids r),
                  om_unmatched_names := (case machine_name of None \<Rightarrow> om_unmatched_names r
                    | Some n \<Rightarrow> append_sample n (om_unmatched_names r))\<rparr>)"

definition match_backup_objects :: "(string \<Rightarrow> string option) \<Rightarrow> pdict list \<Rightarrow> string list \<Rightarrow> string list \<Rightarrow> object_matches" where
  "match_backup_objects ip_text backup_items names ips = fold (match_item ip_text names ips) backup_items
     \<lparr>om_matched = [], om_received = length backup_items, om_matched_total = 0, om_unmatched = 0, om_missing_name = 0, om_matched_ids = [],
      om_unmatched_ids = [], om_unmatched_names = [], om_missing_ids = [], om_missing_names = []\<rparr>"

end
