(* ===== verification/Veeam_Records.thy ===== *)
theory Veeam_Records
  imports Veeam_Match "HOL-Library.Product_Lexorder"
begin

text \<open>
  The records of backups: \<^verbatim>\<open>app/services/veeam/types.py\<close>, the reading of restore points and files in
  \<^verbatim>\<open>provider.py\<close>, \<^verbatim>\<open>backup_file_metric_merger.py\<close>, and the selection of the latest record of a
  machine in \<^verbatim>\<open>sync_actions_service.py\<close>. Times are in microseconds; \<^verbatim>\<open>vt_to_utc\<close> reads a time,
  \<^verbatim>\<open>vt_iso\<close> prints one, and \<^verbatim>\<open>vt_container\<close> is \<^verbatim>\<open>str\<close> of a list or dictionary. The
  distance of two times is compared in microseconds, the code compares seconds as floats.
\<close>

record veeam_texts =
  vt_ip :: "string \<Rightarrow> string option"
  vt_to_utc :: "string \<Rightarrow> int option"
  vt_iso :: "int \<Rightarrow> string"
  vt_container :: "pv \<Rightarrow> string"

record machine_backup =
  mb_machine :: string
  mb_at :: int
  mb_ip :: "string option"
  mb_backup :: "string option"
  mb_file :: "string option"
  mb_job :: "string option"
  mb_point_name :: "string option"
  mb_source_id :: "string option"
  mb_point_size :: "int option"
  mb_chain_size :: "int option"
  mb_point_count :: "int option"
  mb_payload :: pdict

record backup_file =
  bf_backup :: string
  bf_id :: "string option"
  bf_object :: "string option"
  bf_points :: "string list"
  bf_data_size :: "int option"
  bf_backup_size :: "int option"
  bf_dedup :: "int option"
  bf_compress :: "int option"
  bf_at :: "int option"
  bf_payload :: pdict

section \<open>Reading\<close>

text \<open>All keys of a document with their values, in the order of \<^verbatim>\<open>_walk_key_values\<close>.\<close>

function walk_pairs :: "pv \<Rightarrow> (string \<times> pv) list" where
  "walk_pairs v = (case v of
     PDict d \<Rightarrow> concat (map (\<lambda>kv. kv # walk_pairs (snd kv)) d)
   | PList xs \<Rightarrow> concat (map walk_pairs xs)
   | _ \<Rightarrow> [])"
  by auto
termination by (relation "measure size") (auto dest: size_in_dict size_in_list)

declare walk_pairs.simps [simp del]

definition pick_nested_int :: "pdict \<Rightarrow> string list \<Rightarrow> int option" where
  "pick_nested_int payload keys = first_some (\<lambda>(key, value). if key \<in> set keys then port_value value else None) (walk_pairs (PDict payload))"

definition pick_text_list :: "pdict \<Rightarrow> string list \<Rightarrow> string list" where
  "pick_text_list item keys = (case first_some (\<lambda>key. case dget item key of
       PList xs \<Rightarrow> (let normalized = filter (\<lambda>s. s \<noteq> []) (map strip (str_items xs)) in if normalized = [] then None else Some normalized)
     | _ \<Rightarrow> None) keys of None \<Rightarrow> [] | Some ss \<Rightarrow> ss)"

text \<open>\<^verbatim>\<open>a or b\<close> on texts that may be missing and are never empty, and on numbers.\<close>

definition or_text :: "string option \<Rightarrow> string option \<Rightarrow> string option" where
  "or_text a b = (case a of None \<Rightarrow> b | Some s \<Rightarrow> if s = [] then b else Some s)"

definition or_int :: "int option \<Rightarrow> int option \<Rightarrow> int option" where
  "or_int a b = (case a of None \<Rightarrow> b | Some n \<Rightarrow> if n = 0 then b else Some n)"

definition resolve_machine_name :: "pdict \<Rightarrow> string option" where
  "resolve_machine_name item =
    (case pick_text item [''machineName'', ''machine_name'', ''objectName'', ''object_name'', ''workloadName'', ''workload_name''] of
       Some direct \<Rightarrow> Some direct
     | None \<Rightarrow> (case pick_text item [''name''] of
         None \<Rightarrow> None
       | Some raw_name \<Rightarrow>
           if CHR ''@'' \<in> set raw_name
           then (let head = strip (takeWhile (\<lambda>c. c \<noteq> CHR ''@'') raw_name) in if head = [] then None else Some head)
           else Some raw_name))"

definition resolve_backup_at :: "veeam_texts \<Rightarrow> pdict \<Rightarrow> int option" where
  "resolve_backup_at T item = first_some (\<lambda>key. let value = dget item key in
      if truthy value then vt_to_utc T (py_str (vt_container T) value) else None)
    [''backupTime'', ''backup_time'', ''creationTime'', ''creation_time'', ''restorePointDate'', ''restore_point_date'', ''latestBackupAt'',
     ''latest_backup_at'']"

definition normalize_backup_record :: "veeam_texts \<Rightarrow> pdict \<Rightarrow> pdict \<Rightarrow> string option \<Rightarrow> machine_backup option" where
  "normalize_backup_record T item backup_item backup_machine_name =
    (case (or_text backup_machine_name (resolve_machine_name item), resolve_backup_at T item) of
       (Some machine_name, Some backup_at) \<Rightarrow> if machine_name = [] then None else Some
         \<lparr>mb_machine = machine_name, mb_at = backup_at,
           mb_ip = (if backup_item = [] then None else resolve_backup_machine_ip backup_item),
           mb_backup = or_text (pick_text item [''backupId'', ''backup_id'']) (pick_text backup_item [''backupId'', ''backup_id'']),
           mb_file = pick_text item [''backupFileId'', ''backup_file_id''],
           mb_job = or_text (pick_text item [''jobName'', ''job_name'', ''backupName'', ''backup_name''])
             (pick_text backup_item [''jobName'', ''job_name'', ''backupName'', ''backup_name'']),
           mb_point_name = pick_text item [''restorePointName'', ''restore_point_name'', ''name''],
           mb_source_id = pick_text item [''id'', ''restorePointId'', ''restore_point_id''],
           mb_point_size = pick_nested_int item [''restorePointSizeBytes'', ''restore_point_size_bytes'', ''sizeBytes'', ''size_bytes''],
           mb_chain_size = or_int (pick_nested_int item [''backupChainSizeBytes'', ''backup_chain_size_bytes'', ''totalSizeBytes'', ''total_size_bytes''])
             (pick_nested_int backup_item [''backupChainSizeBytes'', ''backup_chain_size_bytes'', ''totalSizeBytes'', ''total_size_bytes'',
                ''sizeBytes'', ''size_bytes'', ''size'']),
           mb_point_count = or_int (pick_nested_int item [''restorePointCount'', ''restore_point_count'', ''restorePointsCount'', ''restore_points_count''])
             (pick_nested_int backup_item [''restorePointCount'', ''restore_point_count'', ''restorePointsCount'', ''restore_points_count'', ''pointCount'']),
           mb_payload = item\<rparr>
     | _ \<Rightarrow> None)"

definition normalize_backup_file_record :: "veeam_texts \<Rightarrow> pdict \<Rightarrow> string \<Rightarrow> backup_file option" where
  "normalize_backup_file_record T item backup_id =
    (let resolved_backup_id = (case pick_text item [''backupId'', ''backup_id''] of Some s \<Rightarrow> s | None \<Rightarrow> strip backup_id)
     in if resolved_backup_id = [] then None else Some
       \<lparr>bf_backup = resolved_backup_id,
         bf_id = pick_text item [''backupFileId'', ''backup_file_id'', ''id''],
         bf_object = pick_text item [''objectId'', ''object_id''],
         bf_points = pick_text_list item [''restorePointIds'', ''restore_point_ids''],
         bf_data_size = pick_nested_int item [''dataSize'', ''data_size'', ''dataSizeBytes'', ''data_size_bytes''],
         bf_backup_size = pick_nested_int item [''backupSize'', ''backup_size'', ''backupSizeBytes'', ''backup_size_bytes''],
         bf_dedup = pick_nested_int item [''dedupRatio'', ''dedup_ratio''],
         bf_compress = pick_nested_int item [''compressRatio'', ''compress_ratio''],
         bf_at = (case pick_text item [''creationTime'', ''creation_time''] of None \<Rightarrow> None | Some t \<Rightarrow> vt_to_utc T t),
         bf_payload = item\<rparr>)"

section \<open>Metrics of files\<close>

definition opt_text :: "string option \<Rightarrow> string" where
  "opt_text v = (case v of None \<Rightarrow> [] | Some s \<Rightarrow> s)"

record coverage =
  co_expected :: nat
  co_enriched :: nat
  co_missing :: nat
  co_fully :: nat
  co_partially :: nat

text \<open>The restore points that are expected of a backup, and those that a file of it names.\<close>

definition expected_points :: "machine_backup list \<Rightarrow> string list dict" where
  "expected_points records = fold (\<lambda>r expected.
     let backup_id = strip (opt_text (mb_backup r)); point = strip (opt_text (mb_source_id r))
     in if backup_id = [] \<or> point = [] then expected
        else dput backup_id (List.insert point (case map_of expected backup_id of None \<Rightarrow> [] | Some ps \<Rightarrow> ps)) expected) records []"

definition covered_points :: "backup_file list \<Rightarrow> string \<Rightarrow> string list \<Rightarrow> string list" where
  "covered_points files backup_id points =
    filter (\<lambda>p. \<exists>f \<in> set files. strip (bf_backup f) = backup_id \<and> p \<in> strip ` set (bf_points f)) points"

definition summarize_coverage :: "machine_backup list \<Rightarrow> backup_file list \<Rightarrow> coverage" where
  "summarize_coverage records files =
    (let expected = expected_points records;
         matched = map (\<lambda>(backup_id, points). (length points, length (covered_points files backup_id points))) expected;
         expected_total = sum_list (map fst matched); enriched_total = sum_list (map snd matched)
     in \<lparr>co_expected = expected_total, co_enriched = enriched_total, co_missing = expected_total - enriched_total,
          co_fully = length (filter (\<lambda>(n, m). 0 < n \<and> 0 < m \<and> n \<le> m) matched),
          co_partially = length (filter (\<lambda>(n, m). 0 < n \<and> 0 < m \<and> m < n) matched)\<rparr>)"

definition same_file :: "machine_backup \<Rightarrow> backup_file \<Rightarrow> int" where
  "same_file r f = (if bf_id f = mb_file r then 0 else 1)"

definition select_best_backup_file_record :: "machine_backup \<Rightarrow> backup_file list \<Rightarrow> backup_file option" where
  "select_best_backup_file_record r candidates =
    (if candidates = [] then None
     else
       let exact_matches = (if mb_file r \<noteq> None \<and> mb_file r \<noteq> Some [] then filter (\<lambda>f. bf_id f = mb_file r) candidates else []);
           filtered_candidates = (if exact_matches = [] then candidates else exact_matches);
           candidates_with_time = filter (\<lambda>f. bf_at f \<noteq> None) filtered_candidates
       in if candidates_with_time \<noteq> []
          then Some (hd (sort_key (\<lambda>f. (\<bar>the (bf_at f) - mb_at r\<bar>, same_file r f, opt_text (bf_id f))) candidates_with_time))
          else Some (hd (sort_key (\<lambda>f. (same_file r f, opt_text (bf_id f))) filtered_candidates)))"

definition put_int :: "string \<Rightarrow> int option \<Rightarrow> pdict \<Rightarrow> pdict" where
  "put_int key value d = (case value of None \<Rightarrow> d | Some n \<Rightarrow> dput key (PInt n) d)"

definition put_missing_text :: "string \<Rightarrow> string option \<Rightarrow> pdict \<Rightarrow> pdict" where
  "put_missing_text key value d = (case value of None \<Rightarrow> d
     | Some s \<Rightarrow> if s \<noteq> [] \<and> \<not> truthy (dget d key) then dput key (PStr s) d else d)"

definition merge_backup_file_metrics :: "machine_backup \<Rightarrow> backup_file \<Rightarrow> machine_backup" where
  "merge_backup_file_metrics r f =
    (let p = put_missing_text ''objectId'' (bf_object f) (mb_payload r);
         p = (if bf_points f \<noteq> [] then dput ''restorePointIds'' (PList (map PStr (bf_points f))) p else p);
         p = put_int ''dataSize'' (bf_data_size f) p;
         p = put_int ''backupSize'' (bf_backup_size f) p;
         p = put_int ''dedupRatio'' (bf_dedup f) p;
         p = put_int ''compressRatio'' (bf_compress f) p;
         p = (case dget (bf_payload f) ''gfsPeriods'' of PList xs \<Rightarrow> dput ''gfsPeriods'' (PList xs) p | _ \<Rightarrow> p);
         p = put_missing_text ''backupFileId'' (bf_id f) p
     in r\<lparr>mb_payload := p, mb_point_size := or_int (bf_data_size f) (mb_point_size r)\<rparr>)"

definition files_of_point :: "backup_file list \<Rightarrow> string \<Rightarrow> backup_file list" where
  "files_of_point files point = concat (map (\<lambda>f. map (\<lambda>_. f) (filter (\<lambda>p. strip p \<noteq> [] \<and> strip p = point) (bf_points f))) files)"

definition merge_metrics_into_records :: "machine_backup list \<Rightarrow> backup_file list \<Rightarrow> machine_backup list" where
  "merge_metrics_into_records records files = map (\<lambda>r.
     case select_best_backup_file_record r (files_of_point files (strip (opt_text (mb_source_id r)))) of
       None \<Rightarrow> r | Some f \<Rightarrow> merge_backup_file_metrics r f) records"

section \<open>The latest record of a machine\<close>

fun collect_unique :: "string option list \<Rightarrow> string list \<Rightarrow> string list" where
  "collect_unique [] collected = collected"
| "collect_unique (v # vs) collected = (case v of
     None \<Rightarrow> collect_unique vs collected
   | Some s \<Rightarrow> if strip s = [] \<or> strip s \<in> set collected then collect_unique vs collected else collect_unique vs (collected @ [strip s]))"

definition collect_unique_strings :: "string option list \<Rightarrow> string list" where
  "collect_unique_strings values = collect_unique values []"

definition extract_backup_metric_int :: "pdict \<Rightarrow> string list \<Rightarrow> int option" where
  "extract_backup_metric_int payload keys = first_some (\<lambda>key. port_value (dget payload key)) keys"

definition serialize_restore_point_payload :: "veeam_texts \<Rightarrow> machine_backup \<Rightarrow> pdict" where
  "serialize_restore_point_payload T r =
    (let p = put_missing_text ''id'' (mb_source_id r) (mb_payload r);
         p = put_missing_text ''name'' (mb_point_name r) p;
         p = put_missing_text ''backupId'' (mb_backup r) p;
         p = put_missing_text ''backupFileId'' (mb_file r) p
     in if truthy (dget p ''creationTime'') then p else dput ''creationTime'' (PStr (vt_iso T (mb_at r))) p)"

text \<open>\<^verbatim>\<open>sorted(..., reverse=True)\<close> keeps the order of equal elements.\<close>

definition sort_desc :: "('a \<Rightarrow> 'k::linorder) \<Rightarrow> 'a list \<Rightarrow> 'a list" where
  "sort_desc key xs = rev (sort_key key (rev xs))"

definition newest_first :: "machine_backup list \<Rightarrow> machine_backup list" where
  "newest_first = sort_desc (\<lambda>r. (mb_at r, opt_text (mb_source_id r)))"

definition attach_restore_point_snapshot :: "veeam_texts \<Rightarrow> machine_backup \<Rightarrow> machine_backup list \<Rightarrow> machine_backup" where
  "attach_restore_point_snapshot T latest related =
    (let ordered = newest_first related;
         ids = collect_unique_strings (map mb_source_id ordered);
         times = map (\<lambda>r. vt_iso T (mb_at r)) ordered;
         p = mb_payload latest;
         p = (if ids \<noteq> [] then dput ''restore_point_ids'' (PList (map PStr ids)) p else p);
         p = (if times \<noteq> [] then dput ''restore_point_times'' (PList (map PStr times)) p else p);
         p = dput ''restore_points'' (PList (map (\<lambda>r. PDict (serialize_restore_point_payload T r)) ordered)) p;
         sizes = List.map_filter (\<lambda>r. extract_backup_metric_int (mb_payload r) [''backupSize'', ''backup_size'', ''backupSizeBytes'', ''backup_size_bytes'']) ordered
     in latest\<lparr>
          mb_point_size := or_int (mb_point_size latest)
            (extract_backup_metric_int (mb_payload latest) [''dataSize'', ''data_size'', ''dataSizeBytes'', ''data_size_bytes'']),
          mb_chain_size := (if sizes \<noteq> [] then Some (sum_list sizes) else mb_chain_size latest),
          mb_point_count := (if ids \<noteq> [] then Some (int (length ids)) else if times \<noteq> [] then Some (int (length times)) else mb_point_count latest),
          mb_payload := p\<rparr>)"

definition latest_by_machine :: "machine_backup list \<Rightarrow> machine_backup dict" where
  "latest_by_machine records = fold (\<lambda>r latest.
     let name = normalize_machine_name (Some (mb_machine r))
     in if name = [] then latest
        else (case map_of latest name of
          None \<Rightarrow> dput name r latest
        | Some current \<Rightarrow> if mb_at current < mb_at r then dput name r latest else latest)) records []"

definition select_latest_records :: "veeam_texts \<Rightarrow> machine_backup list \<Rightarrow> machine_backup list" where
  "select_latest_records T records = map (\<lambda>(name, r).
     attach_restore_point_snapshot T r (filter (\<lambda>x. normalize_machine_name (Some (mb_machine x)) = name) records)) (latest_by_machine records)"

text \<open>\<^verbatim>\<open>_validate_records_to_write\<close>.\<close>

definition has_point_times :: "machine_backup \<Rightarrow> bool" where
  "has_point_times r = (case dget (mb_payload r) ''restore_point_times'' of PList xs \<Rightarrow> list_ex (\<lambda>s. strip s \<noteq> []) (str_items xs) | _ \<Rightarrow> False)"

definition records_to_write_valid :: "machine_backup list \<Rightarrow> bool" where
  "records_to_write_valid records = list_all (\<lambda>r. (case mb_point_count r of None \<Rightarrow> True | Some n \<Rightarrow> n \<le> 0) \<or> has_point_times r) records"

end
