(* ===== verification/Veeam_Provider.thy ===== *)
theory Veeam_Provider
  imports Veeam_Records
begin

text \<open>
  The client of Veeam: \<^verbatim>\<open>HttpVeeamProvider\<close> of \<^verbatim>\<open>app/services/veeam/provider.py\<close>. The answer
  to the request number \<^verbatim>\<open>n\<close> for a URL is \<^verbatim>\<open>ve_get n url\<close>: a document, a timeout with its reason
  and milliseconds, or the text of another exception. \<^verbatim>\<open>ve_requery url items\<close> is \<^verbatim>\<open>url\<close> with the
  fields of its query that turn pages replaced by \<^verbatim>\<open>items\<close>. The pauses between requests are left
  out.
\<close>

datatype veeam_answer = Answer pv | No_answer "string option" int | Broken string

datatype veeam_error = Request_timeout string "string option" int | Fetch_failed string

record veeam_env =
  ve_texts :: veeam_texts
  ve_get :: "nat \<Rightarrow> string \<Rightarrow> veeam_answer"
  ve_token :: "nat \<Rightarrow> string \<Rightarrow> veeam_answer"
  ve_requery :: "string \<Rightarrow> (string \<times> string) list \<Rightarrow> string"
  ve_timeout :: int
  ve_token_timeout :: int
  ve_token_attempts :: int
  ve_limit :: int

definition timeout_text :: "int \<Rightarrow> string \<Rightarrow> string" where
  "timeout_text seconds url = ''Veeam API '' @ utf8 [0xE8, 0xAF, 0xB7, 0xE6, 0xB1, 0x82, 0xE8, 0xB6, 0x85, 0xE6, 0x97, 0xB6] @ '': timeout='' @ show_int seconds @ ''s url='' @ url"

section \<open>The session\<close>

definition VEEAM_TOKEN_PATH :: string where
  "VEEAM_TOKEN_PATH = ''/api/oauth2/token''"
definition VEEAM_BACKUP_OBJECTS_PATH :: string where
  "VEEAM_BACKUP_OBJECTS_PATH = ''/api/v1/backupObjects''"
definition VEEAM_BACKUPS_PATH :: string where
  "VEEAM_BACKUPS_PATH = ''/api/v1/backups''"

definition build_base_url :: "string \<Rightarrow> int \<Rightarrow> string" where
  "build_base_url server_host server_port =
    (let host = strip server_host
     in if prefix ''http://'' host \<or> prefix ''https://'' host then
          (case urlsplit host of (scheme, netloc, path) \<Rightarrow>
             rstrip_slash ((if scheme = [] then ''https'' else scheme) @ ''://'' @ (if netloc = [] then path else netloc)))
        else ''https://'' @ host @ '':'' @ show_int server_port)"

text \<open>\<^verbatim>\<open>_request_access_token\<close>: only a timeout is tried again. The request names the attempt.\<close>

function token_attempts :: "veeam_env \<Rightarrow> string \<Rightarrow> nat \<Rightarrow> nat \<Rightarrow> string + pv" where
  "token_attempts env base_url attempt attempts =
    (case ve_token env attempt base_url of
       Answer payload \<Rightarrow> Inr payload
     | Broken text \<Rightarrow> Inl text
     | No_answer reason elapsed \<Rightarrow> if attempts \<le> attempt then Inl (timeout_text (ve_token_timeout env) (base_url @ VEEAM_TOKEN_PATH))
         else token_attempts env base_url (attempt + 1) attempts)"
  by auto
termination by (relation "measure (\<lambda>(env, base_url, attempt, attempts). attempts - attempt)") auto

declare token_attempts.simps [simp del]

definition request_access_token :: "veeam_env \<Rightarrow> string \<Rightarrow> string + string" where
  "request_access_token env base_url =
    (case token_attempts env base_url 1 (nat (max (ve_token_attempts env) 1)) of
       Inl text \<Rightarrow> Inl text
     | Inr (PDict d) \<Rightarrow>
         (let value = dget d ''access_token''; token = (if truthy value then strip (py_str (vt_container (ve_texts env)) value) else [])
          in if token = [] then Inl (''Veeam token '' @ utf8 [0xE5, 0x93, 0x8D, 0xE5, 0xBA, 0x94, 0xE7, 0xBC, 0xBA, 0xE5, 0xB0, 0x91] @ '' access_token'') else Inr token)
     | Inr _ \<Rightarrow> Inl (''Veeam token '' @ utf8 [0xE5, 0x93, 0x8D, 0xE5, 0xBA, 0x94, 0xE6, 0xA0, 0xBC, 0xE5, 0xBC, 0x8F, 0xE4, 0xB8, 0x8D, 0xE5, 0x8F, 0x97, 0xE6, 0x94, 0xAF, 0xE6, 0x8C, 0x81]))"

section \<open>Pages\<close>

definition text_value :: "pv \<Rightarrow> string option" where
  "text_value v = (case v of PStr s \<Rightarrow> if strip s = [] then None else Some (strip s) | _ \<Rightarrow> None)"

definition parse_veeam_page :: "pv \<Rightarrow> string + pdict list" where
  "parse_veeam_page payload = (case payload of
     PList xs \<Rightarrow> Inr (dict_items xs)
   | PDict d \<Rightarrow>
       (let lists = (\<lambda>v. case v of PList xs \<Rightarrow> Some (dict_items xs) | _ \<Rightarrow> None);
            nested = (case dget d ''data'' of PDict data \<Rightarrow> first_some (\<lambda>key. lists (dget data key)) [''items'', ''results''] | _ \<Rightarrow> None)
        in case lists (dget d ''data'') of
             Some items \<Rightarrow> Inr items
           | None \<Rightarrow> (case nested of
               Some items \<Rightarrow> Inr items
             | None \<Rightarrow> (case first_some (\<lambda>key. lists (dget d key)) [''data'', ''results'', ''items''] of
                 Some items \<Rightarrow> Inr items
               | None \<Rightarrow> Inl (''Veeam '' @ utf8 [0xE5, 0xA4, 0x87, 0xE4, 0xBB, 0xBD, 0xE5, 0x88, 0x97, 0xE8, 0xA1, 0xA8, 0xE5, 0x93, 0x8D, 0xE5, 0xBA, 0x94, 0xE6, 0xA0, 0xBC, 0xE5, 0xBC, 0x8F, 0xE4, 0xB8, 0x8D, 0xE5, 0x8F, 0x97, 0xE6, 0x94, 0xAF, 0xE6, 0x8C, 0x81]))))
   | _ \<Rightarrow> Inl (''Veeam '' @ utf8 [0xE5, 0xA4, 0x87, 0xE4, 0xBB, 0xBD, 0xE5, 0x88, 0x97, 0xE8, 0xA1, 0xA8, 0xE5, 0x93, 0x8D, 0xE5, 0xBA, 0x94, 0xE6, 0xA0, 0xBC, 0xE5, 0xBC, 0x8F, 0xE4, 0xB8, 0x8D, 0xE5, 0x8F, 0x97, 0xE6, 0x94, 0xAF, 0xE6, 0x8C, 0x81]))"

definition NEXT_KEYS :: "string list" where
  "NEXT_KEYS = [''next'', ''nextLink'', ''next_link'']"

definition href_of :: "pv \<Rightarrow> string option" where
  "href_of v = (case v of PDict d \<Rightarrow> first_some (\<lambda>key. text_value (dget d key)) [''href'', ''url''] | _ \<Rightarrow> None)"

text \<open>In a list of links the first of \<^verbatim>\<open>href\<close> and \<^verbatim>\<open>url\<close> that is truthy counts.\<close>

definition link_item :: "pv \<Rightarrow> string option" where
  "link_item v = (case v of
     PDict d \<Rightarrow> text_value (if truthy (dget d ''href'') then dget d ''href'' else dget d ''url'')
   | _ \<Rightarrow> None)"

definition next_in_container :: "pdict \<Rightarrow> string \<Rightarrow> string option" where
  "next_in_container payload container_key = (case dget payload container_key of
     PDict container \<Rightarrow>
       (case first_some (\<lambda>key. case text_value (dget container key) of Some s \<Rightarrow> Some s | None \<Rightarrow> href_of (dget container key)) NEXT_KEYS of
          Some s \<Rightarrow> Some s
        | None \<Rightarrow> if container_key = ''links''
            then (case dget container ''next'' of PList xs \<Rightarrow> first_some link_item xs | _ \<Rightarrow> None) else None)
   | _ \<Rightarrow> None)"

definition extract_next_link :: "pdict \<Rightarrow> string option" where
  "extract_next_link payload = (case first_some (\<lambda>key. text_value (dget payload key)) NEXT_KEYS of
     Some s \<Rightarrow> Some s
   | None \<Rightarrow> first_some (next_in_container payload) [''data'', ''paging'', ''pagination'', ''links'', ''meta''])"

definition normalize_next_url :: "string \<Rightarrow> string \<Rightarrow> string" where
  "normalize_next_url base_url next_url =
    (let stripped = strip next_url
     in if prefix ''http://'' stripped \<or> prefix ''https://'' stripped then stripped
        else if prefix ''/'' stripped then (case urlsplit base_url of (scheme, netloc, path) \<Rightarrow> scheme @ ''://'' @ netloc @ stripped)
        else rstrip_slash base_url @ ''/'' @ dropWhile (\<lambda>c. c = CHR ''/'') stripped)"

definition pick_int :: "pdict \<Rightarrow> string list \<Rightarrow> int option" where
  "pick_int payload keys = first_some (\<lambda>key. port_value (dget payload key)) keys"

definition next_by_page :: "veeam_env \<Rightarrow> string \<Rightarrow> pdict \<Rightarrow> string option" where
  "next_by_page env current_url payload =
    (case (pick_int payload [''page'', ''pageNumber'', ''page_number'', ''currentPage'', ''current_page''],
           pick_int payload [''pageSize'', ''page_size'', ''limit'', ''perPage'', ''per_page''],
           pick_int payload [''total'', ''totalCount'', ''total_count'', ''count'']) of
       (Some page, Some page_size, Some total_count) \<Rightarrow>
         if page \<le> 0 \<or> page_size \<le> 0 \<or> total_count \<le> page * page_size then None
         else Some (ve_requery env current_url ((''page'', show_int (page + 1)) #
           (if dhas payload ''pageSize'' \<or> dhas payload ''page_size'' then [(''pageSize'', show_int page_size)]
            else if dhas payload ''limit'' then [(''limit'', show_int page_size)]
            else if dhas payload ''perPage'' \<or> dhas payload ''per_page'' then [(''perPage'', show_int page_size)] else [])))
     | _ \<Rightarrow> None)"

definition next_by_offset :: "veeam_env \<Rightarrow> string \<Rightarrow> pdict \<Rightarrow> string option" where
  "next_by_offset env current_url payload =
    (case (pick_int payload [''offset'', ''skip''], pick_int payload [''limit'', ''pageSize'', ''page_size''],
           pick_int payload [''total'', ''totalCount'', ''total_count'', ''count'']) of
       (Some offset, Some limit, Some total_count) \<Rightarrow>
         if offset < 0 \<or> limit \<le> 0 \<or> total_count \<le> offset + limit then None
         else Some (ve_requery env current_url
           [(if dhas payload ''skip'' \<and> \<not> dhas payload ''offset'' then ''skip'' else ''offset'', show_int (offset + limit)), (''limit'', show_int limit)])
     | _ \<Rightarrow> None)"

definition resolve_next_url_from_pagination :: "veeam_env \<Rightarrow> string \<Rightarrow> pdict \<Rightarrow> string option" where
  "resolve_next_url_from_pagination env current_url payload =
    (let nested = List.map_filter (\<lambda>key. case dget payload key of PDict d \<Rightarrow> Some d | _ \<Rightarrow> None) [''data'', ''paging'', ''pagination'', ''meta'']
     in first_some (\<lambda>d. case next_by_page env current_url d of Some u \<Rightarrow> if u = [] then next_by_offset env current_url d else Some u
          | None \<Rightarrow> next_by_offset env current_url d) (payload # nested))"

definition veeam_next_url :: "veeam_env \<Rightarrow> string \<Rightarrow> string \<Rightarrow> pv \<Rightarrow> string option" where
  "veeam_next_url env base_url current_url payload = (case payload of
     PDict d \<Rightarrow> (case extract_next_link d of
       Some direct_next \<Rightarrow> Some (normalize_next_url base_url direct_next)
     | None \<Rightarrow> resolve_next_url_from_pagination env current_url d)
   | _ \<Rightarrow> None)"

text \<open>\<^verbatim>\<open>_request_json\<close>: a timeout is tried once more. The number of requests is counted.\<close>

definition request_json :: "veeam_env \<Rightarrow> nat \<Rightarrow> string \<Rightarrow> nat \<times> (veeam_error + pv)" where
  "request_json env n url = (case ve_get env n url of
     Answer v \<Rightarrow> (n + 1, Inr v)
   | Broken text \<Rightarrow> (n + 1, Inl (Fetch_failed text))
   | No_answer _ _ \<Rightarrow> (case ve_get env (n + 1) url of
       Answer v \<Rightarrow> (n + 2, Inr v)
     | Broken text \<Rightarrow> (n + 2, Inl (Fetch_failed text))
     | No_answer reason elapsed \<Rightarrow> (n + 2, Inl (Request_timeout url reason elapsed))))"

record veeam_pages =
  vg_requests :: nat
  vg_next :: "string option"
  vg_items :: "pdict list"

definition page_turn :: "veeam_env \<Rightarrow> string \<Rightarrow> veeam_pages \<Rightarrow> veeam_pages + (nat \<times> (veeam_error + pdict list))" where
  "page_turn env url st = (case vg_next st of
     None \<Rightarrow> Inr (vg_requests st, Inr (vg_items st))
   | Some next_url \<Rightarrow>
       if next_url = [] then Inr (vg_requests st, Inr (vg_items st))
       else (case request_json env (vg_requests st) next_url of
           (n, Inl e) \<Rightarrow> Inr (n, Inl e)
         | (n, Inr payload) \<Rightarrow> (case parse_veeam_page payload of
             Inl text \<Rightarrow> Inr (n, Inl (Fetch_failed text))
           | Inr page_items \<Rightarrow> Inl \<lparr>vg_requests = n, vg_next = veeam_next_url env url next_url payload, vg_items = vg_items st @ page_items\<rparr>)))"

partial_function (option) page_loop :: "veeam_env \<Rightarrow> string \<Rightarrow> veeam_pages \<Rightarrow> (nat \<times> (veeam_error + pdict list)) option" where
  "page_loop env url st = (case page_turn env url st of
     Inl st' \<Rightarrow> page_loop env url st'
   | Inr r \<Rightarrow> Some r)"

declare page_loop.simps [code]

definition collect_paginated_items :: "veeam_env \<Rightarrow> nat \<Rightarrow> string \<Rightarrow> (nat \<times> (veeam_error + pdict list)) option" where
  "collect_paginated_items env n url = page_loop env url \<lparr>vg_requests = n, vg_next = Some url, vg_items = []\<rparr>"

interpretation pages: paged_loop "page_turn env url" "page_loop env url" for env url
proof
  show "page_loop env url s = (case page_turn env url s of Inl s' \<Rightarrow> page_loop env url s' | Inr r \<Rightarrow> Some r)" for s
    by (rule page_loop.simps)
  show "page_loop env url s = Some r \<Longrightarrow> \<exists>n. run_turns (page_turn env url) n s = Inr r" for s r
  proof (rule page_loop.raw_induct [where P = "\<lambda>env url s r. \<exists>n. run_turns (page_turn env url) n s = Inr r"])
    fix loop env url s r
    assume IH: "\<And>env url s r. loop env url s = Some r \<Longrightarrow> \<exists>n. run_turns (page_turn env url) n s = Inr r"
      and r: "(case page_turn env url s of Inl s' \<Rightarrow> loop env url s' | Inr r \<Rightarrow> Some r) = Some r"
    show "\<exists>n. run_turns (page_turn env url) n s = Inr r"
    proof (cases "page_turn env url s")
      case (Inl s')
      with r IH obtain n where "run_turns (page_turn env url) n s' = Inr r" by fastforce
      with Inl show ?thesis by (intro exI [of _ "Suc n"]) simp
    next
      case (Inr r')
      with r show ?thesis by (intro exI [of _ 1]) simp
    qed
  qed
qed

section \<open>Restore points\<close>

record diagnostics =
  dx_count :: nat
  dx_ids :: "string list"
  dx_machines :: "string list"
  dx_urls :: "string list"
  dx_reasons :: "string list"
  dx_elapsed :: "int list"

definition no_diagnostics :: diagnostics where
  "no_diagnostics = \<lparr>dx_count = 0, dx_ids = [], dx_machines = [], dx_urls = [], dx_reasons = [], dx_elapsed = []\<rparr>"

definition sample_text :: "string option \<Rightarrow> string list \<Rightarrow> string list" where
  "sample_text v sample = (case v of None \<Rightarrow> sample | Some s \<Rightarrow> if s = [] then sample else append_sample s sample)"

definition append_timeout_diagnostics :: "string \<Rightarrow> string option \<Rightarrow> int \<Rightarrow> diagnostics \<Rightarrow> diagnostics" where
  "append_timeout_diagnostics url reason elapsed d = d\<lparr>dx_urls := append_sample url (dx_urls d), dx_reasons := sample_text reason (dx_reasons d),
     dx_elapsed := append_sample elapsed (dx_elapsed d)\<rparr>"

record machine_collection =
  mc_records :: "machine_backup list"
  mc_received :: nat
  mc_skipped :: nat
  mc_objects :: nat
  mc_completed :: nat
  mc_timed_out :: diagnostics
  mc_failed :: diagnostics

definition restore_points_url :: "string \<Rightarrow> string \<Rightarrow> string" where
  "restore_points_url base_url backup_object_id = base_url @ VEEAM_BACKUP_OBJECTS_PATH @ ''/'' @ strip backup_object_id @ ''/restorePoints''"

definition take_points :: "veeam_texts \<Rightarrow> matched_object \<Rightarrow> pdict list \<Rightarrow> machine_collection \<Rightarrow> machine_collection" where
  "take_points T m items c =
    (let records = List.map_filter (\<lambda>item. normalize_backup_record T item (mo_item m) (mo_machine m)) items
     in c\<lparr>mc_received := mc_received c + length items, mc_completed := mc_completed c + 1, mc_records := mc_records c @ records,
          mc_skipped := mc_skipped c + (length items - length records)\<rparr>)"

definition skip_object :: "matched_object \<Rightarrow> diagnostics \<Rightarrow> diagnostics" where
  "skip_object m d = d\<lparr>dx_count := dx_count d + 1, dx_ids := append_sample (mo_id m) (dx_ids d), dx_machines := sample_text (mo_machine m) (dx_machines d)\<rparr>"

fun fetch_points :: "veeam_env \<Rightarrow> string \<Rightarrow> nat \<Rightarrow> matched_object list \<Rightarrow> machine_collection \<Rightarrow> (nat \<times> machine_collection) option" where
  "fetch_points env base_url n [] c = Some (n, c)"
| "fetch_points env base_url n (m # ms) c =
    (case collect_paginated_items env n (restore_points_url base_url (mo_id m)) of
       None \<Rightarrow> None
     | Some (n', Inl (Request_timeout url reason elapsed)) \<Rightarrow>
         fetch_points env base_url n' ms (c\<lparr>mc_timed_out := append_timeout_diagnostics url reason elapsed (skip_object m (mc_timed_out c))\<rparr>)
     | Some (n', Inl (Fetch_failed _)) \<Rightarrow> fetch_points env base_url n' ms (c\<lparr>mc_failed := skip_object m (mc_failed c)\<rparr>)
     | Some (n', Inr items) \<Rightarrow> fetch_points env base_url n' ms (take_points (ve_texts env) m items c))"

definition fetch_restore_point_records :: "veeam_env \<Rightarrow> string \<Rightarrow> nat \<Rightarrow> matched_object list \<Rightarrow> (nat \<times> machine_collection) option" where
  "fetch_restore_point_records env base_url n ms = fetch_points env base_url n ms
     \<lparr>mc_records = [], mc_received = 0, mc_skipped = 0, mc_objects = length ms, mc_completed = 0, mc_timed_out = no_diagnostics, mc_failed = no_diagnostics\<rparr>"

section \<open>Files\<close>

text \<open>Files are not counted one by one: the code reports as totals the lengths of the samples, which end at
  \<^verbatim>\<open>SAMPLE_LIMIT\<close>.\<close>

record file_collection =
  fc_records :: "backup_file list"
  fc_received :: nat
  fc_total :: nat
  fc_completed :: nat
  fc_timed_out :: diagnostics
  fc_failed :: diagnostics

definition backup_files_url :: "string \<Rightarrow> string \<Rightarrow> string" where
  "backup_files_url base_url backup_id = base_url @ VEEAM_BACKUPS_PATH @ ''/'' @ strip backup_id @ ''/backupFiles''"

definition timed_out_backup_ids_total :: "file_collection \<Rightarrow> nat" where
  "timed_out_backup_ids_total c = length (dx_ids (fc_timed_out c))"

definition failed_backup_ids_total :: "file_collection \<Rightarrow> nat" where
  "failed_backup_ids_total c = length (dx_ids (fc_failed c))"

fun fetch_files :: "veeam_env \<Rightarrow> string \<Rightarrow> nat \<Rightarrow> string list \<Rightarrow> file_collection \<Rightarrow> (nat \<times> file_collection) option" where
  "fetch_files env base_url n [] c = Some (n, c)"
| "fetch_files env base_url n (backup_id # ids) c =
    (let url = backup_files_url base_url backup_id
     in case collect_paginated_items env n url of
          None \<Rightarrow> None
        | Some (n', Inl (Request_timeout u reason elapsed)) \<Rightarrow>
            (let d = fc_timed_out c
             in fetch_files env base_url n' ids (c\<lparr>fc_timed_out := append_timeout_diagnostics u reason elapsed
                  (d\<lparr>dx_ids := append_sample backup_id (dx_ids d)\<rparr>)\<rparr>))
        | Some (n', Inl (Fetch_failed _)) \<Rightarrow>
            (let d = fc_failed c
             in fetch_files env base_url n' ids (c\<lparr>fc_failed := d\<lparr>dx_ids := append_sample backup_id (dx_ids d),
                  dx_urls := append_sample url (dx_urls d)\<rparr>\<rparr>))
        | Some (n', Inr items) \<Rightarrow> fetch_files env base_url n' ids
            (c\<lparr>fc_received := fc_received c + length items, fc_completed := fc_completed c + 1,
               fc_records := fc_records c @ List.map_filter (\<lambda>item. normalize_backup_file_record (ve_texts env) item backup_id) items\<rparr>))"

definition fetch_backup_file_records :: "veeam_env \<Rightarrow> string \<Rightarrow> nat \<Rightarrow> string list \<Rightarrow> (nat \<times> file_collection) option" where
  "fetch_backup_file_records env base_url n backup_ids =
    (let ids = collect_unique_strings (map Some backup_ids)
     in fetch_files env base_url n ids
       \<lparr>fc_records = [], fc_received = 0, fc_total = length ids, fc_completed = 0, fc_timed_out = no_diagnostics, fc_failed = no_diagnostics\<rparr>)"

definition fetch_backup_objects :: "veeam_env \<Rightarrow> string \<Rightarrow> nat \<Rightarrow> (nat \<times> (veeam_error + pdict list)) option" where
  "fetch_backup_objects env base_url n = collect_paginated_items env n (base_url @ VEEAM_BACKUP_OBJECTS_PATH @ ''?limit='' @ show_int (ve_limit env))"

definition veeam_error_text :: "veeam_env \<Rightarrow> veeam_error \<Rightarrow> string" where
  "veeam_error_text env e = (case e of Request_timeout url _ _ \<Rightarrow> timeout_text (ve_timeout env) url | Fetch_failed text \<Rightarrow> text)"

end
