(* ===== verification/Veeam_Snapshots.thy ===== *)
theory Veeam_Snapshots
  imports Veeam_Provider
begin

text \<open>
  The snapshots of the backups of machines: \<^verbatim>\<open>app/repositories/veeam_repository.py\<close> and the models of
  the snapshots and of the sources.
\<close>

section \<open>Tables\<close>

record veeam_binding =
  vb_id :: int
  vb_name :: string
  vb_credential :: "int option"
  vb_host :: string
  vb_port :: int
  vb_api :: string
  vb_verify :: "bool option"
  vb_domains :: "string list"
  vb_enabled :: bool
  vb_sync_at :: "int option"
  vb_status :: "string option"
  vb_run :: "string option"
  vb_error :: "string option"

record snapshot =
  vs_id :: int
  vs_source :: int
  vs_machine :: string
  vs_name :: string
  vs_machine_ip :: "string option"
  vs_ip :: "string option"
  vs_at :: int
  vs_backup :: "string option"
  vs_file :: "string option"
  vs_job :: "string option"
  vs_point_name :: "string option"
  vs_source_record :: "string option"
  vs_point_size :: "int option"
  vs_chain_size :: "int option"
  vs_count :: "int option"
  vs_payload :: pdict
  vs_run :: "string option"
  vs_synced :: int

text \<open>\<^verbatim>\<open>vs_name\<close> and \<^verbatim>\<open>vs_ip\<close> are the normalized columns. The sequence of the ids goes with the
  table.\<close>

record snapshot_table =
  vt_rows :: "snapshot list"
  vt_next :: int

definition list_enabled_bindings :: "veeam_binding list \<Rightarrow> veeam_binding list" where
  "list_enabled_bindings bindings = sort_key vb_id (filter vb_enabled bindings)"

section \<open>What is written\<close>

record write_record =
  wr_record :: machine_backup
  wr_name :: string
  wr_ip :: "string option"

definition resolve_snapshot_machine_ip :: "(string \<Rightarrow> string option) \<Rightarrow> machine_backup \<Rightarrow> string option" where
  "resolve_snapshot_machine_ip ip_text r =
    (case normalize_ip_address ip_text (mb_ip r) of
       Some ip \<Rightarrow> if ip \<noteq> [] then Some ip else (case normalize_ip_address ip_text (Some (mb_machine r)) of Some ip' \<Rightarrow> if ip' = [] then None else Some ip' | None \<Rightarrow> None)
     | None \<Rightarrow> (case normalize_ip_address ip_text (Some (mb_machine r)) of Some ip' \<Rightarrow> if ip' = [] then None else Some ip' | None \<Rightarrow> None))"

text \<open>The newest record of every name and of every address.\<close>

fun select_writes :: "(string \<Rightarrow> string option) \<Rightarrow> machine_backup list \<Rightarrow> string list \<Rightarrow> string list \<Rightarrow> write_record list" where
  "select_writes ip_text [] seen_names seen_ips = []"
| "select_writes ip_text (r # rs) seen_names seen_ips =
    (let name = normalize_machine_name (Some (mb_machine r)); ip = resolve_snapshot_machine_ip ip_text r
     in if name = [] \<and> ip = None \<or> name \<noteq> [] \<and> name \<in> set seen_names \<or> (\<exists>i \<in> set seen_ips. ip = Some i)
        then select_writes ip_text rs seen_names seen_ips
        else \<lparr>wr_record = r, wr_name = name, wr_ip = ip\<rparr>
          # select_writes ip_text rs (if name = [] then seen_names else name # seen_names) (case ip of None \<Rightarrow> seen_ips | Some i \<Rightarrow> i # seen_ips))"

definition build_snapshot_write_records :: "(string \<Rightarrow> string option) \<Rightarrow> machine_backup list \<Rightarrow> write_record list" where
  "build_snapshot_write_records ip_text records = select_writes ip_text (newest_first records) [] []"

definition apply_snapshot_write_record :: "int \<Rightarrow> string \<Rightarrow> int \<Rightarrow> write_record \<Rightarrow> snapshot \<Rightarrow> snapshot" where
  "apply_snapshot_write_record source run_id synced_at w row =
    (let r = wr_record w
     in row\<lparr>vs_source := source, vs_machine := mb_machine r, vs_name := wr_name w, vs_machine_ip := wr_ip w, vs_ip := wr_ip w, vs_at := mb_at r,
          vs_backup := mb_backup r, vs_file := mb_file r, vs_job := mb_job r, vs_point_name := mb_point_name r, vs_source_record := mb_source_id r,
          vs_point_size := mb_point_size r, vs_chain_size := mb_chain_size r, vs_count := mb_point_count r, vs_payload := mb_payload r,
          vs_run := Some run_id, vs_synced := synced_at\<rparr>)"

section \<open>The session\<close>

text \<open>The rows of the source as they are changed in memory, the new rows, and the ids of those that are
  marked as deleted and of those that were written. Adding a row that is marked takes the mark back.\<close>

record snapshot_session =
  ss_rows :: "snapshot list"
  ss_new :: "snapshot list"
  ss_deleted :: "int list"
  ss_kept :: "int list"

definition rows_of_source :: "int \<Rightarrow> snapshot_table \<Rightarrow> snapshot list" where
  "rows_of_source source t = filter (\<lambda>r. vs_source r = source) (vt_rows t)"

definition existing_name :: "snapshot list \<Rightarrow> string \<Rightarrow> int option" where
  "existing_name rows name = map_option vs_id (find (\<lambda>r. vs_name r \<noteq> [] \<and> vs_name r = name) (rev rows))"

definition existing_ip :: "snapshot list \<Rightarrow> string option \<Rightarrow> int option" where
  "existing_ip rows ip = (case ip of None \<Rightarrow> None | Some i \<Rightarrow> map_option vs_id (find (\<lambda>r. vs_ip r \<noteq> Some [] \<and> vs_ip r = Some i) (rev rows)))"

text \<open>The row to write to, and the row whose address the machine has taken over.\<close>

definition find_snapshot_row :: "snapshot list \<Rightarrow> write_record \<Rightarrow> int option \<times> int option" where
  "find_snapshot_row rows w = (case (existing_name rows (wr_name w), existing_ip rows (wr_ip w)) of
     (Some n, Some i) \<Rightarrow> (Some n, if n = i then None else Some i)
   | (Some n, None) \<Rightarrow> (Some n, None)
   | (None, ip_row) \<Rightarrow> (ip_row, None))"

definition new_snapshot :: "int \<Rightarrow> snapshot" where
  "new_snapshot source = \<lparr>vs_id = 0, vs_source = source, vs_machine = [], vs_name = [], vs_machine_ip = None, vs_ip = None, vs_at = 0, vs_backup = None,
     vs_file = None, vs_job = None, vs_point_name = None, vs_source_record = None, vs_point_size = None, vs_chain_size = None, vs_count = None,
     vs_payload = [], vs_run = None, vs_synced = 0\<rparr>"

definition write_one :: "int \<Rightarrow> string \<Rightarrow> int \<Rightarrow> snapshot list \<Rightarrow> write_record \<Rightarrow> snapshot_session \<Rightarrow> snapshot_session" where
  "write_one source run_id synced_at existing w s = (case find_snapshot_row existing w of
     (None, _) \<Rightarrow> s\<lparr>ss_new := ss_new s @ [apply_snapshot_write_record source run_id synced_at w (new_snapshot source)]\<rparr>
   | (Some i, taken) \<Rightarrow>
       let s1 = (case taken of None \<Rightarrow> s
           | Some j \<Rightarrow> s\<lparr>ss_rows := map (\<lambda>r. if vs_id r = j then r\<lparr>vs_machine_ip := None, vs_ip := None\<rparr> else r) (ss_rows s),
               ss_deleted := j # ss_deleted s\<rparr>)
       in s1\<lparr>ss_rows := map (\<lambda>r. if vs_id r = i then apply_snapshot_write_record source run_id synced_at w r else r) (ss_rows s1),
            ss_deleted := removeAll i (ss_deleted s1), ss_kept := i # ss_kept s1\<rparr>)"

text \<open>The unique constraints of the table.\<close>

definition snapshots_unique :: "snapshot list \<Rightarrow> bool" where
  "snapshots_unique rows = (distinct (map (\<lambda>r. (vs_source r, vs_name r)) rows)
     \<and> distinct (map (\<lambda>r. (vs_source r, vs_ip r)) (filter (\<lambda>r. vs_ip r \<noteq> None) rows)))"

text \<open>The flush writes the changed rows in the order of their ids, then inserts, then deletes; the
  constraints hold after each statement, or the flush fails.\<close>

fun flush_updates :: "snapshot list \<Rightarrow> snapshot list \<Rightarrow> snapshot list option" where
  "flush_updates [] rows = Some rows"
| "flush_updates (u # us) rows =
    (let rows' = map (\<lambda>r. if vs_id r = vs_id u then u else r) rows
     in if snapshots_unique rows' then flush_updates us rows' else None)"

fun flush_inserts :: "snapshot list \<Rightarrow> snapshot_table \<Rightarrow> snapshot_table option" where
  "flush_inserts [] t = Some t"
| "flush_inserts (n # ns) t =
    (let rows' = vt_rows t @ [n\<lparr>vs_id := vt_next t\<rparr>]
     in if snapshots_unique rows' then flush_inserts ns \<lparr>vt_rows = rows', vt_next = vt_next t + 1\<rparr> else None)"

definition flush_session :: "snapshot_session \<Rightarrow> snapshot_table \<Rightarrow> snapshot_table option" where
  "flush_session s t =
    (case flush_updates (sort_key vs_id (filter (\<lambda>r. vs_id r \<in> set (ss_kept s) \<and> vs_id r \<notin> set (ss_deleted s)) (ss_rows s))) (vt_rows t) of
       None \<Rightarrow> None
     | Some rows \<Rightarrow> (case flush_inserts (ss_new s) (t\<lparr>vt_rows := rows\<rparr>) of
         None \<Rightarrow> None
       | Some t' \<Rightarrow> Some (t'\<lparr>vt_rows := filter (\<lambda>r. vs_id r \<notin> set (ss_deleted s)) (vt_rows t')\<rparr>)))"

definition write_machine_backup_snapshots ::
  "(string \<Rightarrow> string option) \<Rightarrow> machine_backup list \<Rightarrow> int \<Rightarrow> string \<Rightarrow> int \<Rightarrow> bool \<Rightarrow> snapshot_table \<Rightarrow> (nat \<times> snapshot_table) option" where
  "write_machine_backup_snapshots ip_text records source run_id synced_at delete_missing t =
    (let selected_records = build_snapshot_write_records ip_text records;
         existing_rows = rows_of_source source t;
         s = fold (write_one source run_id synced_at existing_rows) selected_records \<lparr>ss_rows = existing_rows, ss_new = [], ss_deleted = [], ss_kept = []\<rparr>;
         s = (if delete_missing then s\<lparr>ss_deleted := map vs_id (filter (\<lambda>r. vs_id r \<notin> set (ss_kept s)) existing_rows) @ ss_deleted s\<rparr> else s)
     in map_option (Pair (length selected_records)) (flush_session s t))"

definition replace_machine_backup_snapshots where
  "replace_machine_backup_snapshots ip_text records source run_id synced_at = write_machine_backup_snapshots ip_text records source run_id synced_at True"

definition upsert_machine_backup_snapshots where
  "upsert_machine_backup_snapshots ip_text records source run_id synced_at = write_machine_backup_snapshots ip_text records source run_id synced_at False"

section \<open>Lookup\<close>

record snapshot_match =
  sm_row :: snapshot
  sm_binding :: veeam_binding
  sm_names :: "string list"
  sm_ips :: "string list"

record lookup_candidate =
  lc_binding :: veeam_binding
  lc_names :: "string list"
  lc_ips :: "string list"

definition build_snapshot_lookup_candidates ::
  "(string \<Rightarrow> string option) \<Rightarrow> string \<Rightarrow> string option \<Rightarrow> veeam_binding list \<Rightarrow> lookup_candidate list" where
  "build_snapshot_lookup_candidates ip_text instance_name instance_host bindings = concat (map (\<lambda>b.
     let names = build_instance_match_candidates (Some instance_name) (map Some (vb_domains b)); ips = build_instance_ip_candidates ip_text instance_host
     in if names \<noteq> [] \<or> ips \<noteq> [] then [\<lparr>lc_binding = b, lc_names = names, lc_ips = ips\<rparr>] else []) bindings)"

definition fetch_rows_by_names :: "int \<Rightarrow> string list \<Rightarrow> snapshot list \<Rightarrow> snapshot list" where
  "fetch_rows_by_names source candidates rows = filter (\<lambda>r. vs_source r = source \<and> vs_name r \<in> set candidates) rows"

definition fetch_rows_by_ips :: "int \<Rightarrow> string list \<Rightarrow> snapshot list \<Rightarrow> snapshot list" where
  "fetch_rows_by_ips source candidates rows = filter (\<lambda>r. vs_source r = source \<and> (\<exists>i \<in> set candidates. vs_ip r = Some i)) rows"

text \<open>\<^verbatim>\<open>max\<close> by time and id.\<close>

definition newest_row :: "snapshot list \<Rightarrow> snapshot option" where
  "newest_row rows = (if rows = [] then None else Some (last (sort_key (\<lambda>r. (vs_at r, vs_id r)) rows)))"

definition fetch_best_snapshot_for_candidate :: "lookup_candidate \<Rightarrow> snapshot list \<Rightarrow> snapshot option" where
  "fetch_best_snapshot_for_candidate c rows =
    newest_row (fetch_rows_by_names (vb_id (lc_binding c)) (lc_names c) rows @ fetch_rows_by_ips (vb_id (lc_binding c)) (lc_ips c) rows)"

definition is_newer_snapshot :: "snapshot \<Rightarrow> snapshot_match option \<Rightarrow> bool" where
  "is_newer_snapshot row current = (case current of None \<Rightarrow> True | Some m \<Rightarrow> (vs_at (sm_row m), vs_id (sm_row m)) < (vs_at row, vs_id row))"

definition better_match :: "snapshot option \<Rightarrow> veeam_binding \<Rightarrow> string list \<Rightarrow> string list \<Rightarrow> snapshot_match option \<Rightarrow> snapshot_match option" where
  "better_match row binding names ips best = (case row of
     None \<Rightarrow> best
   | Some r \<Rightarrow> if is_newer_snapshot r best then Some \<lparr>sm_row = r, sm_binding = binding, sm_names = names, sm_ips = ips\<rparr> else best)"

definition find_best_snapshot_match :: "lookup_candidate list \<Rightarrow> snapshot list \<Rightarrow> snapshot_match option" where
  "find_best_snapshot_match candidates rows =
    fold (\<lambda>c. better_match (fetch_best_snapshot_for_candidate c rows) (lc_binding c) (lc_names c) (lc_ips c)) candidates None"

section \<open>The documents of a snapshot\<close>

definition opt_pv :: "string option \<Rightarrow> pv" where
  "opt_pv v = (case v of None \<Rightarrow> PNone | Some s \<Rightarrow> PStr s)"

definition opt_int_pv :: "int option \<Rightarrow> pv" where
  "opt_int_pv v = (case v of None \<Rightarrow> PNone | Some n \<Rightarrow> PInt n)"

definition normalize_restore_point :: "pdict \<Rightarrow> pdict option" where
  "normalize_restore_point item =
    (let point_ids = pick_text_list item [''restorePointIds'', ''restore_point_ids''];
         normalized =
          [(''id'', opt_pv (pick_text item [''id'', ''restorePointId'', ''restore_point_id''])),
           (''name'', opt_pv (pick_text item [''name'', ''restorePointName'', ''restore_point_name''])),
           (''type'', opt_pv (pick_text item [''type''])),
           (''backup_id'', opt_pv (pick_text item [''backupId'', ''backup_id''])),
           (''object_id'', opt_pv (pick_text item [''objectId'', ''object_id''])),
           (''restore_point_ids'', PList (map PStr point_ids)),
           (''data_size_bytes'', opt_int_pv (pick_nested_int item [''dataSize'', ''data_size'', ''dataSizeBytes'', ''data_size_bytes''])),
           (''backup_size_bytes'', opt_int_pv (pick_nested_int item [''backupSize'', ''backup_size'', ''backupSizeBytes'', ''backup_size_bytes''])),
           (''compress_ratio'', opt_int_pv (pick_nested_int item [''compressRatio'', ''compress_ratio''])),
           (''creation_time'', opt_pv (pick_text item [''creationTime'', ''creation_time'', ''backupTime'', ''backup_time'']))]
          @ (case pick_text item [''platformName'', ''platform_name''] of None \<Rightarrow> [] | Some n \<Rightarrow> [(''platform_name'', PStr n)])
     in if list_ex (\<lambda>(k, v). v \<noteq> PNone \<and> v \<noteq> PList [] \<and> v \<noteq> PStr []) normalized then Some normalized else None)"

definition normalize_restore_points :: "pdict \<Rightarrow> pdict list" where
  "normalize_restore_points raw_payload = (case dget raw_payload ''restore_points'' of
     PList items \<Rightarrow> List.map_filter normalize_restore_point (dict_items items) | _ \<Rightarrow> [])"

definition point_sizes :: "pdict list \<Rightarrow> int list" where
  "point_sizes points = List.map_filter (\<lambda>p. case dget p ''backup_size_bytes'' of PInt n \<Rightarrow> Some n | _ \<Rightarrow> None) points"

definition build_backup_metrics_coverage :: "pdict list \<Rightarrow> int \<Rightarrow> nat \<Rightarrow> pv" where
  "build_backup_metrics_coverage points count times_count =
    (let expected = (if points \<noteq> [] then int (length points) else if count \<noteq> 0 then count else int times_count);
         enriched = int (length (point_sizes points)); missing = max (expected - enriched) 0
     in PDict [(''expected_restore_point_count'', PInt expected), (''enriched_restore_point_count'', PInt enriched),
          (''missing_restore_point_count'', PInt missing), (''partial'', PBool (0 < expected \<and> 0 < missing))])"

definition restore_point_times_of :: "pdict \<Rightarrow> pdict list \<Rightarrow> string list" where
  "restore_point_times_of raw_payload points =
    (let times = (case dget raw_payload ''restore_point_times'' of PList xs \<Rightarrow> filter (\<lambda>s. s \<noteq> []) (map strip (str_items xs)) | _ \<Rightarrow> [])
     in if times = [] \<and> points \<noteq> [] then List.map_filter (\<lambda>p. text_value (dget p ''creation_time'')) points else times)"

definition serialize_snapshot_row :: "(int \<Rightarrow> string) \<Rightarrow> snapshot \<Rightarrow> pdict" where
  "serialize_snapshot_row show_time row =
    (let points = normalize_restore_points (vs_payload row);
         times = restore_point_times_of (vs_payload row) points;
         sizes = point_sizes points;
         count = (if points \<noteq> [] then Some (int (length points)) else or_int (vs_count row) (Some (int (length times))))
     in [(''machine_name'', PStr (vs_machine row)), (''normalized_machine_name'', PStr (vs_name row)), (''machine_ip'', opt_pv (vs_machine_ip row)),
         (''normalized_machine_ip'', opt_pv (vs_ip row)), (''latest_backup_at'', PStr (show_time (vs_at row))), (''backup_id'', opt_pv (vs_backup row)),
         (''backup_file_id'', opt_pv (vs_file row)), (''job_name'', opt_pv (vs_job row)), (''restore_point_name'', opt_pv (vs_point_name row)),
         (''source_record_id'', opt_pv (vs_source_record row)), (''restore_point_size_bytes'', opt_int_pv (vs_point_size row)),
         (''backup_chain_size_bytes'', if sizes \<noteq> [] then PInt (sum_list sizes) else opt_int_pv (vs_chain_size row)),
         (''restore_point_count'', opt_int_pv count),
         (''backup_metrics_coverage'', build_backup_metrics_coverage points (case count of None \<Rightarrow> 0 | Some n \<Rightarrow> n) (length times)),
         (''restore_point_times'', PList (map PStr times)), (''restore_points'', PList (map PDict points)), (''sync_run_id'', opt_pv (vs_run row)),
         (''synced_at'', PStr (show_time (vs_synced row)))])"

definition serialize_snapshot_match :: "(int \<Rightarrow> string) \<Rightarrow> bool \<Rightarrow> snapshot_match \<Rightarrow> pdict" where
  "serialize_snapshot_match show_time prefer_name_candidates_only m =
    (let best = sm_row m; b = sm_binding m;
         candidates = (if prefer_name_candidates_only \<and> vs_name best \<in> set (sm_names m) then sm_names m else sm_names m @ sm_ips m)
     in serialize_snapshot_row show_time best @
        [(''matched_machine_name'', PStr (vs_machine best)), (''matched_machine_ip'', opt_pv (vs_machine_ip best)),
         (''match_candidates'', PList (map PStr candidates)), (''source_binding_id'', PInt (vb_id b)), (''source_name'', PStr (vb_name b)),
         (''source_server_host'', PStr (vb_host b)), (''last_sync_time'', opt_pv (map_option show_time (vb_sync_at b)))])"

text \<open>One instance, and all instances at once. An instance is its id, name and host.\<close>

definition find_best_backup_for_instance_name ::
  "(string \<Rightarrow> string option) \<Rightarrow> (int \<Rightarrow> string) \<Rightarrow> veeam_binding list \<Rightarrow> snapshot list \<Rightarrow> string \<Rightarrow> string option \<Rightarrow> pdict option" where
  "find_best_backup_for_instance_name ip_text show_time bindings rows instance_name instance_host =
    map_option (serialize_snapshot_match show_time True)
      (find_best_snapshot_match (build_snapshot_lookup_candidates ip_text instance_name instance_host (list_enabled_bindings bindings)) rows)"

type_synonym veeam_instance = "int \<times> string \<times> string option"

definition build_snapshot_candidate_batch ::
  "(string \<Rightarrow> string option) \<Rightarrow> string list \<Rightarrow> veeam_instance list \<Rightarrow> (int \<times> string list \<times> string list) list" where
  "build_snapshot_candidate_batch ip_text domains instances = map (\<lambda>(i, name, host).
     (i, build_instance_match_candidates (Some name) (map Some domains), build_instance_ip_candidates ip_text host)) instances"

definition collect_matched_snapshot_rows ::
  "string list \<Rightarrow> string list \<Rightarrow> (string \<Rightarrow> snapshot option) \<Rightarrow> (string \<Rightarrow> snapshot option) \<Rightarrow> snapshot list" where
  "collect_matched_snapshot_rows names ips name_row_map ip_row_map = List.map_filter name_row_map names @ List.map_filter ip_row_map ips"

definition summarize_binding ::
  "(string \<Rightarrow> string option) \<Rightarrow> snapshot list \<Rightarrow> veeam_instance list \<Rightarrow> veeam_binding \<Rightarrow> (int \<times> snapshot_match) list \<Rightarrow> (int \<times> snapshot_match) list" where
  "summarize_binding ip_text rows instances b best =
    (let batch = build_snapshot_candidate_batch ip_text (vb_domains b) instances;
         name_rows = fetch_rows_by_names (vb_id b) (concat (map (fst \<circ> snd) batch)) rows;
         ip_rows = fetch_rows_by_ips (vb_id b) (concat (map (snd \<circ> snd) batch)) rows;
         name_row_map = (\<lambda>n. find (\<lambda>r. vs_name r = n) (rev name_rows));
         ip_row_map = (\<lambda>i. find (\<lambda>r. vs_ip r = Some i) (rev ip_rows))
     in fold (\<lambda>(i, names, ips) best.
          case better_match (newest_row (collect_matched_snapshot_rows names ips name_row_map ip_row_map)) b names ips (map_of best i) of
            None \<Rightarrow> best | Some m \<Rightarrow> AList.update i m best) batch best)"

definition fetch_backup_summary_map ::
  "(string \<Rightarrow> string option) \<Rightarrow> (int \<Rightarrow> string) \<Rightarrow> veeam_binding list \<Rightarrow> snapshot list \<Rightarrow> veeam_instance list \<Rightarrow> (int \<times> pdict) list" where
  "fetch_backup_summary_map ip_text show_time bindings rows instances =
    map (\<lambda>(i, m). (i, serialize_snapshot_match show_time False m)) (fold (summarize_binding ip_text rows instances) (list_enabled_bindings bindings) [])"

end
