(* ===== verification/Veeam_Lookup.thy ===== *)
theory Veeam_Lookup
  imports Veeam_Snapshots
begin

text \<open>
  The two lookups of the repository, of one instance and of a list of them, find the same snapshot.
\<close>

section \<open>The newest row\<close>

lemma sort_key_last: "xs \<noteq> [] \<Longrightarrow> last (sort_key k xs) \<in> set xs \<and> (\<forall>x \<in> set xs. k x \<le> k (last (sort_key k xs)))"
proof -
  assume "xs \<noteq> []"
  then have ne: "sort_key k xs \<noteq> []" by (metis length_0_conv length_sort)
  have "k y \<le> k (last ys)" if "sorted (map k ys)" "y \<in> set ys" for y ys
    using that by (induction ys) auto
  then show ?thesis using last_in_set [OF ne] by (metis set_sort sorted_sort_key)
qed

lemma newest_row_cong:
  assumes "set xs = set ys" "inj_on vs_id (set xs)"
  shows "newest_row xs = newest_row ys"
proof (cases "xs = []")
  case False
  let ?k = "\<lambda>r. (vs_at r, vs_id r)"
  have ne: "ys \<noteq> []" using False assms(1) by auto
  let ?x = "last (sort_key ?k xs)" and ?y = "last (sort_key ?k ys)"
  have "?x \<in> set xs" "?y \<in> set xs" "?k ?x \<le> ?k ?y" "?k ?y \<le> ?k ?x"
    using sort_key_last [OF False, of ?k] sort_key_last [OF ne, of ?k] assms(1) by auto
  then have "?x = ?y" using assms(2) by (metis (no_types, lifting) antisym inj_onD prod.inject)
  then show ?thesis using False ne by (simp add: newest_row_def)
qed (use assms in \<open>auto simp: newest_row_def\<close>)

section \<open>Rows of a machine\<close>

lemma find_only:
  assumes "x \<in> set xs" "P x" "\<And>y. y \<in> set xs \<Longrightarrow> P y \<Longrightarrow> y = x"
  shows "find P xs = Some x"
proof (cases "find P xs")
  case None
  then show ?thesis using assms(1,2) by (auto simp: find_None_iff)
next
  case (Some y)
  then have "y \<in> set xs" "P y" by (auto simp: find_Some_iff)
  then show ?thesis using Some assms(3) by simp
qed

lemma set_map_filter: "set (List.map_filter f xs) = {y. \<exists>x \<in> set xs. f x = Some y}"
  by (induction xs) (auto simp: List.map_filter_simps split: option.splits)

lemma mapped_rows:
  assumes "\<And>r c. r \<in> set rows \<Longrightarrow> P c r \<Longrightarrow> r \<in> set found" "set found \<subseteq> set rows"
    and "\<And>c r r'. r \<in> set rows \<Longrightarrow> r' \<in> set rows \<Longrightarrow> P c r \<Longrightarrow> P c r' \<Longrightarrow> r = r'"
  shows "set (List.map_filter (\<lambda>c. find (P c) (rev found)) cs) = {r \<in> set rows. \<exists>c \<in> set cs. P c r}"
proof -
  have "find (P c) (rev found) = Some r \<longleftrightarrow> r \<in> set rows \<and> P c r" for c r
  proof
    assume "find (P c) (rev found) = Some r"
    then have "r \<in> set found" "P c r" by (auto simp: find_Some_iff) (metis nth_mem length_rev set_rev)
    then show "r \<in> set rows \<and> P c r" using assms(2) by blast
  next
    assume "r \<in> set rows \<and> P c r"
    then show "find (P c) (rev found) = Some r" using assms by (intro find_only) auto
  qed
  then show ?thesis by (auto simp: set_map_filter)
qed

lemma one_row:
  assumes "snapshots_unique rows" "r \<in> set rows" "r' \<in> set rows" "vs_source r = vs_source r'"
  shows "vs_name r = vs_name r' \<Longrightarrow> r = r'" "vs_ip r = vs_ip r' \<Longrightarrow> vs_ip r \<noteq> None \<Longrightarrow> r = r'"
  using assms unfolding snapshots_unique_def distinct_map by (auto dest: inj_onD)

text \<open>The rows that match one instance, in both lookups.\<close>

lemma matched_rows:
  assumes "snapshots_unique rows" "set names \<subseteq> set all_names" "set ips \<subseteq> set all_ips"
  shows "set (collect_matched_snapshot_rows names ips
      (\<lambda>n. find (\<lambda>r. vs_name r = n) (rev (fetch_rows_by_names b all_names rows))) (\<lambda>i. find (\<lambda>r. vs_ip r = Some i) (rev (fetch_rows_by_ips b all_ips rows))))
    = set (fetch_rows_by_names b names rows @ fetch_rows_by_ips b ips rows)"
proof -
  let ?S = "filter (\<lambda>r. vs_source r = b) rows"
  have "set (List.map_filter (\<lambda>n. find (\<lambda>r. vs_name r = n) (rev (fetch_rows_by_names b all_names rows))) names) = {r \<in> set ?S. \<exists>n \<in> set names. vs_name r = n}"
    if "set names \<subseteq> set all_names"
  proof -
    have "set (List.map_filter (\<lambda>n. find (\<lambda>r. vs_name r = n) (rev (fetch_rows_by_names b all_names rows))) names)
        = set (List.map_filter (\<lambda>n. find (\<lambda>r. vs_name r = n \<and> n \<in> set all_names) (rev (fetch_rows_by_names b all_names rows))) names)"
      using that by (auto simp: set_map_filter subset_iff)
    also have "\<dots> = {r \<in> set ?S. \<exists>n \<in> set names. vs_name r = n \<and> n \<in> set all_names}"
      by (rule mapped_rows) (use one_row [OF assms(1)] in \<open>auto simp: fetch_rows_by_names_def\<close>)
    finally show ?thesis using that by auto
  qed
  moreover have "set (List.map_filter (\<lambda>i. find (\<lambda>r. vs_ip r = Some i) (rev (fetch_rows_by_ips b all_ips rows))) ips) = {r \<in> set ?S. \<exists>i \<in> set ips. vs_ip r = Some i}"
    if "set ips \<subseteq> set all_ips"
  proof -
    have "set (List.map_filter (\<lambda>i. find (\<lambda>r. vs_ip r = Some i) (rev (fetch_rows_by_ips b all_ips rows))) ips)
        = set (List.map_filter (\<lambda>i. find (\<lambda>r. vs_ip r = Some i \<and> i \<in> set all_ips) (rev (fetch_rows_by_ips b all_ips rows))) ips)"
      using that by (auto simp: set_map_filter subset_iff)
    also have "\<dots> = {r \<in> set ?S. \<exists>i \<in> set ips. vs_ip r = Some i \<and> i \<in> set all_ips}"
      by (rule mapped_rows) (use one_row [OF assms(1)] in \<open>auto simp: fetch_rows_by_ips_def\<close>)
    finally show ?thesis using that by auto
  qed
  ultimately show ?thesis using assms(2,3)
    by (auto simp: collect_matched_snapshot_rows_def fetch_rows_by_names_def fetch_rows_by_ips_def)
qed

section \<open>One binding\<close>

lemma better_none: "better_match None b names ips best = best"
  by (simp add: better_match_def)

lemma map_of_fold:
  assumes "distinct (map fst batch)"
  shows "map_of (fold (\<lambda>(i, names, ips) best. case better_match (f names ips) b names ips (map_of best i) of None \<Rightarrow> best | Some m \<Rightarrow> AList.update i m best) batch best) j
    = (case map_of batch j of None \<Rightarrow> map_of best j | Some (names, ips) \<Rightarrow> better_match (f names ips) b names ips (map_of best j))"
  using assms
proof (induction batch arbitrary: best)
  case (Cons x batch)
  obtain i names ips where x: "x = (i, names, ips)" by (cases x)
  have keeps: "better_match r b n p best = None \<Longrightarrow> best = None" for r n p best
    by (auto simp: better_match_def split: option.splits if_splits)
  have fresh: "map_of batch i = None" using Cons.prems x by (simp add: map_of_eq_None_iff)
  show ?case
  proof (cases "better_match (f names ips) b names ips (map_of best i)")
    case None
    then show ?thesis using Cons.IH [of best] Cons.prems keeps [OF None] fresh by (auto simp: x split: option.splits)
  next
    case (Some m)
    then show ?thesis using Cons.IH [of "AList.update i m best"] Cons.prems fresh by (auto simp: x update_conv' split: option.splits)
  qed
qed simp

lemma summarize_one:
  assumes "snapshots_unique rows" "distinct (map vs_id rows)" "distinct (map fst instances)" "(i, name, host) \<in> set instances"
    and "names = build_instance_match_candidates (Some name) (map Some (vb_domains b))" "ips = build_instance_ip_candidates ip_text host"
  shows "map_of (summarize_binding ip_text rows instances b best) i
    = better_match (newest_row (fetch_rows_by_names (vb_id b) names rows @ fetch_rows_by_ips (vb_id b) ips rows)) b names ips (map_of best i)"
proof -
  let ?batch = "build_snapshot_candidate_batch ip_text (vb_domains b) instances"
  let ?names = "concat (map (fst \<circ> snd) ?batch)" and ?ips = "concat (map (snd \<circ> snd) ?batch)"
  have keys: "distinct (map fst ?batch)" using assms(3) by (simp add: build_snapshot_candidate_batch_def o_def case_prod_unfold)
  have mem: "(i, names, ips) \<in> set ?batch" using assms(4) by (force simp: build_snapshot_candidate_batch_def assms(5,6))
  then have found: "map_of ?batch i = Some (names, ips)" using keys by simp
  have sub: "set names \<subseteq> set ?names" "set ips \<subseteq> set ?ips" using mem by force+
  have rows: "newest_row (collect_matched_snapshot_rows names ips
      (\<lambda>n. find (\<lambda>r. vs_name r = n) (rev (fetch_rows_by_names (vb_id b) ?names rows))) (\<lambda>i. find (\<lambda>r. vs_ip r = Some i) (rev (fetch_rows_by_ips (vb_id b) ?ips rows))))
    = newest_row (fetch_rows_by_names (vb_id b) names rows @ fetch_rows_by_ips (vb_id b) ips rows)"
  proof (rule newest_row_cong [OF matched_rows [OF assms(1) sub]])
    have "set (fetch_rows_by_names (vb_id b) names rows @ fetch_rows_by_ips (vb_id b) ips rows) \<subseteq> set rows"
      by (auto simp: fetch_rows_by_names_def fetch_rows_by_ips_def)
    then show "inj_on vs_id (set (collect_matched_snapshot_rows names ips
        (\<lambda>n. find (\<lambda>r. vs_name r = n) (rev (fetch_rows_by_names (vb_id b) ?names rows))) (\<lambda>i. find (\<lambda>r. vs_ip r = Some i) (rev (fetch_rows_by_ips (vb_id b) ?ips rows)))))"
      unfolding matched_rows [OF assms(1) sub] using assms(2) by (auto simp: distinct_map intro: inj_on_subset)
  qed
  show ?thesis unfolding summarize_binding_def Let_def
    by (subst map_of_fold [OF keys]) (simp add: found rows)
qed

section \<open>All bindings\<close>

text \<open>What both lookups compute for an instance.\<close>

definition best_match :: "(string \<Rightarrow> string option) \<Rightarrow> snapshot list \<Rightarrow> string \<Rightarrow> string option \<Rightarrow> veeam_binding \<Rightarrow> snapshot_match option \<Rightarrow> snapshot_match option" where
  "best_match ip_text rows name host b =
    (let names = build_instance_match_candidates (Some name) (map Some (vb_domains b)); ips = build_instance_ip_candidates ip_text host
     in better_match (newest_row (fetch_rows_by_names (vb_id b) names rows @ fetch_rows_by_ips (vb_id b) ips rows)) b names ips)"

lemma single_lookup:
  "find_best_snapshot_match (build_snapshot_lookup_candidates ip_text name host bs) rows = fold (best_match ip_text rows name host) bs None"
proof -
  let ?step = "\<lambda>c. better_match (fetch_best_snapshot_for_candidate c rows) (lc_binding c) (lc_names c) (lc_ips c)"
  have empty: "newest_row (fetch_rows_by_names b [] rows @ fetch_rows_by_ips b [] rows) = None" for b
    by (simp add: fetch_rows_by_names_def fetch_rows_by_ips_def newest_row_def)
  have "fold ?step (build_snapshot_lookup_candidates ip_text name host bs) best = fold (best_match ip_text rows name host) bs best" for best
    by (induction bs arbitrary: best)
      (auto simp: build_snapshot_lookup_candidates_def best_match_def Let_def fetch_best_snapshot_for_candidate_def empty better_none)
  then show ?thesis by (simp add: find_best_snapshot_match_def)
qed

lemma batch_lookup:
  assumes "snapshots_unique rows" "distinct (map vs_id rows)" "distinct (map fst instances)" "(i, name, host) \<in> set instances"
  shows "map_of (fold (summarize_binding ip_text rows instances) bs best) i = fold (best_match ip_text rows name host) bs (map_of best i)"
  by (induction bs arbitrary: best) (simp_all add: summarize_one [OF assms refl refl] best_match_def Let_def)

text \<open>C25: The backup of an instance that the page of the instance shows and the one that the list of all
  instances shows are the same snapshot of the same source: both lookups, over names with the domains
  of every enabled source and over addresses, agree.\<close>

theorem backup_lookups_agree:
  assumes "snapshots_unique rows" "distinct (map vs_id rows)" "distinct (map fst instances)" "(i, name, host) \<in> set instances"
  shows "\<exists>m. find_best_backup_for_instance_name ip_text show_time bindings rows name host = map_option (serialize_snapshot_match show_time True) m
    \<and> map_of (fetch_backup_summary_map ip_text show_time bindings rows instances) i = map_option (serialize_snapshot_match show_time False) m"
proof -
  have "map_of (fetch_backup_summary_map ip_text show_time bindings rows instances) i
      = map_option (serialize_snapshot_match show_time False) (map_of (fold (summarize_binding ip_text rows instances) (list_enabled_bindings bindings) []) i)"
    by (simp add: fetch_backup_summary_map_def map_of_map)
  then show ?thesis
    unfolding find_best_backup_for_instance_name_def single_lookup batch_lookup [OF assms] by auto
qed

definition example_binding :: veeam_binding where
  "example_binding = \<lparr>vb_id = 1, vb_name = ''v'', vb_credential = Some 1, vb_host = ''h'', vb_port = 9419, vb_api = ''v1'', vb_verify = None, vb_domains = [''corp.local''], vb_enabled = True,
     vb_sync_at = None, vb_status = None, vb_run = None, vb_error = None\<rparr>"

definition example_snapshot :: "int \<Rightarrow> string \<Rightarrow> string option \<Rightarrow> snapshot" where
  "example_snapshot i name ip = (new_snapshot 1)\<lparr>vs_id := i, vs_machine := name, vs_name := name, vs_machine_ip := ip, vs_ip := ip, vs_at := i\<rparr>"

lemma backup_lookups_agree_witness:
  "\<exists>d e. find_best_backup_for_instance_name Some (\<lambda>_. []) [example_binding] [example_snapshot 1 ''db1.corp.local'' None, example_snapshot 2 ''x'' (Some ''10.0.0.7'')]
      ''DB1'' (Some ''10.0.0.7'') = Some d
    \<and> map_of (fetch_backup_summary_map Some (\<lambda>_. []) [example_binding] [example_snapshot 1 ''db1.corp.local'' None, example_snapshot 2 ''x'' (Some ''10.0.0.7'')]
      [(5, ''DB1'', Some ''10.0.0.7'')]) 5 = Some e \<and> dget d ''machine_name'' = PStr ''x'' \<and> dget e ''machine_name'' = PStr ''x''"
proof -
  let ?rows = "[example_snapshot 1 ''db1.corp.local'' None, example_snapshot 2 ''x'' (Some ''10.0.0.7'')]"
  have "snapshots_unique ?rows" "distinct (map vs_id ?rows)" by code_simp+
  then obtain m where m: "find_best_backup_for_instance_name Some (\<lambda>_. []) [example_binding] ?rows ''DB1'' (Some ''10.0.0.7'') = map_option (serialize_snapshot_match (\<lambda>_. []) True) m"
    "map_of (fetch_backup_summary_map Some (\<lambda>_. []) [example_binding] ?rows [(5, ''DB1'', Some ''10.0.0.7'')]) 5 = map_option (serialize_snapshot_match (\<lambda>_. []) False) m"
    using backup_lookups_agree [of ?rows "[(5, ''DB1'', Some ''10.0.0.7'')]" 5 "''DB1''" "Some ''10.0.0.7''" Some "\<lambda>_. []" "[example_binding]"] by auto
  have "case find_best_backup_for_instance_name Some (\<lambda>_. []) [example_binding] ?rows ''DB1'' (Some ''10.0.0.7'') of None \<Rightarrow> False | Some d \<Rightarrow> dget d ''machine_name'' = PStr ''x''"
    by code_simp
  then obtain s where s: "m = Some s" "dget (serialize_snapshot_match (\<lambda>_. []) True s) ''machine_name'' = PStr ''x''"
    unfolding m(1) by (cases m) auto
  moreover have "dget (serialize_snapshot_match (\<lambda>_. []) False s) ''machine_name'' = dget (serialize_snapshot_match (\<lambda>_. []) True s) ''machine_name''"
    by (simp add: serialize_snapshot_match_def serialize_snapshot_row_def Let_def dget_def)
  ultimately show ?thesis using m by auto
qed

end
