(* ===== verification/Veeam_Writes.thy ===== *)
theory Veeam_Writes
  imports Veeam_Lookup
begin

text \<open>
  What writing the snapshots of a source leaves in the table, and when it fails.
\<close>

definition table_valid :: "snapshot_table \<Rightarrow> bool" where
  "table_valid t \<longleftrightarrow> snapshots_unique (vt_rows t) \<and> distinct (map vs_id (vt_rows t)) \<and> (\<forall>r \<in> set (vt_rows t). vs_id r < vt_next t)"

section \<open>What is selected\<close>

lemma select_writes_seen:
  "w \<in> set (select_writes ip_text rs names ips) \<Longrightarrow> (wr_name w \<noteq> [] \<longrightarrow> wr_name w \<notin> set names) \<and> (\<forall>i. wr_ip w = Some i \<longrightarrow> i \<notin> set ips)"
proof (induction rs arbitrary: names ips)
  case (Cons r rs)
  then show ?case by (fastforce simp: Let_def split: if_splits option.splits)
qed simp

lemma select_writes_distinct:
  "distinct (map wr_name (filter (\<lambda>w. wr_name w \<noteq> []) (select_writes ip_text rs names ips)))"
  "distinct (map wr_ip (filter (\<lambda>w. wr_ip w \<noteq> None) (select_writes ip_text rs names ips)))"
proof (induction rs arbitrary: names ips)
  case (Cons r rs)
  {
    case 1
    show ?case using Cons.IH(1) by (auto simp: Let_def dest: select_writes_seen)
  next
    case 2
    show ?case using Cons.IH(2) by (auto simp: Let_def dest: select_writes_seen split: option.splits)
  }
qed simp_all

lemma select_writes_name: "w \<in> set (select_writes ip_text rs names ips) \<Longrightarrow> \<exists>r \<in> set rs. wr_name w = normalize_machine_name (Some (mb_machine r))"
proof (induction rs arbitrary: names ips)
  case (Cons r rs)
  then show ?case by (fastforce simp: Let_def split: if_splits)
qed simp

lemma set_newest_first [simp]: "set (newest_first rs) = set rs"
  by (simp add: newest_first_def sort_desc_def)

text \<open>When every record names its machine, names and addresses are told apart.\<close>

lemma selected_names:
  assumes "\<forall>r \<in> set records. strip (mb_machine r) \<noteq> []"
  shows "\<forall>w \<in> set (build_snapshot_write_records ip_text records). wr_name w \<noteq> []"
    and "distinct (map wr_name (build_snapshot_write_records ip_text records))"
proof -
  show ne: "\<forall>w \<in> set (build_snapshot_write_records ip_text records). wr_name w \<noteq> []"
  proof
    fix w assume "w \<in> set (build_snapshot_write_records ip_text records)"
    then obtain r where "r \<in> set records" "wr_name w = lower (strip (mb_machine r))"
      by (auto simp: build_snapshot_write_records_def normalize_machine_name_def dest!: select_writes_name)
    then show "wr_name w \<noteq> []" using assms by (simp add: lower_eq_Nil)
  qed
  then have "filter (\<lambda>w. wr_name w \<noteq> []) (build_snapshot_write_records ip_text records) = build_snapshot_write_records ip_text records"
    by (simp add: filter_id_conv)
  then show "distinct (map wr_name (build_snapshot_write_records ip_text records))"
    using select_writes_distinct(1) [of ip_text "newest_first records" "[]" "[]"] by (simp add: build_snapshot_write_records_def)
qed

lemma selected_ips:
  assumes "w \<in> set (build_snapshot_write_records ip_text records)" "w' \<in> set (build_snapshot_write_records ip_text records)"
    and "wr_ip w = wr_ip w'" "wr_ip w \<noteq> None"
  shows "w = w'"
  using select_writes_distinct(2) [of ip_text "newest_first records" "[]" "[]"] assms
  by (auto simp: build_snapshot_write_records_def distinct_map dest: inj_onD)

section \<open>The session\<close>

lemma apply_fields [simp]: "vs_id (apply_snapshot_write_record s run at w r) = vs_id r" "vs_source (apply_snapshot_write_record s run at w r) = s"
  "vs_name (apply_snapshot_write_record s run at w r) = wr_name w" "vs_ip (apply_snapshot_write_record s run at w r) = wr_ip w"
  by (simp_all add: apply_snapshot_write_record_def Let_def)

lemma apply_again: "apply_snapshot_write_record s run at w (apply_snapshot_write_record s run at w r) = apply_snapshot_write_record s run at w r"
  by (simp add: apply_snapshot_write_record_def Let_def)

lemma apply_id: "apply_snapshot_write_record s run at w r\<lparr>vs_id := i\<rparr> = apply_snapshot_write_record s run at w (r\<lparr>vs_id := i\<rparr>)"
  by (simp add: apply_snapshot_write_record_def Let_def)

text \<open>The row of a name, and the address of a row, when no machine has the address of another.\<close>

lemma existing_name_row:
  assumes "snapshots_unique rows" "r \<in> set rows" "vs_source r = b" "name \<noteq> []" "vs_name r = name"
  shows "existing_name (filter (\<lambda>r. vs_source r = b) rows) name = Some (vs_id r)"
proof -
  have "find (\<lambda>r. vs_name r \<noteq> [] \<and> vs_name r = name) (rev (filter (\<lambda>r. vs_source r = b) rows)) = Some r"
    using assms one_row(1) [OF assms(1)] by (intro find_only) auto
  then show ?thesis by (simp add: existing_name_def)
qed

lemma existing_name_none: "name \<notin> vs_name ` set rows \<Longrightarrow> existing_name rows name = None"
  by (auto simp: existing_name_def find_None_iff)

lemma existing_ip_row: "existing_ip rows ip = Some i \<Longrightarrow> \<exists>r \<in> set rows. vs_id r = i \<and> vs_ip r = ip \<and> ip \<noteq> None"
  by (auto simp: existing_ip_def find_Some_iff split: option.splits) (metis length_rev nth_mem set_rev)

lemma own_address:
  assumes "snapshots_unique rows" "wr_name w \<noteq> []" "\<And>r. r \<in> set rows \<Longrightarrow> vs_source r = b \<Longrightarrow> wr_ip w \<noteq> None \<Longrightarrow> vs_ip r = wr_ip w \<Longrightarrow> vs_name r = wr_name w"
  shows "find_snapshot_row (filter (\<lambda>r. vs_source r = b) rows) w = (existing_name (filter (\<lambda>r. vs_source r = b) rows) (wr_name w), None)"
proof (cases "existing_ip (filter (\<lambda>r. vs_source r = b) rows) (wr_ip w)")
  case None
  then show ?thesis by (simp add: find_snapshot_row_def split: option.split)
next
  case (Some i)
  from existing_ip_row [OF this] obtain r where r: "r \<in> set rows" "vs_source r = b" "vs_id r = i" "vs_ip r = wr_ip w" "wr_ip w \<noteq> None" by auto
  then have "vs_name r = wr_name w" using assms(3) by blast
  from existing_name_row [OF assms(1) r(1,2) assms(2) this] Some r(3) show ?thesis by (simp add: find_snapshot_row_def)
qed

text \<open>What each write does when addresses are their machines' own.\<close>

lemma fold_writes:
  assumes "snapshots_unique rows" "distinct (map vs_id rows)" "existing = filter (\<lambda>r. vs_source r = b) rows"
    and "distinct (map wr_name ws)" "\<forall>w \<in> set ws. wr_name w \<noteq> []"
    and own: "\<And>w r. w \<in> set ws \<Longrightarrow> r \<in> set existing \<Longrightarrow> wr_ip w \<noteq> None \<Longrightarrow> vs_ip r = wr_ip w \<Longrightarrow> vs_name r = wr_name w"
    and "map (\<lambda>r. (vs_id r, vs_name r)) (ss_rows s) = map (\<lambda>r. (vs_id r, vs_name r)) existing" "ss_deleted s = []"
  shows "let s' = fold (write_one b run at existing) ws s in
      ss_rows s' = map (\<lambda>r. case find (\<lambda>w. wr_name w = vs_name r) ws of None \<Rightarrow> r | Some w \<Rightarrow> apply_snapshot_write_record b run at w r) (ss_rows s)
    \<and> ss_new s' = ss_new s @ map (\<lambda>w. apply_snapshot_write_record b run at w (new_snapshot b)) (filter (\<lambda>w. wr_name w \<notin> vs_name ` set existing) ws)
    \<and> ss_deleted s' = [] \<and> set (ss_kept s') = set (ss_kept s) \<union> vs_id ` {r \<in> set existing. vs_name r \<in> wr_name ` set ws}"
  using assms(4-)
proof (induction ws arbitrary: s)
  case (Cons w ws)
  let ?apply = "apply_snapshot_write_record b run at"
  let ?s1 = "write_one b run at existing w s"
  have row: "find_snapshot_row existing w = (existing_name existing (wr_name w), None)"
    unfolding assms(3) using Cons.prems(2,3) by (intro own_address [OF assms(1)]) (auto simp: assms(3))
  have pairs: "(\<lambda>r. (vs_id r, vs_name r)) ` set (ss_rows s) = (\<lambda>r. (vs_id r, vs_name r)) ` set existing"
    using Cons.prems(4) by (metis set_map)
  have step: "ss_rows ?s1 = map (\<lambda>r. if vs_name r = wr_name w then ?apply w r else r) (ss_rows s)
    \<and> ss_new ?s1 = ss_new s @ (if wr_name w \<in> vs_name ` set existing then [] else [?apply w (new_snapshot b)])
    \<and> ss_deleted ?s1 = [] \<and> set (ss_kept ?s1) = set (ss_kept s) \<union> vs_id ` {r \<in> set existing. vs_name r = wr_name w}"
  proof (cases "wr_name w \<in> vs_name ` set existing")
    case True
    then obtain r where r: "r \<in> set existing" "vs_name r = wr_name w" by auto
    then have found: "existing_name existing (wr_name w) = Some (vs_id r)"
      unfolding assms(3) using Cons.prems(2) by (intro existing_name_row [OF assms(1)]) (auto simp: assms(3))
    have same: "vs_id x = vs_id r \<longleftrightarrow> vs_name x = wr_name w" if "x \<in> set existing" for x
    proof -
      have rows: "x \<in> set rows" "r \<in> set rows" "vs_source x = vs_source r" using that r by (simp_all add: assms(3))
      then have "vs_id x = vs_id r \<longleftrightarrow> x = r" using assms(2) by (auto simp: distinct_map dest: inj_onD)
      moreover have "vs_name x = wr_name w \<longleftrightarrow> x = r" using one_row(1) [OF assms(1) rows] r(2) by auto
      ultimately show ?thesis by simp
    qed
    have "vs_id x = vs_id r \<longleftrightarrow> vs_name x = wr_name w" if x: "x \<in> set (ss_rows s)" for x
    proof -
      obtain y where "y \<in> set existing" "vs_id y = vs_id x" "vs_name y = vs_name x" using imageI [OF x, of "\<lambda>r. (vs_id r, vs_name r)"] unfolding pairs by auto
      then show ?thesis using same by metis
    qed
    then have "map (\<lambda>x. if vs_id x = vs_id r then ?apply w x else x) (ss_rows s) = map (\<lambda>x. if vs_name x = wr_name w then ?apply w x else x) (ss_rows s)"
      by (intro map_cong) auto
    moreover have "{x \<in> set existing. vs_name x = wr_name w} = {r}" using same r assms(2) unfolding assms(3) by (auto simp: distinct_map dest: inj_onD)
    ultimately show ?thesis using True Cons.prems(5) by (simp add: write_one_def row found)
  next
    case False
    have "existing_name existing (wr_name w) = None" by (rule existing_name_none [OF False])
    moreover have "vs_name x \<noteq> wr_name w" if "x \<in> set (ss_rows s)" for x
      using imageI [OF that, of "\<lambda>r. (vs_id r, vs_name r)"] False unfolding pairs by auto
    then have "map (\<lambda>x. if vs_name x = wr_name w then ?apply w x else x) (ss_rows s) = ss_rows s" by (intro map_idI) auto
    moreover have "{x \<in> set existing. vs_name x = wr_name w} = {}" using False by (metis (mono_tags, lifting) Collect_empty_eq imageI)
    ultimately show ?thesis using False Cons.prems(5) by (auto simp: write_one_def row)
  qed
  have pairs1: "map (\<lambda>r. (vs_id r, vs_name r)) (ss_rows ?s1) = map (\<lambda>r. (vs_id r, vs_name r)) existing"
    unfolding Cons.prems(4) [symmetric] using step by (auto intro!: map_cong)
  have "distinct (map wr_name ws)" "\<forall>w \<in> set ws. wr_name w \<noteq> []" using Cons.prems(1,2) by auto
  note IH = Cons.IH [of ?s1, OF this _ pairs1, unfolded Let_def]
  have "wr_name w \<notin> wr_name ` set ws" using Cons.prems(1) by simp
  then have "wr_name v \<noteq> wr_name w" if "v \<in> set ws" for v using imageI [OF that, of wr_name] by metis
  then have other: "find (\<lambda>v. wr_name v = wr_name w) ws = None" by (auto simp: find_None_iff)
  let ?upd = "\<lambda>ws r. case find (\<lambda>v. wr_name v = vs_name r) ws of None \<Rightarrow> r | Some v \<Rightarrow> ?apply v r"
  have all: "map (?upd ws) (ss_rows ?s1) = map (?upd (w # ws)) (ss_rows s)"
    unfolding conjunct1 [OF step] map_map
  proof (rule map_cong [OF refl])
    fix r assume "r \<in> set (ss_rows s)"
    show "(?upd ws \<circ> (\<lambda>r. if vs_name r = wr_name w then ?apply w r else r)) r = ?upd (w # ws) r"
      by (cases "vs_name r = wr_name w") (simp_all add: other)
  qed
  have later: "\<And>v r. v \<in> set ws \<Longrightarrow> r \<in> set existing \<Longrightarrow> wr_ip v \<noteq> None \<Longrightarrow> vs_ip r = wr_ip v \<Longrightarrow> vs_name r = wr_name v"
    using Cons.prems(3) by (meson list.set_intros(2))
  note IH = IH [OF later]
  have "ss_rows (fold (write_one b run at existing) ws ?s1) = map (?upd (w # ws)) (ss_rows s)"
    using IH step unfolding all by blast
  moreover have "{r \<in> set existing. vs_name r \<in> wr_name ` set (w # ws)} = {r \<in> set existing. vs_name r = wr_name w} \<union> {r \<in> set existing. vs_name r \<in> wr_name ` set ws}" by auto
  moreover have "ss_new s @ (if wr_name w \<in> vs_name ` set existing then [] else [?apply w (new_snapshot b)])
      @ map (\<lambda>w. ?apply w (new_snapshot b)) (filter (\<lambda>w. wr_name w \<notin> vs_name ` set existing) ws)
    = ss_new s @ map (\<lambda>w. ?apply w (new_snapshot b)) (filter (\<lambda>w. wr_name w \<notin> vs_name ` set existing) (w # ws))" by simp
  moreover note IH step
  ultimately show ?case unfolding Let_def fold_Cons comp_apply by (simp only: image_Un Un_assoc append_assoc simp_thms)
qed simp

section \<open>The flush\<close>

text \<open>The writes fit the table: names and addresses are told apart, and no stored address is another
  machine's.\<close>

definition writes_fit :: "snapshot list \<Rightarrow> int \<Rightarrow> write_record list \<Rightarrow> bool" where
  "writes_fit rows b ws \<longleftrightarrow> (\<forall>w \<in> set ws. wr_name w \<noteq> []) \<and> distinct (map wr_name ws)
    \<and> (\<forall>w \<in> set ws. \<forall>w' \<in> set ws. wr_ip w = wr_ip w' \<longrightarrow> wr_ip w \<noteq> None \<longrightarrow> w = w')
    \<and> (\<forall>w \<in> set ws. \<forall>r \<in> set rows. vs_source r = b \<longrightarrow> wr_ip w \<noteq> None \<longrightarrow> vs_ip r = wr_ip w \<longrightarrow> vs_name r = wr_name w)"

definition written :: "int \<Rightarrow> string \<Rightarrow> int \<Rightarrow> write_record list \<Rightarrow> snapshot \<Rightarrow> snapshot" where
  "written b run at ws r = (if vs_source r = b then case find (\<lambda>w. wr_name w = vs_name r) ws of None \<Rightarrow> r
     | Some w \<Rightarrow> apply_snapshot_write_record b run at w r else r)"

lemma written_cases:
  obtains "written b run at ws r = r" "vs_source r = b \<longrightarrow> vs_name r \<notin> wr_name ` set ws"
  | w where "w \<in> set ws" "vs_source r = b" "wr_name w = vs_name r" "written b run at ws r = apply_snapshot_write_record b run at w r"
proof (cases "vs_source r = b")
  case True
  then show ?thesis
  proof (cases "find (\<lambda>w. wr_name w = vs_name r) ws")
    case None
    then have "vs_name r \<notin> wr_name ` set ws" by (auto simp: find_None_iff)
    then show ?thesis using True None that(1) by (simp add: written_def)
  next
    case (Some w)
    then have "w \<in> set ws" "wr_name w = vs_name r" by (auto simp: find_Some_iff)
    then show ?thesis using True Some that(2) by (simp add: written_def)
  qed
qed (use that(1) in \<open>simp add: written_def\<close>)

lemma written_fields [simp]: "vs_id (written b run at ws r) = vs_id r" "vs_source (written b run at ws r) = vs_source r" "vs_name (written b run at ws r) = vs_name r"
  by (rule written_cases [of b run at ws r]; simp)+

text \<open>An address of a row, before or after the write.\<close>

lemma written_ip:
  assumes "writes_fit rows b ws" "r \<in> set rows" "x \<in> {r, written b run at ws r}" "vs_ip x = Some i" "vs_source r = b" "w \<in> set ws" "wr_ip w = Some i"
  shows "vs_name r = wr_name w"
proof (rule written_cases [of b run at ws r])
  fix w' assume w': "w' \<in> set ws" "vs_source r = b" "wr_name w' = vs_name r" "written b run at ws r = apply_snapshot_write_record b run at w' r"
  consider "vs_ip r = Some i" | "wr_ip w' = Some i" using assms(3,4) w'(4) by auto
  then show ?thesis
  proof cases
    case 1
    then show ?thesis using assms unfolding writes_fit_def by (metis option.distinct(1))
  next
    case 2
    then have "w' = w" using assms(1,6,7) w'(1) unfolding writes_fit_def by (metis option.distinct(1))
    then show ?thesis using w'(3) by simp
  qed
next
  assume "written b run at ws r = r"
  then have "vs_ip r = Some i" using assms(3,4) by auto
  then show ?thesis using assms unfolding writes_fit_def by (metis option.distinct(1))
qed

lemma unique_iff: "distinct rows \<Longrightarrow> snapshots_unique rows \<longleftrightarrow>
    (\<forall>x \<in> set rows. \<forall>y \<in> set rows. vs_source x = vs_source y \<longrightarrow> vs_name x = vs_name y \<or> vs_ip x = vs_ip y \<and> vs_ip x \<noteq> None \<longrightarrow> x = y)"
proof
  assume "snapshots_unique rows"
  then show "\<forall>x \<in> set rows. \<forall>y \<in> set rows. vs_source x = vs_source y \<longrightarrow> vs_name x = vs_name y \<or> vs_ip x = vs_ip y \<and> vs_ip x \<noteq> None \<longrightarrow> x = y"
    using one_row by blast
next
  assume "distinct rows" and same: "\<forall>x \<in> set rows. \<forall>y \<in> set rows. vs_source x = vs_source y \<longrightarrow> vs_name x = vs_name y \<or> vs_ip x = vs_ip y \<and> vs_ip x \<noteq> None \<longrightarrow> x = y"
  have "inj_on (\<lambda>r. (vs_source r, vs_name r)) (set rows)" by (rule inj_onI) (use same in blast)
  moreover have "inj_on (\<lambda>r. (vs_source r, vs_ip r)) (set (filter (\<lambda>r. vs_ip r \<noteq> None) rows))"
    by (rule inj_onI) (use same in \<open>simp del: not_None_eq\<close>)
  ultimately show "snapshots_unique rows" using \<open>distinct rows\<close> by (simp add: snapshots_unique_def distinct_map)
qed

lemma mixed_unique:
  assumes "snapshots_unique rows" "distinct (map vs_id rows)" "writes_fit rows b ws"
  shows "snapshots_unique (map (\<lambda>r. if vs_id r \<in> D then written b run at ws r else r) rows)"
proof -
  let ?g = "\<lambda>r. if vs_id r \<in> D then written b run at ws r else r"
  have g: "vs_id (?g r) = vs_id r" "vs_source (?g r) = vs_source r" "vs_name (?g r) = vs_name r" "?g r \<in> {r, written b run at ws r}" for r by auto
  have "map vs_id (map ?g rows) = map vs_id rows" unfolding map_map by (rule map_cong) (simp_all only: o_apply g(1))
  then have "distinct (map vs_id (map ?g rows))" using assms(2) by (simp only:)
  then have d: "distinct (map ?g rows)" unfolding distinct_map by blast
  have ips: "x = y" if xy: "x \<in> set rows" "y \<in> set rows" "vs_source x = vs_source y" "vs_ip (?g x) = Some i" "vs_ip (?g y) = Some i" for x y i
  proof -
    have "vs_name x = vs_name y \<or> vs_ip x = vs_ip y \<and> vs_ip x \<noteq> None"
    proof (cases "?g x = x \<and> ?g y = y")
      case True
      then show ?thesis using xy(4,5) by simp
    next
      case False
      have half: "vs_name u = vs_name v" if uv: "u \<in> set rows" "v \<in> set rows" "vs_source u = vs_source v" "vs_ip (?g u) = Some i" "vs_ip (?g v) = Some i" "?g u \<noteq> u" for u v
      proof (rule written_cases [of b run at ws u])
        assume "written b run at ws u = u"
        then show ?thesis using uv(6) by simp
      next
        fix w assume w: "w \<in> set ws" "vs_source u = b" "wr_name w = vs_name u" "written b run at ws u = apply_snapshot_write_record b run at w u"
        have "?g u = written b run at ws u" using uv(6) by meson
        then have "wr_ip w = Some i" using uv(4) w(4) by simp
        then show ?thesis using written_ip [OF assms(3) uv(2) g(4) uv(5) _ w(1)] uv(3) w(2,3) by simp
      qed
      from False consider "?g x \<noteq> x" | "?g y \<noteq> y" by blast
      then show ?thesis
      proof cases
        case 1
        from half [OF xy 1] show ?thesis ..
      next
        case 2
        from half [OF xy(2,1) xy(3) [symmetric] xy(5,4) 2] show ?thesis by simp
      qed
    qed
    then show ?thesis using one_row [OF assms(1) xy(1-3)] by blast
  qed
  show ?thesis unfolding unique_iff [OF d]
  proof (intro ballI impI)
    fix u v assume "u \<in> set (map ?g rows)" "v \<in> set (map ?g rows)" and same: "vs_source u = vs_source v" "vs_name u = vs_name v \<or> vs_ip u = vs_ip v \<and> vs_ip u \<noteq> None"
    then obtain x y where xy: "x \<in> set rows" "u = ?g x" "y \<in> set rows" "v = ?g y" by auto
    have src: "vs_source x = vs_source y" using same(1) unfolding xy(2,4) g .
    from same(2) have "x = y"
    proof
      assume "vs_name u = vs_name v"
      then have "vs_name x = vs_name y" unfolding xy(2,4) g .
      then show ?thesis using one_row(1) [OF assms(1) xy(1,3) src] by blast
    next
      assume "vs_ip u = vs_ip v \<and> vs_ip u \<noteq> None"
      then obtain i where "vs_ip u = Some i" "vs_ip v = Some i" by (metis not_None_eq)
      then show ?thesis using ips [OF xy(1,3) src] unfolding xy(2,4) by blast
    qed
    then show "u = v" using xy(2,4) by (simp only:)
  qed
qed

lemma flush_updates_written:
  assumes "snapshots_unique rows" "distinct (map vs_id rows)" "writes_fit rows b ws" "\<And>u. u \<in> set us \<Longrightarrow> \<exists>r \<in> set rows. u = written b run at ws r"
  shows "flush_updates us (map (\<lambda>r. if vs_id r \<in> D then written b run at ws r else r) rows)
    = Some (map (\<lambda>r. if vs_id r \<in> D \<union> vs_id ` set us then written b run at ws r else r) rows)"
  using assms(4)
proof (induction us arbitrary: D)
  case (Cons u us)
  obtain x where x: "x \<in> set rows" "u = written b run at ws x" using Cons.prems [of u] by auto
  have id: "vs_id r = vs_id x \<longleftrightarrow> r = x" if "r \<in> set rows" for r using that x(1) assms(2) by (auto simp: distinct_map dest: inj_onD)
  have step: "map (\<lambda>r. if vs_id r = vs_id u then u else r) (map (\<lambda>r. if vs_id r \<in> D then written b run at ws r else r) rows)
      = map (\<lambda>r. if vs_id r \<in> insert (vs_id u) D then written b run at ws r else r) rows"
    unfolding map_map by (rule map_cong [OF refl]) (auto simp: x(2) id)
  have "flush_updates us (map (\<lambda>r. if vs_id r \<in> insert (vs_id u) D then written b run at ws r else r) rows)
      = Some (map (\<lambda>r. if vs_id r \<in> insert (vs_id u) D \<union> vs_id ` set us then written b run at ws r else r) rows)"
    by (rule Cons.IH) (use Cons.prems in auto)
  then show ?case using mixed_unique [OF assms(1-3), of "insert (vs_id u) D"] by (simp only: flush_updates.simps step Let_def if_True) simp
qed simp

fun numbered :: "int \<Rightarrow> snapshot list \<Rightarrow> snapshot list" where
  "numbered i [] = []"
| "numbered i (n # ns) = n\<lparr>vs_id := i\<rparr> # numbered (i + 1) ns"

lemma unique_prefix: "snapshots_unique (xs @ ys) \<Longrightarrow> snapshots_unique xs"
  by (simp add: snapshots_unique_def)

lemma flush_inserts_numbered:
  "snapshots_unique (vt_rows t @ numbered (vt_next t) ns)
    \<Longrightarrow> flush_inserts ns t = Some \<lparr>vt_rows = vt_rows t @ numbered (vt_next t) ns, vt_next = vt_next t + int (length ns)\<rparr>"
proof (induction ns arbitrary: t)
  case (Cons n ns)
  have "snapshots_unique (vt_rows t @ [n\<lparr>vs_id := vt_next t\<rparr>])"
    using Cons.prems unique_prefix [of "vt_rows t @ [n\<lparr>vs_id := vt_next t\<rparr>]"] by simp
  with Cons.IH [of "\<lparr>vt_rows = vt_rows t @ [n\<lparr>vs_id := vt_next t\<rparr>], vt_next = vt_next t + 1\<rparr>"] Cons.prems show ?case
    by (simp add: Let_def)
qed simp

lemma numbered_ids: "x \<in> set (numbered i ns) \<Longrightarrow> i \<le> vs_id x \<and> vs_id x < i + int (length ns) \<and> (\<exists>n \<in> set ns. x = n\<lparr>vs_id := vs_id x\<rparr>)"
proof (induction ns arbitrary: i)
  case (Cons n ns)
  then show ?case by force
qed simp

lemma numbered_distinct: "distinct (map vs_id (numbered i ns))"
proof (induction ns arbitrary: i)
  case (Cons n ns)
  have "i \<notin> vs_id ` set (numbered (i + 1) ns)" using numbered_ids [of _ "i + 1" ns] by force
  with Cons show ?case by simp
qed simp

lemma numbered_mem: "n \<in> set ns \<Longrightarrow> \<exists>x \<in> set (numbered i ns). x = n\<lparr>vs_id := vs_id x\<rparr>"
proof (induction ns arbitrary: i)
  case (Cons m ns)
  then show ?case by (cases "n = m") auto
qed simp

lemma numbered_names: "map vs_name (numbered i ns) = map vs_name ns"
  by (induction ns arbitrary: i) simp_all

text \<open>The rows that are inserted fit those that were updated.\<close>

definition added :: "int \<Rightarrow> string \<Rightarrow> int \<Rightarrow> write_record list \<Rightarrow> snapshot list \<Rightarrow> snapshot list" where
  "added b run at ws rows = map (\<lambda>w. apply_snapshot_write_record b run at w (new_snapshot b))
     (filter (\<lambda>w. wr_name w \<notin> vs_name ` set (filter (\<lambda>r. vs_source r = b) rows)) ws)"

lemma added_row:
  assumes "y \<in> set (numbered n (added b run at ws rows))"
  obtains w where "w \<in> set ws" "wr_name w \<notin> vs_name ` {r \<in> set rows. vs_source r = b}" "vs_name y = wr_name w" "vs_ip y = wr_ip w" "vs_source y = b"
proof -
  obtain w where "w \<in> set ws" "wr_name w \<notin> vs_name ` {r \<in> set rows. vs_source r = b}" "y = apply_snapshot_write_record b run at w (new_snapshot b)\<lparr>vs_id := vs_id y\<rparr>"
    using numbered_ids [OF assms] by (auto simp: added_def)
  then show ?thesis using that by (metis apply_fields(2-4) apply_id)
qed

lemma added_unique:
  assumes "snapshots_unique rows" "distinct (map vs_id rows)" "writes_fit rows b ws" "\<forall>r \<in> set rows. vs_id r < n"
  shows "snapshots_unique (map (written b run at ws) rows @ numbered n (added b run at ws rows))"
    and "distinct (map vs_id (map (written b run at ws) rows @ numbered n (added b run at ws rows)))"
proof -
  let ?old = "map (written b run at ws) rows" and ?new = "numbered n (added b run at ws rows)"
  have old: "snapshots_unique ?old" using mixed_unique [OF assms(1-3), of UNIV] by simp
  have "map vs_id ?old = map vs_id rows" by simp
  moreover have "vs_id ` set ?old \<inter> vs_id ` set ?new = {}" using assms(4) numbered_ids by fastforce
  ultimately show ids: "distinct (map vs_id (?old @ ?new))" using assms(2) numbered_distinct by (metis distinct_append map_append set_map)
  then have d: "distinct (?old @ ?new)" unfolding distinct_map by blast
  have mixed: False if "x \<in> set ?old" "y \<in> set ?new" "vs_source x = vs_source y" "vs_name x = vs_name y \<or> vs_ip x = vs_ip y \<and> vs_ip x \<noteq> None" for x y
  proof -
    from that(1) obtain r where r: "r \<in> set rows" "x = written b run at ws r" by auto
    from that(2) obtain w where w: "w \<in> set ws" "wr_name w \<notin> vs_name ` {r \<in> set rows. vs_source r = b}" "vs_name y = wr_name w" "vs_ip y = wr_ip w" "vs_source y = b"
      by (rule added_row)
    have src: "vs_source r = b" using that(3) r(2) w(5) by simp
    from that(4) have "vs_name r = wr_name w"
    proof
      assume "vs_name x = vs_name y"
      then show ?thesis using r(2) w(3) by simp
    next
      assume "vs_ip x = vs_ip y \<and> vs_ip x \<noteq> None"
      then obtain i where "vs_ip x = Some i" "wr_ip w = Some i" using w(4) by (metis not_None_eq)
      then show ?thesis using written_ip [OF assms(3) r(1) _ _ src w(1)] r(2) by blast
    qed
    then show False using w(2) imageI [of r "{r \<in> set rows. vs_source r = b}" vs_name] r(1) src by simp
  qed
  have "distinct (map vs_name ?new)" unfolding numbered_names using assms(3)
    by (auto simp: writes_fit_def added_def comp_def distinct_map_filter)
  then have named: "x = y" if "x \<in> set ?new" "y \<in> set ?new" "vs_name x = vs_name y" for x y using that by (auto simp: distinct_map dest: inj_onD)
  have new: "x = y" if xy: "x \<in> set ?new" "y \<in> set ?new" "vs_ip x = vs_ip y" "vs_ip x \<noteq> None" for x y
  proof -
    obtain w where w: "w \<in> set ws" "vs_name x = wr_name w" "vs_ip x = wr_ip w" using xy(1) by (rule added_row)
    obtain w' where w': "w' \<in> set ws" "vs_name y = wr_name w'" "vs_ip y = wr_ip w'" using xy(2) by (rule added_row)
    have "w = w'" using assms(3) w w' xy(3,4) unfolding writes_fit_def by metis
    then show ?thesis using named xy(1,2) w w' by simp
  qed
  show "snapshots_unique (?old @ ?new)" unfolding unique_iff [OF d]
  proof (intro ballI impI)
    fix x y assume xy: "x \<in> set (?old @ ?new)" "y \<in> set (?old @ ?new)" and same: "vs_source x = vs_source y" "vs_name x = vs_name y \<or> vs_ip x = vs_ip y \<and> vs_ip x \<noteq> None"
    have same': "vs_source y = vs_source x" "vs_name y = vs_name x \<or> vs_ip y = vs_ip x \<and> vs_ip y \<noteq> None" using same by (simp, metis)
    consider "x \<in> set ?old" "y \<in> set ?old" | "x \<in> set ?old" "y \<in> set ?new" | "x \<in> set ?new" "y \<in> set ?old" | "x \<in> set ?new" "y \<in> set ?new" using xy unfolding set_append by blast
    then show "x = y"
    proof cases
      case 1
      then show ?thesis using one_row [OF old 1 same(1)] same(2) by blast
    next
      case 2
      then show ?thesis using mixed same by blast
    next
      case 3
      then show ?thesis using mixed same' by blast
    next
      case 4
      then show ?thesis using named new same(2) by blast
    qed
  qed
qed

section \<open>The table after a write\<close>

definition stays :: "int \<Rightarrow> bool \<Rightarrow> write_record list \<Rightarrow> snapshot \<Rightarrow> bool" where
  "stays b delete_missing ws r \<longleftrightarrow> vs_source r = b \<and> delete_missing \<longrightarrow> vs_name r \<in> wr_name ` set ws"

definition table_after :: "int \<Rightarrow> string \<Rightarrow> int \<Rightarrow> bool \<Rightarrow> write_record list \<Rightarrow> snapshot_table \<Rightarrow> snapshot_table" where
  "table_after b run at delete_missing ws t = (let new = added b run at ws (vt_rows t)
     in \<lparr>vt_rows = map (written b run at ws) (filter (stays b delete_missing ws) (vt_rows t)) @ numbered (vt_next t) new,
         vt_next = vt_next t + int (length new)\<rparr>)"

lemma not_written: "\<not> (vs_source r = b \<and> vs_name r \<in> wr_name ` set ws) \<Longrightarrow> written b run at ws r = r"
proof (rule written_cases [of b run at ws r])
  fix w assume "\<not> (vs_source r = b \<and> vs_name r \<in> wr_name ` set ws)" "w \<in> set ws" "vs_source r = b" "wr_name w = vs_name r"
  then show ?thesis using imageI [of w "set ws" wr_name] by simp
qed

lemma flush_written:
  assumes valid: "table_valid t" and fit: "writes_fit (vt_rows t) b ws"
    and "ss_rows s = map (written b run at ws) (rows_of_source b t)" "ss_new s = added b run at ws (vt_rows t)"
    and kept: "set (ss_kept s) = vs_id ` {r \<in> set (rows_of_source b t). vs_name r \<in> wr_name ` set ws}"
    and gone: "set (ss_deleted s) = (if delete_missing then vs_id ` {r \<in> set (rows_of_source b t). vs_name r \<notin> wr_name ` set ws} else {})"
  shows "flush_session s t = Some (table_after b run at delete_missing ws t)"
proof -
  let ?rows = "vt_rows t"
  have u: "snapshots_unique ?rows" and d: "distinct (map vs_id ?rows)" and next_id: "\<forall>r \<in> set ?rows. vs_id r < vt_next t"
    using valid by (simp_all add: table_valid_def)
  have same: "r = r'" if "r \<in> set ?rows" "r' \<in> set ?rows" "vs_id r = vs_id r'" for r r' using that d by (auto simp: distinct_map dest: inj_onD)
  have kept_iff: "vs_id r \<in> set (ss_kept s) \<longleftrightarrow> vs_source r = b \<and> vs_name r \<in> wr_name ` set ws" if "r \<in> set ?rows" for r
    unfolding kept using same [OF that] that by (auto simp: rows_of_source_def)
  have gone_iff: "vs_id r \<in> set (ss_deleted s) \<longleftrightarrow> \<not> stays b delete_missing ws r" if "r \<in> set ?rows" for r
    unfolding gone stays_def using same [OF that] that by (auto simp: rows_of_source_def)
  define us where "us = sort_key vs_id (filter (\<lambda>r. vs_id r \<in> set (ss_kept s) \<and> vs_id r \<notin> set (ss_deleted s)) (ss_rows s))"
  have us: "set us = written b run at ws ` {r \<in> set ?rows. vs_source r = b \<and> vs_name r \<in> wr_name ` set ws}"
  proof -
    have "set us = written b run at ws ` {r \<in> set (rows_of_source b t). vs_id r \<in> set (ss_kept s) \<and> vs_id r \<notin> set (ss_deleted s)}"
      unfolding us_def assms(3) by auto
    also have "{r \<in> set (rows_of_source b t). vs_id r \<in> set (ss_kept s) \<and> vs_id r \<notin> set (ss_deleted s)}
        = {r \<in> set ?rows. vs_source r = b \<and> vs_name r \<in> wr_name ` set ws}"
      using kept_iff gone_iff by (auto simp: rows_of_source_def stays_def)
    finally show ?thesis .
  qed
  have "flush_updates us (map (\<lambda>r. if vs_id r \<in> {} then written b run at ws r else r) ?rows)
      = Some (map (\<lambda>r. if vs_id r \<in> {} \<union> vs_id ` set us then written b run at ws r else r) ?rows)"
    by (rule flush_updates_written [OF u d fit]) (unfold us, blast)
  moreover have "map (\<lambda>r. if vs_id r \<in> {} then written b run at ws r else r) ?rows = ?rows" by simp
  moreover have "map (\<lambda>r. if vs_id r \<in> {} \<union> vs_id ` set us then written b run at ws r else r) ?rows = map (written b run at ws) ?rows"
  proof (rule map_cong [OF refl])
    fix r assume r: "r \<in> set ?rows"
    have "vs_id ` set us = vs_id ` {r \<in> set ?rows. vs_source r = b \<and> vs_name r \<in> wr_name ` set ws}" unfolding us image_image by simp
    then have "vs_id r \<in> vs_id ` set us \<longleftrightarrow> vs_source r = b \<and> vs_name r \<in> wr_name ` set ws" using same [OF r] r by auto
    then show "(if vs_id r \<in> {} \<union> vs_id ` set us then written b run at ws r else r) = written b run at ws r" using not_written [of r b ws run at] by simp
  qed
  ultimately have updates: "flush_updates us ?rows = Some (map (written b run at ws) ?rows)" by (simp only:)
  let ?new = "numbered (vt_next t) (added b run at ws ?rows)"
  have inserts: "flush_inserts (ss_new s) (t\<lparr>vt_rows := map (written b run at ws) ?rows\<rparr>)
      = Some \<lparr>vt_rows = map (written b run at ws) ?rows @ ?new, vt_next = vt_next t + int (length (added b run at ws ?rows))\<rparr>"
    unfolding assms(4) using flush_inserts_numbered [of "t\<lparr>vt_rows := map (written b run at ws) ?rows\<rparr>"] added_unique(1) [OF u d fit next_id] by simp
  have "filter (\<lambda>r. vs_id r \<notin> set (ss_deleted s)) (map (written b run at ws) ?rows) = map (written b run at ws) (filter (stays b delete_missing ws) ?rows)"
    unfolding filter_map using gone_iff by (intro arg_cong [where f = "map _"] filter_cong) auto
  moreover have "filter (\<lambda>r. vs_id r \<notin> set (ss_deleted s)) ?new = ?new"
  proof (rule filter_True, rule ballI)
    fix r assume "r \<in> set ?new"
    then have "vt_next t \<le> vs_id r" using numbered_ids by blast
    moreover have "\<forall>i \<in> set (ss_deleted s). i < vt_next t" unfolding gone using next_id by (simp add: rows_of_source_def)
    ultimately show "vs_id r \<notin> set (ss_deleted s)" by force
  qed
  ultimately show ?thesis unfolding flush_session_def us_def [symmetric] updates option.case inserts
    by (simp add: table_after_def Let_def)
qed

lemma filter_unique: "snapshots_unique (xs @ ys) \<Longrightarrow> snapshots_unique (filter P xs @ ys)"
proof -
  assume u: "snapshots_unique (xs @ ys)"
  have sub: "distinct (map f (filter P zs @ vs))" if "distinct (map f (zs @ vs))" for f :: "snapshot \<Rightarrow> 'a" and zs vs
    using that by (auto simp: distinct_map_filter)
  have "filter (\<lambda>r. vs_ip r \<noteq> None) (filter P xs @ ys) = filter P (filter (\<lambda>r. vs_ip r \<noteq> None) xs) @ filter (\<lambda>r. vs_ip r \<noteq> None) ys"
    by (simp add: conj_commute del: not_None_eq)
  with u show ?thesis unfolding snapshots_unique_def by (simp only: filter_append sub simp_thms)
qed

lemma table_after_valid:
  assumes "table_valid t" "writes_fit (vt_rows t) b ws"
  shows "table_valid (table_after b run at delete_missing ws t)"
proof -
  have u: "snapshots_unique (vt_rows t)" and d: "distinct (map vs_id (vt_rows t))" and n: "\<forall>r \<in> set (vt_rows t). vs_id r < vt_next t"
    using assms(1) by (simp_all add: table_valid_def)
  let ?new = "numbered (vt_next t) (added b run at ws (vt_rows t))"
  have "stays b delete_missing ws \<circ> written b run at ws = stays b delete_missing ws" by (simp add: fun_eq_iff stays_def)
  then have f: "map (written b run at ws) (filter (stays b delete_missing ws) (vt_rows t)) = filter (stays b delete_missing ws) (map (written b run at ws) (vt_rows t))"
    by (simp only: filter_map)
  have "distinct (map vs_id (filter (stays b delete_missing ws) (map (written b run at ws) (vt_rows t)) @ ?new))"
    using added_unique(2) [OF u d assms(2) n, of run at] unfolding map_append distinct_append by (auto simp: distinct_map_filter simp del: map_map)
  moreover have "vs_id r < vt_next t + int (length (added b run at ws (vt_rows t)))" if "r \<in> set (filter (stays b delete_missing ws) (map (written b run at ws) (vt_rows t)) @ ?new)" for r
    using that n numbered_ids [of r "vt_next t"] by force
  ultimately show ?thesis using filter_unique [OF added_unique(1) [OF u d assms(2) n]]
    unfolding table_valid_def table_after_def Let_def f snapshot_table.simps by blast
qed

text \<open>C23: A machine backup sync leaves exactly what it should, whenever every record names its machine and no
  address of a selected record is stored for another machine of the source: the write succeeds and says how
  many records it selected; the row of a reported machine is updated in place and keeps its id; a machine that
  was not stored gets a new row with the next id; the rows of the machines that were not reported go if the
  missing ones are to be deleted, and stay as they were if not; the rows of other sources stay as they were;
  and the table is valid again.\<close>

theorem snapshot_write_exact:
  assumes "table_valid t"
    and "\<forall>r \<in> set records. strip (mb_machine r) \<noteq> []"
    and "\<forall>w \<in> set (build_snapshot_write_records ip_text records). \<forall>r \<in> set (vt_rows t).
      vs_source r = source \<longrightarrow> wr_ip w \<noteq> None \<longrightarrow> vs_ip r = wr_ip w \<longrightarrow> vs_name r = wr_name w"
  shows "write_machine_backup_snapshots ip_text records source run_id synced_at delete_missing t
      = Some (length (build_snapshot_write_records ip_text records),
          table_after source run_id synced_at delete_missing (build_snapshot_write_records ip_text records) t)
    \<and> table_valid (table_after source run_id synced_at delete_missing (build_snapshot_write_records ip_text records) t)"
proof -
  define ws where "ws = build_snapshot_write_records ip_text records"
  have fit: "writes_fit (vt_rows t) source ws" unfolding writes_fit_def ws_def
    using selected_names [OF assms(2)] selected_ips assms(3) by blast
  let ?s0 = "\<lparr>ss_rows = rows_of_source source t, ss_new = [], ss_deleted = [], ss_kept = []\<rparr>"
  define s where "s = fold (write_one source run_id synced_at (rows_of_source source t)) ws ?s0"
  have "snapshots_unique (vt_rows t)" "distinct (map vs_id (vt_rows t))" using assms(1) by (simp_all add: table_valid_def)
  note fw = fold_writes [OF this rows_of_source_def [of source t], where ws = ws and s = ?s0 and run = run_id and at = synced_at, folded s_def, unfolded Let_def snapshot_session.simps append_Nil set_simps Un_empty_left]
  have s: "ss_rows s = map (written source run_id synced_at ws) (rows_of_source source t) \<and> ss_new s = added source run_id synced_at ws (vt_rows t)
      \<and> ss_deleted s = [] \<and> set (ss_kept s) = vs_id ` {r \<in> set (rows_of_source source t). vs_name r \<in> wr_name ` set ws}"
  proof -
    have "map (\<lambda>r. case find (\<lambda>w. wr_name w = vs_name r) ws of None \<Rightarrow> r | Some w \<Rightarrow> apply_snapshot_write_record source run_id synced_at w r) (rows_of_source source t)
        = map (written source run_id synced_at ws) (rows_of_source source t)"
      by (rule map_cong [OF refl]) (simp add: rows_of_source_def written_def)
    moreover have "distinct (map wr_name ws)" "\<forall>w \<in> set ws. wr_name w \<noteq> []" using fit by (simp_all add: writes_fit_def)
    note fw' = fw [OF this _ refl refl]
    have "vs_name r = wr_name w" if "w \<in> set ws" "r \<in> set (rows_of_source source t)" "wr_ip w \<noteq> None" "vs_ip r = wr_ip w" for w r
      using that fit by (simp add: writes_fit_def rows_of_source_def)
    note fw' [OF this]
    ultimately show ?thesis unfolding added_def rows_of_source_def [symmetric] by (simp only: simp_thms)
  qed
  define s' where "s' = (if delete_missing then s\<lparr>ss_deleted := map vs_id (filter (\<lambda>r. vs_id r \<notin> set (ss_kept s)) (rows_of_source source t)) @ ss_deleted s\<rparr> else s)"
  have kept: "vs_id r \<in> set (ss_kept s) \<longleftrightarrow> vs_name r \<in> wr_name ` set ws" if "r \<in> set (rows_of_source source t)" for r
  proof -
    have "r' = r" if "r' \<in> set (rows_of_source source t)" "vs_id r' = vs_id r" for r'
      using that \<open>r \<in> _\<close> assms(1) by (auto simp: table_valid_def rows_of_source_def distinct_map dest: inj_onD)
    then show ?thesis using s that by auto
  qed
  have "{r \<in> set (rows_of_source source t). vs_id r \<notin> set (ss_kept s)} = {r \<in> set (rows_of_source source t). vs_name r \<notin> wr_name ` set ws}"
    using kept by blast
  then have "set (ss_deleted s') = (if delete_missing then vs_id ` {r \<in> set (rows_of_source source t). vs_name r \<notin> wr_name ` set ws} else {})"
    using s by (simp add: s'_def)
  then have "flush_session s' t = Some (table_after source run_id synced_at delete_missing ws t)"
    by (intro flush_written [OF assms(1) fit]) (use s in \<open>simp_all add: s'_def\<close>)
  then have "write_machine_backup_snapshots ip_text records source run_id synced_at delete_missing t = Some (length ws, table_after source run_id synced_at delete_missing ws t)"
    unfolding write_machine_backup_snapshots_def Let_def ws_def [symmetric] s_def [symmetric] s'_def [symmetric] by (simp only: option.map)
  then show ?thesis using table_after_valid [OF assms(1) fit] unfolding ws_def by blast
qed

section \<open>An address that another stored machine has\<close>

lemma existing_name_mem: "existing_name rows name = Some i \<Longrightarrow> \<exists>r \<in> set rows. vs_id r = i \<and> vs_name r = name"
  by (auto simp: existing_name_def find_Some_iff) (metis length_rev nth_mem set_rev)

lemma found_row:
  assumes "find_snapshot_row existing w = (Some i, j)"
  shows "\<exists>r \<in> set existing. vs_id r = i \<and> (vs_name r = wr_name w \<or> vs_ip r = wr_ip w \<and> wr_ip w \<noteq> None)"
    and "j = Some k \<Longrightarrow> \<exists>r \<in> set existing. vs_id r = k \<and> vs_ip r = wr_ip w \<and> wr_ip w \<noteq> None"
proof -
  have name: "\<exists>r \<in> set existing. vs_id r = n \<and> vs_name r = wr_name w" if "existing_name existing (wr_name w) = Some n" for n
    using existing_name_mem that by blast
  show "\<exists>r \<in> set existing. vs_id r = i \<and> (vs_name r = wr_name w \<or> vs_ip r = wr_ip w \<and> wr_ip w \<noteq> None)"
    using assms name existing_ip_row [of existing "wr_ip w"] unfolding find_snapshot_row_def by (auto split: option.splits)
  show "\<exists>r \<in> set existing. vs_id r = k \<and> vs_ip r = wr_ip w \<and> wr_ip w \<noteq> None" if "j = Some k"
    using assms that existing_ip_row [of existing "wr_ip w"] unfolding find_snapshot_row_def by (auto split: option.splits if_splits)
qed

text \<open>A row that a write does not find is left as it was.\<close>

lemma write_one_other:
  assumes "\<And>j. find_snapshot_row existing w \<noteq> (Some i, j)" "\<And>n. find_snapshot_row existing w \<noteq> (n, Some i)"
  shows "filter (\<lambda>r. vs_id r = i) (ss_rows (write_one b run at existing w s)) = filter (\<lambda>r. vs_id r = i) (ss_rows s)"
    and "i \<in> set (ss_kept (write_one b run at existing w s)) \<longleftrightarrow> i \<in> set (ss_kept s)"
    and "i \<in> set (ss_deleted (write_one b run at existing w s)) \<longleftrightarrow> i \<in> set (ss_deleted s)"
proof -
  obtain n j where f: "find_snapshot_row existing w = (n, j)" by fastforce
  have keep: "filter (\<lambda>r. vs_id r = i) (map (\<lambda>r. if vs_id r = k then g r else r) rs) = filter (\<lambda>r. vs_id r = i) rs"
    if "k \<noteq> i" "\<And>r. vs_id (g r) = vs_id r" for k g and rs :: "snapshot list"
    using that by (induction rs) auto
  have ids: "n \<noteq> Some i" "j \<noteq> Some i" using f assms by auto
  note keep = keep [of _ "\<lambda>r. r\<lparr>vs_machine_ip := None, vs_ip := None\<rparr>"] keep [of _ "apply_snapshot_write_record b run at w"]
  show "filter (\<lambda>r. vs_id r = i) (ss_rows (write_one b run at existing w s)) = filter (\<lambda>r. vs_id r = i) (ss_rows s)"
    using ids by (cases n; cases j) (simp_all add: write_one_def f Let_def keep del: map_map)
  show "i \<in> set (ss_kept (write_one b run at existing w s)) \<longleftrightarrow> i \<in> set (ss_kept s)"
    "i \<in> set (ss_deleted (write_one b run at existing w s)) \<longleftrightarrow> i \<in> set (ss_deleted s)"
    using ids by (auto simp: write_one_def f Let_def split: option.split)
qed

lemma fold_other:
  assumes "\<And>w j. w \<in> set ws \<Longrightarrow> find_snapshot_row existing w \<noteq> (Some i, j)" "\<And>w n. w \<in> set ws \<Longrightarrow> find_snapshot_row existing w \<noteq> (n, Some i)"
  shows "filter (\<lambda>r. vs_id r = i) (ss_rows (fold (write_one b run at existing) ws s)) = filter (\<lambda>r. vs_id r = i) (ss_rows s)
    \<and> (i \<in> set (ss_kept (fold (write_one b run at existing) ws s)) \<longleftrightarrow> i \<in> set (ss_kept s))
    \<and> (i \<in> set (ss_deleted (fold (write_one b run at existing) ws s)) \<longleftrightarrow> i \<in> set (ss_deleted s))"
  using assms
proof (induction ws arbitrary: s)
  case (Cons w ws)
  have "\<And>j. find_snapshot_row existing w \<noteq> (Some i, j)" "\<And>n. find_snapshot_row existing w \<noteq> (n, Some i)" using Cons.prems by simp_all
  note head = write_one_other [OF this, of b run at s]
  have "\<And>v j. v \<in> set ws \<Longrightarrow> find_snapshot_row existing v \<noteq> (Some i, j)" "\<And>v n. v \<in> set ws \<Longrightarrow> find_snapshot_row existing v \<noteq> (n, Some i)"
    using Cons.prems by simp_all
  note tail = Cons.IH [OF this, of "write_one b run at existing w s"]
  show ?case unfolding fold_Cons comp_apply using tail unfolding head .
qed simp

text \<open>A row that no write finds as the row to write to is not among those that were written.\<close>

lemma fold_not_kept:
  assumes "\<And>w j. w \<in> set ws \<Longrightarrow> find_snapshot_row existing w \<noteq> (Some i, j)" "i \<notin> set (ss_kept s)"
  shows "i \<notin> set (ss_kept (fold (write_one b run at existing) ws s))"
  using assms
proof (induction ws arbitrary: s)
  case (Cons w ws)
  obtain n j where f: "find_snapshot_row existing w = (n, j)" by fastforce
  then have "n \<noteq> Some i" using Cons.prems(1) [of w] by auto
  then have "i \<notin> set (ss_kept (write_one b run at existing w s))" using Cons.prems(2) by (auto simp: write_one_def f Let_def split: option.split)
  then show ?case using Cons.IH Cons.prems(1) by simp
qed simp

lemma fold_ids: "map vs_id (ss_rows (fold (write_one b run at existing) ws s)) = map vs_id (ss_rows s)"
proof (induction ws arbitrary: s)
  case (Cons w ws)
  have "map vs_id (ss_rows (write_one b run at existing w s)) = map vs_id (ss_rows s)"
    by (auto simp: write_one_def Let_def split: prod.split option.split)
  then show ?case using Cons.IH by simp
qed simp

lemma written_row:
  assumes "find_snapshot_row existing w = (Some i, j)" "x \<in> set (ss_rows s)" "vs_id x = i"
  shows "\<exists>u \<in> set (ss_rows (write_one b run at existing w s)). vs_id u = i \<and> vs_source u = b \<and> vs_ip u = wr_ip w"
proof -
  define rows where "rows = (case j of None \<Rightarrow> ss_rows s | Some k \<Rightarrow> map (\<lambda>r. if vs_id r = k then r\<lparr>vs_machine_ip := None, vs_ip := None\<rparr> else r) (ss_rows s))"
  obtain y where y: "y \<in> set rows" "vs_id y = i"
  proof (cases j)
    case None
    then show ?thesis using that assms(2,3) by (simp add: rows_def)
  next
    case (Some k)
    then show ?thesis using that [of "if vs_id x = k then x\<lparr>vs_machine_ip := None, vs_ip := None\<rparr> else x"] assms(2,3) by (auto simp: rows_def)
  qed
  have "ss_rows (write_one b run at existing w s) = map (\<lambda>r. if vs_id r = i then apply_snapshot_write_record b run at w r else r) rows"
    by (cases j) (simp_all add: write_one_def assms(1) Let_def rows_def)
  then show ?thesis using imageI [OF y(1), of "\<lambda>r. if vs_id r = i then apply_snapshot_write_record b run at w r else r"] y(2)
    by (intro bexI [of _ "apply_snapshot_write_record b run at w y"]) simp_all
qed

text \<open>The flush of a row with the address of another row that it leaves as it is.\<close>

lemma flush_taken:
  assumes "u \<in> set us" "vs_source u = vs_source r" "vs_ip u = vs_ip r" "vs_ip r \<noteq> None" "vs_id r \<notin> vs_id ` set us" "r \<in> set rows" "vs_id u \<in> vs_id ` set rows"
  shows "flush_updates us rows = None"
  using assms
proof (induction us arbitrary: rows)
  case (Cons v us)
  let ?rows = "map (\<lambda>x. if vs_id x = vs_id v then v else x) rows"
  have stays: "r \<in> set ?rows" using Cons.prems(5,6) by force
  have "map vs_id ?rows = map vs_id rows" unfolding map_map by (rule map_cong) simp_all
  then have ids: "vs_id ` set ?rows = vs_id ` set rows" by (metis set_map)
  show ?case
  proof (cases "u \<in> set us")
    case True
    then have "flush_updates us ?rows = None" using Cons.IH [of ?rows] Cons.prems stays ids by simp
    then show ?thesis by (simp add: Let_def)
  next
    case False
    then have u: "u = v" using Cons.prems(1) by simp
    have v: "v \<in> set ?rows" using Cons.prems(7) unfolding u by force
    have "\<not> snapshots_unique ?rows"
    proof
      assume "snapshots_unique ?rows"
      from one_row(2) [OF this v stays] have "v = r" using Cons.prems(2-4) u by simp
      then show False using Cons.prems(5) by simp
    qed
    then show ?thesis by (simp add: Let_def)
  qed
qed simp

text \<open>The writes that find the row of the machine and the row that has its new address.\<close>

lemma taken_rows:
  assumes "table_valid t" "\<forall>v \<in> set ws. wr_name v \<noteq> []" "distinct (map wr_name ws)"
    and same_ip: "\<forall>v \<in> set ws. \<forall>v' \<in> set ws. wr_ip v = wr_ip v' \<longrightarrow> wr_ip v \<noteq> None \<longrightarrow> v = v'"
    and w: "w \<in> set ws" "wr_ip w \<noteq> None"
    and r1: "r1 \<in> set (vt_rows t)" "vs_source r1 = source" "vs_name r1 = wr_name w"
    and r2: "r2 \<in> set (vt_rows t)" "vs_source r2 = source" "vs_ip r2 = wr_ip w" "vs_name r2 \<notin> wr_name ` set ws"
    and free: "\<forall>v \<in> set ws. wr_ip v \<noteq> None \<longrightarrow> wr_ip v \<noteq> vs_ip r1"
  shows "fst (find_snapshot_row (rows_of_source source t) w) = Some (vs_id r1)"
    and "v \<in> set ws \<Longrightarrow> find_snapshot_row (rows_of_source source t) v \<noteq> (Some (vs_id r2), j)"
    and "v \<in> set ws \<Longrightarrow> v \<noteq> w \<Longrightarrow> find_snapshot_row (rows_of_source source t) v \<noteq> (Some (vs_id r1), j)"
    and "v \<in> set ws \<Longrightarrow> find_snapshot_row (rows_of_source source t) v \<noteq> (n, Some (vs_id r1))"
proof -
  let ?existing = "rows_of_source source t"
  have u: "snapshots_unique (vt_rows t)" and d: "distinct (map vs_id (vt_rows t))" using assms(1) by (simp_all add: table_valid_def)
  have row: "r = r'" if "r \<in> set ?existing" "r' \<in> set (vt_rows t)" "vs_id r = vs_id r'" for r r'
    using that d by (auto simp: rows_of_source_def distinct_map dest: inj_onD)
  have other: "vs_name r2 \<noteq> wr_name v" if "v \<in> set ws" for v using r2(4) imageI [OF that, of wr_name] by metis
  have "existing_name ?existing (wr_name w) = Some (vs_id r1)"
    unfolding rows_of_source_def using existing_name_row [OF u r1(1,2) _ r1(3)] assms(2) w(1) by blast
  then show fw: "fst (find_snapshot_row ?existing w) = Some (vs_id r1)" by (simp add: find_snapshot_row_def split: option.split)
  have r12: "vs_id r1 \<noteq> vs_id r2" using row [of r1 r2] r1 r2(1) other [OF w(1)] by (auto simp: rows_of_source_def)
  show "find_snapshot_row ?existing v \<noteq> (Some (vs_id r2), j)" if v: "v \<in> set ws"
  proof
    assume f: "find_snapshot_row ?existing v = (Some (vs_id r2), j)"
    from found_row(1) [OF f] obtain r where r: "r \<in> set ?existing" "vs_id r = vs_id r2" "vs_name r = wr_name v \<or> vs_ip r = wr_ip v \<and> wr_ip v \<noteq> None" by blast
    have "r = r2" by (rule row [OF r(1) r2(1) r(2)])
    then have "wr_ip w = wr_ip v" using r(3) other [OF v] r2(3) by simp
    then have "v = w" using same_ip w v by blast
    then show False using fw f r12 by simp
  qed
  show "find_snapshot_row ?existing v \<noteq> (Some (vs_id r1), j)" if v: "v \<in> set ws" "v \<noteq> w"
  proof
    assume "find_snapshot_row ?existing v = (Some (vs_id r1), j)"
    from found_row(1) [OF this] obtain r where r: "r \<in> set ?existing" "vs_id r = vs_id r1" "vs_name r = wr_name v \<or> vs_ip r = wr_ip v \<and> wr_ip v \<noteq> None" by blast
    have "r = r1" by (rule row [OF r(1) r1(1) r(2)])
    then have "wr_name w = wr_name v" using r(3) free v(1) r1(3) by auto
    then have "v = w" using assms(3) v(1) w(1) by (auto simp: distinct_map dest: inj_onD)
    then show False using v(2) by simp
  qed
  show "find_snapshot_row ?existing v \<noteq> (n, Some (vs_id r1))" if v: "v \<in> set ws"
  proof
    assume f: "find_snapshot_row ?existing v = (n, Some (vs_id r1))"
    then obtain i where "n = Some i" by (cases n) (auto simp: find_snapshot_row_def split: option.splits)
    from found_row(2) [OF f [unfolded this] refl] obtain r where r: "r \<in> set ?existing" "vs_id r = vs_id r1" "vs_ip r = wr_ip v" "wr_ip v \<noteq> None" by blast
    have "r = r1" by (rule row [OF r(1) r1(1) r(2)])
    then show False using r(3,4) free v by metis
  qed
qed

text \<open>C24: A machine that is already stored and is now reported with the address under which another
  machine of the source is stored makes the write fail, whether or not missing rows are to be deleted,
  when that other machine is not reported any more and no reported machine has the address the first
  one is stored with: the row of the other machine is marked as deleted, but the changed row is written
  before the deletion and breaks the unique address. The table stays as it was, so that the next sync
  fails as well. (A machine that is not stored yet is found by the address, takes the row over and
  does not fail; \<open>snapshot_write_exact\<close> says what the write does then.)\<close>

theorem taken_address_fails:
  assumes "table_valid t" "\<forall>r \<in> set records. strip (mb_machine r) \<noteq> []"
    and "w \<in> set (build_snapshot_write_records ip_text records)" "wr_ip w \<noteq> None"
    and "r1 \<in> set (vt_rows t)" "vs_source r1 = source" "vs_name r1 = wr_name w"
    and "r2 \<in> set (vt_rows t)" "vs_source r2 = source" "vs_ip r2 = wr_ip w" "vs_name r2 \<notin> wr_name ` set (build_snapshot_write_records ip_text records)"
    and "\<forall>v \<in> set (build_snapshot_write_records ip_text records). wr_ip v \<noteq> None \<longrightarrow> wr_ip v \<noteq> vs_ip r1"
  shows "write_machine_backup_snapshots ip_text records source run_id synced_at delete_missing t = None"
proof -
  define ws where "ws = build_snapshot_write_records ip_text records"
  let ?existing = "rows_of_source source t" and ?step = "write_one source run_id synced_at (rows_of_source source t)"
  note ws = selected_names [OF assms(2), of ip_text, folded ws_def]
  have ips: "\<forall>v \<in> set ws. \<forall>v' \<in> set ws. wr_ip v = wr_ip v' \<longrightarrow> wr_ip v \<noteq> None \<longrightarrow> v = v'"
    using selected_ips unfolding ws_def by blast
  note a = assms(3,11,12) [folded ws_def]
  note rows = taken_rows [OF assms(1) ws ips a(1) assms(4-10) a(2,3)]
  obtain j where f: "find_snapshot_row ?existing w = (Some (vs_id r1), j)" using rows(1) by (metis prod.collapse)
  obtain pre post where parts: "ws = pre @ w # post" using a(1) by (auto dest: split_list)
  have post: "v \<noteq> w" if "v \<in> set post" for v using ws(2) that unfolding parts by auto
  have sub: "v \<in> set ws" if "v \<in> set post" for v using that unfolding parts by simp
  let ?s0 = "\<lparr>ss_rows = ?existing, ss_new = [], ss_deleted = [], ss_kept = []\<rparr>"
  let ?s1 = "fold ?step pre ?s0"
  let ?s2 = "?step w ?s1" and ?s = "fold ?step ws ?s0"
  have s: "?s = fold ?step post ?s2" unfolding parts by simp
  have "vs_id ` set (ss_rows ?s1) = vs_id ` set ?existing"
    unfolding set_map [symmetric] fold_ids snapshot_session.simps ..
  moreover have "r1 \<in> set ?existing" using assms(5,6) by (simp add: rows_of_source_def)
  ultimately have "vs_id r1 \<in> vs_id ` set (ss_rows ?s1)" by blast
  then obtain x where x: "x \<in> set (ss_rows ?s1)" "vs_id x = vs_id r1" by auto
  obtain u where u2: "u \<in> set (filter (\<lambda>r. vs_id r = vs_id r1) (ss_rows ?s2))" "vs_source u = source" "vs_ip u = wr_ip w" using written_row [OF f x, where b = source and run = run_id and at = synced_at] by auto
  have marks: "vs_id r1 \<in> set (ss_kept ?s2)" "vs_id r1 \<notin> set (ss_deleted ?s2)" by (simp_all add: write_one_def f Let_def split: option.split)
  have o: "filter (\<lambda>r. vs_id r = vs_id r1) (ss_rows ?s) = filter (\<lambda>r. vs_id r = vs_id r1) (ss_rows ?s2)
      \<and> (vs_id r1 \<in> set (ss_kept ?s) \<longleftrightarrow> vs_id r1 \<in> set (ss_kept ?s2)) \<and> (vs_id r1 \<in> set (ss_deleted ?s) \<longleftrightarrow> vs_id r1 \<in> set (ss_deleted ?s2))"
    unfolding s by (rule fold_other [OF rows(3) [OF sub post] rows(4) [OF sub]])
  have "u \<in> set (filter (\<lambda>r. vs_id r = vs_id r1) (ss_rows ?s))" using u2(1) unfolding conjunct1 [OF o] .
  then have u3: "u \<in> set (ss_rows ?s)" "vs_id u = vs_id r1" by auto
  have kept2: "vs_id r2 \<notin> set (ss_kept ?s)" by (rule fold_not_kept [OF rows(2)]) simp_all
  define s' where "s' = (if delete_missing then ?s\<lparr>ss_deleted := map vs_id (filter (\<lambda>r. vs_id r \<notin> set (ss_kept ?s)) ?existing) @ ss_deleted ?s\<rparr> else ?s)"
  have k1: "vs_id r1 \<in> set (ss_kept ?s)" and d1: "vs_id r1 \<notin> set (ss_deleted ?s)" using o marks by blast+
  have s': "u \<in> set (ss_rows s')" "vs_id r1 \<in> set (ss_kept s')" "vs_id r1 \<notin> set (ss_deleted s')" "vs_id r2 \<notin> set (ss_kept s')"
    using u3(1) k1 d1 kept2 unfolding s'_def by (cases delete_missing; auto)+
  let ?us = "sort_key vs_id (filter (\<lambda>r. vs_id r \<in> set (ss_kept s') \<and> vs_id r \<notin> set (ss_deleted s')) (ss_rows s'))"
  have "flush_updates ?us (vt_rows t) = None"
  proof (rule flush_taken [of u _ r2])
    show "u \<in> set ?us" using s' u3(2) by simp
    show "vs_id r2 \<notin> vs_id ` set ?us" using s'(4) by auto
    show "vs_id u \<in> vs_id ` set (vt_rows t)" unfolding u3(2) using assms(5) by simp
  qed (use u2 assms(4,8-10) in simp_all)
  then have "flush_session s' t = None" by (simp add: flush_session_def)
  then show ?thesis unfolding write_machine_backup_snapshots_def Let_def ws_def [symmetric] s'_def [symmetric] by (simp only: option.map)
qed

section \<open>Examples\<close>

definition example_backup :: "string \<Rightarrow> string option \<Rightarrow> int \<Rightarrow> machine_backup" where
  "example_backup machine ip at = \<lparr>mb_machine = machine, mb_at = at, mb_ip = ip, mb_backup = None, mb_file = None, mb_job = None, mb_point_name = None,
     mb_source_id = None, mb_point_size = None, mb_chain_size = None, mb_point_count = None, mb_payload = []\<rparr>"

definition example_table :: snapshot_table where
  "example_table = \<lparr>vt_rows = [example_snapshot 1 ''a'' (Some ''10.0.0.1''), example_snapshot 2 ''b'' (Some ''10.0.0.2'')], vt_next = 3\<rparr>"

definition example_ip :: "string \<Rightarrow> string option" where
  "example_ip s = (if list_all (\<lambda>c. c \<in> set ''0123456789.'') s then Some s else None)"

lemma snapshot_write_exact_witness:
  "\<exists>t'. write_machine_backup_snapshots example_ip [example_backup ''A'' (Some ''10.0.0.9'') 7, example_backup ''c'' None 8, example_backup ''a'' None 6] 1 ''run'' 9 True example_table
      = Some (2, t') \<and> table_valid t' \<and> map (\<lambda>r. (vs_id r, vs_name r, vs_ip r)) (vt_rows t') = [(1, ''a'', Some ''10.0.0.9''), (3, ''c'', None)]"
proof -
  let ?records = "[example_backup ''A'' (Some ''10.0.0.9'') 7, example_backup ''c'' None 8, example_backup ''a'' None 6]"
  let ?t = "table_after 1 ''run'' 9 True (build_snapshot_write_records example_ip ?records) example_table"
  have "table_valid example_table" by code_simp
  moreover have "\<forall>r \<in> set ?records. strip (mb_machine r) \<noteq> []" by code_simp
  moreover have "\<forall>w \<in> set (build_snapshot_write_records example_ip ?records). \<forall>r \<in> set (vt_rows example_table). vs_source r = 1 \<longrightarrow> wr_ip w \<noteq> None \<longrightarrow> vs_ip r = wr_ip w \<longrightarrow> vs_name r = wr_name w"
    by code_simp
  ultimately have "write_machine_backup_snapshots example_ip ?records 1 ''run'' 9 True example_table = Some (length (build_snapshot_write_records example_ip ?records), ?t) \<and> table_valid ?t"
    by (rule snapshot_write_exact)
  moreover have "length (build_snapshot_write_records example_ip ?records) = 2" by code_simp
  moreover have "map (\<lambda>r. (vs_id r, vs_name r, vs_ip r)) (vt_rows ?t) = [(1, ''a'', Some ''10.0.0.9''), (3, ''c'', None)]" by code_simp
  ultimately show ?thesis by (intro exI [of _ ?t]) simp
qed

lemma taken_address_fails_witness:
  "write_machine_backup_snapshots example_ip [example_backup ''a'' (Some ''10.0.0.2'') 7] 1 ''run'' 9 True example_table = None"
  by (rule taken_address_fails [of _ _ "\<lparr>wr_record = example_backup ''a'' (Some ''10.0.0.2'') 7, wr_name = ''a'', wr_ip = Some ''10.0.0.2''\<rparr>" _
    "example_snapshot 1 ''a'' (Some ''10.0.0.1'')" _ "example_snapshot 2 ''b'' (Some ''10.0.0.2'')"]) code_simp+

end
