(* ===== verification/Veeam_Counts.thy ===== *)
theory Veeam_Counts
  imports Veeam_Provider
begin

text \<open>
  What the collections of restore points and of files say of the objects they were asked for.
\<close>

lemma append_sample_length: "length (append_sample v sample) = (if length sample < SAMPLE_LIMIT then length sample + 1 else length sample)"
  by (simp add: append_sample_def)

lemma map_filter_le: "length (List.map_filter f xs) \<le> length xs"
  by (simp add: map_filter_def)

lemma take_points_counts:
  "mc_completed (take_points T m items c) = mc_completed c + 1" "mc_timed_out (take_points T m items c) = mc_timed_out c"
  "mc_failed (take_points T m items c) = mc_failed c"
  "mc_received c = length (mc_records c) + mc_skipped c \<Longrightarrow>
    mc_received (take_points T m items c) = length (mc_records (take_points T m items c)) + mc_skipped (take_points T m items c)"
  using map_filter_le [of "\<lambda>item. normalize_backup_record T item (mo_item m) (mo_machine m)" items] by (simp_all add: take_points_def Let_def)

text \<open>The cases of a turn of either loop.\<close>

lemma collected_cases:
  assumes "collect_paginated_items env n url = Some (n', r)"
  obtains u reason elapsed where "r = Inl (Request_timeout u reason elapsed)" | t where "r = Inl (Fetch_failed t)" | items where "r = Inr items"
  by (cases r; cases "projl r") auto

lemma fetch_points_counts:
  assumes "fetch_points env base_url n ms c = Some (n', c')" "mc_received c = length (mc_records c) + mc_skipped c"
  shows "mc_completed c' + dx_count (mc_timed_out c') + dx_count (mc_failed c')
      = mc_completed c + dx_count (mc_timed_out c) + dx_count (mc_failed c) + length ms
    \<and> mc_received c' = length (mc_records c') + mc_skipped c' \<and> mc_objects c' = mc_objects c"
  using assms
proof (induction ms arbitrary: n c)
  case (Cons m ms)
  let ?url = "restore_points_url base_url (mo_id m)"
  from Cons.prems(1) obtain n1 r where r: "collect_paginated_items env n ?url = Some (n1, r)" by (auto split: option.splits)
  from r show ?case
  proof (cases rule: collected_cases)
    case (1 u reason elapsed)
    then show ?thesis using Cons.prems r by (auto dest!: Cons.IH simp: append_timeout_diagnostics_def skip_object_def)
  next
    case (2 t)
    then show ?thesis using Cons.prems r by (auto dest!: Cons.IH simp: skip_object_def)
  next
    case (3 items)
    from 3 have "fetch_points env base_url n1 ms (take_points (ve_texts env) m items c) = Some (n', c')" using Cons.prems(1) r by simp
    from Cons.IH [OF this take_points_counts(4) [OF Cons.prems(2)]] show ?thesis by (simp add: take_points_counts) (simp add: take_points_def Let_def)
  qed
qed simp

text \<open>Every machine of which restore points are asked for is counted once, as read, as timed out or as failed,
  and every restore point that was received is recorded or skipped.\<close>

theorem restore_points_accounted:
  assumes "fetch_restore_point_records env base_url n ms = Some (n', c)"
  shows "mc_completed c + dx_count (mc_timed_out c) + dx_count (mc_failed c) = length ms \<and> mc_objects c = length ms
    \<and> mc_received c = length (mc_records c) + mc_skipped c"
  using fetch_points_counts [OF assms [unfolded fetch_restore_point_records_def]] by (simp add: no_diagnostics_def)

lemma fetch_files_counts:
  assumes "fetch_files env base_url n ids c = Some (n', c')"
    and "\<exists>timed failed. fc_completed c + timed + failed + length ids = fc_total c \<and> length (dx_ids (fc_timed_out c)) = min SAMPLE_LIMIT timed
      \<and> length (dx_ids (fc_failed c)) = min SAMPLE_LIMIT failed"
  shows "\<exists>timed failed. fc_completed c' + timed + failed = fc_total c' \<and> timed_out_backup_ids_total c' = min SAMPLE_LIMIT timed
      \<and> failed_backup_ids_total c' = min SAMPLE_LIMIT failed"
  using assms
proof (induction ids arbitrary: n c)
  case Nil
  then show ?case by (simp add: timed_out_backup_ids_total_def failed_backup_ids_total_def)
next
  case (Cons i ids)
  let ?url = "backup_files_url base_url i"
  from Cons.prems(1) obtain n1 r where r: "collect_paginated_items env n ?url = Some (n1, r)" by (auto simp: Let_def split: option.splits)
  from Cons.prems(2) obtain timed failed where tf: "fc_completed c + timed + failed + length (i # ids) = fc_total c"
    "length (dx_ids (fc_timed_out c)) = min SAMPLE_LIMIT timed" "length (dx_ids (fc_failed c)) = min SAMPLE_LIMIT failed" by blast
  from r show ?case
  proof (cases rule: collected_cases)
    case (1 u reason elapsed)
    then have "fetch_files env base_url n1 ids (c\<lparr>fc_timed_out := append_timeout_diagnostics u reason elapsed
        (fc_timed_out c\<lparr>dx_ids := append_sample i (dx_ids (fc_timed_out c))\<rparr>)\<rparr>) = Some (n', c')" using Cons.prems(1) r by (simp add: Let_def)
    then show ?thesis
      by (rule Cons.IH) (use tf in \<open>intro exI [of _ "timed + 1"] exI [of _ failed], simp add: append_timeout_diagnostics_def append_sample_length min_def\<close>)
  next
    case (2 t)
    then have "fetch_files env base_url n1 ids (c\<lparr>fc_failed := fc_failed c\<lparr>dx_ids := append_sample i (dx_ids (fc_failed c)),
        dx_urls := append_sample ?url (dx_urls (fc_failed c))\<rparr>\<rparr>) = Some (n', c')" using Cons.prems(1) r by (simp add: Let_def)
    then show ?thesis
      by (rule Cons.IH) (use tf in \<open>intro exI [of _ timed] exI [of _ "failed + 1"], simp add: append_sample_length min_def\<close>)
  next
    case (3 items)
    then have "fetch_files env base_url n1 ids (c\<lparr>fc_received := fc_received c + length items, fc_completed := fc_completed c + 1,
        fc_records := fc_records c @ List.map_filter (\<lambda>item. normalize_backup_file_record (ve_texts env) item i) items\<rparr>) = Some (n', c')"
      using Cons.prems(1) r by (simp add: Let_def)
    then show ?thesis by (rule Cons.IH) (use tf in \<open>intro exI [of _ timed] exI [of _ failed], simp\<close>)
  qed
qed

text \<open>Of the backups whose files are asked for, those that timed out or failed are reported as twenty at most:
  the totals are the lengths of the samples, so that they add up to the number of backups only while the
  samples are not full.\<close>

theorem backup_file_totals_capped:
  assumes "fetch_backup_file_records env base_url n backup_ids = Some (n', c)"
  shows "\<exists>timed failed. fc_completed c + timed + failed = length (collect_unique_strings (map Some backup_ids))
    \<and> timed_out_backup_ids_total c = min 20 timed \<and> failed_backup_ids_total c = min 20 failed"
proof -
  have total: "fc_total c' = fc_total c" if "fetch_files env base_url n ids c = Some (n', c')" for ids n c n' c'
    using that by (induction ids arbitrary: n c) (auto simp: Let_def split: option.splits sum.splits veeam_error.splits prod.splits)
  have "\<exists>timed failed. fc_completed c + timed + failed = fc_total c \<and> timed_out_backup_ids_total c = min SAMPLE_LIMIT timed
      \<and> failed_backup_ids_total c = min SAMPLE_LIMIT failed"
    by (rule fetch_files_counts [OF assms [unfolded fetch_backup_file_records_def Let_def]]) (simp add: no_diagnostics_def)
  then show ?thesis using total [OF assms [unfolded fetch_backup_file_records_def Let_def]] by (simp add: SAMPLE_LIMIT_def)
qed

text \<open>A server that answers with nothing but for one of two machines, and one that never answers.\<close>

definition example_veeam :: "(string \<Rightarrow> veeam_answer) \<Rightarrow> veeam_env" where
  "example_veeam get = \<lparr>ve_texts = \<lparr>vt_ip = Some, vt_to_utc = (\<lambda>_. None), vt_iso = (\<lambda>_. []), vt_container = (\<lambda>_. [])\<rparr>, ve_get = (\<lambda>_. get),
     ve_token = (\<lambda>_ _. Answer (PDict [])), ve_requery = (\<lambda>u _. u), ve_timeout = 5, ve_token_timeout = 5, ve_token_attempts = 1, ve_limit = 100\<rparr>"

definition one_missing :: veeam_env where
  "one_missing = example_veeam (\<lambda>url. if suffix ''/b/restorePoints'' url then No_answer None 5 else Answer (PList []))"

definition none_answers :: veeam_env where
  "none_answers = example_veeam (\<lambda>_. No_answer None 5)"

lemma restore_points_accounted_witness:
  "\<exists>n c. fetch_restore_point_records one_missing ''h'' 0 [\<lparr>mo_id = ''a'', mo_machine = None, mo_item = []\<rparr>, \<lparr>mo_id = ''b'', mo_machine = Some ''m'', mo_item = []\<rparr>] = Some (n, c)
    \<and> mc_completed c = 1 \<and> dx_count (mc_timed_out c) = 1 \<and> dx_count (mc_failed c) = 0"
proof -
  let ?r = "fetch_restore_point_records one_missing ''h'' 0 [\<lparr>mo_id = ''a'', mo_machine = None, mo_item = []\<rparr>, \<lparr>mo_id = ''b'', mo_machine = Some ''m'', mo_item = []\<rparr>]"
  have "case ?r of None \<Rightarrow> False | Some (n, c) \<Rightarrow> mc_completed c = 1 \<and> dx_count (mc_timed_out c) = 1" by code_simp
  then obtain n c where c: "?r = Some (n, c)" "mc_completed c = 1" "dx_count (mc_timed_out c) = 1" by (auto split: option.splits)
  then show ?thesis using restore_points_accounted [OF c(1)] by (intro exI [of _ n] exI [of _ c]) simp
qed

lemma none_answers_collect: "url \<noteq> [] \<Longrightarrow> collect_paginated_items none_answers n url = Some (n + 2, Inl (Request_timeout url None 5))"
  by (simp add: collect_paginated_items_def page_loop.simps page_turn_def request_json_def none_answers_def example_veeam_def)

lemma none_answers_fetch:
  "\<exists>c'. fetch_files none_answers ''h'' n ids c = Some (n + 2 * length ids, c') \<and> fc_completed c' = fc_completed c \<and> fc_failed c' = fc_failed c"
proof (induction ids arbitrary: n c)
  case (Cons i ids)
  have "backup_files_url ''h'' i \<noteq> []" by (simp add: backup_files_url_def)
  from none_answers_collect [OF this] show ?case
    using Cons.IH [of "n + 2" "c\<lparr>fc_timed_out := append_timeout_diagnostics (backup_files_url ''h'' i) None 5 (fc_timed_out c\<lparr>dx_ids := append_sample i (dx_ids (fc_timed_out c))\<rparr>)\<rparr>"]
    by (simp add: Let_def)
qed simp

lemma backup_file_totals_capped_witness:
  "\<exists>n c. fetch_backup_file_records none_answers ''h'' 0 (map (\<lambda>k. replicate k CHR ''b'') [1..<22]) = Some (n, c)
    \<and> fc_completed c = 0 \<and> timed_out_backup_ids_total c = 20 \<and> failed_backup_ids_total c = 0"
proof -
  let ?ids = "map (\<lambda>k. replicate k CHR ''b'') [1..<22]"
  obtain n c where c: "fetch_backup_file_records none_answers ''h'' 0 ?ids = Some (n, c)" "fc_completed c = 0" "fc_failed c = no_diagnostics"
    using none_answers_fetch [of 0 "collect_unique_strings (map Some ?ids)" "\<lparr>fc_records = [], fc_received = 0,
      fc_total = length (collect_unique_strings (map Some ?ids)), fc_completed = 0, fc_timed_out = no_diagnostics, fc_failed = no_diagnostics\<rparr>"]
    by (auto simp: fetch_backup_file_records_def Let_def)
  have "length (collect_unique_strings (map Some ?ids)) = 21" by code_simp
  then obtain timed failed where "timed + failed = 21" "timed_out_backup_ids_total c = min 20 timed" "failed_backup_ids_total c = min 20 failed"
    using backup_file_totals_capped [OF c(1)] c(2) by auto
  moreover have "failed_backup_ids_total c = 0" using c(3) by (simp add: failed_backup_ids_total_def no_diagnostics_def)
  ultimately show ?thesis using c(1,2) by (intro exI [of _ n] exI [of _ c]) auto
qed

end
