(* ===== verification/Veeam_Sync.thy ===== *)
theory Veeam_Sync
  imports Veeam_Snapshots Task_Runs Credentials
begin

text \<open>
  The sync of the backups: \<^verbatim>\<open>app/services/veeam/sync_actions_service.py\<close>, \<^verbatim>\<open>run_summary_writer.py\<close>, the
  summary of \<^verbatim>\<open>task_run_summary_builders.py\<close> and the task \<^verbatim>\<open>sync_veeam_backups\<close>. Every enabled source has
  five items, its stages. What a session has changed and what is committed are kept apart, since an
  exception in the handler of an exception leaves changes that the next commit writes.
\<close>

record veeam_store =
  vz_bindings :: "veeam_binding list"
  vz_credentials :: "credential list"
  vz_instances :: "(string \<times> string option) list"
  vz_snapshots :: snapshot_table
  vz_runs :: run_db

record veeam_work =
  vw_committed :: veeam_store
  vw_session :: veeam_store

datatype veeam_sync_error = Vs_invalid string | Vs_provider string | Vs_all_timed_out nat "string option" "string option"
  | Vs_integrity | Vs_run run_error | Vs_summary

text \<open>\<^verbatim>\<open>vx_server\<close> is the server of a source, \<^verbatim>\<open>vx_library_text\<close> is \<^verbatim>\<open>str\<close> of an exception that a library
  or the service of the runs raises.\<close>

record veeam_sync_env =
  vx_model :: summary_model
  vx_server :: "veeam_binding \<Rightarrow> credential \<Rightarrow> veeam_env"
  vx_texts :: veeam_texts
  vx_configured :: bool
  vx_now :: int
  vx_fresh :: string
  vx_library_text :: "veeam_sync_error \<Rightarrow> string"

definition commit :: "veeam_work \<Rightarrow> veeam_work" where
  "commit w = w\<lparr>vw_committed := vw_session w\<rparr>"

definition rollback :: "veeam_work \<Rightarrow> veeam_work" where
  "rollback w = w\<lparr>vw_session := vw_committed w\<rparr>"

definition session_runs :: "veeam_work \<Rightarrow> run_db" where
  "session_runs w = vz_runs (vw_session w)"

definition set_runs :: "run_db \<Rightarrow> veeam_work \<Rightarrow> veeam_work" where
  "set_runs db w = w\<lparr>vw_session := (vw_session w)\<lparr>vz_runs := db\<rparr>\<rparr>"

definition ALL_TIMED_OUT :: string where
  "ALL_TIMED_OUT = ''Veeam restorePoints '' @ utf8 [0xE5, 0x85, 0xA8, 0xE9, 0x83, 0xA8, 0xE8, 0xAF, 0xB7, 0xE6, 0xB1, 0x82, 0xE8, 0xB6, 0x85, 0xE6, 0x97, 0xB6, 0xEF, 0xBC, 0x8C, 0xE6, 0x9C, 0xAA, 0xE8, 0x8E, 0xB7, 0xE5, 0x8F, 0x96, 0xE5, 0x88, 0xB0, 0xE4, 0xBB, 0xBB, 0xE4, 0xBD, 0x95, 0xE6, 0x81, 0xA2, 0xE5, 0xA4, 0x8D, 0xE7, 0x82, 0xB9]"

definition sync_error_text :: "veeam_sync_env \<Rightarrow> veeam_sync_error \<Rightarrow> string" where
  "sync_error_text env e = (case e of Vs_invalid text \<Rightarrow> text | Vs_provider text \<Rightarrow> text | Vs_all_timed_out _ _ _ \<Rightarrow> ALL_TIMED_OUT
     | _ \<Rightarrow> vx_library_text env e)"

section \<open>Stages\<close>

definition FETCH_BACKUP_OBJECTS :: string where "FETCH_BACKUP_OBJECTS = ''fetch_backup_objects''"
definition MATCH_BACKUP_OBJECTS :: string where "MATCH_BACKUP_OBJECTS = ''match_backup_objects''"
definition FETCH_RESTORE_POINTS :: string where "FETCH_RESTORE_POINTS = ''fetch_restore_points''"
definition FETCH_BACKUP_FILES :: string where "FETCH_BACKUP_FILES = ''fetch_backup_files''"
definition WRITE_SNAPSHOTS :: string where "WRITE_SNAPSHOTS = ''write_snapshots''"

definition SYNC_STAGE_ITEMS :: "(string \<times> string) list" where
  "SYNC_STAGE_ITEMS = [(FETCH_BACKUP_OBJECTS, utf8 [0xE8, 0x8E, 0xB7, 0xE5, 0x8F, 0x96] @ '' backupObjects''), (MATCH_BACKUP_OBJECTS, utf8 [0xE5, 0x8C, 0xB9, 0xE9, 0x85, 0x8D, 0xE7, 0x9B, 0xAE, 0xE6, 0xA0, 0x87, 0xE5, 0xA4, 0x87, 0xE4, 0xBB, 0xBD, 0xE5, 0xAF, 0xB9, 0xE8, 0xB1, 0xA1]),
     (FETCH_RESTORE_POINTS, utf8 [0xE6, 0x8B, 0x89, 0xE5, 0x8F, 0x96] @ '' restorePoints''), (FETCH_BACKUP_FILES, utf8 [0xE6, 0x8B, 0x89, 0xE5, 0x8F, 0x96] @ '' backupFiles''), (WRITE_SNAPSHOTS, utf8 [0xE5, 0x86, 0x99, 0xE5, 0x85, 0xA5, 0xE5, 0xBF, 0xAB, 0xE7, 0x85, 0xA7])]"

definition source_name :: "veeam_binding \<Rightarrow> string" where
  "source_name b = (let name = strip (vb_name b) in if name \<noteq> [] then name else ''Veeam '' @ utf8 [0xE6, 0x95, 0xB0, 0xE6, 0x8D, 0xAE, 0xE6, 0xBA, 0x90] @ '' '' @ show_int (vb_id b))"

definition source_stage_prefix :: "veeam_binding \<Rightarrow> string" where
  "source_stage_prefix b = ''veeam_source_'' @ show_int (vb_id b) @ ''_''"

definition stage_prefix :: "veeam_binding list \<Rightarrow> veeam_binding \<Rightarrow> string" where
  "stage_prefix bindings b = (if 1 < length bindings then source_stage_prefix b else [])"

definition stage_item_name :: "string \<Rightarrow> string option \<Rightarrow> string" where
  "stage_item_name item_name source = (case source of Some s \<Rightarrow> if s \<noteq> [] then s @ '' / '' @ item_name else item_name | None \<Rightarrow> item_name)"

definition build_stage_items_for_bindings :: "veeam_binding list \<Rightarrow> item_init list" where
  "build_stage_items_for_bindings bindings = concat (map (\<lambda>b. map (\<lambda>(key, name).
     \<lparr>ii_type = ''step'', ii_key = stage_prefix bindings b @ key,
      ii_name = Some (stage_item_name name (if 1 < length bindings then Some (source_name b) else None)), ii_instance = None\<rparr>) SYNC_STAGE_ITEMS) bindings)"

text \<open>What a failure is told with: the stage, what was matched before it, and the exception.\<close>

record veeam_failure =
  vf_stage :: "string option"
  vf_match :: "object_matches option"
  vf_error :: veeam_sync_error

text \<open>A stage starts its item, does its work and completes the item; both changes of the item are
  committed. \<^verbatim>\<open>None\<close> when the work never returns.\<close>

definition in_stage ::
  "veeam_sync_env \<Rightarrow> string \<Rightarrow> string \<Rightarrow> string \<Rightarrow> object_matches option \<Rightarrow> (veeam_sync_error + 'a) option \<Rightarrow> ('a \<Rightarrow> pyobj \<times> pyobj)
     \<Rightarrow> veeam_work \<Rightarrow> (veeam_work \<times> (veeam_failure + 'a)) option" where
  "in_stage env run_id pre key m body report w =
    (let fail = (\<lambda>e. Inl \<lparr>vf_stage = Some key, vf_match = m, vf_error = e\<rparr>)
     in case start_item run_id ''step'' (pre @ key) (vx_now env) (session_runs w) of
          Inl e \<Rightarrow> Some (w, fail (Vs_run e))
        | Inr db \<Rightarrow>
            let w1 = commit (set_runs db w)
            in (case body of
                  None \<Rightarrow> None
                | Some (Inl e) \<Rightarrow> Some (w1, fail e)
                | Some (Inr x) \<Rightarrow>
                    (case report x of (metrics, details) \<Rightarrow>
                     (case complete_item run_id ''step'' (pre @ key) (Some metrics) (Some details) (vx_now env) (session_runs w1) of
                        Inl e \<Rightarrow> Some (w1, fail (Vs_run e))
                      | Inr db' \<Rightarrow> Some (commit (set_runs db' w1), Inr x)))))"

definition count_obj :: "string \<Rightarrow> nat \<Rightarrow> pkey \<times> pyobj" where
  "count_obj key n = (K_str key, O_int (int n))"

definition texts_obj :: "string \<Rightarrow> string list \<Rightarrow> pkey \<times> pyobj" where
  "texts_obj key xs = (K_str key, O_list (map O_str xs))"

definition text_obj :: "string option \<Rightarrow> pyobj" where
  "text_obj v = (case v of None \<Rightarrow> O_none | Some s \<Rightarrow> O_str s)"

subsection \<open>Objects\<close>

definition fetch_objects_body :: "veeam_env \<Rightarrow> veeam_binding \<Rightarrow> (veeam_sync_error + (nat \<times> pdict list)) option" where
  "fetch_objects_body V b =
    (let base_url = build_base_url (vb_host b) (vb_port b)
     in case request_access_token V base_url of
          Inl text \<Rightarrow> Some (Inl (Vs_provider text))
        | Inr _ \<Rightarrow> (case fetch_backup_objects V base_url 0 of
            None \<Rightarrow> None
          | Some (n, Inl e) \<Rightarrow> Some (Inl (Vs_provider (veeam_error_text V e)))
          | Some (n, Inr items) \<Rightarrow> Some (Inr (n, items))))"

definition fetch_objects_report :: "nat \<times> pdict list \<Rightarrow> pyobj \<times> pyobj" where
  "fetch_objects_report x = (case x of (_, items) \<Rightarrow>
    (O_dict [count_obj ''backup_objects_received_total'' (length items)],
     O_dict [(K_str ''summary'', O_str (utf8 [0xE5, 0x85, 0xB1, 0xE6, 0x8B, 0x89, 0xE5, 0x8F, 0x96] @ '' '' @ show_nat (length items) @ '' '' @ utf8 [0xE4, 0xB8, 0xAA] @ '' backupObjects'')), count_obj ''backup_objects_received_total'' (length items)]))"

definition build_all_match_candidates :: "veeam_texts \<Rightarrow> string list \<Rightarrow> (string \<times> string option) list \<Rightarrow> string list \<times> string list" where
  "build_all_match_candidates T domains instances =
    (remdups (concat (map (\<lambda>(name, host). build_instance_match_candidates (Some name) (map Some domains)) instances)),
     remdups (concat (map (\<lambda>(name, host). build_instance_ip_candidates (vt_ip T) host) instances)))"

definition match_report :: "nat \<Rightarrow> object_matches \<Rightarrow> pyobj \<times> pyobj" where
  "match_report candidates m =
    (O_dict [count_obj ''candidate_machine_count'' candidates, count_obj ''backups_received_total'' (om_received m),
       count_obj ''matched_backup_objects_total'' (om_matched_total m), count_obj ''unmatched_backup_objects_total'' (om_unmatched m),
       count_obj ''missing_machine_name_backup_objects_total'' (om_missing_name m)],
     O_dict [(K_str ''summary'', O_str (utf8 [0xE5, 0x80, 0x99, 0xE9, 0x80, 0x89, 0xE6, 0x9C, 0xBA, 0xE5, 0x99, 0xA8] @ '' '' @ show_nat candidates @ '' '' @ utf8 [0xE4, 0xB8, 0xAA] @ '' '' @ utf8 [0xC2, 0xB7] @ '' '' @ utf8 [0xE5, 0x8C, 0xB9, 0xE9, 0x85, 0x8D] @ '' '' @ show_nat (om_matched_total m) @ '' '' @ utf8 [0xE4, 0xB8, 0xAA, 0xE5, 0xAF, 0xB9, 0xE8, 0xB1, 0xA1])),
       count_obj ''candidate_machine_count'' candidates, count_obj ''backup_objects_received_total'' (om_received m),
       count_obj ''matched_backup_objects_total'' (om_matched_total m), count_obj ''unmatched_backup_objects_total'' (om_unmatched m),
       count_obj ''missing_machine_name_backup_objects_total'' (om_missing_name m), texts_obj ''matched_backup_ids_sample'' (om_matched_ids m),
       texts_obj ''unmatched_backup_ids_sample'' (om_unmatched_ids m), texts_obj ''unmatched_machine_names_sample'' (om_unmatched_names m),
       texts_obj ''missing_machine_name_backup_ids_sample'' (om_missing_ids m), texts_obj ''missing_machine_name_backup_names_sample'' (om_missing_names m)])"

subsection \<open>Restore points\<close>

definition first_text :: "string list \<Rightarrow> string option" where
  "first_text xs = (case xs of [] \<Rightarrow> None | x # _ \<Rightarrow> Some x)"

definition skipped_objects :: "machine_collection \<Rightarrow> nat" where
  "skipped_objects c = dx_count (mc_timed_out c) + dx_count (mc_failed c)"

definition fetch_points_body :: "veeam_env \<Rightarrow> veeam_binding \<Rightarrow> nat \<Rightarrow> object_matches \<Rightarrow> (veeam_sync_error + (nat \<times> machine_collection)) option" where
  "fetch_points_body V b n m = (case fetch_restore_point_records V (build_base_url (vb_host b) (vb_port b)) n (om_matched m) of
     None \<Rightarrow> None
   | Some (n', c) \<Rightarrow>
       if 0 < skipped_objects c \<and> mc_completed c = 0
       then Some (Inl (Vs_all_timed_out (if mc_objects c \<noteq> 0 then mc_objects c else om_matched_total m)
         (first_text (dx_ids (mc_timed_out c))) (first_text (dx_machines (mc_timed_out c)))))
       else Some (Inr (n', c)))"

definition points_report :: "object_matches \<Rightarrow> nat \<times> machine_collection \<Rightarrow> pyobj \<times> pyobj" where
  "points_report m x = (case x of (_, c) \<Rightarrow>
    let objects = (if mc_objects c \<noteq> 0 then mc_objects c else om_matched_total m); timed_out = mc_timed_out c; failed = mc_failed c
    in (O_dict [count_obj ''matched_backup_objects_total'' (mc_objects c), count_obj ''restore_points_backup_objects_completed'' (mc_completed c),
          count_obj ''restore_points_received_total'' (mc_received c), count_obj ''skipped_invalid'' (mc_skipped c),
          count_obj ''timed_out_backup_objects_total'' (dx_count timed_out), count_obj ''failed_backup_objects_total'' (dx_count failed)],
        O_dict [(K_str ''summary'', O_str (if 0 < objects
             then utf8 [0xE5, 0xB7, 0xB2, 0xE5, 0xAE, 0x8C, 0xE6, 0x88, 0x90] @ '' '' @ show_nat (mc_completed c) @ ''/'' @ show_nat objects @ '' '' @ utf8 [0xE4, 0xB8, 0xAA, 0xE5, 0xAF, 0xB9, 0xE8, 0xB1, 0xA1] @ '' '' @ utf8 [0xC2, 0xB7] @ '' '' @ utf8 [0xE8, 0xB6, 0x85, 0xE6, 0x97, 0xB6, 0xE8, 0xB7, 0xB3, 0xE8, 0xBF, 0x87] @ '' '' @ show_nat (dx_count timed_out)
               @ '' '' @ utf8 [0xE4, 0xB8, 0xAA] @ '' '' @ utf8 [0xC2, 0xB7] @ '' '' @ utf8 [0xE5, 0xA4, 0xB1, 0xE8, 0xB4, 0xA5, 0xE8, 0xB7, 0xB3, 0xE8, 0xBF, 0x87] @ '' '' @ show_nat (dx_count failed) @ '' '' @ utf8 [0xE4, 0xB8, 0xAA] @ '' '' @ utf8 [0xC2, 0xB7] @ '' '' @ utf8 [0xE6, 0x8B, 0x89, 0xE5, 0x8F, 0x96] @ '' '' @ show_nat (mc_received c) @ '' '' @ utf8 [0xE6, 0x9D, 0xA1, 0xE6, 0x81, 0xA2, 0xE5, 0xA4, 0x8D, 0xE7, 0x82, 0xB9]
             else utf8 [0xE6, 0x97, 0xA0, 0xE5, 0x8C, 0xB9, 0xE9, 0x85, 0x8D, 0xE5, 0xAF, 0xB9, 0xE8, 0xB1, 0xA1, 0xEF, 0xBC, 0x8C, 0xE8, 0xB7, 0xB3, 0xE8, 0xBF, 0x87] @ '' restorePoints '' @ utf8 [0xE6, 0x8B, 0x89, 0xE5, 0x8F, 0x96])),
          count_obj ''matched_backup_objects_total'' objects, count_obj ''restore_points_backup_objects_completed'' (mc_completed c),
          count_obj ''restore_points_received_total'' (mc_received c), count_obj ''skipped_invalid'' (mc_skipped c),
          texts_obj ''matched_backup_ids_sample'' (om_matched_ids m), count_obj ''timed_out_backup_objects_total'' (dx_count timed_out),
          texts_obj ''timed_out_backup_ids_sample'' (dx_ids timed_out), texts_obj ''timed_out_machine_names_sample'' (dx_machines timed_out),
          texts_obj ''timed_out_urls_sample'' (dx_urls timed_out), texts_obj ''timed_out_reason_types_sample'' (dx_reasons timed_out),
          (K_str ''timed_out_elapsed_ms_sample'', O_list (map O_int (dx_elapsed timed_out))),
          count_obj ''failed_backup_objects_total'' (dx_count failed), texts_obj ''failed_backup_ids_sample'' (dx_ids failed),
          texts_obj ''failed_machine_names_sample'' (dx_machines failed)]))"

subsection \<open>Files\<close>

definition fetch_files_body :: "veeam_env \<Rightarrow> veeam_binding \<Rightarrow> nat \<Rightarrow> machine_backup list \<Rightarrow> (veeam_sync_error + file_collection) option" where
  "fetch_files_body V b n records =
    (case fetch_backup_file_records V (build_base_url (vb_host b) (vb_port b)) n (collect_unique_strings (map mb_backup records)) of
       None \<Rightarrow> None | Some (_, f) \<Rightarrow> Some (Inr f))"

definition is_backup_files_partial_success :: "file_collection \<Rightarrow> bool" where
  "is_backup_files_partial_success f = (0 < timed_out_backup_ids_total f \<or> 0 < failed_backup_ids_total f
     \<or> 0 < fc_total f \<and> fc_completed f < fc_total f)"

definition files_report :: "machine_backup list \<Rightarrow> file_collection \<Rightarrow> pyobj \<times> pyobj" where
  "files_report records f =
    (let co = summarize_coverage records (fc_records f); ids_total = length (collect_unique_strings (map mb_backup records));
         timed_out = timed_out_backup_ids_total f; failed = failed_backup_ids_total f;
         covered = [count_obj ''restore_points_expected_total'' (co_expected co), count_obj ''restore_points_enriched_total'' (co_enriched co),
           count_obj ''restore_points_missing_metrics_total'' (co_missing co), count_obj ''backup_ids_fully_covered_total'' (co_fully co),
           count_obj ''backup_ids_partially_covered_total'' (co_partially co)]
     in (O_dict ([count_obj ''backup_ids_total'' (fc_total f), count_obj ''backup_ids_completed'' (fc_completed f),
           count_obj ''backup_files_scanned_total'' (fc_received f), count_obj ''timed_out_backup_ids_total'' timed_out,
           count_obj ''failed_backup_ids_total'' failed] @ covered),
         O_dict ([(K_str ''summary'', O_str (if 0 < ids_total
             then utf8 [0xE5, 0xB7, 0xB2, 0xE5, 0xAE, 0x8C, 0xE6, 0x88, 0x90] @ '' '' @ show_nat (fc_completed f) @ ''/'' @ show_nat ids_total @ '' '' @ utf8 [0xE4, 0xB8, 0xAA, 0xE5, 0xA4, 0x87, 0xE4, 0xBB, 0xBD] @ '' '' @ utf8 [0xC2, 0xB7] @ '' '' @ utf8 [0xE5, 0x85, 0xA8, 0xE8, 0xA6, 0x86, 0xE7, 0x9B, 0x96] @ '' '' @ show_nat (co_fully co)
               @ '' '' @ utf8 [0xE4, 0xB8, 0xAA] @ '' '' @ utf8 [0xC2, 0xB7] @ '' '' @ utf8 [0xE9, 0x83, 0xA8, 0xE5, 0x88, 0x86, 0xE8, 0xA6, 0x86, 0xE7, 0x9B, 0x96] @ '' '' @ show_nat (co_partially co) @ '' '' @ utf8 [0xE4, 0xB8, 0xAA] @ '' '' @ utf8 [0xC2, 0xB7] @ '' '' @ utf8 [0xE8, 0xB6, 0x85, 0xE6, 0x97, 0xB6, 0xE8, 0xB7, 0xB3, 0xE8, 0xBF, 0x87] @ '' '' @ show_nat timed_out @ '' '' @ utf8 [0xE4, 0xB8, 0xAA, 0xE5, 0xA4, 0x87, 0xE4, 0xBB, 0xBD] @ '' '' @ utf8 [0xC2, 0xB7] @ '' '' @ utf8 [0xE5, 0xA4, 0xB1, 0xE8, 0xB4, 0xA5, 0xE8, 0xB7, 0xB3, 0xE8, 0xBF, 0x87] @ '' '' @ show_nat failed
               @ '' '' @ utf8 [0xE4, 0xB8, 0xAA, 0xE5, 0xA4, 0x87, 0xE4, 0xBB, 0xBD] @ '' '' @ utf8 [0xC2, 0xB7] @ '' '' @ utf8 [0xE6, 0x9C, 0x89, 0xE6, 0x95, 0x88, 0xE8, 0xA1, 0xA5, 0xE9, 0xBD, 0x90] @ '' '' @ show_nat (co_enriched co) @ ''/'' @ show_nat (co_expected co) @ '' '' @ utf8 [0xE4, 0xB8, 0xAA, 0xE6, 0x81, 0xA2, 0xE5, 0xA4, 0x8D, 0xE7, 0x82, 0xB9]
             else utf8 [0xE6, 0x97, 0xA0, 0xE6, 0x9C, 0x89, 0xE6, 0x95, 0x88] @ '' backupId'' @ utf8 [0xEF, 0xBC, 0x8C, 0xE8, 0xB7, 0xB3, 0xE8, 0xBF, 0x87] @ '' backupFiles '' @ utf8 [0xE6, 0x8B, 0x89, 0xE5, 0x8F, 0x96])),
           count_obj ''backup_ids_total'' ids_total, count_obj ''backup_ids_completed'' (fc_completed f), count_obj ''backup_files_scanned_total'' (fc_received f),
           count_obj ''timed_out_backup_ids_total'' timed_out, texts_obj ''timed_out_backup_ids_sample'' (dx_ids (fc_timed_out f)),
           texts_obj ''timed_out_urls_sample'' (dx_urls (fc_timed_out f)), texts_obj ''timed_out_reason_types_sample'' (dx_reasons (fc_timed_out f)),
           (K_str ''timed_out_elapsed_ms_sample'', O_list (map O_int (dx_elapsed (fc_timed_out f)))), count_obj ''failed_backup_ids_total'' failed,
           texts_obj ''failed_backup_ids_sample'' (dx_ids (fc_failed f)), texts_obj ''failed_urls_sample'' (dx_urls (fc_failed f))] @ covered)))"

section \<open>The summary of the run\<close>

record veeam_totals =
  vo_received :: nat
  vo_written :: nat
  vo_skipped :: nat
  vo_timed_out :: nat
  vo_scanned :: nat
  vo_ids :: nat
  vo_completed :: nat
  vo_timed_out_ids :: nat
  vo_failed_ids :: nat
  vo_expected :: nat
  vo_enriched :: nat
  vo_missing :: nat
  vo_fully :: nat
  vo_partially :: nat

definition no_totals :: veeam_totals where
  "no_totals = \<lparr>vo_received = 0, vo_written = 0, vo_skipped = 0, vo_timed_out = 0, vo_scanned = 0, vo_ids = 0, vo_completed = 0, vo_timed_out_ids = 0,
     vo_failed_ids = 0, vo_expected = 0, vo_enriched = 0, vo_missing = 0, vo_fully = 0, vo_partially = 0\<rparr>"

definition veeam_metric :: "string \<Rightarrow> string \<Rightarrow> nat \<Rightarrow> string \<Rightarrow> pyobj" where
  "veeam_metric key label value tone = O_dict [(K_str ''key'', O_str key), (K_str ''label'', O_str label), (K_str ''value'', O_int (int value)),
     (K_str ''unit'', O_str (utf8 [0xE4, 0xB8, 0xAA])), (K_str ''tone'', O_str tone)]"

definition veeam_metrics :: "veeam_totals \<Rightarrow> pyobj list" where
  "veeam_metrics t =
    [veeam_metric ''received_total'' (utf8 [0xE6, 0x8B, 0x89, 0xE5, 0x8F, 0x96, 0xE5, 0xA4, 0x87, 0xE4, 0xBB, 0xBD, 0xE8, 0xAE, 0xB0, 0xE5, 0xBD, 0x95]) (vo_received t) ''info'', veeam_metric ''snapshots_written_total'' (utf8 [0xE5, 0x86, 0x99, 0xE5, 0x85, 0xA5, 0xE6, 0x9C, 0xBA, 0xE5, 0x99, 0xA8, 0xE5, 0xBF, 0xAB, 0xE7, 0x85, 0xA7]) (vo_written t) ''success'',
     veeam_metric ''skipped_invalid'' (utf8 [0xE8, 0xB7, 0xB3, 0xE8, 0xBF, 0x87, 0xE6, 0x97, 0xA0, 0xE6, 0x95, 0x88, 0xE8, 0xAE, 0xB0, 0xE5, 0xBD, 0x95]) (vo_skipped t) ''warning'']
    @ (if 0 < vo_timed_out t then [veeam_metric ''timed_out_backup_objects_total'' (utf8 [0xE8, 0xB6, 0x85, 0xE6, 0x97, 0xB6, 0xE8, 0xB7, 0xB3, 0xE8, 0xBF, 0x87, 0xE5, 0xAF, 0xB9, 0xE8, 0xB1, 0xA1]) (vo_timed_out t) ''warning''] else [])
    @ (if 0 < vo_ids t then [veeam_metric ''backup_ids_total'' (utf8 [0xE5, 0xA4, 0x87, 0xE4, 0xBB, 0xBD, 0xE9, 0x93, 0xBE, 0xE6, 0x80, 0xBB, 0xE6, 0x95, 0xB0]) (vo_ids t) ''info'', veeam_metric ''backup_ids_completed'' (utf8 [0xE5, 0xB7, 0xB2, 0xE8, 0xA1, 0xA5, 0xE9, 0xBD, 0x90, 0xE9, 0x93, 0xBE, 0xE8, 0xB7, 0xAF]) (vo_completed t) ''success'',
        veeam_metric ''backup_files_scanned_total'' (utf8 [0xE6, 0x89, 0xAB, 0xE6, 0x8F, 0x8F] @ '' backupFiles'') (vo_scanned t) ''info''] else [])
    @ (if 0 < vo_expected t then [veeam_metric ''restore_points_expected_total'' (utf8 [0xE9, 0xA2, 0x84, 0xE6, 0x9C, 0x9F, 0xE6, 0x81, 0xA2, 0xE5, 0xA4, 0x8D, 0xE7, 0x82, 0xB9]) (vo_expected t) ''info'',
        veeam_metric ''restore_points_enriched_total'' (utf8 [0xE5, 0xB7, 0xB2, 0xE8, 0xA1, 0xA5, 0xE9, 0xBD, 0x90, 0xE6, 0x81, 0xA2, 0xE5, 0xA4, 0x8D, 0xE7, 0x82, 0xB9]) (vo_enriched t) ''success''] else [])
    @ (if 0 < vo_missing t then [veeam_metric ''restore_points_missing_metrics_total'' (utf8 [0xE7, 0xBC, 0xBA, 0xE5, 0xA4, 0xB1, 0xE6, 0x8C, 0x87, 0xE6, 0xA0, 0x87, 0xE6, 0x81, 0xA2, 0xE5, 0xA4, 0x8D, 0xE7, 0x82, 0xB9]) (vo_missing t) ''warning''] else [])
    @ (if 0 < vo_fully t then [veeam_metric ''backup_ids_fully_covered_total'' (utf8 [0xE5, 0x85, 0xA8, 0xE8, 0xA6, 0x86, 0xE7, 0x9B, 0x96, 0xE5, 0xA4, 0x87, 0xE4, 0xBB, 0xBD, 0xE9, 0x93, 0xBE]) (vo_fully t) ''success''] else [])
    @ (if 0 < vo_partially t then [veeam_metric ''backup_ids_partially_covered_total'' (utf8 [0xE9, 0x83, 0xA8, 0xE5, 0x88, 0x86, 0xE8, 0xA6, 0x86, 0xE7, 0x9B, 0x96, 0xE5, 0xA4, 0x87, 0xE4, 0xBB, 0xBD, 0xE9, 0x93, 0xBE]) (vo_partially t) ''warning''] else [])
    @ (if 0 < vo_timed_out_ids t then [veeam_metric ''timed_out_backup_ids_total'' (utf8 [0xE8, 0xB6, 0x85, 0xE6, 0x97, 0xB6, 0xE9, 0x93, 0xBE, 0xE8, 0xB7, 0xAF]) (vo_timed_out_ids t) ''warning''] else [])
    @ (if 0 < vo_failed_ids t then [veeam_metric ''failed_backup_ids_total'' (utf8 [0xE5, 0xA4, 0xB1, 0xE8, 0xB4, 0xA5, 0xE9, 0x93, 0xBE, 0xE8, 0xB7, 0xAF]) (vo_failed_ids t) ''danger''] else [])"

definition veeam_summary_payload :: "pkey \<times> pyobj \<Rightarrow> veeam_totals \<Rightarrow> pyobj list \<Rightarrow> bool \<Rightarrow> string option \<Rightarrow> pyobj" where
  "veeam_summary_payload input t sources partial_success error_message = O_dict
    [(K_str ''version'', O_int 1),
     (K_str ''common'', O_dict
       [(K_str ''inputs'', O_dict [input]), (K_str ''scope'', O_dict []), (K_str ''metrics'', O_list (veeam_metrics t)), (K_str ''highlights'', O_list []),
        (K_str ''flags'', O_dict [(K_str ''skipped'', O_bool False), (K_str ''skip_reason'', O_none)])]),
     (K_str ''ext'', O_dict [(K_str ''type'', O_str ''sync_veeam_backups''), (K_str ''version'', O_int 1),
       (K_str ''data'', O_dict
         [(K_str ''backups'', O_dict
            [count_obj ''received_total'' (vo_received t), count_obj ''snapshots_written_total'' (vo_written t), count_obj ''skipped_invalid'' (vo_skipped t),
             count_obj ''timed_out_backup_objects_total'' (vo_timed_out t), count_obj ''backup_files_scanned_total'' (vo_scanned t),
             count_obj ''backup_ids_total'' (vo_ids t), count_obj ''backup_ids_completed'' (vo_completed t),
             count_obj ''timed_out_backup_ids_total'' (vo_timed_out_ids t), count_obj ''failed_backup_ids_total'' (vo_failed_ids t),
             count_obj ''restore_points_expected_total'' (vo_expected t), count_obj ''restore_points_enriched_total'' (vo_enriched t),
             count_obj ''restore_points_missing_metrics_total'' (vo_missing t), count_obj ''backup_ids_fully_covered_total'' (vo_fully t),
             count_obj ''backup_ids_partially_covered_total'' (vo_partially t)]),
          (K_str ''sources'', O_list sources), (K_str ''partial_success'', O_bool partial_success), (K_str ''error_message'', text_obj error_message)])])]"

text \<open>Building the summary and finalising the run with it.\<close>

definition finalize_veeam_run ::
  "veeam_sync_env \<Rightarrow> string \<Rightarrow> pyobj \<Rightarrow> string option \<Rightarrow> string option \<Rightarrow> bool \<Rightarrow> run_db \<Rightarrow> veeam_sync_error + run_db" where
  "finalize_veeam_run env run_id payload status_override error_message clear_error db = (case vx_model env True payload of
     None \<Rightarrow> Inl Vs_summary
   | Some (_, summary) \<Rightarrow> (case finalize_run_with_summary (vx_model env) run_id (Some summary) status_override error_message clear_error (vx_now env) db of
       Inl e \<Rightarrow> Inl (Vs_run e) | Inr db' \<Rightarrow> Inr db'))"

section \<open>One source\<close>

definition mark_source :: "int \<Rightarrow> int \<Rightarrow> string \<Rightarrow> string \<Rightarrow> string option \<Rightarrow> veeam_store \<Rightarrow> veeam_store" where
  "mark_source i synced_at status run_id error st = st\<lparr>vz_bindings := map (\<lambda>b. if vb_id b = i
     then b\<lparr>vb_sync_at := Some synced_at, vb_status := Some status, vb_run := Some run_id, vb_error := error\<rparr> else b) (vz_bindings st)\<rparr>"

definition write_report :: "nat \<Rightarrow> nat \<Rightarrow> bool \<Rightarrow> pyobj \<times> pyobj" where
  "write_report latest n preserved =
    (let counts = [count_obj ''latest_machine_count'' latest, count_obj ''snapshots_written_total'' n,
       (K_str ''preserved_existing_due_to_partial_restore_points'', O_bool preserved)]
     in (O_dict counts, O_dict ((K_str ''summary'', O_str (utf8 [0xE5, 0xB7, 0xB2, 0xE7, 0xAD, 0x9B, 0xE9, 0x80, 0x89] @ '' '' @ show_nat latest @ '' '' @ utf8 [0xE5, 0x8F, 0xB0, 0xE6, 0x9C, 0xBA, 0xE5, 0x99, 0xA8] @ '' '' @ utf8 [0xC2, 0xB7] @ '' '' @ utf8 [0xE5, 0x86, 0x99, 0xE5, 0x85, 0xA5] @ '' '' @ show_nat n @ '' '' @ utf8 [0xE6, 0x9D, 0xA1, 0xE5, 0xBF, 0xAB, 0xE7, 0x85, 0xA7])) # counts)))"

definition source_totals :: "nat \<Rightarrow> machine_collection \<Rightarrow> file_collection \<Rightarrow> coverage \<Rightarrow> veeam_totals" where
  "source_totals n c f co = \<lparr>vo_received = mc_received c, vo_written = n, vo_skipped = mc_skipped c, vo_timed_out = dx_count (mc_timed_out c),
     vo_scanned = fc_received f, vo_ids = fc_total f, vo_completed = fc_completed f, vo_timed_out_ids = timed_out_backup_ids_total f,
     vo_failed_ids = failed_backup_ids_total f, vo_expected = co_expected co, vo_enriched = co_enriched co,
     vo_missing = co_missing co, vo_fully = co_fully co, vo_partially = co_partially co\<rparr>"

definition credential_input :: "veeam_binding \<Rightarrow> pkey \<times> pyobj" where
  "credential_input b = (K_str ''credential_id'', case vb_credential b of None \<Rightarrow> O_none | Some i \<Rightarrow> O_int i)"

text \<open>The last stage: the snapshots, the source, the item and the run are written in one commit.\<close>

definition write_source ::
  "veeam_sync_env \<Rightarrow> string \<Rightarrow> veeam_binding \<Rightarrow> string \<Rightarrow> bool \<Rightarrow> machine_collection \<Rightarrow> file_collection \<Rightarrow> machine_backup list
     \<Rightarrow> veeam_store \<Rightarrow> veeam_sync_error + (veeam_store \<times> nat)" where
  "write_source env run_id b pre finalize c f latest_records st =
    (let preserved = 0 < skipped_objects c
     in if \<not> records_to_write_valid latest_records then Inl (Vs_invalid (''Veeam '' @ utf8 [0xE5, 0xBF, 0xAB, 0xE7, 0x85, 0xA7, 0xE7, 0xBC, 0xBA, 0xE5, 0xB0, 0x91, 0xE6, 0x81, 0xA2, 0xE5, 0xA4, 0x8D, 0xE7, 0x82, 0xB9, 0xE6, 0x97, 0xB6, 0xE9, 0x97, 0xB4, 0xEF, 0xBC, 0x8C, 0xE8, 0xAF, 0xB7, 0xE9, 0x87, 0x8D, 0xE6, 0x96, 0xB0, 0xE6, 0x89, 0xA7, 0xE8, 0xA1, 0x8C, 0xE4, 0xB8, 0x80, 0xE6, 0xAC, 0xA1] @ '' Veeam '' @ utf8 [0xE5, 0x90, 0x8C, 0xE6, 0xAD, 0xA5]))
        else (case (if preserved then upsert_machine_backup_snapshots else replace_machine_backup_snapshots)
            (vt_ip (vx_texts env)) latest_records (vb_id b) run_id (vx_now env) (vz_snapshots st) of
          None \<Rightarrow> Inl Vs_integrity
        | Some (n, t) \<Rightarrow>
            let st = mark_source (vb_id b) (vx_now env) ''completed'' run_id None (st\<lparr>vz_snapshots := t\<rparr>);
                report = write_report (length latest_records) n preserved;
                co = summarize_coverage (mc_records c) (fc_records f);
                files_partial = is_backup_files_partial_success f \<or> co_missing co \<noteq> 0
            in (case complete_item run_id ''step'' (pre @ WRITE_SNAPSHOTS) (Some (fst report)) (Some (snd report)) (vx_now env) (vz_runs st) of
                  Inl e \<Rightarrow> Inl (Vs_run e)
                | Inr db1 \<Rightarrow>
                   (case (if finalize then finalize_veeam_run env run_id (veeam_summary_payload (credential_input b) (source_totals n c f co)
                         [] (preserved \<or> files_partial) None) None None True db1
                       else Inr db1) of
                      Inl e \<Rightarrow> Inl e
                    | Inr db2 \<Rightarrow> Inr (st\<lparr>vz_runs := db2\<rparr>, n)))))"

definition write_stage ::
  "veeam_sync_env \<Rightarrow> string \<Rightarrow> veeam_binding \<Rightarrow> string \<Rightarrow> bool \<Rightarrow> object_matches \<Rightarrow> machine_collection \<Rightarrow> file_collection
     \<Rightarrow> veeam_work \<Rightarrow> veeam_work \<times> (veeam_failure + nat)" where
  "write_stage env run_id b pre finalize m c f w =
    (let fail = (\<lambda>e. Inl \<lparr>vf_stage = Some WRITE_SNAPSHOTS, vf_match = Some m, vf_error = e\<rparr>);
         latest_records = select_latest_records (vx_texts env) (merge_metrics_into_records (mc_records c) (fc_records f))
     in case start_item run_id ''step'' (pre @ WRITE_SNAPSHOTS) (vx_now env) (session_runs w) of
          Inl e \<Rightarrow> (w, fail (Vs_run e))
        | Inr db \<Rightarrow>
           let w1 = commit (set_runs db w)
           in (case write_source env run_id b pre finalize c f latest_records (vw_session w1) of
                 Inl e \<Rightarrow> (w1, fail e)
               | Inr (st, n) \<Rightarrow> (commit (w1\<lparr>vw_session := st\<rparr>), Inr n)))"

text \<open>The \<^verbatim>\<open>try\<close> block: the stages follow one another, an exception ends it.\<close>

definition next_stage ::
  "(veeam_work \<times> (veeam_failure + 'a)) option \<Rightarrow> (veeam_work \<Rightarrow> 'a \<Rightarrow> (veeam_work \<times> (veeam_failure + 'b)) option) \<Rightarrow> (veeam_work \<times> (veeam_failure + 'b)) option" where
  "next_stage stage rest = (case stage of
     None \<Rightarrow> None
   | Some (w, Inl x) \<Rightarrow> Some (w, Inl x)
   | Some (w, Inr y) \<Rightarrow> rest w y)"

definition source_stages ::
  "veeam_sync_env \<Rightarrow> string \<Rightarrow> veeam_binding \<Rightarrow> credential \<Rightarrow> string \<Rightarrow> bool \<Rightarrow> veeam_work \<Rightarrow> (veeam_work \<times> (veeam_failure + nat)) option" where
  "source_stages env run_id b credential pre finalize w =
    (let V = vx_server env b credential; T = vx_texts env;
         candidates = build_all_match_candidates T (vb_domains b) (vz_instances (vw_session w))
     in next_stage (in_stage env run_id pre FETCH_BACKUP_OBJECTS None (fetch_objects_body V b) fetch_objects_report w) (\<lambda>w1 objects.
        next_stage (in_stage env run_id pre MATCH_BACKUP_OBJECTS None
            (Some (Inr (match_backup_objects (vt_ip T) (snd objects) (fst candidates) (snd candidates)))) (match_report (length (fst candidates))) w1) (\<lambda>w2 m.
        next_stage (in_stage env run_id pre FETCH_RESTORE_POINTS (Some m) (fetch_points_body V b (fst objects) m) (points_report m) w2) (\<lambda>w3 points.
        next_stage (in_stage env run_id pre FETCH_BACKUP_FILES (Some m) (fetch_files_body V b (fst points) (mc_records (snd points)))
            (files_report (mc_records (snd points))) w3) (\<lambda>w4 f.
        Some (write_stage env run_id b pre finalize m (snd points) f w4))))))"

subsection \<open>The handler\<close>

definition build_failed_stage_details :: "veeam_sync_env \<Rightarrow> veeam_failure \<Rightarrow> pyobj" where
  "build_failed_stage_details env x =
    (let text = (K_str ''error_message'', O_str (sync_error_text env (vf_error x))); stage = vf_stage x;
         matched = (case vf_error x of Vs_all_timed_out n _ _ \<Rightarrow> n | _ \<Rightarrow> 0);
         matched_total = (if matched \<noteq> 0 then matched else case vf_match x of None \<Rightarrow> 0 | Some m \<Rightarrow> om_matched_total m);
         (object_id, machine, url) = (case vf_error x of Vs_all_timed_out _ i mn \<Rightarrow> (text_obj i, text_obj mn, O_str []) | _ \<Rightarrow> (O_none, O_none, O_none))
     in if stage = Some FETCH_RESTORE_POINTS then O_dict
          [(K_str ''summary'', O_str (if 0 < matched_total then utf8 [0xE5, 0xB7, 0xB2, 0xE5, 0xAE, 0x8C, 0xE6, 0x88, 0x90] @ '' '' @ show_nat 0 @ ''/'' @ show_nat matched_total @ '' '' @ utf8 [0xE4, 0xB8, 0xAA, 0xE5, 0xAF, 0xB9, 0xE8, 0xB1, 0xA1, 0xEF, 0xBC, 0x8C, 0xE5, 0xBD, 0x93, 0xE5, 0x89, 0x8D, 0xE5, 0xAF, 0xB9, 0xE8, 0xB1, 0xA1] @ '' restorePoints '' @ utf8 [0xE6, 0x8B, 0x89, 0xE5, 0x8F, 0x96, 0xE5, 0xA4, 0xB1, 0xE8, 0xB4, 0xA5] else ''restorePoints '' @ utf8 [0xE6, 0x8B, 0x89, 0xE5, 0x8F, 0x96, 0xE5, 0xA4, 0xB1, 0xE8, 0xB4, 0xA5])),
           count_obj ''matched_backup_objects_total'' matched_total, count_obj ''restore_points_backup_objects_completed'' 0,
           (K_str ''failed_backup_object_id'', object_id), (K_str ''failed_machine_name'', machine), (K_str ''failed_url'', url), text]
        else if stage = Some FETCH_BACKUP_OBJECTS then O_dict [(K_str ''summary'', O_str (utf8 [0xE6, 0x8B, 0x89, 0xE5, 0x8F, 0x96] @ '' backupObjects '' @ utf8 [0xE5, 0xA4, 0xB1, 0xE8, 0xB4, 0xA5])), text]
        else if stage = Some MATCH_BACKUP_OBJECTS then O_dict [(K_str ''summary'', O_str (utf8 [0xE5, 0x8C, 0xB9, 0xE9, 0x85, 0x8D, 0xE7, 0x9B, 0xAE, 0xE6, 0xA0, 0x87, 0xE5, 0xA4, 0x87, 0xE4, 0xBB, 0xBD, 0xE5, 0xAF, 0xB9, 0xE8, 0xB1, 0xA1, 0xE5, 0xA4, 0xB1, 0xE8, 0xB4, 0xA5])), text]
        else if stage = Some FETCH_BACKUP_FILES then O_dict [(K_str ''summary'', O_str (utf8 [0xE6, 0x8B, 0x89, 0xE5, 0x8F, 0x96] @ '' backupFiles '' @ utf8 [0xE5, 0xA4, 0xB1, 0xE8, 0xB4, 0xA5])), text]
        else if stage = Some WRITE_SNAPSHOTS then O_dict [(K_str ''summary'', O_str (utf8 [0xE5, 0x86, 0x99, 0xE5, 0x85, 0xA5, 0xE5, 0xBF, 0xAB, 0xE7, 0x85, 0xA7, 0xE5, 0xA4, 0xB1, 0xE8, 0xB4, 0xA5])), text]
        else O_dict [text])"

definition cancelled_details :: pyobj where
  "cancelled_details = O_dict [(K_str ''summary'', O_str (utf8 [0xE5, 0x89, 0x8D, 0xE5, 0xBA, 0x8F, 0xE6, 0xAD, 0xA5, 0xE9, 0xAA, 0xA4, 0xE5, 0xA4, 0xB1, 0xE8, 0xB4, 0xA5, 0xEF, 0xBC, 0x8C, 0xE6, 0x9C, 0xAA, 0xE7, 0xBB, 0xA7, 0xE7, 0xBB, 0xAD, 0xE6, 0x89, 0xA7, 0xE8, 0xA1, 0x8C]))]"

fun cancel_stages :: "string \<Rightarrow> string \<Rightarrow> int \<Rightarrow> string list \<Rightarrow> run_db \<Rightarrow> run_error + run_db" where
  "cancel_stages run_id pre now [] db = Inr db"
| "cancel_stages run_id pre now (key # keys) db =
    (case cancel_item run_id ''step'' (pre @ key) (Some cancelled_details) now db of
       Inl e \<Rightarrow> Inl e | Inr db' \<Rightarrow> cancel_stages run_id pre now keys db')"

text \<open>The stages after the current one; none when no stage was begun.\<close>

definition following_stages :: "string option \<Rightarrow> string list" where
  "following_stages stage = (case stage of None \<Rightarrow> [] | Some s \<Rightarrow> drop 1 (dropWhile (\<lambda>k. k \<noteq> s) (map fst SYNC_STAGE_ITEMS)))"

definition failed_item_key :: "string option \<Rightarrow> string" where
  "failed_item_key stage = (case stage of None \<Rightarrow> FETCH_BACKUP_OBJECTS | Some s \<Rightarrow> s)"

definition write_failure ::
  "veeam_sync_env \<Rightarrow> string \<Rightarrow> veeam_binding \<Rightarrow> string \<Rightarrow> bool \<Rightarrow> veeam_failure \<Rightarrow> run_db \<Rightarrow> veeam_sync_error + run_db" where
  "write_failure env run_id b pre finalize x db =
    (let text = sync_error_text env (vf_error x)
     in case fail_item run_id ''step'' (pre @ failed_item_key (vf_stage x)) text (Some (build_failed_stage_details env x)) (vx_now env) db of
          Inl e \<Rightarrow> Inl (Vs_run e)
        | Inr db1 \<Rightarrow> (case cancel_stages run_id pre (vx_now env) (following_stages (vf_stage x)) db1 of
            Inl e \<Rightarrow> Inl (Vs_run e)
          | Inr db2 \<Rightarrow>
              if finalize then finalize_veeam_run env run_id (veeam_summary_payload (credential_input b) no_totals [] False (Some text)) None (Some text) False db2
              else Inr db2))"

text \<open>The session after the rollback has the mark of the source also when writing the failure raises;
  then it is not committed here.\<close>

definition source_failed ::
  "veeam_sync_env \<Rightarrow> string \<Rightarrow> veeam_binding \<Rightarrow> string \<Rightarrow> bool \<Rightarrow> veeam_failure \<Rightarrow> veeam_work \<Rightarrow> veeam_work \<times> veeam_sync_error" where
  "source_failed env run_id b pre finalize x w =
    (let w1 = rollback w;
         w2 = w1\<lparr>vw_session := mark_source (vb_id b) (vx_now env) ''failed'' run_id (Some (sync_error_text env (vf_error x))) (vw_session w1)\<rparr>
     in case write_failure env run_id b pre finalize x (session_runs w2) of
          Inl e \<Rightarrow> (w2, e)
        | Inr db \<Rightarrow> (commit (set_runs db w2), vf_error x))"

definition credential_of_source :: "veeam_store \<Rightarrow> veeam_binding \<Rightarrow> credential option" where
  "credential_of_source st b = (case vb_credential b of None \<Rightarrow> None | Some i \<Rightarrow> find (\<lambda>c. cd_id c = i) (vz_credentials st))"

definition sync_source_once ::
  "veeam_sync_env \<Rightarrow> string \<Rightarrow> veeam_binding \<Rightarrow> string \<Rightarrow> bool \<Rightarrow> veeam_work \<Rightarrow> (veeam_work \<times> (veeam_sync_error + nat)) option" where
  "sync_source_once env run_id b pre finalize w = (case credential_of_source (vw_session w) b of
     None \<Rightarrow> Some (w, Inl (Vs_invalid (''Veeam '' @ utf8 [0xE6, 0x95, 0xB0, 0xE6, 0x8D, 0xAE, 0xE6, 0xBA, 0x90, 0xE5, 0x87, 0xAD, 0xE6, 0x8D, 0xAE, 0xE5, 0xB7, 0xB2, 0xE5, 0x8F, 0x98, 0xE6, 0x9B, 0xB4, 0xEF, 0xBC, 0x8C, 0xE8, 0xAF, 0xB7, 0xE9, 0x87, 0x8D, 0xE6, 0x96, 0xB0, 0xE5, 0x8F, 0x91, 0xE8, 0xB5, 0xB7, 0xE5, 0x90, 0x8C, 0xE6, 0xAD, 0xA5])))
   | Some credential \<Rightarrow> (case source_stages env run_id b credential pre finalize w of
       None \<Rightarrow> None
     | Some (w1, Inr n) \<Rightarrow> Some (w1, Inr n)
     | Some (w1, Inl x) \<Rightarrow> (case source_failed env run_id b pre finalize x w1 of (w2, e) \<Rightarrow> Some (w2, Inl e))))"

section \<open>All sources\<close>

definition build_source_summary :: "veeam_binding \<Rightarrow> string \<Rightarrow> nat \<Rightarrow> string option \<Rightarrow> pyobj" where
  "build_source_summary b status n error_message = O_dict
    [(K_str ''source_binding_id'', O_int (vb_id b)), (K_str ''source_name'', O_str (source_name b)), (K_str ''status'', O_str status),
     count_obj ''snapshots_written_total'' n, (K_str ''error_message'', text_obj error_message)]"

record source_results =
  so_sources :: "pyobj list"
  so_failures :: "veeam_sync_error list"
  so_successes :: nat
  so_written :: nat

definition no_sources :: source_results where
  "no_sources = \<lparr>so_sources = [], so_failures = [], so_successes = 0, so_written = 0\<rparr>"

definition take_source :: "veeam_sync_env \<Rightarrow> veeam_binding \<Rightarrow> veeam_sync_error + nat \<Rightarrow> source_results \<Rightarrow> source_results" where
  "take_source env b r so = (case r of
     Inr n \<Rightarrow> so\<lparr>so_sources := so_sources so @ [build_source_summary b ''completed'' n None], so_successes := so_successes so + 1, so_written := so_written so + n\<rparr>
   | Inl e \<Rightarrow> so\<lparr>so_sources := so_sources so @ [build_source_summary b ''failed'' 0 (Some (sync_error_text env e))], so_failures := so_failures so @ [e]\<rparr>)"

fun sync_sources ::
  "veeam_sync_env \<Rightarrow> string \<Rightarrow> veeam_binding list \<Rightarrow> veeam_binding list \<Rightarrow> source_results \<Rightarrow> veeam_work \<Rightarrow> (veeam_work \<times> source_results) option" where
  "sync_sources env run_id bindings [] so w = Some (w, so)"
| "sync_sources env run_id bindings (b # bs) so w =
    (case sync_source_once env run_id b (stage_prefix bindings b) (length bindings \<le> 1) w of
       None \<Rightarrow> None
     | Some (w1, r) \<Rightarrow> sync_sources env run_id bindings bs (take_source env b r so) w1)"

definition write_multi_source_run_result ::
  "veeam_sync_env \<Rightarrow> string \<Rightarrow> veeam_binding list \<Rightarrow> source_results \<Rightarrow> run_db \<Rightarrow> veeam_sync_error + run_db" where
  "write_multi_source_run_result env run_id bindings so db =
    (let partial_success = 0 < so_successes so \<and> so_failures so \<noteq> [];
         error_message = (if so_successes so = 0 \<and> so_failures so \<noteq> [] then Some (sync_error_text env (hd (so_failures so))) else None)
     in finalize_veeam_run env run_id
          (veeam_summary_payload (K_str ''source_binding_ids'', O_list (map (\<lambda>b. O_int (vb_id b)) bindings)) (no_totals\<lparr>vo_written := so_written so\<rparr>)
            (so_sources so) partial_success error_message)
          (if partial_success then Some COMPLETED else None) error_message partial_success db)"

text \<open>\<^verbatim>\<open>merge_sync_veeam_sources_summary\<close>: \<^verbatim>\<open>None\<close> is a key that is missing.\<close>

definition obj_truth :: "pyobj \<Rightarrow> bool" where
  "obj_truth v = (case v of O_none \<Rightarrow> False | O_bool b \<Rightarrow> b | O_int n \<Rightarrow> n \<noteq> 0 | O_str s \<Rightarrow> s \<noteq> [] | O_list xs \<Rightarrow> xs \<noteq> [] | O_dict d \<Rightarrow> d \<noteq> [] | _ \<Rightarrow> True)"

definition obj_get :: "pyobj \<Rightarrow> string \<Rightarrow> pyobj option" where
  "obj_get v key = (case v of O_dict d \<Rightarrow> map_of d (K_str key) | _ \<Rightarrow> None)"

definition obj_put :: "string \<Rightarrow> pyobj \<Rightarrow> pyobj \<Rightarrow> pyobj" where
  "obj_put key x v = (case v of O_dict d \<Rightarrow> O_dict (AList.update (K_str key) x d) | _ \<Rightarrow> v)"

definition merge_sources :: "pyobj list \<Rightarrow> bool \<Rightarrow> pyobj \<Rightarrow> pyobj option" where
  "merge_sources sources partial_success payload = (case obj_get payload ''ext'' of
     None \<Rightarrow> None
   | Some ext \<Rightarrow> (case obj_get ext ''data'' of
       None \<Rightarrow> None
     | Some data \<Rightarrow>
        let before = (case obj_get data ''partial_success'' of None \<Rightarrow> False | Some v \<Rightarrow> obj_truth v);
            data = obj_put ''partial_success'' (O_bool (before \<or> partial_success)) (obj_put ''sources'' (O_list sources) data)
        in Some (obj_put ''ext'' (obj_put ''data'' data ext) payload)))"

definition merge_sync_veeam_sources_summary :: "veeam_sync_env \<Rightarrow> pyobj \<Rightarrow> pyobj list \<Rightarrow> bool \<Rightarrow> veeam_sync_error + pyobj" where
  "merge_sync_veeam_sources_summary env summary sources partial_success = (case vx_model env True summary of
     None \<Rightarrow> Inl Vs_summary
   | Some (t, payload) \<Rightarrow> if t \<noteq> ''sync_veeam_backups'' then Inl Vs_summary
       else (case merge_sources sources partial_success payload of None \<Rightarrow> Inl Vs_summary | Some v \<Rightarrow> Inr v))"

definition append_sources_to_run_summary :: "veeam_sync_env \<Rightarrow> string \<Rightarrow> pyobj list \<Rightarrow> bool \<Rightarrow> veeam_work \<Rightarrow> veeam_work \<times> veeam_sync_error option" where
  "append_sources_to_run_summary env run_id sources partial_success w = (case find_run run_id (session_runs w) of
     None \<Rightarrow> (w, None)
   | Some r \<Rightarrow> (case merge_sync_veeam_sources_summary env (tr_summary r) sources partial_success of
       Inl e \<Rightarrow> (w, Some e)
     | Inr summary \<Rightarrow> (case write_summary (vx_model env) run_id summary (session_runs w) of
         Inl e \<Rightarrow> (w, Some (Vs_run e))
       | Inr (written, db) \<Rightarrow> if written then (commit (set_runs db w), None) else (w, None))))"

definition sync_once :: "veeam_sync_env \<Rightarrow> string \<Rightarrow> veeam_work \<Rightarrow> (veeam_work \<times> veeam_sync_error option) option" where
  "sync_once env run_id w =
    (let bindings = list_enabled_bindings (vz_bindings (vw_session w))
     in if bindings = [] then Some (w, Some (Vs_invalid (utf8 [0xE8, 0xAF, 0xB7, 0xE5, 0x85, 0x88, 0xE5, 0x90, 0xAF, 0xE7, 0x94, 0xA8, 0xE8, 0x87, 0xB3, 0xE5, 0xB0, 0x91, 0xE4, 0xB8, 0x80, 0xE4, 0xB8, 0xAA] @ '' Veeam '' @ utf8 [0xE6, 0x95, 0xB0, 0xE6, 0x8D, 0xAE, 0xE6, 0xBA, 0x90])))
        else (case sync_sources env run_id bindings bindings no_sources w of
          None \<Rightarrow> None
        | Some (w1, so) \<Rightarrow>
            (case (if 1 < length bindings
                then (case write_multi_source_run_result env run_id bindings so (session_runs w1) of
                        Inl e \<Rightarrow> (w1, Some e) | Inr db \<Rightarrow> (commit (set_runs db w1), None))
                else append_sources_to_run_summary env run_id (so_sources so) (0 < so_successes so \<and> so_failures so \<noteq> []) w1) of
               (w2, Some e) \<Rightarrow> Some (w2, Some e)
             | (w2, None) \<Rightarrow> Some (w2, if so_successes so = 0 \<and> so_failures so \<noteq> [] then Some (hd (so_failures so)) else None))))"

section \<open>The task\<close>

definition prepare_background_sync :: "veeam_sync_env \<Rightarrow> string \<Rightarrow> int option \<Rightarrow> veeam_store \<Rightarrow> veeam_sync_error + veeam_store" where
  "prepare_background_sync env trigger_source created_by st =
    (let bindings = list_enabled_bindings (vz_bindings st)
     in if \<not> vx_configured env then Inl (Vs_invalid (''Veeam Provider '' @ utf8 [0xE5, 0xB0, 0x9A, 0xE6, 0x9C, 0xAA, 0xE6, 0x8E, 0xA5, 0xE5, 0x85, 0xA5, 0xE7, 0x9C, 0x9F, 0xE5, 0xAE, 0x9E] @ '' API''))
        else if bindings = [] then Inl (Vs_invalid (utf8 [0xE8, 0xAF, 0xB7, 0xE5, 0x85, 0x88, 0xE5, 0x90, 0xAF, 0xE7, 0x94, 0xA8, 0xE8, 0x87, 0xB3, 0xE5, 0xB0, 0x91, 0xE4, 0xB8, 0x80, 0xE4, 0xB8, 0xAA] @ '' Veeam '' @ utf8 [0xE6, 0x95, 0xB0, 0xE6, 0x8D, 0xAE, 0xE6, 0xBA, 0x90]))
        else (case find (\<lambda>b. credential_of_source st b = None) bindings of
            Some b \<Rightarrow> Inl (Vs_invalid (''Veeam '' @ utf8 [0xE6, 0x95, 0xB0, 0xE6, 0x8D, 0xAE, 0xE6, 0xBA, 0x90] @ '' '' @ source_name b @ '' '' @ utf8 [0xE6, 0x9C, 0xAA, 0xE7, 0xBB, 0x91, 0xE5, 0xAE, 0x9A, 0xE6, 0x9C, 0x89, 0xE6, 0x95, 0x88, 0xE5, 0x87, 0xAD, 0xE6, 0x8D, 0xAE]))
          | None \<Rightarrow> (case start_run (vx_model env) (vx_fresh env) ''sync_veeam_backups'' (''Veeam '' @ utf8 [0xE5, 0xA4, 0x87, 0xE4, 0xBB, 0xBD, 0xE5, 0x90, 0x8C, 0xE6, 0xAD, 0xA5]) ''other'' trigger_source created_by None
                (Some ''/admin/system-settings#system-settings-veeam'') (vx_now env) (vz_runs st) of
              Inl e \<Rightarrow> Inl (Vs_run e)
            | Inr db \<Rightarrow> (case init_items (vx_fresh env) (build_stage_items_for_bindings bindings) db of
                Inl e \<Rightarrow> Inl (Vs_run e)
              | Inr db' \<Rightarrow> Inr (st\<lparr>vz_runs := db'\<rparr>)))))"

text \<open>What the task leaves in the tables, and what it raises. Without a run it starts one.\<close>

definition sync_veeam_backups ::
  "veeam_sync_env \<Rightarrow> bool \<Rightarrow> int option \<Rightarrow> string option \<Rightarrow> veeam_store \<Rightarrow> (veeam_store \<times> veeam_sync_error option) option" where
  "sync_veeam_backups env manual_run created_by run_id st =
    (case (if run_id = None \<or> run_id = Some []
        then (case prepare_background_sync env (if manual_run then ''manual'' else ''scheduled'') (if manual_run then created_by else None) st of
            Inl e \<Rightarrow> Inl e | Inr st' \<Rightarrow> Inr (vx_fresh env, st'))
        else Inr (the run_id, st)) of
       Inl e \<Rightarrow> Some (st, Some e)
     | Inr (rid, st1) \<Rightarrow> (case sync_once env rid \<lparr>vw_committed = st1, vw_session = st1\<rparr> of
         None \<Rightarrow> None
       | Some (w, e) \<Rightarrow> Some (vw_committed w, e)))"

section \<open>One instance\<close>

text \<open>\<^verbatim>\<open>sync_instance_now\<close> for an instance that exists: its id, name and host. The request commits what
  it returns; nothing is written when it raises. The result is whether it was matched and the backup.\<close>

definition sync_instance_now ::
  "veeam_sync_env \<Rightarrow> int \<Rightarrow> string \<Rightarrow> string option \<Rightarrow> veeam_binding \<Rightarrow> veeam_store
     \<Rightarrow> (veeam_sync_error + (veeam_store \<times> (bool \<times> pdict option))) option" where
  "sync_instance_now env instance_id instance_name instance_host b st =
    (if \<not> vx_configured env then Some (Inl (Vs_invalid (''Veeam Provider '' @ utf8 [0xE5, 0xB0, 0x9A, 0xE6, 0x9C, 0xAA, 0xE6, 0x8E, 0xA5, 0xE5, 0x85, 0xA5, 0xE7, 0x9C, 0x9F, 0xE5, 0xAE, 0x9E] @ '' API'')))
     else case credential_of_source st b of
       None \<Rightarrow> Some (Inl (Vs_invalid (''Veeam '' @ utf8 [0xE6, 0x95, 0xB0, 0xE6, 0x8D, 0xAE, 0xE6, 0xBA, 0x90, 0xE6, 0x9C, 0xAA, 0xE7, 0xBB, 0x91, 0xE5, 0xAE, 0x9A, 0xE6, 0x9C, 0x89, 0xE6, 0x95, 0x88, 0xE5, 0x87, 0xAD, 0xE6, 0x8D, 0xAE])))
     | Some credential \<Rightarrow>
        let V = vx_server env b credential; base_url = build_base_url (vb_host b) (vb_port b); T = vx_texts env;
            names = remdups (build_instance_match_candidates (Some instance_name) (map Some (vb_domains b)));
            ips = remdups (build_instance_ip_candidates (vt_ip T) instance_host);
            found = (\<lambda>t. find_best_backup_for_instance_name (vt_ip T) (vt_iso T) (vz_bindings st) (vt_rows t) instance_name instance_host)
        in (case fetch_objects_body V b of
              None \<Rightarrow> None
            | Some (Inl e) \<Rightarrow> Some (Inl e)
            | Some (Inr (n1, items)) \<Rightarrow>
               (let m = match_backup_objects (vt_ip T) items names ips
                in if om_matched m = [] then Some (Inr (st, (False, None)))
                   else (case fetch_restore_point_records V base_url n1 (om_matched m) of
                       None \<Rightarrow> None
                     | Some (n2, c) \<Rightarrow>
                        if mc_records c = [] then Some (Inr (st, (True, found (vz_snapshots st))))
                        else (case fetch_backup_file_records V base_url n2 (collect_unique_strings (map mb_backup (mc_records c))) of
                            None \<Rightarrow> None
                          | Some (_, f) \<Rightarrow>
                             (case upsert_machine_backup_snapshots (vt_ip T) (select_latest_records T (merge_metrics_into_records (mc_records c) (fc_records f)))
                                 (vb_id b) (''single_sync_'' @ show_int instance_id) (vx_now env) (vz_snapshots st) of
                                None \<Rightarrow> Some (Inl Vs_integrity)
                              | Some (_, t) \<Rightarrow> Some (Inr (st\<lparr>vz_snapshots := t\<rparr>, (True, found t)))))))))"

end
