(* ===== verification/Veeam_Runs.thy ===== *)
theory Veeam_Runs
  imports Veeam_Sync Run_Items Account_Scope
begin

text \<open>
  The run of a sync: how the items of a source end, and the run with them.
\<close>

section \<open>The items of a run as a map\<close>

definition tracks :: "string \<Rightarrow> run_db \<Rightarrow> task_run \<Rightarrow> (string \<times> string \<times> string) list \<Rightarrow> (string \<times> string \<times> string \<Rightarrow> string option) \<Rightarrow> bool" where
  "tracks rid db r keys m \<longleftrightarrow> find_run rid db = Some r \<and> map fst (item_states rid db) = keys \<and> distinct keys \<and> map_of (item_states rid db) = m"

lemma set_item_state_keys [simp]: "map fst (set_state k x s) = map fst s"
  by (induction s) (auto simp: set_state_def)

lemma set_state_map: "map_of s k \<noteq> None \<Longrightarrow> map_of (set_state k x s) = (map_of s)(k \<mapsto> x)"
proof
  fix j assume "map_of s k \<noteq> None"
  moreover have "map_of (set_state k x s) j = map_option (\<lambda>y. if j = k then x else y) (map_of s j)"
    by (induction s) (auto simp: set_state_def)
  ultimately show "map_of (set_state k x s) j = ((map_of s)(k \<mapsto> x)) j" by (cases "map_of s j") auto
qed

lemma tracks_item:
  assumes "tracks rid db r keys m" "m k = Some y"
  shows "k \<in> fst ` set (item_states rid db)" "(k, x) \<in> set (item_states rid db) \<Longrightarrow> x = y"
proof -
  have s: "distinct (map fst (item_states rid db))" "map_of (item_states rid db) k = Some y" using assms by (simp_all add: tracks_def)
  then show "k \<in> fst ` set (item_states rid db)" by (metis fst_conv image_eqI map_of_SomeD)
  show "x = y" if "(k, x) \<in> set (item_states rid db)" using map_of_is_SomeI [OF s(1) that] s(2) by simp
qed

lemma tracks_set:
  assumes "tracks rid db r keys m" "m k = Some y" "find_run rid db' = Some r" "item_states rid db' = set_state k x (item_states rid db)"
  shows "tracks rid db' r keys (m(k \<mapsto> x))"
  using assms set_state_map [of "item_states rid db" k x] by (simp add: tracks_def)

lemma cancel_item_states:
  assumes "find_run rid db = Some r" "(rid, t, k) \<in> fst ` set (item_states rid db)"
    and "\<And>y. ((rid, t, k), y) \<in> set (item_states rid db) \<Longrightarrow> y \<notin> set task_status_terminal"
  shows "\<exists>db'. cancel_item rid t k d now db = Inr db' \<and> find_run rid db' = Some r \<and> item_states rid db' = set_state (rid, t, k) CANCELLED (item_states rid db)"
  unfolding cancel_item_def by (rule change_item_states [OF assms(1,2)]) (auto simp: item_id_def dest: assms(3))

lemma tracks_ops:
  assumes t: "tracks rid db r keys m" and y: "m (rid, t, k) = Some y"
  shows "y \<notin> set task_status_terminal \<Longrightarrow> \<exists>db'. start_item rid t k now db = Inr db' \<and> tracks rid db' r keys (m((rid, t, k) \<mapsto> RUNNING))"
    and "y \<notin> {FAILED, CANCELLED} \<Longrightarrow> \<exists>db'. complete_item rid t k me de now db = Inr db' \<and> tracks rid db' r keys (m((rid, t, k) \<mapsto> COMPLETED))"
    and "y \<noteq> CANCELLED \<Longrightarrow> \<exists>db'. fail_item rid t k msg de now db = Inr db' \<and> tracks rid db' r keys (m((rid, t, k) \<mapsto> FAILED))"
    and "y \<notin> set task_status_terminal \<Longrightarrow> \<exists>db'. cancel_item rid t k de now db = Inr db' \<and> tracks rid db' r keys (m((rid, t, k) \<mapsto> CANCELLED))"
proof -
  have run: "find_run rid db = Some r" using t by (simp add: tracks_def)
  note item = tracks_item [OF t y]
  show "\<exists>db'. start_item rid t k now db = Inr db' \<and> tracks rid db' r keys (m((rid, t, k) \<mapsto> RUNNING))" if "y \<notin> set task_status_terminal"
    using start_item_states [OF run item(1), of now] item(2) that tracks_set [OF t y] by blast
  show "\<exists>db'. complete_item rid t k me de now db = Inr db' \<and> tracks rid db' r keys (m((rid, t, k) \<mapsto> COMPLETED))" if "y \<notin> {FAILED, CANCELLED}"
    using complete_item_states [OF run item(1), of me de now] item(2) that tracks_set [OF t y] by blast
  show "\<exists>db'. fail_item rid t k msg de now db = Inr db' \<and> tracks rid db' r keys (m((rid, t, k) \<mapsto> FAILED))" if "y \<noteq> CANCELLED"
    using fail_item_states [OF run item(1), of msg de now] item(2) that tracks_set [OF t y] by blast
  show "\<exists>db'. cancel_item rid t k de now db = Inr db' \<and> tracks rid db' r keys (m((rid, t, k) \<mapsto> CANCELLED))" if "y \<notin> set task_status_terminal"
    using cancel_item_states [OF run item(1), of de now] item(2) that tracks_set [OF t y] by blast
qed

lemma tracks_status: "tracks rid db r keys m \<Longrightarrow> item_status db (rid, t, k) = m (rid, t, k)"
proof -
  have "map_option ti_status (find (\<lambda>it. item_id it = (rid, t, k)) xs) = map_of (map (\<lambda>it. (item_id it, ti_status it)) xs) (rid, t, k)" for xs
    by (induction xs) auto
  then show "tracks rid db r keys m \<Longrightarrow> ?thesis" by (simp add: item_status_def find_item_of_run tracks_def item_states_def) 
qed

text \<open>Finalising a run: its items stay.\<close>

lemma tracks_write_run: "tracks rid db r keys m \<Longrightarrow> (\<And>r. tr_id (f r) = tr_id r) \<Longrightarrow> tracks rid (write_run rid f db) (f r) keys m"
  by (simp add: tracks_def item_states_def)

lemma finalize_tracks:
  assumes t: "tracks rid db r keys m" and r: "tr_status r \<notin> {CANCELLED, FAILED}" "tr_task_key r = task_key"
    and M: "\<And>b v. \<exists>v'. M b v = Some (task_key, v')"
  shows "\<exists>db' r'. finalize_run_with_summary M rid (Some summary) override msg clear now db = Inr db' \<and> tracks rid db' r' keys m
    \<and> tr_status r' = (case override of Some x \<Rightarrow> x | None \<Rightarrow> if \<exists>k x. m k = Some x \<and> x \<in> {FAILED, CANCELLED} then FAILED else COMPLETED)
    \<and> tr_completed_at r' = Some now \<and> tr_task_key r' = task_key"
proof -
  have run: "find_run rid db = Some r" using t by (simp add: tracks_def)
  obtain v where v: "M False summary = Some (task_key, v)" using M by blast
  let ?f = "\<lambda>r. r\<lparr>tr_summary := ensure_json_serializable v\<rparr>"
  let ?db1 = "write_run rid ?f db"
  have w: "write_summary_opt M rid (Some summary) db = Inr ?db1"
    using run r v by (simp add: write_summary_opt_def write_summary_def get_run_def validated_summary_def)
  let ?g = "finalize_update (list_run_items rid db) now"
  have fin: "finalize_run rid now ?db1 = Inr (write_run rid ?g ?db1)" using run by (simp add: finalize_run_def get_run_def)
  have entries: "(k, x) \<in> set (item_states rid db) \<longleftrightarrow> m k = Some x" for k x
    using t unfolding tracks_def by (metis map_of_eq_Some_iff)
  have bad: "(\<exists>it \<in> set (list_run_items rid db). ti_status it \<in> {FAILED, CANCELLED}) \<longleftrightarrow> (\<exists>k x. m k = Some x \<and> x \<in> {FAILED, CANCELLED})"
  proof
    assume "\<exists>it \<in> set (list_run_items rid db). ti_status it \<in> {FAILED, CANCELLED}"
    then obtain it where it: "it \<in> set (list_run_items rid db)" "ti_status it \<in> {FAILED, CANCELLED}" by blast
    have "(item_id it, ti_status it) \<in> set (item_states rid db)" unfolding item_states_def set_map using it(1) by (rule imageI)
    then show "\<exists>k x. m k = Some x \<and> x \<in> {FAILED, CANCELLED}" using entries it(2) by blast
  next
    assume "\<exists>k x. m k = Some x \<and> x \<in> {FAILED, CANCELLED}"
    then obtain k x where "(k, x) \<in> set (item_states rid db)" "x \<in> {FAILED, CANCELLED}" using entries by blast
    then show "\<exists>it \<in> set (list_run_items rid db). ti_status it \<in> {FAILED, CANCELLED}" unfolding item_states_def by auto
  qed
  have "tracks rid (write_run rid ?g ?db1) (?g (?f r)) keys m" by (intro tracks_write_run t) simp_all
  let ?h = "\<lambda>r. r\<lparr>tr_status := (case override of None \<Rightarrow> tr_status r | Some st \<Rightarrow> st), tr_error := (case msg of Some m \<Rightarrow> Some m | None \<Rightarrow> if clear then None else tr_error r)\<rparr>"
  have t': "tracks rid (write_run rid ?h (write_run rid ?g ?db1)) (?h (?g (?f r))) keys m" by (intro tracks_write_run t) simp_all
  have fin': "finalize_run_with_summary M rid (Some summary) override msg clear now db = Inr (write_run rid ?h (write_run rid ?g ?db1))"
    using run r(1) w fin by (simp add: finalize_run_with_summary_def get_run_def)
  have "tr_status (?g (?f r)) = (if \<exists>k x. m k = Some x \<and> x \<in> {FAILED, CANCELLED} then FAILED else COMPLETED)"
    using r(1) unfolding bad [symmetric] by (auto simp: finalize_update_def Let_def filter_empty_conv)
  then have status: "tr_status (?h (?g (?f r))) = (case override of Some x \<Rightarrow> x | None \<Rightarrow> if \<exists>k x. m k = Some x \<and> x \<in> {FAILED, CANCELLED} then FAILED else COMPLETED)"
    by (cases override) simp_all
  have "tr_completed_at (?h (?g (?f r))) = Some now" "tr_task_key (?h (?g (?f r))) = task_key" using r(2) by (simp_all add: finalize_update_def Let_def)
  with fin' t' status show ?thesis by blast
qed

section \<open>The stages of a source\<close>

lemmas stage_names = FETCH_BACKUP_OBJECTS_def MATCH_BACKUP_OBJECTS_def FETCH_RESTORE_POINTS_def FETCH_BACKUP_FILES_def WRITE_SNAPSHOTS_def

definition STAGE_KEYS :: "string list" where
  "STAGE_KEYS = [FETCH_BACKUP_OBJECTS, MATCH_BACKUP_OBJECTS, FETCH_RESTORE_POINTS, FETCH_BACKUP_FILES, WRITE_SNAPSHOTS]"

lemma distinct_stages [simp]: "distinct STAGE_KEYS"
  by (simp add: STAGE_KEYS_def stage_names)

definition stage_id :: "string \<Rightarrow> string \<Rightarrow> string \<Rightarrow> string \<times> string \<times> string" where
  "stage_id rid pre s = (rid, ''step'', pre @ s)"

lemma stage_id_eq [simp]: "stage_id rid pre s = stage_id rid pre s' \<longleftrightarrow> s = s'"
  by (simp add: stage_id_def)

lemma length_stages [simp]: "length STAGE_KEYS = 5"
  by (simp add: STAGE_KEYS_def)

text \<open>The items with the statuses \<^verbatim>\<open>xs\<close> for the stages of a source.\<close>

definition with_states :: "string \<Rightarrow> string \<Rightarrow> string list \<Rightarrow> (string \<times> string \<times> string \<Rightarrow> string option) \<Rightarrow> string \<times> string \<times> string \<Rightarrow> string option" where
  "with_states rid pre xs m = m ++ map_of (zip (map (stage_id rid pre) STAGE_KEYS) xs)"

definition pending_stages :: "string \<Rightarrow> string \<Rightarrow> (string \<times> string \<times> string \<Rightarrow> string option) \<Rightarrow> bool" where
  "pending_stages rid pre m \<longleftrightarrow> (\<forall>s \<in> set STAGE_KEYS. m (stage_id rid pre s) = Some PENDING)"

lemma with_upd:
  assumes "length xs = 5" "i < 5"
  shows "(with_states rid pre xs m)(stage_id rid pre (STAGE_KEYS ! i) \<mapsto> x) = with_states rid pre (xs[i := x]) m"
proof -
  have d: "distinct (map (stage_id rid pre) STAGE_KEYS)" by (simp add: distinct_map inj_on_def)
  have "map_of (zip ks (xs[i := x])) = (map_of (zip ks xs))(ks ! i \<mapsto> x)" if ks: "distinct ks" "length ks = length xs" "i < length xs" for ks :: "(string \<times> string \<times> string) list"
  proof
    fix k
    show "map_of (zip ks (xs[i := x])) k = ((map_of (zip ks xs))(ks ! i \<mapsto> x)) k"
    proof (cases "k \<in> set ks")
      case True
      then obtain j where "j < length ks" "k = ks ! j" by (auto simp: in_set_conv_nth)
      then show ?thesis using ks by (simp add: map_of_zip_nth nth_eq_iff_index_eq nth_list_update)
    next
      case False
      have out: "map_of (zip ks ys) k = None" if "length ks = length ys" for ys using iffD2 [OF map_of_zip_is_None [OF that]] False by blast
      have "k \<noteq> ks ! i" using False ks nth_mem [of i ks] by auto
      then have "((map_of (zip ks xs))(ks ! i \<mapsto> x)) k = map_of (zip ks xs) k" by (rule fun_upd_other)
      then show ?thesis unfolding out [OF ks(2)] using out [of "xs[i := x]"] ks(2) by (metis length_list_update)
    qed
  qed
  from this [OF d] show ?thesis using assms by (simp add: with_states_def)
qed

lemma with_get: "length xs = 5 \<Longrightarrow> i < 5 \<Longrightarrow> with_states rid pre xs m (stage_id rid pre (STAGE_KEYS ! i)) = Some (xs ! i)"
proof -
  assume l: "length xs = 5" "i < 5"
  have "distinct (map (stage_id rid pre) STAGE_KEYS)" by (simp add: distinct_map inj_on_def)
  from map_of_zip_nth [OF _ this, of xs i] show ?thesis using l by (simp add: with_states_def map_add_def)
qed

lemma with_other: "length xs = 5 \<Longrightarrow> k \<notin> stage_id rid pre ` set STAGE_KEYS \<Longrightarrow> with_states rid pre xs m k = m k"
proof -
  assume l: "length xs = 5" and k: "k \<notin> stage_id rid pre ` set STAGE_KEYS"
  have "map_of (zip (map (stage_id rid pre) STAGE_KEYS) xs) k = None"
    by (rule iffD2 [OF map_of_zip_is_None]) (use l k in simp_all)
  then show ?thesis by (simp add: with_states_def map_add_def)
qed

lemma with_pending: "pending_stages rid pre m \<Longrightarrow> with_states rid pre (replicate 5 PENDING) m = m"
proof
  fix k assume p: "pending_stages rid pre m"
  show "with_states rid pre (replicate 5 PENDING) m k = m k"
  proof (cases "k \<in> stage_id rid pre ` set STAGE_KEYS")
    case True
    then obtain i where "i < 5" "k = stage_id rid pre (STAGE_KEYS ! i)" by (auto simp: in_set_conv_nth)
    then show ?thesis using p with_get [of "replicate 5 PENDING" i] by (simp add: pending_stages_def)
  qed (simp add: with_other)
qed

section \<open>One stage\<close>

lemma open_states [simp]: "PENDING \<notin> set task_status_terminal" "RUNNING \<notin> set task_status_terminal" "RUNNING \<noteq> FAILED" "RUNNING \<noteq> CANCELLED" "RUNNING \<notin> {FAILED, CANCELLED}"
  by (simp_all add: task_status_terminal_def PENDING_def RUNNING_def FAILED_def CANCELLED_def COMPLETED_def COMPLETED_WITH_ERRORS_def)

text \<open>Nothing is left to commit.\<close>

definition settled :: "veeam_store \<Rightarrow> veeam_work" where
  "settled st = \<lparr>vw_committed = st, vw_session = st\<rparr>"

lemma settled_simps [simp]: "vw_session (settled st) = st" "vw_committed (settled st) = st" "session_runs (settled st) = vz_runs st"
  "rollback (settled st) = settled st" "commit (settled st) = settled st" "commit (set_runs db (settled st)) = settled (st\<lparr>vz_runs := db\<rparr>)"
  by (simp_all add: settled_def session_runs_def rollback_def commit_def set_runs_def)

lemma in_stage_tracks:
  assumes t: "tracks rid (session_runs w) r keys (with_states rid pre xs m)" and xs: "length xs = 5" "i < 5" "xs ! i = PENDING"
    and res: "in_stage env rid pre (STAGE_KEYS ! i) mo body report w = Some (w', res)"
  shows "\<exists>db. w' = settled ((vw_session w)\<lparr>vz_runs := db\<rparr>) \<and>
    (case res of Inl x \<Rightarrow> vf_stage x = Some (STAGE_KEYS ! i) \<and> tracks rid db r keys (with_states rid pre (xs[i := RUNNING]) m)
     | Inr _ \<Rightarrow> tracks rid db r keys (with_states rid pre (xs[i := COMPLETED]) m))"
proof -
  let ?k = "pre @ STAGE_KEYS ! i"
  have k: "(rid, ''step'', ?k) = stage_id rid pre (STAGE_KEYS ! i)" by (simp add: stage_id_def)
  have "with_states rid pre xs m (rid, ''step'', ?k) = Some PENDING" unfolding k using with_get [OF xs(1,2)] xs(3) by simp
  from tracks_ops(1) [OF t this open_states(1), of "vx_now env"] obtain db1 where
    start: "start_item rid ''step'' ?k (vx_now env) (session_runs w) = Inr db1" and t1: "tracks rid db1 r keys (with_states rid pre (xs[i := RUNNING]) m)"
    unfolding k with_upd [OF xs(1,2)] by blast
  have w1: "commit (set_runs db1 w) = settled ((vw_session w)\<lparr>vz_runs := db1\<rparr>)" by (simp add: commit_def set_runs_def settled_def)
  show ?thesis
  proof (cases "the body")
    case (Inl e)
    then have "w' = settled ((vw_session w)\<lparr>vz_runs := db1\<rparr>) \<and> res = Inl \<lparr>vf_stage = Some (STAGE_KEYS ! i), vf_match = mo, vf_error = e\<rparr>"
      using res start w1 by (cases body) (simp_all add: in_stage_def Let_def)
    then show ?thesis using t1 by auto
  next
    case (Inr x)
    have l: "length (xs[i := RUNNING]) = 5" using xs(1) by simp
    have "with_states rid pre (xs[i := RUNNING]) m (rid, ''step'', ?k) = Some RUNNING" unfolding k using with_get [OF l xs(2)] xs by simp
    from tracks_ops(2) [OF t1 this open_states(5), of "Some (fst (report x))" "Some (snd (report x))" "vx_now env"] obtain db2 where
      ended: "complete_item rid ''step'' ?k (Some (fst (report x))) (Some (snd (report x))) (vx_now env) db1 = Inr db2"
        "tracks rid db2 r keys (with_states rid pre (xs[i := COMPLETED]) m)"
      unfolding k with_upd [OF l xs(2)] list_update_overwrite by blast
    have "w' = settled ((vw_session w)\<lparr>vz_runs := db2\<rparr>) \<and> res = Inr x"
      using res start w1 Inr ended(1) by (cases body) (simp_all add: in_stage_def Let_def case_prod_unfold)
    then show ?thesis using ended(2) by auto
  qed
qed

section \<open>The run of a single source\<close>

text \<open>What the summaries of pydantic have, as far as the sources are put into them.\<close>

definition has_data :: "pyobj \<Rightarrow> bool" where
  "has_data v \<longleftrightarrow> (case obj_get v ''ext'' of None \<Rightarrow> False | Some ext \<Rightarrow> obj_get ext ''data'' \<noteq> None)"

definition accepts :: "summary_model \<Rightarrow> bool" where
  "accepts M \<longleftrightarrow> (\<forall>b v. \<exists>x. M b v = Some (''sync_veeam_backups'', x) \<and> has_data x)"

definition ends_with :: "bool \<Rightarrow> int \<Rightarrow> (string \<times> string \<times> string \<Rightarrow> string option) \<Rightarrow> task_run \<Rightarrow> task_run \<Rightarrow> bool" where
  "ends_with finalize now m r r' \<longleftrightarrow> (if finalize then tr_completed_at r' = Some now \<and> tr_task_key r' = ''sync_veeam_backups''
      \<and> tr_status r' = (if \<exists>k x. m k = Some x \<and> x \<in> {FAILED, CANCELLED} then FAILED else COMPLETED)
    else r' = r)"

definition open_run :: "task_run \<Rightarrow> bool" where
  "open_run r \<longleftrightarrow> tr_status r = RUNNING \<and> tr_task_key r = ''sync_veeam_backups''"

lemma finalize_veeam_tracks:
  assumes "accepts (vx_model env)" "tracks rid db r keys m" "open_run r"
  shows "\<exists>db' r'. finalize_veeam_run env rid payload override msg clear db = Inr db' \<and> tracks rid db' r' keys m
    \<and> tr_status r' = (case override of Some x \<Rightarrow> x | None \<Rightarrow> if \<exists>k x. m k = Some x \<and> x \<in> {FAILED, CANCELLED} then FAILED else COMPLETED)
    \<and> tr_completed_at r' = Some (vx_now env) \<and> tr_task_key r' = ''sync_veeam_backups''"
proof -
  obtain v where v: "vx_model env True payload = Some (''sync_veeam_backups'', v)" using assms(1) unfolding accepts_def by blast
  have M: "\<exists>v'. vx_model env b v = Some (''sync_veeam_backups'', v')" for b v using assms(1) unfolding accepts_def by blast
  have r: "tr_status r \<notin> {CANCELLED, FAILED}" "tr_task_key r = ''sync_veeam_backups''" using assms(3) by (auto simp: open_run_def)
  obtain db' r' where "finalize_run_with_summary (vx_model env) rid (Some v) override msg clear (vx_now env) db = Inr db'" "tracks rid db' r' keys m"
    "tr_status r' = (case override of Some x \<Rightarrow> x | None \<Rightarrow> if \<exists>k x. m k = Some x \<and> x \<in> {FAILED, CANCELLED} then FAILED else COMPLETED)"
    "tr_completed_at r' = Some (vx_now env)" "tr_task_key r' = ''sync_veeam_backups''"
    using finalize_tracks [where M = "vx_model env", OF assms(2) r M, where summary = v and override = override and msg = msg and clear = clear and now = "vx_now env"] by blast
  moreover from this(1) have "finalize_veeam_run env rid payload override msg clear db = Inr db'" by (simp add: finalize_veeam_run_def v)
  ultimately show ?thesis by blast
qed

text \<open>The last stage.\<close>

definition source_written :: "veeam_sync_env \<Rightarrow> string \<Rightarrow> veeam_binding \<Rightarrow> veeam_store \<Rightarrow> veeam_store \<Rightarrow> bool" where
  "source_written env rid b st st' \<longleftrightarrow> (\<exists>t. st' = (mark_source (vb_id b) (vx_now env) ''completed'' rid None (st\<lparr>vz_snapshots := t\<rparr>))\<lparr>vz_runs := vz_runs st'\<rparr>)"

lemma write_source_tracks:
  assumes ok: "accepts (vx_model env)" "open_run r" and t: "tracks rid (vz_runs st) r keys (with_states rid pre xs m)"
    and xs: "length xs = 5" "xs ! 4 = RUNNING" and res: "write_source env rid b pre finalize c f latest st = Inr (st', n)"
  shows "source_written env rid b st st' \<and> (\<exists>r'. tracks rid (vz_runs st') r' keys (with_states rid pre (xs[4 := COMPLETED]) m)
    \<and> ends_with finalize (vx_now env) (with_states rid pre (xs[4 := COMPLETED]) m) r r')"
proof -
  define written where "written = (if 0 < skipped_objects c then upsert_machine_backup_snapshots else replace_machine_backup_snapshots)
     (vt_ip (vx_texts env)) latest (vb_id b) rid (vx_now env) (vz_snapshots st)"
  obtain tb where tb: "records_to_write_valid latest" "written = Some (n, tb)"
    using res unfolding write_source_def Let_def written_def [symmetric] by (auto split: if_splits option.splits sum.splits)
  let ?st = "mark_source (vb_id b) (vx_now env) ''completed'' rid None (st\<lparr>vz_snapshots := tb\<rparr>)" and ?rep = "write_report (length latest) n (0 < skipped_objects c)"
  have five: "(4::nat) < 5" and key: "STAGE_KEYS ! 4 = WRITE_SNAPSHOTS" by (simp_all add: STAGE_KEYS_def)
  have k: "(rid, ''step'', pre @ WRITE_SNAPSHOTS) = stage_id rid pre (STAGE_KEYS ! 4)" by (simp add: stage_id_def key)
  have "with_states rid pre xs m (rid, ''step'', pre @ WRITE_SNAPSHOTS) = Some RUNNING" unfolding k using with_get [OF xs(1) five] xs by simp
  from tracks_ops(2) [OF t this open_states(5), of "Some (fst ?rep)" "Some (snd ?rep)" "vx_now env"] obtain db1 where
    db1: "complete_item rid ''step'' (pre @ WRITE_SNAPSHOTS) (Some (fst ?rep)) (Some (snd ?rep)) (vx_now env) (vz_runs st) = Inr db1"
      "tracks rid db1 r keys (with_states rid pre (xs[4 := COMPLETED]) m)"
    unfolding k with_upd [OF xs(1) five] by blast
  have runs: "vz_runs ?st = vz_runs st" by (simp add: mark_source_def)
  show ?thesis
  proof (cases finalize)
    case True
    let ?co = "summarize_coverage (mc_records c) (fc_records f)"
    let ?p = "veeam_summary_payload (credential_input b) (source_totals n c f ?co) [] (0 < skipped_objects c \<or> is_backup_files_partial_success f \<or> co_missing ?co \<noteq> 0) None"
    from finalize_veeam_tracks [OF ok(1) db1(2) ok(2), of ?p None None True] obtain db2 r' where
      db2: "finalize_veeam_run env rid ?p None None True db1 = Inr db2" "tracks rid db2 r' keys (with_states rid pre (xs[4 := COMPLETED]) m)"
        "ends_with True (vx_now env) (with_states rid pre (xs[4 := COMPLETED]) m) r r'"
      by (auto simp: ends_with_def)
    have "write_source env rid b pre finalize c f latest st = Inr (?st\<lparr>vz_runs := db2\<rparr>, n)"
      unfolding write_source_def Let_def written_def [symmetric] by (simp add: tb runs db1(1) True db2(1) del: neq0_conv)
    then have "st' = ?st\<lparr>vz_runs := db2\<rparr>" using res by simp
    then show ?thesis using True db2(2,3) by (auto simp: source_written_def)
  next
    case False
    have "write_source env rid b pre finalize c f latest st = Inr (?st\<lparr>vz_runs := db1\<rparr>, n)"
      unfolding write_source_def Let_def written_def [symmetric] by (simp add: tb runs db1(1) False)
    then have "st' = ?st\<lparr>vz_runs := db1\<rparr>" using res by simp
    then show ?thesis using False db1(2) by (auto simp: source_written_def ends_with_def)
  qed
qed

lemma write_stage_tracks:
  assumes ok: "accepts (vx_model env)" "open_run r" and t: "tracks rid (session_runs w) r keys (with_states rid pre xs m)"
    and xs: "length xs = 5" "xs ! 4 = PENDING" and res: "write_stage env rid b pre finalize mo c f w = (w', res)"
  shows "case res of
      Inl x \<Rightarrow> vf_stage x = Some (STAGE_KEYS ! 4) \<and> (\<exists>db. w' = settled ((vw_session w)\<lparr>vz_runs := db\<rparr>) \<and> tracks rid db r keys (with_states rid pre (xs[4 := RUNNING]) m))
    | Inr n \<Rightarrow> \<exists>st r'. w' = settled st \<and> source_written env rid b (vw_session w) st \<and> tracks rid (vz_runs st) r' keys (with_states rid pre (xs[4 := COMPLETED]) m)
        \<and> ends_with finalize (vx_now env) (with_states rid pre (xs[4 := COMPLETED]) m) r r'"
proof -
  have five: "(4::nat) < 5" and key: "STAGE_KEYS ! 4 = WRITE_SNAPSHOTS" by (simp_all add: STAGE_KEYS_def)
  have k: "(rid, ''step'', pre @ WRITE_SNAPSHOTS) = stage_id rid pre (STAGE_KEYS ! 4)" by (simp add: stage_id_def key)
  have "with_states rid pre xs m (rid, ''step'', pre @ WRITE_SNAPSHOTS) = Some PENDING" unfolding k using with_get [OF xs(1) five] xs(2) by simp
  from tracks_ops(1) [OF t this open_states(1), of "vx_now env"] obtain db1 where
    start: "start_item rid ''step'' (pre @ WRITE_SNAPSHOTS) (vx_now env) (session_runs w) = Inr db1" and t1: "tracks rid db1 r keys (with_states rid pre (xs[4 := RUNNING]) m)"
    unfolding k with_upd [OF xs(1) five] by blast
  let ?st = "(vw_session w)\<lparr>vz_runs := db1\<rparr>"
  have w1: "commit (set_runs db1 w) = settled ?st" by (simp add: commit_def set_runs_def settled_def)
  define latest where "latest = select_latest_records (vx_texts env) (merge_metrics_into_records (mc_records c) (fc_records f))"
  show ?thesis
  proof (cases "write_source env rid b pre finalize c f latest ?st")
    case (Inl e)
    then have "w' = settled ?st \<and> res = Inl \<lparr>vf_stage = Some WRITE_SNAPSHOTS, vf_match = Some mo, vf_error = e\<rparr>"
      using res start w1 by (simp add: write_stage_def Let_def latest_def [symmetric])
    then show ?thesis using t1 key by auto
  next
    case (Inr x)
    then obtain st n where x: "write_source env rid b pre finalize c f latest ?st = Inr (st, n)" by (cases x) simp
    then have w': "w' = settled st \<and> res = Inr n"
      using res start unfolding write_stage_def Let_def latest_def [symmetric] by (simp add: w1) (simp add: commit_def settled_def)
    have t2: "tracks rid (vz_runs ?st) r keys (with_states rid pre (xs[4 := RUNNING]) m)" using t1 by simp
    have l: "length (xs[4 := RUNNING]) = 5" "xs[4 := RUNNING] ! 4 = RUNNING" using xs(1) by simp_all
    from write_source_tracks [OF ok t2 l x] have "source_written env rid b (vw_session w) st" "\<exists>r'. tracks rid (vz_runs st) r' keys (with_states rid pre (xs[4 := COMPLETED]) m)
      \<and> ends_with finalize (vx_now env) (with_states rid pre (xs[4 := COMPLETED]) m) r r'"
      by (simp_all add: source_written_def mark_source_def)
    then show ?thesis using w' by auto
  qed
qed

section \<open>All stages of a source\<close>

definition stage_outcome :: "nat \<Rightarrow> string list" where
  "stage_outcome stop = (if stop < 5 then replicate stop COMPLETED @ FAILED # replicate (4 - stop) CANCELLED else replicate 5 COMPLETED)"

text \<open>How far the stages came before the handler: \<^verbatim>\<open>stop\<close> of them are completed and the next one runs.\<close>

definition stopped_at :: "nat \<Rightarrow> string list" where
  "stopped_at stop = replicate stop COMPLETED @ RUNNING # replicate (4 - stop) PENDING"

lemma stage_keys_nth: "STAGE_KEYS ! 0 = FETCH_BACKUP_OBJECTS" "STAGE_KEYS ! 1 = MATCH_BACKUP_OBJECTS" "STAGE_KEYS ! 2 = FETCH_RESTORE_POINTS"
  "STAGE_KEYS ! 3 = FETCH_BACKUP_FILES" "STAGE_KEYS ! 4 = WRITE_SNAPSHOTS"
  by (simp_all add: STAGE_KEYS_def)

text \<open>The statuses before the stage \<^verbatim>\<open>i\<close>.\<close>

definition before_stage :: "nat \<Rightarrow> string list" where
  "before_stage i = replicate i COMPLETED @ replicate (5 - i) PENDING"

lemma before_stage_simps:
  "length (before_stage i) = (if i \<le> 5 then 5 else i)" "i < 5 \<Longrightarrow> before_stage i ! i = PENDING"
  "i < 5 \<Longrightarrow> (before_stage i)[i := RUNNING] = stopped_at i" "i < 5 \<Longrightarrow> (before_stage i)[i := COMPLETED] = before_stage (Suc i)"
  "before_stage 0 = replicate 5 PENDING" "before_stage 5 = replicate 5 COMPLETED"
proof -
  show "i < 5 \<Longrightarrow> (before_stage i)[i := RUNNING] = stopped_at i" "i < 5 \<Longrightarrow> (before_stage i)[i := COMPLETED] = before_stage (Suc i)"
    by (auto simp: before_stage_def stopped_at_def list_update_append nth_append numeral_eq_Suc less_Suc_eq)
qed (auto simp: before_stage_def nth_append)

lemma stage_turn:
  assumes "tracks rid (session_runs w) r keys (with_states rid pre (before_stage i) m)" "i < 5" "in_stage env rid pre key mo body report w = Some (w', res)" "key = STAGE_KEYS ! i"
  shows "\<exists>db. w' = settled ((vw_session w)\<lparr>vz_runs := db\<rparr>) \<and>
    (case res of Inl x \<Rightarrow> vf_stage x = Some (STAGE_KEYS ! i) \<and> tracks rid db r keys (with_states rid pre (stopped_at i) m)
     | Inr _ \<Rightarrow> tracks rid db r keys (with_states rid pre (before_stage (Suc i)) m))"
  using in_stage_tracks [OF assms(1) _ assms(2) _ assms(3) [unfolded assms(4)]] assms(2)
  unfolding before_stage_simps(3,4) [OF assms(2)] by (simp add: before_stage_simps)

text \<open>How the stages end, from what the session had before them.\<close>

definition stages_end ::
  "veeam_sync_env \<Rightarrow> string \<Rightarrow> veeam_binding \<Rightarrow> string \<Rightarrow> bool \<Rightarrow> task_run \<Rightarrow> (string \<times> string \<times> string) list
     \<Rightarrow> (string \<times> string \<times> string \<Rightarrow> string option) \<Rightarrow> veeam_store \<Rightarrow> veeam_work \<Rightarrow> veeam_failure + nat \<Rightarrow> bool" where
  "stages_end env rid b pre finalize r keys m st w' res \<longleftrightarrow> (case res of
      Inl x \<Rightarrow> \<exists>stop < 5. \<exists>db. vf_stage x = Some (STAGE_KEYS ! stop) \<and> w' = settled (st\<lparr>vz_runs := db\<rparr>)
        \<and> tracks rid db r keys (with_states rid pre (stopped_at stop) m)
    | Inr n \<Rightarrow> \<exists>st' r'. w' = settled st' \<and> source_written env rid b st st' \<and> tracks rid (vz_runs st') r' keys (with_states rid pre (stage_outcome 5) m)
        \<and> ends_with finalize (vx_now env) (with_states rid pre (stage_outcome 5) m) r r')"

lemma stages_end_runs: "stages_end env rid b pre finalize r keys m (st\<lparr>vz_runs := db\<rparr>) w' res \<longleftrightarrow> stages_end env rid b pre finalize r keys m st w' res"
  by (simp add: stages_end_def source_written_def mark_source_def split: sum.split)

lemma stages_step:
  assumes "i < 5" "key = STAGE_KEYS ! i" "tracks rid (session_runs w) r keys (with_states rid pre (before_stage i) m)"
    and res: "next_stage (in_stage env rid pre key mo body report w) rest = Some (w', res)"
    and rest: "\<And>w1 y. tracks rid (session_runs w1) r keys (with_states rid pre (before_stage (Suc i)) m) \<Longrightarrow> rest w1 y = Some (w', res)
      \<Longrightarrow> stages_end env rid b pre finalize r keys m (vw_session w1) w' res"
  shows "stages_end env rid b pre finalize r keys m (vw_session w) w' res"
proof -
  from res obtain w1 y where y: "in_stage env rid pre key mo body report w = Some (w1, y)" by (auto simp: next_stage_def split: option.splits)
  from stage_turn [OF assms(3,1) y assms(2)] obtain db where db: "w1 = settled ((vw_session w)\<lparr>vz_runs := db\<rparr>)"
    "case y of Inl x \<Rightarrow> vf_stage x = Some (STAGE_KEYS ! i) \<and> tracks rid db r keys (with_states rid pre (stopped_at i) m)
     | Inr _ \<Rightarrow> tracks rid db r keys (with_states rid pre (before_stage (Suc i)) m)" by blast
  show ?thesis
  proof (cases y)
    case (Inl x)
    then have "res = Inl x" "w' = w1" using res y by (simp_all add: next_stage_def)
    then show ?thesis using Inl db assms(1) by (auto simp: stages_end_def intro!: exI [of _ i])
  next
    case (Inr z)
    then have "stages_end env rid b pre finalize r keys m (vw_session w1) w' res" using res y db by (intro rest [of w1 z]) (simp_all add: next_stage_def)
    then show ?thesis unfolding db(1) settled_simps stages_end_runs .
  qed
qed

lemma stages_last:
  assumes ok: "accepts (vx_model env)" "open_run r" and t: "tracks rid (session_runs w) r keys (with_states rid pre (before_stage 4) m)"
    and w: "write_stage env rid b pre finalize mo c f w = (w', res)"
  shows "stages_end env rid b pre finalize r keys m (vw_session w) w' res"
proof -
  have four: "length (before_stage 4) = 5" "before_stage 4 ! 4 = PENDING" "(before_stage 4)[4 := RUNNING] = stopped_at 4" "(before_stage 4)[4 := COMPLETED] = stage_outcome 5"
    by (simp_all add: before_stage_simps stage_outcome_def)
  from write_stage_tracks [OF ok t four(1,2) w] show ?thesis unfolding four(3,4) stages_end_def
    by (cases res) (auto intro!: exI [of _ "4::nat"])
qed

lemma source_stages_tracks:
  assumes ok: "accepts (vx_model env)" "open_run r" and t: "tracks rid (session_runs w) r keys m" and p: "pending_stages rid pre m"
    and res: "source_stages env rid b credential pre finalize w = Some (w', res)"
  shows "stages_end env rid b pre finalize r keys m (vw_session w) w' res"
proof -
  have t0: "tracks rid (session_runs w) r keys (with_states rid pre (before_stage 0) m)" using t with_pending [OF p] by (simp add: before_stage_simps)
  show ?thesis
    using res unfolding source_stages_def Let_def
  proof (rule stages_step [of 0, OF _ stage_keys_nth(1) [symmetric] t0, rotated], goal_cases)
    case (1 w1 objects)
    from 1(2) show ?case
    proof (rule stages_step [of 1, OF _ stage_keys_nth(2) [symmetric] _, rotated 2], goal_cases)
      case (1 w2 m)
      from 1(2) show ?case
      proof (rule stages_step [of 2, OF _ stage_keys_nth(3) [symmetric] _, rotated 2], goal_cases)
        case (1 w3 points)
        from 1(2) show ?case
        proof (rule stages_step [of 3, OF _ stage_keys_nth(4) [symmetric] _, rotated 2], goal_cases)
          case (1 w4 f)
          have "write_stage env rid b pre finalize m (snd points) f w4 = (w', res)" using 1(2) by simp
          from stages_last [OF ok _ this] 1(1) show ?case by (simp add: eval_nat_numeral)
        qed (use 1(1) in \<open>simp_all add: eval_nat_numeral\<close>)
      qed (use 1(1) in \<open>simp_all add: eval_nat_numeral\<close>)
    qed (use 1(1) in \<open>simp_all add: eval_nat_numeral\<close>)
  qed simp
qed

section \<open>The handler\<close>

lemma stage_items_keys: "map fst SYNC_STAGE_ITEMS = STAGE_KEYS"
  by (simp add: SYNC_STAGE_ITEMS_def STAGE_KEYS_def)

lemma following_stages_nth: "i < 5 \<Longrightarrow> following_stages (Some (STAGE_KEYS ! i)) = drop (Suc i) STAGE_KEYS"
proof -
  assume i: "i < 5"
  have "dropWhile (\<lambda>k. k \<noteq> xs ! i) xs = drop i xs" if "distinct xs" "i < length xs" for xs :: "string list" and i
    using that by (induction xs arbitrary: i) (auto simp: nth_Cons split: nat.splits dest: nth_mem)
  from this [of STAGE_KEYS i] i show ?thesis by (simp add: following_stages_def stage_items_keys)
qed

lemma cancel_tracks:
  assumes "tracks rid db r keys (with_states rid pre xs m)" "length xs = 5" "j \<le> 5" "\<forall>l. j \<le> l \<and> l < 5 \<longrightarrow> xs ! l = PENDING"
  shows "\<exists>db'. cancel_stages rid pre now (drop j STAGE_KEYS) db = Inr db' \<and> tracks rid db' r keys (with_states rid pre (take j xs @ replicate (5 - j) CANCELLED) m)"
  using assms
proof (induction "5 - j" arbitrary: j xs db)
  case 0
  then show ?case by simp
next
  case (Suc n)
  then have j: "j < 5" by simp
  have d: "drop j STAGE_KEYS = STAGE_KEYS ! j # drop (Suc j) STAGE_KEYS" using Cons_nth_drop_Suc [of j STAGE_KEYS] j by simp
  have k: "(rid, ''step'', pre @ STAGE_KEYS ! j) = stage_id rid pre (STAGE_KEYS ! j)" by (simp add: stage_id_def)
  have "with_states rid pre xs m (rid, ''step'', pre @ STAGE_KEYS ! j) = Some PENDING" unfolding k using with_get [OF Suc.prems(2) j] Suc.prems(4) j by simp
  from tracks_ops(4) [OF Suc.prems(1) this open_states(1), of "Some cancelled_details" now] obtain db1 where
    c: "cancel_item rid ''step'' (pre @ STAGE_KEYS ! j) (Some cancelled_details) now db = Inr db1" "tracks rid db1 r keys (with_states rid pre (xs[j := CANCELLED]) m)"
    unfolding k with_upd [OF Suc.prems(2) j] by blast
  have "\<exists>db'. cancel_stages rid pre now (drop (Suc j) STAGE_KEYS) db1 = Inr db'
    \<and> tracks rid db' r keys (with_states rid pre (take (Suc j) (xs[j := CANCELLED]) @ replicate (5 - Suc j) CANCELLED) m)"
    by (rule Suc.hyps(1)) (use Suc.prems Suc.hyps(2) c(2) j in auto)
  moreover have "take (Suc j) (xs[j := CANCELLED]) @ replicate (5 - Suc j) CANCELLED = take j xs @ replicate (5 - j) CANCELLED"
    using j Suc.prems(2) by (simp add: take_Suc_conv_app_nth replicate_append_same [symmetric] Suc_diff_Suc [symmetric])
  ultimately show ?case unfolding d by (simp add: c(1))
qed

text \<open>What the commit of a source leaves of the rest of the store.\<close>

definition marked :: "veeam_sync_env \<Rightarrow> string \<Rightarrow> veeam_binding \<Rightarrow> nat \<Rightarrow> veeam_store \<Rightarrow> veeam_store \<Rightarrow> bool" where
  "marked env rid b stop st st' \<longleftrightarrow> (\<exists>t e. (stop < 5 \<longrightarrow> t = vz_snapshots st)
    \<and> st' = (mark_source (vb_id b) (vx_now env) (if stop < 5 then ''failed'' else ''completed'') rid e (st\<lparr>vz_snapshots := t\<rparr>))\<lparr>vz_runs := vz_runs st'\<rparr>)"

lemma source_failed_tracks:
  assumes ok: "accepts (vx_model env)" "open_run r" and stop: "stop < 5" "vf_stage x = Some (STAGE_KEYS ! stop)"
    and t: "tracks rid db r keys (with_states rid pre (stopped_at stop) m)"
  shows "\<exists>st' r'. source_failed env rid b pre finalize x (settled (st\<lparr>vz_runs := db\<rparr>)) = (settled st', vf_error x) \<and> marked env rid b stop st st'
    \<and> tracks rid (vz_runs st') r' keys (with_states rid pre (stage_outcome stop) m) \<and> ends_with finalize (vx_now env) (with_states rid pre (stage_outcome stop) m) r r'"
proof -
  define msg where "msg = sync_error_text env (vf_error x)"
  let ?de = "Some (build_failed_stage_details env x)"
  have l: "length (stopped_at stop) = 5" "stopped_at stop ! stop = RUNNING" using stop(1) by (auto simp: stopped_at_def nth_append)
  have k: "(rid, ''step'', pre @ STAGE_KEYS ! stop) = stage_id rid pre (STAGE_KEYS ! stop)" by (simp add: stage_id_def)
  have "with_states rid pre (stopped_at stop) m (rid, ''step'', pre @ STAGE_KEYS ! stop) = Some RUNNING" unfolding k using with_get [OF l(1) stop(1)] l(2) by simp
  from tracks_ops(3) [OF t this open_states(4), of msg ?de "vx_now env"] obtain db1 where
    db1: "fail_item rid ''step'' (pre @ STAGE_KEYS ! stop) msg ?de (vx_now env) db = Inr db1" "tracks rid db1 r keys (with_states rid pre ((stopped_at stop)[stop := FAILED]) m)"
    unfolding k with_upd [OF l(1) stop(1)] by blast
  let ?xs = "(stopped_at stop)[stop := FAILED]"
  have xs: "?xs = replicate stop COMPLETED @ FAILED # replicate (4 - stop) PENDING" by (simp add: stopped_at_def list_update_append)
  have "\<forall>l. Suc stop \<le> l \<and> l < 5 \<longrightarrow> ?xs ! l = PENDING" unfolding xs by (auto simp: nth_append nth_Cons split: nat.split)
  from cancel_tracks [OF db1(2) _ _ this, of "vx_now env"] obtain db2 where
    db2: "cancel_stages rid pre (vx_now env) (drop (Suc stop) STAGE_KEYS) db1 = Inr db2" "tracks rid db2 r keys (with_states rid pre (stage_outcome stop) m)"
    using l(1) stop(1) by (auto simp: xs stage_outcome_def)
  let ?st = "mark_source (vb_id b) (vx_now env) ''failed'' rid (Some msg) (st\<lparr>vz_runs := db\<rparr>)"
  have runs: "vz_runs ?st = db" by (simp add: mark_source_def)
  obtain db3 r' where db3: "write_failure env rid b pre finalize x db = Inr db3" "tracks rid db3 r' keys (with_states rid pre (stage_outcome stop) m)"
    "ends_with finalize (vx_now env) (with_states rid pre (stage_outcome stop) m) r r'"
  proof (cases finalize)
    case True
    from finalize_veeam_tracks [OF ok(1) db2(2) ok(2), of "veeam_summary_payload (credential_input b) no_totals [] False (Some msg)" None "Some msg" False] obtain db3 r' where
      db3: "finalize_veeam_run env rid (veeam_summary_payload (credential_input b) no_totals [] False (Some msg)) None (Some msg) False db2 = Inr db3"
        "tracks rid db3 r' keys (with_states rid pre (stage_outcome stop) m)" "ends_with True (vx_now env) (with_states rid pre (stage_outcome stop) m) r r'"
      by (auto simp: ends_with_def)
    have "write_failure env rid b pre finalize x db = Inr db3"
      unfolding write_failure_def Let_def stop(2) failed_item_key_def option.case following_stages_nth [OF stop(1)] msg_def [symmetric] by (simp add: db1(1) db2(1) db3(1) True)
    then show ?thesis using that db3(2,3) True by simp
  next
    case False
    have "write_failure env rid b pre finalize x db = Inr db2"
      unfolding write_failure_def Let_def stop(2) failed_item_key_def option.case following_stages_nth [OF stop(1)] msg_def [symmetric] by (simp add: db1(1) db2(1) False)
    then show ?thesis using that [of db2 r] db2(2) False by (simp add: ends_with_def)
  qed
  have "source_failed env rid b pre finalize x (settled (st\<lparr>vz_runs := db\<rparr>)) = (settled (?st\<lparr>vz_runs := db3\<rparr>), vf_error x)"
    unfolding source_failed_def Let_def settled_simps msg_def [symmetric]
    by (simp add: session_runs_def runs db3(1)) (simp add: commit_def set_runs_def settled_def)
  moreover have "marked env rid b stop st (?st\<lparr>vz_runs := db3\<rparr>)" using stop(1) by (auto simp: marked_def mark_source_def)
  ultimately show ?thesis using db3(2,3) by (intro exI [of _ "?st\<lparr>vz_runs := db3\<rparr>"] exI [of _ r']) simp
qed

section \<open>One source\<close>

lemma source_once_tracks:
  assumes ok: "accepts (vx_model env)" "open_run r" and t: "tracks rid (session_runs w) r keys m" and p: "pending_stages rid pre m"
    and cred: "credential_of_source (vw_session w) b \<noteq> None" and res: "sync_source_once env rid b pre finalize w = Some (w', res)"
  shows "\<exists>stop st r'. stop \<le> 5 \<and> w' = settled st \<and> marked env rid b stop (vw_session w) st \<and> tracks rid (vz_runs st) r' keys (with_states rid pre (stage_outcome stop) m)
    \<and> ends_with finalize (vx_now env) (with_states rid pre (stage_outcome stop) m) r r' \<and> (stop < 5 \<longleftrightarrow> (\<exists>e. res = Inl e))"
proof -
  obtain c where c: "credential_of_source (vw_session w) b = Some c" using cred by blast
  from res c obtain w1 x where x: "source_stages env rid b c pre finalize w = Some (w1, x)" by (auto simp: sync_source_once_def split: option.splits)
  from source_stages_tracks [OF ok t p x] have e: "stages_end env rid b pre finalize r keys m (vw_session w) w1 x" .
  show ?thesis
  proof (cases x)
    case (Inl f)
    with e obtain stop db where stop: "stop < 5" "vf_stage f = Some (STAGE_KEYS ! stop)" "w1 = settled ((vw_session w)\<lparr>vz_runs := db\<rparr>)"
      "tracks rid db r keys (with_states rid pre (stopped_at stop) m)" by (auto simp: stages_end_def)
    from source_failed_tracks [OF ok stop(1,2,4), of b finalize "vw_session w"] obtain st' r' where
      f: "source_failed env rid b pre finalize f w1 = (settled st', vf_error f)" "marked env rid b stop (vw_session w) st'"
        "tracks rid (vz_runs st') r' keys (with_states rid pre (stage_outcome stop) m)" "ends_with finalize (vx_now env) (with_states rid pre (stage_outcome stop) m) r r'"
      unfolding stop(3) by blast
    have "w' = settled st' \<and> res = Inl (vf_error f)" using res by (simp add: sync_source_once_def c x Inl f(1))
    then show ?thesis using f stop(1) by (intro exI [of _ stop] exI [of _ st'] exI [of _ r']) simp
  next
    case (Inr n)
    with e obtain st' r' where s: "w1 = settled st'" "source_written env rid b (vw_session w) st'" "tracks rid (vz_runs st') r' keys (with_states rid pre (stage_outcome 5) m)"
      "ends_with finalize (vx_now env) (with_states rid pre (stage_outcome 5) m) r r'" by (auto simp: stages_end_def)
    have "w' = w1 \<and> res = Inr n" using res by (simp add: sync_source_once_def c x Inr)
    moreover have "marked env rid b 5 (vw_session w) st'" using s(2) by (auto simp: marked_def source_written_def)
    ultimately show ?thesis using s by (intro exI [of _ 5] exI [of _ st'] exI [of _ r']) simp
  qed
qed

section \<open>All sources\<close>

lemma source_prefix_inject: "source_stage_prefix b @ s = source_stage_prefix c @ s' \<Longrightarrow> vb_id b = vb_id c"
proof -
  assume same: "source_stage_prefix b @ s = source_stage_prefix c @ s'"
  have "CHR ''_'' \<notin> set (show_nat n)" for n using set_show_nat [of "CHR ''_''" n] by auto
  then have out: "CHR ''_'' \<notin> set (show_int i)" for i by (simp add: show_int_def)
  have tw: "takeWhile (\<lambda>c. c \<noteq> CHR ''_'') (show_int i @ ''_'' @ t) = show_int i" for i t
    using out [of i] by (subst takeWhile_append2) auto
  have "show_int (vb_id b) @ ''_'' @ s = show_int (vb_id c) @ ''_'' @ s'" using same by (simp add: source_stage_prefix_def)
  from arg_cong [OF this, of "takeWhile (\<lambda>c. c \<noteq> CHR ''_'')"] have "show_int (vb_id b) = show_int (vb_id c)" unfolding tw .
  then show ?thesis by simp
qed

text \<open>What a source says of its last sync.\<close>

definition source_says :: "veeam_store \<Rightarrow> string \<Rightarrow> int \<Rightarrow> string \<Rightarrow> bool" where
  "source_says st rid i status \<longleftrightarrow> (\<forall>q \<in> set (vz_bindings st). vb_id q = i \<longrightarrow> vb_run q = Some rid \<and> vb_status q = Some status)"

lemma marked_says:
  assumes "marked env rid b stop st st'"
  shows "source_says st' rid (vb_id b) (if stop < 5 then ''failed'' else ''completed'')"
    and "i \<noteq> vb_id b \<Longrightarrow> source_says st rid i x \<Longrightarrow> source_says st' rid i x"
    and "credential_of_source st' = credential_of_source st" "map vb_id (vz_bindings st') = map vb_id (vz_bindings st)"
    and "stop < 5 \<Longrightarrow> vz_snapshots st' = vz_snapshots st"
proof -
  obtain t e where st': "stop < 5 \<longrightarrow> t = vz_snapshots st"
    "st' = (mark_source (vb_id b) (vx_now env) (if stop < 5 then ''failed'' else ''completed'') rid e (st\<lparr>vz_snapshots := t\<rparr>))\<lparr>vz_runs := vz_runs st'\<rparr>"
    using assms unfolding marked_def by blast
  have rows: "vz_bindings st' = map (\<lambda>q. if vb_id q = vb_id b then q\<lparr>vb_sync_at := Some (vx_now env), vb_status := Some (if stop < 5 then ''failed'' else ''completed''),
      vb_run := Some rid, vb_error := e\<rparr> else q) (vz_bindings st)" "vz_credentials st' = vz_credentials st" "vz_snapshots st' = t"
    by (subst st'(2), simp add: mark_source_def)+
  show "source_says st' rid (vb_id b) (if stop < 5 then ''failed'' else ''completed'')"
    "i \<noteq> vb_id b \<Longrightarrow> source_says st rid i x \<Longrightarrow> source_says st' rid i x" by (auto simp: source_says_def rows)
  show "credential_of_source st' = credential_of_source st" by (simp add: fun_eq_iff credential_of_source_def rows split: option.split)
  show "map vb_id (vz_bindings st') = map vb_id (vz_bindings st)" unfolding rows(1) by (simp add: comp_def if_distrib cong: if_cong)
  show "stop < 5 \<Longrightarrow> vz_snapshots st' = vz_snapshots st" using st'(1) rows(3) by simp
qed

text \<open>The statuses of the items of a source.\<close>

definition stage_states :: "string \<Rightarrow> string \<Rightarrow> (string \<times> string \<times> string \<Rightarrow> string option) \<Rightarrow> string option list" where
  "stage_states rid pre m = map (\<lambda>s. m (stage_id rid pre s)) STAGE_KEYS"

lemma stage_states_with: "length xs = 5 \<Longrightarrow> stage_states rid pre (with_states rid pre xs m) = map Some xs"
  by (rule nth_equalityI) (simp_all add: stage_states_def with_get)

lemma length_outcome [simp]: "stop \<le> 5 \<Longrightarrow> length (stage_outcome stop) = 5"
  by (simp add: stage_outcome_def)

lemma outcome_fails: "stop \<le> 5 \<Longrightarrow> (\<exists>x \<in> set (stage_outcome stop). x \<in> {FAILED, CANCELLED}) \<longleftrightarrow> stop < 5"
  by (cases "stop < 5") (simp_all add: stage_outcome_def COMPLETED_def FAILED_def CANCELLED_def)

definition source_result :: "string \<Rightarrow> veeam_store \<Rightarrow> (string \<times> string \<times> string \<Rightarrow> string option) \<Rightarrow> string \<Rightarrow> veeam_binding \<Rightarrow> nat \<Rightarrow> bool" where
  "source_result rid st m pre b stop \<longleftrightarrow> stop \<le> 5 \<and> stage_states rid pre m = map Some (stage_outcome stop)
     \<and> source_says st rid (vb_id b) (if stop < 5 then ''failed'' else ''completed'')"

text \<open>The changes of the sources \<^verbatim>\<open>bs\<close> leave the items and the marks of others.\<close>

definition frames :: "string \<Rightarrow> veeam_binding list \<Rightarrow> veeam_store \<Rightarrow> veeam_store \<Rightarrow> (string \<times> string \<times> string \<Rightarrow> string option) \<Rightarrow> (string \<times> string \<times> string \<Rightarrow> string option) \<Rightarrow> bool" where
  "frames rid bs st st' m m' \<longleftrightarrow> (\<forall>k. (\<forall>b \<in> set bs. k \<notin> stage_id rid (source_stage_prefix b) ` set STAGE_KEYS) \<longrightarrow> m' k = m k)
     \<and> (\<forall>i x. i \<notin> vb_id ` set bs \<longrightarrow> source_says st rid i x \<longrightarrow> source_says st' rid i x)"

lemma stage_ids_apart: "vb_id b \<noteq> vb_id c \<Longrightarrow> stage_id rid (source_stage_prefix b) s \<noteq> stage_id rid (source_stage_prefix c) s'"
proof
  assume "vb_id b \<noteq> vb_id c" "stage_id rid (source_stage_prefix b) s = stage_id rid (source_stage_prefix c) s'"
  then show False using source_prefix_inject [of b s c s'] by (simp add: stage_id_def)
qed

lemma frame_result:
  assumes "source_result rid st m (source_stage_prefix b) b stop" "frames rid bs st st' m m'" "vb_id b \<notin> vb_id ` set bs"
  shows "source_result rid st' m' (source_stage_prefix b) b stop"
proof -
  have "m' (stage_id rid (source_stage_prefix b) s) = m (stage_id rid (source_stage_prefix b) s)" for s
  proof -
    have "stage_id rid (source_stage_prefix b) s \<notin> stage_id rid (source_stage_prefix c) ` set STAGE_KEYS" if "c \<in> set bs" for c
    proof -
      have "vb_id b \<noteq> vb_id c" using assms(3) imageI [OF that, of vb_id] by metis
      then show ?thesis using stage_ids_apart by blast
    qed
    then show ?thesis using assms(2) unfolding frames_def by blast
  qed
  then show ?thesis using assms unfolding source_result_def stage_states_def frames_def by auto
qed

lemma sources_tracks:
  assumes ok: "accepts (vx_model env)" "open_run r" and many: "1 < length bindings"
  shows "distinct (map vb_id bs) \<Longrightarrow> tracks rid (session_runs w) r keys m
    \<Longrightarrow> \<forall>b \<in> set bs. pending_stages rid (source_stage_prefix b) m \<and> credential_of_source (vw_session w) b \<noteq> None
    \<Longrightarrow> sync_sources env rid bindings bs so w = Some (w', so')
    \<Longrightarrow> \<exists>stops m'. tracks rid (session_runs w') r keys m' \<and> frames rid bs (vw_session w) (vw_session w') m m'
      \<and> list_all2 (\<lambda>b. source_result rid (vw_session w') m' (source_stage_prefix b) b) bs stops
      \<and> so_successes so' = so_successes so + length (filter (\<lambda>s. \<not> s < 5) stops) \<and> length (so_failures so') = length (so_failures so) + length (filter (\<lambda>s. s < 5) stops)
      \<and> (bs \<noteq> [] \<longrightarrow> w' = settled (vw_session w'))"
proof (induction bs arbitrary: so w m)
  case Nil
  then show ?case by (auto simp: frames_def)
next
  case (Cons b bs)
  let ?p = "source_stage_prefix b"
  have pre: "stage_prefix bindings b = ?p" "(length bindings \<le> Suc 0) = False" using many by (simp_all add: stage_prefix_def)
  from Cons.prems(4) obtain w1 res where one: "sync_source_once env rid b ?p False w = Some (w1, res)"
    and rest: "sync_sources env rid bindings bs (take_source env b res so) w1 = Some (w', so')"
    by (auto simp: pre split: option.splits)
  have p: "pending_stages rid ?p m" "credential_of_source (vw_session w) b \<noteq> None" using Cons.prems(3) by simp_all
  from source_once_tracks [OF ok Cons.prems(2) p one] obtain stop st r' where
    s: "stop \<le> 5" "w1 = settled st" "marked env rid b stop (vw_session w) st" "tracks rid (vz_runs st) r' keys (with_states rid ?p (stage_outcome stop) m)"
      "ends_with False (vx_now env) (with_states rid ?p (stage_outcome stop) m) r r'" "stop < 5 \<longleftrightarrow> (\<exists>e. res = Inl e)" by blast
  have r': "r' = r" using s(5) by (simp add: ends_with_def)
  let ?m1 = "with_states rid ?p (stage_outcome stop) m"
  note says = marked_says [OF s(3)]
  have fresh: "vb_id b \<notin> vb_id ` set bs" and d: "distinct (map vb_id bs)" using Cons.prems(1) by simp_all
  have keep: "?m1 k = m k" if "k \<notin> stage_id rid ?p ` set STAGE_KEYS" for k using with_other [OF _ that] s(1) by simp
  have pend: "\<forall>c \<in> set bs. pending_stages rid (source_stage_prefix c) ?m1 \<and> credential_of_source (vw_session w1) c \<noteq> None"
  proof
    fix c assume c: "c \<in> set bs"
    then have ne: "vb_id c \<noteq> vb_id b" using fresh imageI [OF c, of vb_id] by metis
    have "?m1 (stage_id rid (source_stage_prefix c) s) = m (stage_id rid (source_stage_prefix c) s)" for s
      by (rule keep) (use stage_ids_apart [OF ne] in auto)
    then show "pending_stages rid (source_stage_prefix c) ?m1 \<and> credential_of_source (vw_session w1) c \<noteq> None"
      using Cons.prems(3) c s(2) says(3) by (simp add: pending_stages_def)
  qed
  have t1: "tracks rid (session_runs w1) r keys ?m1" using s(2,4) r' by simp
  from Cons.IH [OF d t1 pend rest] obtain stops m' where
    i: "tracks rid (session_runs w') r keys m'" "frames rid bs (vw_session w1) (vw_session w') ?m1 m'"
      "list_all2 (\<lambda>b. source_result rid (vw_session w') m' (source_stage_prefix b) b) bs stops"
      "so_successes so' = so_successes (take_source env b res so) + length (filter (\<lambda>s. \<not> s < 5) stops)"
      "length (so_failures so') = length (so_failures (take_source env b res so)) + length (filter (\<lambda>s. s < 5) stops)"
      "bs \<noteq> [] \<longrightarrow> w' = settled (vw_session w')" by blast
  have own: "source_result rid (vw_session w1) ?m1 ?p b stop"
    using s(1,2) says(1) by (simp add: source_result_def stage_states_with)
  have f: "frames rid (b # bs) (vw_session w) (vw_session w') m m'"
    using i(2) keep says(2) s(2) unfolding frames_def by auto
  have "source_result rid (vw_session w') m' ?p b stop" by (rule frame_result [OF own i(2) fresh])
  then have all: "list_all2 (\<lambda>b. source_result rid (vw_session w') m' (source_stage_prefix b) b) (b # bs) (stop # stops)" using i(3) by simp
  have "so_successes so' = so_successes so + length (filter (\<lambda>s. \<not> s < 5) (stop # stops))"
    "length (so_failures so') = length (so_failures so) + length (filter (\<lambda>s. s < 5) (stop # stops))"
    using i(4,5) s(6) by (cases res; simp add: take_source_def)+
  moreover have "w' = settled (vw_session w')" using i(6) rest s(2) by (cases bs) auto
  ultimately show ?case using i(1) f all by blast
qed

section \<open>The end of the run\<close>

lemma tracks_dom: "tracks rid db r keys m \<Longrightarrow> m k = Some x \<Longrightarrow> k \<in> set keys"
  unfolding tracks_def by (metis map_of_SomeD fst_conv image_eqI set_map)

text \<open>An item has failed or was cancelled if and only if a source failed.\<close>

lemma failed_items_iff:
  assumes t: "tracks rid db r keys m" and keys: "set keys = (\<Union>b \<in> set bs. stage_id rid (P b) ` set STAGE_KEYS)"
    and ends: "list_all2 (\<lambda>b. source_result rid st m (P b) b) bs stops"
  shows "(\<exists>k x. m k = Some x \<and> x \<in> {FAILED, CANCELLED}) \<longleftrightarrow> (\<exists>s \<in> set stops. s < 5)"
proof
  assume "\<exists>k x. m k = Some x \<and> x \<in> {FAILED, CANCELLED}"
  then obtain k x where x: "m k = Some x" "x \<in> {FAILED, CANCELLED}" by blast
  then obtain b s where b: "b \<in> set bs" "s \<in> set STAGE_KEYS" "k = stage_id rid (P b) s" using tracks_dom [OF t] keys by blast
  then obtain i where i: "i < length bs" "b = bs ! i" by (auto simp: in_set_conv_nth)
  have r: "source_result rid st m (P b) b (stops ! i)" "i < length stops" using list_all2_nthD [OF ends i(1)] list_all2_lengthD [OF ends] i by simp_all
  have "Some x \<in> set (stage_states rid (P b) m)" unfolding stage_states_def set_map x(1) [unfolded b(3), symmetric] using b(2) by (rule imageI)
  then have "x \<in> set (stage_outcome (stops ! i))" using r(1) by (auto simp: source_result_def)
  then have "stops ! i < 5" using outcome_fails x(2) r(1) unfolding source_result_def by blast
  then show "\<exists>s \<in> set stops. s < 5" using r(2) nth_mem by blast
next
  assume "\<exists>s \<in> set stops. s < 5"
  then obtain i where i: "i < length stops" "stops ! i < 5" by (auto simp: in_set_conv_nth)
  have r: "source_result rid st m (P (bs ! i)) (bs ! i) (stops ! i)" using list_all2_nthD2 [OF ends i(1)] .
  then obtain x where "x \<in> set (stage_outcome (stops ! i))" "x \<in> {FAILED, CANCELLED}" using outcome_fails i(2) unfolding source_result_def by blast
  then have "Some x \<in> set (stage_states rid (P (bs ! i)) m)" using r by (auto simp: source_result_def)
  then obtain k where "m k = Some x" unfolding stage_states_def set_map by (metis imageE)
  then show "\<exists>k x. m k = Some x \<and> x \<in> {FAILED, CANCELLED}" using \<open>x \<in> {FAILED, CANCELLED}\<close> by blast
qed

text \<open>The end of a run, in the statuses of its items and the marks of its sources.\<close>

definition source_ended :: "string \<Rightarrow> veeam_store \<Rightarrow> veeam_binding list \<Rightarrow> veeam_binding \<Rightarrow> nat \<Rightarrow> bool" where
  "source_ended rid st bindings b stop \<longleftrightarrow> stop \<le> 5
     \<and> map (\<lambda>key. item_status (vz_runs st) (rid, ''step'', stage_prefix bindings b @ key)) STAGE_KEYS = map Some (stage_outcome stop)
     \<and> source_says st rid (vb_id b) (if stop < 5 then ''failed'' else ''completed'')"

lemma source_result_ended:
  assumes "source_result rid st m (stage_prefix bindings b) b stop" "tracks rid (vz_runs st) r keys m"
  shows "source_ended rid st bindings b stop"
proof -
  have "item_status (vz_runs st) (rid, ''step'', stage_prefix bindings b @ key) = m (stage_id rid (stage_prefix bindings b) key)" for key
    using tracks_status [OF assms(2)] by (simp add: stage_id_def)
  then show ?thesis using assms(1) by (simp add: source_ended_def source_result_def stage_states_def)
qed

definition run_ended :: "veeam_sync_env \<Rightarrow> string \<Rightarrow> veeam_binding list \<Rightarrow> veeam_store \<Rightarrow> veeam_sync_error option \<Rightarrow> bool" where
  "run_ended env rid bindings st raised \<longleftrightarrow> (\<exists>r stops. find_run rid (vz_runs st) = Some r \<and> tr_completed_at r = Some (vx_now env)
     \<and> list_all2 (source_ended rid st bindings) bindings stops \<and> tr_status r = (if \<forall>s \<in> set stops. s < 5 then FAILED else COMPLETED)
     \<and> (raised \<noteq> None \<longleftrightarrow> (\<forall>s \<in> set stops. s < 5)))"

lemma run_endedI:
  assumes "tracks rid (vz_runs st) r keys m" "list_all2 (\<lambda>b. source_result rid st m (stage_prefix bindings b) b) bindings stops"
    and "tr_completed_at r = Some (vx_now env)" "tr_status r = (if \<forall>s \<in> set stops. s < 5 then FAILED else COMPLETED)"
    and "raised \<noteq> None \<longleftrightarrow> (\<forall>s \<in> set stops. s < 5)"
  shows "run_ended env rid bindings st raised"
proof -
  have "list_all2 (source_ended rid st bindings) bindings stops"
    by (rule list_all2_mono [OF assms(2)]) (rule source_result_ended [OF _ assms(1)])
  then show ?thesis using assms unfolding run_ended_def tracks_def by blast
qed

subsection \<open>Several sources\<close>

lemma many_sources_end:
  assumes ok: "accepts (vx_model env)" "open_run r" and bs: "bindings = list_enabled_bindings (vz_bindings st)" "1 < length bindings" "distinct (map vb_id bindings)"
    and t: "tracks rid (vz_runs st) r keys m" and keys: "set keys = (\<Union>b \<in> set bindings. stage_id rid (source_stage_prefix b) ` set STAGE_KEYS)"
    and p: "\<forall>b \<in> set bindings. pending_stages rid (source_stage_prefix b) m \<and> credential_of_source st b \<noteq> None"
    and res: "sync_once env rid (settled st) = Some (w, raised)"
  shows "run_ended env rid bindings (vw_committed w) raised"
proof -
  have ne: "bindings \<noteq> []" using bs(2) by auto
  from res obtain w1 so where so: "sync_sources env rid bindings bindings no_sources (settled st) = Some (w1, so)"
    using ne by (auto simp: sync_once_def bs(1) [symmetric] Let_def split: option.splits)
  have t0: "tracks rid (session_runs (settled st)) r keys m" using t by simp
  have p0: "\<forall>b \<in> set bindings. pending_stages rid (source_stage_prefix b) m \<and> credential_of_source (vw_session (settled st)) b \<noteq> None" using p by simp
  from sources_tracks [OF ok bs(2,3) t0 p0 so] obtain stops m' where
    s: "tracks rid (session_runs w1) r keys m'" "list_all2 (\<lambda>b. source_result rid (vw_session w1) m' (source_stage_prefix b) b) bindings stops"
      "so_successes so = length (filter (\<lambda>s. \<not> s < 5) stops)" "length (so_failures so) = length (filter (\<lambda>s. s < 5) stops)" "w1 = settled (vw_session w1)"
    using ne by (auto simp: no_sources_def)
  have pre: "source_stage_prefix b = stage_prefix bindings b" for b using bs(2) by (simp add: stage_prefix_def)
  note bad = failed_items_iff [OF s(1) keys s(2)]
  have len: "length stops = length bindings" using list_all2_lengthD [OF s(2)] by simp
  have some: "stops \<noteq> []" using len ne by auto
  have succ: "so_successes so = 0 \<longleftrightarrow> (\<forall>x \<in> set stops. x < 5)" "so_failures so \<noteq> [] \<longleftrightarrow> (\<exists>x \<in> set stops. x < 5)"
    using s(3,4) by (auto simp: filter_empty_conv length_greater_0_conv [symmetric] simp del: length_greater_0_conv)
  let ?partial = "0 < so_successes so \<and> so_failures so \<noteq> []"
  let ?msg = "if so_successes so = 0 \<and> so_failures so \<noteq> [] then Some (sync_error_text env (hd (so_failures so))) else None"
  let ?payload = "veeam_summary_payload (K_str ''source_binding_ids'', O_list (map (\<lambda>b. O_int (vb_id b)) bindings)) (no_totals\<lparr>vo_written := so_written so\<rparr>)
            (so_sources so) ?partial ?msg"
  from finalize_veeam_tracks [OF ok(1) s(1) ok(2), of ?payload "if ?partial then Some COMPLETED else None" ?msg ?partial] obtain db r' where
    fin: "finalize_veeam_run env rid ?payload (if ?partial then Some COMPLETED else None) ?msg ?partial (session_runs w1) = Inr db" "tracks rid db r' keys m'"
      "tr_status r' = (case if ?partial then Some COMPLETED else None of Some x \<Rightarrow> x | None \<Rightarrow> if \<exists>k x. m' k = Some x \<and> x \<in> {FAILED, CANCELLED} then FAILED else COMPLETED)"
      "tr_completed_at r' = Some (vx_now env)" by blast
  have "write_multi_source_run_result env rid bindings so (session_runs w1) = Inr db"
    using fin(1) unfolding write_multi_source_run_result_def Let_def .
  then have w: "w = commit (set_runs db w1)" "raised = (if so_successes so = 0 \<and> so_failures so \<noteq> [] then Some (hd (so_failures so)) else None)"
    using res so ne bs(2) by (simp_all add: sync_once_def bs(1) [symmetric] Let_def)
  let ?st = "(vw_session w1)\<lparr>vz_runs := db\<rparr>"
  have w': "vw_committed w = ?st" unfolding w(1) using s(5) by (metis settled_simps(2,6))
  have status: "tr_status r' = (if \<forall>s \<in> set stops. s < 5 then FAILED else COMPLETED)"
    unfolding fin(3) bad using succ some by (auto split: option.split) 
  have "list_all2 (\<lambda>b. source_result rid ?st m' (stage_prefix bindings b) b) bindings stops"
    by (rule list_all2_mono [OF s(2)]) (simp add: source_result_def source_says_def pre)
  moreover have "raised \<noteq> None \<longleftrightarrow> (\<forall>s \<in> set stops. s < 5)" unfolding w(2) using succ some by (cases stops) auto
  ultimately show ?thesis unfolding w' using fin(2,4) status by (intro run_endedI) simp_all
qed

subsection \<open>One source\<close>

lemma merge_sources_data: "has_data v \<Longrightarrow> merge_sources xs b v \<noteq> None"
  by (auto simp: has_data_def merge_sources_def Let_def split: option.splits)

text \<open>Adding the sources to the summary leaves the statuses.\<close>

lemma append_tracks:
  assumes "accepts (vx_model env)" "tracks rid (vz_runs st) r keys m" "tr_status r \<noteq> CANCELLED" "tr_task_key r = ''sync_veeam_backups''"
  shows "\<exists>db v. append_sources_to_run_summary env rid xs b (settled st) = (settled (st\<lparr>vz_runs := db\<rparr>), None) \<and> tracks rid db (r\<lparr>tr_summary := v\<rparr>) keys m"
proof -
  have run: "find_run rid (vz_runs st) = Some r" using assms(2) by (simp add: tracks_def)
  obtain x where x: "vx_model env True (tr_summary r) = Some (''sync_veeam_backups'', x)" "has_data x" using assms(1) unfolding accepts_def by blast
  obtain y where y: "merge_sources xs b x = Some y" using merge_sources_data [OF x(2)] by blast
  obtain z where z: "vx_model env False y = Some (''sync_veeam_backups'', z)" using assms(1) unfolding accepts_def by blast
  let ?f = "\<lambda>r. r\<lparr>tr_summary := ensure_json_serializable z\<rparr>"
  have "write_summary (vx_model env) rid y (vz_runs st) = Inr (True, write_run rid ?f (vz_runs st))"
    using run assms(3,4) z by (simp add: write_summary_def get_run_def validated_summary_def)
  then have "append_sources_to_run_summary env rid xs b (settled st) = (settled (st\<lparr>vz_runs := write_run rid ?f (vz_runs st)\<rparr>), None)"
    using run x(1) y by (simp add: append_sources_to_run_summary_def merge_sync_veeam_sources_summary_def)
  moreover have "tracks rid (write_run rid ?f (vz_runs st)) (?f r) keys m" by (rule tracks_write_run [OF assms(2)]) simp
  ultimately show ?thesis by blast
qed

lemma one_source_ends:
  assumes ok: "accepts (vx_model env)" "open_run r" and bs: "list_enabled_bindings (vz_bindings st) = [b]"
    and t: "tracks rid (vz_runs st) r keys m" and keys: "set keys = stage_id rid [] ` set STAGE_KEYS"
    and p: "pending_stages rid [] m" "credential_of_source st b \<noteq> None"
    and res: "sync_once env rid (settled st) = Some (w, raised)"
  shows "run_ended env rid [b] (vw_committed w) raised"
proof -
  have pre: "stage_prefix [b] c = []" for c by (simp add: stage_prefix_def)
  from res obtain w1 x where x: "sync_source_once env rid b [] True (settled st) = Some (w1, x)"
    by (auto simp: sync_once_def bs pre Let_def split: option.splits)
  have t0: "tracks rid (session_runs (settled st)) r keys m" "credential_of_source (vw_session (settled st)) b \<noteq> None" using t p(2) by simp_all
  from source_once_tracks [OF ok t0(1) p(1) t0(2) x] obtain stop st1 r1 where
    s: "stop \<le> 5" "w1 = settled st1" "marked env rid b stop st st1" "tracks rid (vz_runs st1) r1 keys (with_states rid [] (stage_outcome stop) m)"
      "ends_with True (vx_now env) (with_states rid [] (stage_outcome stop) m) r r1" "stop < 5 \<longleftrightarrow> (\<exists>e. x = Inl e)" by auto
  let ?m = "with_states rid [] (stage_outcome stop) m"
  have own: "source_result rid st1 ?m [] b stop" using s(1) marked_says(1) [OF s(3)] by (simp add: source_result_def stage_states_with)
  have "(\<exists>k x. ?m k = Some x \<and> x \<in> {FAILED, CANCELLED}) \<longleftrightarrow> stop < 5"
    using failed_items_iff [where bs = "[b]" and P = "\<lambda>_. []" and stops = "[stop]", OF s(4)] keys own by simp
  then have r1: "tr_completed_at r1 = Some (vx_now env)" "tr_status r1 = (if stop < 5 then FAILED else COMPLETED)" "tr_task_key r1 = ''sync_veeam_backups''"
    using s(5) by (simp_all add: ends_with_def)
  have nc: "tr_status r1 \<noteq> CANCELLED" using r1(2) by (simp add: FAILED_def COMPLETED_def CANCELLED_def)
  define so where "so = take_source env b x no_sources"
  obtain db v where a: "append_sources_to_run_summary env rid (so_sources so) (0 < so_successes so \<and> so_failures so \<noteq> []) (settled st1) = (settled (st1\<lparr>vz_runs := db\<rparr>), None)"
    "tracks rid db (r1\<lparr>tr_summary := v\<rparr>) keys ?m" using append_tracks [OF ok(1) s(4) nc r1(3)] by blast
  have w: "w = settled (st1\<lparr>vz_runs := db\<rparr>)" "raised = (if so_successes so = 0 \<and> so_failures so \<noteq> [] then Some (hd (so_failures so)) else None)"
    using res x a(1) s(2) by (simp_all add: sync_once_def bs pre so_def [symmetric] Let_def)
  have raised: "raised \<noteq> None \<longleftrightarrow> stop < 5" using s(6) unfolding w(2) so_def by (cases x) (simp_all add: take_source_def no_sources_def)
  have "source_result rid (st1\<lparr>vz_runs := db\<rparr>) ?m (stage_prefix [b] b) b stop" using own by (simp add: source_result_def source_says_def pre)
  then show ?thesis unfolding w(1) using a(2) r1 raised by (intro run_endedI [where stops = "[stop]" and r = "r1\<lparr>tr_summary := v\<rparr>" and keys = keys and m = ?m]) simp_all
qed

section \<open>The prepared run\<close>

lemma enabled_distinct: "distinct (map vb_id rows) \<Longrightarrow> distinct (map vb_id (list_enabled_bindings rows))"
  by (auto simp: list_enabled_bindings_def distinct_map_filter distinct_map inj_on_def)

lemma item_keys: "map (\<lambda>i. (rid, ii_type i, ii_key i)) (build_stage_items_for_bindings bs) = concat (map (\<lambda>b. map (stage_id rid (stage_prefix bs b)) STAGE_KEYS) bs)"
  by (simp add: build_stage_items_for_bindings_def map_concat o_def case_prod_unfold stage_id_def stage_items_keys [symmetric])

lemma distinct_item_keys:
  fixes rid :: string
  assumes "distinct (map vb_id bs)"
  shows "distinct (map (\<lambda>i. (rid, ii_type i, ii_key i)) (build_stage_items_for_bindings bs))"
proof (cases "1 < length bs")
  case True
  have d: "distinct (concat (map (\<lambda>b. map (stage_id rid (source_stage_prefix b)) STAGE_KEYS) cs))" if "distinct (map vb_id cs)" for cs
    using that
  proof (induction cs)
    case (Cons c cs)
    have "set (map (stage_id rid (source_stage_prefix c)) STAGE_KEYS) \<inter> set (concat (map (\<lambda>b. map (stage_id rid (source_stage_prefix b)) STAGE_KEYS) cs)) = {}"
    proof -
      have "vb_id c \<noteq> vb_id b" if "b \<in> set cs" for b using Cons.prems imageI [OF that, of vb_id] by auto
      then show ?thesis using stage_ids_apart by fastforce
    qed
    moreover have "distinct (map (stage_id rid (source_stage_prefix c)) STAGE_KEYS)" by (simp add: distinct_map inj_on_def)
    ultimately show ?case using Cons by (simp add: distinct_append)
  qed simp
  have "stage_prefix bs b = source_stage_prefix b" for b using True by (simp add: stage_prefix_def)
  then show ?thesis unfolding item_keys by (simp only: d [OF assms])
next
  case False
  then consider "bs = []" | b where "bs = [b]" by (cases bs; cases "tl bs") auto
  then show ?thesis unfolding item_keys by cases (simp_all add: distinct_map inj_on_def)
qed

lemma prepare_tracks:
  assumes "accepts (vx_model env)" "vx_configured env" and bs: "bindings = list_enabled_bindings (vz_bindings st)" "bindings \<noteq> []"
      "\<forall>b \<in> set bindings. credential_of_source st b \<noteq> None" "distinct (map vb_id (vz_bindings st))"
    and runs: "find_run (vx_fresh env) (vz_runs st) = None" "\<forall>it \<in> set (rdb_items (vz_runs st)). find_run (ti_run it) (vz_runs st) \<noteq> None"
      "distinct (map item_id (rdb_items (vz_runs st)))"
  shows "\<exists>db r m. prepare_background_sync env tg u st = Inr (st\<lparr>vz_runs := db\<rparr>) \<and> open_run r
    \<and> tracks (vx_fresh env) db r (map (\<lambda>i. (vx_fresh env, ii_type i, ii_key i)) (build_stage_items_for_bindings bindings)) m
    \<and> (\<forall>b \<in> set bindings. pending_stages (vx_fresh env) (stage_prefix bindings b) m)"
proof -
  let ?fresh = "vx_fresh env" and ?items = "build_stage_items_for_bindings bindings"
  have M: "\<forall>b v. \<exists>v'. vx_model env b v = Some (''sync_veeam_backups'', v')" using assms(1) unfolding accepts_def by blast
  have d: "distinct (map (\<lambda>i. (?fresh, ii_type i, ii_key i)) ?items)" by (rule distinct_item_keys) (use bs(1,4) enabled_distinct in blast)
  then have "distinct (map (\<lambda>i. (ii_type i, ii_key i)) ?items)" by (simp add: distinct_map inj_on_def)
  from started_run [OF M runs this, of _ "''other''" tg u "Some ''/admin/system-settings#system-settings-veeam''" "vx_now env"]
  obtain db1 db2 r where r: "resolve_or_start_run (vx_model env) None ?fresh ''sync_veeam_backups'' (''Veeam '' @ utf8 [0xE5, 0xA4, 0x87, 0xE4, 0xBB, 0xBD, 0xE5, 0x90, 0x8C, 0xE6, 0xAD, 0xA5]) ''other'' tg u None
      (Some ''/admin/system-settings#system-settings-veeam'') (vx_now env) (vz_runs st) = Inr (?fresh, db1)"
    "init_items ?fresh ?items db1 = Inr db2" "find_run ?fresh db2 = Some r" "tr_status r = RUNNING" "tr_task_key r = ''sync_veeam_backups''"
    "item_states ?fresh db2 = map (\<lambda>i. ((?fresh, ii_type i, ii_key i), PENDING)) ?items" by blast
  have start: "start_run (vx_model env) ?fresh ''sync_veeam_backups'' (''Veeam '' @ utf8 [0xE5, 0xA4, 0x87, 0xE4, 0xBB, 0xBD, 0xE5, 0x90, 0x8C, 0xE6, 0xAD, 0xA5]) ''other'' tg u None
      (Some ''/admin/system-settings#system-settings-veeam'') (vx_now env) (vz_runs st) = Inr db1"
    using r(1) by (auto simp: resolve_or_start_run_def split: sum.splits)
  have "find (\<lambda>b. credential_of_source st b = None) bindings = None" using bs(3) by (simp add: find_None_iff)
  then have prep: "prepare_background_sync env tg u st = Inr (st\<lparr>vz_runs := db2\<rparr>)"
    using assms(2) bs(2) start r(2) unfolding prepare_background_sync_def Let_def bs(1) [symmetric] by simp
  let ?m = "map_of (item_states ?fresh db2)"
  have keys: "map fst (item_states ?fresh db2) = map (\<lambda>i. (?fresh, ii_type i, ii_key i)) ?items" by (simp add: r(6) o_def)
  have t: "tracks ?fresh db2 r (map (\<lambda>i. (?fresh, ii_type i, ii_key i)) ?items) ?m" using r(3) keys d by (simp add: tracks_def)
  have "pending_stages ?fresh (stage_prefix bindings b) ?m" if b: "b \<in> set bindings" for b
    unfolding pending_stages_def
  proof
    fix s assume "s \<in> set STAGE_KEYS"
    then have "stage_id ?fresh (stage_prefix bindings b) s \<in> set (map (\<lambda>i. (?fresh, ii_type i, ii_key i)) ?items)"
      unfolding item_keys using b by auto
    then have "(stage_id ?fresh (stage_prefix bindings b) s, PENDING) \<in> set (item_states ?fresh db2)" unfolding r(6) by auto
    then show "?m (stage_id ?fresh (stage_prefix bindings b) s) = Some PENDING" using d keys by (intro map_of_is_SomeI) simp_all
  qed
  then show ?thesis using prep t r(4,5) by (intro exI [of _ db2] exI [of _ r] exI [of _ ?m]) (simp add: open_run_def)
qed

section \<open>A sync returns\<close>

text \<open>The only loop of a sync without a bound of its own follows the pages a server names.\<close>

definition pages_end :: "veeam_env \<Rightarrow> bool" where
  "pages_end V \<longleftrightarrow> (\<forall>n url. collect_paginated_items V n url \<noteq> None)"

lemma fetch_points_returns: "pages_end V \<Longrightarrow> fetch_points V base_url n ms c \<noteq> None"
  by (induction ms arbitrary: n c) (auto simp: pages_end_def split: option.split sum.split veeam_error.split)

lemma fetch_files_returns: "pages_end V \<Longrightarrow> fetch_files V base_url n ids c \<noteq> None"
  by (induction ids arbitrary: n c) (auto simp: pages_end_def Let_def split: option.split sum.split veeam_error.split)

lemma bodies_return:
  assumes "pages_end V"
  shows "fetch_objects_body V b \<noteq> None" "fetch_points_body V b n m \<noteq> None" "fetch_files_body V b n records \<noteq> None"
proof -
  show "fetch_objects_body V b \<noteq> None"
  proof -
    have "fetch_backup_objects V u 0 \<noteq> None" for u using assms unfolding fetch_backup_objects_def pages_end_def by blast
    then have "\<exists>n x. fetch_backup_objects V (build_base_url (vb_host b) (vb_port b)) 0 = Some (n, x)" by fast
    then show ?thesis by (auto simp: fetch_objects_body_def Let_def split: sum.split)
  qed
  show "fetch_points_body V b n m \<noteq> None"
    using fetch_points_returns [OF assms] by (auto simp: fetch_points_body_def fetch_restore_point_records_def split: option.split)
  show "fetch_files_body V b n records \<noteq> None"
    using fetch_files_returns [OF assms] by (auto simp: fetch_files_body_def fetch_backup_file_records_def Let_def split: option.split)
qed

lemma in_stage_returns: "body \<noteq> None \<Longrightarrow> in_stage env rid pre key m body report w \<noteq> None"
  by (auto simp: in_stage_def Let_def split: sum.split prod.split)

lemma next_stage_returns: "stage \<noteq> None \<Longrightarrow> (\<And>w y. rest w y \<noteq> None) \<Longrightarrow> next_stage stage rest \<noteq> None"
  by (auto simp: next_stage_def split: sum.split)

lemma source_stages_returns: "pages_end (vx_server env b c) \<Longrightarrow> source_stages env rid b c pre finalize w \<noteq> None"
  unfolding source_stages_def Let_def by (intro next_stage_returns in_stage_returns bodies_return) simp_all

lemma sync_source_once_returns:
  assumes "\<And>c. pages_end (vx_server env b c)"
  shows "sync_source_once env rid b pre finalize w \<noteq> None"
proof (cases "credential_of_source (vw_session w) b")
  case (Some c)
  from source_stages_returns [OF assms] obtain w1 x where "source_stages env rid b c pre finalize w = Some (w1, x)" by fast
  with Some show ?thesis by (cases x) (simp_all add: sync_source_once_def split: prod.split)
qed (simp add: sync_source_once_def)

lemma sync_sources_returns:
  "(\<And>b c. pages_end (vx_server env b c)) \<Longrightarrow> sync_sources env rid bindings bs so w \<noteq> None"
proof (induction bs arbitrary: so w)
  case (Cons b bs)
  have "sync_source_once env rid b (stage_prefix bindings b) (length bindings \<le> 1) w \<noteq> None"
    by (rule sync_source_once_returns [OF Cons.prems])
  then show ?case using Cons by (auto split: option.split)
qed simp

lemma sync_once_returns:
  assumes "\<And>b c. pages_end (vx_server env b c)"
  shows "sync_once env rid w \<noteq> None"
proof -
  let ?bs = "list_enabled_bindings (vz_bindings (vw_session w))"
  from sync_sources_returns [OF assms] obtain w1 so where "sync_sources env rid ?bs ?bs no_sources w = Some (w1, so)" by fast
  then show ?thesis by (simp add: sync_once_def Let_def del: not_None_eq split: prod.split option.split)
qed

text \<open>C22: When the pages of the servers end, a sync of the backups of all enabled sources returns and has ended its run. Of the five stages of
  every source all are completed, or some are completed, the next one failed and the others are
  cancelled, and the source says so; a source that fails does not stop the others. The run is failed and
  the task raises if and only if all sources failed.\<close>

theorem veeam_sync_closes_run:
  assumes "accepts (vx_model env)" "vx_configured env" "bindings = list_enabled_bindings (vz_bindings st)" "bindings \<noteq> []"
    and "\<forall>b \<in> set bindings. credential_of_source st b \<noteq> None" "distinct (map vb_id (vz_bindings st))"
    and "find_run (vx_fresh env) (vz_runs st) = None" "\<forall>it \<in> set (rdb_items (vz_runs st)). find_run (ti_run it) (vz_runs st) \<noteq> None"
    and "distinct (map item_id (rdb_items (vz_runs st)))"
    and "\<And>b c. pages_end (vx_server env b c)"
  shows "\<exists>st' raised r stops. sync_veeam_backups env manual_run created_by None st = Some (st', raised)
    \<and> find_run (vx_fresh env) (vz_runs st') = Some r \<and> tr_completed_at r = Some (vx_now env)
    \<and> list_all2 (source_ended (vx_fresh env) st' bindings) bindings stops
    \<and> tr_status r = (if \<forall>s \<in> set stops. s < 5 then FAILED else COMPLETED) \<and> (raised \<noteq> None \<longleftrightarrow> (\<forall>s \<in> set stops. s < 5))"
proof -
  let ?keys = "map (\<lambda>i. (vx_fresh env, ii_type i, ii_key i)) (build_stage_items_for_bindings bindings)"
  obtain db r m where p: "prepare_background_sync env (if manual_run then ''manual'' else ''scheduled'') (if manual_run then created_by else None) st = Inr (st\<lparr>vz_runs := db\<rparr>)"
    "open_run r" "tracks (vx_fresh env) db r ?keys m" "\<forall>b \<in> set bindings. pending_stages (vx_fresh env) (stage_prefix bindings b) m"
    using prepare_tracks [OF assms(1-9)] by blast
  let ?st = "st\<lparr>vz_runs := db\<rparr>"
  from sync_once_returns [OF assms(10)] obtain w raised where w: "sync_once env (vx_fresh env) (settled ?st) = Some (w, raised)" by fast
  have task: "sync_veeam_backups env manual_run created_by None st = Some (vw_committed w, raised)"
    using p(1) w by (simp add: sync_veeam_backups_def settled_def)
  have bs: "list_enabled_bindings (vz_bindings ?st) = bindings" using assms(3) by simp
  have cred: "credential_of_source ?st b = credential_of_source st b" for b by (simp add: credential_of_source_def split: option.split)
  have d: "distinct (map vb_id bindings)" using assms(3,6) enabled_distinct by blast
  have t: "tracks (vx_fresh env) (vz_runs ?st) r ?keys m" using p(3) by simp
  have "run_ended env (vx_fresh env) bindings (vw_committed w) raised"
  proof (cases "1 < length bindings")
    case True
    then have pre: "stage_prefix bindings b = source_stage_prefix b" for b by (simp add: stage_prefix_def)
    show ?thesis
      by (rule many_sources_end [OF assms(1) p(2) bs [symmetric] True d t _ _ w])
        (use p(4) assms(5) in \<open>auto simp: item_keys pre cred\<close>)
  next
    case False
    then obtain b where b: "bindings = [b]" using assms(4) by (cases bindings; cases "tl bindings") auto
    then have pre: "stage_prefix bindings c = []" for c by (simp add: stage_prefix_def)
    show ?thesis unfolding b
      by (rule one_source_ends [OF assms(1) p(2) bs [unfolded b] t _ _ _ w])
        (use p(4) assms(5) b pre in \<open>simp_all add: item_keys cred\<close>)
  qed
  then show ?thesis using task unfolding run_ended_def by blast
qed

section \<open>Two sources, one of which does not answer\<close>

definition example_source :: "int \<Rightarrow> string \<Rightarrow> veeam_binding" where
  "example_source i host = \<lparr>vb_id = i, vb_name = host, vb_credential = Some 1, vb_host = host, vb_port = 9419, vb_api = ''1.3'', vb_verify = None, vb_domains = [],
     vb_enabled = True, vb_sync_at = None, vb_status = None, vb_run = None, vb_error = None\<rparr>"

definition example_answers :: "veeam_binding \<Rightarrow> veeam_env" where
  "example_answers b = \<lparr>ve_texts = \<lparr>vt_ip = Some, vt_to_utc = (\<lambda>_. None), vt_iso = (\<lambda>_. []), vt_container = (\<lambda>_. [])\<rparr>, ve_get = (\<lambda>_ _. Answer (PList [])),
     ve_token = (\<lambda>_ _. if vb_id b = 1 then Broken ''refused'' else Answer (PDict [(''access_token'', PStr ''t'')])), ve_requery = (\<lambda>u _. u), ve_timeout = 5,
     ve_token_timeout = 5, ve_token_attempts = 1, ve_limit = 100\<rparr>"

definition example_sync_env :: veeam_sync_env where
  "example_sync_env = \<lparr>vx_model = (\<lambda>_ _. Some (''sync_veeam_backups'', O_dict [(K_str ''ext'', O_dict [(K_str ''data'', O_dict [])])])),
     vx_server = (\<lambda>b _. example_answers b), vx_texts = \<lparr>vt_ip = Some, vt_to_utc = (\<lambda>_. None), vt_iso = (\<lambda>_. []), vt_container = (\<lambda>_. [])\<rparr>,
     vx_configured = True, vx_now = 7, vx_fresh = ''run'', vx_library_text = (\<lambda>_. ''error'')\<rparr>"

definition example_veeam_store :: veeam_store where
  "example_veeam_store = \<lparr>vz_bindings = [example_source 1 ''a'', example_source 2 ''b''],
     vz_credentials = [\<lparr>cd_id = 1, cd_type = ''api'', cd_username = ''u'', cd_password = ''p'', cd_active = True\<rparr>],
     vz_instances = [], vz_snapshots = \<lparr>vt_rows = [], vt_next = 1\<rparr>, vz_runs = \<lparr>rdb_runs = [], rdb_items = []\<rparr>\<rparr>"

lemma example_pages_end: "pages_end (vx_server example_sync_env b c)"
  by (simp add: pages_end_def collect_paginated_items_def page_loop.simps page_turn_def request_json_def example_sync_env_def example_answers_def
      parse_veeam_page_def veeam_next_url_def)

lemma veeam_sync_closes_run_witness:
  "\<exists>st raised r stops. sync_veeam_backups example_sync_env False None None example_veeam_store = Some (st, raised) \<and> find_run ''run'' (vz_runs st) = Some r
    \<and> list_all2 (source_ended ''run'' st (vz_bindings example_veeam_store)) (vz_bindings example_veeam_store) stops
    \<and> tr_status r = (if \<forall>s \<in> set stops. s < 5 then FAILED else COMPLETED)"
proof -
  let ?env = example_sync_env and ?st = example_veeam_store
  have "accepts (vx_model ?env)" by (simp add: accepts_def example_sync_env_def has_data_def obj_get_def)
  moreover have "vx_configured ?env" "vx_fresh ?env = ''run''" by (simp_all add: example_sync_env_def)
  moreover have "vz_bindings ?st = list_enabled_bindings (vz_bindings ?st)" by code_simp
  moreover have "\<forall>b \<in> set (vz_bindings ?st). credential_of_source ?st b \<noteq> None" by code_simp
  moreover have "distinct (map vb_id (vz_bindings ?st))" "vz_bindings ?st \<noteq> []" by code_simp+
  moreover have "vz_runs ?st = \<lparr>rdb_runs = [], rdb_items = []\<rparr>" by (simp add: example_veeam_store_def)
  ultimately have "\<exists>st raised r stops. sync_veeam_backups ?env False None None ?st = Some (st, raised) \<and> find_run ''run'' (vz_runs st) = Some r
    \<and> tr_completed_at r = Some (vx_now ?env) \<and> list_all2 (source_ended ''run'' st (vz_bindings ?st)) (vz_bindings ?st) stops
    \<and> tr_status r = (if \<forall>s \<in> set stops. s < 5 then FAILED else COMPLETED) \<and> (raised \<noteq> None \<longleftrightarrow> (\<forall>s \<in> set stops. s < 5))"
    using veeam_sync_closes_run [of ?env "vz_bindings ?st" ?st False None, OF _ _ _ _ _ _ _ _ _ example_pages_end] by (simp add: find_run_def)
  then show ?thesis by blast
qed

end
