(* ===== verification/Spec2Isabelle.thy ===== *)
theory Spec2Isabelle
  imports Dsl_V4 Safe_Query Sync_Session Task_Runs Database_Inventory Account_Inventory Trend_Facts Facts_Rules Permission_Repeat Permission_Errors Classification_Result Jumpserver_Runs Daily_Assignments Ad_Config Alert_Delivery Alert_Runs Veeam_Writes Veeam_Counts Veeam_Runs
begin

text \<open>
WhaleFall is a web application that keeps an inventory of database instances, their databases and
accounts. It is written in Python (Flask, SQLAlchemy over PostgreSQL). Adapters collect what an
instance reports; the application compares the report with its tables, records the differences,
classifies the accounts by rules, and counts the classes per day. This library models the part of
\<^verbatim>\<open>src/app\<close> that decides: the functions are translated one by one, with the names of the source.

HOW THE PARTS INTERACT. A batch opens a synchronisation session with one record per instance
(\<^verbatim>\<open>Sync_Session\<close>), a task opens a run with items (\<^verbatim>\<open>Task_Runs\<close>). For an instance the inventories bring
the tables of databases and accounts in line with the report (\<^verbatim>\<open>Database_Inventory\<close>,
\<^verbatim>\<open>Account_Inventory\<close>, both interpretations of the locale \<^verbatim>\<open>reconcile\<close> of \<^verbatim>\<open>Reconcile\<close>); the permission
manager then stores a snapshot of the permissions of every account, its facts and the log of changes
(\<^verbatim>\<open>Permission_Facts\<close>, \<^verbatim>\<open>Permission_Diff\<close>, \<^verbatim>\<open>Permission_Sync\<close>). The classification task evaluates the
rules (\<^verbatim>\<open>Dsl_V4\<close>) on the stored facts and writes assignments (\<^verbatim>\<open>Classification_Task\<close>); the daily task
counts the matches (\<^verbatim>\<open>Daily_Task\<close>) and the reports cut the counts into periods (\<^verbatim>\<open>Calendar\<close>,
\<^verbatim>\<open>Period_Calculator\<close>, \<^verbatim>\<open>Trend_Stats\<close>). The table of the assets of JumpServer is replaced by what its
server lists (\<^verbatim>\<open>Jumpserver_Provider\<close>, \<^verbatim>\<open>Jumpserver_Sync\<close>), and the accounts of SQL Server are marked by
what the directories of their domains say (\<^verbatim>\<open>Ad_Provider\<close>, \<^verbatim>\<open>Ad_Match\<close>, \<^verbatim>\<open>Ad_Task\<close>, \<^verbatim>\<open>Ad_Config\<close>); both run
as runs of \<^verbatim>\<open>Task_Runs\<close>. What the synchronisations notice becomes events (\<^verbatim>\<open>Alert_Events\<close>,
\<^verbatim>\<open>Alert_Clusters\<close>), which a daily run sends by mail and to a robot (\<^verbatim>\<open>Alert_Digest\<close>, \<^verbatim>\<open>Alert_Task\<close>). The backups of machines
are read from Veeam (\<^verbatim>\<open>Veeam_Match\<close>, \<^verbatim>\<open>Veeam_Records\<close>, \<^verbatim>\<open>Veeam_Provider\<close>) and kept in one row per machine of
a source, which the pages of instances look up (\<^verbatim>\<open>Veeam_Snapshots\<close>); a run of \<^verbatim>\<open>Task_Runs\<close> with five stages
per source does this (\<^verbatim>\<open>Veeam_Sync\<close>).

THE THEORIES.

\<^verbatim>\<open>Prelude\<close>: texts, dictionaries as association lists, JSON values \<^verbatim>\<open>pv\<close>, and the lemmas on lists and
rows that all parts use. Text is the list of its UTF-8 bytes; \<^verbatim>\<open>strip\<close>, \<^verbatim>\<open>lower\<close> and \<^verbatim>\<open>upper\<close> are those
of ASCII. \<^verbatim>\<open>Core_Constants\<close>: the vocabulary of \<^verbatim>\<open>app/core/constants/database_types.py\<close> and
\<^verbatim>\<open>status_types.py\<close>. \<^verbatim>\<open>Status_Machine\<close>: the locale \<^verbatim>\<open>status_machine\<close>, a relation of steps under which the
status of an object only moves along its machine; its interpretations are sessions, runs and items.

\<^verbatim>\<open>Py_Objects\<close>: \<^verbatim>\<open>_clean_sync_details\<close> of \<^verbatim>\<open>app/services/sync_session_service.py\<close> and
\<^verbatim>\<open>_ensure_json_serializable\<close> of \<^verbatim>\<open>app/services/task_runs/task_runs_write_service.py\<close>.

\<^verbatim>\<open>Sync_Session\<close>: the tables and operations of sessions (\<^verbatim>\<open>app/services/sync_session_service.py\<close>,
\<^verbatim>\<open>app/models/sync_session.py\<close>, \<^verbatim>\<open>sync_instance_record.py\<close>) and the batch of
\<^verbatim>\<open>app/tasks/accounts_sync_tasks.py\<close>. Proved: unique ids and valid statuses in every reachable state,
ended sessions are final, a batch ends its session, the session of one instance never ends.

\<^verbatim>\<open>Task_Runs\<close>: \<^verbatim>\<open>TaskRunsWriteService\<close>. Proved: ended items and cancelled runs stay as they are, what
marking a run failed and finalising it leave, JSON columns hold JSON.

\<^verbatim>\<open>Dsl_V4\<close>: \<^verbatim>\<open>app/utils/account_classification_dsl_v4.py\<close> and
\<^verbatim>\<open>app/services/account_classification/dsl_v4.py\<close>. Proved: the validator accepts exactly what parses into
a typed syntax, the evaluator computes the denotation of that syntax, rules without NOT are monotone,
a negated call of an unknown function matches.

\<^verbatim>\<open>Safe_Query\<close>: \<^verbatim>\<open>app/utils/safe_query_builder.py\<close>. Proved: names and values of parameters agree with
the placeholders, and the text never depends on values.

\<^verbatim>\<open>Database_Inventory\<close>: \<^verbatim>\<open>app/services/database_sync/database_filters.py\<close> and \<^verbatim>\<open>inventory_manager.py\<close>;
\<^verbatim>\<open>Account_Inventory\<close>: \<^verbatim>\<open>app/services/accounts_sync/inventory_manager.py\<close>. Proved: after a run the active
rows are exactly those of the report, the counts are exact, the last report decides, and when a run
fails.

\<^verbatim>\<open>Permission_Facts\<close>: \<^verbatim>\<open>app/services/accounts_permissions/facts_builder.py\<close> and its snapshot view;
\<^verbatim>\<open>Facts_Rules\<close>: what the rule is_superuser says of a snapshot, and where it goes beyond the documentation. \<^verbatim>\<open>Permission_Diff\<close>: the comparison of
snapshots in \<^verbatim>\<open>app/services/accounts_sync/permission_manager.py\<close>; the recorded entries are the patch
from one to the other. \<^verbatim>\<open>Permission_Sync\<close>: the synchronisation of an instance; \<^verbatim>\<open>Permission_Repeat\<close>: a
second run on the same report changes nothing; \<^verbatim>\<open>Permission_Errors\<close>: what forbidden keys do.

\<^verbatim>\<open>Classification_Task\<close>: \<^verbatim>\<open>app/tasks/account_classification_auto_tasks.py\<close> and the repository and models
it uses. \<^verbatim>\<open>Classification_Result\<close>: each account in scope has in each class the assignment of the last
active rule that matches; what a failed rule leaves.

\<^verbatim>\<open>Daily_Task\<close>: \<^verbatim>\<open>app/tasks/account_classification_daily_tasks.py\<close> and its repository. \<^verbatim>\<open>Daily_Result\<close>,
\<^verbatim>\<open>Daily_Counts\<close>: the tables hold exactly the numbers of matched accounts, the counts are bounded by one
another, and an owner whose accounts belong to two instances stops the statistics.
\<^verbatim>\<open>Daily_Assignments\<close>: the statistics and the classification agree.

\<^verbatim>\<open>Account_Scope\<close>: \<^verbatim>\<open>app/core/types/account_scope.py\<close>, with the round trip of printing and reading.
\<^verbatim>\<open>Calendar\<close>, \<^verbatim>\<open>Period_Calculator\<close>: the dates and \<^verbatim>\<open>app/services/aggregation/calculator.py\<close>; the locale
\<^verbatim>\<open>period_tiling\<close> is interpreted for days, weeks, months and quarters, whose periods tile the calendar.
\<^verbatim>\<open>Trend_Stats\<close>, \<^verbatim>\<open>Trend_Facts\<close>: \<^verbatim>\<open>account_classification_daily_stats_read_service.py\<close> and its
repository: what the reports conserve, and that the report of one class and of all classes agree.

\<^verbatim>\<open>Paging\<close>: the locale \<^verbatim>\<open>paged_loop\<close>, for loops that end when a server names no further page.
\<^verbatim>\<open>Jumpserver_Provider\<close>, \<^verbatim>\<open>Jumpserver_Pages\<close>: \<^verbatim>\<open>app/services/jumpserver/provider.py\<close>, an interpretation of
it; the collection ends exactly when the chain of pages does. \<^verbatim>\<open>Jumpserver_Sync\<close>, \<^verbatim>\<open>Jumpserver_Result\<close>,
\<^verbatim>\<open>Jumpserver_Runs\<close>: \<^verbatim>\<open>source_service.py\<close>, \<^verbatim>\<open>sync_actions_service.py\<close> and the repository; a successful
synchronisation leaves exactly the report, and closes its run unless the source changed or the pages of
the server never end.
\<^verbatim>\<open>Credentials\<close>, \<^verbatim>\<open>Run_Items\<close>: the columns of the credentials, and what the operations on items do to the
items of one run.

\<^verbatim>\<open>Ad_Provider\<close>, \<^verbatim>\<open>Ad_Match\<close>, \<^verbatim>\<open>Ad_Results\<close>: the client and the matching of \<^verbatim>\<open>app/services/ad_sync\<close>; a
search ends exactly when its cookies do, a match marks exactly the accounts it should and doing it
again changes nothing. \<^verbatim>\<open>Ad_Task\<close>, \<^verbatim>\<open>Ad_Isolation\<close>: \<^verbatim>\<open>app/tasks/ad_sync_tasks.py\<close>; every domain succeeds or
fails on its own and the run says so. \<^verbatim>\<open>Ad_Config\<close>: the service of the configurations, which keeps
NetBIOS names apart, so that an account has one domain at most.

\<^verbatim>\<open>Alert_Events\<close>, \<^verbatim>\<open>Alert_Clusters\<close>, \<^verbatim>\<open>Alert_Digest\<close>, \<^verbatim>\<open>Alert_Task\<close>: \<^verbatim>\<open>app/services/alerts\<close>, the repository of the
alerts, \<^verbatim>\<open>app/services/cluster_status_sync/issue_contract.py\<close> and \<^verbatim>\<open>app/tasks/email_alert_tasks.py\<close>.
\<^verbatim>\<open>Alert_Results\<close>: over all reachable tables and messages, rolled-back tasks included, every message that
is kept has news for its channel and the deliveries say what was told. \<^verbatim>\<open>Alert_Delivery\<close>: what
one digest sends and leaves. \<^verbatim>\<open>Alert_Runs\<close>: the run of the task, and that a failure forgets what was sent.

\<^verbatim>\<open>Veeam_Match\<close>, \<^verbatim>\<open>Veeam_Records\<close>, \<^verbatim>\<open>Veeam_Provider\<close>, \<^verbatim>\<open>Veeam_Snapshots\<close>: \<^verbatim>\<open>app/services/veeam\<close> and
\<^verbatim>\<open>app/repositories/veeam_repository.py\<close>. \<^verbatim>\<open>Veeam_Counts\<close>: what the collections count, and that the totals of
files end at twenty. \<^verbatim>\<open>Veeam_Lookup\<close>: the two lookups of the backup of an instance agree. \<^verbatim>\<open>Veeam_Writes\<close>:
what a write leaves, and that an address of another stored machine makes it fail. The flush writes
changed rows, new rows and deletions in the order that SQLAlchemy documents for its unit of work.
\<^verbatim>\<open>Veeam_Sync\<close>: the task \<^verbatim>\<open>sync_veeam_backups\<close>, the five stages of a source and the service that runs them,
with what the session holds and what is committed kept apart. \<^verbatim>\<open>Veeam_Runs\<close>: if the pages of the servers
end the task returns and its run is closed, every source on its own.

BOUNDS. Years are between 400 and 9997 and at most 365 periods are asked for in the theorems on
periods, so that no date of a trend leaves the years 1 to 9999 of Python; the code limits the number of
periods itself. Other loops of the code are over finite lists. The loops over pages (JumpServer,
Active Directory, Veeam) have no bound: they are \<^verbatim>\<open>partial_function\<close>s, \<^verbatim>\<open>None\<close> is that they never return, and the
theorems say when they do.

PARAMETERS. What is not in the repository is an argument of the definitions: the clock, new
identifiers, \<^verbatim>\<open>json.loads\<close>, the model of pydantic (\<^verbatim>\<open>summary_model\<close>), \<^verbatim>\<open>fromisoformat\<close>, the text of
containers, the rounded average of floats (\<^verbatim>\<open>avg1\<close>), the HTTP server and \<^verbatim>\<open>urljoin\<close> (\<^verbatim>\<open>js_env\<close>), ldap3 (\<^verbatim>\<open>ad_env\<close>), the texts
of exceptions of libraries, refused writes (\<^verbatim>\<open>te_upsert_fails\<close>), and what other sessions commit between
two steps of a task (\<^verbatim>\<open>te_other\<close>, \<^verbatim>\<open>de_late\<close>), growth in percent as Python's floats have it
(\<^verbatim>\<open>growth_env\<close>), what sending a message raises (\<^verbatim>\<open>digest_env\<close>), how a time is read (\<^verbatim>\<open>at_to_utc\<close>), and the
server of Veeam with the reading of addresses and times (\<^verbatim>\<open>veeam_env\<close>, \<^verbatim>\<open>veeam_texts\<close>) for every source
(\<^verbatim>\<open>veeam_sync_env\<close>). Tables are lists of records in the order of insertion;
unique constraints are checked where the code flushes; an operation that raises gives back what the
last commit left. Values longer than their column are not refused.

NOT MODELLED. HTTP resources, routes and schemas (parsing and shaping without state); the adapters
that run SQL on live connections and the connections themselves; the aggregation of sizes (floating
point in SQL); create, read, update and delete over single tables; dashboards, exports and
migrations; authentication, which is that of libraries; the scheduler of APScheduler. Of Veeam the
administration of its sources is left out. The risk centre only reads and shapes what other parts
wrote, and the partitions are DDL of PostgreSQL.
\<close>

end
